(* ===== verification/Mandaria_Prelude.thy ===== *)
theory Mandaria_Prelude imports Main begin

text \<open>
  Shared ground of the development: the base types of the model (identifiers, instants,
  JavaScript values), the transaction type every database operation has, its combinators,
  and the generic lemmas on tables (lists of rows) that the component theories share.

  \<^item> An identifier (a UUID column) is a \<open>nat\<close>, an instant (a \<open>Date\<close>, in milliseconds) an \<open>int\<close>.
  \<^item> A database transaction is a function from the database to an error or a value and the
    next database. An error carries no database: the transaction rolls back.
  \<^item> A table is a list of rows; \<open>first_row\<close> is a \<open>SELECT\<close> of one row, \<open>update_rows\<close> an
    \<open>UPDATE ... WHERE\<close>.
\<close>

named_theorems tx_simps \<open>unfolding of the transaction combinators\<close>
named_theorems table_simps \<open>lookups and updates of tables\<close>

type_synonym id = nat
type_synonym instant = int

definition millis_per_minute :: int where
  "millis_per_minute = 60000"

subsection \<open>Enumerations of the schema that several components use\<close>

text \<open>\<open>ServiceType\<close> and \<open>CreditAccountOwnerType\<close> of src/prisma/schema.prisma.\<close>

datatype service_type = LOCAL_DELIVERY

datatype actor_type = PROVIDER | INDEPENDENT_DRIVER

subsection \<open>Decimal rendering\<close>

text \<open>\<open>String(n)\<close> of a non-negative integer and \<open>padStart(w, '0')\<close>.\<close>

definition digit_char :: "nat \<Rightarrow> char" where
  "digit_char d = char_of (48 + d)"

fun decimal :: "nat \<Rightarrow> string" where
  "decimal n = (if n < 10 then [digit_char n] else decimal (n div 10) @ [digit_char (n mod 10)])"

declare decimal.simps [simp del]

definition padStart :: "nat \<Rightarrow> string \<Rightarrow> string" where
  "padStart w s = replicate (w - length s) (CHR ''0'') @ s"

lemma length_padStart: "length (padStart w s) = max w (length s)"
  by (simp add: padStart_def)

text \<open>Reading the digits back, which undoes \<open>decimal\<close> and ignores leading zeros.\<close>

fun digits_value :: "nat \<Rightarrow> string \<Rightarrow> nat" where
  "digits_value acc [] = acc"
| "digits_value acc (c # cs) = digits_value (10 * acc + (of_char c - 48)) cs"

lemma digits_value_append:
  "digits_value acc (xs @ ys) = digits_value (digits_value acc xs) ys"
  by (induction xs arbitrary: acc) auto

lemma digit_char_value [simp]: "d < 10 \<Longrightarrow> of_char (digit_char d) = (48 + d :: nat)"
  by (simp add: digit_char_def)

lemma digits_value_decimal: "digits_value 0 (decimal n) = n"
proof (induction n rule: decimal.induct)
  case (1 n)
  then show ?case
    by (subst decimal.simps) (auto simp: digits_value_append)
qed

lemma digits_value_zeros: "digits_value 0 (replicate k (CHR ''0'') @ s) = digits_value 0 s"
  by (induction k) (auto simp: of_char_def)

lemma decimal_length: "n < 10 ^ Suc k \<Longrightarrow> length (decimal n) \<le> Suc k"
proof (induction k arbitrary: n)
  case 0
  then show ?case by (subst decimal.simps) simp
next
  case (Suc k)
  show ?case
  proof (cases "n < 10")
    case True
    then show ?thesis by (subst decimal.simps) simp
  next
    case False
    with Suc.prems have "n div 10 < 10 ^ Suc k" by (simp add: less_mult_imp_div_less)
    from Suc.IH [OF this] False show ?thesis by (subst decimal.simps) simp
  qed
qed

lemma decimal_digits: "c \<in> set (decimal n) \<Longrightarrow> \<exists>d < 10. c = digit_char d"
proof (induction n rule: decimal.induct)
  case (1 n)
  then show ?case
    by (subst (asm) (2) decimal.simps) (auto split: if_splits intro: exI [where x = "n mod 10"])
qed

subsection \<open>JavaScript values that a check receives as unknown\<close>

text \<open>
  \<open>Integral n\<close> is a number with an integer value, \<open>NotIntegral\<close> any other value (a fraction,
  NaN, an infinity, a string, an object). Null and undefined are \<open>None\<close> where they matter.
\<close>

datatype js_value = Integral int | NotIntegral

definition max_safe_integer :: int where
  "max_safe_integer = 9007199254740991"

fun isSafeInteger :: "js_value \<Rightarrow> bool" where
  "isSafeInteger (Integral n) = (\<bar>n\<bar> \<le> max_safe_integer)"
| "isSafeInteger NotIntegral = False"

subsection \<open>Transactions\<close>

type_synonym ('e, 's, 'a) tx = "'s \<Rightarrow> 'e + ('a \<times> 's)"

definition returnT :: "'a \<Rightarrow> ('e, 's, 'a) tx" where
  "returnT a s = Inr (a, s)"

definition throwT :: "'e \<Rightarrow> ('e, 's, 'a) tx" where
  "throwT e s = Inl e"

definition bindT :: "('e, 's, 'a) tx \<Rightarrow> ('a \<Rightarrow> ('e, 's, 'b) tx) \<Rightarrow> ('e, 's, 'b) tx" where
  "bindT m k s = (case m s of Inl e \<Rightarrow> Inl e | Inr (a, s') \<Rightarrow> k a s')"

definition getT :: "('e, 's, 's) tx" where
  "getT s = Inr (s, s)"

definition readT :: "('s \<Rightarrow> 'a) \<Rightarrow> ('e, 's, 'a) tx" where
  "readT f s = Inr (f s, s)"

definition guardT :: "bool \<Rightarrow> 'e \<Rightarrow> ('e, 's, unit) tx" where
  "guardT b e s = (if b then Inr ((), s) else Inl e)"

definition requireT :: "('s \<Rightarrow> 'a option) \<Rightarrow> 'e \<Rightarrow> ('e, 's, 'a) tx" where
  "requireT f e s = (case f s of None \<Rightarrow> Inl e | Some a \<Rightarrow> Inr (a, s))"

text \<open>A handler's catch clause: the errors of a write are translated, its success passes.\<close>

definition catchT :: "('e, 's, 'a) tx \<Rightarrow> ('e \<Rightarrow> 'e) \<Rightarrow> ('e, 's, 'a) tx" where
  "catchT m h s = (case m s of Inl e \<Rightarrow> Inl (h e) | Inr r \<Rightarrow> Inr r)"

fun mapT :: "('a \<Rightarrow> ('e, 's, 'b) tx) \<Rightarrow> 'a list \<Rightarrow> ('e, 's, 'b list) tx" where
  "mapT f [] = returnT []"
| "mapT f (x # xs) = bindT (f x) (\<lambda>y. bindT (mapT f xs) (\<lambda>ys. returnT (y # ys)))"

text \<open>
  Running a transaction from outside: a commit stores the new state, an error leaves the state
  as it was.
\<close>

definition commitT :: "('e, 's, 'a) tx \<Rightarrow> 's \<Rightarrow> ('e + 'a) \<times> 's" where
  "commitT m s = (case m s of Inl e \<Rightarrow> (Inl e, s) | Inr (a, s') \<Rightarrow> (Inr a, s'))"

lemma returnT_Inr [tx_simps]: "returnT a s = Inr (b, s') \<longleftrightarrow> b = a \<and> s' = s"
  by (auto simp: returnT_def)

lemma throwT_Inr [tx_simps]: "throwT e s = Inr r \<longleftrightarrow> False"
  by (simp add: throwT_def)

lemma throwT_Inl [tx_simps]: "throwT e s = Inl e' \<longleftrightarrow> e' = e"
  by (auto simp: throwT_def)

lemma returnT_Inl [tx_simps]: "returnT a s = Inl e \<longleftrightarrow> False"
  by (simp add: returnT_def)

lemma bindT_Inr [tx_simps]:
  "bindT m k s = Inr r \<longleftrightarrow> (\<exists>a s'. m s = Inr (a, s') \<and> k a s' = Inr r)"
  by (auto simp: bindT_def split: sum.splits)

lemma bindT_Inl [tx_simps]:
  "bindT m k s = Inl e \<longleftrightarrow> m s = Inl e \<or> (\<exists>a s'. m s = Inr (a, s') \<and> k a s' = Inl e)"
  by (auto simp: bindT_def split: sum.splits)

lemma readT_Inr [tx_simps]: "readT f s = Inr (a, s') \<longleftrightarrow> a = f s \<and> s' = s"
  by (auto simp: readT_def)

lemma readT_Inl [tx_simps]: "readT f s = Inl e \<longleftrightarrow> False"
  by (simp add: readT_def)

lemma getT_Inr [tx_simps]: "getT s = Inr (a, s') \<longleftrightarrow> a = s \<and> s' = s"
  by (auto simp: getT_def)

lemma getT_Inl [tx_simps]: "getT s = Inl e \<longleftrightarrow> False"
  by (simp add: getT_def)

lemma guardT_Inr [tx_simps]: "guardT b e s = Inr (u, s') \<longleftrightarrow> b \<and> s' = s"
  by (auto simp: guardT_def)

lemma guardT_Inl [tx_simps]: "guardT b e s = Inl e' \<longleftrightarrow> \<not> b \<and> e' = e"
  by (auto simp: guardT_def)

lemma requireT_Inr [tx_simps]: "requireT f e s = Inr (a, s') \<longleftrightarrow> f s = Some a \<and> s' = s"
  by (auto simp: requireT_def split: option.splits)

lemma requireT_Inl [tx_simps]: "requireT f e s = Inl e' \<longleftrightarrow> f s = None \<and> e' = e"
  by (auto simp: requireT_def split: option.splits)

lemma catchT_Inr [tx_simps]: "catchT m h s = Inr r \<longleftrightarrow> m s = Inr r"
  by (auto simp: catchT_def split: sum.splits)

lemma catchT_Inl [tx_simps]: "catchT m h s = Inl e \<longleftrightarrow> (\<exists>e'. m s = Inl e' \<and> e = h e')"
  by (auto simp: catchT_def split: sum.splits)

lemma commitT_cases:
  "commitT m s = (r, s') \<longleftrightarrow>
     (\<exists>e. m s = Inl e \<and> r = Inl e \<and> s' = s) \<or> (\<exists>a. m s = Inr (a, s') \<and> r = Inr a)"
  by (auto simp: commitT_def split: sum.splits)

lemma commitT_rollback: "commitT m s = (Inl e, s') \<Longrightarrow> s' = s"
  by (auto simp: commitT_cases)

text \<open>The outcome of a transaction run at a concrete database, for the examples.\<close>

fun succeeded :: "'e + 'a \<times> 's \<Rightarrow> bool" where
  "succeeded (Inl e) = False"
| "succeeded (Inr r) = True"

fun state_after :: "'s \<Rightarrow> 'e + 'a \<times> 's \<Rightarrow> 's" where
  "state_after s (Inl e) = s"
| "state_after s (Inr r) = snd r"

lemma succeeded_Inr: "succeeded r \<Longrightarrow> \<exists>a. r = Inr (a, state_after s r)"
  by (cases r) auto

text \<open>An invariant kept by each step of a loop is kept by the loop.\<close>

lemma mapT_invariant:
  assumes "\<And>x s y s'. x \<in> set xs \<Longrightarrow> I s \<Longrightarrow> f x s = Inr (y, s') \<Longrightarrow> I s'"
    and "mapT f xs s = Inr (ys, s')" and "I s"
  shows "I s'"
  using assms
proof (induction xs arbitrary: s ys)
  case Nil
  then show ?case by (simp add: tx_simps)
next
  case (Cons x xs)
  from Cons.prems(2) obtain y s1 zs where
    1: "f x s = Inr (y, s1)" and 2: "mapT f xs s1 = Inr (zs, s')"
    by (auto simp: tx_simps)
  from Cons.prems(1,3) 1 have "I s1" by (meson list.set_intros(1))
  with Cons.IH [OF _ 2] Cons.prems(1) show ?case by (meson list.set_intros(2))
qed

subsection \<open>Tables\<close>

definition first_row :: "('r \<Rightarrow> bool) \<Rightarrow> 'r list \<Rightarrow> 'r option" where
  "first_row P rs = List.find P rs"

definition any_row :: "('r \<Rightarrow> bool) \<Rightarrow> 'r list \<Rightarrow> bool" where
  "any_row P rs \<longleftrightarrow> list_ex P rs"

definition update_rows :: "('r \<Rightarrow> bool) \<Rightarrow> ('r \<Rightarrow> 'r) \<Rightarrow> 'r list \<Rightarrow> 'r list" where
  "update_rows P f rs = map (\<lambda>r. if P r then f r else r) rs"

lemma first_row_Some: "first_row P rs = Some r \<Longrightarrow> r \<in> set rs \<and> P r"
  unfolding first_row_def by (induction rs) (auto split: if_splits)

lemma first_row_None: "first_row P rs = None \<longleftrightarrow> (\<forall>r \<in> set rs. \<not> P r)"
  unfolding first_row_def by (auto simp: find_None_iff)

lemma first_row_append:
  "first_row P (xs @ ys) = (case first_row P xs of None \<Rightarrow> first_row P ys | Some r \<Rightarrow> Some r)"
  by (induction xs) (auto simp: first_row_def)

lemma first_row_single: "first_row P [x] = (if P x then Some x else None)"
  by (simp add: first_row_def)

lemma any_row_iff [table_simps]: "any_row P rs \<longleftrightarrow> (\<exists>r \<in> set rs. P r)"
  by (simp add: any_row_def list_ex_iff)

lemma update_rows_Nil [simp]: "update_rows P f [] = []"
  and update_rows_Cons [simp]:
    "update_rows P f (r # rs) = (if P r then f r else r) # update_rows P f rs"
  by (simp_all add: update_rows_def)

lemma set_update_rows [table_simps]:
  "set (update_rows P f rs) = (\<lambda>r. if P r then f r else r) ` set rs"
  by (simp add: update_rows_def)

lemma map_update_rows:
  "(\<And>r. r \<in> set rs \<Longrightarrow> P r \<Longrightarrow> g (f r) = g r) \<Longrightarrow> map g (update_rows P f rs) = map g rs"
  by (induction rs) (auto simp: update_rows_def)

lemma in_update_rows:
  "r \<in> set (update_rows P f rs) \<longleftrightarrow>
     (\<exists>q \<in> set rs. r = (if P q then f q else q))"
  by (auto simp: set_update_rows)

lemma any_row_update_rows:
  "any_row P (update_rows Q f rs) \<longleftrightarrow> (\<exists>q \<in> set rs. P (if Q q then f q else q))"
  unfolding any_row_iff set_update_rows by blast

text \<open>A row found by its unique key is the only row with that key.\<close>

lemma unique_key:
  "distinct (map key rs) \<Longrightarrow> r \<in> set rs \<Longrightarrow> q \<in> set rs \<Longrightarrow> key r = key q \<Longrightarrow> r = q"
  by (metis distinct_map inj_on_def)

text \<open>Another row keeps what is found by a key that the update does not change.\<close>

lemma first_row_update_other:
  "(\<And>r. P r \<Longrightarrow> Q r \<Longrightarrow> False) \<Longrightarrow> (\<And>r. P r \<Longrightarrow> \<not> Q (f r)) \<Longrightarrow> first_row Q (update_rows P f rs) = first_row Q rs"
  unfolding first_row_def by (induction rs) (auto simp: update_rows_def)

lemma first_row_unique_key:
  assumes "distinct (map key rs)" and "r \<in> set rs"
  shows "first_row (\<lambda>q. key q = key r) rs = Some r"
proof (cases "first_row (\<lambda>q. key q = key r) rs")
  case None
  with assms(2) show ?thesis by (auto simp: first_row_None)
next
  case (Some q)
  then have "q \<in> set rs" "key q = key r" by (auto dest: first_row_Some)
  with assms have "q = r" by (metis unique_key)
  with Some show ?thesis by simp
qed

text \<open>
  A unique index: \<open>unique_on A key rows\<close> says that no two rows with \<open>A\<close> (the condition of a
  partial index) have one key. Inserting a row keeps it when the index lets the row in, updating
  one row when no other row has the new key.
\<close>

definition unique_on :: "('r \<Rightarrow> bool) \<Rightarrow> ('r \<Rightarrow> 'k) \<Rightarrow> 'r list \<Rightarrow> bool" where
  "unique_on A key rows \<longleftrightarrow> distinct (map key (filter A rows))"

lemma unique_on_Nil [simp]: "unique_on A key []"
  by (simp add: unique_on_def)

lemma unique_on_append [table_simps]:
  "unique_on A key (rows @ [r]) \<longleftrightarrow>
     unique_on A key rows \<and> (A r \<longrightarrow> (\<forall>q \<in> set rows. A q \<longrightarrow> key q \<noteq> key r))"
  by (auto simp: unique_on_def image_iff dest: sym)

lemma unique_onD:
  "unique_on A key rows \<Longrightarrow> p \<in> set rows \<Longrightarrow> q \<in> set rows \<Longrightarrow> A p \<Longrightarrow> A q \<Longrightarrow> key p = key q \<Longrightarrow> p = q"
  unfolding unique_on_def by (auto simp: distinct_map dest: inj_onD)

lemma update_rows_none: "(\<And>r. r \<in> set rs \<Longrightarrow> \<not> P r) \<Longrightarrow> update_rows P f rs = rs"
  by (induction rs) auto

lemma unique_on_update:
  assumes "distinct (map k rows)" and "unique_on A key rows"
    and "\<And>r q. r \<in> set rows \<Longrightarrow> k r = i \<Longrightarrow> A (f r) \<Longrightarrow> q \<in> set rows \<Longrightarrow> k q \<noteq> i \<Longrightarrow> A q \<Longrightarrow> key q \<noteq> key (f r)"
  shows "unique_on A key (update_rows (\<lambda>r. k r = i) f rows)"
  using assms
proof (induction rows)
  case Nil
  then show ?case by simp
next
  case (Cons r rs)
  from Cons.prems(2) have u: "unique_on A key rs" by (auto simp: unique_on_def split: if_splits)
  show ?case
  proof (cases "k r = i")
    case True
    with Cons.prems(1) have rest: "\<And>q. q \<in> set rs \<Longrightarrow> k q \<noteq> i" by (force simp: image_iff)
    then have "update_rows (\<lambda>r. k r = i) f rs = rs" by (intro update_rows_none) auto
    moreover have "A (f r) \<Longrightarrow> \<forall>q \<in> set rs. A q \<longrightarrow> key q \<noteq> key (f r)"
      using Cons.prems(3) [of r] True rest by auto
    ultimately show ?thesis using True u by (auto simp: unique_on_def)
  next
    case False
    have "unique_on A key (update_rows (\<lambda>r. k r = i) f rs)"
      using Cons.IH [OF _ u] Cons.prems(1,3) by auto
    moreover have "\<forall>q \<in> set (update_rows (\<lambda>r. k r = i) f rs). A r \<longrightarrow> A q \<longrightarrow> key q \<noteq> key r"
    proof (intro ballI impI)
      fix q
      assume q: "q \<in> set (update_rows (\<lambda>r. k r = i) f rs)" and "A r" "A q"
      then obtain p where p: "p \<in> set rs" "q = (if k p = i then f p else p)"
        by (auto simp: set_update_rows)
      show "key q \<noteq> key r"
      proof (cases "k p = i")
        case True
        with p Cons.prems(3) [of p r] False \<open>A r\<close> \<open>A q\<close> show ?thesis by auto
      next
        case False
        with p Cons.prems(2) \<open>A r\<close> \<open>A q\<close> show ?thesis by (auto simp: unique_on_def image_iff)
      qed
    qed
    ultimately show ?thesis using False by (auto simp: unique_on_def)
  qed
qed

lemma list_all_update:
  "list_all Q rows \<Longrightarrow> (\<And>r. r \<in> set rows \<Longrightarrow> P r \<Longrightarrow> Q r \<Longrightarrow> Q (f r)) \<Longrightarrow> list_all Q (update_rows P f rows)"
  by (auto simp: list_all_iff set_update_rows)

subsection \<open>Texts in SQL\<close>

text \<open>\<open>btrim\<close> removes spaces at both ends; a length test lets NULL pass.\<close>

definition btrim :: "string \<Rightarrow> string" where
  "btrim s = rev (dropWhile (\<lambda>c. c = CHR '' '') (rev (dropWhile (\<lambda>c. c = CHR '' '') s)))"

definition length_between :: "nat \<Rightarrow> nat \<Rightarrow> string option \<Rightarrow> bool" where
  "length_between lo hi t = (case t of None \<Rightarrow> True | Some s \<Rightarrow> lo \<le> length s \<and> length s \<le> hi)"

subsection \<open>Step relations with an invariant\<close>

text \<open>
  The interface of every state machine of the development: a step relation and an invariant that
  each step keeps. Its instances conclude that what is reachable satisfies the invariant.
\<close>

locale invariant_system =
  fixes step :: "'s \<Rightarrow> 's \<Rightarrow> bool" and inv :: "'s \<Rightarrow> bool"
  assumes inv_step: "step s t \<Longrightarrow> inv s \<Longrightarrow> inv t"
begin

lemma reachable_inv:
  assumes "rtranclp step s t" and "inv s"
  shows "inv t"
  using assms by (induction rule: rtranclp_induct) (auto intro: inv_step)

end

end
