(* ===== verification/Credit_Policy.thy ===== *)
theory Credit_Policy imports Mandaria_Prelude begin

text \<open>
  Credit rules shared by every movement (src/src/credits/credit-policy.ts): the limits of a
  movement and of a balance, the sign convention of the ledger, the next balance of an account
  and the error codes of the credit domain.
\<close>

datatype credit_error =
    INSUFFICIENT_CREDITS
  | CREDIT_BALANCE_LIMIT
  | CREDIT_IDEMPOTENCY_CONFLICT
  | CREDIT_MOVEMENT_CONFLICT
  | CREDIT_ACCOUNT_NOT_FOUND
  | CREDIT_ACCOUNT_UNAVAILABLE
  | CREDIT_SNAPSHOT_UNAVAILABLE
  | CREDIT_REFUND_INTEGRITY_ERROR

fun CREDIT_ERRORS :: "credit_error \<Rightarrow> nat" where
  "CREDIT_ERRORS CREDIT_ACCOUNT_NOT_FOUND = 404"
| "CREDIT_ERRORS _ = 409"

definition MAX_CREDIT_MOVEMENT :: int where
  "MAX_CREDIT_MOVEMENT = 1000000"

definition MAX_CREDIT_BALANCE :: int where
  "MAX_CREDIT_BALANCE = 1000000000"

datatype ledger_type = RECHARGE | SERVICE_AWARD | SERVICE_REFUND | ADMIN_ADJUSTMENT

text \<open>\<open>Number.isInteger\<close> holds of an \<open>int\<close> amount; only its sign is left to check.\<close>

definition signAllowed :: "ledger_type \<Rightarrow> int \<Rightarrow> bool" where
  "signAllowed type amount =
     (if amount = 0 then False
      else if type = RECHARGE \<or> type = SERVICE_REFUND then amount > 0
      else if type = SERVICE_AWARD then amount < 0
      else True)"

definition nextBalance :: "int \<Rightarrow> int \<Rightarrow> credit_error + int" where
  "nextBalance balanceBefore amount =
     (let balanceAfter = balanceBefore + amount in
      if balanceAfter < 0 then Inl INSUFFICIENT_CREDITS
      else if balanceAfter > MAX_CREDIT_BALANCE then Inl CREDIT_BALANCE_LIMIT
      else Inr balanceAfter)"

lemma nextBalance_Inr:
  "nextBalance b a = Inr c \<longleftrightarrow> c = b + a \<and> 0 \<le> c \<and> c \<le> MAX_CREDIT_BALANCE"
  by (auto simp: nextBalance_def Let_def)

lemma nextBalance_Inl:
  "nextBalance b a = Inl e \<longleftrightarrow>
     (b + a < 0 \<and> e = INSUFFICIENT_CREDITS) \<or>
     (b + a > MAX_CREDIT_BALANCE \<and> e = CREDIT_BALANCE_LIMIT)"
  by (auto simp: nextBalance_def Let_def MAX_CREDIT_BALANCE_def)

text \<open>With both limits a balance plus a movement stays inside a 32-bit INTEGER column.\<close>

lemma movement_fits_integer:
  assumes "0 \<le> b" "b \<le> MAX_CREDIT_BALANCE" "\<bar>a\<bar> \<le> MAX_CREDIT_MOVEMENT"
  shows "- (2 ^ 31) \<le> b + a" "b + a < 2 ^ 31"
  using assms by (auto simp: MAX_CREDIT_BALANCE_def MAX_CREDIT_MOVEMENT_def)

subsection \<open>Free texts\<close>

text \<open>\<open>PRINTABLE_TEXT\<close>: one or more characters, none of them a control character.\<close>

definition printable :: "string \<Rightarrow> bool" where
  "printable t \<longleftrightarrow>
     t \<noteq> [] \<and> list_all (\<lambda>c. 32 \<le> (of_char c :: nat) \<and> \<not> (127 \<le> (of_char c :: nat) \<and> (of_char c :: nat) \<le> 159)) t"

text \<open>A text the DTO accepts has been trimmed: no blank is left at its ends.\<close>

definition text_between :: "nat \<Rightarrow> nat \<Rightarrow> string \<Rightarrow> bool" where
  "text_between lo hi t \<longleftrightarrow> btrim t = t \<and> lo \<le> length t \<and> length t \<le> hi \<and> printable t"

definition reason_ok :: "string \<Rightarrow> bool" where
  "reason_ok t \<longleftrightarrow> text_between 3 500 t"

lemma reason_ok_length: "reason_ok t \<Longrightarrow> length_between 3 500 (Some (btrim t))"
  by (simp add: reason_ok_def text_between_def length_between_def)

end
