(* ===== verification/Distance_Tables.thy ===== *)
theory Distance_Tables imports Mandaria_Prelude "HOL-Library.Multiset" begin

text \<open>
  Two parts of the program price a distance with a table of half-open intervals: the ranges of a
  credit policy and the bands of a rate plan. This theory states what such a table has to
  satisfy (\<open>chain\<close>: it starts at a point, every row begins where the previous one ends, only
  the last may be open) and, as a locale, the interface both of them provide: a lower limit, an
  upper limit and the test whether a row covers a distance.
\<close>

fun chain :: "('r \<Rightarrow> int) \<Rightarrow> ('r \<Rightarrow> int option) \<Rightarrow> int \<Rightarrow> 'r list \<Rightarrow> bool" where
  "chain lo hi a [] = True"
| "chain lo hi a (r # rs) =
     (lo r = a \<and>
      (case hi r of None \<Rightarrow> rs = [] | Some m \<Rightarrow> a < m \<and> chain lo hi m rs))"

text \<open>Where the table ends: \<open>None\<close> when its last row is open.\<close>

fun chain_end :: "('r \<Rightarrow> int option) \<Rightarrow> int \<Rightarrow> 'r list \<Rightarrow> int option" where
  "chain_end hi a [] = Some a"
| "chain_end hi a (r # rs) = (case hi r of None \<Rightarrow> None | Some m \<Rightarrow> chain_end hi m rs)"

definition before_end :: "int option \<Rightarrow> int \<Rightarrow> bool" where
  "before_end e d = (case e of None \<Rightarrow> True | Some m \<Rightarrow> d < m)"

lemma before_end_simps [simp]:
  "before_end None d" "before_end (Some m) d \<longleftrightarrow> d < m"
  by (simp_all add: before_end_def)

lemma chain_end_ge: "chain lo hi a rs \<Longrightarrow> chain_end hi a rs = Some e \<Longrightarrow> a \<le> e"
  by (induction rs arbitrary: a) (fastforce split: option.splits)+

locale distance_table =
  fixes lo :: "'r \<Rightarrow> int"
    and hi :: "'r \<Rightarrow> int option"
    and covers :: "'r \<Rightarrow> int \<Rightarrow> bool"
  assumes covers_iff: "covers r d \<longleftrightarrow> lo r \<le> d \<and> before_end (hi r) d"
begin

lemma none_before: "chain lo hi a rs \<Longrightarrow> d < a \<Longrightarrow> filter (\<lambda>r. covers r d) rs = []"
proof (induction rs arbitrary: a)
  case Nil
  then show ?case by simp
next
  case (Cons r rs)
  show ?case
  proof (cases "hi r")
    case None
    with Cons.prems show ?thesis by (auto simp: covers_iff)
  next
    case (Some m)
    with Cons.prems have "chain lo hi m rs" "d < m" by auto
    with Cons.IH Cons.prems show ?thesis by (auto simp: covers_iff)
  qed
qed

lemma length_covering:
  "chain lo hi a rs \<Longrightarrow>
   length (filter (\<lambda>r. covers r d) rs) =
     (if a \<le> d \<and> before_end (chain_end hi a rs) d then 1 else 0)"
proof (induction rs arbitrary: a)
  case Nil
  then show ?case by simp
next
  case (Cons r rs)
  show ?case
  proof (cases "hi r")
    case None
    with Cons.prems show ?thesis by (auto simp: covers_iff)
  next
    case (Some m)
    with Cons.prems have c: "chain lo hi m rs" and am: "a < m" and lo: "lo r = a" by auto
    show ?thesis
    proof (cases "d < m")
      case True
      have "before_end (chain_end hi m rs) d"
        using True chain_end_ge [OF c] by (cases "chain_end hi m rs") fastforce+
      with True none_before [OF c True] Some lo show ?thesis
        by (auto simp: covers_iff)
    next
      case False
      with Cons.IH [OF c] Some lo am show ?thesis by (auto simp: covers_iff)
    qed
  qed
qed

text \<open>The order in which the rows are stored does not matter to a lookup by covering.\<close>

lemma length_covering_sorted:
  assumes "chain lo hi a (sort_key lo rs)"
  shows "length (filter (\<lambda>r. covers r d) rs) =
     (if a \<le> d \<and> before_end (chain_end hi a (sort_key lo rs)) d then 1 else 0)"
proof -
  have "mset (filter (\<lambda>r. covers r d) (sort_key lo rs)) = mset (filter (\<lambda>r. covers r d) rs)"
    by (simp add: mset_filter)
  then have "length (filter (\<lambda>r. covers r d) (sort_key lo rs)) =
      length (filter (\<lambda>r. covers r d) rs)"
    by (rule mset_eq_length)
  with length_covering [OF assms] show ?thesis by simp
qed

lemma single_covering:
  assumes "chain lo hi a (sort_key lo rs)"
    and "a \<le> d" and "before_end (chain_end hi a (sort_key lo rs)) d"
  shows "\<exists>r. filter (\<lambda>r. covers r d) rs = [r] \<and> r \<in> set rs \<and> covers r d"
proof -
  from length_covering_sorted [OF assms(1), of d] assms(2,3)
  have "length (filter (\<lambda>r. covers r d) rs) = 1" by simp
  then obtain r where r: "filter (\<lambda>r. covers r d) rs = [r]"
    by (auto simp: length_Suc_conv)
  then have "{x \<in> set rs. covers x d} = set [r]" by (metis set_filter)
  then have "r \<in> set rs" "covers r d" by auto
  with r show ?thesis by blast
qed

lemma find_covering:
  "filter (\<lambda>r. covers r d) rs = [r] \<Longrightarrow> List.find (\<lambda>r. covers r d) rs = Some r"
  by (induction rs) (auto split: if_splits)

lemma find_outside:
  assumes "chain lo hi a (sort_key lo rs)"
    and "\<not> (a \<le> d \<and> before_end (chain_end hi a (sort_key lo rs)) d)"
  shows "List.find (\<lambda>r. covers r d) rs = None"
proof -
  from length_covering_sorted [OF assms(1), of d] assms(2)
  have "filter (\<lambda>r. covers r d) rs = []" by auto
  then show ?thesis by (auto simp: find_None_iff filter_empty_conv)
qed

end

end
