(* ===== verification/Credit_Policy_Engine.thy ===== *)
theory Credit_Policy_Engine imports Credit_Policy Distance_Tables begin

text \<open>
  The credit policy engine (src/src/credit-policies/credit-policy-engine.ts): validation of a
  policy configuration, the range table of a distance policy and the credit cost of a service.
  Error messages are values of \<open>policy_problem\<close>, one constructor per message of the code with
  the values the message interpolates.
\<close>

datatype policy_error =
    CREDIT_POLICY_UNAVAILABLE
  | CREDIT_POLICY_EXISTS
  | CREDIT_POLICY_VERSION_CONFLICT
  | CREDIT_COST_OUT_OF_RANGE
  | CREDIT_DISTANCE_INVALID

fun CREDIT_POLICY_ERRORS :: "policy_error \<Rightarrow> nat" where
  "CREDIT_POLICY_ERRORS CREDIT_COST_OUT_OF_RANGE = 422"
| "CREDIT_POLICY_ERRORS CREDIT_DISTANCE_INVALID = 422"
| "CREDIT_POLICY_ERRORS _ = 409"

definition MAX_POLICY_CREDITS :: int where
  "MAX_POLICY_CREDITS = MAX_CREDIT_MOVEMENT"

definition MAX_DISTANCE_METERS :: int where
  "MAX_DISTANCE_METERS = 2147483647"

definition MAX_POLICY_RANGES :: nat where
  "MAX_POLICY_RANGES = 50"

datatype calculation_type = PER_KM | FLAT | DISTANCE_RANGE

text \<open>
  A range as the request sends it; a null \<open>maxDistanceMeters\<close> is \<open>None\<close>. Distances and credits
  are integers: the request DTO and the INTEGER columns admit nothing else.
\<close>

record range_input =
  minDistanceMeters :: int
  maxDistanceMeters :: "int option"
  credits :: int

text \<open>A stored or normalized range carries its position 1..n as well.\<close>

record policy_range = range_input +
  position :: nat

record policy_config =
  cfg_calculationType :: "calculation_type option" \<comment> \<open>\<open>None\<close>: any other text\<close>
  cfg_creditsPerKm :: "js_value option"
  cfg_minimumCredits :: "js_value option"
  cfg_flatCredits :: "js_value option"
  cfg_ranges :: "range_input list option"

definition isCredits :: "js_value option \<Rightarrow> int \<Rightarrow> bool" where
  "isCredits v low =
     (case v of
        Some (Integral n) \<Rightarrow> isSafeInteger (Integral n) \<and> n \<ge> low \<and> n \<le> MAX_POLICY_CREDITS
      | _ \<Rightarrow> False)"

definition present :: "'a option \<Rightarrow> bool" where
  "present v = (v \<noteq> None)"

lemma isCredits_iff:
  "0 \<le> low \<Longrightarrow> isCredits v low \<longleftrightarrow> (\<exists>n. v = Some (Integral n) \<and> low \<le> n \<and> n \<le> MAX_POLICY_CREDITS)"
  by (auto simp: isCredits_def MAX_POLICY_CREDITS_def MAX_CREDIT_MOVEMENT_def max_safe_integer_def
      split: option.splits js_value.splits)

datatype policy_field = CreditsPerKm | MinimumCredits | FlatCredits | Ranges

datatype policy_problem =
    MustBeCredits policy_field int \<comment> \<open>the field must be an integer from this lower limit on\<close>
  | NotAllowed policy_field calculation_type
  | RequiresRange
  | UnknownCalculationType
  | TooManyRanges
  | BadMinDistance range_input
  | BadMaxDistance range_input
  | MaxNotGreater range_input
  | BadRangeCredits range_input
  | FirstMustStartAtZero range_input
  | LastMustBeOpen range_input
  | OnlyLastOpen range_input
  | Gap int int
  | Overlap range_input range_input
  | SameStart int

subsection \<open>Range validation\<close>

text \<open>The body of the \<open>forEach\<close>: the problems of one range, given its predecessor.\<close>

definition range_problems :: "range_input option \<Rightarrow> range_input \<Rightarrow> bool \<Rightarrow> policy_problem list" where
  "range_problems previous r isLast =
     (if \<not> isSafeInteger (Integral (minDistanceMeters r)) \<or> minDistanceMeters r < 0
         \<or> minDistanceMeters r > MAX_DISTANCE_METERS
      then [BadMinDistance r] else [])
     @ (case maxDistanceMeters r of
          None \<Rightarrow> []
        | Some m \<Rightarrow>
            if \<not> isSafeInteger (Integral m) \<or> m > MAX_DISTANCE_METERS then [BadMaxDistance r]
            else if m \<le> minDistanceMeters r then [MaxNotGreater r] else [])
     @ (if \<not> isCredits (Some (Integral (credits r))) 1 then [BadRangeCredits r] else [])
     @ (if previous = None \<and> minDistanceMeters r \<noteq> 0 then [FirstMustStartAtZero r] else [])
     @ (if isLast \<and> maxDistanceMeters r \<noteq> None then [LastMustBeOpen r] else [])
     @ (if \<not> isLast \<and> maxDistanceMeters r = None then [OnlyLastOpen r] else [])
     @ (case previous of
          None \<Rightarrow> []
        | Some p \<Rightarrow>
            (case maxDistanceMeters p of
               None \<Rightarrow> []
             | Some pm \<Rightarrow>
                 if minDistanceMeters r > pm then [Gap pm (minDistanceMeters r)]
                 else if minDistanceMeters r < pm then [Overlap p r] else [])
            @ (if minDistanceMeters r = minDistanceMeters p
               then [SameStart (minDistanceMeters r)] else []))"

fun ranges_problems :: "range_input option \<Rightarrow> range_input list \<Rightarrow> policy_problem list" where
  "ranges_problems previous [] = []"
| "ranges_problems previous (r # rs) =
     range_problems previous r (rs = []) @ ranges_problems (Some r) rs"

fun with_positions :: "nat \<Rightarrow> range_input list \<Rightarrow> policy_range list" where
  "with_positions i [] = []"
| "with_positions i (r # rs) =
     \<lparr>minDistanceMeters = minDistanceMeters r, maxDistanceMeters = maxDistanceMeters r,
      credits = credits r, position = i + 1\<rparr> # with_positions (i + 1) rs"

definition validateRanges :: "range_input list \<Rightarrow> policy_problem list \<times> policy_range list" where
  "validateRanges input =
     (let byStart = sort_key minDistanceMeters input in
      ((if length input > MAX_POLICY_RANGES then [TooManyRanges] else [])
         @ ranges_problems None byStart,
       with_positions 0 byStart))"

subsection \<open>Policy validation\<close>

record policy_validation =
  valid :: bool
  errors :: "policy_problem list"
  ranges :: "policy_range list"

definition reject_if :: "bool \<Rightarrow> policy_field \<Rightarrow> calculation_type \<Rightarrow> policy_problem list" where
  "reject_if b field type = (if b then [NotAllowed field type] else [])"

definition validatePolicyConfig :: "policy_config \<Rightarrow> policy_validation" where
  "validatePolicyConfig config =
     (let hasRanges = (case cfg_ranges config of None \<Rightarrow> False | Some rs \<Rightarrow> rs \<noteq> []);
          found =
           (case cfg_calculationType config of
              Some PER_KM \<Rightarrow>
                (if \<not> isCredits (cfg_creditsPerKm config) 1 then [MustBeCredits CreditsPerKm 1] else [])
                @ (if \<not> isCredits (cfg_minimumCredits config) 0
                   then [MustBeCredits MinimumCredits 0] else [])
                @ reject_if (present (cfg_flatCredits config)) FlatCredits PER_KM
                @ reject_if hasRanges Ranges PER_KM
            | Some FLAT \<Rightarrow>
                (if \<not> isCredits (cfg_flatCredits config) 1 then [MustBeCredits FlatCredits 1] else [])
                @ reject_if (present (cfg_creditsPerKm config)) CreditsPerKm FLAT
                @ reject_if (present (cfg_minimumCredits config)) MinimumCredits FLAT
                @ reject_if hasRanges Ranges FLAT
            | Some DISTANCE_RANGE \<Rightarrow>
                reject_if (present (cfg_creditsPerKm config)) CreditsPerKm DISTANCE_RANGE
                @ reject_if (present (cfg_minimumCredits config)) MinimumCredits DISTANCE_RANGE
                @ reject_if (present (cfg_flatCredits config)) FlatCredits DISTANCE_RANGE
                @ (if \<not> hasRanges then [RequiresRange] else [])
            | None \<Rightarrow> [UnknownCalculationType]);
          (extra, rs) =
           (if cfg_calculationType config = Some DISTANCE_RANGE \<and> hasRanges
            then validateRanges (the (cfg_ranges config)) else ([], []))
      in \<lparr>valid = (found @ extra = []), errors = found @ extra, ranges = rs\<rparr>)"

subsection \<open>Well-formed range tables\<close>

definition range_ok :: "range_input \<Rightarrow> bool" where
  "range_ok r \<longleftrightarrow>
     0 \<le> minDistanceMeters r \<and> minDistanceMeters r \<le> MAX_DISTANCE_METERS \<and>
     (case maxDistanceMeters r of
        None \<Rightarrow> True | Some m \<Rightarrow> minDistanceMeters r < m \<and> m \<le> MAX_DISTANCE_METERS) \<and>
     1 \<le> credits r \<and> credits r \<le> MAX_POLICY_CREDITS"

lemma meters_safe:
  "0 \<le> n \<Longrightarrow> n \<le> MAX_DISTANCE_METERS \<Longrightarrow> isSafeInteger (Integral n)"
  by (simp add: MAX_DISTANCE_METERS_def max_safe_integer_def)

lemma range_problems_Nil:
  "range_problems previous r isLast = [] \<longleftrightarrow>
     range_ok r \<and> (isLast \<longleftrightarrow> maxDistanceMeters r = None) \<and>
     (case previous of
        None \<Rightarrow> minDistanceMeters r = 0
      | Some p \<Rightarrow>
          (case maxDistanceMeters p of None \<Rightarrow> True | Some pm \<Rightarrow> minDistanceMeters r = pm) \<and>
          minDistanceMeters r \<noteq> minDistanceMeters p)"
  unfolding range_problems_def range_ok_def
  using meters_safe [of "minDistanceMeters r"] meters_safe [of "the (maxDistanceMeters r)"]
  by (auto simp: isCredits_iff split: option.splits if_splits)

lemma ranges_problems_after:
  assumes "maxDistanceMeters p = Some pm" and "minDistanceMeters p < pm"
  shows "ranges_problems (Some p) rs = [] \<longleftrightarrow>
     (\<forall>r \<in> set rs. range_ok r) \<and> chain minDistanceMeters maxDistanceMeters pm rs \<and>
     (rs \<noteq> [] \<longrightarrow> chain_end maxDistanceMeters pm rs = None)"
  using assms
proof (induction rs arbitrary: p pm)
  case Nil
  then show ?case by simp
next
  case (Cons r rs)
  show ?case
  proof (cases "maxDistanceMeters r")
    case None
    with Cons.prems show ?thesis by (auto simp: range_problems_Nil)
  next
    case (Some m)
    show ?thesis
    proof (cases "minDistanceMeters r < m")
      case True
      with Cons.IH [OF Some] Cons.prems Some show ?thesis
        by (auto simp: range_problems_Nil)
    next
      case False
      with Some show ?thesis by (auto simp: range_problems_Nil range_ok_def)
    qed
  qed
qed

lemma ranges_problems_table:
  "ranges_problems None rs = [] \<longleftrightarrow>
     rs = [] \<or> ((\<forall>r \<in> set rs. range_ok r) \<and>
       chain minDistanceMeters maxDistanceMeters 0 rs \<and> chain_end maxDistanceMeters 0 rs = None)"
proof (cases rs)
  case Nil
  then show ?thesis by simp
next
  case (Cons r rest)
  show ?thesis
  proof (cases "maxDistanceMeters r")
    case None
    with Cons show ?thesis by (auto simp: range_problems_Nil)
  next
    case (Some m)
    show ?thesis
    proof (cases "minDistanceMeters r < m")
      case True
      with ranges_problems_after [OF Some True] Cons Some show ?thesis
        by (auto simp: range_problems_Nil)
    next
      case False
      with Cons Some show ?thesis by (auto simp: range_problems_Nil range_ok_def)
    qed
  qed
qed

subsection \<open>Distances\<close>

text \<open>The remainder of JavaScript takes the sign of the dividend.\<close>

definition js_rem :: "int \<Rightarrow> int \<Rightarrow> int" where
  "js_rem a b = sgn a * (\<bar>a\<bar> mod \<bar>b\<bar>)"

definition billableKilometers :: "int \<Rightarrow> int" where
  "billableKilometers distanceMeters =
     (let remainder = js_rem distanceMeters 1000 in
      (distanceMeters - remainder) div 1000 + (if remainder = 0 then 0 else 1))"

definition formatKilometers :: "nat \<Rightarrow> string" where
  "formatKilometers distanceMeters =
     (let whole = distanceMeters div 1000 in
      decimal whole @ ''.'' @ padStart 3 (decimal (distanceMeters - whole * 1000)))"

definition assertCanonicalDistance :: "js_value \<Rightarrow> policy_error + int" where
  "assertCanonicalDistance v =
     (case v of
        NotIntegral \<Rightarrow> Inl CREDIT_DISTANCE_INVALID
      | Integral n \<Rightarrow>
          if \<not> isSafeInteger (Integral n) \<or> n < 0 \<or> n > MAX_DISTANCE_METERS
          then Inl CREDIT_DISTANCE_INVALID else Inr n)"

lemma assertCanonicalDistance_Inr:
  "assertCanonicalDistance v = Inr d \<longleftrightarrow> v = Integral d \<and> 0 \<le> d \<and> d \<le> MAX_DISTANCE_METERS"
  by (auto simp: assertCanonicalDistance_def MAX_DISTANCE_METERS_def max_safe_integer_def
      split: js_value.splits if_splits)

lemma billableKilometers_ceiling:
  assumes "0 \<le> d"
  shows "billableKilometers d = - ((- d) div 1000)"
proof -
  have r: "js_rem d 1000 = d mod 1000"
    using assms by (cases "d = 0") (auto simp: js_rem_def)
  have "d mod 1000 = 0 \<or> (- d) div 1000 = - (d div 1000) - 1"
    by (simp add: zdiv_zminus1_eq_if)
  moreover have "d mod 1000 = 0 \<Longrightarrow> (- d) div 1000 = - (d div 1000)"
    by (simp add: zdiv_zminus1_eq_if)
  moreover have "(d - d mod 1000) div 1000 = d div 1000"
    by (simp add: minus_mod_eq_div_mult)
  ultimately show ?thesis
    unfolding billableKilometers_def Let_def r by auto
qed

lemma billableKilometers_bounds:
  assumes "0 \<le> d"
  shows "0 \<le> billableKilometers d" "d \<le> 1000 * billableKilometers d"
    "1000 * billableKilometers d < d + 1000"
  unfolding billableKilometers_ceiling [OF assms] using assms by auto

lemma billableKilometers_mono:
  "0 \<le> d \<Longrightarrow> d \<le> e \<Longrightarrow> billableKilometers d \<le> billableKilometers e"
  by (simp add: billableKilometers_ceiling zdiv_mono1)

subsection \<open>Looking a range up\<close>

definition range_covers :: "('a range_input_scheme) \<Rightarrow> int \<Rightarrow> bool" where
  "range_covers r d =
     (d \<ge> minDistanceMeters r \<and>
      (case maxDistanceMeters r of None \<Rightarrow> True | Some m \<Rightarrow> d < m))"

definition findRange :: "('a range_input_scheme) list \<Rightarrow> int \<Rightarrow> ('a range_input_scheme) option" where
  "findRange rs distanceMeters =
     (case filter (\<lambda>r. range_covers r distanceMeters) rs of [r] \<Rightarrow> Some r | _ \<Rightarrow> None)"

interpretation credit_ranges: distance_table minDistanceMeters maxDistanceMeters range_covers
  by unfold_locales (auto simp: range_covers_def before_end_def)

subsection \<open>The cost of a service\<close>

record policy_for_calculation =
  policy_id :: id
  policy_version :: nat
  policy_serviceType :: service_type
  policy_actorType :: actor_type
  policy_calculationType :: calculation_type
  creditsPerKm :: "int option"
  minimumCredits :: "int option"
  flatCredits :: "int option"
  policy_ranges :: "policy_range list"

record credit_cost =
  cost_policyId :: id
  cost_policyVersion :: nat
  cost_serviceType :: service_type
  cost_actorType :: actor_type
  cost_calculationType :: calculation_type
  cost_distanceMeters :: int
  cost_distanceKm :: string
  billableKm :: "int option"
  calculatedCredits :: "int option"
  cost_minimumCredits :: "int option"
  minimumApplied :: bool
  rangePosition :: "nat option"
  cost_credits :: int

definition bounded_credits :: "int \<Rightarrow> policy_error + int" where
  "bounded_credits c =
     (if \<not> isSafeInteger (Integral c) \<or> c > MAX_POLICY_CREDITS then Inl CREDIT_COST_OUT_OF_RANGE
      else Inr c)"

definition base_cost :: "policy_for_calculation \<Rightarrow> int \<Rightarrow> credit_cost" where
  "base_cost p d =
     \<lparr>cost_policyId = policy_id p, cost_policyVersion = policy_version p,
      cost_serviceType = policy_serviceType p, cost_actorType = policy_actorType p,
      cost_calculationType = policy_calculationType p, cost_distanceMeters = d,
      cost_distanceKm = formatKilometers (nat d), billableKm = None, calculatedCredits = None,
      cost_minimumCredits = None, minimumApplied = False, rangePosition = None, cost_credits = 0\<rparr>"

definition with_credits :: "credit_cost \<Rightarrow> int \<Rightarrow> policy_error + credit_cost" where
  "with_credits cost c =
     (case bounded_credits c of Inl e \<Rightarrow> Inl e | Inr n \<Rightarrow> Inr (cost\<lparr>cost_credits := n\<rparr>))"

definition calculateCreditCost :: "policy_for_calculation \<Rightarrow> js_value \<Rightarrow> policy_error + credit_cost" where
  "calculateCreditCost p distance =
     (case assertCanonicalDistance distance of
        Inl e \<Rightarrow> Inl e
      | Inr d \<Rightarrow>
          let base = base_cost p d in
          case policy_calculationType p of
            PER_KM \<Rightarrow>
              if \<not> isCredits (map_option Integral (creditsPerKm p)) 1
                 \<or> \<not> isCredits (map_option Integral (minimumCredits p)) 0
              then Inl CREDIT_POLICY_UNAVAILABLE
              else
                let km = billableKilometers d;
                    calculated = km * the (creditsPerKm p);
                    least = the (minimumCredits p)
                in with_credits
                     (base\<lparr>billableKm := Some km, calculatedCredits := Some calculated,
                           cost_minimumCredits := Some least, minimumApplied := calculated < least\<rparr>)
                     (max calculated least)
          | FLAT \<Rightarrow>
              if \<not> isCredits (map_option Integral (flatCredits p)) 1
              then Inl CREDIT_POLICY_UNAVAILABLE
              else with_credits base (the (flatCredits p))
          | DISTANCE_RANGE \<Rightarrow>
              (case findRange (policy_ranges p) d of
                 None \<Rightarrow> Inl CREDIT_POLICY_UNAVAILABLE
               | Some r \<Rightarrow>
                   if \<not> isCredits (Some (Integral (credits r))) 1 then Inl CREDIT_POLICY_UNAVAILABLE
                   else with_credits (base\<lparr>rangePosition := Some (position r)\<rparr>) (credits r)))"

end
