(* ===== verification/Credit_Policies.thy ===== *)
theory Credit_Policies imports Credit_Policy_Engine begin

text \<open>
  Credit policy versions (src/src/credit-policies/credit-policies.service.ts): the table of
  policy versions per service type and actor, the two writes (\<open>createInitial\<close>,
  \<open>createVersion\<close>), the resolution of the ACTIVE version, and the guards and CHECKs of
  migration 20260922001300_credit_policies that a write has to pass.

  Both writes run under the advisory lock of their combination, so each is one atomic step on
  the table. The lemmas show that the table stays well formed (\<open>policies_wf\<close>): at most one
  ACTIVE version per combination, ids and version numbers never repeated, every version priced
  by a complete configuration; and that, under that invariant, no guard of the database fires.
\<close>

datatype policy_status = ACTIVE | INACTIVE

record credit_policy = policy_for_calculation +
  policy_status :: policy_status
  effectiveFrom :: instant
  effectiveUntil :: "instant option"
  policy_reason :: "string option"
  policy_createdBy :: id

datatype policy_fault =
    PolicyError policy_error
  | PolicyNotFound
  | PolicyBadRequest "policy_problem list"
  | PolicyGuard \<comment> \<open>\<open>credit_policy_guard\<close> or \<open>credit_policy_ranges_check\<close> raised\<close>
  | PolicyCheck \<comment> \<open>a CHECK constraint failed\<close>
  | PolicyUnique \<comment> \<open>a unique index refused the row\<close>

type_synonym 'a policy_tx = "(policy_fault, credit_policy list, 'a) tx"

definition same_combination :: "service_type \<Rightarrow> actor_type \<Rightarrow> credit_policy \<Rightarrow> bool" where
  "same_combination st ac p \<longleftrightarrow> policy_serviceType p = st \<and> policy_actorType p = ac"

definition active_for :: "service_type \<Rightarrow> actor_type \<Rightarrow> credit_policy \<Rightarrow> bool" where
  "active_for st ac p \<longleftrightarrow> same_combination st ac p \<and> policy_status p = ACTIVE"

definition resolveActiveCreditPolicy ::
    "service_type \<Rightarrow> actor_type \<Rightarrow> credit_policy list \<Rightarrow> policy_fault + credit_policy" where
  "resolveActiveCreditPolicy st ac rows =
     (case first_row (active_for st ac) rows of
        None \<Rightarrow> Inl (PolicyError CREDIT_POLICY_UNAVAILABLE)
      | Some p \<Rightarrow> Inr p)"

definition calculate :: "service_type \<Rightarrow> actor_type \<Rightarrow> js_value \<Rightarrow> credit_policy list \<Rightarrow>
    policy_fault + credit_cost" where
  "calculate st ac distance rows =
     (case resolveActiveCreditPolicy st ac rows of
        Inl e \<Rightarrow> Inl e
      | Inr p \<Rightarrow>
          (case calculateCreditCost (policy_for_calculation.truncate p) distance of
             Inl e \<Rightarrow> Inl (PolicyError e) | Inr c \<Rightarrow> Inr c))"

subsection \<open>The database side of a write\<close>

definition max_version :: "service_type \<Rightarrow> actor_type \<Rightarrow> credit_policy list \<Rightarrow> nat" where
  "max_version st ac rows =
     foldr max (map policy_version (filter (same_combination st ac) rows)) 0"

text \<open>\<open>CreditPolicy_calculation_check\<close>.\<close>

definition calculation_check :: "credit_policy \<Rightarrow> bool" where
  "calculation_check p =
     (case policy_calculationType p of
        PER_KM \<Rightarrow>
          (case (creditsPerKm p, minimumCredits p) of
             (Some a, Some b) \<Rightarrow> 1 \<le> a \<and> a \<le> 1000000 \<and> 0 \<le> b \<and> b \<le> 1000000
           | _ \<Rightarrow> False) \<and> flatCredits p = None
      | FLAT \<Rightarrow>
          (case flatCredits p of Some a \<Rightarrow> 1 \<le> a \<and> a \<le> 1000000 | None \<Rightarrow> False)
          \<and> creditsPerKm p = None \<and> minimumCredits p = None
      | DISTANCE_RANGE \<Rightarrow> creditsPerKm p = None \<and> minimumCredits p = None \<and> flatCredits p = None)"

text \<open>\<open>CreditPolicyRange_values_check\<close>, per range.\<close>

definition range_check :: "policy_range \<Rightarrow> bool" where
  "range_check r \<longleftrightarrow>
     position r \<ge> 1 \<and> minDistanceMeters r \<ge> 0 \<and>
     (case maxDistanceMeters r of None \<Rightarrow> True | Some m \<Rightarrow> m > minDistanceMeters r) \<and>
     1 \<le> credits r \<and> credits r \<le> 1000000"

text \<open>
  \<open>credit_policy_ranges_check\<close>: the loop over the ranges in position order. \<open>previous\<close> is the
  upper limit of the range before (\<open>None\<close> when it was open), \<open>n\<close> the ranges seen.
\<close>

fun ranges_loop :: "nat \<Rightarrow> int option \<Rightarrow> bool \<Rightarrow> policy_range list \<Rightarrow> (nat \<times> bool) option" where
  "ranges_loop n previous previousOpen [] = Some (n, previousOpen)"
| "ranges_loop n previous previousOpen (r # rs) =
     (if position r \<noteq> n + 1 then None
      else if previousOpen then None
      else if n = 0 \<and> minDistanceMeters r \<noteq> 0 then None
      else if n > 0 \<and> Some (minDistanceMeters r) \<noteq> previous then None
      else ranges_loop (n + 1) (maxDistanceMeters r) (maxDistanceMeters r = None) rs)"

definition ranges_check :: "credit_policy \<Rightarrow> bool" where
  "ranges_check p =
     (let rs = sort_key position (policy_ranges p) in
      if policy_calculationType p \<noteq> DISTANCE_RANGE then rs = []
      else case ranges_loop 0 None False rs of
             None \<Rightarrow> False
           | Some (n, openEnd) \<Rightarrow> n \<noteq> 0 \<and> openEnd)"

text \<open>\<open>CreditPolicy_values_check\<close>.\<close>

definition policy_values_check :: "credit_policy \<Rightarrow> bool" where
  "policy_values_check p \<longleftrightarrow>
     0 < policy_version p \<and> length_between 3 500 (map_option btrim (policy_reason p)) \<and>
     (case effectiveUntil p of
        None \<Rightarrow> policy_status p = ACTIVE
      | Some t \<Rightarrow> policy_status p = INACTIVE \<and> effectiveFrom p \<le> t)"

text \<open>
  Inserting a row: the BEFORE trigger, the CHECKs, the unique indexes, and the deferred range
  check, which nothing between the insert and the COMMIT can change.
\<close>

definition insert_policy_row :: "credit_policy \<Rightarrow> credit_policy policy_tx" where
  "insert_policy_row p =
     bindT (guardT (policy_status p = ACTIVE \<and> effectiveUntil p = None) PolicyGuard) (\<lambda>_.
     bindT getT (\<lambda>rows.
     bindT (guardT (policy_version p = max_version (policy_serviceType p) (policy_actorType p) rows + 1)
              PolicyGuard) (\<lambda>_.
     bindT (guardT (policy_values_check p \<and> calculation_check p \<and> list_all range_check (policy_ranges p)) PolicyCheck) (\<lambda>_.
     bindT (guardT (\<not> any_row (active_for (policy_serviceType p) (policy_actorType p)) rows
                    \<and> \<not> any_row (\<lambda>q. policy_id q = policy_id p) rows) PolicyUnique) (\<lambda>_.
     bindT (guardT (ranges_check p) PolicyGuard) (\<lambda>_.
     (\<lambda>rs. Inr (p, rs @ [p]))))))))"

text \<open>The UPDATE meets \<open>CreditPolicy_values_check\<close> too; it changes none of the columns but the status and the end.\<close>

definition deactivate_policy_row :: "id \<Rightarrow> instant \<Rightarrow> unit policy_tx" where
  "deactivate_policy_row pid now =
     bindT getT (\<lambda>rows.
     bindT (guardT (\<not> any_row (\<lambda>p. policy_id p = pid \<and> policy_status p = INACTIVE) rows)
              PolicyGuard) (\<lambda>_.
     bindT (guardT (\<not> any_row (\<lambda>p. policy_id p = pid \<and> now < effectiveFrom p) rows)
              PolicyCheck) (\<lambda>_.
     (\<lambda>rs. Inr ((), update_rows (\<lambda>p. policy_id p = pid)
             (\<lambda>p. p\<lparr>policy_status := INACTIVE, effectiveUntil := Some now\<rparr>) rs)))))"

subsection \<open>The service\<close>

definition validated :: "policy_config \<Rightarrow> policy_fault + policy_range list" where
  "validated input =
     (let result = validatePolicyConfig input in
      if \<not> valid result then Inl (PolicyBadRequest (errors result)) else Inr (ranges result))"

definition credits_value :: "js_value option \<Rightarrow> int option" where
  "credits_value v = (case v of Some (Integral n) \<Rightarrow> Some n | _ \<Rightarrow> None)"

text \<open>The row \<open>insert\<close> writes; the id is the UUID the database client generates.\<close>

definition new_policy ::
    "id \<Rightarrow> service_type \<Rightarrow> actor_type \<Rightarrow> policy_config \<Rightarrow> string option \<Rightarrow> nat \<Rightarrow>
     policy_range list \<Rightarrow> id \<Rightarrow> instant \<Rightarrow> credit_policy" where
  "new_policy newId st ac input reason version rs actor now =
     (let type = the (cfg_calculationType input) in
      \<lparr>policy_id = newId, policy_version = version, policy_serviceType = st, policy_actorType = ac,
       policy_calculationType = type,
       creditsPerKm = (if type = PER_KM then credits_value (cfg_creditsPerKm input) else None),
       minimumCredits = (if type = PER_KM then credits_value (cfg_minimumCredits input) else None),
       flatCredits = (if type = FLAT then credits_value (cfg_flatCredits input) else None),
       policy_ranges = rs, policy_status = ACTIVE, effectiveFrom = now, effectiveUntil = None,
       policy_reason = reason, policy_createdBy = actor\<rparr>)"

text \<open>\<open>guarded\<close>: a guard or a unique index that fires is a version conflict.\<close>

fun guarded :: "policy_fault \<Rightarrow> policy_fault" where
  "guarded PolicyGuard = PolicyError CREDIT_POLICY_VERSION_CONFLICT"
| "guarded PolicyUnique = PolicyError CREDIT_POLICY_VERSION_CONFLICT"
| "guarded e = e"

definition createInitial ::
    "id \<Rightarrow> service_type \<Rightarrow> actor_type \<Rightarrow> policy_config \<Rightarrow> string option \<Rightarrow> id \<Rightarrow> instant \<Rightarrow>
     credit_policy policy_tx" where
  "createInitial newId st ac input reason actor now =
     (case validated input of
        Inl e \<Rightarrow> throwT e
      | Inr rs \<Rightarrow>
          catchT
            (bindT getT (\<lambda>rows.
             bindT (guardT (\<not> any_row (same_combination st ac) rows) (PolicyError CREDIT_POLICY_EXISTS)) (\<lambda>_.
             insert_policy_row (new_policy newId st ac input reason 1 rs actor now))))
            guarded)"

definition createVersion ::
    "id \<Rightarrow> id \<Rightarrow> policy_config \<Rightarrow> string option \<Rightarrow> id \<Rightarrow> instant \<Rightarrow> credit_policy policy_tx" where
  "createVersion newId baseId input reason actor now =
     (case validated input of
        Inl e \<Rightarrow> throwT e
      | Inr rs \<Rightarrow>
          catchT
            (bindT (requireT (first_row (\<lambda>p. policy_id p = baseId)) PolicyNotFound) (\<lambda>base.
             bindT getT (\<lambda>rows.
             let st = policy_serviceType base; ac = policy_actorType base;
                 active = first_row (active_for st ac) rows;
                 next = max_version st ac rows + 1
             in bindT (guardT (case active of None \<Rightarrow> False | Some p \<Rightarrow> policy_id p = policy_id base)
                         (PolicyError CREDIT_POLICY_VERSION_CONFLICT)) (\<lambda>_.
                bindT (deactivate_policy_row (policy_id base) now) (\<lambda>_.
                insert_policy_row (new_policy newId st ac input reason next rs actor now))))))
            guarded)"

subsection \<open>Complete policies\<close>

text \<open>
  What a stored version satisfies: the columns of its calculation type, and for a distance
  policy a table that starts at 0, has no gap or overlap and ends open.
\<close>

definition policy_complete :: "('a policy_for_calculation_scheme) \<Rightarrow> bool" where
  "policy_complete p \<longleftrightarrow>
     (case policy_calculationType p of
        PER_KM \<Rightarrow>
          (\<exists>a b. creditsPerKm p = Some a \<and> minimumCredits p = Some b \<and>
             1 \<le> a \<and> a \<le> MAX_POLICY_CREDITS \<and> 0 \<le> b \<and> b \<le> MAX_POLICY_CREDITS)
      | FLAT \<Rightarrow> (\<exists>a. flatCredits p = Some a \<and> 1 \<le> a \<and> a \<le> MAX_POLICY_CREDITS)
      | DISTANCE_RANGE \<Rightarrow>
          chain minDistanceMeters maxDistanceMeters 0 (policy_ranges p) \<and>
          chain_end maxDistanceMeters 0 (policy_ranges p) = None \<and>
          (\<forall>r \<in> set (policy_ranges p). 1 \<le> credits r \<and> credits r \<le> MAX_POLICY_CREDITS))"

lemma policy_complete_truncate [simp]:
  "policy_complete (policy_for_calculation.truncate p) \<longleftrightarrow> policy_complete p"
  by (cases "policy_calculationType p") (simp_all add: policy_complete_def policy_for_calculation.defs)

lemma chain_with_positions:
  "chain minDistanceMeters maxDistanceMeters a (with_positions i rs) \<longleftrightarrow>
     chain minDistanceMeters maxDistanceMeters a rs"
  by (induction rs arbitrary: a i) (auto split: option.splits elim: with_positions.elims)

lemma chain_end_with_positions:
  "chain_end maxDistanceMeters a (with_positions i rs) = chain_end maxDistanceMeters a rs"
  by (induction rs arbitrary: a i) (auto split: option.splits)

lemma in_with_positions:
  "r \<in> set (with_positions i rs) \<Longrightarrow>
     \<exists>q \<in> set rs. credits r = credits q \<and> minDistanceMeters r = minDistanceMeters q \<and>
       maxDistanceMeters r = maxDistanceMeters q \<and> i < position r"
  by (induction rs arbitrary: i) fastforce+

lemma chain_sorted: "chain lo hi a rs \<Longrightarrow> sorted_wrt (\<lambda>x y. lo x < lo y) rs \<and> (\<forall>r \<in> set rs. a \<le> lo r)"
proof (induction rs arbitrary: a)
  case Nil
  then show ?case by simp
next
  case (Cons r rs)
  then show ?case by (fastforce split: option.splits)
qed

lemma chain_sort_key: "chain lo hi a rs \<Longrightarrow> sort_key lo rs = rs"
  by (intro sort_key_id_if_sorted) (auto dest!: chain_sorted simp: sorted_map intro: sorted_wrt_mono_rel [rotated])

lemma validated_ranges:
  assumes "validated input = Inr rs"
  shows "case the (cfg_calculationType input) of
      DISTANCE_RANGE \<Rightarrow>
        chain minDistanceMeters maxDistanceMeters 0 rs \<and> chain_end maxDistanceMeters 0 rs = None \<and>
        (\<exists>qs. rs = with_positions 0 qs \<and> qs \<noteq> [] \<and> (\<forall>q \<in> set qs. range_ok q))
    | _ \<Rightarrow> rs = []"
    and "cfg_calculationType input \<noteq> None"
proof -
  from assms show "cfg_calculationType input \<noteq> None"
    by (cases "cfg_calculationType input")
      (simp_all add: validated_def Let_def validatePolicyConfig_def)
  show "case the (cfg_calculationType input) of
      DISTANCE_RANGE \<Rightarrow>
        chain minDistanceMeters maxDistanceMeters 0 rs \<and> chain_end maxDistanceMeters 0 rs = None \<and>
        (\<exists>qs. rs = with_positions 0 qs \<and> qs \<noteq> [] \<and> (\<forall>q \<in> set qs. range_ok q))
    | _ \<Rightarrow> rs = []"
  proof (cases "cfg_calculationType input = Some DISTANCE_RANGE")
    case True
    with assms obtain input_ranges where r: "cfg_ranges input = Some input_ranges"
      "input_ranges \<noteq> []"
      "ranges_problems None (sort_key minDistanceMeters input_ranges) = []"
      "rs = with_positions 0 (sort_key minDistanceMeters input_ranges)"
      by (cases "cfg_ranges input")
        (auto simp: validated_def Let_def validatePolicyConfig_def validateRanges_def split: if_splits)
    from r(2) have "sort_key minDistanceMeters input_ranges \<noteq> []"
      by (metis length_0_conv length_sort)
    with r(3) have "\<forall>q \<in> set (sort_key minDistanceMeters input_ranges). range_ok q"
      "chain minDistanceMeters maxDistanceMeters 0 (sort_key minDistanceMeters input_ranges)"
      "chain_end maxDistanceMeters 0 (sort_key minDistanceMeters input_ranges) = None"
      by (auto simp: ranges_problems_table)
    with True r(4) \<open>sort_key minDistanceMeters input_ranges \<noteq> []\<close> show ?thesis
      by (auto simp: chain_with_positions chain_end_with_positions)
  next
    case False
    then consider "cfg_calculationType input = None" | "cfg_calculationType input = Some PER_KM"
      | "cfg_calculationType input = Some FLAT"
      by (metis calculation_type.exhaust option.exhaust)
    then show ?thesis
      by cases (use assms in \<open>simp_all add: validated_def Let_def validatePolicyConfig_def split: if_splits\<close>)
  qed
qed

lemma validated_fields:
  assumes "validated input = Inr rs"
  shows "case the (cfg_calculationType input) of
      PER_KM \<Rightarrow> isCredits (cfg_creditsPerKm input) 1 \<and> isCredits (cfg_minimumCredits input) 0
    | FLAT \<Rightarrow> isCredits (cfg_flatCredits input) 1
    | DISTANCE_RANGE \<Rightarrow> True"
proof (cases "cfg_calculationType input")
  case None
  with assms show ?thesis
    by (simp add: validated_def Let_def validatePolicyConfig_def)
next
  case (Some type)
  with assms show ?thesis
    by (cases type) (simp_all add: validated_def Let_def validatePolicyConfig_def split: if_splits)
qed

lemma new_policy_complete:
  assumes "validated input = Inr rs"
  shows "policy_complete (new_policy newId st ac input reason version rs actor now)"
proof -
  note v = validated_ranges [OF assms] validated_fields [OF assms]
  show ?thesis
  proof (cases "the (cfg_calculationType input)")
    case DISTANCE_RANGE
    with v have "chain minDistanceMeters maxDistanceMeters 0 rs"
      "chain_end maxDistanceMeters 0 rs = None" and
      q: "\<exists>qs. rs = with_positions 0 qs \<and> (\<forall>q \<in> set qs. range_ok q)" by auto
    moreover from q have "\<forall>r \<in> set rs. 1 \<le> credits r \<and> credits r \<le> MAX_POLICY_CREDITS"
      by (fastforce dest: in_with_positions simp: range_ok_def)
    ultimately show ?thesis using DISTANCE_RANGE
      by (simp add: policy_complete_def new_policy_def Let_def)
  qed (use v in \<open>auto simp: policy_complete_def new_policy_def Let_def isCredits_iff credits_value_def\<close>)
qed

subsection \<open>Pricing with a complete policy\<close>

lemma with_credits_Inr:
  "with_credits cost c = Inr r \<longleftrightarrow>
     r = cost\<lparr>cost_credits := c\<rparr> \<and> - max_safe_integer \<le> c \<and> c \<le> MAX_POLICY_CREDITS"
  by (auto simp: with_credits_def bounded_credits_def MAX_POLICY_CREDITS_def MAX_CREDIT_MOVEMENT_def
      max_safe_integer_def split: if_splits)

lemma with_credits_Inl: "with_credits cost c = Inl e \<Longrightarrow> e = CREDIT_COST_OUT_OF_RANGE"
  by (auto simp: with_credits_def bounded_credits_def split: if_splits)

lemma cost_per_km:
  assumes "0 \<le> d" "d \<le> MAX_DISTANCE_METERS" "policy_calculationType p = PER_KM"
    "creditsPerKm p = Some a" "minimumCredits p = Some b"
    "1 \<le> a" "a \<le> MAX_POLICY_CREDITS" "0 \<le> b" "b \<le> MAX_POLICY_CREDITS"
  shows "map_sum id cost_credits (calculateCreditCost p (Integral d)) =
    (let c = max (billableKilometers d * a) b in
     if c \<le> MAX_POLICY_CREDITS then Inr c else Inl CREDIT_COST_OUT_OF_RANGE)"
proof -
  have "assertCanonicalDistance (Integral d) = Inr d"
    using assms by (simp add: assertCanonicalDistance_Inr)
  moreover have "0 \<le> billableKilometers d * a"
    using assms billableKilometers_bounds by simp
  moreover have "billableKilometers d * a \<le> 2200000 * 1000000"
  proof (rule mult_mono)
    show "billableKilometers d \<le> 2200000"
      using billableKilometers_bounds(3) [OF assms(1)] assms(2) by (simp add: MAX_DISTANCE_METERS_def)
  qed (use assms in \<open>auto simp: MAX_POLICY_CREDITS_def MAX_CREDIT_MOVEMENT_def\<close>)
  ultimately show ?thesis
    using assms
    by (auto simp: calculateCreditCost_def Let_def isCredits_iff with_credits_def
        bounded_credits_def max_safe_integer_def MAX_POLICY_CREDITS_def MAX_CREDIT_MOVEMENT_def)
qed

lemma cost_by_range:
  assumes "0 \<le> d" "d \<le> MAX_DISTANCE_METERS" "policy_calculationType p = DISTANCE_RANGE"
    "policy_complete p"
  shows "\<exists>r \<in> set (policy_ranges p). range_covers r d \<and>
    (\<forall>q \<in> set (policy_ranges p). range_covers q d \<longrightarrow> q = r) \<and>
    map_sum id cost_credits (calculateCreditCost p (Integral d)) = Inr (credits r)"
proof -
  from assms(3,4) have c: "chain minDistanceMeters maxDistanceMeters 0 (policy_ranges p)"
    and e: "chain_end maxDistanceMeters 0 (policy_ranges p) = None"
    and ok: "\<forall>r \<in> set (policy_ranges p). 1 \<le> credits r \<and> credits r \<le> MAX_POLICY_CREDITS"
    by (auto simp: policy_complete_def)
  from c have s: "sort_key minDistanceMeters (policy_ranges p) = policy_ranges p"
    by (rule chain_sort_key)
  obtain r where r: "filter (\<lambda>r. range_covers r d) (policy_ranges p) = [r]"
    "r \<in> set (policy_ranges p)" "range_covers r d"
    using credit_ranges.single_covering [of 0 "policy_ranges p" d] assms(1) c e s by auto
  then have f: "findRange (policy_ranges p) d = Some r" by (simp add: findRange_def)
  from ok r(2) have cr: "1 \<le> credits r" "credits r \<le> MAX_POLICY_CREDITS" by auto
  have "map_sum id cost_credits (calculateCreditCost p (Integral d)) = Inr (credits r)"
    using assms f cr
    by (simp add: calculateCreditCost_def assertCanonicalDistance_Inr [THEN iffD2] Let_def isCredits_iff
        with_credits_def bounded_credits_def max_safe_integer_def MAX_POLICY_CREDITS_def MAX_CREDIT_MOVEMENT_def)
  moreover have "\<forall>q \<in> set (policy_ranges p). range_covers q d \<longrightarrow> q = r"
  proof (intro ballI impI)
    fix q
    assume "q \<in> set (policy_ranges p)" "range_covers q d"
    then have "q \<in> set (filter (\<lambda>r. range_covers r d) (policy_ranges p))" by simp
    then show "q = r" unfolding r(1) by simp
  qed
  ultimately show ?thesis using r by blast
qed

lemma cost_flat:
  assumes "0 \<le> d" "d \<le> MAX_DISTANCE_METERS" "policy_calculationType p = FLAT" "policy_complete p"
  shows "map_sum id cost_credits (calculateCreditCost p (Integral d)) = Inr (the (flatCredits p))"
  using assms
  by (auto simp: calculateCreditCost_def assertCanonicalDistance_Inr [THEN iffD2] Let_def isCredits_iff
      policy_complete_def with_credits_def bounded_credits_def max_safe_integer_def
      MAX_POLICY_CREDITS_def MAX_CREDIT_MOVEMENT_def)

subsection \<open>The table of versions\<close>

definition version_key :: "credit_policy \<Rightarrow> service_type \<times> actor_type \<times> nat" where
  "version_key p = (policy_serviceType p, policy_actorType p, policy_version p)"

definition combination :: "credit_policy \<Rightarrow> service_type \<times> actor_type" where
  "combination p = (policy_serviceType p, policy_actorType p)"

abbreviation active_rows :: "credit_policy list \<Rightarrow> credit_policy list" where
  "active_rows \<equiv> filter (\<lambda>p. policy_status p = ACTIVE)"

definition policies_wf :: "credit_policy list \<Rightarrow> bool" where
  "policies_wf rows \<longleftrightarrow>
     distinct (map policy_id rows) \<and> distinct (map version_key rows) \<and>
     list_all policy_complete rows \<and> distinct (map combination (active_rows rows))"

lemma active_for_iff:
  "active_for st ac p \<longleftrightarrow> policy_status p = ACTIVE \<and> combination p = (st, ac)"
  by (auto simp: active_for_def same_combination_def combination_def)

lemma active_unique:
  assumes "policies_wf rows" "p \<in> set rows" "q \<in> set rows"
    "active_for st ac p" "active_for st ac q"
  shows "p = q"
  using assms unique_key [of combination "active_rows rows" p q]
  by (auto simp: policies_wf_def active_for_iff)

lemma resolve_active:
  assumes "policies_wf rows" "p \<in> set rows" "active_for st ac p"
  shows "resolveActiveCreditPolicy st ac rows = Inr p"
proof (cases "first_row (active_for st ac) rows")
  case None
  with assms show ?thesis by (auto simp: first_row_None)
next
  case (Some q)
  then have "q = p" using assms active_unique by (blast dest: first_row_Some)
  with Some show ?thesis by (simp add: resolveActiveCreditPolicy_def)
qed

lemma version_le_max:
  "p \<in> set rows \<Longrightarrow> same_combination st ac p \<Longrightarrow> policy_version p \<le> max_version st ac rows"
  unfolding max_version_def by (induction rows) auto

lemma insert_policy_row_Inr:
  "insert_policy_row p rows = Inr (p', rows') \<longleftrightarrow>
     p' = p \<and> rows' = rows @ [p] \<and> policy_status p = ACTIVE \<and> effectiveUntil p = None \<and>
     policy_version p = max_version (policy_serviceType p) (policy_actorType p) rows + 1 \<and>
     policy_values_check p \<and> calculation_check p \<and> list_all range_check (policy_ranges p) \<and>
     \<not> any_row (active_for (policy_serviceType p) (policy_actorType p)) rows \<and>
     \<not> any_row (\<lambda>q. policy_id q = policy_id p) rows \<and> ranges_check p"
  by (auto simp: insert_policy_row_def tx_simps)

lemma insert_policy_row_wf:
  assumes "policies_wf rows" "policy_complete p" "insert_policy_row p rows = Inr (p', rows')"
  shows "policies_wf rows'"
proof -
  note i = assms(3) [unfolded insert_policy_row_Inr]
  have "version_key p \<notin> version_key ` set rows"
    using i version_le_max [of _ rows "policy_serviceType p" "policy_actorType p"]
    by (fastforce simp: version_key_def same_combination_def)
  moreover have "combination p \<notin> combination ` set (active_rows rows)"
    using i by (auto simp: any_row_iff active_for_iff combination_def)
  moreover have "policy_id p \<notin> policy_id ` set rows"
    using i by (auto simp: any_row_iff)
  ultimately show ?thesis
    using i assms(1,2) by (simp add: policies_wf_def)
qed

lemma deactivate_policy_row_wf:
  assumes "policies_wf rows" "deactivate_policy_row pid now rows = Inr (u, rows')"
  shows "policies_wf rows'"
    and "rows' = update_rows (\<lambda>p. policy_id p = pid)
           (\<lambda>p. p\<lparr>policy_status := INACTIVE, effectiveUntil := Some now\<rparr>) rows"
proof -
  let ?f = "\<lambda>p::credit_policy. p\<lparr>policy_status := INACTIVE, effectiveUntil := Some now\<rparr>"
  from assms(2) show r: "rows' = update_rows (\<lambda>p. policy_id p = pid) ?f rows"
    by (auto simp: deactivate_policy_row_def tx_simps)
  have "map policy_id rows' = map policy_id rows" "map version_key rows' = map version_key rows"
    unfolding r by (simp_all add: map_update_rows version_key_def)
  moreover have "policy_complete (?f p) = policy_complete p" for p
    by (cases "policy_calculationType p") (simp_all add: policy_complete_def)
  then have "list_all policy_complete rows' = list_all policy_complete rows"
    unfolding r by (induction rows) simp_all
  moreover have "active_rows rows' = filter (\<lambda>p. policy_id p \<noteq> pid) (active_rows rows)"
    unfolding r by (induction rows) auto
  then have "distinct (map combination (active_rows rows'))"
    using assms(1) distinct_map_filter [of combination "active_rows rows"]
    by (simp add: policies_wf_def del: filter_filter)
  ultimately show "policies_wf rows'"
    using assms(1) by (simp add: policies_wf_def)
qed

text \<open>What a successful \<open>createVersion\<close> did, step by step.\<close>

lemma createVersion_steps:
  assumes "createVersion newId baseId input reason actor now rows = Inr (p, rows')"
  obtains rs base where
    "validated input = Inr rs" "first_row (\<lambda>p. policy_id p = baseId) rows = Some base"
    "case first_row (active_for (policy_serviceType base) (policy_actorType base)) rows of
       None \<Rightarrow> False | Some q \<Rightarrow> policy_id q = policy_id base"
    "p = new_policy newId (policy_serviceType base) (policy_actorType base) input reason
           (max_version (policy_serviceType base) (policy_actorType base) rows + 1) rs actor now"
    "deactivate_policy_row (policy_id base) now rows =
       Inr ((), update_rows (\<lambda>p. policy_id p = policy_id base)
         (\<lambda>p. p\<lparr>policy_status := INACTIVE, effectiveUntil := Some now\<rparr>) rows)"
    "insert_policy_row p (update_rows (\<lambda>p. policy_id p = policy_id base)
         (\<lambda>p. p\<lparr>policy_status := INACTIVE, effectiveUntil := Some now\<rparr>) rows) = Inr (p, rows')"
  using assms
  by (fastforce simp: createVersion_def tx_simps Let_def deactivate_policy_row_def insert_policy_row_Inr
      split: sum.splits)

lemma new_policy_fields [simp]:
  "policy_id (new_policy i st ac input reason v rs actor now) = i"
  "policy_version (new_policy i st ac input reason v rs actor now) = v"
  "policy_serviceType (new_policy i st ac input reason v rs actor now) = st"
  "policy_actorType (new_policy i st ac input reason v rs actor now) = ac"
  "policy_calculationType (new_policy i st ac input reason v rs actor now) =
     the (cfg_calculationType input)"
  "policy_ranges (new_policy i st ac input reason v rs actor now) = rs"
  "policy_status (new_policy i st ac input reason v rs actor now) = ACTIVE"
  "effectiveUntil (new_policy i st ac input reason v rs actor now) = None"
  by (simp_all add: new_policy_def Let_def)

subsection \<open>No guard fires on a validated policy\<close>

lemma ranges_loop_chain:
  assumes "chain minDistanceMeters maxDistanceMeters a qs"
    and "n = 0 \<Longrightarrow> a = 0" "n > 0 \<Longrightarrow> previous = Some a"
  shows "ranges_loop n previous False (with_positions n qs) =
    Some (n + length qs, qs \<noteq> [] \<and> chain_end maxDistanceMeters a qs = None)"
  using assms
proof (induction qs arbitrary: a n previous)
  case Nil
  then show ?case by simp
next
  case (Cons q qs)
  show ?case
  proof (cases "maxDistanceMeters q")
    case None
    with Cons.prems show ?thesis by auto
  next
    case (Some m)
    with Cons.prems(1) have c: "chain minDistanceMeters maxDistanceMeters m qs" by auto
    have "ranges_loop (n + 1) (Some m) False (with_positions (n + 1) qs) =
        Some (n + 1 + length qs, qs \<noteq> [] \<and> chain_end maxDistanceMeters m qs = None)"
      using Cons.IH [OF c, of "n + 1" "Some m"] by simp
    with Some Cons.prems show ?thesis by auto
  qed
qed

lemma sorted_positions: "sorted_wrt (<) (map position (with_positions i qs)) \<and>
    (\<forall>r \<in> set (with_positions i qs). i < position r)"
  by (induction qs arbitrary: i) (auto, force)

lemma sort_positions: "sort_key position (with_positions 0 qs) = with_positions 0 qs"
  using sorted_positions [of 0 qs]
  by (intro sort_key_id_if_sorted) (auto simp: strict_sorted_imp_sorted)

lemma new_policy_passes_checks:
  assumes "validated input = Inr rs"
  shows "calculation_check (new_policy i st ac input reason v rs actor now)"
    and "list_all range_check rs"
    and "ranges_check (new_policy i st ac input reason v rs actor now)"
proof -
  let ?p = "new_policy i st ac input reason v rs actor now"
  note v = validated_ranges [OF assms] validated_fields [OF assms]
  show "calculation_check ?p"
    using v(3) by (cases "the (cfg_calculationType input)")
      (auto simp: calculation_check_def new_policy_def Let_def isCredits_iff credits_value_def
        MAX_POLICY_CREDITS_def MAX_CREDIT_MOVEMENT_def)
  show "list_all range_check rs"
  proof (cases "the (cfg_calculationType input)")
    case DISTANCE_RANGE
    with v obtain qs where "rs = with_positions 0 qs" "\<forall>q \<in> set qs. range_ok q" by auto
    then show ?thesis
      by (fastforce simp: list_all_iff range_check_def range_ok_def MAX_POLICY_CREDITS_def
          MAX_CREDIT_MOVEMENT_def dest: in_with_positions split: option.splits)
  qed (use v(1) in auto)
  show "ranges_check ?p"
  proof (cases "the (cfg_calculationType input)")
    case DISTANCE_RANGE
    with v obtain qs where q: "rs = with_positions 0 qs" "qs \<noteq> []"
      "chain minDistanceMeters maxDistanceMeters 0 qs" "chain_end maxDistanceMeters 0 qs = None"
      by (auto simp: chain_with_positions chain_end_with_positions)
    with ranges_loop_chain [OF q(3), of 0 None] show ?thesis
      by (simp add: ranges_check_def sort_positions DISTANCE_RANGE)
  qed (use v(1) in \<open>simp_all add: ranges_check_def\<close>)
qed

subsection \<open>Properties\<close>

definition example_config :: policy_config where
  "example_config =
     \<lparr>cfg_calculationType = Some DISTANCE_RANGE, cfg_creditsPerKm = None, cfg_minimumCredits = None,
      cfg_flatCredits = None,
      cfg_ranges = Some
        [\<lparr>minDistanceMeters = 5000, maxDistanceMeters = None, credits = 9\<rparr>,
         \<lparr>minDistanceMeters = 0, maxDistanceMeters = Some 5000, credits = 4\<rparr>]\<rparr>"

definition example_ranges :: "policy_range list" where
  "example_ranges =
     [\<lparr>minDistanceMeters = 0, maxDistanceMeters = Some 5000, credits = 4, position = 1\<rparr>,
      \<lparr>minDistanceMeters = 5000, maxDistanceMeters = None, credits = 9, position = 2\<rparr>]"

definition example_policies :: "credit_policy list" where
  "example_policies =
     [\<lparr>policy_id = 7, policy_version = 1, policy_serviceType = LOCAL_DELIVERY,
       policy_actorType = PROVIDER, policy_calculationType = PER_KM,
       creditsPerKm = Some 2, minimumCredits = Some 3, flatCredits = None, policy_ranges = [],
       policy_status = ACTIVE, effectiveFrom = 1000, effectiveUntil = None, policy_reason = None,
       policy_createdBy = 1\<rparr>]"

lemma example_validated: "validated example_config = Inr example_ranges"
  by (simp add: example_config_def example_ranges_def validated_def validatePolicyConfig_def
      validateRanges_def range_problems_def isCredits_def reject_if_def present_def Let_def
      MAX_POLICY_RANGES_def MAX_DISTANCE_METERS_def MAX_POLICY_CREDITS_def MAX_CREDIT_MOVEMENT_def
      max_safe_integer_def)

lemma example_policies_wf: "policies_wf example_policies"
  by (simp add: policies_wf_def example_policies_def policy_complete_def
      MAX_POLICY_CREDITS_def MAX_CREDIT_MOVEMENT_def)

text \<open>
  C19: A policy whose configuration passes validation prices every canonical distance. The cost is
  the credits of the one range that covers the distance (DISTANCE_RANGE), the flat price (FLAT),
  or the larger of the kilometres begun times the rate and the minimum (PER_KM); the calculation
  never reports a corrupt configuration, and refuses only a PER_KM result above the movement limit.
\<close>

theorem validated_policy_prices_every_distance:
  assumes "validated input = Inr rs" and "0 \<le> d" and "d \<le> MAX_DISTANCE_METERS"
    and "p = policy_for_calculation.truncate (new_policy i st ac input reason v rs actor now)"
  shows "case policy_calculationType p of
       PER_KM \<Rightarrow>
         map_sum id cost_credits (calculateCreditCost p (Integral d)) =
         (let c = max (billableKilometers d * the (creditsPerKm p)) (the (minimumCredits p)) in
          if c \<le> MAX_POLICY_CREDITS then Inr c else Inl CREDIT_COST_OUT_OF_RANGE)
     | FLAT \<Rightarrow>
         map_sum id cost_credits (calculateCreditCost p (Integral d)) = Inr (the (flatCredits p))
     | DISTANCE_RANGE \<Rightarrow>
         \<exists>r \<in> set (policy_ranges p). range_covers r d \<and>
           (\<forall>q \<in> set (policy_ranges p). range_covers q d \<longrightarrow> q = r) \<and>
           map_sum id cost_credits (calculateCreditCost p (Integral d)) = Inr (credits r)"
proof -
  have c: "policy_complete p"
    unfolding assms(4) policy_complete_truncate by (rule new_policy_complete [OF assms(1)])
  show ?thesis
  proof (cases "policy_calculationType p")
    case PER_KM
    with c obtain a b where "creditsPerKm p = Some a" "minimumCredits p = Some b"
      "1 \<le> a" "a \<le> MAX_POLICY_CREDITS" "0 \<le> b" "b \<le> MAX_POLICY_CREDITS"
      by (auto simp: policy_complete_def)
    with cost_per_km [OF assms(2,3) PER_KM] PER_KM show ?thesis by simp
  next
    case FLAT
    with cost_flat [OF assms(2,3) FLAT c] show ?thesis by simp
  next
    case DISTANCE_RANGE
    with cost_by_range [OF assms(2,3) DISTANCE_RANGE c] show ?thesis by simp
  qed
qed

theorem validated_policy_prices_every_distance_witness:
  "map_sum id cost_credits (calculateCreditCost (policy_for_calculation.truncate
     (new_policy 8 LOCAL_DELIVERY PROVIDER example_config None 2 example_ranges 1 0)) (Integral 6240))
   = Inr 9"
  using validated_policy_prices_every_distance
    [OF example_validated, of 6240 _ 8 LOCAL_DELIVERY PROVIDER None 2 1 0, OF _ _ refl]
  by (auto simp: MAX_DISTANCE_METERS_def policy_for_calculation.defs example_config_def
      example_ranges_def range_covers_def new_policy_def Let_def)

text \<open>
  A successful \<open>createVersion\<close> replaces exactly the ACTIVE version it was based on: the base
  becomes INACTIVE at the same instant the new version becomes ACTIVE, every other row is
  untouched, the new version number is the highest of its combination plus one, the new row is
  what an opening dispatch resolves from then on, and the table stays well formed.
\<close>

theorem createVersion_supersedes:
  assumes "policies_wf rows"
    and "createVersion newId baseId input reason actor now rows = Inr (p, rows')"
  shows "policies_wf rows' \<and>
    (\<exists>base \<in> set rows. policy_id base = baseId \<and> policy_status base = ACTIVE \<and>
       combination p = combination base \<and>
       policy_version p = max_version (policy_serviceType base) (policy_actorType base) rows + 1 \<and>
       rows' = update_rows (\<lambda>q. policy_id q = baseId)
         (\<lambda>q. q\<lparr>policy_status := INACTIVE, effectiveUntil := Some now\<rparr>) rows @ [p]) \<and>
    resolveActiveCreditPolicy (policy_serviceType p) (policy_actorType p) rows' = Inr p"
proof -
  from assms(2) obtain rs base where b: "validated input = Inr rs"
      "first_row (\<lambda>p. policy_id p = baseId) rows = Some base"
      "case first_row (active_for (policy_serviceType base) (policy_actorType base)) rows of
         None \<Rightarrow> False | Some q \<Rightarrow> policy_id q = policy_id base"
    and p: "p = new_policy newId (policy_serviceType base) (policy_actorType base) input reason
           (max_version (policy_serviceType base) (policy_actorType base) rows + 1) rs actor now"
    and d: "deactivate_policy_row (policy_id base) now rows =
       Inr ((), update_rows (\<lambda>p. policy_id p = policy_id base)
         (\<lambda>p. p\<lparr>policy_status := INACTIVE, effectiveUntil := Some now\<rparr>) rows)"
    and i: "insert_policy_row p (update_rows (\<lambda>p. policy_id p = policy_id base)
         (\<lambda>p. p\<lparr>policy_status := INACTIVE, effectiveUntil := Some now\<rparr>) rows) = Inr (p, rows')"
    by (rule createVersion_steps)
  have wf: "policies_wf rows'"
    by (rule insert_policy_row_wf [OF deactivate_policy_row_wf(1) [OF assms(1) d] _ i])
      (simp add: p new_policy_complete [OF b(1)])
  from b(2) have base: "base \<in> set rows" "policy_id base = baseId" by (auto dest: first_row_Some)
  from b(3) obtain q where q: "q \<in> set rows" "policy_status q = ACTIVE" "policy_id q = policy_id base"
    by (auto split: option.splits dest: first_row_Some simp: active_for_iff)
  with base assms(1) have "q = base"
    using unique_key [of policy_id rows q base] by (simp add: policies_wf_def)
  have "resolveActiveCreditPolicy (policy_serviceType p) (policy_actorType p) rows' = Inr p"
    by (rule resolve_active [OF wf]) (use i in \<open>auto simp: insert_policy_row_Inr active_for_iff combination_def\<close>)
  with wf base q \<open>q = base\<close> i show ?thesis
    by (auto simp: insert_policy_row_Inr p combination_def intro!: bexI [of _ base])
qed

theorem createVersion_supersedes_witness:
  "\<exists>p rows'. createVersion 8 7 example_config None 1 2000 example_policies = Inr (p, rows') \<and>
     policies_wf rows' \<and> policy_version p = 2 \<and>
     resolveActiveCreditPolicy LOCAL_DELIVERY PROVIDER rows' = Inr p"
proof -
  have "\<exists>p rows'. createVersion 8 7 example_config None 1 2000 example_policies = Inr (p, rows')
      \<and> policy_version p = 2 \<and> policy_serviceType p = LOCAL_DELIVERY \<and> policy_actorType p = PROVIDER"
    unfolding createVersion_def example_validated
    by (simp add: example_policies_def first_row_def any_row_def active_for_def same_combination_def
        deactivate_policy_row_def insert_policy_row_def max_version_def calculation_check_def policy_values_check_def length_between_def
        range_check_def ranges_check_def example_ranges_def example_config_def catchT_def bindT_def
        requireT_def getT_def guardT_def Let_def new_policy_def)
  with createVersion_supersedes [OF example_policies_wf] show ?thesis by metis
qed

text \<open>
  C20: Under the well-formedness of the table no guard, CHECK or unique index of the database
  refuses a version that the service accepts: based on the ACTIVE version, with a valid
  configuration, no reason or one that the DTO accepts, a fresh id and a clock that has not moved
  back, \<open>createVersion\<close> succeeds.
\<close>

theorem createVersion_never_blocked:
  assumes "policies_wf rows" and "base \<in> set rows" and "policy_status base = ACTIVE"
    and "validated input = Inr rs" and "newId \<notin> policy_id ` set rows"
    and "effectiveFrom base \<le> now" and "case reason of None \<Rightarrow> True | Some t \<Rightarrow> reason_ok t"
  shows "\<exists>p rows'. createVersion newId (policy_id base) input reason actor now rows = Inr (p, rows')"
proof -
  let ?st = "policy_serviceType base" and ?ac = "policy_actorType base"
  let ?f = "\<lambda>p::credit_policy. p\<lparr>policy_status := INACTIVE, effectiveUntil := Some now\<rparr>"
  let ?rows1 = "update_rows (\<lambda>p. policy_id p = policy_id base) ?f rows"
  let ?p = "new_policy newId ?st ?ac input reason (max_version ?st ?ac rows + 1) rs actor now"
  have keys: "distinct (map policy_id rows)" using assms(1) by (simp add: policies_wf_def)
  have same: "q = base" if "q \<in> set rows" "policy_id q = policy_id base" for q
    using unique_key [OF keys that(1) assms(2) that(2)] .
  have f1: "first_row (\<lambda>p. policy_id p = policy_id base) rows = Some base"
    by (rule first_row_unique_key [OF keys assms(2)])
  have f2: "first_row (active_for ?st ?ac) rows = Some base"
    using resolve_active [OF assms(1,2)] assms(3)
    by (auto simp: resolveActiveCreditPolicy_def active_for_iff combination_def split: option.splits)
  have d: "deactivate_policy_row (policy_id base) now rows = Inr ((), ?rows1)"
    using assms(3,6) by (auto simp: deactivate_policy_row_def bindT_def getT_def guardT_def
        any_row_iff dest: same)
  have m: "max_version ?st ?ac ?rows1 = max_version ?st ?ac rows"
    unfolding max_version_def by (induction rows) (auto simp: same_combination_def)
  have inactive: "\<not> active_for ?st ?ac (if policy_id q = policy_id base then ?f q else q)"
    if q: "q \<in> set rows" for q
  proof (cases "policy_id q = policy_id base")
    case True
    then show ?thesis by (simp add: active_for_iff)
  next
    case False
    with active_unique [OF assms(1) q assms(2), of ?st ?ac] assms(3) show ?thesis
      by (auto simp: active_for_iff combination_def)
  qed
  then have "\<not> any_row (active_for ?st ?ac) ?rows1"
    unfolding any_row_update_rows by blast
  moreover have "\<not> any_row (\<lambda>q. policy_id q = newId) ?rows1"
    using assms(2,5) unfolding any_row_update_rows by (auto split: if_splits)
  moreover have "policy_values_check ?p"
  proof (cases reason)
    case None
    then show ?thesis by (simp add: policy_values_check_def new_policy_def Let_def length_between_def)
  next
    case (Some t)
    with assms(7) reason_ok_length [of t] show ?thesis
      by (simp add: policy_values_check_def new_policy_def Let_def)
  qed
  ultimately have "insert_policy_row ?p ?rows1 = Inr (?p, ?rows1 @ [?p])"
    using new_policy_passes_checks [OF assms(4)] by (auto simp: insert_policy_row_Inr m)
  with f1 f2 d show ?thesis
    by (simp add: createVersion_def assms(4) catchT_def bindT_def requireT_def getT_def guardT_def Let_def)
qed

theorem createVersion_never_blocked_witness:
  "\<exists>p rows'. createVersion 8 7 example_config (Some ''Launch tariff'') 1 2000 example_policies = Inr (p, rows')"
  using createVersion_never_blocked
    [OF example_policies_wf _ _ example_validated, of "hd example_policies" 8 2000 "Some ''Launch tariff''" 1]
  by (simp add: example_policies_def reason_ok_def text_between_def btrim_def printable_def)

text \<open>
  Basing a version on a superseded one, as the loser of two concurrent requests does, is
  refused with CREDIT_POLICY_VERSION_CONFLICT whatever it carries, and nothing is written.
\<close>

theorem createVersion_on_superseded_conflicts:
  assumes "policies_wf rows" and "base \<in> set rows" and "policy_status base = INACTIVE"
    and "validated input = Inr rs"
  shows "commitT (createVersion newId (policy_id base) input reason actor now) rows =
    (Inl (PolicyError CREDIT_POLICY_VERSION_CONFLICT), rows)"
proof -
  let ?st = "policy_serviceType base" and ?ac = "policy_actorType base"
  have keys: "distinct (map policy_id rows)" using assms(1) by (simp add: policies_wf_def)
  have f1: "first_row (\<lambda>p. policy_id p = policy_id base) rows = Some base"
    by (rule first_row_unique_key [OF keys assms(2)])
  have "policy_id q \<noteq> policy_id base" if "first_row (active_for ?st ?ac) rows = Some q" for q
  proof
    assume "policy_id q = policy_id base"
    moreover from that have "q \<in> set rows" "policy_status q = ACTIVE"
      by (auto dest!: first_row_Some simp: active_for_iff)
    ultimately have "q = base" using unique_key [OF keys _ assms(2)] by blast
    with \<open>policy_status q = ACTIVE\<close> assms(3) show False by simp
  qed
  with f1 show ?thesis
    by (simp add: createVersion_def assms(4) commitT_def catchT_def bindT_def requireT_def getT_def
        guardT_def Let_def split: option.splits)
qed

theorem createVersion_on_superseded_conflicts_witness:
  "\<exists>rows. policies_wf rows \<and>
     commitT (createVersion 9 7 example_config None 1 3000) rows =
       (Inl (PolicyError CREDIT_POLICY_VERSION_CONFLICT), rows)"
proof -
  let ?old = "(hd example_policies)\<lparr>policy_status := INACTIVE, effectiveUntil := Some 2000\<rparr>"
  have "policies_wf [?old]"
    by (simp add: policies_wf_def example_policies_def policy_complete_def
        MAX_POLICY_CREDITS_def MAX_CREDIT_MOVEMENT_def)
  from this createVersion_on_superseded_conflicts [OF this _ _ example_validated, of ?old 9 None 1 3000]
  show ?thesis by (intro exI [of _ "[?old]"]) (simp add: example_policies_def)
qed

end
