(* ===== verification/Rate_Bands.thy ===== *)
theory Rate_Bands imports Distance_Tables begin

text \<open>
  The distance bands of a rate plan (src/src/rate-plans/rate-bands.ts): their validation and the
  lookup of the band of a distance. A band always has an upper limit, so a valid table supports
  the distances below the limit of its last band. Amounts are DECIMAL(14,2) columns and held here
  as a whole number of hundredths; limits are INTEGER columns, so the test of the code that
  refuses fractions has nothing left to refuse. Messages are values of \<open>band_problem\<close>.
\<close>

record band_input =
  band_min :: int
  band_max :: int
  band_amount :: int
  band_currency :: string

record rate_band = band_input +
  band_id :: id

datatype band_problem =
    NoBands
  | BadLimits int int
  | BandMaxNotGreater int int
  | BadAmount int int
  | BadCurrency int int string
  | FirstBandNotAtZero int int
  | BandGap int int
  | BandOverlap "int \<times> int" "int \<times> int"

definition band_problems ::
    "string \<Rightarrow> 'a band_input_scheme option \<Rightarrow> 'a band_input_scheme \<Rightarrow> band_problem list" where
  "band_problems planCurrency previous b =
     (let lo = band_min b; hi = band_max b in
      (if lo < 0 then [BadLimits lo hi] else [])
      @ (if hi \<le> lo then [BandMaxNotGreater lo hi] else [])
      @ (if \<not> band_amount b > 0 then [BadAmount lo hi] else [])
      @ (if band_currency b \<noteq> planCurrency then [BadCurrency lo hi planCurrency] else [])
      @ (case previous of
           None \<Rightarrow> if lo \<noteq> 0 then [FirstBandNotAtZero lo hi] else []
         | Some p \<Rightarrow>
             if lo > band_max p then [BandGap (band_max p) lo]
             else if lo < band_max p then [BandOverlap (band_min p, band_max p) (lo, hi)]
             else []))"

fun bands_problems ::
    "string \<Rightarrow> 'a band_input_scheme option \<Rightarrow> 'a band_input_scheme list \<Rightarrow> band_problem list" where
  "bands_problems planCurrency previous [] = []"
| "bands_problems planCurrency previous (b # bs) =
     band_problems planCurrency previous b @ bands_problems planCurrency (Some b) bs"

definition validateBands :: "'a band_input_scheme list \<Rightarrow> string \<Rightarrow> band_problem list" where
  "validateBands bands planCurrency =
     (if bands = [] then [NoBands] else [])
     @ bands_problems planCurrency None (sort_key band_min bands)"

definition band_covers :: "'a band_input_scheme \<Rightarrow> int \<Rightarrow> bool" where
  "band_covers b d = (d \<ge> band_min b \<and> d < band_max b)"

definition findBand :: "'a band_input_scheme list \<Rightarrow> int \<Rightarrow> 'a band_input_scheme option" where
  "findBand bands distanceMeters = List.find (\<lambda>b. band_covers b distanceMeters) bands"

abbreviation band_limit :: "'a band_input_scheme \<Rightarrow> int option" where
  "band_limit b \<equiv> Some (band_max b)"

interpretation rate_bands: distance_table band_min band_limit band_covers
  by unfold_locales (simp add: band_covers_def)

subsection \<open>Valid tables\<close>

definition band_ok :: "string \<Rightarrow> 'a band_input_scheme \<Rightarrow> bool" where
  "band_ok planCurrency b \<longleftrightarrow>
     0 \<le> band_min b \<and> band_min b < band_max b \<and> 0 < band_amount b \<and> band_currency b = planCurrency"

lemma band_problems_Nil:
  "band_problems c previous b = [] \<longleftrightarrow>
     band_ok c b \<and> band_min b = (case previous of None \<Rightarrow> 0 | Some p \<Rightarrow> band_max p)"
  by (auto simp: band_problems_def band_ok_def Let_def split: option.splits)

lemma bands_problems_Nil:
  "bands_problems c previous bs = [] \<longleftrightarrow>
     (\<forall>b \<in> set bs. band_ok c b) \<and>
     chain band_min band_limit (case previous of None \<Rightarrow> 0 | Some p \<Rightarrow> band_max p) bs"
  by (induction bs arbitrary: previous) (auto simp: band_problems_Nil band_ok_def)

lemma validateBands_Nil:
  "validateBands bs c = [] \<longleftrightarrow>
     bs \<noteq> [] \<and> (\<forall>b \<in> set bs. band_ok c b) \<and> chain band_min band_limit 0 (sort_key band_min bs)"
  by (auto simp: validateBands_def bands_problems_Nil)

text \<open>Where the supported distances end: the upper limit of the last band.\<close>

definition supported_limit :: "'a band_input_scheme list \<Rightarrow> int" where
  "supported_limit bs = band_max (last (sort_key band_min bs))"

lemma chain_end_bands: "bs \<noteq> [] \<Longrightarrow> chain_end band_limit a bs = Some (band_max (last bs))"
  by (induction bs arbitrary: a) auto

lemma sort_key_Nil [simp]: "sort_key k xs = [] \<longleftrightarrow> xs = []"
  by (metis length_0_conv length_sort)

lemma chain_end_sorted_bands:
  "bs \<noteq> [] \<Longrightarrow> chain_end band_limit a (sort_key band_min bs) = Some (supported_limit bs)"
  by (simp add: chain_end_bands supported_limit_def)

lemma findBand_valid:
  assumes "validateBands bs c = []" and "0 \<le> d" and "d < supported_limit bs"
  shows "\<exists>b \<in> set bs. findBand bs d = Some b \<and> band_covers b d \<and> band_ok c b \<and>
     (\<forall>q \<in> set bs. band_covers q d \<longrightarrow> q = b)"
proof -
  from assms(1) have c: "chain band_min band_limit 0 (sort_key band_min bs)"
    and ne: "bs \<noteq> []" and ok: "\<forall>b \<in> set bs. band_ok c b"
    by (auto simp: validateBands_Nil)
  from rate_bands.single_covering [OF c assms(2)] assms(3)
  obtain b where b: "filter (\<lambda>r. band_covers r d) bs = [b]" "b \<in> set bs" "band_covers b d"
    unfolding chain_end_sorted_bands [OF ne] before_end_simps by blast
  have "q = b" if "q \<in> set bs" "band_covers q d" for q
  proof -
    from that have "q \<in> set (filter (\<lambda>r. band_covers r d) bs)" by simp
    then show "q = b" unfolding b(1) by simp
  qed
  with rate_bands.find_covering [OF b(1)] b(2,3) ok show ?thesis
    unfolding findBand_def by blast
qed

lemma findBand_outside:
  assumes "validateBands bs c = []" and "\<not> (0 \<le> d \<and> d < supported_limit bs)"
  shows "findBand bs d = None"
proof -
  from assms(1) have c: "chain band_min band_limit 0 (sort_key band_min bs)" and ne: "bs \<noteq> []"
    by (auto simp: validateBands_Nil)
  show ?thesis unfolding findBand_def
    by (rule rate_bands.find_outside [OF c])
      (use assms(2) in \<open>simp add: chain_end_sorted_bands [OF ne]\<close>)
qed

end
