(* ===== verification/Quote_Pricing.thy ===== *)
theory Quote_Pricing imports Rate_Bands begin

text \<open>
  Pricing of a delivery quote (src/src/pricing/quote-pricing.ts and \<open>route\<close> of
  src/src/delivery-quotes/delivery-quotes.service.ts). The zones that contain a point and the
  ACTIVE rate plan of a zone are lookups the caller passes, as in the code; the routing provider
  is a service outside the repository and a parameter: for two points it answers a route, or an
  error with one of the two codes of src/src/routing/routing.types.ts, or fails in another way.
\<close>

datatype quote_failure =
    OUT_OF_SERVICE_AREA
  | CROSS_ZONE_NOT_SUPPORTED
  | ROUTE_NOT_FOUND
  | DISTANCE_NOT_SUPPORTED
  | ROUTING_UNAVAILABLE
  | RATE_CONFIGURATION_UNAVAILABLE
  | RATE_CONFIGURATION_INVALID
  | SERVICE_ZONE_AMBIGUOUS
  | DELIVERY_REQUEST_NOT_QUOTABLE

fun QUOTE_FAILURES :: "quote_failure \<Rightarrow> nat" where
  "QUOTE_FAILURES OUT_OF_SERVICE_AREA = 422"
| "QUOTE_FAILURES CROSS_ZONE_NOT_SUPPORTED = 422"
| "QUOTE_FAILURES ROUTE_NOT_FOUND = 422"
| "QUOTE_FAILURES DISTANCE_NOT_SUPPORTED = 422"
| "QUOTE_FAILURES ROUTING_UNAVAILABLE = 503"
| "QUOTE_FAILURES RATE_CONFIGURATION_UNAVAILABLE = 503"
| "QUOTE_FAILURES RATE_CONFIGURATION_INVALID = 503"
| "QUOTE_FAILURES SERVICE_ZONE_AMBIGUOUS = 503"
| "QUOTE_FAILURES DELIVERY_REQUEST_NOT_QUOTABLE = 409"

record service_zone =
  zone_id :: id
  zone_currency :: string

datatype rate_calculation = DISTANCE_BANDS

record pricing_plan =
  plan_id :: id
  plan_version :: nat
  plan_calculationType :: rate_calculation
  plan_currency :: string
  quoteValidityMinutes :: int
  plan_bands :: "rate_band list"

record pricing_configuration =
  conf_zone :: service_zone
  conf_plan :: pricing_plan

record route_result =
  route_distanceMeters :: int
  route_durationSeconds :: int
  routingProvider :: string
  calculatedAt :: instant

datatype routing_error_code = PROVIDER_ROUTE_NOT_FOUND | PROVIDER_UNAVAILABLE

text \<open>A failed call: a \<open>RoutingError\<close> with its code, or any other exception (\<open>None\<close>).\<close>

type_synonym 'p routing_provider = "'p \<Rightarrow> 'p \<Rightarrow> routing_error_code option + route_result"

definition validateQuoteRatePlan :: "pricing_configuration \<Rightarrow> quote_failure + unit" where
  "validateQuoteRatePlan c =
     (let zone = conf_zone c; plan = conf_plan c in
      if plan_calculationType plan \<noteq> DISTANCE_BANDS \<or> plan_currency plan \<noteq> zone_currency zone
         \<or> validateBands (plan_bands plan) (plan_currency plan) \<noteq> []
      then Inl RATE_CONFIGURATION_INVALID else Inr ())"

definition prepareQuotePricing ::
    "'p \<Rightarrow> 'p \<Rightarrow> ('p \<Rightarrow> service_zone list) \<Rightarrow> (id \<Rightarrow> pricing_plan option) \<Rightarrow>
     quote_failure + pricing_configuration" where
  "prepareQuotePricing origin destination resolveActive findActive =
     (case (resolveActive origin, resolveActive destination) of
        ([], _) \<Rightarrow> Inl OUT_OF_SERVICE_AREA
      | (_, []) \<Rightarrow> Inl OUT_OF_SERVICE_AREA
      | ([pickup], [dropoff]) \<Rightarrow>
          if zone_id pickup \<noteq> zone_id dropoff then Inl CROSS_ZONE_NOT_SUPPORTED
          else (case findActive (zone_id pickup) of
                  None \<Rightarrow> Inl RATE_CONFIGURATION_UNAVAILABLE
                | Some plan \<Rightarrow>
                    let c = \<lparr>conf_zone = pickup, conf_plan = plan\<rparr> in
                    (case validateQuoteRatePlan c of Inl e \<Rightarrow> Inl e | Inr _ \<Rightarrow> Inr c))
      | _ \<Rightarrow> Inl SERVICE_ZONE_AMBIGUOUS)"

definition routeBetween :: "'p routing_provider \<Rightarrow> 'p \<Rightarrow> 'p \<Rightarrow> quote_failure + route_result" where
  "routeBetween calculateRoute origin destination =
     (case calculateRoute origin destination of
        Inr r \<Rightarrow> Inr r
      | Inl e \<Rightarrow>
          if e = Some PROVIDER_ROUTE_NOT_FOUND then Inl ROUTE_NOT_FOUND
          else Inl ROUTING_UNAVAILABLE)"

record quote_price =
  price_band :: rate_band
  price_amount :: int
  price_currency :: string

definition evaluateQuotePrice :: "pricing_configuration \<Rightarrow> route_result \<Rightarrow> quote_failure + quote_price" where
  "evaluateQuotePrice c route =
     (case findBand (plan_bands (conf_plan c)) (route_distanceMeters route) of
        None \<Rightarrow> Inl DISTANCE_NOT_SUPPORTED
      | Some band \<Rightarrow>
          Inr \<lparr>price_band = band, price_amount = band_amount band, price_currency = band_currency band\<rparr>)"

text \<open>The three steps a quote runs, in the order that spends no routing call on a bad tariff.\<close>

definition price_request ::
    "'p \<Rightarrow> 'p \<Rightarrow> ('p \<Rightarrow> service_zone list) \<Rightarrow> (id \<Rightarrow> pricing_plan option) \<Rightarrow> 'p routing_provider \<Rightarrow>
     quote_failure + pricing_configuration \<times> route_result \<times> quote_price" where
  "price_request origin destination resolveActive findActive calculateRoute =
     (case prepareQuotePricing origin destination resolveActive findActive of
        Inl e \<Rightarrow> Inl e
      | Inr c \<Rightarrow>
          (case routeBetween calculateRoute origin destination of
             Inl e \<Rightarrow> Inl e
           | Inr r \<Rightarrow>
               (case evaluateQuotePrice c r of Inl e \<Rightarrow> Inl e | Inr p \<Rightarrow> Inr (c, r, p))))"

lemma validateQuoteRatePlan_Inr:
  "validateQuoteRatePlan c = Inr u \<longleftrightarrow>
     plan_currency (conf_plan c) = zone_currency (conf_zone c) \<and>
     validateBands (plan_bands (conf_plan c)) (plan_currency (conf_plan c)) = []"
  by (cases "plan_calculationType (conf_plan c)") (simp add: validateQuoteRatePlan_def Let_def)

lemma prepareQuotePricing_Inr:
  assumes "prepareQuotePricing origin dest zs ps = Inr c"
  shows "zs origin = [conf_zone c]" "ps (zone_id (conf_zone c)) = Some (conf_plan c)"
    "validateQuoteRatePlan c = Inr ()"
proof -
  from assms obtain z z' where z: "zs origin = [z]" "zs dest = [z']"
    unfolding prepareQuotePricing_def by (auto split: list.splits)
  with assms obtain plan where p: "ps (zone_id z) = Some plan"
    by (auto simp: prepareQuotePricing_def split: option.splits if_splits)
  with assms z have "c = \<lparr>conf_zone = z, conf_plan = plan\<rparr>" "validateQuoteRatePlan c = Inr ()"
    by (auto simp: prepareQuotePricing_def Let_def split: sum.splits if_splits)
  with z p show "zs origin = [conf_zone c]" "ps (zone_id (conf_zone c)) = Some (conf_plan c)"
    "validateQuoteRatePlan c = Inr ()" by simp_all
qed

text \<open>
  C21: Once the tariff is prepared and the route is found, a request is priced exactly when the route
  has a supported length: non-negative and below the limit of the last band. The price is then the
  amount of the only band of the ACTIVE plan that covers the length, positive and in the currency
  of the one zone that contains the pickup. Any other length is refused as DISTANCE_NOT_SUPPORTED.
\<close>

theorem quote_price_correct:
  fixes r c
  defines "d \<equiv> route_distanceMeters r" and "bands \<equiv> plan_bands (conf_plan c)"
  assumes "prepareQuotePricing origin destination zones plans = Inr c"
    and "calculateRoute origin destination = Inr r"
  shows "if 0 \<le> d \<and> d < supported_limit bands
    then \<exists>b \<in> set bands.
      price_request origin destination zones plans calculateRoute =
        Inr (c, r, \<lparr>price_band = b, price_amount = band_amount b, price_currency = band_currency b\<rparr>) \<and>
      band_covers b d \<and> (\<forall>q \<in> set bands. band_covers q d \<longrightarrow> q = b) \<and>
      0 < band_amount b \<and> zones origin = [conf_zone c] \<and> band_currency b = zone_currency (conf_zone c)
    else price_request origin destination zones plans calculateRoute = Inl DISTANCE_NOT_SUPPORTED"
proof -
  from prepareQuotePricing_Inr [OF assms(3)]
  have v: "validateBands bands (plan_currency (conf_plan c)) = []"
    and z: "plan_currency (conf_plan c) = zone_currency (conf_zone c)" "zones origin = [conf_zone c]"
    by (auto simp: validateQuoteRatePlan_Inr bands_def)
  have p: "price_request origin destination zones plans calculateRoute =
      (case evaluateQuotePrice c r of Inl e \<Rightarrow> Inl e | Inr p \<Rightarrow> Inr (c, r, p))"
    using assms(3,4) by (simp add: price_request_def routeBetween_def)
  show ?thesis
  proof (cases "0 \<le> d \<and> d < supported_limit bands")
    case True
    with findBand_valid [OF v, of d] obtain b where b: "b \<in> set bands" "findBand bands d = Some b"
      "band_covers b d" "band_ok (plan_currency (conf_plan c)) b"
      "\<forall>q \<in> set bands. band_covers q d \<longrightarrow> q = b"
      by blast
    from b(2) have "evaluateQuotePrice c r = Inr \<lparr>price_band = b, price_amount = band_amount b,
        price_currency = band_currency b\<rparr>"
      by (simp add: evaluateQuotePrice_def d_def bands_def)
    then have "price_request origin destination zones plans calculateRoute =
        Inr (c, r, \<lparr>price_band = b, price_amount = band_amount b, price_currency = band_currency b\<rparr>)"
      unfolding p by simp
    moreover from b(4) z(1) have "0 < band_amount b" "band_currency b = zone_currency (conf_zone c)"
      by (simp_all add: band_ok_def)
    ultimately show ?thesis unfolding if_P [OF True] using b z(2) by blast
  next
    case False
    with findBand_outside [OF v, of d]
    have "evaluateQuotePrice c r = Inl DISTANCE_NOT_SUPPORTED"
      by (simp add: evaluateQuotePrice_def d_def bands_def)
    then show ?thesis unfolding p using False by simp
  qed
qed

definition example_bands :: "rate_band list" where
  "example_bands =
     [\<lparr>band_min = 3000, band_max = 8000, band_amount = 6500, band_currency = ''MXN'', band_id = 2\<rparr>,
      \<lparr>band_min = 0, band_max = 3000, band_amount = 4000, band_currency = ''MXN'', band_id = 1\<rparr>]"

definition example_plan :: pricing_plan where
  "example_plan = \<lparr>plan_id = 5, plan_version = 1, plan_calculationType = DISTANCE_BANDS,
     plan_currency = ''MXN'', quoteValidityMinutes = 15, plan_bands = example_bands\<rparr>"

definition example_zone :: service_zone where
  "example_zone = \<lparr>zone_id = 4, zone_currency = ''MXN''\<rparr>"

definition example_route :: route_result where
  "example_route = \<lparr>route_distanceMeters = 3000, route_durationSeconds = 600,
     routingProvider = ''GOOGLE'', calculatedAt = 100\<rparr>"

lemma example_bands_valid: "validateBands example_bands ''MXN'' = []"
  by (simp add: validateBands_def example_bands_def band_problems_def)

lemma example_prepared:
  "prepareQuotePricing (0 :: nat) 1 (\<lambda>_. [example_zone]) (\<lambda>z. if z = 4 then Some example_plan else None)
     = Inr \<lparr>conf_zone = example_zone, conf_plan = example_plan\<rparr>"
  using example_bands_valid
  by (simp add: prepareQuotePricing_def validateQuoteRatePlan_def example_zone_def example_plan_def)

theorem quote_price_correct_witness:
  "\<exists>b \<in> set example_bands.
     price_request (0 :: nat) 1 (\<lambda>_. [example_zone]) (\<lambda>z. if z = 4 then Some example_plan else None)
       (\<lambda>_ _. Inr example_route) =
       Inr (\<lparr>conf_zone = example_zone, conf_plan = example_plan\<rparr>, example_route,
         \<lparr>price_band = b, price_amount = band_amount b, price_currency = band_currency b\<rparr>) \<and>
     band_covers b 3000 \<and> band_id b = 2"
  using quote_price_correct [OF example_prepared, of "\<lambda>_ _. Inr example_route" example_route]
  by (simp add: example_route_def example_plan_def supported_limit_def example_bands_def band_covers_def)

end
