(* ===== verification/Rate_Plans.thy ===== *)
theory Rate_Plans imports Quote_Pricing begin

text \<open>
  The versioned rate plans of a zone (src/src/rate-plans/rate-plans.service.ts), with the CHECKs,
  unique indexes and triggers of src/prisma/migrations/20260915000600_routing_pricing_quotes that
  their writes meet. A plan row holds its bands. \<open>rdb_nextId\<close> stands for the UUIDs the database
  client generates.

  Every operation is one transaction. \<open>activate\<close> reads the plan and its bands before it takes the
  locks, so it is given in the two parts between which another transaction can commit:
  \<open>activate_read\<close>, and \<open>activate_locked\<close>, which works with the row read earlier.
\<close>

datatype rate_plan_status = DRAFT | PLAN_ACTIVE | PLAN_INACTIVE

record rate_plan = pricing_plan +
  plan_zone :: id
  plan_serviceType :: service_type
  plan_status :: rate_plan_status
  plan_activatedAt :: "instant option"
  plan_deactivatedAt :: "instant option"

record rate_db =
  rdb_zones :: "service_zone list"
  rdb_plans :: "rate_plan list"
  rdb_nextId :: id

datatype rate_bad_request =
    ValidityBetween int int
  | AmountNotPositive int int
  | MaxNotAboveMin int int
  | SharedMinimum

datatype rate_fault =
    RATE_PLAN_NOT_EDITABLE
  | RATE_PLAN_NOT_ACTIVATABLE
  | RATE_PLAN_INVALID "band_problem list"
  | RATE_PLAN_NOT_ACTIVE
  | RATE_PLAN_CONFLICT
  | RatePlanNotFound
  | ServiceZoneNotFound
  | RateBadRequest rate_bad_request
  | RateUniqueViolation
  | RateCheckViolation
  | RateTriggerRaise

type_synonym 'a rate_tx = "(rate_fault, rate_db, 'a) tx"

record band_dto =
  dto_min :: int
  dto_max :: int
  dto_amount :: int
  dto_currency :: "string option"

subsection \<open>The database\<close>

text \<open>\<open>RatePlan_values_check\<close> and \<open>RateBand_values_check\<close>; a currency column holds a currency.\<close>

definition plan_check :: "rate_plan \<Rightarrow> bool" where
  "plan_check p \<longleftrightarrow>
     plan_version p \<ge> 1 \<and> 1 \<le> quoteValidityMinutes p \<and> quoteValidityMinutes p \<le> 10080 \<and>
     (case plan_status p of
        DRAFT \<Rightarrow> plan_activatedAt p = None \<and> plan_deactivatedAt p = None
      | PLAN_ACTIVE \<Rightarrow> plan_activatedAt p \<noteq> None \<and> plan_deactivatedAt p = None
      | PLAN_INACTIVE \<Rightarrow> plan_activatedAt p \<noteq> None \<and> plan_deactivatedAt p \<noteq> None)"

definition band_check :: "'a band_input_scheme \<Rightarrow> bool" where
  "band_check b \<longleftrightarrow> band_min b \<ge> 0 \<and> band_max b > band_min b \<and> band_amount b > 0"

definition same_service :: "rate_plan \<Rightarrow> rate_plan \<Rightarrow> bool" where
  "same_service p q \<longleftrightarrow> plan_zone p = plan_zone q \<and> plan_serviceType p = plan_serviceType q"

text \<open>A plan as every select returns it: the bands in the order of their minimum.\<close>

definition planSelect :: "rate_plan \<Rightarrow> rate_plan" where
  "planSelect p = p\<lparr>plan_bands := sort_key band_min (plan_bands p)\<rparr>"

definition insert_plan :: "rate_plan \<Rightarrow> rate_plan rate_tx" where
  "insert_plan p =
     bindT getT (\<lambda>db.
     bindT (guardT (plan_check p \<and> list_all band_check (plan_bands p)) RateCheckViolation) (\<lambda>_.
     bindT (guardT (\<not> any_row (\<lambda>q. plan_id q = plan_id p \<or>
                (same_service p q \<and> plan_version q = plan_version p)) (rdb_plans db)
              \<and> distinct (map band_min (plan_bands p))) RateUniqueViolation) (\<lambda>_.
     (\<lambda>s. Inr (planSelect p, s\<lparr>rdb_plans := rdb_plans s @ [p]\<rparr>)))))"

text \<open>An update of one plan: the trigger \<open>rate_plan_immutable\<close>, the CHECK, the ACTIVE index.\<close>

definition rate_plan_immutable :: "rate_plan \<Rightarrow> rate_plan \<Rightarrow> bool" where
  "rate_plan_immutable old new \<longleftrightarrow>
     (plan_status old \<noteq> DRAFT \<longrightarrow>
        plan_zone new = plan_zone old \<and> plan_serviceType new = plan_serviceType old \<and>
        plan_version new = plan_version old \<and>
        plan_calculationType new = plan_calculationType old \<and>
        quoteValidityMinutes new = quoteValidityMinutes old \<and>
        plan_currency new = plan_currency old \<and> plan_activatedAt new = plan_activatedAt old) \<and>
     (plan_status new \<noteq> plan_status old \<longrightarrow>
        plan_status old = DRAFT \<and> plan_status new = PLAN_ACTIVE \<or>
        plan_status old = PLAN_ACTIVE \<and> plan_status new = PLAN_INACTIVE)"

definition update_plan :: "id \<Rightarrow> (rate_plan \<Rightarrow> rate_plan) \<Rightarrow> rate_plan rate_tx" where
  "update_plan pid f =
     bindT (requireT (\<lambda>db. first_row (\<lambda>p. plan_id p = pid) (rdb_plans db)) RatePlanNotFound) (\<lambda>old.
     bindT (guardT (rate_plan_immutable old (f old)) RateTriggerRaise) (\<lambda>_.
     bindT (guardT (plan_check (f old)) RateCheckViolation) (\<lambda>_.
     bindT getT (\<lambda>db.
     bindT (guardT (plan_status (f old) = PLAN_ACTIVE \<longrightarrow>
              \<not> any_row (\<lambda>q. plan_id q \<noteq> pid \<and> same_service q (f old) \<and> plan_status q = PLAN_ACTIVE)
                  (rdb_plans db)) RateUniqueViolation) (\<lambda>_.
     (\<lambda>s. Inr (planSelect (f old),
             s\<lparr>rdb_plans := update_rows (\<lambda>p. plan_id p = pid) f (rdb_plans s)\<rparr>)))))))"

text \<open>
  Deleting and inserting the bands of a plan: the trigger \<open>rate_band_draft_only\<close> refuses an insert
  unless the plan is a draft, the unique index two bands with one minimum.
\<close>

definition write_bands :: "id \<Rightarrow> rate_band list \<Rightarrow> unit rate_tx" where
  "write_bands pid bands =
     bindT getT (\<lambda>db.
     bindT (guardT (bands = [] \<or> any_row (\<lambda>p. plan_id p = pid \<and> plan_status p = DRAFT) (rdb_plans db))
              RateTriggerRaise) (\<lambda>_.
     bindT (guardT (list_all band_check bands) RateCheckViolation) (\<lambda>_.
     bindT (guardT (distinct (map band_min bands)) RateUniqueViolation) (\<lambda>_.
     (\<lambda>s. Inr ((), s\<lparr>rdb_plans := update_rows (\<lambda>p. plan_id p = pid)
                                   (\<lambda>p. p\<lparr>plan_bands := bands\<rparr>) (rdb_plans s)\<rparr>))))))"

subsection \<open>The service\<close>

fun QUOTE_VALIDITY_LIMITS :: "service_type \<Rightarrow> int \<times> int" where
  "QUOTE_VALIDITY_LIMITS LOCAL_DELIVERY = (1, 120)"

definition checkValidity :: "service_type \<Rightarrow> int \<Rightarrow> rate_fault option" where
  "checkValidity st minutes =
     (case QUOTE_VALIDITY_LIMITS st of
        (lo, hi) \<Rightarrow>
          if minutes < lo \<or> minutes > hi then Some (RateBadRequest (ValidityBetween lo hi)) else None)"

fun bandData_problem :: "band_dto list \<Rightarrow> rate_fault option" where
  "bandData_problem [] = None"
| "bandData_problem (b # bs) =
     (if \<not> dto_amount b > 0 then Some (RateBadRequest (AmountNotPositive (dto_min b) (dto_max b)))
      else if dto_max b \<le> dto_min b then Some (RateBadRequest (MaxNotAboveMin (dto_min b) (dto_max b)))
      else bandData_problem bs)"

fun band_rows :: "id \<Rightarrow> string \<Rightarrow> band_dto list \<Rightarrow> rate_band list" where
  "band_rows i currency [] = []"
| "band_rows i currency (b # bs) =
     \<lparr>band_min = dto_min b, band_max = dto_max b, band_amount = dto_amount b,
      band_currency = (case dto_currency b of None \<Rightarrow> currency | Some c \<Rightarrow> c), band_id = i\<rparr>
     # band_rows (i + 1) currency bs"

text \<open>\<open>bandData\<close>: the rows to write, or the first band that is refused.\<close>

definition bandData :: "band_dto list \<Rightarrow> string \<Rightarrow> rate_band list rate_tx" where
  "bandData bands currency =
     (case bandData_problem bands of
        Some e \<Rightarrow> throwT e
      | None \<Rightarrow>
          (\<lambda>db. Inr (band_rows (rdb_nextId db) currency bands,
                     db\<lparr>rdb_nextId := rdb_nextId db + length bands\<rparr>)))"

definition freshId :: "id rate_tx" where
  "freshId db = Inr (rdb_nextId db, db\<lparr>rdb_nextId := rdb_nextId db + 1\<rparr>)"

fun withUniqueGuard :: "rate_fault \<Rightarrow> rate_fault" where
  "withUniqueGuard RateUniqueViolation = RATE_PLAN_CONFLICT"
| "withUniqueGuard e = e"

definition throw_if :: "rate_fault option \<Rightarrow> unit rate_tx" where
  "throw_if e = (case e of None \<Rightarrow> returnT () | Some f \<Rightarrow> throwT f)"

definition nextVersion :: "id \<Rightarrow> service_type \<Rightarrow> rate_db \<Rightarrow> nat" where
  "nextVersion zone st db =
     foldr max (map plan_version (filter (\<lambda>p. plan_zone p = zone \<and> plan_serviceType p = st) (rdb_plans db))) 0
       + 1"

definition findPlan :: "id \<Rightarrow> rate_db \<Rightarrow> rate_plan option" where
  "findPlan pid db = map_option planSelect (first_row (\<lambda>p. plan_id p = pid) (rdb_plans db))"

definition findActive :: "id \<Rightarrow> service_type \<Rightarrow> rate_db \<Rightarrow> rate_plan option" where
  "findActive zone st db =
     map_option planSelect
       (first_row (\<lambda>p. plan_zone p = zone \<and> plan_serviceType p = st \<and> plan_status p = PLAN_ACTIVE)
         (rdb_plans db))"

definition draft_row ::
    "id \<Rightarrow> id \<Rightarrow> service_type \<Rightarrow> nat \<Rightarrow> rate_calculation \<Rightarrow> int \<Rightarrow> string \<Rightarrow> rate_band list \<Rightarrow> rate_plan" where
  "draft_row pid zone st version calc minutes currency bands =
     \<lparr>plan_id = pid, plan_version = version, plan_calculationType = calc, plan_currency = currency,
      quoteValidityMinutes = minutes, plan_bands = bands, plan_zone = zone, plan_serviceType = st,
      plan_status = DRAFT, plan_activatedAt = None, plan_deactivatedAt = None\<rparr>"

definition createPlan ::
    "id \<Rightarrow> service_type \<Rightarrow> rate_calculation option \<Rightarrow> int \<Rightarrow> band_dto list option \<Rightarrow> rate_plan rate_tx" where
  "createPlan zoneId st calc minutes bands =
     bindT (throw_if (checkValidity st minutes)) (\<lambda>_.
     catchT
       (bindT (requireT (\<lambda>db. first_row (\<lambda>z. zone_id z = zoneId) (rdb_zones db)) ServiceZoneNotFound) (\<lambda>zone.
        bindT (readT (nextVersion zoneId st)) (\<lambda>version.
        bindT (bandData (case bands of None \<Rightarrow> [] | Some bs \<Rightarrow> bs) (zone_currency zone)) (\<lambda>rows.
        bindT freshId (\<lambda>pid.
        insert_plan (draft_row pid zoneId st version
          (case calc of None \<Rightarrow> DISTANCE_BANDS | Some c \<Rightarrow> c) minutes (zone_currency zone) rows))))))
       withUniqueGuard)"

fun renumber_bands :: "id \<Rightarrow> rate_band list \<Rightarrow> rate_band list" where
  "renumber_bands i [] = []"
| "renumber_bands i (b # bs) = b\<lparr>band_id := i\<rparr> # renumber_bands (i + 1) bs"

definition copyBands :: "rate_band list \<Rightarrow> rate_band list rate_tx" where
  "copyBands bs db =
     Inr (renumber_bands (rdb_nextId db) bs, db\<lparr>rdb_nextId := rdb_nextId db + length bs\<rparr>)"

definition clonePlan :: "id \<Rightarrow> rate_plan rate_tx" where
  "clonePlan pid =
     catchT
       (bindT (requireT (findPlan pid) RatePlanNotFound) (\<lambda>source.
        bindT (readT (nextVersion (plan_zone source) (plan_serviceType source))) (\<lambda>version.
        bindT (copyBands (plan_bands source)) (\<lambda>rows.
        bindT freshId (\<lambda>newId.
        insert_plan (draft_row newId (plan_zone source) (plan_serviceType source) version
          (plan_calculationType source) (quoteValidityMinutes source) (plan_currency source) rows))))))
       withUniqueGuard"

definition lockPlan :: "id \<Rightarrow> rate_plan rate_tx" where
  "lockPlan pid = requireT (\<lambda>db. first_row (\<lambda>p. plan_id p = pid) (rdb_plans db)) RatePlanNotFound"

definition updateValidity :: "id \<Rightarrow> int \<Rightarrow> rate_plan rate_tx" where
  "updateValidity pid minutes =
     bindT (lockPlan pid) (\<lambda>current.
     bindT (guardT (plan_status current = DRAFT) RATE_PLAN_NOT_EDITABLE) (\<lambda>_.
     bindT (throw_if (checkValidity (plan_serviceType current) minutes)) (\<lambda>_.
     update_plan pid (\<lambda>p. p\<lparr>quoteValidityMinutes := minutes\<rparr>))))"

fun sharedMinimum :: "rate_fault \<Rightarrow> rate_fault" where
  "sharedMinimum RateUniqueViolation = RateBadRequest SharedMinimum"
| "sharedMinimum e = e"

definition replaceBands :: "id \<Rightarrow> band_dto list \<Rightarrow> rate_plan rate_tx" where
  "replaceBands pid bands =
     catchT
       (bindT (lockPlan pid) (\<lambda>current.
        bindT (guardT (plan_status current = DRAFT) RATE_PLAN_NOT_EDITABLE) (\<lambda>_.
        bindT (bandData bands (plan_currency current)) (\<lambda>rows.
        bindT (write_bands pid rows) (\<lambda>_.
        requireT (findPlan pid) RatePlanNotFound)))))
       sharedMinimum"

definition validatePlan :: "id \<Rightarrow> (bool \<times> band_problem list) rate_tx" where
  "validatePlan pid =
     bindT (requireT (findPlan pid) RatePlanNotFound) (\<lambda>plan.
     let errs = validateBands (plan_bands plan) (plan_currency plan)
     in returnT (errs = [], errs))"

definition activate_read :: "id \<Rightarrow> rate_plan rate_tx" where
  "activate_read pid = requireT (findPlan pid) RatePlanNotFound"

definition deactivate_previous :: "rate_plan \<Rightarrow> instant \<Rightarrow> unit rate_tx" where
  "deactivate_previous draft now =
     bindT (readT (findActive (plan_zone draft) (plan_serviceType draft))) (\<lambda>previous.
     case previous of
       None \<Rightarrow> returnT ()
     | Some q \<Rightarrow>
         bindT (update_plan (plan_id q)
           (\<lambda>p. p\<lparr>plan_status := PLAN_INACTIVE, plan_deactivatedAt := Some now\<rparr>)) (\<lambda>_. returnT ()))"

definition activate_locked :: "id \<Rightarrow> instant \<Rightarrow> rate_plan \<Rightarrow> rate_plan rate_tx" where
  "activate_locked pid now draft =
     bindT (lockPlan pid) (\<lambda>current.
     if plan_status current = PLAN_ACTIVE then returnT draft
     else
       bindT (guardT (plan_status current = DRAFT) RATE_PLAN_NOT_ACTIVATABLE) (\<lambda>_.
       bindT (throw_if (checkValidity (plan_serviceType draft) (quoteValidityMinutes draft))) (\<lambda>_.
       bindT (let errs = validateBands (plan_bands draft) (plan_currency draft)
              in guardT (errs = []) (RATE_PLAN_INVALID errs)) (\<lambda>_.
       bindT (deactivate_previous draft now) (\<lambda>_.
       update_plan pid (\<lambda>p. p\<lparr>plan_status := PLAN_ACTIVE, plan_activatedAt := Some now\<rparr>))))))"

text \<open>The whole operation, when no other transaction commits between its two parts.\<close>

definition activatePlan :: "id \<Rightarrow> instant \<Rightarrow> rate_plan rate_tx" where
  "activatePlan pid now =
     catchT (bindT (activate_read pid) (activate_locked pid now)) withUniqueGuard"

definition deactivatePlan :: "id \<Rightarrow> instant \<Rightarrow> rate_plan rate_tx" where
  "deactivatePlan pid now =
     bindT getT (\<lambda>db.
     if any_row (\<lambda>p. plan_id p = pid \<and> plan_status p = PLAN_ACTIVE) (rdb_plans db)
     then bindT (update_plan pid
            (\<lambda>p. p\<lparr>plan_status := PLAN_INACTIVE, plan_deactivatedAt := Some now\<rparr>)) (\<lambda>_.
          requireT (findPlan pid) RatePlanNotFound)
     else bindT (requireT (findPlan pid) RatePlanNotFound) (\<lambda>plan.
          bindT (guardT (plan_status plan \<noteq> DRAFT) RATE_PLAN_NOT_ACTIVE) (\<lambda>_.
          returnT plan)))"

subsection \<open>The invariant of the tables\<close>

definition plan_service :: "rate_plan \<Rightarrow> id \<times> service_type" where
  "plan_service p = (plan_zone p, plan_serviceType p)"

lemma same_service_iff: "same_service p q \<longleftrightarrow> plan_service p = plan_service q"
  by (auto simp: same_service_def plan_service_def)

text \<open>
  A plan that has left DRAFT has bands that pass validation; the currency of every plan is the
  one of its zone.
\<close>

definition plan_row_ok :: "service_zone list \<Rightarrow> rate_plan \<Rightarrow> bool" where
  "plan_row_ok zones p \<longleftrightarrow>
     plan_check p \<and> list_all band_check (plan_bands p) \<and>
     (\<exists>z \<in> set zones. zone_id z = plan_zone p \<and> zone_currency z = plan_currency p) \<and>
     checkValidity (plan_serviceType p) (quoteValidityMinutes p) = None \<and>
     (plan_status p \<noteq> DRAFT \<longrightarrow> validateBands (plan_bands p) (plan_currency p) = [])"

abbreviation active_plan :: "rate_plan \<Rightarrow> bool" where
  "active_plan p \<equiv> plan_status p = PLAN_ACTIVE"

definition rates_wf :: "rate_db \<Rightarrow> bool" where
  "rates_wf db \<longleftrightarrow>
     distinct (map zone_id (rdb_zones db)) \<and>
     distinct (map plan_id (rdb_plans db)) \<and>
     unique_on active_plan plan_service (rdb_plans db) \<and>
     list_all (plan_row_ok (rdb_zones db)) (rdb_plans db)"

lemma planSelect_simps [simp]:
  "plan_id (planSelect p) = plan_id p" "plan_zone (planSelect p) = plan_zone p"
  "plan_serviceType (planSelect p) = plan_serviceType p" "plan_status (planSelect p) = plan_status p"
  "plan_currency (planSelect p) = plan_currency p"
  "quoteValidityMinutes (planSelect p) = quoteValidityMinutes p"
  "plan_bands (planSelect p) = sort_key band_min (plan_bands p)"
  "plan_calculationType (planSelect p) = plan_calculationType p"
  by (simp_all add: planSelect_def)

lemma validateBands_sorted [simp]: "validateBands (sort_key band_min bs) c = validateBands bs c"
  by (simp add: validateBands_def sort_key_id_if_sorted)

lemma insert_plan_wf:
  assumes "insert_plan p db = Inr (q, db')" and "rates_wf db" and "plan_status p = DRAFT"
    and "\<exists>z \<in> set (rdb_zones db). zone_id z = plan_zone p \<and> zone_currency z = plan_currency p"
    and "checkValidity (plan_serviceType p) (quoteValidityMinutes p) = None"
  shows "rates_wf db'"
proof -
  from assms(1) have i: "plan_check p" "list_all band_check (plan_bands p)"
    "\<And>q. q \<in> set (rdb_plans db) \<Longrightarrow> plan_id q \<noteq> plan_id p"
    and db': "db' = db\<lparr>rdb_plans := rdb_plans db @ [p]\<rparr>"
    by (auto simp: insert_plan_def tx_simps any_row_iff)
  from i(3) have "plan_id p \<notin> plan_id ` set (rdb_plans db)" by (auto dest!: i(3))
  moreover from assms(3-5) i(1,2) have "plan_row_ok (rdb_zones db) p" by (simp add: plan_row_ok_def)
  ultimately show ?thesis using assms(2,3) by (simp add: db' rates_wf_def unique_on_append)
qed

lemma update_plan_Inr:
  "update_plan pid f db = Inr (q, db') \<longleftrightarrow>
     (\<exists>p. first_row (\<lambda>p. plan_id p = pid) (rdb_plans db) = Some p \<and> q = planSelect (f p) \<and>
        rate_plan_immutable p (f p) \<and> plan_check (f p) \<and>
        (active_plan (f p) \<longrightarrow>
           (\<forall>q \<in> set (rdb_plans db). plan_id q \<noteq> pid \<longrightarrow> active_plan q \<longrightarrow> plan_service q \<noteq> plan_service (f p))) \<and>
        db' = db\<lparr>rdb_plans := update_rows (\<lambda>p. plan_id p = pid) f (rdb_plans db)\<rparr>)"
  unfolding update_plan_def by (auto simp: tx_simps any_row_iff same_service_iff)

lemma update_plan_wf:
  assumes "update_plan pid f db = Inr (q, db')" and "rates_wf db"
    and "\<And>p. plan_id (f p) = plan_id p"
    and "\<And>p. p \<in> set (rdb_plans db) \<Longrightarrow> plan_id p = pid \<Longrightarrow> plan_row_ok (rdb_zones db) p \<Longrightarrow>
           plan_check (f p) \<Longrightarrow> plan_row_ok (rdb_zones db) (f p)"
  shows "rates_wf db'"
proof -
  from assms(1) obtain p where p: "p \<in> set (rdb_plans db)" "plan_id p = pid" "plan_check (f p)"
    and a: "active_plan (f p) \<longrightarrow>
      (\<forall>q \<in> set (rdb_plans db). plan_id q \<noteq> pid \<longrightarrow> active_plan q \<longrightarrow> plan_service q \<noteq> plan_service (f p))"
    and db': "db' = db\<lparr>rdb_plans := update_rows (\<lambda>p. plan_id p = pid) f (rdb_plans db)\<rparr>"
    unfolding update_plan_Inr by (auto dest: first_row_Some)
  from assms(2) have keys: "distinct (map plan_id (rdb_plans db))" by (simp add: rates_wf_def)
  have one: "r = p" if "r \<in> set (rdb_plans db)" "plan_id r = pid" for r
    using unique_key [OF keys that(1) p(1)] that(2) p(2) by simp
  have "unique_on active_plan plan_service (update_rows (\<lambda>p. plan_id p = pid) f (rdb_plans db))"
    using assms(2) a by (intro unique_on_update [OF keys]) (auto simp: rates_wf_def dest: one)
  moreover have ok: "list_all (plan_row_ok (rdb_zones db)) (rdb_plans db)"
    using assms(2) by (simp add: rates_wf_def)
  with p(1) have "plan_row_ok (rdb_zones db) (f p)"
    by (auto simp: list_all_iff intro!: assms(4) p)
  then have "list_all (plan_row_ok (rdb_zones db)) (update_rows (\<lambda>p. plan_id p = pid) f (rdb_plans db))"
    by (intro list_all_update [OF ok]) (auto dest: one)
  ultimately show ?thesis
    using assms(2,3) by (simp add: rates_wf_def db' map_update_rows)
qed

lemma write_bands_wf:
  assumes "write_bands pid bands db = Inr (u, db')" and "rates_wf db"
    and "\<And>p. p \<in> set (rdb_plans db) \<Longrightarrow> plan_id p = pid \<Longrightarrow> plan_status p = DRAFT"
  shows "rates_wf db'"
proof -
  from assms(1) have b: "list_all band_check bands"
    and db': "db' = db\<lparr>rdb_plans := update_rows (\<lambda>p. plan_id p = pid)
                (\<lambda>p. p\<lparr>plan_bands := bands\<rparr>) (rdb_plans db)\<rparr>"
    by (auto simp: write_bands_def tx_simps)
  let ?rows = "update_rows (\<lambda>p. plan_id p = pid) (\<lambda>p. p\<lparr>plan_bands := bands\<rparr>) (rdb_plans db)"
  from assms(2) have keys: "distinct (map plan_id (rdb_plans db))" by (simp add: rates_wf_def)
  have "unique_on active_plan plan_service ?rows"
    using assms(2,3) by (intro unique_on_update [OF keys]) (auto simp: rates_wf_def)
  moreover have "list_all (plan_row_ok (rdb_zones db)) ?rows"
    using assms(2,3) b
    by (intro list_all_update) (auto simp: rates_wf_def plan_row_ok_def plan_check_def)
  ultimately show ?thesis using assms(2) by (simp add: rates_wf_def db' map_update_rows)
qed

lemma rates_wf_nextId [simp]: "rates_wf (db\<lparr>rdb_nextId := n\<rparr>) = rates_wf db"
  by (simp add: rates_wf_def)

lemma findPlan_Some:
  "findPlan pid db = Some p \<Longrightarrow>
   \<exists>q \<in> set (rdb_plans db). plan_id q = pid \<and> p = planSelect q"
  by (auto simp: findPlan_def dest: first_row_Some)

lemma throw_if_Inr: "throw_if e db = Inr (u, db') \<longleftrightarrow> e = None \<and> db' = db"
  by (auto simp: throw_if_def tx_simps split: option.splits)

lemma bandData_Inr:
  "bandData bs c db = Inr (rows, db') \<Longrightarrow> \<exists>n. db' = db\<lparr>rdb_nextId := n\<rparr>"
  by (auto simp: bandData_def tx_simps split: option.splits)

lemma createPlan_wf:
  assumes "createPlan zoneId st calc minutes bands db = Inr (p, db')" and "rates_wf db"
  shows "rates_wf db'"
proof -
  from assms(1) obtain zone rows db1 pid db2 where
    v: "checkValidity st minutes = None" and
    z: "first_row (\<lambda>z. zone_id z = zoneId) (rdb_zones db) = Some zone" and
    b: "bandData (case bands of None \<Rightarrow> [] | Some bs \<Rightarrow> bs) (zone_currency zone) db = Inr (rows, db1)" and
    f: "freshId db1 = Inr (pid, db2)" and
    i: "insert_plan (draft_row pid zoneId st (nextVersion zoneId st db)
          (case calc of None \<Rightarrow> DISTANCE_BANDS | Some c \<Rightarrow> c) minutes (zone_currency zone) rows) db2 = Inr (p, db')"
    unfolding createPlan_def by (auto simp: tx_simps throw_if_Inr simp del: option.case)
  from f bandData_Inr [OF b] obtain n where db2: "db2 = db\<lparr>rdb_nextId := n\<rparr>"
    by (auto simp: freshId_def)
  show ?thesis
    by (rule insert_plan_wf [OF i]) (use assms(2) v first_row_Some [OF z] in \<open>auto simp: db2 draft_row_def\<close>)
qed

lemma clonePlan_wf:
  assumes "clonePlan pid db = Inr (p, db')" and "rates_wf db"
  shows "rates_wf db'"
proof -
  from assms(1) obtain source newId n rows where
    s: "findPlan pid db = Some source" and
    i: "insert_plan (draft_row newId (plan_zone source) (plan_serviceType source)
          (nextVersion (plan_zone source) (plan_serviceType source) db)
          (plan_calculationType source) (quoteValidityMinutes source) (plan_currency source) rows)
        (db\<lparr>rdb_nextId := n\<rparr>) = Inr (p, db')"
    unfolding clonePlan_def by (auto simp: tx_simps copyBands_def freshId_def)
  from findPlan_Some [OF s] assms(2) obtain q where
    "plan_row_ok (rdb_zones db) q" "source = planSelect q"
    by (auto simp: rates_wf_def list_all_iff)
  then show ?thesis
    by (intro insert_plan_wf [OF i]) (use assms(2) in \<open>auto simp: draft_row_def plan_row_ok_def\<close>)
qed

lemma lockPlan_Inr:
  "lockPlan pid db = Inr (p, db') \<longleftrightarrow>
     first_row (\<lambda>p. plan_id p = pid) (rdb_plans db) = Some p \<and> db' = db"
  by (auto simp: lockPlan_def tx_simps)

lemma locked_unique:
  assumes "rates_wf db" and "first_row (\<lambda>p. plan_id p = pid) (rdb_plans db) = Some p"
    and "q \<in> set (rdb_plans db)" and "plan_id q = pid"
  shows "q = p"
  using assms unique_key [of plan_id "rdb_plans db" q p] first_row_Some [OF assms(2)]
  by (simp add: rates_wf_def)

lemma updateValidity_wf:
  assumes "updateValidity pid minutes db = Inr (p, db')" and "rates_wf db"
  shows "rates_wf db'"
proof -
  from assms(1) obtain current where
    c: "first_row (\<lambda>p. plan_id p = pid) (rdb_plans db) = Some current"
      "checkValidity (plan_serviceType current) minutes = None" and
    u: "update_plan pid (\<lambda>p. p\<lparr>quoteValidityMinutes := minutes\<rparr>) db = Inr (p, db')"
    unfolding updateValidity_def by (auto simp: tx_simps throw_if_Inr lockPlan_Inr)
  show ?thesis
    by (rule update_plan_wf [OF u assms(2)])
      (use c(2) locked_unique [OF assms(2) c(1)] in \<open>auto simp: plan_row_ok_def\<close>)
qed

lemma replaceBands_wf:
  assumes "replaceBands pid bands db = Inr (p, db')" and "rates_wf db"
  shows "rates_wf db'"
proof -
  from assms(1) obtain current rows db1 where
    c: "first_row (\<lambda>p. plan_id p = pid) (rdb_plans db) = Some current" "plan_status current = DRAFT" and
    b: "bandData bands (plan_currency current) db = Inr (rows, db1)" and
    w: "write_bands pid rows db1 = Inr ((), db')"
    unfolding replaceBands_def by (auto simp: tx_simps lockPlan_Inr)
  from bandData_Inr [OF b] obtain n where db1: "db1 = db\<lparr>rdb_nextId := n\<rparr>" ..
  show ?thesis
    by (rule write_bands_wf [OF w]) (use assms(2) c locked_unique [OF assms(2) c(1)] in \<open>auto simp: db1\<close>)
qed

lemma deactivate_row_wf:
  assumes "update_plan pid (\<lambda>p. p\<lparr>plan_status := PLAN_INACTIVE, plan_deactivatedAt := Some now\<rparr>) db
      = Inr (p, db')"
    and "rates_wf db" and "\<And>q. q \<in> set (rdb_plans db) \<Longrightarrow> plan_id q = pid \<Longrightarrow> plan_status q \<noteq> DRAFT"
  shows "rates_wf db'"
  by (rule update_plan_wf [OF assms(1,2)]) (use assms(3) in \<open>auto simp: plan_row_ok_def\<close>)

lemma deactivatePlan_wf:
  assumes "deactivatePlan pid now db = Inr (p, db')" and "rates_wf db"
  shows "rates_wf db'"
proof (cases "any_row (\<lambda>p. plan_id p = pid \<and> plan_status p = PLAN_ACTIVE) (rdb_plans db)")
  case True
  then obtain q where q: "q \<in> set (rdb_plans db)" "plan_id q = pid" "plan_status q = PLAN_ACTIVE"
    by (auto simp: any_row_iff)
  from True assms(1) obtain r where u:
    "update_plan pid (\<lambda>p. p\<lparr>plan_status := PLAN_INACTIVE, plan_deactivatedAt := Some now\<rparr>) db = Inr (r, db')"
    unfolding deactivatePlan_def by (auto simp: tx_simps)
  have "r = q" if "r \<in> set (rdb_plans db)" "plan_id r = pid" for r
    using unique_key [of plan_id "rdb_plans db" r q] that q assms(2) by (simp add: rates_wf_def)
  with q(3) show ?thesis by (intro deactivate_row_wf [OF u assms(2)]) auto
next
  case False
  with assms show ?thesis unfolding deactivatePlan_def by (auto simp: tx_simps)
qed

lemma deactivate_previous_wf:
  assumes "deactivate_previous draft now db = Inr (u, db')" and "rates_wf db"
  shows "rates_wf db'" "rdb_zones db' = rdb_zones db"
    "\<And>p. p \<in> set (rdb_plans db) \<Longrightarrow> plan_status p = DRAFT \<Longrightarrow> p \<in> set (rdb_plans db')"
proof -
  have "rates_wf db' \<and> rdb_zones db' = rdb_zones db \<and>
    (\<forall>p \<in> set (rdb_plans db). plan_status p = DRAFT \<longrightarrow> p \<in> set (rdb_plans db'))"
  proof (cases "findActive (plan_zone draft) (plan_serviceType draft) db")
    case None
    with assms show ?thesis by (auto simp: deactivate_previous_def tx_simps)
  next
    case (Some a)
    then obtain q where q: "q \<in> set (rdb_plans db)" "plan_status q = PLAN_ACTIVE" "plan_id a = plan_id q"
      by (auto simp: findActive_def dest!: first_row_Some)
    from Some assms(1) q(3) obtain r where u: "update_plan (plan_id q)
        (\<lambda>p. p\<lparr>plan_status := PLAN_INACTIVE, plan_deactivatedAt := Some now\<rparr>) db = Inr (r, db')"
      by (auto simp: deactivate_previous_def tx_simps)
    have one: "r = q" if "r \<in> set (rdb_plans db)" "plan_id r = plan_id q" for r
      using unique_key [of plan_id "rdb_plans db" r q] that q assms(2) by (simp add: rates_wf_def)
    have "rates_wf db'"
      by (rule deactivate_row_wf [OF u assms(2)]) (use q in \<open>auto dest: one\<close>)
    moreover have "p \<in> set (rdb_plans db')" if "p \<in> set (rdb_plans db)" "plan_status p = DRAFT" for p
    proof -
      from one [OF that(1)] that(2) q(2) have "plan_id p \<noteq> plan_id q" by auto
      with that(1) u show ?thesis by (auto simp: update_plan_Inr in_update_rows intro!: bexI [of _ p])
    qed
    ultimately show ?thesis using u by (auto simp: update_plan_Inr)
  qed
  then show "rates_wf db'" "rdb_zones db' = rdb_zones db"
    "\<And>p. p \<in> set (rdb_plans db) \<Longrightarrow> plan_status p = DRAFT \<Longrightarrow> p \<in> set (rdb_plans db')" by blast+
qed

text \<open>
  Activation keeps the invariant as long as the row read before the locks still has the bands,
  the currency and the validity of the row locked.
\<close>

lemma activate_locked_wf:
  assumes "activate_locked pid now draft db = Inr (p, db')" and "rates_wf db"
    and "\<And>q. q \<in> set (rdb_plans db) \<Longrightarrow> plan_id q = pid \<Longrightarrow> draft = planSelect q"
  shows "rates_wf db'"
proof -
  from assms(1) obtain current where
    c: "first_row (\<lambda>p. plan_id p = pid) (rdb_plans db) = Some current"
    unfolding activate_locked_def by (auto simp: tx_simps lockPlan_Inr)
  show ?thesis
  proof (cases "plan_status current = PLAN_ACTIVE")
    case True
    with assms c show ?thesis unfolding activate_locked_def by (auto simp: tx_simps lockPlan_Inr)
  next
    case False
    with assms(1) c obtain u db1 where
      d: "plan_status current = DRAFT" and
      v: "validateBands (plan_bands draft) (plan_currency draft) = []" and
      dp: "deactivate_previous draft now db = Inr (u, db1)" and
      a: "update_plan pid (\<lambda>p. p\<lparr>plan_status := PLAN_ACTIVE, plan_activatedAt := Some now\<rparr>) db1 = Inr (p, db')"
      unfolding activate_locked_def
      by (auto simp: tx_simps lockPlan_Inr throw_if_Inr Let_def)
    from first_row_Some [OF c] have cu: "current \<in> set (rdb_plans db)" "plan_id current = pid" by auto
    from assms(3) [OF cu] v have vc: "validateBands (plan_bands current) (plan_currency current) = []"
      by simp
    note w = deactivate_previous_wf [OF dp assms(2)]
    have one: "q = current" if "q \<in> set (rdb_plans db1)" "plan_id q = pid" for q
      using unique_key [of plan_id "rdb_plans db1" q current] that cu w(1) w(3) [OF cu(1) d]
      by (simp add: rates_wf_def)
    show ?thesis
      by (rule update_plan_wf [OF a w(1)]) (use one vc in \<open>auto simp: plan_row_ok_def w(2)\<close>)
  qed
qed

lemma activatePlan_wf:
  assumes "activatePlan pid now db = Inr (p, db')" and "rates_wf db"
  shows "rates_wf db'"
proof -
  from assms(1) obtain draft where r: "findPlan pid db = Some draft"
    and a: "activate_locked pid now draft db = Inr (p, db')"
    unfolding activatePlan_def activate_read_def by (auto simp: tx_simps)
  from findPlan_Some [OF r] obtain q where q: "q \<in> set (rdb_plans db)" "plan_id q = pid" "draft = planSelect q"
    by auto
  show ?thesis
    by (rule activate_locked_wf [OF a assms(2)])
      (use unique_key [of plan_id "rdb_plans db" _ q] q assms(2) in \<open>auto simp: rates_wf_def\<close>)
qed

subsection \<open>Every history of the tables\<close>

inductive rate_step :: "rate_db \<Rightarrow> rate_db \<Rightarrow> bool" where
  zone_created: "zone_id z \<notin> zone_id ` set (rdb_zones db) \<Longrightarrow>
    rate_step db (db\<lparr>rdb_zones := rdb_zones db @ [z]\<rparr>)"
| created: "createPlan zoneId st calc minutes bands db = Inr (p, db') \<Longrightarrow> rate_step db db'"
| cloned: "clonePlan pid db = Inr (p, db') \<Longrightarrow> rate_step db db'"
| updated: "updateValidity pid minutes db = Inr (p, db') \<Longrightarrow> rate_step db db'"
| replaced: "replaceBands pid dtos db = Inr (p, db') \<Longrightarrow> rate_step db db'"
| activated: "activatePlan pid now db = Inr (p, db') \<Longrightarrow> rate_step db db'"
| deactivated: "deactivatePlan pid now db = Inr (p, db') \<Longrightarrow> rate_step db db'"

lemma zone_created_wf:
  assumes "zone_id z \<notin> zone_id ` set (rdb_zones db)" and "rates_wf db"
  shows "rates_wf (db\<lparr>rdb_zones := rdb_zones db @ [z]\<rparr>)"
  using assms by (auto simp: rates_wf_def list_all_iff plan_row_ok_def)

interpretation rate_history: invariant_system rate_step rates_wf
proof
  fix s t
  assume "rate_step s t" and "rates_wf s"
  then show "rates_wf t"
    by cases (simp_all add: zone_created_wf createPlan_wf clonePlan_wf updateValidity_wf replaceBands_wf
        activatePlan_wf deactivatePlan_wf)
qed

definition empty_rates :: rate_db where
  "empty_rates = \<lparr>rdb_zones = [], rdb_plans = [], rdb_nextId = 1\<rparr>"

lemma empty_rates_wf: "rates_wf empty_rates"
  by (simp add: rates_wf_def empty_rates_def)

text \<open>The plan lookup a quote uses: the columns the pricing needs.\<close>

definition activePricing :: "rate_db \<Rightarrow> id \<Rightarrow> pricing_plan option" where
  "activePricing db zone = map_option pricing_plan.truncate (findActive zone LOCAL_DELIVERY db)"

lemma truncate_simps [simp]:
  "plan_currency (pricing_plan.truncate p) = plan_currency p"
  "plan_bands (pricing_plan.truncate p) = plan_bands p"
  "plan_id (pricing_plan.truncate p) = plan_id p"
  by (simp_all add: pricing_plan.truncate_def)

lemma active_pricing_valid:
  assumes "rates_wf db" and "z \<in> set (rdb_zones db)" and "activePricing db (zone_id z) = Some plan"
  shows "validateQuoteRatePlan \<lparr>conf_zone = z, conf_plan = plan\<rparr> = Inr ()"
proof -
  from assms(3) obtain q where q: "q \<in> set (rdb_plans db)" "plan_zone q = zone_id z"
      "plan_status q = PLAN_ACTIVE" "plan = pricing_plan.truncate (planSelect q)"
    by (auto simp: activePricing_def findActive_def dest!: first_row_Some)
  from assms(1) q obtain z' where z': "z' \<in> set (rdb_zones db)" "zone_id z' = zone_id z"
      "zone_currency z' = plan_currency q" and v: "validateBands (plan_bands q) (plan_currency q) = []"
    by (auto simp: rates_wf_def list_all_iff plan_row_ok_def)
  have "z' = z" using unique_key [of zone_id "rdb_zones db" z' z] z' assms(1,2) by (simp add: rates_wf_def)
  with z' v q show ?thesis by (simp add: validateQuoteRatePlan_Inr)
qed

text \<open>
  C22: Whatever the administrators did before, as long as no two of their transactions interleave
  inside an activation, a quote never finds the ACTIVE plan of a zone inconsistent: from an empty
  database, after any sequence of the operations on zones and plans, pricing between points that
  the stored zones contain does not fail with RATE_CONFIGURATION_INVALID.
\<close>

theorem active_tariff_always_consistent:
  assumes "rtranclp rate_step empty_rates db"
    and "\<And>point z. z \<in> set (zones point) \<Longrightarrow> z \<in> set (rdb_zones db)"
  shows "prepareQuotePricing origin destination zones (activePricing db) \<noteq> Inl RATE_CONFIGURATION_INVALID"
proof
  assume e: "prepareQuotePricing origin destination zones (activePricing db) = Inl RATE_CONFIGURATION_INVALID"
  from rate_history.reachable_inv [OF assms(1) empty_rates_wf] have wf: "rates_wf db" .
  from e obtain z z' where z: "zones origin = [z]" "zones destination = [z']"
    unfolding prepareQuotePricing_def by (auto split: list.splits)
  with e obtain plan where p: "activePricing db (zone_id z) = Some plan"
    by (auto simp: prepareQuotePricing_def split: option.splits if_splits)
  from active_pricing_valid [OF wf assms(2) p, of origin] z e p show False
    by (auto simp: prepareQuotePricing_def Let_def split: if_splits)
qed

definition example_dtos :: "band_dto list" where
  "example_dtos =
     [\<lparr>dto_min = 3000, dto_max = 8000, dto_amount = 6500, dto_currency = None\<rparr>,
      \<lparr>dto_min = 0, dto_max = 3000, dto_amount = 4000, dto_currency = Some ''MXN''\<rparr>]"

definition example_created :: "rate_fault + rate_plan \<times> rate_db" where
  "example_created = createPlan 4 LOCAL_DELIVERY None 15 (Some example_dtos)
     (empty_rates\<lparr>rdb_zones := [example_zone]\<rparr>)"

definition example_rates :: rate_db where
  "example_rates = state_after empty_rates example_created"

definition example_activated :: "rate_fault + rate_plan \<times> rate_db" where
  "example_activated = activatePlan 3 1000 example_rates"

definition example_active :: rate_db where
  "example_active = state_after empty_rates example_activated"

lemma example_created_Inr: "\<exists>p. example_created = Inr (p, example_rates)"
proof -
  have "succeeded example_created" by code_simp
  then show ?thesis unfolding example_rates_def by (rule succeeded_Inr)
qed

lemma example_activated_Inr: "\<exists>p. example_activated = Inr (p, example_active)"
proof -
  have "succeeded example_activated" by code_simp
  then show ?thesis unfolding example_active_def by (rule succeeded_Inr)
qed

lemma example_history: "rtranclp rate_step empty_rates example_active"
proof -
  obtain p where "example_created = Inr (p, example_rates)" using example_created_Inr ..
  moreover obtain q where "example_activated = Inr (q, example_active)" using example_activated_Inr ..
  moreover have "rate_step empty_rates (empty_rates\<lparr>rdb_zones := rdb_zones empty_rates @ [example_zone]\<rparr>)"
    by (rule zone_created) (simp add: empty_rates_def)
  moreover have "rdb_zones empty_rates @ [example_zone] = [example_zone]"
    by (simp add: empty_rates_def)
  ultimately show ?thesis
    unfolding example_created_def example_activated_def
    by (metis created activated rtranclp.simps)
qed

theorem active_tariff_always_consistent_witness:
  "rdb_zones example_active = [example_zone] \<and>
   prepareQuotePricing (0 :: nat) 1 (\<lambda>_. [example_zone]) (activePricing example_active)
     \<noteq> Inl RATE_CONFIGURATION_INVALID \<and>
   (\<exists>c. prepareQuotePricing (0 :: nat) 1 (\<lambda>_. [example_zone]) (activePricing example_active) = Inr c)"
proof -
  have z: "rdb_zones example_active = [example_zone]" by code_simp
  have "prepareQuotePricing (0 :: nat) 1 (\<lambda>_. [example_zone]) (activePricing example_active)
     \<noteq> Inl RATE_CONFIGURATION_INVALID"
    by (rule active_tariff_always_consistent [OF example_history]) (simp add: z)
  moreover have "case prepareQuotePricing (0 :: nat) 1 (\<lambda>_. [example_zone]) (activePricing example_active) of
      Inl _ \<Rightarrow> False | Inr _ \<Rightarrow> True"
    by code_simp
  ultimately show ?thesis using z by (auto split: sum.splits)
qed

subsection \<open>What activation does, and the race inside it\<close>

lemma first_plan:
  assumes "rates_wf db" and "q \<in> set (rdb_plans db)"
  shows "first_row (\<lambda>p. plan_id p = plan_id q) (rdb_plans db) = Some q"
  using first_row_unique_key [of plan_id "rdb_plans db" q] assms by (simp add: rates_wf_def)

lemma findActive_Some:
  assumes "rates_wf db" and "q \<in> set (rdb_plans db)" and "plan_status q = PLAN_ACTIVE"
  shows "findActive (plan_zone q) (plan_serviceType q) db = Some (planSelect q)"
proof -
  let ?P = "\<lambda>p. plan_zone p = plan_zone q \<and> plan_serviceType p = plan_serviceType q \<and> active_plan p"
  from assms(2,3) obtain r where r: "first_row ?P (rdb_plans db) = Some r"
    by (cases "first_row ?P (rdb_plans db)") (auto simp: first_row_None)
  from first_row_Some [OF r] assms unique_onD [of active_plan plan_service "rdb_plans db" r q]
  have "r = q" by (simp add: rates_wf_def plan_service_def)
  with r show ?thesis by (simp add: findActive_def)
qed

lemma deactivate_previous_succeeds:
  assumes "rates_wf db" and "q \<in> set (rdb_plans db)" and "plan_status q = DRAFT"
  shows "deactivate_previous (planSelect q) now db = Inr ((),
    db\<lparr>rdb_plans := update_rows (\<lambda>p. active_plan p \<and> plan_service p = plan_service q)
      (\<lambda>p. p\<lparr>plan_status := PLAN_INACTIVE, plan_deactivatedAt := Some now\<rparr>) (rdb_plans db)\<rparr>)"
proof (cases "findActive (plan_zone q) (plan_serviceType q) db")
  case None
  then have "\<not> (active_plan p \<and> plan_service p = plan_service q)" if "p \<in> set (rdb_plans db)" for p
    using that by (auto simp: findActive_def first_row_None plan_service_def)
  then have "update_rows (\<lambda>p. active_plan p \<and> plan_service p = plan_service q)
      (\<lambda>p. p\<lparr>plan_status := PLAN_INACTIVE, plan_deactivatedAt := Some now\<rparr>) (rdb_plans db) = rdb_plans db"
    by (intro update_rows_none) auto
  with None show ?thesis
    by (simp add: deactivate_previous_def bindT_def readT_def returnT_def)
next
  case (Some a)
  then obtain r where r: "r \<in> set (rdb_plans db)" "active_plan r" "plan_service r = plan_service q" "a = planSelect r"
    by (auto simp: findActive_def plan_service_def dest!: first_row_Some)
  let ?f = "\<lambda>p :: rate_plan. p\<lparr>plan_status := PLAN_INACTIVE, plan_deactivatedAt := Some now\<rparr>"
  from assms(1) r(1) have "plan_check r" by (simp add: rates_wf_def list_all_iff plan_row_ok_def)
  with r first_plan [OF assms(1) r(1)] have
    "update_plan (plan_id r) ?f db = Inr (planSelect (?f r),
       db\<lparr>rdb_plans := update_rows (\<lambda>p. plan_id p = plan_id r) ?f (rdb_plans db)\<rparr>)"
    unfolding update_plan_Inr by (auto simp: rate_plan_immutable_def plan_check_def)
  moreover have "plan_id p = plan_id r \<longleftrightarrow> active_plan p \<and> plan_service p = plan_service q"
    if "p \<in> set (rdb_plans db)" for p
    using that r(1-3) assms(1) unique_key [of plan_id "rdb_plans db" p r]
      unique_onD [of active_plan plan_service "rdb_plans db" p r]
    by (auto simp: rates_wf_def)
  then have "update_rows (\<lambda>p. plan_id p = plan_id r) ?f (rdb_plans db) =
      update_rows (\<lambda>p. active_plan p \<and> plan_service p = plan_service q) ?f (rdb_plans db)"
    by (simp add: update_rows_def)
  ultimately show ?thesis using Some r(4)
    by (simp add: deactivate_previous_def bindT_def readT_def returnT_def)
qed

text \<open>
  Activating a draft whose bands pass validation always succeeds, whatever the other plans are:
  the draft becomes ACTIVE, the previous ACTIVE plan of its zone and service (if any) becomes
  INACTIVE in the same transaction, no other plan changes, and the draft is from then on the plan
  that quoting finds.
\<close>

theorem activation_replaces_previous:
  fixes now :: instant
  assumes "rates_wf db" and "q \<in> set (rdb_plans db)" and "plan_status q = DRAFT"
    and "validateBands (plan_bands q) (plan_currency q) = []"
  defines "q' \<equiv> q\<lparr>plan_status := PLAN_ACTIVE, plan_activatedAt := Some now\<rparr>"
  shows "\<exists>db'. activatePlan (plan_id q) now db = Inr (planSelect q', db') \<and>
    rdb_plans db' = map (\<lambda>p. if plan_id p = plan_id q then q'
        else if active_plan p \<and> plan_service p = plan_service q
        then p\<lparr>plan_status := PLAN_INACTIVE, plan_deactivatedAt := Some now\<rparr> else p) (rdb_plans db) \<and>
    findActive (plan_zone q) (plan_serviceType q) db' = Some (planSelect q')"
proof -
  let ?off = "\<lambda>p :: rate_plan. p\<lparr>plan_status := PLAN_INACTIVE, plan_deactivatedAt := Some now\<rparr>"
  let ?on = "\<lambda>p :: rate_plan. p\<lparr>plan_status := PLAN_ACTIVE, plan_activatedAt := Some now\<rparr>"
  let ?old = "\<lambda>p. active_plan p \<and> plan_service p = plan_service q"
  let ?db1 = "db\<lparr>rdb_plans := update_rows ?old ?off (rdb_plans db)\<rparr>"
  let ?db2 = "?db1\<lparr>rdb_plans := update_rows (\<lambda>p. plan_id p = plan_id q) ?on (rdb_plans ?db1)\<rparr>"
  from assms(1,2) have ok: "plan_row_ok (rdb_zones db) q" by (simp add: rates_wf_def list_all_iff)
  have f: "first_row (\<lambda>p. plan_id p = plan_id q) (rdb_plans db) = Some q"
    by (rule first_plan [OF assms(1,2)])
  have d: "deactivate_previous (planSelect q) now db = Inr ((), ?db1)"
    by (rule deactivate_previous_succeeds [OF assms(1-3)])
  have in1: "q \<in> set (rdb_plans ?db1)" using assms(2,3) by (auto simp: in_update_rows intro!: bexI [of _ q])
  have f1: "first_row (\<lambda>p. plan_id p = plan_id q) (rdb_plans ?db1) = Some q"
    by (rule first_plan [OF deactivate_previous_wf(1) [OF d assms(1)] in1])
  have "plan_service r \<noteq> plan_service (?on q)" if "r \<in> set (rdb_plans ?db1)" "active_plan r" for r
  proof -
    from that(1) have "r \<in> set (update_rows ?old ?off (rdb_plans db))" by simp
    then obtain p where "r = (if ?old p then ?off p else p)" unfolding in_update_rows by blast
    with that(2) show ?thesis by (cases "?old p") (auto simp: plan_service_def)
  qed
  then have "update_plan (plan_id q) ?on ?db1 = Inr (planSelect q', ?db2)"
    unfolding update_plan_Inr using f1 assms(3) ok
    by (auto simp: q'_def rate_plan_immutable_def plan_check_def plan_row_ok_def)
  with f d ok assms(3,4) have act: "activatePlan (plan_id q) now db = Inr (planSelect q', ?db2)"
    by (simp add: activatePlan_def activate_read_def activate_locked_def lockPlan_def catchT_def bindT_def
        requireT_def findPlan_def guardT_def throw_if_def returnT_def plan_row_ok_def Let_def)
  have keys: "distinct (map plan_id (rdb_plans db))" using assms(1) by (simp add: rates_wf_def)
  have plans: "rdb_plans ?db2 = map (\<lambda>p. if plan_id p = plan_id q then q'
      else if ?old p then ?off p else p) (rdb_plans db)"
    using assms(3) by (auto simp: update_rows_def q'_def dest!: unique_key [OF keys _ assms(2)])
  have "q' \<in> set (rdb_plans ?db2)" unfolding plans using assms(2) by force
  with findActive_Some [OF activatePlan_wf [OF act assms(1)], of q']
  have "findActive (plan_zone q) (plan_serviceType q) ?db2 = Some (planSelect q')"
    by (simp add: q'_def)
  with act plans show ?thesis by blast
qed

lemma example_rates_wf: "rates_wf example_rates"
proof -
  obtain p where "example_created = Inr (p, example_rates)" using example_created_Inr ..
  moreover have "rates_wf (empty_rates\<lparr>rdb_zones := [example_zone]\<rparr>)"
    by (simp add: rates_wf_def empty_rates_def)
  ultimately show ?thesis unfolding example_created_def by (metis createPlan_wf)
qed

theorem activation_replaces_previous_witness:
  "\<exists>q db'. q \<in> set (rdb_plans example_rates) \<and> plan_id q = 3 \<and>
     activatePlan 3 1000 example_rates =
       Inr (planSelect (q\<lparr>plan_status := PLAN_ACTIVE, plan_activatedAt := Some 1000\<rparr>), db')"
proof -
  let ?q = "hd (rdb_plans example_rates)"
  have "?q \<in> set (rdb_plans example_rates)" "plan_status ?q = DRAFT" "plan_id ?q = 3"
    "validateBands (plan_bands ?q) (plan_currency ?q) = []"
    by code_simp+
  then show ?thesis using activation_replaces_previous [OF example_rates_wf, of ?q 1000] by auto
qed

lemma example_rates_reachable: "rtranclp rate_step empty_rates example_rates"
proof -
  obtain p where "example_created = Inr (p, example_rates)" using example_created_Inr ..
  moreover have "rate_step empty_rates (empty_rates\<lparr>rdb_zones := rdb_zones empty_rates @ [example_zone]\<rparr>)"
    by (rule zone_created) (simp add: empty_rates_def)
  moreover have "rdb_zones empty_rates @ [example_zone] = [example_zone]"
    by (simp add: empty_rates_def)
  ultimately show ?thesis unfolding example_created_def by (metis created rtranclp.simps)
qed

definition race_draft :: rate_plan where
  "race_draft = planSelect (hd (rdb_plans example_rates))"

definition race_dtos :: "band_dto list" where
  "race_dtos = [\<lparr>dto_min = 500, dto_max = 3000, dto_amount = 4000, dto_currency = None\<rparr>]"

definition race_replaced :: rate_db where
  "race_replaced = state_after empty_rates (replaceBands 3 race_dtos example_rates)"

definition race_activated :: rate_db where
  "race_activated =
     state_after empty_rates (catchT (activate_locked 3 1000 race_draft) withUniqueGuard race_replaced)"

text \<open>
  The bands that activation validates are the ones read before the locks. When another
  administrator's \<open>replaceBands\<close> commits in between, the activation still succeeds and activates
  bands that were never validated: here a table with a gap, after which quoting in the zone fails
  with RATE_CONFIGURATION_INVALID.
\<close>

theorem activation_race_activates_invalid_bands:
  "rtranclp rate_step empty_rates example_rates \<and>
   activate_read 3 example_rates = Inr (race_draft, example_rates) \<and>
   (\<exists>p. replaceBands 3 race_dtos example_rates = Inr (p, race_replaced)) \<and>
   (\<exists>p. catchT (activate_locked 3 1000 race_draft) withUniqueGuard race_replaced = Inr (p, race_activated)) \<and>
   prepareQuotePricing (0 :: nat) 1 (\<lambda>_. rdb_zones race_activated) (activePricing race_activated)
     = Inl RATE_CONFIGURATION_INVALID"
proof (intro conjI)
  show "rtranclp rate_step empty_rates example_rates" by (rule example_rates_reachable)
  show "activate_read 3 example_rates = Inr (race_draft, example_rates)" by code_simp
  have "succeeded (replaceBands 3 race_dtos example_rates)" by code_simp
  then show "\<exists>p. replaceBands 3 race_dtos example_rates = Inr (p, race_replaced)"
    unfolding race_replaced_def by (rule succeeded_Inr)
  have "succeeded (catchT (activate_locked 3 1000 race_draft) withUniqueGuard race_replaced)" by code_simp
  then show "\<exists>p. catchT (activate_locked 3 1000 race_draft) withUniqueGuard race_replaced = Inr (p, race_activated)"
    unfolding race_activated_def by (rule succeeded_Inr)
  show "prepareQuotePricing (0 :: nat) 1 (\<lambda>_. rdb_zones race_activated) (activePricing race_activated)
     = Inl RATE_CONFIGURATION_INVALID" by code_simp
qed

text \<open>
  Two bands with one minimum are a bad request for \<open>replaceBands\<close>, but for \<open>create\<close> the same
  unique index is reported as RATE_PLAN_CONFLICT, which tells the client to retry: with a valid
  zone and validity, and bands that pass the checks of the request, it does so at every attempt.
\<close>

theorem create_duplicate_minimum_is_conflict:
  assumes "first_row (\<lambda>z. zone_id z = zoneId) (rdb_zones db) = Some zone"
    and "checkValidity st minutes = None"
    and "bandData_problem dtos = None" and "\<forall>b \<in> set dtos. 0 \<le> dto_min b"
    and "\<not> distinct (map dto_min dtos)"
  shows "createPlan zoneId st calc minutes (Some dtos) db = Inl RATE_PLAN_CONFLICT"
proof -
  have mins: "map band_min (band_rows i c dtos) = map dto_min dtos" for i c
    by (induction dtos arbitrary: i) auto
  have bands: "bandData_problem bs = None \<Longrightarrow> \<forall>b \<in> set bs. 0 \<le> dto_min b \<Longrightarrow>
      list_all band_check (band_rows i c bs)" for bs i c
    by (induction bs arbitrary: i) (auto simp: band_check_def split: if_splits)
  from assms(2) have m: "1 \<le> minutes \<and> minutes \<le> 120"
    by (cases st) (auto simp: checkValidity_def split: if_splits)
  show ?thesis
    using assms(1-3,5) bands [OF assms(3,4)] mins m
    by (simp add: createPlan_def catchT_def bindT_def requireT_def readT_def throw_if_def returnT_def
        bandData_def freshId_def insert_plan_def getT_def guardT_def draft_row_def plan_check_def
        nextVersion_def)
qed

theorem create_duplicate_minimum_is_conflict_witness:
  "createPlan 4 LOCAL_DELIVERY None 15
     (Some [\<lparr>dto_min = 0, dto_max = 10, dto_amount = 1, dto_currency = None\<rparr>,
            \<lparr>dto_min = 0, dto_max = 20, dto_amount = 2, dto_currency = None\<rparr>])
     (empty_rates\<lparr>rdb_zones := [example_zone]\<rparr>) = Inl RATE_PLAN_CONFLICT"
  by (rule create_duplicate_minimum_is_conflict [where zone = example_zone])
    (simp_all add: example_zone_def first_row_def checkValidity_def)

end
