(* ===== verification/Transaction_Steps.thy ===== *)
theory Transaction_Steps imports Mandaria_Prelude begin

text \<open>
  What a transaction may change, stated as a relation between the state before and after a successful
  run. The locale is the interface of such relations: reflexive and transitive ones are kept by every
  combinator, so the handlers inherit them from the writes they are made of.
\<close>

definition stepsT :: "('s \<Rightarrow> 's \<Rightarrow> bool) \<Rightarrow> ('e, 's, 'a) tx \<Rightarrow> bool" where
  "stepsT R m \<longleftrightarrow> (\<forall>s a s'. m s = Inr (a, s') \<longrightarrow> R s s')"

lemma stepsTD: "stepsT R m \<Longrightarrow> m s = Inr (a, s') \<Longrightarrow> R s s'"
  by (simp add: stepsT_def)

lemma stepsTI: "(\<And>s a s'. m s = Inr (a, s') \<Longrightarrow> R s s') \<Longrightarrow> stepsT R m"
  by (simp add: stepsT_def)

lemma stepsT_catch: "stepsT R m \<Longrightarrow> stepsT R (catchT m h)"
  by (auto simp: stepsT_def catchT_def split: sum.splits)

locale evolution =
  fixes R :: "'s \<Rightarrow> 's \<Rightarrow> bool"
  assumes refl: "R s s" and trans: "R s t \<Longrightarrow> R t u \<Longrightarrow> R s u"
begin

lemma bind: "stepsT R m \<Longrightarrow> (\<And>a. stepsT R (k a)) \<Longrightarrow> stepsT R (bindT m k)"
  unfolding stepsT_def bindT_Inr using trans by blast

lemma reads:
  "stepsT R (returnT a)" "stepsT R (throwT e)" "stepsT R (readT f)" "stepsT R getT"
  "stepsT R (guardT b e)" "stepsT R (requireT g e)"
  by (auto simp: stepsT_def tx_simps refl)

lemma map: "(\<And>x. stepsT R (f x)) \<Longrightarrow> stepsT R (mapT f xs)"
  by (induction xs) (auto intro: bind reads)

lemma branches:
  "stepsT R m \<Longrightarrow> stepsT R n \<Longrightarrow> stepsT R (if b then m else n)"
  "stepsT R m \<Longrightarrow> (\<And>x. stepsT R (f x)) \<Longrightarrow> stepsT R (case v of None \<Rightarrow> m | Some x \<Rightarrow> f x)"
  "(\<And>x y. stepsT R (g x y)) \<Longrightarrow> stepsT R (case p of (x, y) \<Rightarrow> g x y)"
  "(\<And>x. stepsT R (h x)) \<Longrightarrow> stepsT R (let x = c in h x)"
  by (auto split: option.splits prod.splits)

lemma commit: "stepsT R m \<Longrightarrow> R s (snd (commitT m s))"
  by (auto simp: stepsT_def commitT_def refl split: sum.splits)

lemmas rules = bind reads map branches stepsT_catch

end

end
