(* ===== verification/Data_Model.thy ===== *)
theory Data_Model imports Credit_Policies begin

text \<open>
  The tables the dispatch and credit services share, as src/prisma/schema.prisma declares them,
  and the errors their operations end with. A row keeps the columns that the modelled operations
  read or write; \<open>createdAt\<close> and \<open>updatedAt\<close> stamps that none reads are left out. Enumerated values
  that two enums of the schema share carry a prefix (a candidate is CAND_CLAIMED, a dispatch
  CLAIMED). \<open>nextId\<close> and \<open>nextSequence\<close> stand for the UUID generator and the ledger sequence.
\<close>

subsection \<open>Errors\<close>

text \<open>
  The codes of DISPATCH_ERRORS, ASSIGNMENT_ERRORS, INDEPENDENT_ERRORS and COMPLETION_ERRORS. The
  tables share names; a code is the same string in each of them.
\<close>

datatype operation_code =
    DISPATCH_EXPIRED
  | DISPATCH_RETRY_PENDING
  | DISPATCH_CANCELLED
  | DISPATCH_ALREADY_CLAIMED
  | DISPATCH_DELIVERED
  | DISPATCH_RECLAIM_NOT_ALLOWED
  | DISPATCH_NOT_CLAIMED_BY_PROVIDER
  | PROVIDER_NOT_ELIGIBLE
  | DISPATCH_HAS_ACTIVE_ASSIGNMENT
  | DISPATCH_ALREADY_ASSIGNED
  | NO_ACTIVE_ASSIGNMENT
  | ASSIGNMENT_UNCHANGED
  | PROVIDER_NOT_ACTIVE
  | DRIVER_NOT_ELIGIBLE
  | VEHICLE_NOT_ELIGIBLE
  | DRIVER_BUSY
  | VEHICLE_BUSY
  | DRIVER_VEHICLE_MISMATCH
  | ASSIGNMENT_CONFLICT
  | INDEPENDENT_NOT_APPROVED
  | DISPATCH_NOT_OPEN_TO_INDEPENDENT
  | DISPATCH_RETAKE_NOT_ALLOWED
  | DISPATCH_NOT_CLAIMED_BY_DRIVER
  | TAKE_CONFLICT
  | DELIVERY_CONFLICT
  | AUTHORIZED_ACCEPT_REQUIRED
  | PREQUOTE_REQUOTE_NOT_ALLOWED
  | QUOTE_EXPIRED
  | QUOTE_NOT_ACCEPTABLE

text \<open>The exceptions the triggers raise, by the code their message starts with.\<close>

datatype raised =
    RAISED_DISPATCH_INVALID
  | RAISED_DISPATCH_IMMUTABLE
  | RAISED_CREDIT_MODE_IMMUTABLE
  | RAISED_CREDIT_HISTORY_IMMUTABLE
  | RAISED_DISPATCH_HAS_ACTIVE_ASSIGNMENT
  | RAISED_CANDIDATE_INVALID
  | RAISED_CANDIDATE_IMMUTABLE
  | RAISED_ASSIGNMENT_INVALID
  | RAISED_ASSIGNMENT_IMMUTABLE
  | RAISED_SEARCH_NOT_AUTHORIZED
  | RAISED_SEARCH_RETRY_INVALID
  | RAISED_SEARCH_UNAVAILABLE
  | RAISED_SEARCH_WINDOW
  | RAISED_SEARCH_POLICY_IMMUTABLE
  | RAISED_SEARCH_ROUND_INVALID
  | RAISED_SEARCH_HISTORY_IMMUTABLE
  | RAISED_SEARCH_CLAIM_RETRY_PENDING
  | RAISED_SEARCH_CLAIM_EXPIRED
  | RAISED_SEARCH_RETRY_PENDING
  | RAISED_SEARCH_STOP_INVALID
  | RAISED_CREDIT_LEDGER_STALE
  | RAISED_CREDIT_AWARD_INVALID
  | RAISED_CREDIT_AWARD_MISMATCH
  | RAISED_CREDIT_AWARD_REQUIRED
  | RAISED_CREDIT_AWARD_ORPHAN
  | RAISED_CREDIT_REFUND_INVALID
  | RAISED_CREDIT_REFUND_MISMATCH
  | RAISED_CREDIT_REFUND_REQUIRED
  | RAISED_CREDIT_SNAPSHOT_INVALID
  | RAISED_CREDIT_SNAPSHOT_MISSING
  | RAISED_QUOTE_IMMUTABLE
  | RAISED_EVENT_INVALID
  | RAISED_PUBLIC_EXECUTION_IMMUTABLE
  | RAISED_PUBLIC_EXECUTION_MISMATCH

text \<open>\<open>StrictViolation\<close> is a \<open>SELECT INTO STRICT\<close> that did not find exactly one row.\<close>

datatype sql_fault = UniqueViolation | CheckViolation | RaiseException raised | StrictViolation

datatype failure =
    NotFound
  | Domain operation_code
  | CreditDomain credit_error
  | PolicyDomain policy_error
  | DocumentDomain nat \<comment> \<open>a code of the documentary verification\<close>
  | Sql sql_fault

text \<open>\<open>isUniqueViolation\<close>, \<open>isLedgerRejection\<close> and \<open>isGuardRejection\<close>, which recognize a failure by
  its SQL state: P2002 a unique index, P0001 a raised exception, 23514 a CHECK.\<close>

fun isUniqueViolation :: "failure \<Rightarrow> bool" where
  "isUniqueViolation (Sql UniqueViolation) = True"
| "isUniqueViolation _ = False"

fun isLedgerRejection :: "failure \<Rightarrow> bool" where
  "isLedgerRejection (Sql (RaiseException _)) = True"
| "isLedgerRejection (Sql CheckViolation) = True"
| "isLedgerRejection _ = False"

fun isGuardRejection :: "failure \<Rightarrow> bool" where
  "isGuardRejection (Sql (RaiseException _)) = True"
| "isGuardRejection _ = False"

fun isDomainException :: "failure \<Rightarrow> bool" where
  "isDomainException (Domain _) = True"
| "isDomainException (CreditDomain _) = True"
| "isDomainException (PolicyDomain _) = True"
| "isDomainException (DocumentDomain _) = True"
| "isDomainException _ = False"

subsection \<open>Dispatches, candidates, assignments\<close>

datatype dispatch_status = OPEN | CLAIMED | EXPIRED | CANCELLED | DELIVERED

datatype credit_mode = LEGACY | MONETIZED

datatype stop_reason =
    EXECUTOR_FOUND | REQUEST_CANCELLED | EXHAUSTED | SERVICE_UNAVAILABLE | INTEGRATION_UNAVAILABLE

text \<open>The columns \<open>retryPending\<close> and \<open>searchFields\<close> read: \<open>SearchRecord\<close> of dispatch-search.ts.\<close>

record search_record =
  d_status :: dispatch_status
  d_expiresAt :: instant
  searchMaxAttempts :: nat
  searchAttempt :: nat
  searchStoppedReason :: "stop_reason option"

text \<open>\<open>PublicExecutionIdentity\<close>: who executes a service, by the names a client may see.\<close>

datatype execution_by = ByProvider | ByIndependent

record execution_identity =
  id_mode :: execution_by
  id_provider :: "string option"
  id_driver :: "string option"

record dispatch = search_record +
  d_id :: id
  d_request :: id
  d_quote :: id
  d_openedAt :: instant
  claimedByProvider :: "id option"
  claimedByIndependent :: "id option"
  d_claimedAt :: "instant option"
  d_expiredAt :: "instant option"
  d_cancelledAt :: "instant option"
  d_deliveredAt :: "instant option"
  d_deliveredBy :: "id option"
  creditMode :: credit_mode
  searchWindowSeconds :: "int option"
  d_identity :: "execution_identity option" \<comment> \<open>\<open>publicExecutionSnapshot\<close>\<close>

datatype candidate_status = CAND_OFFERED | CAND_CLAIMED | CAND_RELEASED

record candidate =
  cand_dispatch :: id
  cand_provider :: id
  cand_status :: candidate_status
  cand_offeredAt :: instant
  cand_claimedAt :: "instant option"
  cand_releasedAt :: "instant option"

datatype assignment_mode = FLEET | INDEPENDENT

datatype assignment_status = ASG_ACTIVE | ASG_REASSIGNED | ASG_CANCELLED | ASG_COMPLETED

datatype end_reason =
    DRIVER_UNAVAILABLE | VEHICLE_ISSUE | OPERATIONAL_CHANGE | OTHER | DELIVERY_CANCELLED

record assignment =
  asg_id :: id
  asg_dispatch :: id
  asg_mode :: assignment_mode
  asg_provider :: "id option"
  asg_profile :: "id option"
  asg_driver :: id
  asg_vehicle :: id
  asg_status :: assignment_status
  asg_assignedAt :: instant
  asg_assignedBy :: id
  asg_endedAt :: "instant option"
  asg_endedBy :: "id option"
  asg_endReason :: "end_reason option"

record search_round =
  round_dispatch :: id
  round_attempt :: nat
  round_openedAt :: instant
  round_expiresAt :: instant
  round_providers :: "id list"

subsection \<open>Credits\<close>

record credit_account =
  acc_id :: id
  acc_ownerType :: actor_type
  acc_provider :: "id option"
  acc_profile :: "id option"
  balance :: int

datatype refund_reason = PROVIDER_RELEASE | INDEPENDENT_RELEASE | REFUND_DELIVERY_CANCELLED

datatype recharge_method = TRANSFER | CASH | OTHER_METHOD

record ledger_entry =
  entry_id :: id
  entry_sequence :: nat
  entry_account :: id
  entry_type :: ledger_type
  amount :: int
  balanceBefore :: int
  balanceAfter :: int
  entry_method :: "recharge_method option"
  entry_external :: "string option"
  entry_reason :: "string option"
  entry_reference :: "id option"
  reverses :: "id option"
  refundReason :: "refund_reason option"
  entry_createdBy :: "id option"
  entry_key :: "string option"
  entry_hash :: "string option"

record snapshot =
  snap_id :: id
  snap_dispatch :: id
  snap_actor :: actor_type
  snap_policy :: id
  snap_policyVersion :: nat
  snap_calculation :: calculation_type
  snap_distance :: int
  snap_billableKm :: "int option"
  snap_creditsPerKm :: "int option"
  snap_minimumCredits :: "int option"
  snap_calculatedCredits :: "int option"
  snap_flatCredits :: "int option"
  snap_range :: "(nat \<times> int \<times> int option) option"
  snap_credits :: int

record pre_award =
  pre_dispatch :: id
  pre_actorType :: actor_type
  pre_actorId :: id
  pre_awardedAt :: instant

subsection \<open>Providers, drivers, vehicles\<close>

record provider =
  prov_id :: id
  prov_name :: string
  prov_active :: bool \<comment> \<open>\<open>status = ACTIVE\<close>\<close>
  prov_createdAt :: instant

record coverage =
  cov_provider :: id
  cov_zone :: id
  cov_service :: service_type
  cov_active :: bool

record driver =
  drv_id :: id
  drv_user :: id
  drv_displayName :: "string option"
  drv_provider :: "id option"
  drv_active :: bool \<comment> \<open>\<open>status = ACTIVE\<close>\<close>
  drv_userActive :: bool \<comment> \<open>\<open>active\<close> of its user\<close>

datatype profile_status = PENDING | APPROVED | SUSPENDED | REJECTED

record profile =
  prof_id :: id
  prof_driver :: id
  prof_status :: profile_status

record vehicle =
  veh_id :: id
  veh_provider :: "id option"
  veh_profile :: "id option"
  veh_active :: bool \<comment> \<open>\<open>status = ACTIVE\<close>\<close>

record pairing =
  pair_driver :: id
  pair_vehicle :: id
  pair_current :: bool \<comment> \<open>\<open>unassignedAt\<close> is null\<close>

subsection \<open>Clients, requests, quotes, events\<close>

record client =
  client_id :: id
  client_active :: bool
  automaticDispatchSearch :: bool

datatype request_status = CREATED | REQ_CANCELLED

record request =
  req_id :: id
  req_publicId :: nat
  req_client :: id
  req_service :: service_type
  req_status :: request_status
  req_externalReference :: "string option"
  req_requestedAt :: instant
  req_cancelledAt :: "instant option"

datatype quote_status = Q_OFFERED | Q_ACCEPTED | Q_EXPIRED | Q_CANCELLED

record quote =
  quote_id :: id
  quote_publicId :: nat
  quote_request :: id
  quote_service :: service_type
  quote_zone :: id
  quote_distance :: int
  quote_amount :: int
  quote_currency :: string
  quote_status :: quote_status
  quote_createdAt :: instant
  quote_expiresAt :: instant
  quote_acceptedAt :: "instant option"
  quote_expiredAt :: "instant option"
  quote_cancelledAt :: "instant option"

text \<open>A prequote converted into a request, and the evidence of its authorized acceptance.\<close>

record conversion =
  conv_id :: id
  conv_request :: id
  conv_client :: id

record acceptance =
  accept_conversion :: id
  accept_request :: id
  accept_quote :: id
  accept_dispatch :: id

text \<open>The public status of a delivery, and the event that records a completed one.\<close>

datatype delivery_status =
    B_REQUESTED | B_OPEN | B_ASSIGNED | B_DELIVERED | B_CANCELLED | B_EXPIRED

record event_payload =
  pay_publicId :: nat
  pay_externalReference :: "string option"
  pay_status :: delivery_status
  pay_execution :: "execution_identity option"
  pay_requestedAt :: instant
  pay_deliveredAt :: "instant option"
  pay_cancelledAt :: "instant option"

record outbox_event =
  ev_id :: id
  ev_client :: id
  ev_request :: id
  ev_dispatch :: id
  ev_occurredAt :: instant
  ev_payload :: event_payload

record db =
  clients :: "client list"
  requests :: "request list"
  quotes :: "quote list"
  conversions :: "conversion list"
  acceptances :: "acceptance list"
  zones_active :: "id list"
  providers :: "provider list"
  coverages :: "coverage list"
  drivers :: "driver list"
  profiles :: "profile list"
  vehicles :: "vehicle list"
  pairings :: "pairing list"
  policies :: "credit_policy list"
  dispatches :: "dispatch list"
  candidates :: "candidate list"
  rounds :: "search_round list"
  assignments :: "assignment list"
  snapshots :: "snapshot list"
  preAwards :: "pre_award list"
  accounts :: "credit_account list"
  ledger :: "ledger_entry list"
  outbox :: "outbox_event list"
  nextId :: id
  nextSequence :: nat

definition empty_db :: db where
  "empty_db =
     \<lparr>clients = [], requests = [], quotes = [], conversions = [], acceptances = [], zones_active = [],
      providers = [], coverages = [], drivers = [], profiles = [], vehicles = [], pairings = [],
      policies = [], dispatches = [], candidates = [], rounds = [], assignments = [], snapshots = [],
      preAwards = [], accounts = [], ledger = [], outbox = [], nextId = 1000, nextSequence = 1\<rparr>"

type_synonym 'a dtx = "(failure, db, 'a) tx"

definition raiseT :: "bool \<Rightarrow> raised \<Rightarrow> unit dtx" where
  "raiseT b r = guardT (\<not> b) (Sql (RaiseException r))"

definition checkT :: "bool \<Rightarrow> unit dtx" where
  "checkT b = guardT b (Sql CheckViolation)"

definition uniqueT :: "bool \<Rightarrow> unit dtx" where
  "uniqueT b = guardT b (Sql UniqueViolation)"

definition newId :: "id dtx" where
  "newId s = Inr (nextId s, s\<lparr>nextId := nextId s + 1\<rparr>)"

text \<open>A trigger that raises: the exception its condition finds in the current state.\<close>

definition raise_some :: "(db \<Rightarrow> raised option) \<Rightarrow> unit dtx" where
  "raise_some f s = (case f s of None \<Rightarrow> Inr ((), s) | Some r \<Rightarrow> Inl (Sql (RaiseException r)))"

lemma raise_some_Inr [tx_simps]: "raise_some f s = Inr (u, s') \<longleftrightarrow> f s = None \<and> s' = s"
  by (auto simp: raise_some_def split: option.splits)

lemma raise_some_Inl [tx_simps]:
  "raise_some f s = Inl e \<longleftrightarrow> (\<exists>r. f s = Some r \<and> e = Sql (RaiseException r))"
  by (auto simp: raise_some_def split: option.splits)

lemma raiseT_Inr [tx_simps]: "raiseT b r s = Inr (u, s') \<longleftrightarrow> \<not> b \<and> s' = s"
  by (simp add: raiseT_def tx_simps)

lemma raiseT_Inl [tx_simps]: "raiseT b r s = Inl e \<longleftrightarrow> b \<and> e = Sql (RaiseException r)"
  by (auto simp: raiseT_def tx_simps)

lemma checkT_Inr [tx_simps]: "checkT b s = Inr (u, s') \<longleftrightarrow> b \<and> s' = s"
  by (simp add: checkT_def tx_simps)

lemma checkT_Inl [tx_simps]: "checkT b s = Inl e \<longleftrightarrow> \<not> b \<and> e = Sql CheckViolation"
  by (auto simp: checkT_def tx_simps)

lemma uniqueT_Inr [tx_simps]: "uniqueT b s = Inr (u, s') \<longleftrightarrow> b \<and> s' = s"
  by (simp add: uniqueT_def tx_simps)

lemma uniqueT_Inl [tx_simps]: "uniqueT b s = Inl e \<longleftrightarrow> \<not> b \<and> e = Sql UniqueViolation"
  by (auto simp: uniqueT_def tx_simps)

lemma newId_Inr [tx_simps]:
  "newId s = Inr (i, s') \<longleftrightarrow> i = nextId s \<and> s' = s\<lparr>nextId := nextId s + 1\<rparr>"
  by (auto simp: newId_def)

lemma newId_Inl [tx_simps]: "newId s = Inl e \<longleftrightarrow> False"
  by (simp add: newId_def)

end
