(* ===== verification/Credit_Ledger.thy ===== *)
theory Credit_Ledger imports Data_Model begin

text \<open>
  The credit ledger as the database enforces it: the CHECKs, unique indexes and triggers an insert
  into \<open>CreditLedgerEntry\<close> meets (src/prisma/migrations/20260921001100_credit_accounts_ledger,
  20260923000100_dispatch_credit_consumption, 20260923000300_service_refunds), and the trigger
  \<open>credit_ledger_apply\<close>, the only writer of a balance. The lemmas give the consistency of the
  ledger: every balance is the sum of the movements of its account and stays within its bounds.
\<close>

subsection \<open>Constraints\<close>

definition fits :: "int \<Rightarrow> bool" where
  "fits b \<longleftrightarrow> 0 \<le> b \<and> b \<le> 1000000000"

text \<open>\<open>CreditLedgerEntry_amount_check\<close> and \<open>_type_check\<close>, \<open>_award_check\<close>, \<open>_refund_check\<close>.\<close>

definition amount_check :: "ledger_entry \<Rightarrow> bool" where
  "amount_check e \<longleftrightarrow>
     amount e \<noteq> 0 \<and> -1000000 \<le> amount e \<and> amount e \<le> 1000000 \<and>
     fits (balanceBefore e) \<and> fits (balanceAfter e) \<and> balanceAfter e = balanceBefore e + amount e"

definition type_check :: "ledger_entry \<Rightarrow> bool" where
  "type_check e \<longleftrightarrow>
     (case entry_type e of
        RECHARGE \<Rightarrow>
          amount e > 0 \<and> entry_method e \<noteq> None \<and> entry_createdBy e \<noteq> None \<and>
          entry_key e \<noteq> None \<and> entry_hash e \<noteq> None \<and>
          (entry_method e \<noteq> Some OTHER_METHOD \<or> entry_reason e \<noteq> None)
      | ADMIN_ADJUSTMENT \<Rightarrow>
          entry_reason e \<noteq> None \<and> entry_method e = None \<and> entry_external e = None \<and>
          entry_createdBy e \<noteq> None \<and> entry_key e \<noteq> None \<and> entry_hash e \<noteq> None
      | SERVICE_AWARD \<Rightarrow> amount e < 0 \<and> entry_method e = None \<and> entry_external e = None
      | SERVICE_REFUND \<Rightarrow> amount e > 0 \<and> entry_method e = None \<and> entry_external e = None)"

definition award_check :: "ledger_entry \<Rightarrow> bool" where
  "award_check e \<longleftrightarrow>
     entry_type e \<noteq> SERVICE_AWARD \<or>
     (entry_reference e \<noteq> None \<and> entry_createdBy e \<noteq> None \<and> entry_key e = None \<and> entry_hash e = None)"

definition refund_check :: "ledger_entry \<Rightarrow> bool" where
  "refund_check e \<longleftrightarrow>
     (if entry_type e = SERVICE_REFUND
      then reverses e \<noteq> None \<and> refundReason e \<noteq> None \<and> entry_reference e \<noteq> None \<and>
           entry_key e = None \<and> entry_hash e = None
      else reverses e = None \<and> refundReason e = None)"

text \<open>\<open>CreditLedgerEntry_text_check\<close>.\<close>

definition text_check :: "ledger_entry \<Rightarrow> bool" where
  "text_check e \<longleftrightarrow>
     length_between 3 500 (map_option btrim (entry_reason e)) \<and>
     length_between 1 100 (map_option btrim (entry_external e)) \<and>
     length_between 8 255 (entry_key e) \<and>
     (entry_key e = None \<longleftrightarrow> entry_hash e = None)"

definition entry_check :: "ledger_entry \<Rightarrow> bool" where
  "entry_check e \<longleftrightarrow>
     amount_check e \<and> type_check e \<and> award_check e \<and> refund_check e \<and> text_check e"

abbreviation is_award :: "ledger_entry \<Rightarrow> bool" where
  "is_award e \<equiv> entry_type e = SERVICE_AWARD"

abbreviation is_refund :: "ledger_entry \<Rightarrow> bool" where
  "is_refund e \<equiv> entry_type e = SERVICE_REFUND"

text \<open>
  The unique indexes: the primary key, the sequence, the idempotency key of an account, one award
  per account and dispatch, one refund per award.
\<close>

definition entry_unique :: "ledger_entry \<Rightarrow> ledger_entry list \<Rightarrow> bool" where
  "entry_unique e es \<longleftrightarrow>
     \<not> any_row (\<lambda>x. entry_id x = entry_id e \<or> entry_sequence x = entry_sequence e
       \<or> (entry_account x = entry_account e \<and> entry_key x \<noteq> None \<and> entry_key x = entry_key e)
       \<or> (is_award e \<and> is_award x \<and> entry_account x = entry_account e
            \<and> entry_reference x = entry_reference e)
       \<or> (is_refund e \<and> is_refund x \<and> reverses x = reverses e)) es"

text \<open>Whether the owner of an account is the one a dispatch is claimed by (\<open>winner\<close>, \<open>holder\<close>).\<close>

definition holds_claim :: "profile list \<Rightarrow> credit_account \<Rightarrow> dispatch \<Rightarrow> bool" where
  "holds_claim ps a d \<longleftrightarrow>
     (case acc_ownerType a of
        PROVIDER \<Rightarrow> claimedByProvider d = acc_provider a
      | INDEPENDENT_DRIVER \<Rightarrow>
          claimedByIndependent d =
            map_option prof_driver (first_row (\<lambda>p. Some (prof_id p) = acc_profile a) ps))"

definition find_account :: "id \<Rightarrow> db \<Rightarrow> credit_account option" where
  "find_account i s = first_row (\<lambda>a. acc_id a = i) (accounts s)"

definition find_dispatch :: "id option \<Rightarrow> db \<Rightarrow> dispatch option" where
  "find_dispatch i s = first_row (\<lambda>d. Some (d_id d) = i) (dispatches s)"

definition find_snapshot :: "id \<Rightarrow> actor_type \<Rightarrow> db \<Rightarrow> snapshot option" where
  "find_snapshot i t s = first_row (\<lambda>x. snap_dispatch x = i \<and> snap_actor x = t) (snapshots s)"

definition service_award_guard :: "ledger_entry \<Rightarrow> db \<Rightarrow> raised option" where
  "service_award_guard e s =
     (case find_account (entry_account e) s of
        None \<Rightarrow> Some RAISED_CREDIT_AWARD_INVALID
      | Some a \<Rightarrow>
         (case find_dispatch (entry_reference e) s of
            None \<Rightarrow> Some RAISED_CREDIT_AWARD_INVALID
          | Some d \<Rightarrow>
              if creditMode d \<noteq> MONETIZED then Some RAISED_CREDIT_AWARD_INVALID
              else
                (case find_snapshot (d_id d) (acc_ownerType a) s of
                   None \<Rightarrow> Some RAISED_CREDIT_AWARD_INVALID
                 | Some frozen \<Rightarrow>
                     if amount e \<noteq> - snap_credits frozen then Some RAISED_CREDIT_AWARD_MISMATCH
                     else if d_status d \<noteq> CLAIMED \<or> \<not> holds_claim (profiles s) a d
                     then Some RAISED_CREDIT_AWARD_INVALID
                     else None)))"

definition service_refund_guard :: "ledger_entry \<Rightarrow> db \<Rightarrow> raised option" where
  "service_refund_guard e s =
     (case first_row (\<lambda>x. Some (entry_id x) = reverses e) (ledger s) of
        None \<Rightarrow> Some RAISED_CREDIT_REFUND_INVALID
      | Some award \<Rightarrow>
          if \<not> is_award award \<or> entry_account award \<noteq> entry_account e
             \<or> entry_reference award \<noteq> entry_reference e
          then Some RAISED_CREDIT_REFUND_INVALID
          else if amount e \<noteq> - amount award then Some RAISED_CREDIT_REFUND_MISMATCH
          else
            (case (find_account (entry_account e) s, find_dispatch (entry_reference e) s) of
               (Some a, Some d) \<Rightarrow>
                 if (refundReason e = Some PROVIDER_RELEASE \<and> acc_ownerType a \<noteq> PROVIDER)
                    \<or> (refundReason e = Some INDEPENDENT_RELEASE \<and> acc_ownerType a \<noteq> INDEPENDENT_DRIVER)
                 then Some RAISED_CREDIT_REFUND_INVALID
                 else if refundReason e = Some REFUND_DELIVERY_CANCELLED
                 then (if d_status d \<notin> {CANCELLED, EXPIRED} \<or> \<not> holds_claim (profiles s) a d
                       then Some RAISED_CREDIT_REFUND_INVALID else None)
                 else if d_status d = CLAIMED \<or> holds_claim (profiles s) a d
                 then Some RAISED_CREDIT_REFUND_INVALID
                 else None
             | _ \<Rightarrow> Some RAISED_CREDIT_REFUND_INVALID))"

definition entry_guard :: "ledger_entry \<Rightarrow> db \<Rightarrow> raised option" where
  "entry_guard e s =
     (if is_award e then service_award_guard e s
      else if is_refund e then service_refund_guard e s
      else None)"

text \<open>\<open>credit_ledger_apply\<close>: the movement happens only on the balance it was computed from.\<close>

definition apply_entry :: "ledger_entry \<Rightarrow> unit dtx" where
  "apply_entry e =
     bindT getT (\<lambda>s.
     bindT (raiseT (\<not> any_row (\<lambda>a. acc_id a = entry_account e \<and> balance a = balanceBefore e) (accounts s))
              RAISED_CREDIT_LEDGER_STALE) (\<lambda>_.
     (\<lambda>s. Inr ((), s\<lparr>accounts := update_rows
             (\<lambda>a. acc_id a = entry_account e \<and> balance a = balanceBefore e)
             (\<lambda>a. a\<lparr>balance := balanceAfter e\<rparr>) (accounts s)\<rparr>))))"

definition numbered :: "ledger_entry \<Rightarrow> ledger_entry dtx" where
  "numbered e s =
     Inr (e\<lparr>entry_id := nextId s, entry_sequence := nextSequence s\<rparr>,
          s\<lparr>nextId := nextId s + 1, nextSequence := nextSequence s + 1\<rparr>)"

definition insert_entry :: "ledger_entry \<Rightarrow> ledger_entry dtx" where
  "insert_entry e0 =
     bindT (numbered e0) (\<lambda>e.
     bindT (raise_some (entry_guard e)) (\<lambda>_.
     bindT (checkT (entry_check e)) (\<lambda>_.
     bindT getT (\<lambda>s.
     bindT (uniqueT (entry_unique e (ledger s))) (\<lambda>_.
     bindT (\<lambda>s. Inr ((), s\<lparr>ledger := ledger s @ [e]\<rparr>)) (\<lambda>_.
     bindT (apply_entry e) (\<lambda>_.
     returnT e)))))))"

subsection \<open>Consistency of the ledger\<close>

definition account_sum :: "id \<Rightarrow> ledger_entry list \<Rightarrow> int" where
  "account_sum i es = sum_list (map amount (filter (\<lambda>e. entry_account e = i) es))"

definition balance_ok :: "ledger_entry list \<Rightarrow> credit_account \<Rightarrow> bool" where
  "balance_ok es a \<longleftrightarrow> balance a = account_sum (acc_id a) es \<and> fits (balance a)"

definition award_key :: "ledger_entry \<Rightarrow> id \<times> id option" where
  "award_key e = (entry_account e, entry_reference e)"

text \<open>A refund compensates an award of its own account and dispatch, in full.\<close>

definition compensates :: "ledger_entry \<Rightarrow> ledger_entry \<Rightarrow> bool" where
  "compensates r e \<longleftrightarrow>
     is_award e \<and> reverses r = Some (entry_id e) \<and> entry_account e = entry_account r \<and>
     entry_reference e = entry_reference r \<and> amount r = - amount e"

definition refunds_ok :: "ledger_entry list \<Rightarrow> bool" where
  "refunds_ok es \<longleftrightarrow> list_all (\<lambda>r. is_refund r \<longrightarrow> list_ex (compensates r) es) es"

definition ledger_wf :: "db \<Rightarrow> bool" where
  "ledger_wf s \<longleftrightarrow>
     distinct (map acc_id (accounts s)) \<and>
     list_all (balance_ok (ledger s)) (accounts s) \<and>
     list_all entry_check (ledger s) \<and>
     distinct (map entry_id (ledger s)) \<and>
     list_all (\<lambda>e. entry_id e < nextId s \<and> entry_sequence e < nextSequence s) (ledger s) \<and>
     unique_on is_award award_key (ledger s) \<and>
     unique_on is_refund reverses (ledger s) \<and>
     refunds_ok (ledger s)"

lemma account_sum_append:
  "account_sum i (es @ [e]) = account_sum i es + (if entry_account e = i then amount e else 0)"
  by (simp add: account_sum_def)

lemma insert_entry_Inr:
  "insert_entry e0 s = Inr (e, s') \<longleftrightarrow>
     e = e0\<lparr>entry_id := nextId s, entry_sequence := nextSequence s\<rparr> \<and>
     entry_guard e (s\<lparr>nextId := nextId s + 1, nextSequence := nextSequence s + 1\<rparr>) = None \<and>
     entry_check e \<and> entry_unique e (ledger s) \<and>
     (\<exists>a \<in> set (accounts s). acc_id a = entry_account e0 \<and> balance a = balanceBefore e0) \<and>
     s' = s\<lparr>nextId := nextId s + 1, nextSequence := nextSequence s + 1, ledger := ledger s @ [e],
            accounts := update_rows (\<lambda>a. acc_id a = entry_account e0 \<and> balance a = balanceBefore e0)
              (\<lambda>a. a\<lparr>balance := balanceAfter e0\<rparr>) (accounts s)\<rparr>"
  by (auto simp: insert_entry_def numbered_def apply_entry_def tx_simps any_row_iff)

lemma holds_claim_cong:
  "acc_ownerType a = acc_ownerType b \<Longrightarrow> acc_provider a = acc_provider b \<Longrightarrow> acc_profile a = acc_profile b
   \<Longrightarrow> holds_claim ps a d = holds_claim ps b d"
  by (cases "acc_ownerType b") (simp_all add: holds_claim_def)

lemma balance_ok_append:
  assumes "balance_ok es a"
  shows "balance_ok (es @ [e]) (if acc_id a = entry_account e then a\<lparr>balance := balance a + amount e\<rparr> else a)
    \<longleftrightarrow> (acc_id a = entry_account e \<longrightarrow> fits (balance a + amount e))"
  using assms by (auto simp: balance_ok_def account_sum_append)

lemma service_refund_guard_None:
  assumes "service_refund_guard e s = None"
  shows "\<exists>x \<in> set (ledger s). compensates e x"
proof (cases "first_row (\<lambda>x. Some (entry_id x) = reverses e) (ledger s)")
  case None
  with assms show ?thesis by (simp add: service_refund_guard_def)
next
  case (Some x)
  let ?bad = "\<not> is_award x \<or> entry_account x \<noteq> entry_account e \<or> entry_reference x \<noteq> entry_reference e"
  have "\<not> ?bad"
  proof
    assume "?bad"
    then show False using assms unfolding service_refund_guard_def Some option.case if_P [OF \<open>?bad\<close>] by simp
  qed
  moreover from this have "amount e = - amount x"
    using assms by (simp add: service_refund_guard_def Some split: if_split_asm)
  ultimately have "compensates e x" using first_row_Some [OF Some] by (simp add: compensates_def)
  then show ?thesis using first_row_Some [OF Some] by blast
qed

lemma refunds_ok_append:
  "refunds_ok es \<Longrightarrow> (is_refund e \<Longrightarrow> \<exists>x \<in> set es. compensates e x) \<Longrightarrow> refunds_ok (es @ [e])"
  by (auto simp: refunds_ok_def list_all_iff list_ex_iff)

text \<open>A movement that the database lets in keeps the ledger consistent.\<close>

lemma insert_entry_wf:
  assumes "insert_entry e0 s = Inr (e, s')" and "ledger_wf s"
  shows "ledger_wf s'"
proof -
  let ?P = "\<lambda>a. acc_id a = entry_account e0 \<and> balance a = balanceBefore e0"
  let ?f = "\<lambda>a :: credit_account. a\<lparr>balance := balanceAfter e0\<rparr>"
  from assms(1) obtain b where e: "e = e0\<lparr>entry_id := nextId s, entry_sequence := nextSequence s\<rparr>"
    and g: "entry_guard e (s\<lparr>nextId := nextId s + 1, nextSequence := nextSequence s + 1\<rparr>) = None"
    and c: "entry_check e" and u: "entry_unique e (ledger s)"
    and b: "b \<in> set (accounts s)" "acc_id b = entry_account e0" "balance b = balanceBefore e0"
    and s': "s' = s\<lparr>nextId := nextId s + 1, nextSequence := nextSequence s + 1, ledger := ledger s @ [e],
            accounts := update_rows ?P ?f (accounts s)\<rparr>"
    unfolding insert_entry_Inr by blast
  from c have a: "balanceAfter e0 = balanceBefore e0 + amount e0" "fits (balanceAfter e0)"
    by (auto simp: entry_check_def amount_check_def e)
  from assms(2) have keys: "distinct (map acc_id (accounts s))" by (simp add: ledger_wf_def)
  have "balance_ok (ledger s @ [e]) (if ?P q then ?f q else q)" if q: "q \<in> set (accounts s)" for q
  proof -
    from assms(2) q have ok: "balance_ok (ledger s) q" by (simp add: ledger_wf_def list_all_iff)
    show ?thesis
    proof (cases "acc_id q = entry_account e0")
      case True
      with unique_key [OF keys q b(1)] b(2) have "q = b" by simp
      with True b(3) a ok show ?thesis by (simp add: balance_ok_def account_sum_append e)
    next
      case False
      then have "entry_account e0 \<noteq> acc_id q" by simp
      then have "account_sum (acc_id q) (ledger s @ [e]) = account_sum (acc_id q) (ledger s)"
        by (simp add: account_sum_append e)
      with ok False show ?thesis unfolding balance_ok_def by auto
    qed
  qed
  then have "list_all (balance_ok (ledger s @ [e])) (update_rows ?P ?f (accounts s))"
    by (auto simp: list_all_iff in_update_rows)
  moreover from u have "unique_on is_award award_key (ledger s @ [e])"
    using assms(2) by (auto simp: unique_on_append ledger_wf_def entry_unique_def any_row_iff award_key_def)
  moreover from u have "unique_on is_refund reverses (ledger s @ [e])"
    using assms(2) by (auto simp: unique_on_append ledger_wf_def entry_unique_def any_row_iff)
  moreover have "map acc_id (update_rows ?P ?f (accounts s)) = map acc_id (accounts s)"
    by (intro map_update_rows) simp
  moreover have "entry_id e \<notin> entry_id ` set (ledger s)"
    using u by (auto simp: entry_unique_def any_row_iff)
  moreover have "list_all (\<lambda>x. entry_id x < nextId s + 1 \<and> entry_sequence x < nextSequence s + 1) (ledger s @ [e])"
    using assms(2) by (auto simp: ledger_wf_def list_all_iff e)
  moreover have "refunds_ok (ledger s @ [e])"
  proof (rule refunds_ok_append)
    show "refunds_ok (ledger s)" using assms(2) by (simp add: ledger_wf_def)
    show "\<exists>x \<in> set (ledger s). compensates e x" if "is_refund e"
      using service_refund_guard_None [of e "s\<lparr>nextId := nextId s + 1, nextSequence := nextSequence s + 1\<rparr>"] g that
      by (simp add: entry_guard_def)
  qed
  ultimately show ?thesis
    using assms(2) c by (simp add: ledger_wf_def s')
qed

lemma ledger_wf_cong:
  assumes "accounts s' = accounts s" "ledger s' = ledger s" "nextId s \<le> nextId s'"
    "nextSequence s' = nextSequence s"
  shows "ledger_wf s \<Longrightarrow> ledger_wf s'"
  using assms by (auto simp: ledger_wf_def list_all_iff)

subsection \<open>What a service costs an account\<close>

text \<open>The net effect of one dispatch on one account: its award and its refund.\<close>

definition service_entry :: "id \<Rightarrow> id \<Rightarrow> ledger_entry \<Rightarrow> bool" where
  "service_entry i d e \<longleftrightarrow>
     (is_award e \<or> is_refund e) \<and> entry_account e = i \<and> entry_reference e = Some d"

definition service_sum :: "id \<Rightarrow> id \<Rightarrow> ledger_entry list \<Rightarrow> int" where
  "service_sum i d es = sum_list (map amount (filter (service_entry i d) es))"

definition refunded :: "ledger_entry list \<Rightarrow> ledger_entry \<Rightarrow> bool" where
  "refunded es e \<longleftrightarrow> list_ex (\<lambda>r. is_refund r \<and> reverses r = Some (entry_id e)) es"

lemma service_sum_set:
  assumes "ledger_wf s"
  shows "service_sum i d (ledger s) = sum amount {e \<in> set (ledger s). service_entry i d e}"
proof -
  from assms have "distinct (ledger s)" by (auto simp: ledger_wf_def distinct_map)
  then show ?thesis
    unfolding service_sum_def by (simp add: sum_list_distinct_conv_sum_set)
qed

lemma service_sum_none:
  assumes "ledger_wf s" and "\<not> (\<exists>e \<in> set (ledger s). is_award e \<and> service_entry i d e)"
  shows "service_sum i d (ledger s) = 0"
proof -
  have "\<not> service_entry i d r" if r: "r \<in> set (ledger s)" for r
  proof
    assume sr: "service_entry i d r"
    with assms(2) r have "is_refund r" by (auto simp: service_entry_def)
    with assms(1) r obtain e where "e \<in> set (ledger s)" "compensates r e"
      by (auto simp: ledger_wf_def refunds_ok_def list_all_iff list_ex_iff)
    with sr assms(2) show False by (auto simp: service_entry_def compensates_def)
  qed
  then have "filter (service_entry i d) (ledger s) = []" by simp
  then show ?thesis by (simp add: service_sum_def)
qed

lemma service_sum_award:
  assumes wf: "ledger_wf s" and e: "e \<in> set (ledger s)" "is_award e" "service_entry i d e"
  shows "service_sum i d (ledger s) = (if refunded (ledger s) e then 0 else amount e)"
proof -
  have ids: "distinct (map entry_id (ledger s))" using wf by (simp add: ledger_wf_def)
  have award: "x = e" if "x \<in> set (ledger s)" "is_award x" "service_entry i d x" for x
    using unique_onD [of is_award award_key "ledger s" x e] wf e that
    by (auto simp: ledger_wf_def award_key_def service_entry_def)
  have refund: "reverses r = Some (entry_id e) \<and> amount r = - amount e"
    if "r \<in> set (ledger s)" "is_refund r" "service_entry i d r" for r
  proof -
    from wf that(1,2) obtain x where x: "x \<in> set (ledger s)" "compensates r x"
      by (auto simp: ledger_wf_def refunds_ok_def list_all_iff list_ex_iff)
    with that(3) have "is_award x" "service_entry i d x"
      by (auto simp: service_entry_def compensates_def)
    with award x(1) have "x = e" by blast
    with x(2) show ?thesis by (simp add: compensates_def)
  qed
  have one: "q = r" if "q \<in> set (ledger s)" "r \<in> set (ledger s)" "is_refund q" "is_refund r"
    "reverses q = Some (entry_id e)" "reverses r = Some (entry_id e)" for q r
    using unique_onD [of is_refund reverses "ledger s" q r] wf that by (simp add: ledger_wf_def)
  show ?thesis
  proof (cases "refunded (ledger s) e")
    case True
    then obtain r where r: "r \<in> set (ledger s)" "is_refund r" "reverses r = Some (entry_id e)"
      by (auto simp: refunded_def list_ex_iff)
    from wf r(1,2) obtain x where x: "x \<in> set (ledger s)" "compensates r x"
      by (auto simp: ledger_wf_def refunds_ok_def list_all_iff list_ex_iff)
    have "x = e" using unique_key [OF ids x(1) e(1)] x(2) r(3) by (simp add: compensates_def)
    with x(2) e(3) r have sr: "service_entry i d r" by (auto simp: service_entry_def compensates_def)
    have "x = e \<or> x = r" if "x \<in> set (ledger s)" "service_entry i d x" for x
    proof (cases "is_award x")
      case True
      with award that show ?thesis by blast
    next
      case False
      with that(2) have "is_refund x" by (simp add: service_entry_def)
      with refund one r that show ?thesis by blast
    qed
    with e r(1) sr have "{x \<in> set (ledger s). service_entry i d x} = {e, r}" by blast
    moreover have "e \<noteq> r" using e(2) r(2) by auto
    ultimately show ?thesis using True refund [OF r(1,2) sr] by (simp add: service_sum_set [OF wf])
  next
    case False
    then have none: "\<not> (is_refund x \<and> service_entry i d x)" if "x \<in> set (ledger s)" for x
      using refund [OF that] that by (auto simp: refunded_def list_ex_iff)
    have "x = e" if "x \<in> set (ledger s)" "service_entry i d x" for x
      using award [OF that(1) _ that(2)] none [OF that(1)] that(2) by (auto simp: service_entry_def)
    with e have "{x \<in> set (ledger s). service_entry i d x} = {e}" by blast
    with False show ?thesis by (simp add: service_sum_set [OF wf])
  qed
qed

text \<open>Inserts that leave the accounts other than one, and the other tables, as they are.\<close>

lemma insert_entry_frame:
  assumes "insert_entry e0 s = Inr (e, s')"
  shows "dispatches s' = dispatches s" "profiles s' = profiles s" "snapshots s' = snapshots s"
    "candidates s' = candidates s" "assignments s' = assignments s" "preAwards s' = preAwards s"
    "requests s' = requests s" "quotes s' = quotes s" "outbox s' = outbox s"
    "ledger s' = ledger s @ [e]"
    "find_dispatch i s' = find_dispatch i s" "find_snapshot j t s' = find_snapshot j t s"
  using assms by (auto simp: insert_entry_Inr find_dispatch_def find_snapshot_def)

lemma find_account_Some: "find_account i s = Some a \<Longrightarrow> a \<in> set (accounts s) \<and> acc_id a = i"
  by (auto simp: find_account_def dest: first_row_Some)

lemma find_account_in:
  "ledger_wf s \<Longrightarrow> a \<in> set (accounts s) \<Longrightarrow> find_account (acc_id a) s = Some a"
  unfolding find_account_def by (auto simp: ledger_wf_def intro: first_row_unique_key)

lemma find_account_update:
  "first_row (\<lambda>a. acc_id a = i) (update_rows (\<lambda>a. acc_id a = j \<and> balance a = b) (\<lambda>a. a\<lparr>balance := c\<rparr>) rs) =
     map_option (\<lambda>a. if acc_id a = j \<and> balance a = b then a\<lparr>balance := c\<rparr> else a)
       (first_row (\<lambda>a. acc_id a = i) rs)"
  by (induction rs) (auto simp: first_row_def)

text \<open>The balance of an account before and after a movement of it.\<close>

definition balance_of :: "db \<Rightarrow> id \<Rightarrow> int option" where
  "balance_of s i = map_option balance (find_account i s)"

lemma insert_entry_balance:
  assumes "insert_entry e0 s = Inr (e, s')" and "ledger_wf s"
  shows "balance_of s' = (balance_of s)(entry_account e0 \<mapsto> balanceBefore e0 + amount e0)"
    and "balance_of s (entry_account e0) = Some (balanceBefore e0)"
proof -
  from assms(1) have "entry_check e" "amount e = amount e0" "balanceBefore e = balanceBefore e0"
    "balanceAfter e = balanceAfter e0" by (auto simp: insert_entry_Inr)
  then have after: "balanceAfter e0 = balanceBefore e0 + amount e0"
    by (simp add: entry_check_def amount_check_def)
  from assms(1) obtain a where a: "a \<in> set (accounts s)" "acc_id a = entry_account e0" "balance a = balanceBefore e0"
    by (auto simp: insert_entry_Inr)
  from find_account_in [OF assms(2) a(1)] a(2) have f: "find_account (entry_account e0) s = Some a" by simp
  with a(3) show "balance_of s (entry_account e0) = Some (balanceBefore e0)" by (simp add: balance_of_def)
  have "find_account i s' = map_option (\<lambda>a. if acc_id a = entry_account e0 \<and> balance a = balanceBefore e0
      then a\<lparr>balance := balanceAfter e0\<rparr> else a) (find_account i s)" for i
    using assms(1) by (auto simp: insert_entry_Inr find_account_def find_account_update)
  then show "balance_of s' = (balance_of s)(entry_account e0 \<mapsto> balanceBefore e0 + amount e0)"
    using f a(3) after
    by (auto simp: balance_of_def fun_eq_iff option.map_comp dest!: find_account_Some intro!: option.map_cong0)
qed

text \<open>When the database lets a movement in: nothing in it depends on the id it will get.\<close>

lemma entry_guard_numbered:
  "entry_guard (e\<lparr>entry_id := i, entry_sequence := j\<rparr>) (s\<lparr>nextId := k, nextSequence := l\<rparr>) = entry_guard e s"
  by (simp add: entry_guard_def service_award_guard_def service_refund_guard_def find_account_def
      find_dispatch_def find_snapshot_def cong: option.case_cong if_cong)

lemma entry_check_numbered: "entry_check (e\<lparr>entry_id := i, entry_sequence := j\<rparr>) = entry_check e"
  by (simp add: entry_check_def amount_check_def type_check_def award_check_def refund_check_def text_check_def
      cong: ledger_type.case_cong)

lemma insert_entry_succeeds:
  assumes wf: "ledger_wf s" and a: "a \<in> set (accounts s)" "acc_id a = entry_account e0" "balance a = balanceBefore e0"
    and c: "entry_check e0" and g: "entry_guard e0 s = None"
    and key: "\<And>x. x \<in> set (ledger s) \<Longrightarrow> entry_account x = entry_account e0 \<Longrightarrow> entry_key x \<noteq> None \<Longrightarrow> entry_key x \<noteq> entry_key e0"
    and award: "\<And>x. is_award e0 \<Longrightarrow> x \<in> set (ledger s) \<Longrightarrow> is_award x \<Longrightarrow> entry_account x = entry_account e0
      \<Longrightarrow> entry_reference x \<noteq> entry_reference e0"
    and refund: "\<And>x. is_refund e0 \<Longrightarrow> x \<in> set (ledger s) \<Longrightarrow> is_refund x \<Longrightarrow> reverses x \<noteq> reverses e0"
  shows "\<exists>s'. insert_entry e0 s = Inr (e0\<lparr>entry_id := nextId s, entry_sequence := nextSequence s\<rparr>, s')"
proof -
  have "entry_id x < nextId s \<and> entry_sequence x < nextSequence s" if "x \<in> set (ledger s)" for x
    using wf that by (simp add: ledger_wf_def list_all_iff)
  then have fresh: "entry_id x \<noteq> nextId s \<and> entry_sequence x \<noteq> nextSequence s" if "x \<in> set (ledger s)" for x
    using that by fastforce
  have "entry_unique (e0\<lparr>entry_id := nextId s, entry_sequence := nextSequence s\<rparr>) (ledger s)"
    unfolding entry_unique_def any_row_iff
  proof (rule notI, elim bexE)
    fix x
    assume x: "x \<in> set (ledger s)"
    note fresh [OF x] key [OF x] award [OF _ x] refund [OF _ x]
    moreover assume "entry_id x = entry_id (e0\<lparr>entry_id := nextId s, entry_sequence := nextSequence s\<rparr>) \<or>
      entry_sequence x = entry_sequence (e0\<lparr>entry_id := nextId s, entry_sequence := nextSequence s\<rparr>) \<or>
      entry_account x = entry_account (e0\<lparr>entry_id := nextId s, entry_sequence := nextSequence s\<rparr>) \<and>
        entry_key x \<noteq> None \<and> entry_key x = entry_key (e0\<lparr>entry_id := nextId s, entry_sequence := nextSequence s\<rparr>) \<or>
      is_award (e0\<lparr>entry_id := nextId s, entry_sequence := nextSequence s\<rparr>) \<and> is_award x \<and>
        entry_account x = entry_account (e0\<lparr>entry_id := nextId s, entry_sequence := nextSequence s\<rparr>) \<and>
        entry_reference x = entry_reference (e0\<lparr>entry_id := nextId s, entry_sequence := nextSequence s\<rparr>) \<or>
      is_refund (e0\<lparr>entry_id := nextId s, entry_sequence := nextSequence s\<rparr>) \<and> is_refund x \<and>
        reverses x = reverses (e0\<lparr>entry_id := nextId s, entry_sequence := nextSequence s\<rparr>)"
    ultimately show False by auto
  qed
  then show ?thesis
    using a c g by (auto simp: insert_entry_Inr entry_guard_numbered entry_check_numbered)
qed

subsection \<open>The accounts and their owners\<close>

text \<open>\<open>CreditAccount_owner_check\<close>, and the unique owner of an account.\<close>

definition owner_check :: "credit_account \<Rightarrow> bool" where
  "owner_check a \<longleftrightarrow>
     (acc_ownerType a = PROVIDER \<and> acc_provider a \<noteq> None \<and> acc_profile a = None) \<or>
     (acc_ownerType a = INDEPENDENT_DRIVER \<and> acc_profile a \<noteq> None \<and> acc_provider a = None)"

definition accounts_wf :: "db \<Rightarrow> bool" where
  "accounts_wf s \<longleftrightarrow>
     list_all owner_check (accounts s) \<and>
     unique_on (\<lambda>a. acc_provider a \<noteq> None) acc_provider (accounts s) \<and>
     unique_on (\<lambda>a. acc_profile a \<noteq> None) acc_profile (accounts s)"

lemma unique_on_map_update:
  assumes "\<And>r. A (f r) = A r" and "\<And>r. key (f r) = key r"
  shows "unique_on A key (update_rows P f rs) = unique_on A key rs"
proof -
  have "map key (filter A (update_rows P f rs)) = map key (filter A rs)"
    by (induction rs) (auto simp: assms)
  then show ?thesis by (simp add: unique_on_def)
qed

lemma insert_entry_accounts_wf:
  assumes "insert_entry e0 s = Inr (e, s')" and "accounts_wf s"
  shows "accounts_wf s'"
  using assms
  by (auto simp: insert_entry_Inr accounts_wf_def unique_on_map_update owner_check_def intro!: list_all_update)

end
