(* ===== verification/Service_Credits.thy ===== *)
theory Service_Credits imports Credit_Ledger begin

text \<open>
  What an award costs and what its reversal returns: \<open>creditEnforcementMode\<close>
  (src/src/credits/award-boundary.ts), \<open>chargeDispatchAward\<close> (service-award.ts) and
  \<open>refundDispatchAward\<close> (service-refund.ts), run inside the transaction of the operation that
  awards or reverses the service. Against the abstract account, a map from accounts to balances,
  a charge is a debit and a refund the credit of the same amount.
\<close>

subsection \<open>Who pays\<close>

datatype award_owner = ProviderOwner id | IndependentOwner id

fun owner_actorType :: "award_owner \<Rightarrow> actor_type" where
  "owner_actorType (ProviderOwner _) = PROVIDER"
| "owner_actorType (IndependentOwner _) = INDEPENDENT_DRIVER"

fun owns_account :: "award_owner \<Rightarrow> credit_account \<Rightarrow> bool" where
  "owns_account (ProviderOwner p) a = (acc_provider a = Some p)"
| "owns_account (IndependentOwner i) a = (acc_profile a = Some i)"

definition owner_account :: "award_owner \<Rightarrow> db \<Rightarrow> credit_account option" where
  "owner_account owner s = first_row (owns_account owner) (accounts s)"

subsection \<open>The enforcement boundary\<close>

datatype enforcement = LegacyBoundary | PreEnforcementAward | Enforced

definition creditEnforcementMode ::
    "credit_mode \<Rightarrow> instant option \<Rightarrow> pre_award list \<Rightarrow> actor_type \<Rightarrow> id option \<Rightarrow> enforcement" where
  "creditEnforcementMode mode claimed history actor actorId =
     (if mode = LEGACY then LegacyBoundary
      else
        (case (actorId, claimed) of
           (Some i, Some t) \<Rightarrow>
             if list_ex (\<lambda>h. pre_actorType h = actor \<and> pre_actorId h = i \<and> pre_awardedAt h = t) history
             then PreEnforcementAward else Enforced
         | _ \<Rightarrow> Enforced))"

subsection \<open>Charging an award\<close>

datatype award_outcome =
    AwardLegacy
  | Charged (charged_actor: actor_type) (charged_account: id) (charged_credits: int)
      (charged_snapshot: id) (charged_entry: ledger_entry)

text \<open>The balance a movement leaves, or its rejection thrown.\<close>

definition nextBalanceT :: "int \<Rightarrow> int \<Rightarrow> int dtx" where
  "nextBalanceT b a =
     (case nextBalance b a of
        Inl rejection \<Rightarrow> throwT (CreditDomain rejection)
      | Inr after \<Rightarrow> returnT after)"

lemma nextBalanceT_Inr [tx_simps]:
  "nextBalanceT b a s = Inr (c, s') \<longleftrightarrow> s' = s \<and> c = b + a \<and> 0 \<le> c \<and> c \<le> MAX_CREDIT_BALANCE"
  by (auto simp: nextBalanceT_def nextBalance_def Let_def returnT_def throwT_def)

lemma nextBalanceT_Inl [tx_simps]:
  "nextBalanceT b a s = Inl f \<longleftrightarrow> (\<exists>e. nextBalance b a = Inl e \<and> f = CreditDomain e)"
  by (auto simp: nextBalanceT_def returnT_def throwT_def split: sum.splits)

text \<open>A ledger entry of a service, as \<open>create\<close> fills it; id and sequence come with the insert.\<close>

definition service_movement ::
    "ledger_type \<Rightarrow> id \<Rightarrow> int \<Rightarrow> int \<Rightarrow> int \<Rightarrow> id \<Rightarrow> id option \<Rightarrow> refund_reason option \<Rightarrow> id option \<Rightarrow> ledger_entry" where
  "service_movement type account a before after dispatch award reason author =
     \<lparr>entry_id = 0, entry_sequence = 0, entry_account = account, entry_type = type, amount = a,
      balanceBefore = before, balanceAfter = after, entry_method = None, entry_external = None,
      entry_reason = None, entry_reference = Some dispatch, reverses = award, refundReason = reason,
      entry_createdBy = author, entry_key = None, entry_hash = None\<rparr>"

text \<open>The catch clause of both writes: a lost race is a conflict, anything else passes.\<close>

definition movement_conflict :: "failure \<Rightarrow> failure" where
  "movement_conflict f =
     (if isDomainException f then f
      else if isUniqueViolation f then CreditDomain CREDIT_MOVEMENT_CONFLICT
      else if isLedgerRejection f then CreditDomain CREDIT_MOVEMENT_CONFLICT
      else f)"

definition chargeDispatchAward :: "id \<Rightarrow> credit_mode \<Rightarrow> award_owner \<Rightarrow> id \<Rightarrow> award_outcome dtx" where
  "chargeDispatchAward dispatch mode owner actor =
     (if mode = LEGACY then returnT AwardLegacy
      else
        bindT (requireT (find_snapshot dispatch (owner_actorType owner)) (CreditDomain CREDIT_SNAPSHOT_UNAVAILABLE)) (\<lambda>snap.
        bindT (requireT (owner_account owner) (CreditDomain CREDIT_ACCOUNT_UNAVAILABLE)) (\<lambda>account.
        bindT (nextBalanceT (balance account) (- snap_credits snap)) (\<lambda>after.
        bindT (catchT (insert_entry (service_movement SERVICE_AWARD (acc_id account) (- snap_credits snap)
                (balance account) after dispatch None None (Some actor))) movement_conflict) (\<lambda>e.
        returnT (Charged (owner_actorType owner) (acc_id account) (snap_credits snap) (snap_id snap) e))))))"

fun awardRejectionCode :: "failure \<Rightarrow> credit_error option" where
  "awardRejectionCode (CreditDomain c) =
     (if c \<in> {INSUFFICIENT_CREDITS, CREDIT_ACCOUNT_UNAVAILABLE, CREDIT_SNAPSHOT_UNAVAILABLE,
              CREDIT_MOVEMENT_CONFLICT}
      then Some c else None)"
| "awardRejectionCode _ = None"

subsection \<open>Refunding an award\<close>

text \<open>\<open>ReversedDispatch\<close>: the dispatch as the reversal read it before its own write.\<close>

record reversed_dispatch =
  rev_id :: id
  rev_mode :: credit_mode
  rev_claimedAt :: "instant option"
  rev_awards :: "pre_award list"

datatype refund_outcome =
    NothingCharged enforcement
  | AlreadyRefunded id int
  | Refunded actor_type id int id ledger_entry refund_reason

definition find_award :: "id \<Rightarrow> id \<Rightarrow> db \<Rightarrow> ledger_entry option" where
  "find_award dispatch account s =
     first_row (\<lambda>e. is_award e \<and> entry_reference e = Some dispatch \<and> entry_account e = account) (ledger s)"

definition find_refund :: "id \<Rightarrow> db \<Rightarrow> ledger_entry option" where
  "find_refund award s = first_row (\<lambda>e. is_refund e \<and> reverses e = Some award) (ledger s)"

definition refundDispatchAward ::
    "reversed_dispatch \<Rightarrow> award_owner \<Rightarrow> id \<Rightarrow> refund_reason \<Rightarrow> id option \<Rightarrow> refund_outcome dtx" where
  "refundDispatchAward d owner boundaryActor reason actor =
     (let boundary = creditEnforcementMode (rev_mode d) (rev_claimedAt d) (rev_awards d)
          (owner_actorType owner) (Some boundaryActor) in
      bindT (readT (\<lambda>s. Option.bind (owner_account owner s) (\<lambda>a. find_award (rev_id d) (acc_id a) s))) (\<lambda>found.
      (case found of
         None \<Rightarrow>
           if boundary \<noteq> Enforced then returnT (NothingCharged boundary)
           else throwT (CreditDomain CREDIT_REFUND_INTEGRITY_ERROR)
       | Some award \<Rightarrow>
           bindT (readT (find_refund (entry_id award))) (\<lambda>existing.
           (case existing of
              Some r \<Rightarrow> returnT (AlreadyRefunded (entry_id r) (amount r))
            | None \<Rightarrow>
                bindT (requireT (find_account (entry_account award)) (CreditDomain CREDIT_REFUND_INTEGRITY_ERROR)) (\<lambda>locked.
                bindT (nextBalanceT (balance locked) (- amount award)) (\<lambda>after.
                bindT (catchT (insert_entry (service_movement SERVICE_REFUND (entry_account award)
                        (- amount award) (balance locked) after (rev_id d) (Some (entry_id award))
                        (Some reason) actor)) movement_conflict) (\<lambda>e.
                returnT (Refunded (owner_actorType owner) (entry_account award) (- amount award)
                  (entry_id award) e reason)))))))))"

fun refundRejectionCode :: "failure \<Rightarrow> credit_error option" where
  "refundRejectionCode (CreditDomain c) =
     (if c \<in> {CREDIT_REFUND_INTEGRITY_ERROR, CREDIT_MOVEMENT_CONFLICT} then Some c else None)"
| "refundRejectionCode _ = None"

datatype refund_event =
    SERVICE_REFUND_ISSUED | SERVICE_REFUND_ALREADY_APPLIED | SERVICE_REFUND_SKIPPED_LEGACY
  | SERVICE_REFUND_SKIPPED_PRE_ENFORCEMENT

text \<open>\<open>refundLogFields\<close>, its event name.\<close>

fun refundEvent :: "refund_outcome \<Rightarrow> refund_event" where
  "refundEvent (Refunded _ _ _ _ _ _) = SERVICE_REFUND_ISSUED"
| "refundEvent (AlreadyRefunded _ _) = SERVICE_REFUND_ALREADY_APPLIED"
| "refundEvent (NothingCharged b) =
     (if b = LegacyBoundary then SERVICE_REFUND_SKIPPED_LEGACY else SERVICE_REFUND_SKIPPED_PRE_ENFORCEMENT)"

subsection \<open>What a charge does\<close>

lemma service_movement_sel [simp]:
  "entry_account (service_movement t i a b c d r q u) = i"
  "entry_type (service_movement t i a b c d r q u) = t"
  "amount (service_movement t i a b c d r q u) = a"
  "balanceBefore (service_movement t i a b c d r q u) = b"
  "balanceAfter (service_movement t i a b c d r q u) = c"
  "entry_reference (service_movement t i a b c d r q u) = Some d"
  "reverses (service_movement t i a b c d r q u) = r"
  "refundReason (service_movement t i a b c d r q u) = q"
  by (simp_all add: service_movement_def)

text \<open>A charge that succeeds is the insert of one award of the frozen cost.\<close>

lemma charge_Inr:
  assumes "chargeDispatchAward d mode owner actor s = Inr (out, s')" and "mode \<noteq> LEGACY"
  obtains x a e where
    "find_snapshot d (owner_actorType owner) s = Some x" "owner_account owner s = Some a"
    "snap_credits x \<le> balance a"
    "insert_entry (service_movement SERVICE_AWARD (acc_id a) (- snap_credits x) (balance a)
       (balance a - snap_credits x) d None None (Some actor)) s = Inr (e, s')"
    "out = Charged (owner_actorType owner) (acc_id a) (snap_credits x) (snap_id x) e"
  using assms
  by (auto simp: chargeDispatchAward_def tx_simps)

lemma charge_legacy: "chargeDispatchAward d LEGACY owner actor s = Inr (AwardLegacy, s)"
  by (simp add: chargeDispatchAward_def returnT_def)

lemma charge_wf:
  assumes "chargeDispatchAward d mode owner actor s = Inr (out, s')" and "ledger_wf s"
  shows "ledger_wf s'"
proof (cases mode)
  case LEGACY
  with assms show ?thesis by (simp add: charge_legacy)
next
  case MONETIZED
  with charge_Inr [OF assms(1)] insert_entry_wf assms(2) show ?thesis
    by (metis credit_mode.distinct(1))
qed

subsection \<open>What a refund does\<close>

text \<open>A refund that writes is the insert of the opposite of an award not refunded before.\<close>

lemma refund_Inr:
  assumes "refundDispatchAward d owner b reason actor s = Inr (out, s')"
  obtains (none) "s' = s" "out = NothingCharged (creditEnforcementMode (rev_mode d) (rev_claimedAt d) (rev_awards d)
        (owner_actorType owner) (Some b))"
      "creditEnforcementMode (rev_mode d) (rev_claimedAt d) (rev_awards d) (owner_actorType owner) (Some b) \<noteq> Enforced"
      "Option.bind (owner_account owner s) (\<lambda>a. find_award (rev_id d) (acc_id a) s) = None"
    | (already) a award r where "s' = s" "out = AlreadyRefunded (entry_id r) (amount r)"
      "owner_account owner s = Some a" "find_award (rev_id d) (acc_id a) s = Some award"
      "find_refund (entry_id award) s = Some r"
    | (refunded) a award locked e where
      "owner_account owner s = Some a" "find_award (rev_id d) (acc_id a) s = Some award"
      "find_refund (entry_id award) s = None"
      "find_account (entry_account award) s = Some locked"
      "insert_entry (service_movement SERVICE_REFUND (entry_account award) (- amount award) (balance locked)
         (balance locked - amount award) (rev_id d) (Some (entry_id award)) (Some reason) actor) s = Inr (e, s')"
      "out = Refunded (owner_actorType owner) (entry_account award) (- amount award) (entry_id award) e reason"
proof -
  let ?found = "Option.bind (owner_account owner s) (\<lambda>a. find_award (rev_id d) (acc_id a) s)"
  show ?thesis
  proof (cases ?found)
    case None
    with assms none show ?thesis
      by (auto simp: refundDispatchAward_def Let_def tx_simps split: if_splits)
  next
    case (Some award)
    then obtain a where a: "owner_account owner s = Some a" "find_award (rev_id d) (acc_id a) s = Some award"
      by (auto simp: bind_eq_Some_conv)
    show ?thesis
    proof (cases "find_refund (entry_id award) s")
      case r: (Some r)
      with Some assms have "s' = s" "out = AlreadyRefunded (entry_id r) (amount r)"
        by (simp_all add: refundDispatchAward_def Let_def tx_simps)
      with already a r show ?thesis by blast
    next
      case r: None
      from Some r assms obtain locked e where
        "find_account (entry_account award) s = Some locked"
        "insert_entry (service_movement SERVICE_REFUND (entry_account award) (- amount award) (balance locked)
          (balance locked - amount award) (rev_id d) (Some (entry_id award)) (Some reason) actor) s = Inr (e, s')"
        "out = Refunded (owner_actorType owner) (entry_account award) (- amount award) (entry_id award) e reason"
        by (auto simp: refundDispatchAward_def Let_def tx_simps)
      with refunded a r show ?thesis by blast
    qed
  qed
qed

lemma refund_wf:
  assumes "refundDispatchAward d owner b reason actor s = Inr (out, s')" and "ledger_wf s"
  shows "ledger_wf s'"
  using assms(1) by (rule refund_Inr) (use assms(2) insert_entry_wf in auto)

subsection \<open>Charging debits the holder, refunding restores the balance\<close>

fun held_by :: "profile list \<Rightarrow> award_owner \<Rightarrow> dispatch \<Rightarrow> bool" where
  "held_by ps (ProviderOwner p) d = (claimedByProvider d = Some p)"
| "held_by ps (IndependentOwner i) d =
     (case first_row (\<lambda>p. prof_id p = i) ps of
        None \<Rightarrow> False
      | Some p \<Rightarrow> claimedByIndependent d = Some (prof_driver p))"

lemma owner_account_Some:
  assumes "owner_account owner s = Some a" and "accounts_wf s"
  shows "a \<in> set (accounts s)" "acc_ownerType a = owner_actorType owner" "owns_account owner a"
proof -
  from assms(1) show "a \<in> set (accounts s)" "owns_account owner a"
    by (auto simp: owner_account_def dest: first_row_Some)
  with assms(2) show "acc_ownerType a = owner_actorType owner"
    by (cases owner) (auto simp: accounts_wf_def list_all_iff owner_check_def)
qed

lemma held_by_holds_claim:
  assumes "owner_account owner s = Some a" "accounts_wf s" "held_by ps owner d"
  shows "holds_claim ps a d"
  using owner_account_Some [OF assms(1,2)] assms(3)
  by (cases owner) (auto simp: holds_claim_def split: option.splits)

lemma find_award_None:
  "find_award d i s = None \<longleftrightarrow>
     (\<forall>e \<in> set (ledger s). \<not> (is_award e \<and> entry_reference e = Some d \<and> entry_account e = i))"
  by (simp add: find_award_def first_row_None)

lemma find_award_Some:
  "find_award d i s = Some e \<Longrightarrow>
     e \<in> set (ledger s) \<and> is_award e \<and> entry_reference e = Some d \<and> entry_account e = i"
  by (auto simp: find_award_def dest: first_row_Some)

lemma find_refund_None:
  "find_refund w s = None \<longleftrightarrow> (\<forall>e \<in> set (ledger s). \<not> (is_refund e \<and> reverses e = Some w))"
  by (simp add: find_refund_def first_row_None)

lemma award_check_ok:
  assumes "fits b" "fits (b - c)" "0 < c" "c \<le> 1000000"
  shows "entry_check (service_movement SERVICE_AWARD i (- c) b (b - c) d None None (Some u))"
  using assms
  by (simp add: entry_check_def amount_check_def type_check_def award_check_def refund_check_def
      text_check_def length_between_def service_movement_def)

lemma refund_check_ok:
  assumes "fits b" "fits (b + c)" "0 < c" "c \<le> 1000000"
  shows "entry_check (service_movement SERVICE_REFUND i c b (b + c) d (Some w) (Some q) u)"
  using assms
  by (simp add: entry_check_def amount_check_def type_check_def award_check_def refund_check_def
      text_check_def length_between_def service_movement_def)

lemma balance_of_account: "ledger_wf s \<Longrightarrow> a \<in> set (accounts s) \<Longrightarrow> balance_of s (acc_id a) = Some (balance a)"
  by (simp add: balance_of_def find_account_in)

lemma account_fits: "ledger_wf s \<Longrightarrow> a \<in> set (accounts s) \<Longrightarrow> fits (balance a)"
  by (auto simp: ledger_wf_def list_all_iff balance_ok_def)

lemma service_sum_append:
  "service_sum i d (es @ [e]) = service_sum i d es + (if service_entry i d e then amount e else 0)"
  by (simp add: service_sum_def)

text \<open>
  Charging an award, for the actor that holds the service and was not charged before, is a debit
  of the frozen cost or a refusal, decided by the balance alone: when the account holds the credits
  the ledger gains one award, the balance of that account goes down by the cost and no other balance
  moves; when it does not, the answer is INSUFFICIENT_CREDITS. No guard of the ledger ever fires.
\<close>

lemma charge_debits_the_holder:
  assumes "ledger_wf s" "accounts_wf s"
    and "find_dispatch (Some d) s = Some row" "d_status row = CLAIMED" "creditMode row = MONETIZED"
    and "held_by (profiles s) owner row"
    and "find_snapshot d (owner_actorType owner) s = Some x" "0 < snap_credits x" "snap_credits x \<le> MAX_CREDIT_MOVEMENT"
    and "owner_account owner s = Some a"
    and "find_award d (acc_id a) s = None"
  shows "(snap_credits x \<le> balance a \<longrightarrow>
      (\<exists>e s'. chargeDispatchAward d MONETIZED owner actor s =
          Inr (Charged (owner_actorType owner) (acc_id a) (snap_credits x) (snap_id x) e, s')
        \<and> ledger s' = ledger s @ [e] \<and> is_award e
        \<and> balance_of s' = (balance_of s)(acc_id a \<mapsto> balance a - snap_credits x)
        \<and> service_sum (acc_id a) d (ledger s') = - snap_credits x))
    \<and> (balance a < snap_credits x \<longrightarrow>
        chargeDispatchAward d MONETIZED owner actor s = Inl (CreditDomain INSUFFICIENT_CREDITS))"
proof (intro conjI impI)
  let ?m = "service_movement SERVICE_AWARD (acc_id a) (- snap_credits x) (balance a)
              (balance a - snap_credits x) d None None (Some actor)"
  note a = owner_account_Some [OF assms(10,2)]
  have bal: "fits (balance a)" using assms(1) a(1) by (rule account_fits)
  {
    assume le: "snap_credits x \<le> balance a"
    have "d_id row = d" using assms(3) by (auto simp: find_dispatch_def dest: first_row_Some)
    then have "entry_guard ?m s = None"
      using assms a held_by_holds_claim [OF assms(10,2,6)]
      by (simp add: entry_guard_def service_award_guard_def find_account_in)
    moreover have "entry_check ?m"
      using bal le assms(8,9) by (intro award_check_ok) (auto simp: fits_def MAX_CREDIT_MOVEMENT_def)
    ultimately obtain e s' where i: "insert_entry ?m s = Inr (e, s')"
      and e: "e = ?m\<lparr>entry_id := nextId s, entry_sequence := nextSequence s\<rparr>"
      using insert_entry_succeeds [of s a ?m] assms(1,11) a
      by (auto simp: find_award_None service_movement_def)
    have "service_sum (acc_id a) d (ledger s) = 0"
      using assms(11) by (intro service_sum_none assms(1)) (auto simp: find_award_None service_entry_def)
    then have sum: "service_sum (acc_id a) d (ledger s') = - snap_credits x"
      using insert_entry_frame(10) [OF i] e by (simp add: service_sum_append service_entry_def)
    have bal': "balance_of s' = (balance_of s)(acc_id a \<mapsto> balance a - snap_credits x)"
      using insert_entry_balance(1) [OF i assms(1)] by simp
    have "chargeDispatchAward d MONETIZED owner actor s =
        Inr (Charged (owner_actorType owner) (acc_id a) (snap_credits x) (snap_id x) e, s')"
      using assms(7,10) i le bal assms(8)
      by (auto simp: chargeDispatchAward_def tx_simps fits_def MAX_CREDIT_BALANCE_def)
    moreover have "is_award e" using e by simp
    ultimately show "\<exists>e s'. chargeDispatchAward d MONETIZED owner actor s =
          Inr (Charged (owner_actorType owner) (acc_id a) (snap_credits x) (snap_id x) e, s')
        \<and> ledger s' = ledger s @ [e] \<and> is_award e
        \<and> balance_of s' = (balance_of s)(acc_id a \<mapsto> balance a - snap_credits x)
        \<and> service_sum (acc_id a) d (ledger s') = - snap_credits x"
      using insert_entry_frame(10) [OF i] sum bal' by blast
  }
  assume "balance a < snap_credits x"
  then show "chargeDispatchAward d MONETIZED owner actor s = Inl (CreditDomain INSUFFICIENT_CREDITS)"
    using assms(7,10) by (auto simp: chargeDispatchAward_def tx_simps nextBalance_def Let_def)
qed

lemma owner_account_after:
  assumes "insert_entry e0 s = Inr (e, s')"
  shows "owner_account owner s' =
    map_option (\<lambda>a. if acc_id a = entry_account e0 \<and> balance a = balanceBefore e0
        then a\<lparr>balance := balanceAfter e0\<rparr> else a) (owner_account owner s)"
proof -
  have "owns_account owner (a\<lparr>balance := b\<rparr>) = owns_account owner a" for a b
    by (cases owner) simp_all
  then have "first_row (owns_account owner) (update_rows P (\<lambda>a. a\<lparr>balance := b\<rparr>) rs) =
      map_option (\<lambda>a. if P a then a\<lparr>balance := b\<rparr> else a) (first_row (owns_account owner) rs)" for P b rs
    by (induction rs) (auto simp: first_row_def)
  then show ?thesis using assms by (auto simp: insert_entry_Inr owner_account_def)
qed

text \<open>The reversal that a refund belongs to, as it stands in the database when the refund runs.\<close>

fun reversal_of :: "award_owner \<Rightarrow> refund_reason" where
  "reversal_of (ProviderOwner _) = PROVIDER_RELEASE"
| "reversal_of (IndependentOwner _) = INDEPENDENT_RELEASE"

definition reversed_by :: "db \<Rightarrow> refund_reason \<Rightarrow> award_owner \<Rightarrow> credit_account \<Rightarrow> dispatch \<Rightarrow> bool" where
  "reversed_by s reason owner a row \<longleftrightarrow>
     (reason = REFUND_DELIVERY_CANCELLED \<and> d_status row \<in> {CANCELLED, EXPIRED} \<and> held_by (profiles s) owner row) \<or>
     (reason = reversal_of owner \<and> d_status row \<noteq> CLAIMED \<and> \<not> holds_claim (profiles s) a row)"

lemma award_amount:
  assumes "ledger_wf s" "w \<in> set (ledger s)" "is_award w"
  shows "amount w < 0" "- 1000000 \<le> amount w"
proof -
  from assms have "entry_check w" by (simp add: ledger_wf_def list_all_iff)
  with assms(3) show "amount w < 0" "- 1000000 \<le> amount w"
    by (simp_all add: entry_check_def amount_check_def type_check_def)
qed

lemma refund_guard_ok:
  assumes wf: "ledger_wf s" "accounts_wf s" and a: "owner_account owner s = Some a"
    and w: "find_award d (acc_id a) s = Some w"
    and row: "find_dispatch (Some d) s = Some row" and rev: "reversed_by s reason owner a row"
  shows "entry_guard (service_movement SERVICE_REFUND (acc_id a) (- amount w) b c d
      (Some (entry_id w)) (Some reason) u) s = None"
proof -
  let ?m = "service_movement SERVICE_REFUND (acc_id a) (- amount w) b c d (Some (entry_id w)) (Some reason) u"
  note w' = find_award_Some [OF w] and a' = owner_account_Some [OF a wf(2)]
  have "first_row (\<lambda>x. entry_id x = entry_id w) (ledger s) = Some w"
    using wf(1) w' by (auto simp: ledger_wf_def intro: first_row_unique_key)
  moreover have "reason = REFUND_DELIVERY_CANCELLED \<Longrightarrow> holds_claim (profiles s) a row \<and> d_status row \<in> {CANCELLED, EXPIRED}"
    using rev held_by_holds_claim [OF a wf(2)] by (cases owner) (auto simp: reversed_by_def)
  moreover have "reason \<noteq> REFUND_DELIVERY_CANCELLED \<Longrightarrow>
      reason = reversal_of owner \<and> d_status row \<noteq> CLAIMED \<and> \<not> holds_claim (profiles s) a row"
    using rev by (auto simp: reversed_by_def)
  moreover have "find_account (acc_id a) s = Some a" by (rule find_account_in [OF wf(1) a'(1)])
  ultimately show ?thesis
    using w' a' row by (cases owner; cases reason) (simp_all add: entry_guard_def service_refund_guard_def)
qed

text \<open>
  C16: Refunding a reversed award gives the account that paid exactly what the award took, once: the
  ledger gains one opposite entry, the balance goes up by the cost, no other balance moves, and the
  net of that service on that account becomes zero. It is refused only when the balance would pass
  its limit, and no guard of the ledger ever fires.
\<close>

theorem refund_restores_the_balance:
  assumes "ledger_wf s" "accounts_wf s"
    and "owner_account owner s = Some a"
    and "find_award (rev_id d) (acc_id a) s = Some w" and "find_refund (entry_id w) s = None"
    and "find_dispatch (Some (rev_id d)) s = Some row" and "reversed_by s reason owner a row"
  shows "(balance a - amount w \<le> MAX_CREDIT_BALANCE \<longrightarrow>
      (\<exists>e s'. refundDispatchAward d owner boundary reason actor s =
          Inr (Refunded (owner_actorType owner) (acc_id a) (- amount w) (entry_id w) e reason, s')
        \<and> ledger s' = ledger s @ [e] \<and> amount e = - amount w
        \<and> balance_of s' = (balance_of s)(acc_id a \<mapsto> balance a - amount w)
        \<and> service_sum (acc_id a) (rev_id d) (ledger s') = 0))
    \<and> (MAX_CREDIT_BALANCE < balance a - amount w \<longrightarrow>
        refundDispatchAward d owner boundary reason actor s = Inl (CreditDomain CREDIT_BALANCE_LIMIT))"
proof (intro conjI impI)
  let ?m = "service_movement SERVICE_REFUND (acc_id a) (- amount w) (balance a)
              (balance a + - amount w) (rev_id d) (Some (entry_id w)) (Some reason) actor"
  note a = owner_account_Some [OF assms(3,2)]
  note w = find_award_Some [OF assms(4)]
  have neg: "amount w < 0" "- 1000000 \<le> amount w" using award_amount [OF assms(1)] w by blast+
  have bal: "fits (balance a)" using assms(1) a(1) by (rule account_fits)
  have acc: "find_account (entry_account w) s = Some a"
    using find_account_in [OF assms(1) a(1)] w by simp
  {
    assume le: "balance a - amount w \<le> MAX_CREDIT_BALANCE"
    have "entry_guard ?m s = None"
      using assms by (intro refund_guard_ok)
    moreover have "entry_check ?m"
      using bal le neg by (intro refund_check_ok) (auto simp: fits_def MAX_CREDIT_BALANCE_def)
    ultimately obtain e s' where i: "insert_entry ?m s = Inr (e, s')"
      and e: "e = ?m\<lparr>entry_id := nextId s, entry_sequence := nextSequence s\<rparr>"
      using insert_entry_succeeds [of s a ?m] assms(1,5) a
      by (auto simp: find_refund_None service_movement_def)
    have "service_sum (acc_id a) (rev_id d) (ledger s) = amount w"
      using service_sum_award [OF assms(1), of w] w assms(5)
      by (auto simp: service_entry_def refunded_def list_ex_iff find_refund_None)
    then have sum: "service_sum (acc_id a) (rev_id d) (ledger s') = 0"
      using insert_entry_frame(10) [OF i] e by (simp add: service_sum_append service_entry_def)
    have bal': "balance_of s' = (balance_of s)(acc_id a \<mapsto> balance a - amount w)"
      using insert_entry_balance(1) [OF i assms(1)] by simp
    have "refundDispatchAward d owner boundary reason actor s =
        Inr (Refunded (owner_actorType owner) (acc_id a) (- amount w) (entry_id w) e reason, s')"
      using assms(3,4,5) i le bal neg acc w
      by (auto simp: refundDispatchAward_def Let_def tx_simps fits_def)
    moreover have "amount e = - amount w" using e by simp
    ultimately show "\<exists>e s'. refundDispatchAward d owner boundary reason actor s =
          Inr (Refunded (owner_actorType owner) (acc_id a) (- amount w) (entry_id w) e reason, s')
        \<and> ledger s' = ledger s @ [e] \<and> amount e = - amount w
        \<and> balance_of s' = (balance_of s)(acc_id a \<mapsto> balance a - amount w)
        \<and> service_sum (acc_id a) (rev_id d) (ledger s') = 0"
      using insert_entry_frame(10) [OF i] sum bal' by blast
  }
  assume "MAX_CREDIT_BALANCE < balance a - amount w"
  then show "refundDispatchAward d owner boundary reason actor s = Inl (CreditDomain CREDIT_BALANCE_LIMIT)"
    using assms(3,4,5) acc bal neg
    by (auto simp: refundDispatchAward_def Let_def tx_simps nextBalance_def fits_def)
qed

text \<open>
  A second refund of the same award is a no-op: once a refund was issued, repeating it by the
  same or by another path (release, cancellation, another author) reports that refund and changes
  nothing.
\<close>

theorem refund_is_idempotent:
  assumes "refundDispatchAward d owner b reason actor s = Inr (Refunded t i c w e q, s')" and "ledger_wf s"
  shows "refundDispatchAward d owner b' reason' actor' s' = Inr (AlreadyRefunded (entry_id e) (amount e), s')"
proof -
  from assms(1) obtain a award locked where
    a: "owner_account owner s = Some a" and f: "find_award (rev_id d) (acc_id a) s = Some award"
    and r: "find_refund (entry_id award) s = None"
    and "find_account (entry_account award) s = Some locked"
    and ins: "insert_entry (service_movement SERVICE_REFUND (entry_account award) (- amount award) (balance locked)
         (balance locked - amount award) (rev_id d) (Some (entry_id award)) (Some reason) actor) s = Inr (e, s')"
  proof (cases rule: refund_Inr [OF assms(1)])
    case (3 a award locked e')
    moreover from this(6) have "e' = e" by simp
    ultimately show ?thesis using that by blast
  qed simp_all
  have e: "is_refund e" "reverses e = Some (entry_id award)" using ins by (auto simp: insert_entry_Inr)
  have "ledger s' = ledger s @ [e]" by (rule insert_entry_frame(10) [OF ins])
  then have "find_award (rev_id d) i s' = find_award (rev_id d) i s"
    "find_refund (entry_id award) s' = Some e" for i
    using r e by (auto simp: find_award_def find_refund_def first_row_append first_row_single split: option.splits)
  moreover obtain a' where "owner_account owner s' = Some a'" "acc_id a' = acc_id a"
    using a by (auto simp: owner_account_after [OF ins])
  ultimately show ?thesis
    using f by (simp add: refundDispatchAward_def Let_def bindT_def readT_def returnT_def)
qed

subsection \<open>Examples\<close>

text \<open>Provider 3 recharged 100 credits and holds dispatch 7, whose frozen cost is 40.\<close>

definition example_recharge :: ledger_entry where
  "example_recharge =
     \<lparr>entry_id = 20, entry_sequence = 0, entry_account = 5, entry_type = RECHARGE, amount = 100,
      balanceBefore = 0, balanceAfter = 100, entry_method = Some CASH, entry_external = None,
      entry_reason = None, entry_reference = None, reverses = None, refundReason = None,
      entry_createdBy = Some 1, entry_key = Some ''recharge-0001'', entry_hash = Some ''h''\<rparr>"

definition example_dispatch :: dispatch where
  "example_dispatch =
     \<lparr>d_status = CLAIMED, d_expiresAt = 5000, searchMaxAttempts = 0, searchAttempt = 0,
      searchStoppedReason = None, d_id = 7, d_request = 30, d_quote = 31, d_openedAt = 0,
      claimedByProvider = Some 3, claimedByIndependent = None, d_claimedAt = Some 1000,
      d_expiredAt = None, d_cancelledAt = None, d_deliveredAt = None, d_deliveredBy = None,
      creditMode = MONETIZED, searchWindowSeconds = None, d_identity = None\<rparr>"

definition example_snapshot :: snapshot where
  "example_snapshot =
     \<lparr>snap_id = 8, snap_dispatch = 7, snap_actor = PROVIDER, snap_policy = 2, snap_policyVersion = 1,
      snap_calculation = FLAT, snap_distance = 4000, snap_billableKm = None, snap_creditsPerKm = None,
      snap_minimumCredits = None, snap_calculatedCredits = None, snap_flatCredits = Some 40,
      snap_range = None, snap_credits = 40\<rparr>"

definition example_account :: "int \<Rightarrow> credit_account" where
  "example_account b =
     \<lparr>acc_id = 5, acc_ownerType = PROVIDER, acc_provider = Some 3, acc_profile = None, balance = b\<rparr>"

definition example_award_db :: db where
  "example_award_db = empty_db\<lparr>dispatches := [example_dispatch], snapshots := [example_snapshot],
     accounts := [example_account 100], ledger := [example_recharge], nextId := 100\<rparr>"

definition example_award :: ledger_entry where
  "example_award =
     (service_movement SERVICE_AWARD 5 (- 40) 100 60 7 None None (Some 1))\<lparr>entry_id := 100, entry_sequence := 1\<rparr>"

text \<open>The same dispatch charged and then released.\<close>

definition example_released :: dispatch where
  "example_released = example_dispatch\<lparr>d_status := OPEN, claimedByProvider := None, d_claimedAt := None\<rparr>"

definition example_refund_db :: db where
  "example_refund_db = empty_db\<lparr>dispatches := [example_released], snapshots := [example_snapshot],
     accounts := [example_account 60], ledger := [example_recharge, example_award],
     nextId := 101, nextSequence := 2\<rparr>"

definition example_reversed :: reversed_dispatch where
  "example_reversed = \<lparr>rev_id = 7, rev_mode = MONETIZED, rev_claimedAt = Some 1000, rev_awards = []\<rparr>"

theorem charge_debits_the_holder_witness:
  "\<exists>e s'. chargeDispatchAward 7 MONETIZED (ProviderOwner 3) 1 example_award_db =
      Inr (Charged PROVIDER 5 40 8 e, s') \<and> balance_of s' 5 = Some 60 \<and> service_sum 5 7 (ledger s') = - 40"
proof -
  have "find_dispatch (Some 7) example_award_db = Some example_dispatch"
    "find_snapshot 7 (owner_actorType (ProviderOwner 3)) example_award_db = Some example_snapshot"
    "owner_account (ProviderOwner 3) example_award_db = Some (example_account 100)"
    "find_award 7 (acc_id (example_account 100)) example_award_db = None"
    "ledger_wf example_award_db" "accounts_wf example_award_db"
    by code_simp+
  from charge_debits_the_holder [OF this(5,6,1) _ _ _ this(2) _ _ this(3,4), of 1]
  show ?thesis
    by (auto simp: example_dispatch_def example_snapshot_def example_account_def MAX_CREDIT_MOVEMENT_def)
qed

theorem refund_restores_the_balance_witness:
  "\<exists>e s'. refundDispatchAward example_reversed (ProviderOwner 3) 3 PROVIDER_RELEASE (Some 1) example_refund_db =
      Inr (Refunded PROVIDER 5 40 100 e PROVIDER_RELEASE, s') \<and> balance_of s' 5 = Some 100
      \<and> service_sum 5 7 (ledger s') = 0"
proof -
  have "ledger_wf example_refund_db" "accounts_wf example_refund_db"
    "owner_account (ProviderOwner 3) example_refund_db = Some (example_account 60)"
    "find_award (rev_id example_reversed) (acc_id (example_account 60)) example_refund_db = Some example_award"
    "find_refund (entry_id example_award) example_refund_db = None"
    "find_dispatch (Some (rev_id example_reversed)) example_refund_db = Some example_released"
    "reversed_by example_refund_db PROVIDER_RELEASE (ProviderOwner 3) (example_account 60) example_released"
    by code_simp+
  from refund_restores_the_balance [OF this, of 3 "Some 1"] show ?thesis
    by (auto simp: example_account_def example_award_def example_reversed_def MAX_CREDIT_BALANCE_def)
qed

fun was_refunded :: "failure + refund_outcome \<times> db \<Rightarrow> bool" where
  "was_refunded (Inr (Refunded t i c w e q, s')) = True"
| "was_refunded _ = False"

theorem refund_is_idempotent_witness:
  "\<exists>(e :: ledger_entry) s'. refundDispatchAward example_reversed (ProviderOwner 3) 3 REFUND_DELIVERY_CANCELLED None s' =
      Inr (AlreadyRefunded (entry_id e) (amount e), s') \<and> length (ledger s') = 3"
proof -
  let ?r = "refundDispatchAward example_reversed (ProviderOwner 3) 3 PROVIDER_RELEASE (Some 1) example_refund_db"
  have "was_refunded ?r" "length (ledger (state_after example_refund_db ?r)) = 3" and wf: "ledger_wf example_refund_db"
    by code_simp+
  then obtain t i c w e q s' where "?r = Inr (Refunded t i c w e q, s')" "length (ledger s') = 3"
    by (cases ?r rule: was_refunded.cases) auto
  with refund_is_idempotent [OF this(1) wf] show ?thesis by blast
qed

end
