(* ===== verification/Dispatch_Guards.thy ===== *)
theory Dispatch_Guards imports Service_Credits begin

text \<open>
  The writes of the dispatch tables as the database performs them: each is the BEFORE triggers, the
  CHECKs, the unique indexes and the AFTER triggers that an UPDATE or INSERT of
  \<open>Dispatch\<close>, \<open>DispatchCandidate\<close> or \<open>DeliveryAssignment\<close> meets, in the order PostgreSQL fires them
  (src/prisma/migrations 20260917000800, 20260918001000, 20260923001600, 20261010000100). The
  functions change the row, the guards decide. \<open>sqlNow\<close> is the clock \<open>dispatch_search_now()\<close> reads.
\<close>

subsection \<open>Dispatches\<close>

definition transition_ok :: "dispatch_status \<Rightarrow> dispatch_status \<Rightarrow> bool" where
  "transition_ok old new \<longleftrightarrow>
     old = new \<or> (old = OPEN \<and> new \<in> {CLAIMED, EXPIRED, CANCELLED}) \<or>
     (old = CLAIMED \<and> new \<in> {OPEN, EXPIRED, CANCELLED, DELIVERED})"

definition claim_of :: "dispatch \<Rightarrow> id option \<times> id option \<times> instant option" where
  "claim_of d = (claimedByProvider d, claimedByIndependent d, d_claimedAt d)"

text \<open>\<open>dispatch_guard\<close>, its UPDATE branch; the conditions are tested in this order.\<close>

definition dispatch_guard :: "dispatch \<Rightarrow> dispatch \<Rightarrow> db \<Rightarrow> raised option" where
  "dispatch_guard old new s =
     (if d_request new \<noteq> d_request old \<or> d_quote new \<noteq> d_quote old \<or> d_openedAt new \<noteq> d_openedAt old
      then Some RAISED_DISPATCH_IMMUTABLE
      else if \<not> transition_ok (d_status old) (d_status new) then Some RAISED_DISPATCH_IMMUTABLE
      else if d_status old \<in> {EXPIRED, CANCELLED, DELIVERED} then Some RAISED_DISPATCH_IMMUTABLE
      else if d_deliveredAt old \<noteq> None \<or> d_deliveredBy old \<noteq> None then Some RAISED_DISPATCH_IMMUTABLE
      else if d_status new = DELIVERED \<and> claim_of new \<noteq> claim_of old then Some RAISED_DISPATCH_INVALID
      else if d_status new \<noteq> DELIVERED \<and> (d_deliveredAt new \<noteq> None \<or> d_deliveredBy new \<noteq> None)
      then Some RAISED_DISPATCH_INVALID
      else if d_status new = CLAIMED \<and> claimedByProvider new \<noteq> None \<and>
        \<not> any_row (\<lambda>c. cand_dispatch c = d_id new \<and> Some (cand_provider c) = claimedByProvider new
             \<and> cand_status c = CAND_CLAIMED) (candidates s)
      then Some RAISED_DISPATCH_INVALID
      else if d_status new = CLAIMED \<and> claimedByIndependent new \<noteq> None \<and>
        \<not> any_row (\<lambda>p. Some (prof_driver p) = claimedByIndependent new \<and> prof_status p = APPROVED) (profiles s)
      then Some RAISED_DISPATCH_INVALID
      else if d_status old = CLAIMED \<and> d_status new \<noteq> CLAIMED \<and>
        any_row (\<lambda>a. asg_dispatch a = d_id new \<and> asg_status a = ASG_ACTIVE) (assignments s)
      then Some RAISED_DISPATCH_HAS_ACTIVE_ASSIGNMENT
      else if d_status new = DELIVERED \<and>
        \<not> any_row (\<lambda>a. asg_dispatch a = d_id new \<and> asg_status a = ASG_COMPLETED \<and> asg_endedAt a \<noteq> None) (assignments s)
      then Some RAISED_DISPATCH_INVALID
      else None)"

text \<open>\<open>dispatch_search_guard\<close>, its UPDATE branch: it may refuse the row or complete it.\<close>

definition status_of_request :: "id \<Rightarrow> db \<Rightarrow> request_status option" where
  "status_of_request i s = map_option req_status (first_row (\<lambda>r. req_id r = i) (requests s))"

definition client_of_request_active :: "id \<Rightarrow> db \<Rightarrow> bool" where
  "client_of_request_active i s \<longleftrightarrow>
     any_row (\<lambda>r. req_id r = i \<and> any_row (\<lambda>c. client_id c = req_client r \<and> client_active c) (clients s)) (requests s)"

definition zone_of_quote_active :: "id \<Rightarrow> db \<Rightarrow> bool" where
  "zone_of_quote_active i s \<longleftrightarrow>
     any_row (\<lambda>q. quote_id q = i \<and> List.member (zones_active s) (quote_zone q)) (quotes s)"

definition window_millis :: "dispatch \<Rightarrow> int" where
  "window_millis d = 1000 * (case searchWindowSeconds d of None \<Rightarrow> 0 | Some n \<Rightarrow> n)"

definition search_window :: "instant \<Rightarrow> dispatch \<Rightarrow> dispatch \<Rightarrow> db \<Rightarrow> raised + dispatch" where
  "search_window sqlNow old new s =
     (if searchAttempt new \<noteq> searchAttempt old then
        if d_status old \<noteq> OPEN \<or> d_status new \<noteq> OPEN \<or> searchStoppedReason old \<noteq> None
           \<or> d_claimedAt old \<noteq> None \<or> status_of_request (d_request old) s \<noteq> Some CREATED
           \<or> sqlNow < d_expiresAt old \<or> searchAttempt new \<noteq> searchAttempt old + 1
           \<or> searchAttempt new > 5 \<or> searchStoppedReason new \<noteq> None
        then Inl RAISED_SEARCH_RETRY_INVALID
        else if \<not> client_of_request_active (d_request old) s \<or> \<not> zone_of_quote_active (d_quote old) s
        then Inl RAISED_SEARCH_UNAVAILABLE
        else Inr (new\<lparr>d_expiresAt := sqlNow + window_millis old\<rparr>)
      else if d_expiresAt new \<noteq> d_expiresAt old then Inl RAISED_SEARCH_WINDOW
      else Inr new)"

definition search_stop :: "instant \<Rightarrow> dispatch \<Rightarrow> dispatch \<Rightarrow> db \<Rightarrow> raised + dispatch" where
  "search_stop sqlNow old new s =
     (if d_status old = OPEN \<and> d_status new = CLAIMED then
        if d_expiresAt old \<le> sqlNow then
          if searchAttempt old < 5 \<and> searchStoppedReason old = None
          then Inl RAISED_SEARCH_CLAIM_RETRY_PENDING
          else Inl RAISED_SEARCH_CLAIM_EXPIRED
        else Inr (new\<lparr>searchStoppedReason :=
               (case searchStoppedReason old of None \<Rightarrow> Some EXECUTOR_FOUND | r \<Rightarrow> r)\<rparr>)
      else if searchStoppedReason old = None \<and>
        (d_status new = CANCELLED \<or> status_of_request (d_request old) s = Some REQ_CANCELLED)
      then Inr (new\<lparr>searchStoppedReason := Some REQUEST_CANCELLED\<rparr>)
      else if searchStoppedReason old = None \<and> d_status new = EXPIRED then
        (case searchStoppedReason new of
           None \<Rightarrow>
             if searchAttempt old < 5 \<or> sqlNow < d_expiresAt old then Inl RAISED_SEARCH_RETRY_PENDING
             else Inr (new\<lparr>searchStoppedReason := Some EXHAUSTED\<rparr>)
         | Some r \<Rightarrow>
             if r \<notin> {SERVICE_UNAVAILABLE, INTEGRATION_UNAVAILABLE} then Inl RAISED_SEARCH_STOP_INVALID
             else Inr new)
      else if searchStoppedReason old = None \<and> searchStoppedReason new \<noteq> None
      then Inl RAISED_SEARCH_STOP_INVALID
      else Inr new)"

definition search_guard :: "instant \<Rightarrow> dispatch \<Rightarrow> dispatch \<Rightarrow> db \<Rightarrow> raised + dispatch" where
  "search_guard sqlNow old new s =
     (if searchMaxAttempts new \<noteq> searchMaxAttempts old \<or> searchWindowSeconds new \<noteq> searchWindowSeconds old
      then Inl RAISED_SEARCH_POLICY_IMMUTABLE
      else if searchMaxAttempts old = 1 then
        if d_expiresAt new \<noteq> d_expiresAt old then Inl RAISED_DISPATCH_IMMUTABLE else Inr new
      else if searchStoppedReason old \<noteq> None \<and> searchStoppedReason new \<noteq> searchStoppedReason old
      then Inl RAISED_SEARCH_HISTORY_IMMUTABLE
      else
        (case search_window sqlNow old new s of
           Inl r \<Rightarrow> Inl r
         | Inr new1 \<Rightarrow> search_stop sqlNow old new1 s))"

text \<open>
  \<open>dispatch_public_execution_guard\<close>: the completion freezes the public names of who delivered,
  read from the assignment that was completed with it.
\<close>

definition delivered_rows :: "dispatch \<Rightarrow> db \<Rightarrow> (assignment \<times> driver) list" where
  "delivered_rows d s =
     concat (map (\<lambda>a. map (Pair a) (filter (\<lambda>r. drv_id r = asg_driver a) (drivers s)))
       (filter (\<lambda>a. asg_dispatch a = d_id d \<and> asg_status a = ASG_COMPLETED \<and> asg_endedAt a = d_deliveredAt d
          \<and> asg_endedBy a = d_deliveredBy d
          \<and> (if asg_mode a = FLEET then asg_provider a = claimedByProvider d
              else Some (asg_driver a) = claimedByIndependent d)) (assignments s)))"

definition identity_of :: "assignment \<times> driver \<Rightarrow> db \<Rightarrow> execution_identity" where
  "identity_of = (\<lambda>(a, r) s.
     \<lparr>id_mode = (if asg_mode a = FLEET then ByProvider else ByIndependent),
      id_provider =
        (if asg_mode a = FLEET then
           (case first_row (\<lambda>p. Some (prov_id p) = asg_provider a) (providers s) of
              None \<Rightarrow> None
            | Some p \<Rightarrow> if btrim (prov_name p) = [] then None else Some (prov_name p))
         else None),
      id_driver = drv_displayName r\<rparr>)"

definition public_execution_guard :: "dispatch \<Rightarrow> dispatch \<Rightarrow> db \<Rightarrow> sql_fault + dispatch" where
  "public_execution_guard old new s =
     (if d_identity new \<noteq> d_identity old then Inl (RaiseException RAISED_PUBLIC_EXECUTION_IMMUTABLE)
      else if d_status old = CLAIMED \<and> d_status new = DELIVERED then
        (case delivered_rows new s of
           [r] \<Rightarrow> Inr (new\<lparr>d_identity := Some (identity_of r s)\<rparr>)
         | _ \<Rightarrow> Inl StrictViolation)
      else Inr new)"

text \<open>\<open>Dispatch_values_check\<close> and \<open>Dispatch_search_shape\<close>.\<close>

definition no_claim :: "dispatch \<Rightarrow> bool" where
  "no_claim d \<longleftrightarrow> claimedByProvider d = None \<and> claimedByIndependent d = None"

definition one_claim :: "dispatch \<Rightarrow> bool" where
  "one_claim d \<longleftrightarrow> (claimedByProvider d = None) \<noteq> (claimedByIndependent d = None)"

definition dispatch_check :: "dispatch \<Rightarrow> bool" where
  "dispatch_check d \<longleftrightarrow>
     d_openedAt d < d_expiresAt d \<and>
     (no_claim d \<or> one_claim d) \<and>
     (d_status d \<noteq> OPEN \<or> (no_claim d \<and> d_claimedAt d = None \<and> d_expiredAt d = None \<and> d_cancelledAt d = None)) \<and>
     (d_status d \<noteq> CLAIMED \<or> (one_claim d \<and> d_claimedAt d \<noteq> None \<and> d_expiredAt d = None \<and> d_cancelledAt d = None)) \<and>
     (d_status d \<noteq> EXPIRED \<or> (d_expiredAt d \<noteq> None \<and> no_claim d \<and> d_cancelledAt d = None)) \<and>
     (d_status d \<noteq> CANCELLED \<or> (d_cancelledAt d \<noteq> None \<and> d_expiredAt d = None)) \<and>
     (d_status d \<noteq> DELIVERED \<or> (one_claim d \<and> d_claimedAt d \<noteq> None \<and> d_deliveredAt d \<noteq> None \<and>
        d_deliveredBy d \<noteq> None \<and> d_expiredAt d = None \<and> d_cancelledAt d = None)) \<and>
     (d_status d = DELIVERED \<or> (d_deliveredAt d = None \<and> d_deliveredBy d = None))"

definition search_shape :: "dispatch \<Rightarrow> bool" where
  "search_shape d \<longleftrightarrow>
     (searchMaxAttempts d = 1 \<and> searchAttempt d = 1 \<and> searchWindowSeconds d = None \<and> searchStoppedReason d = None) \<or>
     (searchMaxAttempts d = 5 \<and> 1 \<le> searchAttempt d \<and> searchAttempt d \<le> 5 \<and>
      (case searchWindowSeconds d of None \<Rightarrow> False | Some n \<Rightarrow> 60 \<le> n \<and> n \<le> 86400))"

text \<open>
  \<open>dispatch_search_record\<close>, AFTER INSERT or UPDATE: a new attempt records the providers that are
  eligible now as its round, which \<open>dispatch_search_round_guard\<close> and its key then check.
\<close>

definition eligible_now :: "id \<Rightarrow> db \<Rightarrow> id list" where
  "eligible_now quote s =
     (case first_row (\<lambda>q. quote_id q = quote) (quotes s) of
        None \<Rightarrow> []
      | Some q \<Rightarrow>
          sort (map prov_id (filter (\<lambda>p. prov_active p \<and> any_row (\<lambda>c. cov_provider c = prov_id p
            \<and> cov_zone c = quote_zone q \<and> cov_service c = quote_service q \<and> cov_active c) (coverages s)) (providers s))))"

definition record_round :: "dispatch \<Rightarrow> unit dtx" where
  "record_round d =
     (if searchMaxAttempts d \<noteq> 5 then returnT ()
      else
        bindT (readT (\<lambda>s.
          \<lparr>round_dispatch = d_id d, round_attempt = searchAttempt d,
           round_openedAt = (if searchAttempt d = 1 then d_openedAt d else d_expiresAt d - window_millis d),
           round_expiresAt = d_expiresAt d, round_providers = eligible_now (d_quote d) s\<rparr>)) (\<lambda>r.
        bindT (raiseT (d_status d \<noteq> OPEN \<or> round_openedAt r \<noteq> d_expiresAt d - window_millis d)
          RAISED_SEARCH_ROUND_INVALID) (\<lambda>_.
        bindT getT (\<lambda>s.
        bindT (uniqueT (\<not> any_row (\<lambda>q. round_dispatch q = d_id d \<and> round_attempt q = searchAttempt d) (rounds s))) (\<lambda>_.
        bindT (checkT (round_openedAt r < round_expiresAt r)) (\<lambda>_.
        (\<lambda>s. Inr ((), s\<lparr>rounds := rounds s @ [r]\<rparr>))))))))"

text \<open>
  The part of the deferred \<open>dispatch_award_integrity\<close> that guards the historical exemptions (20260923000200):
  a new claim may not reuse one. The rest of that trigger and \<open>dispatch_award_refund_required\<close> run at COMMIT
  and are in Award_Triggers. Its condition reads the row and immutable history only, so that
  evaluating it with the statement or at COMMIT is the same.
\<close>

definition claim_actor :: "dispatch \<Rightarrow> actor_type \<times> id option" where
  "claim_actor d =
     (case claimedByProvider d of
        Some p \<Rightarrow> (PROVIDER, Some p)
      | None \<Rightarrow> (INDEPENDENT_DRIVER, claimedByIndependent d))"

definition exempt :: "pre_award list \<Rightarrow> dispatch \<Rightarrow> bool" where
  "exempt history d \<longleftrightarrow>
     list_ex (\<lambda>h. pre_dispatch h = d_id d \<and> (pre_actorType h, Some (pre_actorId h)) = claim_actor d
       \<and> Some (pre_awardedAt h) = d_claimedAt d) history"

definition award_history_guard :: "dispatch \<Rightarrow> dispatch \<Rightarrow> db \<Rightarrow> raised option" where
  "award_history_guard old new s =
     (if creditMode new = MONETIZED \<and> d_claimedAt new \<noteq> None \<and> claim_of new \<noteq> claim_of old
         \<and> exempt (preAwards s) new
      then Some RAISED_CREDIT_HISTORY_IMMUTABLE else None)"

definition store_dispatch :: "dispatch \<Rightarrow> unit dtx" where
  "store_dispatch new s =
     Inr ((), s\<lparr>dispatches := update_rows (\<lambda>d. d_id d = d_id new) (\<lambda>_. new) (dispatches s)\<rparr>)"

text \<open>A trigger that refuses the row or replaces it.\<close>

definition sum_raise :: "raised + 'a \<Rightarrow> 'a dtx" where
  "sum_raise r = (case r of Inl e \<Rightarrow> throwT (Sql (RaiseException e)) | Inr a \<Rightarrow> returnT a)"

definition sum_fault :: "sql_fault + 'a \<Rightarrow> 'a dtx" where
  "sum_fault r = (case r of Inl e \<Rightarrow> throwT (Sql e) | Inr a \<Rightarrow> returnT a)"

definition update_dispatch :: "instant \<Rightarrow> id \<Rightarrow> (dispatch \<Rightarrow> dispatch) \<Rightarrow> unit dtx" where
  "update_dispatch sqlNow i change =
     bindT (requireT (find_dispatch (Some i)) NotFound) (\<lambda>old.
     bindT (raiseT (creditMode (change old) \<noteq> creditMode old) RAISED_CREDIT_MODE_IMMUTABLE) (\<lambda>_.
     bindT (raise_some (dispatch_guard old (change old))) (\<lambda>_.
     bindT (readT (public_execution_guard old (change old))) (\<lambda>identified.
     bindT (sum_fault identified) (\<lambda>new0.
     bindT (readT (search_guard sqlNow old new0)) (\<lambda>guarded.
     bindT (sum_raise guarded) (\<lambda>new.
     bindT (checkT (dispatch_check new \<and> search_shape new)) (\<lambda>_.
     bindT (store_dispatch new) (\<lambda>_.
     bindT (if searchAttempt new = searchAttempt old then returnT () else record_round new) (\<lambda>_.
     raise_some (award_history_guard old new)))))))))))"

subsection \<open>Candidates\<close>

text \<open>\<open>DispatchCandidate_values_check\<close>; the free text \<open>releaseReason\<close> and the limit of its length are left out.\<close>

definition candidate_check :: "candidate \<Rightarrow> bool" where
  "candidate_check c \<longleftrightarrow>
     (case cand_status c of
        CAND_OFFERED \<Rightarrow> cand_claimedAt c = None \<and> cand_releasedAt c = None
      | CAND_CLAIMED \<Rightarrow> cand_claimedAt c \<noteq> None \<and> cand_releasedAt c = None
      | CAND_RELEASED \<Rightarrow> cand_claimedAt c \<noteq> None \<and> cand_releasedAt c \<noteq> None)"

definition candidate_guard :: "candidate \<Rightarrow> candidate \<Rightarrow> raised option" where
  "candidate_guard old new =
     (if cand_dispatch new \<noteq> cand_dispatch old \<or> cand_provider new \<noteq> cand_provider old
         \<or> cand_offeredAt new \<noteq> cand_offeredAt old
      then Some RAISED_CANDIDATE_IMMUTABLE
      else if cand_status new \<noteq> cand_status old \<and>
        \<not> ((cand_status old = CAND_OFFERED \<and> cand_status new = CAND_CLAIMED) \<or>
           (cand_status old = CAND_CLAIMED \<and> cand_status new = CAND_RELEASED))
      then Some RAISED_CANDIDATE_IMMUTABLE
      else None)"

abbreviation is_candidate :: "id \<Rightarrow> id \<Rightarrow> candidate \<Rightarrow> bool" where
  "is_candidate d p c \<equiv> cand_dispatch c = d \<and> cand_provider c = p"

definition find_candidate :: "id \<Rightarrow> id \<Rightarrow> db \<Rightarrow> candidate option" where
  "find_candidate d p s = first_row (is_candidate d p) (candidates s)"

definition update_candidate :: "id \<Rightarrow> id \<Rightarrow> (candidate \<Rightarrow> candidate) \<Rightarrow> unit dtx" where
  "update_candidate d p change =
     bindT (requireT (find_candidate d p) NotFound) (\<lambda>old.
     bindT (raise_some (\<lambda>_. candidate_guard old (change old))) (\<lambda>_.
     bindT (checkT (candidate_check (change old))) (\<lambda>_.
     bindT getT (\<lambda>s.
     bindT (uniqueT (cand_status (change old) \<noteq> CAND_CLAIMED \<or>
        \<not> any_row (\<lambda>c. cand_dispatch c = d \<and> cand_provider c \<noteq> p \<and> cand_status c = CAND_CLAIMED) (candidates s))) (\<lambda>_.
     (\<lambda>s. Inr ((), s\<lparr>candidates := update_rows (is_candidate d p) (\<lambda>_. change old) (candidates s)\<rparr>)))))))"

text \<open>\<open>createMany\<close>; with \<open>skipDuplicates\<close> a provider that is a candidate already is left alone.\<close>

definition insert_candidate :: "bool \<Rightarrow> id \<Rightarrow> instant \<Rightarrow> id \<Rightarrow> unit dtx" where
  "insert_candidate skipDuplicates d at p =
     bindT getT (\<lambda>s.
     bindT (raiseT (\<not> any_row (\<lambda>r. d_id r = d \<and> d_status r = OPEN) (dispatches s)) RAISED_CANDIDATE_INVALID) (\<lambda>_.
     if skipDuplicates \<and> any_row (is_candidate d p) (candidates s) then returnT ()
     else
       bindT (uniqueT (\<not> any_row (is_candidate d p) (candidates s))) (\<lambda>_.
       (\<lambda>s. Inr ((), s\<lparr>candidates := candidates s @
          [\<lparr>cand_dispatch = d, cand_provider = p, cand_status = CAND_OFFERED, cand_offeredAt = at,
            cand_claimedAt = None, cand_releasedAt = None\<rparr>]\<rparr>)))))"

subsection \<open>Assignments\<close>

definition assignment_check :: "assignment \<Rightarrow> bool" where
  "assignment_check a \<longleftrightarrow>
     (case asg_status a of
        ASG_ACTIVE \<Rightarrow> asg_endedAt a = None \<and> asg_endedBy a = None \<and> asg_endReason a = None
      | ASG_COMPLETED \<Rightarrow> (case asg_endedAt a of None \<Rightarrow> False | Some t \<Rightarrow> asg_assignedAt a \<le> t) \<and>
          asg_endedBy a \<noteq> None \<and> asg_endReason a = None
      | _ \<Rightarrow> (case asg_endedAt a of None \<Rightarrow> False | Some t \<Rightarrow> asg_assignedAt a \<le> t) \<and> asg_endReason a \<noteq> None) \<and>
     (asg_status a \<noteq> ASG_REASSIGNED \<or> asg_endReason a \<noteq> Some DELIVERY_CANCELLED) \<and>
     (if asg_mode a = FLEET then asg_provider a \<noteq> None \<and> asg_profile a = None
      else asg_provider a = None \<and> asg_profile a \<noteq> None)"

definition assignment_insert_guard :: "assignment \<Rightarrow> db \<Rightarrow> raised option" where
  "assignment_insert_guard a s =
     (let d = find_dispatch (Some (asg_dispatch a)) s;
          v = first_row (\<lambda>v. veh_id v = asg_vehicle a) (vehicles s) in
      if asg_status a \<noteq> ASG_ACTIVE \<or> map_option d_status d \<noteq> Some CLAIMED then Some RAISED_ASSIGNMENT_INVALID
      else if asg_mode a = FLEET then
        if Option.bind d claimedByProvider \<noteq> asg_provider a then Some RAISED_ASSIGNMENT_INVALID
        else if Option.bind (first_row (\<lambda>r. drv_id r = asg_driver a) (drivers s)) drv_provider \<noteq> asg_provider a
           \<or> Option.bind v veh_provider \<noteq> asg_provider a
        then Some RAISED_ASSIGNMENT_INVALID else None
      else
        if \<not> any_row (\<lambda>p. Some (prof_id p) = asg_profile a \<and> prof_status p = APPROVED \<and> prof_driver p = asg_driver a) (profiles s)
        then Some RAISED_ASSIGNMENT_INVALID
        else if Option.bind d claimedByIndependent \<noteq> Some (asg_driver a) then Some RAISED_ASSIGNMENT_INVALID
        else if Option.bind v veh_profile \<noteq> asg_profile a then Some RAISED_ASSIGNMENT_INVALID
        else None)"

definition assignment_update_guard :: "assignment \<Rightarrow> assignment \<Rightarrow> raised option" where
  "assignment_update_guard old new =
     (if asg_dispatch new \<noteq> asg_dispatch old \<or> asg_mode new \<noteq> asg_mode old \<or> asg_provider new \<noteq> asg_provider old
         \<or> asg_profile new \<noteq> asg_profile old \<or> asg_driver new \<noteq> asg_driver old \<or> asg_vehicle new \<noteq> asg_vehicle old
         \<or> asg_assignedAt new \<noteq> asg_assignedAt old \<or> asg_assignedBy new \<noteq> asg_assignedBy old
      then Some RAISED_ASSIGNMENT_IMMUTABLE
      else if asg_status old \<noteq> ASG_ACTIVE then Some RAISED_ASSIGNMENT_IMMUTABLE
      else None)"

abbreviation active :: "assignment \<Rightarrow> bool" where
  "active a \<equiv> asg_status a = ASG_ACTIVE"

text \<open>The partial unique indexes: one ACTIVE row per dispatch, driver and vehicle, one independent
  award per dispatch and driver.\<close>

definition assignment_unique :: "assignment \<Rightarrow> assignment list \<Rightarrow> bool" where
  "assignment_unique a rows \<longleftrightarrow>
     \<not> any_row (\<lambda>x. asg_id x = asg_id a
       \<or> (active x \<and> active a \<and> (asg_dispatch x = asg_dispatch a \<or> asg_driver x = asg_driver a \<or> asg_vehicle x = asg_vehicle a))
       \<or> (asg_mode x = INDEPENDENT \<and> asg_mode a = INDEPENDENT \<and> asg_dispatch x = asg_dispatch a \<and> asg_driver x = asg_driver a)) rows"

definition insert_assignment :: "assignment \<Rightarrow> id dtx" where
  "insert_assignment a0 =
     bindT newId (\<lambda>i.
     bindT (readT (\<lambda>_. a0\<lparr>asg_id := i\<rparr>)) (\<lambda>a.
     bindT (raise_some (assignment_insert_guard a)) (\<lambda>_.
     bindT (checkT (assignment_check a)) (\<lambda>_.
     bindT getT (\<lambda>s.
     bindT (uniqueT (assignment_unique a (assignments s))) (\<lambda>_.
     bindT (\<lambda>s. Inr ((), s\<lparr>assignments := assignments s @ [a]\<rparr>)) (\<lambda>_.
     returnT i)))))))"

definition update_assignment :: "id \<Rightarrow> (assignment \<Rightarrow> assignment) \<Rightarrow> unit dtx" where
  "update_assignment i change =
     bindT (requireT (\<lambda>s. first_row (\<lambda>a. asg_id a = i) (assignments s)) NotFound) (\<lambda>old.
     bindT (raise_some (\<lambda>_. assignment_update_guard old (change old))) (\<lambda>_.
     bindT (checkT (assignment_check (change old))) (\<lambda>_.
     (\<lambda>s. Inr ((), s\<lparr>assignments := update_rows (\<lambda>a. asg_id a = i) (\<lambda>_. change old) (assignments s)\<rparr>)))))"

subsection \<open>What a successful write did\<close>

lemma sum_raise_Inr [tx_simps]: "sum_raise r s = Inr (a, s') \<longleftrightarrow> r = Inr a \<and> s' = s"
  by (cases r) (auto simp: sum_raise_def tx_simps)

lemma sum_raise_Inl [tx_simps]: "sum_raise r s = Inl f \<longleftrightarrow> (\<exists>e. r = Inl e \<and> f = Sql (RaiseException e))"
  by (cases r) (auto simp: sum_raise_def tx_simps)

lemma sum_fault_Inr [tx_simps]: "sum_fault r s = Inr (a, s') \<longleftrightarrow> r = Inr a \<and> s' = s"
  by (cases r) (auto simp: sum_fault_def tx_simps)

lemma sum_fault_Inl [tx_simps]: "sum_fault r s = Inl f \<longleftrightarrow> (\<exists>e. r = Inl e \<and> f = Sql e)"
  by (cases r) (auto simp: sum_fault_def tx_simps)

text \<open>The guards complete at most the window, the reason of the stop and the public identity.\<close>

definition core :: "dispatch \<Rightarrow> dispatch" where
  "core d = d\<lparr>d_expiresAt := 0, searchStoppedReason := None, d_identity := None\<rparr>"

lemma core_update [simp]:
  "core (d\<lparr>d_expiresAt := t\<rparr>) = core d" "core (d\<lparr>searchStoppedReason := r\<rparr>) = core d"
  "core (d\<lparr>d_identity := i\<rparr>) = core d"
  by (simp_all add: core_def)

lemma core_sel:
  "d_status (core d) = d_status d"
  "d_id (core d) = d_id d"
  "d_request (core d) = d_request d"
  "d_quote (core d) = d_quote d"
  "claimedByProvider (core d) = claimedByProvider d"
  "claimedByIndependent (core d) = claimedByIndependent d"
  "d_claimedAt (core d) = d_claimedAt d"
  "creditMode (core d) = creditMode d"
  "searchAttempt (core d) = searchAttempt d"
  "searchMaxAttempts (core d) = searchMaxAttempts d"
  "d_openedAt (core d) = d_openedAt d"
  "d_expiredAt (core d) = d_expiredAt d"
  "d_cancelledAt (core d) = d_cancelledAt d"
  "d_deliveredAt (core d) = d_deliveredAt d"
  "d_deliveredBy (core d) = d_deliveredBy d"
  "searchWindowSeconds (core d) = searchWindowSeconds d"
  by (simp_all add: core_def)

lemma coreD:
  assumes "core a = core b"
  shows "d_status a = d_status b" "d_id a = d_id b" "d_request a = d_request b" "d_quote a = d_quote b"
    "claimedByProvider a = claimedByProvider b" "claimedByIndependent a = claimedByIndependent b"
    "d_claimedAt a = d_claimedAt b" "creditMode a = creditMode b" "searchAttempt a = searchAttempt b"
    "searchMaxAttempts a = searchMaxAttempts b" "d_openedAt a = d_openedAt b"
    "d_expiredAt a = d_expiredAt b" "d_cancelledAt a = d_cancelledAt b" "d_deliveredAt a = d_deliveredAt b"
    "d_deliveredBy a = d_deliveredBy b" "searchWindowSeconds a = searchWindowSeconds b"
  using assms by (metis core_sel)+

lemma search_stop_core: "search_stop sqlNow old n s = Inr n' \<Longrightarrow> core n' = core n"
  unfolding search_stop_def by (auto split: if_splits option.splits)

lemma search_window_core: "search_window sqlNow old n s = Inr n' \<Longrightarrow> core n' = core n"
  unfolding search_window_def by (auto split: if_splits)

lemma search_guard_core: "search_guard sqlNow old n s = Inr n' \<Longrightarrow> core n' = core n"
  unfolding search_guard_def
  by (auto split: if_splits sum.splits dest!: search_window_core search_stop_core)

lemma public_execution_guard_core: "public_execution_guard old n s = Inr n' \<Longrightarrow> core n' = core n"
  unfolding public_execution_guard_def by (auto split: if_splits list.splits)

lemma record_round_frame:
  "record_round d s = Inr (u, s') \<Longrightarrow> \<exists>rs. s' = s\<lparr>rounds := rs\<rparr>"
  by (auto simp: record_round_def tx_simps split: if_splits intro: exI [where x = "rounds s"])

text \<open>
  A dispatch row that was updated: the stored row has the core the handler asked for, it passed the
  guards, and nothing else but the rounds changed.
\<close>

lemma update_dispatch_Inr:
  assumes "update_dispatch sqlNow i change s = Inr (u, s')"
  obtains old new rs where "find_dispatch (Some i) s = Some old" "core new = core (change old)"
    "dispatch_guard old (change old) s = None" "dispatch_check new" "search_shape new"
    "creditMode (change old) = creditMode old"
    "award_history_guard old new s' = None"
    "s' = s\<lparr>dispatches := update_rows (\<lambda>d. d_id d = d_id new) (\<lambda>_. new) (dispatches s), rounds := rs\<rparr>"
proof -
  from assms obtain old new0 new s1 where
    old: "find_dispatch (Some i) s = Some old" and g: "dispatch_guard old (change old) s = None"
    and pg: "public_execution_guard old (change old) s = Inr new0"
    and sg: "search_guard sqlNow old new0 s = Inr new" and c: "dispatch_check new" "search_shape new"
    and m: "creditMode (change old) = creditMode old"
    and st: "store_dispatch new s = Inr ((), s1)"
    and r: "(if searchAttempt new = searchAttempt old then returnT () else record_round new) s1 = Inr ((), s')"
    and h: "award_history_guard old new s' = None"
    by (auto simp: update_dispatch_def tx_simps)
  have "\<exists>rs. s' = s1\<lparr>rounds := rs\<rparr>"
    using r record_round_frame by (auto simp: tx_simps split: if_splits intro: exI [where x = "rounds s1"])
  with st obtain rs where "s' = s\<lparr>dispatches := update_rows (\<lambda>d. d_id d = d_id new) (\<lambda>_. new) (dispatches s), rounds := rs\<rparr>"
    by (auto simp: store_dispatch_def)
  moreover have "core new = core (change old)"
    using search_guard_core [OF sg] public_execution_guard_core [OF pg] by simp
  ultimately show ?thesis using old g c m h that by blast
qed

end
