(* ===== verification/Award_Economy.thy ===== *)
theory Award_Economy imports Dispatch_Guards begin

text \<open>
  Who pays for a dispatch, and the balance between the dispatches and the ledger. \<open>economy\<close> states
  what the award and refund code is for: on every account, a dispatch costs its frozen price while
  that account's owner holds or delivered it, and nothing otherwise. The lemmas show that a claim
  followed by its charge, and a reversal followed by its refund, keep it.
\<close>

text \<open>\<open>cancelledDispatchOwner\<close> of dispatch-policy.ts: the actor that holds a dispatch, as the owner of an
  account, and the id the enforcement boundary knows it by.\<close>

definition cancelledDispatchOwner :: "dispatch \<Rightarrow> db \<Rightarrow> (award_owner \<times> id) option" where
  "cancelledDispatchOwner row s =
     (case claimedByProvider row of
        Some p \<Rightarrow> Some (ProviderOwner p, p)
      | None \<Rightarrow>
          (case claimedByIndependent row of
             None \<Rightarrow> None
           | Some driver \<Rightarrow>
               map_option (\<lambda>p. (IndependentOwner (prof_id p), driver))
                 (first_row (\<lambda>p. prof_driver p = driver) (profiles s))))"

definition holder :: "dispatch \<Rightarrow> db \<Rightarrow> award_owner option" where
  "holder row s = map_option fst (cancelledDispatchOwner row s)"

definition holder_account :: "dispatch \<Rightarrow> db \<Rightarrow> credit_account option" where
  "holder_account row s = Option.bind (holder row s) (\<lambda>owner. owner_account owner s)"

definition price :: "dispatch \<Rightarrow> db \<Rightarrow> int" where
  "price row s =
     (case Option.bind (holder row s) (\<lambda>owner. find_snapshot (d_id row) (owner_actorType owner) s) of
        None \<Rightarrow> 0
      | Some x \<Rightarrow> snap_credits x)"

text \<open>Whether an account owes for a dispatch: its owner holds or delivered it, it is monetized, and the
  award is not one of the historical ones.\<close>

definition owes :: "dispatch \<Rightarrow> id \<Rightarrow> db \<Rightarrow> bool" where
  "owes row i s \<longleftrightarrow>
     d_status row \<in> {CLAIMED, DELIVERED} \<and> creditMode row = MONETIZED \<and> \<not> exempt (preAwards s) row \<and>
     map_option acc_id (holder_account row s) = Some i"

definition economy :: "db \<Rightarrow> bool" where
  "economy s \<longleftrightarrow>
     list_all (\<lambda>row. list_all (\<lambda>a.
       service_sum (acc_id a) (d_id row) (ledger s) = (if owes row (acc_id a) s then - price row s else 0))
       (accounts s)) (dispatches s)"

lemma economyD:
  "economy s \<Longrightarrow> row \<in> set (dispatches s) \<Longrightarrow> a \<in> set (accounts s) \<Longrightarrow>
     service_sum (acc_id a) (d_id row) (ledger s) = (if owes row (acc_id a) s then - price row s else 0)"
  by (auto simp: economy_def list_all_iff)

subsection \<open>States with the same owners\<close>

definition profile_key :: "profile \<Rightarrow> id \<times> id" where
  "profile_key p = (prof_id p, prof_driver p)"

definition same_owners :: "db \<Rightarrow> db \<Rightarrow> bool" where
  "same_owners s t \<longleftrightarrow>
     map profile_key (profiles t) = map profile_key (profiles s) \<and> preAwards t = preAwards s \<and>
     snapshots t = snapshots s \<and> map acc_id (accounts t) = map acc_id (accounts s) \<and>
     (\<forall>owner. map_option acc_id (owner_account owner t) = map_option acc_id (owner_account owner s))"

lemma same_owners_refl: "same_owners s s"
  by (simp add: same_owners_def)

lemma same_owners_trans: "same_owners s t \<Longrightarrow> same_owners t u \<Longrightarrow> same_owners s u"
  by (simp add: same_owners_def)

lemma same_owners_account:
  assumes "same_owners s t" "a \<in> set (accounts t)"
  obtains b where "b \<in> set (accounts s)" "acc_id b = acc_id a"
proof -
  have "acc_id a \<in> set (map acc_id (accounts t))" using assms(2) by simp
  also have "map acc_id (accounts t) = map acc_id (accounts s)" using assms(1) by (simp add: same_owners_def)
  finally show ?thesis using that by auto
qed

lemma same_owners_frame:
  "profiles t = profiles s \<Longrightarrow> preAwards t = preAwards s \<Longrightarrow> snapshots t = snapshots s \<Longrightarrow> accounts t = accounts s
   \<Longrightarrow> same_owners s t"
  by (simp add: same_owners_def owner_account_def)

lemma profile_of_driver:
  "map profile_key ps = map profile_key qs \<Longrightarrow>
     map_option prof_id (first_row (\<lambda>p. prof_driver p = i) ps) =
     map_option prof_id (first_row (\<lambda>p. prof_driver p = i) qs)"
proof (induction ps arbitrary: qs)
  case Nil
  then show ?case by simp
next
  case (Cons p ps)
  then obtain q rs where qs: "qs = q # rs" "profile_key p = profile_key q" and "map profile_key ps = map profile_key rs"
    by auto
  from Cons.IH [OF this(3)] qs show ?case
    by (cases "prof_driver p = i") (simp_all add: first_row_def profile_key_def)
qed

lemma same_owners_holder: "same_owners s t \<Longrightarrow> holder row t = holder row s"
proof -
  assume "same_owners s t"
  then have "map_option prof_id (first_row (\<lambda>p. prof_driver p = i) (profiles t)) =
      map_option prof_id (first_row (\<lambda>p. prof_driver p = i) (profiles s))" for i
    by (intro profile_of_driver) (simp add: same_owners_def)
  moreover have "holder row u = (case claimedByProvider row of Some p \<Rightarrow> Some (ProviderOwner p)
      | None \<Rightarrow> Option.bind (claimedByIndependent row) (\<lambda>driver.
          map_option IndependentOwner (map_option prof_id (first_row (\<lambda>p. prof_driver p = driver) (profiles u)))))" for u
    by (auto simp: holder_def cancelledDispatchOwner_def option.map_comp comp_def split: option.splits)
  ultimately show ?thesis
    by (cases "claimedByProvider row"; cases "claimedByIndependent row") simp_all
qed

lemma same_owners_owes: "same_owners s t \<Longrightarrow> owes row i t = owes row i s"
proof -
  assume so: "same_owners s t"
  then have "map_option acc_id (holder_account row t) = map_option acc_id (holder_account row s)"
    by (cases "holder row s") (simp_all add: holder_account_def same_owners_holder [OF so], simp add: same_owners_def)
  with so show ?thesis by (simp add: owes_def same_owners_def)
qed

lemma same_owners_price: "same_owners s t \<Longrightarrow> price row t = price row s"
proof -
  assume so: "same_owners s t"
  have "snapshots t = snapshots s" using so by (simp add: same_owners_def)
  then show ?thesis by (simp add: price_def same_owners_holder [OF so] find_snapshot_def)
qed

lemma insert_entry_same_owners:
  assumes "insert_entry e0 s = Inr (e, s')"
  shows "same_owners s s'"
proof -
  have "map acc_id (accounts s') = map acc_id (accounts s)"
    using assms by (auto simp: insert_entry_Inr intro!: map_update_rows)
  moreover have "map_option acc_id (owner_account owner s') = map_option acc_id (owner_account owner s)" for owner
    unfolding owner_account_after [OF assms] by (cases "owner_account owner s") auto
  ultimately show ?thesis using insert_entry_frame [OF assms] by (simp add: same_owners_def)
qed

text \<open>Only the core of a row matters to who pays for it.\<close>

lemma core_economy:
  assumes "core a = core b"
  shows "holder a s = holder b s" "owes a i s = owes b i s" "price a s = price b s"
proof -
  note f = coreD [OF assms]
  show h: "holder a s = holder b s"
    by (simp add: holder_def cancelledDispatchOwner_def f cong: option.case_cong)
  show "price a s = price b s" by (simp add: price_def h f)
  have "exempt hs a = exempt hs b" for hs 
    by (simp add: exempt_def claim_actor_def f cong: option.case_cong)
  then show "owes a i s = owes b i s" by (simp add: owes_def holder_account_def h f)
qed

subsection \<open>Keeping the economy\<close>

text \<open>
  The common step: one row is replaced, only entries of that dispatch are added, and at the end
  every account owes for that dispatch exactly what the ledger says.
\<close>

lemma economy_settled:
  assumes eco: "economy s" and so: "same_owners s t"
    and ds: "dispatches t = update_rows (\<lambda>d. d_id d = d_id new) (\<lambda>_. new) (dispatches s)"
    and other: "\<And>i j. j \<noteq> d_id new \<Longrightarrow> service_sum i j (ledger t) = service_sum i j (ledger s)"
    and own: "\<And>a. a \<in> set (accounts t) \<Longrightarrow>
      service_sum (acc_id a) (d_id new) (ledger t) = (if owes new (acc_id a) t then - price new t else 0)"
  shows "economy t"
  unfolding economy_def list_all_iff
proof (intro ballI)
  fix row a
  assume row: "row \<in> set (dispatches t)" and a: "a \<in> set (accounts t)"
  from so a obtain b where b: "b \<in> set (accounts s)" "acc_id b = acc_id a"
    by (rule same_owners_account)
  show "service_sum (acc_id a) (d_id row) (ledger t) = (if owes row (acc_id a) t then - price row t else 0)"
  proof (cases "d_id row = d_id new")
    case True
    with row have "row = new" by (auto simp: ds in_update_rows split: if_splits)
    with own [OF a] show ?thesis by simp
  next
    case False
    with row have "row \<in> set (dispatches s)" by (auto simp: ds in_update_rows split: if_splits)
    from economyD [OF eco this b(1)] b(2) other [OF False] show ?thesis
      by (simp add: same_owners_owes [OF so] same_owners_price [OF so])
  qed
qed

text \<open>A row whose payer stays the same.\<close>

lemma economy_kept:
  assumes "economy s" "same_owners s t" "ledger t = ledger s"
    and "dispatches t = update_rows (\<lambda>d. d_id d = d_id new) (\<lambda>_. new) (dispatches s)"
    and "old \<in> set (dispatches s)" "d_id old = d_id new"
    and "\<And>i. owes new i s = owes old i s" "price new s = price old s"
  shows "economy t"
proof (rule economy_settled [OF assms(1,2,4)])
  fix a
  assume "a \<in> set (accounts t)"
  with assms(2) obtain b where b: "b \<in> set (accounts s)" "acc_id b = acc_id a"
    by (rule same_owners_account)
  from economyD [OF assms(1,5) b(1)] b(2) show
    "service_sum (acc_id a) (d_id new) (ledger t) = (if owes new (acc_id a) t then - price new t else 0)"
    using assms(3,6,7,8) by (simp add: same_owners_owes [OF assms(2)] same_owners_price [OF assms(2)])
qed (simp add: assms(3))

text \<open>Changes elsewhere.\<close>

lemma economy_frame:
  assumes eco: "economy s" and so: "same_owners s t" and "dispatches t = dispatches s" "ledger t = ledger s"
  shows "economy t"
  unfolding economy_def list_all_iff
proof (intro ballI)
  fix row a
  assume "row \<in> set (dispatches t)" and a: "a \<in> set (accounts t)"
  from so a obtain b where "b \<in> set (accounts s)" "acc_id b = acc_id a"
    by (rule same_owners_account)
  with economyD [OF eco, of row b] \<open>row \<in> set (dispatches t)\<close> assms(3,4)
  show "service_sum (acc_id a) (d_id row) (ledger t) = (if owes row (acc_id a) t then - price row t else 0)"
    by (simp add: same_owners_owes [OF so] same_owners_price [OF so])
qed

lemma not_owes_open: "d_status row \<notin> {CLAIMED, DELIVERED} \<Longrightarrow> \<not> owes row i s"
  by (auto simp: owes_def)

text \<open>
  A claim and its charge: the row was OPEN, the new row is CLAIMED by an owner whose account then
  pays the frozen price.
\<close>

lemma economy_charged:
  assumes eco: "economy s" and wf: "accounts_wf s"
    and frame: "accounts s1 = accounts s" "ledger s1 = ledger s" "snapshots s1 = snapshots s"
      "preAwards s1 = preAwards s" "profiles s1 = profiles s"
    and ds: "dispatches s1 = update_rows (\<lambda>d. d_id d = d_id new) (\<lambda>_. new) (dispatches s)"
    and old: "old \<in> set (dispatches s)" "d_id old = d_id new" "d_status old = OPEN"
    and new: "d_status new = CLAIMED" "holder new s = Some owner" "creditMode new = mode"
    and hist: "mode = MONETIZED \<Longrightarrow> \<not> exempt (preAwards s) new"
    and ch: "chargeDispatchAward (d_id new) mode owner actor s1 = Inr (out, s')"
  shows "economy s'"
proof -
  have so1: "same_owners s s1" by (rule same_owners_frame) (simp_all add: frame)
  have before: "service_sum (acc_id b) (d_id new) (ledger s) = 0" if "b \<in> set (accounts s)" for b
    using economyD [OF eco old(1) that] old by (simp add: not_owes_open)
  show ?thesis
  proof (cases mode)
    case LEGACY
    with ch have s': "s' = s1" by (simp add: charge_legacy)
    have "\<not> owes new i s1" for i using new(3) LEGACY by (simp add: owes_def)
    with before show ?thesis
      unfolding s' by (intro economy_settled [OF eco so1 ds]) (simp_all add: frame)
  next
    case MONETIZED
    with ch obtain x a e where
      x: "find_snapshot (d_id new) (owner_actorType owner) s1 = Some x" and a: "owner_account owner s1 = Some a"
      and ins: "insert_entry (service_movement SERVICE_AWARD (acc_id a) (- snap_credits x) (balance a)
         (balance a - snap_credits x) (d_id new) None None (Some actor)) s1 = Inr (e, s')"
      by (blast elim: charge_Inr)
    have so: "same_owners s s'" using so1 insert_entry_same_owners [OF ins] by (rule same_owners_trans)
    have e: "ledger s' = ledger s @ [e]" "is_award e" "entry_account e = acc_id a"
      "entry_reference e = Some (d_id new)" "amount e = - snap_credits x"
      using ins frame by (auto simp: insert_entry_Inr)
    have sum: "service_sum i j (ledger s') = service_sum i j (ledger s) +
        (if i = acc_id a \<and> j = d_id new then - snap_credits x else 0)" for i j
      using e by (auto simp: service_sum_append service_entry_def)
    have owner: "owner_account owner s = Some a" using a frame by (simp add: owner_account_def)
    have ow: "owes new i s \<longleftrightarrow> i = acc_id a" for i
      using new owner hist MONETIZED by (auto simp: owes_def holder_account_def)
    have pr: "price new s = snap_credits x"
      using new x frame by (simp add: price_def find_snapshot_def)
    show ?thesis
    proof (rule economy_settled [OF eco so])
      show "dispatches s' = update_rows (\<lambda>d. d_id d = d_id new) (\<lambda>_. new) (dispatches s)"
        using insert_entry_frame(1) [OF ins] ds by simp
    next
      fix b
      assume "b \<in> set (accounts s')"
      with so obtain c where "c \<in> set (accounts s)" "acc_id c = acc_id b"
        by (rule same_owners_account)
      with before [of c] show "service_sum (acc_id b) (d_id new) (ledger s') =
          (if owes new (acc_id b) s' then - price new s' else 0)"
        by (simp add: sum same_owners_owes [OF so] same_owners_price [OF so] ow pr)
    qed (simp add: sum)
  qed
qed

text \<open>After a refund the account of the owner owes nothing for the dispatch.\<close>

lemma refund_sum:
  assumes r: "refundDispatchAward d owner b reason actor s = Inr (out, s')" and wf: "ledger_wf s"
    and a: "owner_account owner s = Some a"
  shows "service_sum (acc_id a) (rev_id d) (ledger s') = 0"
  using r
proof (cases rule: refund_Inr)
  case none
  with a have "find_award (rev_id d) (acc_id a) s = None" by simp
  then show ?thesis
    unfolding none(1) by (intro service_sum_none wf) (auto simp: find_award_None service_entry_def)
next
  case (already a' award q)
  with a find_award_Some [of "rev_id d" "acc_id a'" s award]
  have w: "award \<in> set (ledger s)" "is_award award" "service_entry (acc_id a) (rev_id d) award"
    by (auto simp: service_entry_def)
  have "refunded (ledger s) award"
    using already(5) by (auto simp: refunded_def list_ex_iff find_refund_def dest: first_row_Some)
  with service_sum_award [OF wf w] show ?thesis by (simp add: already(1))
next
  case (refunded a' award locked e)
  with a find_award_Some [of "rev_id d" "acc_id a'" s award]
  have w: "award \<in> set (ledger s)" "is_award award" "service_entry (acc_id a) (rev_id d) award"
    and acc: "entry_account award = acc_id a" by (auto simp: service_entry_def)
  have "\<not> Credit_Ledger.refunded (ledger s) award"
    using refunded(3) by (auto simp: refunded_def list_ex_iff find_refund_None)
  with service_sum_award [OF wf w] have "service_sum (acc_id a) (rev_id d) (ledger s) = amount award" by simp
  moreover have "ledger s' = ledger s @ [e]" by (rule insert_entry_frame(10) [OF refunded(5)])
  moreover have "service_entry (acc_id a) (rev_id d) e" "amount e = - amount award"
    using refunded(5) acc by (auto simp: insert_entry_Inr service_entry_def)
  ultimately show ?thesis by (simp add: service_sum_append)
qed

lemma refund_frame:
  assumes "refundDispatchAward d owner b reason actor s = Inr (out, s')"
  shows "dispatches s' = dispatches s" "same_owners s s'"
    "candidates s' = candidates s" "assignments s' = assignments s" "requests s' = requests s"
    "quotes s' = quotes s" "outbox s' = outbox s" "profiles s' = profiles s"
    "j \<noteq> rev_id d \<or> (\<forall>a. owner_account owner s = Some a \<longrightarrow> i \<noteq> acc_id a) \<Longrightarrow>
      service_sum i j (ledger s') = service_sum i j (ledger s)"
proof -
  have "dispatches s' = dispatches s \<and> same_owners s s' \<and> candidates s' = candidates s
    \<and> assignments s' = assignments s \<and> requests s' = requests s \<and> quotes s' = quotes s \<and> outbox s' = outbox s
    \<and> profiles s' = profiles s \<and> (j \<noteq> rev_id d \<or> (\<forall>a. owner_account owner s = Some a \<longrightarrow> i \<noteq> acc_id a) \<longrightarrow>
      service_sum i j (ledger s') = service_sum i j (ledger s))"
    using assms
  proof (cases rule: refund_Inr)
    case (refunded a award locked e)
    have "entry_account award = acc_id a" using find_award_Some [OF refunded(2)] by simp
    then have "entry_account e = acc_id a" "entry_reference e = Some (rev_id d)"
      using refunded(5) by (auto simp: insert_entry_Inr)
    moreover note insert_entry_frame [OF refunded(5)] insert_entry_same_owners [OF refunded(5)]
    ultimately show ?thesis using refunded(1) by (auto simp: service_sum_append service_entry_def)
  qed (simp_all add: same_owners_refl)
  then show "dispatches s' = dispatches s" "same_owners s s'"
    "candidates s' = candidates s" "assignments s' = assignments s" "requests s' = requests s"
    "quotes s' = quotes s" "outbox s' = outbox s" "profiles s' = profiles s"
    "j \<noteq> rev_id d \<or> (\<forall>a. owner_account owner s = Some a \<longrightarrow> i \<noteq> acc_id a) \<Longrightarrow>
      service_sum i j (ledger s') = service_sum i j (ledger s)" by blast+
qed

text \<open>
  A reversal and its refund: the row was held by an owner, the new row is held by nobody or closed,
  and the refund is for that owner.
\<close>

lemma economy_refunded:
  assumes eco: "economy s" and wf: "ledger_wf s1"
    and frame: "accounts s1 = accounts s" "ledger s1 = ledger s" "snapshots s1 = snapshots s"
      "preAwards s1 = preAwards s" "profiles s1 = profiles s"
    and ds: "dispatches s1 = update_rows (\<lambda>d. d_id d = d_id new) (\<lambda>_. new) (dispatches s)"
    and old: "old \<in> set (dispatches s)" "d_id old = d_id new" "holder old s = Some owner"
    and new: "d_status new \<notin> {CLAIMED, DELIVERED}"
    and r: "refundDispatchAward d owner b reason actor s1 = Inr (out, s')" "rev_id d = d_id new"
  shows "economy s'"
proof -
  have so1: "same_owners s s1" by (rule same_owners_frame) (simp_all add: frame)
  note f = refund_frame [OF r(1)]
  have so: "same_owners s s'" using so1 f(2) by (rule same_owners_trans)
  have owner: "owner_account owner s1 = owner_account owner s" by (simp add: owner_account_def frame)
  show ?thesis
  proof (rule economy_settled [OF eco so])
    show "dispatches s' = update_rows (\<lambda>d. d_id d = d_id new) (\<lambda>_. new) (dispatches s)"
      using f(1) ds by simp
    show "service_sum i j (ledger s') = service_sum i j (ledger s)" if "j \<noteq> d_id new" for i j
      using f(9) [of j i] that r(2) frame by simp
  next
    fix c
    assume "c \<in> set (accounts s')"
    with so obtain c' where c': "c' \<in> set (accounts s)" "acc_id c' = acc_id c"
      by (rule same_owners_account)
    have "service_sum (acc_id c) (d_id new) (ledger s') = 0"
    proof (cases "\<exists>a. owner_account owner s1 = Some a \<and> acc_id c = acc_id a")
      case True
      with refund_sum [OF r(1) wf] r(2) show ?thesis by auto
    next
      case False
      then have "service_sum (acc_id c) (d_id new) (ledger s') = service_sum (acc_id c) (d_id new) (ledger s)"
        using f(9) [of "d_id new" "acc_id c"] frame by auto
      moreover have "\<not> owes old (acc_id c) s"
        using False old(3) owner by (auto simp: owes_def holder_account_def)
      ultimately show ?thesis using economyD [OF eco old(1) c'(1)] old(2) c'(2) by simp
    qed
    then show "service_sum (acc_id c) (d_id new) (ledger s') = (if owes new (acc_id c) s' then - price new s' else 0)"
      using not_owes_open [OF new] by simp
  qed
qed

end
