(* ===== verification/Dispatch_Search.thy ===== *)
theory Dispatch_Search imports Data_Model begin

text \<open>
  The decisions about a dispatch that read no other row: the automatic search
  (src/src/dispatch/dispatch-search.ts), the effective status, who may claim
  (dispatch-policy.ts) or take (independent-drivers/independent-driver-policy.ts), and the status
  filter and the AVAILABLE view of the listings (dispatch.service.ts).
\<close>

subsection \<open>Automatic search\<close>

definition retryPending :: "'a search_record_scheme \<Rightarrow> instant \<Rightarrow> bool" where
  "retryPending d now \<longleftrightarrow>
     d_status d = OPEN \<and> d_expiresAt d \<le> now \<and> searchMaxAttempts d = 5 \<and> searchAttempt d < 5
     \<and> searchStoppedReason d = None"

datatype search_state = SEARCHING | RETRY_PENDING | FOUND | SEARCH_CANCELLED | SEARCH_EXHAUSTED | STOPPED

record search_response =
  resp_state :: search_state
  resp_attempt :: nat
  resp_windowExpiresAt :: instant
  resp_stoppedReason :: "stop_reason option"

text \<open>\<open>FOUND\<close>, \<open>SEARCH_CANCELLED\<close> and \<open>SEARCH_EXHAUSTED\<close> are EXECUTOR_FOUND, CANCELLED and EXHAUSTED
  of \<open>SEARCH_STATES\<close>.\<close>

definition search_state_of :: "'a search_record_scheme \<Rightarrow> instant \<Rightarrow> search_state" where
  "search_state_of d now =
     (let reason = searchStoppedReason d in
      if d_status d = CANCELLED \<or> reason = Some REQUEST_CANCELLED then SEARCH_CANCELLED
      else if reason = Some EXECUTOR_FOUND \<or> d_status d = CLAIMED \<or> d_status d = DELIVERED then FOUND
      else if reason \<noteq> None \<and> reason \<noteq> Some EXHAUSTED then STOPPED
      else if retryPending d now then RETRY_PENDING
      else if d_status d = EXPIRED \<or> d_expiresAt d \<le> now then SEARCH_EXHAUSTED
      else SEARCHING)"

definition searchFields :: "'a search_record_scheme \<Rightarrow> instant \<Rightarrow> search_response option" where
  "searchFields d now =
     (if searchMaxAttempts d \<noteq> 5 then None
      else
        (let state = search_state_of d now in
         Some \<lparr>resp_state = state, resp_attempt = searchAttempt d, resp_windowExpiresAt = d_expiresAt d,
               resp_stoppedReason = (if state = SEARCH_EXHAUSTED then Some EXHAUSTED else searchStoppedReason d)\<rparr>))"

text \<open>\<open>appNow\<close> is \<open>new Date()\<close> of the process, \<open>dbNow\<close> the clock of the database.\<close>

definition dispatchClaimTime :: "instant \<Rightarrow> instant \<Rightarrow> 'a search_record_scheme \<Rightarrow> instant" where
  "dispatchClaimTime appNow dbNow d = (if searchMaxAttempts d \<noteq> 5 then appNow else dbNow)"

fun searchWindowRejection :: "failure \<Rightarrow> operation_code option" where
  "searchWindowRejection (Sql (RaiseException r)) =
     (if r = RAISED_SEARCH_CLAIM_RETRY_PENDING then Some DISPATCH_RETRY_PENDING
      else if r = RAISED_SEARCH_CLAIM_EXPIRED then Some DISPATCH_EXPIRED
      else None)"
| "searchWindowRejection _ = None"

subsection \<open>Status and rejections\<close>

definition dispatchExpiry :: "instant \<Rightarrow> int \<Rightarrow> instant" where
  "dispatchExpiry openedAt ttlMinutes = openedAt + ttlMinutes * millis_per_minute"

definition effectiveDispatchStatus :: "'a search_record_scheme \<Rightarrow> instant \<Rightarrow> dispatch_status" where
  "effectiveDispatchStatus d now =
     (if d_status d = OPEN \<and> d_expiresAt d \<le> now \<and> \<not> retryPending d now then EXPIRED else d_status d)"

datatype rejection = AlreadyOwner | Rejected operation_code

definition claimRejection :: "dispatch \<Rightarrow> candidate_status \<Rightarrow> id \<Rightarrow> instant \<Rightarrow> rejection option" where
  "claimRejection d candidate providerId now =
     (if retryPending d now then Some (Rejected DISPATCH_RETRY_PENDING)
      else
        (case effectiveDispatchStatus d now of
           CANCELLED \<Rightarrow> Some (Rejected DISPATCH_CANCELLED)
         | EXPIRED \<Rightarrow> Some (Rejected DISPATCH_EXPIRED)
         | DELIVERED \<Rightarrow> Some (Rejected DISPATCH_DELIVERED)
         | CLAIMED \<Rightarrow>
             if claimedByProvider d = Some providerId then Some AlreadyOwner
             else Some (Rejected DISPATCH_ALREADY_CLAIMED)
         | OPEN \<Rightarrow>
             if candidate = CAND_RELEASED then Some (Rejected DISPATCH_RECLAIM_NOT_ALLOWED) else None))"

datatype execution_mode = FleetOnly | IndependentOnly | Both

text \<open>\<open>SERVICE_EXECUTION_MODES\<close>, and the actors each mode admits.\<close>

fun SERVICE_EXECUTION_MODES :: "service_type \<Rightarrow> execution_mode" where
  "SERVICE_EXECUTION_MODES LOCAL_DELIVERY = Both"

definition allowsIndependent :: "service_type \<Rightarrow> bool" where
  "allowsIndependent t \<longleftrightarrow> SERVICE_EXECUTION_MODES t = Both \<or> SERVICE_EXECUTION_MODES t = IndependentOnly"

definition creditActorsFor :: "(service_type \<Rightarrow> execution_mode) \<Rightarrow> service_type \<Rightarrow> actor_type list" where
  "creditActorsFor modes t =
     (let mode = modes t in
      (if mode = FleetOnly \<or> mode = Both then [PROVIDER] else []) @
      (if mode = IndependentOnly \<or> mode = Both then [INDEPENDENT_DRIVER] else []))"

definition takeRejection :: "dispatch \<Rightarrow> service_type \<Rightarrow> bool \<Rightarrow> instant \<Rightarrow> operation_code option" where
  "takeRejection d service alreadyReleased now =
     (if retryPending d now then Some DISPATCH_RETRY_PENDING
      else if d_status d = CANCELLED then Some DISPATCH_CANCELLED
      else if d_status d = EXPIRED then Some DISPATCH_EXPIRED
      else if d_status d = OPEN \<and> d_expiresAt d \<le> now then Some DISPATCH_EXPIRED
      else if d_status d = DELIVERED then Some DISPATCH_DELIVERED
      else if d_status d = CLAIMED then Some DISPATCH_ALREADY_CLAIMED
      else if \<not> allowsIndependent service then Some DISPATCH_NOT_OPEN_TO_INDEPENDENT
      else if alreadyReleased then Some DISPATCH_RETAKE_NOT_ALLOWED
      else None)"

subsection \<open>Listings\<close>

text \<open>\<open>statusWhere\<close> as the predicate on a row that its WHERE clause is.\<close>

definition pendingWhere :: "'a search_record_scheme \<Rightarrow> bool" where
  "pendingWhere d \<longleftrightarrow>
     d_status d = OPEN \<and> searchMaxAttempts d = 5 \<and> searchAttempt d < 5 \<and> searchStoppedReason d = None"

definition statusWhere :: "dispatch_status option \<Rightarrow> instant \<Rightarrow> 'a search_record_scheme \<Rightarrow> bool" where
  "statusWhere status now d \<longleftrightarrow>
     (case status of
        None \<Rightarrow> True
      | Some OPEN \<Rightarrow> d_status d = OPEN \<and> (now < d_expiresAt d \<or> pendingWhere d)
      | Some EXPIRED \<Rightarrow>
          d_status d = EXPIRED \<or> (d_status d = OPEN \<and> d_expiresAt d \<le> now \<and> \<not> pendingWhere d)
      | Some st \<Rightarrow> d_status d = st)"

text \<open>The AVAILABLE view of \<open>listForProvider\<close>.\<close>

definition availableWhere :: "id \<Rightarrow> instant \<Rightarrow> db \<Rightarrow> dispatch \<Rightarrow> bool" where
  "availableWhere providerId now s d \<longleftrightarrow>
     d_status d = OPEN \<and> now < d_expiresAt d \<and>
     any_row (\<lambda>c. cand_dispatch c = d_id d \<and> cand_provider c = providerId \<and> cand_status c = CAND_OFFERED) (candidates s) \<and>
     (searchMaxAttempts d = 1 \<or>
      any_row (\<lambda>r. round_dispatch r = d_id d \<and> now < round_expiresAt r \<and> List.member (round_providers r) providerId) (rounds s))"

text \<open>
  C23: The status filter of every listing selects exactly the dispatches whose effective status is the
  one asked for: a lapsed OPEN dispatch is listed as EXPIRED and never as OPEN, unless its automatic
  search awaits another round, when it is still listed as OPEN.
\<close>

theorem statusWhere_is_effective_status:
  "statusWhere (Some st) now d = (effectiveDispatchStatus d now = st)"
  by (cases st) (auto simp: statusWhere_def effectiveDispatchStatus_def retryPending_def pendingWhere_def)

text \<open>
  The two execution models reject for the same reasons in the same order: an independent driver that
  did not give the service back is refused with the code a provider that is not the holder would get,
  whatever the state of the dispatch, its window and its search.
\<close>

theorem take_rejects_like_claim:
  assumes "allowsIndependent service" and "claimedByProvider d \<noteq> Some p" and "c \<noteq> CAND_RELEASED"
  shows "map_option Rejected (takeRejection d service False now) = claimRejection d c p now"
  using assms
  by (cases "d_status d")
    (auto simp: takeRejection_def claimRejection_def effectiveDispatchStatus_def retryPending_def)

text \<open>A search that found nobody says so: the states of the search follow the life of the dispatch.\<close>

lemma retryPending_open: "retryPending d now \<Longrightarrow> effectiveDispatchStatus d now = OPEN"
  by (simp add: effectiveDispatchStatus_def retryPending_def)

lemma claim_allowed_iff:
  "claimRejection d c p now = None \<longleftrightarrow> d_status d = OPEN \<and> now < d_expiresAt d \<and> c \<noteq> CAND_RELEASED"
  by (cases "d_status d")
    (auto simp: claimRejection_def effectiveDispatchStatus_def retryPending_def)

lemma take_allowed_iff:
  "takeRejection d service r now = None \<longleftrightarrow>
     d_status d = OPEN \<and> now < d_expiresAt d \<and> allowsIndependent service \<and> \<not> r"
  by (cases "d_status d") (auto simp: takeRejection_def retryPending_def)

lemma claim_expired_iff:
  "claimRejection d c p now = Some (Rejected DISPATCH_EXPIRED) \<longleftrightarrow>
     d_status d = EXPIRED \<or> (d_status d = OPEN \<and> d_expiresAt d \<le> now \<and> \<not> retryPending d now)"
  by (cases "d_status d")
    (auto simp: claimRejection_def effectiveDispatchStatus_def retryPending_def)

lemma claim_owner_iff:
  "claimRejection d c p now = Some AlreadyOwner \<longleftrightarrow> d_status d = CLAIMED \<and> claimedByProvider d = Some p"
  by (cases "d_status d")
    (auto simp: claimRejection_def effectiveDispatchStatus_def retryPending_def)

theorem take_rejects_like_claim_witness:
  "\<exists>d :: dispatch. d_status d = CLAIMED \<and> takeRejection d LOCAL_DELIVERY False 9 = Some DISPATCH_ALREADY_CLAIMED
     \<and> claimRejection d CAND_OFFERED 4 9 = Some (Rejected DISPATCH_ALREADY_CLAIMED)"
proof -
  let ?d = "\<lparr>d_status = CLAIMED, d_expiresAt = 5, searchMaxAttempts = 1, searchAttempt = 1,
      searchStoppedReason = None, d_id = 7, d_request = 30, d_quote = 31, d_openedAt = 0,
      claimedByProvider = Some 3, claimedByIndependent = None, d_claimedAt = Some 1,
      d_expiredAt = None, d_cancelledAt = None, d_deliveredAt = None, d_deliveredBy = None,
      creditMode = MONETIZED, searchWindowSeconds = None, d_identity = None\<rparr> :: dispatch"
  have "takeRejection ?d LOCAL_DELIVERY False 9 = Some DISPATCH_ALREADY_CLAIMED" "allowsIndependent LOCAL_DELIVERY"
    by (simp_all add: takeRejection_def retryPending_def allowsIndependent_def)
  with take_rejects_like_claim [OF this(2), of ?d 4 CAND_OFFERED 9] show ?thesis
    by (intro exI [where x = ?d]) simp
qed

end
