(* ===== verification/Claims.thy ===== *)
theory Claims imports Award_Economy Dispatch_Search begin

text \<open>
  The invariants the dispatch tables keep between transactions: a provider holds a dispatch exactly
  while its candidate row is CLAIMED, an ACTIVE assignment belongs to the actor holding a CLAIMED
  dispatch, an independent claim always carries its assignment, and a delivery its COMPLETED one.
\<close>

subsection \<open>Dispatches and candidates\<close>

definition cand_key :: "candidate \<Rightarrow> id \<times> id" where
  "cand_key c = (cand_dispatch c, cand_provider c)"

definition claim_matches :: "candidate list \<Rightarrow> dispatch \<Rightarrow> bool" where
  "claim_matches cs d \<longleftrightarrow>
     list_all (\<lambda>c. cand_dispatch c = d_id d \<longrightarrow>
       (cand_status c = CAND_CLAIMED) = (claimedByProvider d = Some (cand_provider c))) cs \<and>
     (case claimedByProvider d of None \<Rightarrow> True | Some p \<Rightarrow> list_ex (is_candidate (d_id d) p) cs)"

definition claims_ok :: "dispatch list \<Rightarrow> candidate list \<Rightarrow> bool" where
  "claims_ok ds cs \<longleftrightarrow>
     distinct (map d_id ds) \<and> list_all (\<lambda>d. dispatch_check d \<and> search_shape d) ds \<and>
     distinct (map cand_key cs) \<and> list_all candidate_check cs \<and>
     list_all (\<lambda>c. list_ex (\<lambda>d. d_id d = cand_dispatch c) ds) cs \<and>
     list_all (claim_matches cs) ds"

lemma find_dispatch_Some: "find_dispatch (Some i) s = Some d \<Longrightarrow> d \<in> set (dispatches s) \<and> d_id d = i"
  by (auto simp: find_dispatch_def dest: first_row_Some)

lemma find_dispatch_in:
  "distinct (map d_id (dispatches s)) \<Longrightarrow> d \<in> set (dispatches s) \<Longrightarrow> find_dispatch (Some (d_id d)) s = Some d"
  by (simp add: find_dispatch_def first_row_unique_key)

lemma find_candidate_Some:
  "find_candidate i p s = Some c \<Longrightarrow> c \<in> set (candidates s) \<and> cand_dispatch c = i \<and> cand_provider c = p"
  by (auto simp: find_candidate_def dest: first_row_Some)

lemma claim_matches_claimed:
  "claim_matches cs d \<Longrightarrow> c \<in> set cs \<Longrightarrow> cand_dispatch c = d_id d \<Longrightarrow>
     cand_status c = CAND_CLAIMED \<longleftrightarrow> claimedByProvider d = Some (cand_provider c)"
  by (auto simp: claim_matches_def list_all_iff)

text \<open>One dispatch row and the candidates of that dispatch are replaced.\<close>

lemma claims_ok_settled:
  assumes ok: "claims_ok ds cs"
    and ds': "ds' = update_rows (\<lambda>d. d_id d = d_id new) (\<lambda>_. new) ds" and new: "dispatch_check new" "search_shape new"
    and keys: "map cand_key cs' = map cand_key cs" and cs': "list_all candidate_check cs'"
    and other: "\<And>c. c \<in> set cs' \<Longrightarrow> cand_dispatch c \<noteq> d_id new \<Longrightarrow> c \<in> set cs"
    and match: "claim_matches cs' new"
  shows "claims_ok ds' cs'"
proof -
  have key_in: "\<exists>c' \<in> set cs'. cand_key c' = cand_key c" if "c \<in> set cs" for c
  proof -
    have "cand_key c \<in> set (map cand_key cs')" unfolding keys using that by simp
    then show ?thesis by auto
  qed
  have key_out: "\<exists>c \<in> set cs. cand_key c = cand_key c'" if "c' \<in> set cs'" for c'
  proof -
    have "cand_key c' \<in> set (map cand_key cs)" unfolding keys [symmetric] using that by simp
    then show ?thesis by auto
  qed
  have ids: "map d_id ds' = map d_id ds" unfolding ds' by (rule map_update_rows) simp
  have "claim_matches cs' d" if d: "d \<in> set ds'" for d
  proof (cases "d_id d = d_id new")
    case True
    with d have "d = new" by (auto simp: ds' in_update_rows split: if_splits)
    with match show ?thesis by simp
  next
    case False
    with d have "d \<in> set ds" by (auto simp: ds' in_update_rows split: if_splits)
    with ok have m: "claim_matches cs d" by (simp add: claims_ok_def list_all_iff)
    have "list_ex (is_candidate (d_id d) p) cs'" if "list_ex (is_candidate (d_id d) p) cs" for p
      using that key_in by (fastforce simp: list_ex_iff cand_key_def)
    with m other False show ?thesis
      by (auto simp: claim_matches_def list_all_iff split: option.splits)
  qed
  moreover have "list_ex (\<lambda>d. d_id d = cand_dispatch c) ds'" if "c \<in> set cs'" for c
  proof -
    from key_out [OF that] obtain c0 where "c0 \<in> set cs" "cand_dispatch c0 = cand_dispatch c"
      by (auto simp: cand_key_def)
    with ok obtain d where "d \<in> set ds" "d_id d = cand_dispatch c"
      by (auto simp: claims_ok_def list_all_iff list_ex_iff)
    then have "cand_dispatch c \<in> set (map d_id ds')" unfolding ids by force
    then show ?thesis by (auto simp: list_ex_iff)
  qed
  moreover have "list_all (\<lambda>d. dispatch_check d \<and> search_shape d) ds'"
    using ok new by (auto simp: claims_ok_def ds' intro!: list_all_update)
  ultimately show ?thesis
    using ok cs' by (simp add: claims_ok_def ids keys list_all_iff)
qed

lemma claims_ok_dispatch:
  assumes "claims_ok ds cs" "old \<in> set ds" "d_id old = d_id new" "claimedByProvider new = claimedByProvider old"
    and "dispatch_check new" "search_shape new"
  shows "claims_ok (update_rows (\<lambda>d. d_id d = d_id new) (\<lambda>_. new) ds) cs"
proof (rule claims_ok_settled [OF assms(1) refl assms(5,6)])
  have "claim_matches cs old" using assms(1,2) by (simp add: claims_ok_def list_all_iff)
  then show "claim_matches cs new"
    by (simp add: claim_matches_def assms(3,4) cong: option.case_cong)
qed (use assms(1) in \<open>simp_all add: claims_ok_def\<close>)

text \<open>A candidate row that was updated.\<close>

lemma update_candidate_Inr:
  assumes "update_candidate d p change s = Inr (u, s')"
  obtains old where "find_candidate d p s = Some old" "candidate_check (change old)"
    "cand_key (change old) = (d, p)" "candidate_guard old (change old) = None"
    "s' = s\<lparr>candidates := update_rows (is_candidate d p) (\<lambda>_. change old) (candidates s)\<rparr>"
proof -
  from assms obtain old where f: "find_candidate d p s = Some old" "candidate_check (change old)"
    and g: "candidate_guard old (change old) = None"
    and s: "s' = s\<lparr>candidates := update_rows (is_candidate d p) (\<lambda>_. change old) (candidates s)\<rparr>"
    by (auto simp: update_candidate_def tx_simps)
  have "cand_key (change old) = (d, p)"
    using g find_candidate_Some [OF f(1)]
    by (auto simp: candidate_guard_def cand_key_def split: if_splits)
  with f g s that show ?thesis by blast
qed

lemma candidate_update_facts:
  assumes "list_all candidate_check cs" "candidate_check c'" "cand_key c' = (d, p)"
  defines "cs' \<equiv> update_rows (is_candidate d p) (\<lambda>_. c') cs"
  shows "map cand_key cs' = map cand_key cs" "list_all candidate_check cs'"
    "\<And>c. c \<in> set cs' \<Longrightarrow> cand_dispatch c \<noteq> d \<Longrightarrow> c \<in> set cs"
    "\<And>c. c \<in> set cs' \<Longrightarrow> c \<in> set cs \<and> \<not> is_candidate d p c \<or> c = c'"
proof -
  show "map cand_key cs' = map cand_key cs"
    unfolding cs'_def using assms(3) by (intro map_update_rows) (auto simp: cand_key_def)
  show "list_all candidate_check cs'"
    unfolding cs'_def using assms(1,2) by (intro list_all_update)
  show "c \<in> set cs' \<Longrightarrow> cand_dispatch c \<noteq> d \<Longrightarrow> c \<in> set cs" for c
    using assms(3) by (auto simp: cs'_def in_update_rows cand_key_def split: if_splits)
  show "c \<in> set cs' \<Longrightarrow> c \<in> set cs \<and> \<not> is_candidate d p c \<or> c = c'" for c
    by (auto simp: cs'_def in_update_rows split: if_splits)
qed

subsection \<open>Assignments\<close>

text \<open>What an ACTIVE assignment says about its dispatch.\<close>

definition carried_by :: "assignment \<Rightarrow> dispatch \<Rightarrow> bool" where
  "carried_by a d \<longleftrightarrow>
     d_status d = CLAIMED \<and>
     (if asg_mode a = FLEET then claimedByProvider d = asg_provider a \<and> asg_provider a \<noteq> None
      else claimedByIndependent d = Some (asg_driver a))"

text \<open>
  What a DELIVERED and an independently CLAIMED dispatch need; \<open>X\<close> names the dispatches a running
  transaction has still to settle, and is empty between transactions.
\<close>

definition delivery_closed :: "id list \<Rightarrow> assignment list \<Rightarrow> dispatch \<Rightarrow> bool" where
  "delivery_closed X as d \<longleftrightarrow>
     (d_status d = DELIVERED \<longrightarrow> list_ex (\<lambda>a. asg_dispatch a = d_id d \<and> asg_status a = ASG_COMPLETED) as) \<and>
     (d_status d = CLAIMED \<and> claimedByIndependent d \<noteq> None \<and> \<not> List.member X (d_id d) \<longrightarrow>
        list_ex (\<lambda>a. asg_dispatch a = d_id d \<and> active a \<and> asg_mode a = INDEPENDENT
          \<and> claimedByIndependent d = Some (asg_driver a)) as)"

definition assignments_ok :: "id list \<Rightarrow> dispatch list \<Rightarrow> assignment list \<Rightarrow> bool" where
  "assignments_ok X ds as \<longleftrightarrow>
     distinct (map asg_id as) \<and> list_all assignment_check as \<and>
     unique_on active asg_dispatch as \<and> unique_on active asg_driver as \<and> unique_on active asg_vehicle as \<and>
     list_all (\<lambda>a. active a \<longrightarrow> list_ex (\<lambda>d. d_id d = asg_dispatch a \<and> carried_by a d) ds) as \<and>
     list_all (delivery_closed X as) ds"

definition active_of :: "id \<Rightarrow> db \<Rightarrow> assignment option" where
  "active_of d s = first_row (\<lambda>a. asg_dispatch a = d \<and> active a) (assignments s)"

lemma active_of_Some:
  "active_of d s = Some a \<Longrightarrow> a \<in> set (assignments s) \<and> asg_dispatch a = d \<and> active a"
  by (auto simp: active_of_def dest: first_row_Some)

lemma active_of_None:
  "active_of d s = None \<longleftrightarrow> (\<forall>a \<in> set (assignments s). \<not> (asg_dispatch a = d \<and> active a))"
  by (simp add: active_of_def first_row_None)

text \<open>Replacing a row of a dispatch that carries no ACTIVE assignment, before and after.\<close>

lemma assignments_ok_dispatch:
  assumes ok: "assignments_ok X ds as"
    and ds': "ds' = update_rows (\<lambda>d. d_id d = d_id new) (\<lambda>_. new) ds"
    and none: "\<And>a. a \<in> set as \<Longrightarrow> asg_dispatch a = d_id new \<Longrightarrow> \<not> active a"
    and closed: "delivery_closed X as new"
  shows "assignments_ok X ds' as"
proof -
  have "list_ex (\<lambda>d. d_id d = asg_dispatch a \<and> carried_by a d) ds'" if a: "a \<in> set as" "active a" for a
  proof -
    from ok a obtain d where d: "d \<in> set ds" "d_id d = asg_dispatch a" "carried_by a d"
      by (auto simp: assignments_ok_def list_all_iff list_ex_iff)
    with none a have "d_id d \<noteq> d_id new" by auto
    with d(1) have "d \<in> set ds'" unfolding ds' in_update_rows by (intro bexI [of _ d]) auto
    with d show ?thesis by (auto simp: list_ex_iff)
  qed
  moreover have "list_all (delivery_closed X as) ds'"
    using ok closed by (auto simp: assignments_ok_def ds' intro!: list_all_update)
  ultimately show ?thesis using ok by (auto simp: assignments_ok_def list_all_iff)
qed

text \<open>Replacing a row that stays CLAIMED or gets CLAIMED by the same owner keeps its carrier.\<close>

lemma delivery_closed_open:
  "d_status d \<notin> {CLAIMED, DELIVERED} \<Longrightarrow> delivery_closed X as d"
  by (auto simp: delivery_closed_def)

lemma no_active_unless_claimed:
  assumes "assignments_ok X ds as" "distinct (map d_id ds)"
    "row \<in> set ds" "d_status row \<noteq> CLAIMED" "a \<in> set as" "asg_dispatch a = d_id row"
  shows "\<not> active a"
proof
  assume "active a"
  with assms(1,5) obtain d where d: "d \<in> set ds" "d_id d = asg_dispatch a" "carried_by a d"
    by (auto simp: assignments_ok_def list_all_iff list_ex_iff)
  with unique_key [OF assms(2) d(1) assms(3)] assms(4,6) show False by (simp add: carried_by_def)
qed

lemma assignments_ok_update:
  assumes "assignments_ok X ds as" "distinct (map d_id ds)" "row \<in> set ds" "d_status row \<noteq> CLAIMED"
    and "d_id new = d_id row" "delivery_closed X as new"
  shows "assignments_ok X (update_rows (\<lambda>d. d_id d = d_id new) (\<lambda>_. new) ds) as"
  using assms by (intro assignments_ok_dispatch [OF assms(1) refl _ assms(6)])
    (auto dest: no_active_unless_claimed)

lemma update_assignment_Inr:
  assumes "update_assignment i change s = Inr (u, s')"
  obtains old where "old \<in> set (assignments s)" "asg_id old = i" "active old" "assignment_check (change old)"
    "assignment_update_guard old (change old) = None"
    "s' = s\<lparr>assignments := update_rows (\<lambda>a. asg_id a = i) (\<lambda>_. change old) (assignments s)\<rparr>"
proof -
  from assms obtain old where f: "first_row (\<lambda>a. asg_id a = i) (assignments s) = Some old"
    and c: "assignment_check (change old)" "assignment_update_guard old (change old) = None"
    and s: "s' = s\<lparr>assignments := update_rows (\<lambda>a. asg_id a = i) (\<lambda>_. change old) (assignments s)\<rparr>"
    by (auto simp: update_assignment_def tx_simps)
  from c(2) have "active old" by (auto simp: assignment_update_guard_def split: if_splits)
  with first_row_Some [OF f] c s that show ?thesis by blast
qed

text \<open>Ending an ACTIVE assignment of a provider; an independent one needs its dispatch resolved first.\<close>

lemma assignments_ok_ended:
  assumes ok: "assignments_ok X ds as" and old: "old \<in> set as" "active old" "asg_id ended = asg_id old"
    and keep: "asg_dispatch ended = asg_dispatch old" "\<not> active ended" "assignment_check ended"
    and as': "as' = update_rows (\<lambda>a. asg_id a = asg_id old) (\<lambda>_. ended) as"
    and fleet: "\<And>d. d \<in> set ds \<Longrightarrow> d_id d = asg_dispatch old \<Longrightarrow>
      claimedByIndependent d = None \<or> List.member X (d_id d)"
  shows "assignments_ok X ds as'"
proof -
  have ids: "distinct (map asg_id as)" using ok by (simp add: assignments_ok_def)
  have uniq: "unique_on active key as'" if "unique_on active key as" for key :: "assignment \<Rightarrow> nat"
    unfolding as' using ids that by (rule unique_on_update) (use keep(2) in auto)
  have kept: "a \<in> set as \<and> a \<noteq> old" if "a \<in> set as'" "active a" for a
    using that keep(2) old(3) unfolding as' in_update_rows by (auto split: if_splits)
  have other: "a \<in> set as'" if "a \<in> set as" "a \<noteq> old" for a
  proof -
    have "asg_id a \<noteq> asg_id old" using unique_key [OF ids that(1) old(1)] that(2) by auto
    with that(1) show ?thesis unfolding as' in_update_rows by (intro bexI [of _ a]) auto
  qed
  have "delivery_closed X as' d" if d: "d \<in> set ds" for d
  proof -
    have c: "delivery_closed X as d" using ok d by (simp add: assignments_ok_def list_all_iff)
    have "list_ex (\<lambda>a. asg_dispatch a = d_id d \<and> asg_status a = ASG_COMPLETED) as'"
      if del: "d_status d = DELIVERED"
    proof -
      from c del obtain a where "a \<in> set as" "asg_dispatch a = d_id d" "asg_status a = ASG_COMPLETED"
        by (auto simp: delivery_closed_def list_ex_iff)
      moreover from this old(2) have "a \<noteq> old" by auto
      ultimately show ?thesis using other by (auto simp: list_ex_iff)
    qed
    moreover have "list_ex (\<lambda>a. asg_dispatch a = d_id d \<and> active a \<and> asg_mode a = INDEPENDENT
          \<and> claimedByIndependent d = Some (asg_driver a)) as'"
      if cl: "d_status d = CLAIMED" "claimedByIndependent d \<noteq> None" "\<not> List.member X (d_id d)"
    proof -
      from c cl obtain a where a: "a \<in> set as" "asg_dispatch a = d_id d" "active a" "asg_mode a = INDEPENDENT"
          "claimedByIndependent d = Some (asg_driver a)"
        by (auto simp: delivery_closed_def list_ex_iff)
      have "a \<noteq> old" using fleet [OF d] cl(2,3) a(2) by auto
      with a other show ?thesis by (auto simp: list_ex_iff)
    qed
    ultimately show ?thesis by (simp add: delivery_closed_def)
  qed
  moreover have "map asg_id as' = map asg_id as" unfolding as' by (rule map_update_rows) (simp add: old(3))
  moreover have "list_all assignment_check as'"
    unfolding as' using ok keep(3) by (intro list_all_update) (auto simp: assignments_ok_def)
  moreover have "list_ex (\<lambda>d. d_id d = asg_dispatch a \<and> carried_by a d) ds" if "a \<in> set as'" "active a" for a
    using kept [OF that] ok that(2) by (auto simp: assignments_ok_def list_all_iff)
  ultimately show ?thesis
    using ok uniq by (auto simp: assignments_ok_def list_all_iff)
qed

text \<open>A new ACTIVE assignment for a dispatch that has none.\<close>

lemma assignments_ok_insert:
  assumes ok: "assignments_ok X ds as" and d: "d \<in> set ds" "d_id d = asg_dispatch a" "carried_by a d"
    and a: "active a" "assignment_check a" "assignment_unique a as"
  shows "assignments_ok X ds (as @ [a])"
proof -
  have "unique_on active asg_dispatch (as @ [a])" "unique_on active asg_driver (as @ [a])"
    "unique_on active asg_vehicle (as @ [a])"
    using ok a by (auto simp: unique_on_append assignments_ok_def assignment_unique_def any_row_iff)
  moreover have "asg_id a \<notin> asg_id ` set as"
    using a(3) by (auto simp: assignment_unique_def any_row_iff)
  moreover have "delivery_closed X (as @ [a]) e" if "e \<in> set ds" for e
    using ok that by (auto simp: assignments_ok_def list_all_iff delivery_closed_def)
  ultimately show ?thesis
    using ok d a by (auto simp: assignments_ok_def list_all_iff list_ex_iff)
qed

lemma insert_assignment_Inr:
  assumes "insert_assignment a0 s = Inr (i, s')"
  obtains a where "a = a0\<lparr>asg_id := i\<rparr>" "active a" "assignment_check a"
    "assignment_unique a (assignments s)"
    "assignment_insert_guard a (s\<lparr>nextId := nextId s + 1\<rparr>) = None"
    "s' = s\<lparr>nextId := nextId s + 1, assignments := assignments s @ [a]\<rparr>"
proof -
  let ?a = "a0\<lparr>asg_id := i\<rparr>"
  from assms have g: "assignment_insert_guard ?a (s\<lparr>nextId := nextId s + 1\<rparr>) = None"
    and c: "assignment_check ?a" "assignment_unique ?a (assignments s)"
    and s': "s' = s\<lparr>nextId := nextId s + 1, assignments := assignments s @ [?a]\<rparr>"
    by (auto simp: insert_assignment_def tx_simps)
  from g have "active ?a" by (auto simp: assignment_insert_guard_def Let_def split: if_splits)
  with g c s' that show ?thesis by blast
qed

text \<open>Nothing is left to settle once every named dispatch has what it needs.\<close>

lemma assignments_ok_done:
  assumes "assignments_ok X ds as" and "\<And>d. d \<in> set ds \<Longrightarrow> List.member X (d_id d) \<Longrightarrow> delivery_closed [] as d"
  shows "assignments_ok [] ds as"
proof -
  have "delivery_closed [] as d" if "d \<in> set ds" for d
  proof (cases "List.member X (d_id d)")
    case True
    with assms(2) that show ?thesis by blast
  next
    case False
    with assms(1) that have "delivery_closed X as d" by (auto simp: assignments_ok_def list_all_iff)
    with False show ?thesis by (simp add: delivery_closed_def)
  qed
  with assms(1) show ?thesis by (simp add: assignments_ok_def list_all_iff)
qed

lemma assignments_ok_weaken:
  "assignments_ok [] ds as \<Longrightarrow> assignments_ok X ds as"
  by (auto simp: assignments_ok_def list_all_iff delivery_closed_def)

end
