(* ===== verification/Dispatch_Service.thy ===== *)
theory Dispatch_Service imports Claims begin

text \<open>
  The provider side of a dispatch: \<open>claim\<close> and \<open>release\<close> of src/src/dispatch/dispatch.service.ts,
  with \<open>eligibleProviderIds\<close> of dispatch-policy.ts, each as the transaction that runs under the lock
  of the dispatch row. \<open>appNow\<close> is the clock of the process, \<open>dbNow\<close> the database clock read with the
  lock, \<open>sqlNow\<close> the one the trigger reads at the UPDATE. Responses and logging are left out.
\<close>

subsection \<open>Locks and eligibility\<close>

definition find_quote :: "id \<Rightarrow> db \<Rightarrow> quote option" where
  "find_quote i s = first_row (\<lambda>q. quote_id q = i) (quotes s)"

definition lockDispatch :: "id \<Rightarrow> db \<Rightarrow> (dispatch \<times> quote) option" where
  "lockDispatch d s =
     Option.bind (find_dispatch (Some d) s) (\<lambda>row. map_option (Pair row) (find_quote (d_quote row) s))"

definition eligible :: "id \<Rightarrow> service_type \<Rightarrow> db \<Rightarrow> provider \<Rightarrow> bool" where
  "eligible zone service s p \<longleftrightarrow>
     prov_active p \<and> any_row (\<lambda>c. cov_provider c = prov_id p \<and> cov_active c \<and> cov_zone c = zone
       \<and> cov_service c = service) (coverages s)"

definition eligibleProviderIds :: "id \<Rightarrow> service_type \<Rightarrow> id option \<Rightarrow> db \<Rightarrow> id list" where
  "eligibleProviderIds zone service providerId s =
     (case providerId of
        Some i \<Rightarrow> map prov_id (filter (\<lambda>p. eligible zone service s p \<and> prov_id p = i) (providers s))
      | None \<Rightarrow> map prov_id (sort_key prov_createdAt (sort_key prov_id (filter (eligible zone service s) (providers s)))))"

text \<open>The dispatch as a reversal reads it before it clears the claim.\<close>

definition reversed_of :: "dispatch \<Rightarrow> db \<Rightarrow> reversed_dispatch" where
  "reversed_of row s =
     \<lparr>rev_id = d_id row, rev_mode = creditMode row, rev_claimedAt = d_claimedAt row,
      rev_awards = filter (\<lambda>h. pre_dispatch h = d_id row) (preAwards s)\<rparr>"

subsection \<open>Claim\<close>

datatype claim_outcome = ClaimAlready bool | ClaimExpired | ClaimDone award_outcome

definition claim_award :: "instant \<Rightarrow> instant \<Rightarrow> dispatch \<Rightarrow> quote \<Rightarrow> id \<Rightarrow> id \<Rightarrow> claim_outcome dtx" where
  "claim_award now sqlNow row q p actor =
     bindT (readT (eligibleProviderIds (quote_zone q) (quote_service q) (Some p))) (\<lambda>found.
     bindT (guardT (found \<noteq> []) (Domain PROVIDER_NOT_ELIGIBLE)) (\<lambda>_.
     bindT (update_candidate (d_id row) p (\<lambda>c. c\<lparr>cand_status := CAND_CLAIMED, cand_claimedAt := Some now\<rparr>)) (\<lambda>_.
     bindT (update_dispatch sqlNow (d_id row)
       (\<lambda>r. r\<lparr>d_status := CLAIMED, claimedByProvider := Some p, d_claimedAt := Some now\<rparr>)) (\<lambda>_.
     bindT (chargeDispatchAward (d_id row) (creditMode row) (ProviderOwner p) actor) (\<lambda>award.
     returnT (ClaimDone award))))))"

definition expire_dispatch :: "instant \<Rightarrow> instant \<Rightarrow> id \<Rightarrow> unit dtx" where
  "expire_dispatch now sqlNow d =
     update_dispatch sqlNow d (\<lambda>r. r\<lparr>d_status := EXPIRED, d_expiredAt := Some now\<rparr>)"

definition claim_tx :: "instant \<Rightarrow> instant \<Rightarrow> instant \<Rightarrow> id \<Rightarrow> id \<Rightarrow> id \<Rightarrow> claim_outcome dtx" where
  "claim_tx appNow dbNow sqlNow d p actor =
     bindT (requireT (lockDispatch d) NotFound) (\<lambda>(row, q).
     bindT (requireT (find_candidate d p) NotFound) (\<lambda>c.
     let now = dispatchClaimTime appNow dbNow row in
     (case claimRejection row (cand_status c) p now of
        Some AlreadyOwner \<Rightarrow>
          bindT (readT (\<lambda>s. list_ex (\<lambda>h. pre_dispatch h = d \<and> pre_actorType h = PROVIDER \<and> pre_actorId h = p
            \<and> Some (pre_awardedAt h) = d_claimedAt row) (preAwards s))) (\<lambda>historical.
          returnT (ClaimAlready historical))
      | Some (Rejected code) \<Rightarrow>
          if code = DISPATCH_EXPIRED \<and> d_status row = OPEN then
            bindT (expire_dispatch now sqlNow d) (\<lambda>_. returnT ClaimExpired)
          else throwT (Domain code)
      | None \<Rightarrow> claim_award now sqlNow row q p actor)))"

text \<open>\<open>charging\<close>: a window that closed between the check and the write is reported as such.\<close>

definition charging :: "failure \<Rightarrow> failure" where
  "charging f = (case searchWindowRejection f of Some code \<Rightarrow> Domain code | None \<Rightarrow> f)"

text \<open>The handler: an expiry found on the way is committed, and then reported as an error.\<close>

definition claim :: "instant \<Rightarrow> instant \<Rightarrow> instant \<Rightarrow> id \<Rightarrow> id \<Rightarrow> id \<Rightarrow> db \<Rightarrow> (failure + claim_outcome) \<times> db" where
  "claim appNow dbNow sqlNow d p actor s =
     (case claim_tx appNow dbNow sqlNow d p actor s of
        Inl f \<Rightarrow> (Inl (charging f), s)
      | Inr (ClaimExpired, s') \<Rightarrow> (Inl (Domain DISPATCH_EXPIRED), s')
      | Inr (out, s') \<Rightarrow> (Inr out, s'))"

subsection \<open>Release\<close>

definition release_tx :: "instant \<Rightarrow> instant \<Rightarrow> id \<Rightarrow> id \<Rightarrow> id \<Rightarrow> (bool \<times> refund_outcome) dtx" where
  "release_tx now sqlNow d p actor =
     bindT (requireT (lockDispatch d) NotFound) (\<lambda>(row, q).
     bindT (requireT (find_candidate d p) NotFound) (\<lambda>_.
     bindT (guardT (d_status row = CLAIMED \<and> claimedByProvider row = Some p)
       (Domain DISPATCH_NOT_CLAIMED_BY_PROVIDER)) (\<lambda>_.
     bindT (readT (active_of d)) (\<lambda>assigned.
     bindT (guardT (assigned = None) (Domain DISPATCH_HAS_ACTIVE_ASSIGNMENT)) (\<lambda>_.
     bindT (readT (reversed_of row)) (\<lambda>awarded.
     bindT (update_candidate d p (\<lambda>c. c\<lparr>cand_status := CAND_RELEASED, cand_releasedAt := Some now\<rparr>)) (\<lambda>_.
     let expired = d_expiresAt row \<le> now in
     bindT (update_dispatch sqlNow d
       (\<lambda>r. let r' = r\<lparr>d_status := (if expired then EXPIRED else OPEN), claimedByProvider := None, d_claimedAt := None\<rparr> in
            if expired then r'\<lparr>d_expiredAt := Some now\<rparr> else r')) (\<lambda>_.
     bindT (refundDispatchAward awarded (ProviderOwner p) p PROVIDER_RELEASE (Some actor)) (\<lambda>refund.
     returnT (expired, refund))))))))))"

definition release :: "instant \<Rightarrow> instant \<Rightarrow> id \<Rightarrow> id \<Rightarrow> id \<Rightarrow> db \<Rightarrow> (failure + (bool \<times> refund_outcome)) \<times> db" where
  "release now sqlNow d p actor = commitT (release_tx now sqlNow d p actor)"

subsection \<open>The invariant of the dispatch system\<close>

text \<open>
  A delivery event names a DELIVERED dispatch, carries its time, and there is one for each dispatch.
\<close>

definition outbox_ok :: "dispatch list \<Rightarrow> outbox_event list \<Rightarrow> bool" where
  "outbox_ok ds es \<longleftrightarrow>
     distinct (map ev_dispatch es) \<and>
     list_all (\<lambda>e. list_ex (\<lambda>d. d_id d = ev_dispatch e \<and> d_status d = DELIVERED \<and> d_request d = ev_request e
       \<and> d_deliveredAt d = Some (ev_occurredAt e)) ds) es"

definition system_ok :: "db \<Rightarrow> bool" where
  "system_ok s \<longleftrightarrow>
     ledger_wf s \<and> accounts_wf s \<and> claims_ok (dispatches s) (candidates s) \<and>
     assignments_ok [] (dispatches s) (assignments s) \<and> economy s \<and>
     outbox_ok (dispatches s) (outbox s)"

lemma system_okD:
  assumes "system_ok s"
  shows "ledger_wf s" "accounts_wf s" "claims_ok (dispatches s) (candidates s)"
    "assignments_ok [] (dispatches s) (assignments s)" "economy s" "outbox_ok (dispatches s) (outbox s)"
    "distinct (map d_id (dispatches s))"
  using assms by (auto simp: system_ok_def claims_ok_def)

lemma outbox_ok_update:
  assumes "outbox_ok ds es" "distinct (map d_id ds)" "old \<in> set ds" "d_id old = d_id new" "d_status old \<noteq> DELIVERED"
  shows "outbox_ok (update_rows (\<lambda>d. d_id d = d_id new) (\<lambda>_. new) ds) es"
proof -
  have "list_ex (\<lambda>d. d_id d = ev_dispatch e \<and> d_status d = DELIVERED \<and> d_request d = ev_request e
      \<and> d_deliveredAt d = Some (ev_occurredAt e)) (update_rows (\<lambda>d. d_id d = d_id new) (\<lambda>_. new) ds)"
    if e: "e \<in> set es" for e
  proof -
    from assms(1) e obtain d where d: "d \<in> set ds" "d_id d = ev_dispatch e" "d_status d = DELIVERED"
      "d_request d = ev_request e" "d_deliveredAt d = Some (ev_occurredAt e)"
      by (auto simp: outbox_ok_def list_all_iff list_ex_iff)
    have "d_id d \<noteq> d_id new"
      using unique_key [OF assms(2) d(1) assms(3)] assms(4,5) d(3) by auto
    with d(1) have "d \<in> set (update_rows (\<lambda>d. d_id d = d_id new) (\<lambda>_. new) ds)"
      unfolding in_update_rows by (intro bexI [of _ d]) auto
    with d show ?thesis by (auto simp: list_ex_iff)
  qed
  with assms(1) show ?thesis by (simp add: outbox_ok_def list_all_iff)
qed

lemma charge_frame:
  assumes "chargeDispatchAward d mode owner actor s = Inr (out, s')"
  shows "dispatches s' = dispatches s" "candidates s' = candidates s" "assignments s' = assignments s"
    "outbox s' = outbox s" "requests s' = requests s" "quotes s' = quotes s" "profiles s' = profiles s"
    "accounts_wf s \<Longrightarrow> accounts_wf s'" "snapshots s' = snapshots s" "same_owners s s'"
proof -
  have "dispatches s' = dispatches s \<and> candidates s' = candidates s \<and> assignments s' = assignments s
    \<and> outbox s' = outbox s \<and> requests s' = requests s \<and> quotes s' = quotes s \<and> profiles s' = profiles s
    \<and> (accounts_wf s \<longrightarrow> accounts_wf s') \<and> snapshots s' = snapshots s \<and> same_owners s s'"
  proof (cases mode)
    case LEGACY
    with assms show ?thesis by (simp add: charge_legacy same_owners_refl)
  next
    case MONETIZED
    with assms obtain x a e where "insert_entry (service_movement SERVICE_AWARD (acc_id a) (- snap_credits x) (balance a)
       (balance a - snap_credits x) d None None (Some actor)) s = Inr (e, s')"
      and "owner_account owner s = Some a" "find_snapshot d (owner_actorType owner) s = Some x"
      by (blast elim: charge_Inr)
    then show ?thesis using insert_entry_frame insert_entry_accounts_wf insert_entry_same_owners by meson
  qed
  then show "dispatches s' = dispatches s" "candidates s' = candidates s" "assignments s' = assignments s"
    "outbox s' = outbox s" "requests s' = requests s" "quotes s' = quotes s" "profiles s' = profiles s"
    "accounts_wf s \<Longrightarrow> accounts_wf s'" "snapshots s' = snapshots s" "same_owners s s'" by blast+
qed

lemma refund_accounts_wf:
  assumes "refundDispatchAward d owner b reason actor s = Inr (out, s')" "accounts_wf s"
  shows "accounts_wf s'"
  using assms(1) by (cases rule: refund_Inr) (use assms(2) insert_entry_accounts_wf in auto)

text \<open>Persisting the expiry of an OPEN dispatch keeps the invariant.\<close>

lemma expire_dispatch_ok:
  assumes "expire_dispatch now sqlNow d s = Inr (u, s')" "system_ok s"
    and "find_dispatch (Some d) s = Some row" "d_status row = OPEN"
  shows "system_ok s'"
proof -
  note ok = system_okD [OF assms(2)]
  from assms(1) obtain old new rs where f: "find_dispatch (Some d) s = Some old"
    and c: "core new = core (old\<lparr>d_status := EXPIRED, d_expiredAt := Some now\<rparr>)"
    and chk: "dispatch_check new" "search_shape new"
    and s': "s' = s\<lparr>dispatches := update_rows (\<lambda>d. d_id d = d_id new) (\<lambda>_. new) (dispatches s), rounds := rs\<rparr>"
    unfolding expire_dispatch_def by (rule update_dispatch_Inr)
  from f assms(3) have [simp]: "old = row" by simp
  note row = find_dispatch_Some [OF assms(3)]
  note new = coreD [OF c, simplified]
  have "claims_ok (dispatches s') (candidates s')"
    unfolding s' using claims_ok_dispatch [OF ok(3) _ _ _ chk, of row] row new by simp
  moreover have "assignments_ok [] (dispatches s') (assignments s')"
    using assignments_ok_update [OF ok(4,7), of row new] row assms(4) new
    by (simp add: s' delivery_closed_open)
  moreover have "outbox_ok (dispatches s') (outbox s')"
    unfolding s' using outbox_ok_update [OF ok(6,7), of row new] row assms(4) new by simp
  moreover have "economy s'"
  proof (rule economy_kept [OF ok(5)])
    show "owes new i s = owes row i s" for i
      using assms(4) new by (simp add: not_owes_open)
    have "holder new s = holder row s"
      using new by (simp add: holder_def cancelledDispatchOwner_def cong: option.case_cong)
    with new show "price new s = price row s" by (simp add: price_def)
  qed (use row new in \<open>auto simp: s' intro!: same_owners_frame\<close>)
  moreover have "ledger_wf s'" "accounts_wf s'"
    using ok by (auto simp: s' accounts_wf_def intro!: ledger_wf_cong [OF _ _ _ _ ok(1)])
  ultimately show ?thesis by (simp add: system_ok_def)
qed

text \<open>What a claim that went through did.\<close>

lemma lockDispatch_Some:
  "lockDispatch d s = Some (row, q) \<Longrightarrow> find_dispatch (Some d) s = Some row \<and> find_quote (d_quote row) s = Some q"
  by (auto simp: lockDispatch_def bind_eq_Some_conv)

lemma claim_award_ok:
  assumes "claim_award now sqlNow row q p actor s = Inr (out, s')" "system_ok s"
    and row: "find_dispatch (Some d) s = Some row" "d_status row = OPEN"
  shows "system_ok s'"
proof -
  note ok = system_okD [OF assms(2)]
  note r = find_dispatch_Some [OF row(1)]
  from assms(1) obtain s1 s2 award where
    u: "update_candidate d p (\<lambda>c. c\<lparr>cand_status := CAND_CLAIMED, cand_claimedAt := Some now\<rparr>) s = Inr ((), s1)"
    and w: "update_dispatch sqlNow d
       (\<lambda>r. r\<lparr>d_status := CLAIMED, claimedByProvider := Some p, d_claimedAt := Some now\<rparr>) s1 = Inr ((), s2)"
    and ch: "chargeDispatchAward d (creditMode row) (ProviderOwner p) actor s2 = Inr (award, s')"
    using r by (auto simp: claim_award_def tx_simps)
  from u obtain oc where oc: "find_candidate d p s = Some oc"
    and cc: "candidate_check (oc\<lparr>cand_status := CAND_CLAIMED, cand_claimedAt := Some now\<rparr>)"
    and ck: "cand_key (oc\<lparr>cand_status := CAND_CLAIMED, cand_claimedAt := Some now\<rparr>) = (d, p)"
    and s1: "s1 = s\<lparr>candidates := update_rows (is_candidate d p)
        (\<lambda>_. oc\<lparr>cand_status := CAND_CLAIMED, cand_claimedAt := Some now\<rparr>) (candidates s)\<rparr>"
    by (rule update_candidate_Inr)
  let ?c = "oc\<lparr>cand_status := CAND_CLAIMED, cand_claimedAt := Some now\<rparr>"
  let ?cs = "update_rows (is_candidate d p) (\<lambda>_. ?c) (candidates s)"
  from w obtain old new rs where f: "find_dispatch (Some d) s1 = Some old"
    and c: "core new = core (old\<lparr>d_status := CLAIMED, claimedByProvider := Some p, d_claimedAt := Some now\<rparr>)"
    and chk: "dispatch_check new" "search_shape new" and hist: "award_history_guard old new s2 = None"
    and s2: "s2 = s1\<lparr>dispatches := update_rows (\<lambda>d. d_id d = d_id new) (\<lambda>_. new) (dispatches s1), rounds := rs\<rparr>"
    by (rule update_dispatch_Inr)
  from f row(1) have [simp]: "old = row" by (simp add: s1 find_dispatch_def)
  note new = coreD [OF c, simplified]
  have chk0: "dispatch_check row" using ok(3) r by (simp add: claims_ok_def list_all_iff)
  then have free: "claimedByProvider row = None" "claimedByIndependent row = None" "d_claimedAt row = None"
    using row(2) by (auto simp: dispatch_check_def no_claim_def)
  note fr = charge_frame [OF ch]
  note cf = candidate_update_facts [OF _ cc ck, of "candidates s"]
  have "list_all candidate_check (candidates s)" using ok(3) by (simp add: claims_ok_def)
  note cf = cf [OF this]
  have match: "claim_matches ?cs new"
  proof -
    have m: "claim_matches (candidates s) row" using ok(3) r by (simp add: claims_ok_def list_all_iff)
    have "(cand_status x = CAND_CLAIMED) = (claimedByProvider new = Some (cand_provider x))"
      if x: "x \<in> set ?cs" "cand_dispatch x = d" for x
    proof (cases "x = ?c")
      case True
      with ck new show ?thesis by (simp add: cand_key_def)
    next
      case False
      with cf(4) [OF x(1)] have y: "x \<in> set (candidates s)" "cand_provider x \<noteq> p" using x(2) by auto
      with claim_matches_claimed [OF m y(1)] x(2) r free new show ?thesis by simp
    qed
    moreover have "?c \<in> set ?cs"
      using find_candidate_Some [OF oc] unfolding in_update_rows by (intro bexI [of _ oc]) auto
    ultimately show ?thesis
      using new(2,5) r ck unfolding claim_matches_def list_all_iff list_ex_iff
      by (auto simp: cand_key_def intro!: bexI [of _ ?c])
  qed
  have claims: "claims_ok (dispatches s') (candidates s')"
  proof (rule claims_ok_settled [OF ok(3), where new = new])
    show "dispatches s' = update_rows (\<lambda>d. d_id d = d_id new) (\<lambda>_. new) (dispatches s)"
      by (simp add: fr s2 s1)
    show "map cand_key (candidates s') = map cand_key (candidates s)"
      "list_all candidate_check (candidates s')" "claim_matches (candidates s') new"
      using cf match by (simp_all add: fr s2 s1)
    show "x \<in> set (candidates s)" if "x \<in> set (candidates s')" "cand_dispatch x \<noteq> d_id new" for x
      using cf(3) that new r by (simp add: fr s2 s1)
  qed (rule chk)+
  moreover have "assignments_ok [] (dispatches s') (assignments s')"
  proof -
    have "delivery_closed [] (assignments s) new" using new free by (simp add: delivery_closed_def)
    with assignments_ok_update [OF ok(4,7), of row new] r row(2) new show ?thesis
      by (simp add: fr s2 s1)
  qed
  moreover have "outbox_ok (dispatches s') (outbox s')"
    using outbox_ok_update [OF ok(6,7), of row new] r row(2) new by (simp add: fr s2 s1)
  moreover have "economy s'"
  proof (rule economy_charged [OF ok(5,2), where ?s1.0 = s2 and new = new and old = row and mode = "creditMode row"])
    show "holder new s = Some (ProviderOwner p)"
      using new by (simp add: holder_def cancelledDispatchOwner_def)
    show "\<not> exempt (preAwards s) new" if "creditMode row = MONETIZED"
      using hist that new free by (auto simp: award_history_guard_def claim_of_def s2 s1 split: if_splits)
    show "chargeDispatchAward (d_id new) (creditMode row) (ProviderOwner p) actor s2 = Inr (award, s')"
      using ch new r by simp
  qed (use r row new in \<open>simp_all add: s2 s1\<close>)
  moreover have wf2: "ledger_wf s2" "accounts_wf s2"
    using ok by (auto simp: s2 s1 accounts_wf_def intro!: ledger_wf_cong [OF _ _ _ _ ok(1)])
  moreover have "ledger_wf s'" by (rule charge_wf [OF ch wf2(1)])
  moreover have "accounts_wf s'" by (rule fr(8) [OF wf2(2)])
  ultimately show ?thesis by (simp add: system_ok_def)
qed

lemma claim_tx_ok:
  assumes "claim_tx appNow dbNow sqlNow d p actor s = Inr (out, s')" "system_ok s"
  shows "system_ok s'"
proof -
  from assms(1) obtain row q c where l: "lockDispatch d s = Some (row, q)" and "find_candidate d p s = Some c"
    and rest: "(case claimRejection row (cand_status c) p (dispatchClaimTime appNow dbNow row) of
        Some AlreadyOwner \<Rightarrow>
          bindT (readT (\<lambda>s. list_ex (\<lambda>h. pre_dispatch h = d \<and> pre_actorType h = PROVIDER \<and> pre_actorId h = p
            \<and> Some (pre_awardedAt h) = d_claimedAt row) (preAwards s))) (\<lambda>historical. returnT (ClaimAlready historical))
      | Some (Rejected code) \<Rightarrow>
          if code = DISPATCH_EXPIRED \<and> d_status row = OPEN then
            bindT (expire_dispatch (dispatchClaimTime appNow dbNow row) sqlNow d) (\<lambda>_. returnT ClaimExpired)
          else throwT (Domain code)
      | None \<Rightarrow> claim_award (dispatchClaimTime appNow dbNow row) sqlNow row q p actor) s = Inr (out, s')"
    by (auto simp: claim_tx_def Let_def tx_simps)
  note row = lockDispatch_Some [OF l]
  show ?thesis
  proof (cases "claimRejection row (cand_status c) p (dispatchClaimTime appNow dbNow row)")
    case None
    with rest have "claim_award (dispatchClaimTime appNow dbNow row) sqlNow row q p actor s = Inr (out, s')" by simp
    moreover from None have "d_status row = OPEN" by (simp add: claim_allowed_iff)
    ultimately show ?thesis using row claim_award_ok assms(2) by blast
  next
    case (Some rej)
    show ?thesis
    proof (cases rej)
      case AlreadyOwner
      with Some rest assms(2) show ?thesis by (simp add: tx_simps)
    next
      case (Rejected code)
      with Some rest have "d_status row = OPEN"
        and "expire_dispatch (dispatchClaimTime appNow dbNow row) sqlNow d s = Inr ((), s')"
        by (auto simp: tx_simps split: if_splits)
      with expire_dispatch_ok [OF _ assms(2)] row show ?thesis by blast
    qed
  qed
qed

lemma claim_ok:
  assumes "system_ok s"
  shows "system_ok (snd (claim appNow dbNow sqlNow d p actor s))"
  using assms claim_tx_ok [of appNow dbNow sqlNow d p actor s]
  by (auto simp: claim_def split: sum.split claim_outcome.split)

subsection \<open>Release keeps the invariant\<close>

lemma release_tx_ok:
  assumes "release_tx now sqlNow d p actor s = Inr (out, s')" "system_ok s"
  shows "system_ok s'"
proof -
  note ok = system_okD [OF assms(2)]
  let ?rel = "\<lambda>c. c\<lparr>cand_status := CAND_RELEASED, cand_releasedAt := Some now\<rparr>"
  from assms(1) obtain row q s1 s2 where
    l: "lockDispatch d s = Some (row, q)" and held: "d_status row = CLAIMED" "claimedByProvider row = Some p"
    and none: "active_of d s = None"
    and u: "update_candidate d p ?rel s = Inr ((), s1)"
    and w: "update_dispatch sqlNow d
       (\<lambda>r. let r' = r\<lparr>d_status := (if d_expiresAt row \<le> now then EXPIRED else OPEN), claimedByProvider := None, d_claimedAt := None\<rparr> in
            if d_expiresAt row \<le> now then r'\<lparr>d_expiredAt := Some now\<rparr> else r') s1 = Inr ((), s2)"
    and rf: "refundDispatchAward (reversed_of row s) (ProviderOwner p) p PROVIDER_RELEASE (Some actor) s2 = Inr (snd out, s')"
    by (auto simp: release_tx_def Let_def tx_simps split: if_splits)
  note row = lockDispatch_Some [OF l]
  note r = find_dispatch_Some [OF conjunct1 [OF row]]
  from u obtain oc where oc: "find_candidate d p s = Some oc"
    and cc: "candidate_check (?rel oc)" and ck: "cand_key (?rel oc) = (d, p)"
    and s1: "s1 = s\<lparr>candidates := update_rows (is_candidate d p) (\<lambda>_. ?rel oc) (candidates s)\<rparr>"
    by (rule update_candidate_Inr)
  let ?cs = "update_rows (is_candidate d p) (\<lambda>_. ?rel oc) (candidates s)"
  from w obtain old new rs where f: "find_dispatch (Some d) s1 = Some old"
    and c: "core new = core (let r' = old\<lparr>d_status := (if d_expiresAt row \<le> now then EXPIRED else OPEN), claimedByProvider := None, d_claimedAt := None\<rparr> in
            if d_expiresAt row \<le> now then r'\<lparr>d_expiredAt := Some now\<rparr> else r')"
    and chk: "dispatch_check new" "search_shape new"
    and s2: "s2 = s1\<lparr>dispatches := update_rows (\<lambda>d. d_id d = d_id new) (\<lambda>_. new) (dispatches s1), rounds := rs\<rparr>"
    by (rule update_dispatch_Inr)
  from f row have [simp]: "old = row" by (simp add: s1 find_dispatch_def)
  have new: "d_id new = d" "claimedByProvider new = None" "d_status new \<in> {OPEN, EXPIRED}"
    using coreD [OF c] r by (auto simp: Let_def split: if_splits)
  note fr = refund_frame [OF rf]
  have "list_all candidate_check (candidates s)" using ok(3) by (simp add: claims_ok_def)
  note cf = candidate_update_facts [OF this cc ck]
  have match: "claim_matches ?cs new"
  proof -
    have m: "claim_matches (candidates s) row" using ok(3) r by (simp add: claims_ok_def list_all_iff)
    have "cand_status x \<noteq> CAND_CLAIMED" if x: "x \<in> set ?cs" "cand_dispatch x = d" for x
    proof (cases "x = ?rel oc")
      case False
      with cf(4) [OF x(1)] have y: "x \<in> set (candidates s)" "cand_provider x \<noteq> p" using x(2) by auto
      with claim_matches_claimed [OF m y(1)] x(2) r held show ?thesis by simp
    qed simp
    with new show ?thesis by (auto simp: claim_matches_def list_all_iff)
  qed
  have "claims_ok (dispatches s') (candidates s')"
  proof (rule claims_ok_settled [OF ok(3), where new = new])
    show "dispatches s' = update_rows (\<lambda>d. d_id d = d_id new) (\<lambda>_. new) (dispatches s)"
      by (simp add: fr s2 s1)
    show "map cand_key (candidates s') = map cand_key (candidates s)"
      "list_all candidate_check (candidates s')" "claim_matches (candidates s') new"
      using cf match by (simp_all add: fr s2 s1)
    show "x \<in> set (candidates s)" if "x \<in> set (candidates s')" "cand_dispatch x \<noteq> d_id new" for x
      using cf(3) that new by (simp add: fr s2 s1)
  qed (rule chk)+
  moreover have "assignments_ok [] (dispatches s') (assignments s')"
    using assignments_ok_dispatch [OF ok(4) refl, of new] none new
    by (auto simp: fr s2 s1 active_of_None delivery_closed_open)
  moreover have "outbox_ok (dispatches s') (outbox s')"
    using outbox_ok_update [OF ok(6,7), of row new] r held new by (simp add: fr s2 s1)
  moreover have wf2: "ledger_wf s2" "accounts_wf s2"
    using ok by (auto simp: s2 s1 accounts_wf_def intro!: ledger_wf_cong [OF _ _ _ _ ok(1)])
  moreover have "economy s'"
  proof (rule economy_refunded [OF ok(5) wf2(1), where new = new and old = row and owner = "ProviderOwner p"])
    show "holder row s = Some (ProviderOwner p)" using held by (simp add: holder_def cancelledDispatchOwner_def)
    show "refundDispatchAward (reversed_of row s) (ProviderOwner p) p PROVIDER_RELEASE (Some actor) s2 = Inr (snd out, s')"
      by (rule rf)
  qed (use r new in \<open>auto simp: s2 s1 reversed_of_def\<close>)
  moreover have "ledger_wf s'" by (rule refund_wf [OF rf wf2(1)])
  moreover have "accounts_wf s'" by (rule refund_accounts_wf [OF rf wf2(2)])
  ultimately show ?thesis by (simp add: system_ok_def)
qed

lemma commitT_keeps:
  assumes "\<And>a s'. m s = Inr (a, s') \<Longrightarrow> I s'" "I s"
  shows "I (snd (commitT m s))"
  using assms by (auto simp: commitT_def split: sum.splits)

lemma release_ok: "system_ok s \<Longrightarrow> system_ok (snd (release now sqlNow d p actor s))"
  unfolding release_def by (rule commitT_keeps) (use release_tx_ok in auto)

end
