(* ===== verification/Search_Worker.thy ===== *)
theory Search_Worker imports Dispatch_Service begin

text \<open>
  The worker of the automatic search, src/src/dispatch/dispatch-search.worker.ts: \<open>advance\<close> opens the
  next round of one lapsed dispatch or ends its search, \<open>runOnce\<close> does so for up to fifty that are
  due, each in a transaction of its own whose failure is only logged. The timer is left out: a run of
  the worker is a step like any other.
\<close>

datatype advance_outcome = NotDue | Stopped "stop_reason option" | Advanced nat

text \<open>\<open>skipped\<close> says whether \<open>SKIP LOCKED\<close> passed over the row because another transaction holds it.\<close>

definition stop_of :: "dispatch \<Rightarrow> db \<Rightarrow> stop_reason option" where
  "stop_of row s =
     (if \<not> client_of_request_active (d_request row) s then Some INTEGRATION_UNAVAILABLE
      else if \<not> zone_of_quote_active (d_quote row) s then Some SERVICE_UNAVAILABLE
      else None)"

definition find_round :: "id \<Rightarrow> nat \<Rightarrow> db \<Rightarrow> search_round option" where
  "find_round d n s = first_row (\<lambda>r. round_dispatch r = d \<and> round_attempt r = n) (rounds s)"

definition stop_search :: "instant \<Rightarrow> instant \<Rightarrow> id \<Rightarrow> stop_reason option \<Rightarrow> advance_outcome dtx" where
  "stop_search clock sqlNow d stop =
     bindT (update_dispatch sqlNow d
       (\<lambda>r. r\<lparr>d_status := EXPIRED, d_expiredAt := Some clock, searchStoppedReason := stop\<rparr>)) (\<lambda>_.
     returnT (Stopped stop))"

definition next_round :: "instant \<Rightarrow> id \<Rightarrow> advance_outcome dtx" where
  "next_round sqlNow d =
     bindT (update_dispatch sqlNow d (\<lambda>r. r\<lparr>searchAttempt := searchAttempt r + 1\<rparr>)) (\<lambda>_.
     bindT (requireT (find_dispatch (Some d)) NotFound) (\<lambda>row.
     bindT (requireT (find_round d (searchAttempt row)) NotFound) (\<lambda>r.
     bindT (mapT (insert_candidate True d (round_openedAt r)) (round_providers r)) (\<lambda>_.
     returnT (Advanced (searchAttempt row))))))"

definition advance_tx :: "bool \<Rightarrow> instant \<Rightarrow> instant \<Rightarrow> id \<Rightarrow> id \<Rightarrow> advance_outcome dtx" where
  "advance_tx skipped clock sqlNow d requestId =
     bindT getT (\<lambda>s.
     (case first_row (\<lambda>x. d_id x = d \<and> d_request x = requestId) (dispatches s) of
        None \<Rightarrow> returnT NotDue
      | Some row \<Rightarrow>
          if skipped \<or> status_of_request requestId s \<noteq> Some CREATED then returnT NotDue
          else if d_status row \<noteq> OPEN \<or> searchMaxAttempts row \<noteq> 5 \<or> searchStoppedReason row \<noteq> None
             \<or> clock < d_expiresAt row
          then returnT NotDue
          else
            (let stop = stop_of row s in
             if stop \<noteq> None \<or> searchAttempt row = 5 then stop_search clock sqlNow d stop
             else next_round sqlNow d)))"

definition advance :: "bool \<Rightarrow> instant \<Rightarrow> instant \<Rightarrow> id \<Rightarrow> id \<Rightarrow> db \<Rightarrow> (failure + advance_outcome) \<times> db" where
  "advance skipped clock sqlNow d requestId = commitT (advance_tx skipped clock sqlNow d requestId)"

definition due_rows :: "instant \<Rightarrow> db \<Rightarrow> dispatch list" where
  "due_rows now s =
     take 50 (sort_key d_expiresAt (sort_key d_id (filter (\<lambda>d. d_status d = OPEN \<and> searchMaxAttempts d = 5
       \<and> searchStoppedReason d = None \<and> d_expiresAt d \<le> now) (dispatches s))))"

text \<open>\<open>clocks\<close>: for each dispatch, whether its row was locked elsewhere and the times its pass reads.\<close>

definition runOnce :: "instant \<Rightarrow> (id \<Rightarrow> bool \<times> instant \<times> instant) \<Rightarrow> db \<Rightarrow> db" where
  "runOnce now clocks s =
     fold (\<lambda>row s. case clocks (d_id row) of (skipped, clock, sqlNow) \<Rightarrow>
       snd (advance skipped clock sqlNow (d_id row) (d_request row) s)) (due_rows now s) s"

subsection \<open>The worker keeps the invariant\<close>

lemma insert_candidate_ok:
  assumes "insert_candidate skip d at p s = Inr (u, s')" "system_ok s"
  shows "system_ok s'" "dispatches s' = dispatches s" "rounds s' = rounds s"
    "candidates s' = candidates s \<or> candidates s' = candidates s @
      [\<lparr>cand_dispatch = d, cand_provider = p, cand_status = CAND_OFFERED, cand_offeredAt = at,
        cand_claimedAt = None, cand_releasedAt = None\<rparr>]"
    "any_row (is_candidate d p) (candidates s')"
proof -
  note ok = system_okD [OF assms(2)]
  let ?c = "\<lparr>cand_dispatch = d, cand_provider = p, cand_status = CAND_OFFERED, cand_offeredAt = at,
        cand_claimedAt = None, cand_releasedAt = None\<rparr>"
  have "s' = s \<and> any_row (is_candidate d p) (candidates s) \<or>
      s' = s\<lparr>candidates := candidates s @ [?c]\<rparr> \<and> \<not> any_row (is_candidate d p) (candidates s)"
    and opened: "\<exists>r \<in> set (dispatches s). d_id r = d \<and> d_status r = OPEN"
    using assms(1) by (auto simp: insert_candidate_def tx_simps any_row_iff split: if_splits)
  then consider "s' = s" "any_row (is_candidate d p) (candidates s)"
    | "s' = s\<lparr>candidates := candidates s @ [?c]\<rparr>" "\<not> any_row (is_candidate d p) (candidates s)"
    by auto
  then have "system_ok s' \<and> dispatches s' = dispatches s \<and> rounds s' = rounds s \<and>
     (candidates s' = candidates s \<or> candidates s' = candidates s @ [?c]) \<and> any_row (is_candidate d p) (candidates s')"
  proof cases
    case 1
    with assms(2) show ?thesis by simp
  next
    case 2
    from opened obtain r where r: "r \<in> set (dispatches s)" "d_id r = d" "d_status r = OPEN" by auto
    have free: "claimedByProvider x \<noteq> Some p" if "x \<in> set (dispatches s)" "d_id x = d" for x
    proof -
      have "x = r" using unique_key [OF ok(7) that(1) r(1)] that(2) r(2) by simp
      moreover have "dispatch_check r" using ok(3) r(1) by (auto simp: claims_ok_def list_all_iff)
      ultimately show ?thesis using r(3) by (auto simp: dispatch_check_def no_claim_def)
    qed
    have key: "cand_key ?c \<notin> cand_key ` set (candidates s)"
      using 2(2) by (auto simp: any_row_iff cand_key_def)
    have m: "claim_matches (candidates s @ [?c]) x" if x: "x \<in> set (dispatches s)" for x
    proof -
      have "claim_matches (candidates s) x" using ok(3) x by (auto simp: claims_ok_def list_all_iff)
      then show ?thesis using free [OF x]
        by (auto simp: claim_matches_def list_all_iff list_ex_iff split: option.splits)
    qed
    have "claims_ok (dispatches s) (candidates s @ [?c])"
      using ok(3) r key m by (auto simp: claims_ok_def list_all_iff list_ex_iff candidate_check_def)
    moreover have "economy s'" by (rule economy_frame [OF ok(5)]) (simp_all add: 2(1) same_owners_frame)
    moreover have "ledger_wf s'" "accounts_wf s'"
      using ok by (auto simp: 2(1) accounts_wf_def intro!: ledger_wf_cong [OF _ _ _ _ ok(1)])
    ultimately show ?thesis using ok by (simp add: system_ok_def 2(1) any_row_iff)
  qed
  then show "system_ok s'" "dispatches s' = dispatches s" "rounds s' = rounds s"
    "candidates s' = candidates s \<or> candidates s' = candidates s @ [?c]"
    "any_row (is_candidate d p) (candidates s')" by blast+
qed

lemma insert_candidates_ok:
  "mapT (insert_candidate skip d at) ps s = Inr (us, s') \<Longrightarrow> system_ok s \<Longrightarrow> system_ok s'"
  by (rule mapT_invariant [where I = system_ok and f = "insert_candidate skip d at"])
    (use insert_candidate_ok(1) in blast)+

text \<open>A row that stays OPEN or becomes EXPIRED, whatever the search columns become.\<close>

lemma update_open_ok:
  assumes w: "update_dispatch sqlNow d change s = Inr (u, s')" and ok: "system_ok s"
    and row: "find_dispatch (Some d) s = Some row" "d_status row = OPEN"
    and to: "d_id (change row) = d" "d_status (change row) \<in> {OPEN, EXPIRED}"
      "claimedByProvider (change row) = claimedByProvider row"
  shows "system_ok s'"
proof -
  note k = system_okD [OF ok]
  note r = find_dispatch_Some [OF row(1)]
  from w obtain old new rs where f: "find_dispatch (Some d) s = Some old"
    and c: "core new = core (change old)" and chk: "dispatch_check new" "search_shape new"
    and s': "s' = s\<lparr>dispatches := update_rows (\<lambda>d. d_id d = d_id new) (\<lambda>_. new) (dispatches s), rounds := rs\<rparr>"
    by (rule update_dispatch_Inr)
  from f row(1) have [simp]: "old = row" by simp
  note new = coreD [OF c, simplified]
  have id: "d_id new = d" and st: "d_status new \<notin> {CLAIMED, DELIVERED}" using new to by auto
  have "claims_ok (dispatches s') (candidates s')"
    unfolding s' using claims_ok_dispatch [OF k(3) _ _ _ chk, of row] r id new to by simp
  moreover have "assignments_ok [] (dispatches s') (assignments s')"
    using assignments_ok_update [OF k(4,7), of row new] r row(2) id delivery_closed_open [OF st] by (simp add: s')
  moreover have "outbox_ok (dispatches s') (outbox s')"
    unfolding s' using outbox_ok_update [OF k(6,7), of row new] r row(2) id by simp
  moreover have "economy s'"
  proof (rule economy_settled [OF k(5) same_owners_frame])
    show "dispatches s' = update_rows (\<lambda>d. d_id d = d_id new) (\<lambda>_. new) (dispatches s)" by (simp add: s')
  next
    fix a
    assume "a \<in> set (accounts s')"
    then have "a \<in> set (accounts s)" by (simp add: s')
    from economyD [OF k(5) conjunct1 [OF r] this] row(2)
    have "service_sum (acc_id a) (d_id row) (ledger s) = 0" by (simp add: not_owes_open)
    with r id not_owes_open [OF st, of "acc_id a" s']
    show "service_sum (acc_id a) (d_id new) (ledger s') = (if owes new (acc_id a) s' then - price new s' else 0)"
      by (simp add: s')
  qed (simp_all add: s')
  moreover have "ledger_wf s'" "accounts_wf s'"
    using k by (auto simp: s' accounts_wf_def intro!: ledger_wf_cong [OF _ _ _ _ k(1)])
  ultimately show ?thesis by (simp add: system_ok_def)
qed

lemma advance_tx_ok:
  assumes "advance_tx skipped clock sqlNow d requestId s = Inr (out, s')" "system_ok s"
  shows "system_ok s'"
proof (cases "first_row (\<lambda>x. d_id x = d \<and> d_request x = requestId) (dispatches s)")
  case None
  with assms show ?thesis by (simp add: advance_tx_def tx_simps)
next
  case (Some row)
  have row: "find_dispatch (Some d) s = Some row"
    using first_row_Some [OF Some] find_dispatch_in [OF system_okD(7) [OF assms(2)], of row] by simp
  from assms(1) Some consider "s' = s"
    | "d_status row = OPEN" "stop_search clock sqlNow d (stop_of row s) s = Inr (out, s')"
    | "d_status row = OPEN" "next_round sqlNow d s = Inr (out, s')"
    by (auto simp: advance_tx_def tx_simps Let_def split: if_splits)
  then show ?thesis
  proof cases
    case 1
    with assms(2) show ?thesis by simp
  next
    case 2
    from 2(2) obtain u where w: "update_dispatch sqlNow d
       (\<lambda>r. r\<lparr>d_status := EXPIRED, d_expiredAt := Some clock, searchStoppedReason := stop_of row s\<rparr>) s = Inr (u, s')"
      by (auto simp: stop_search_def tx_simps)
    show ?thesis by (rule update_open_ok [OF w assms(2) row 2(1)]) (use find_dispatch_Some [OF row] in simp_all)
  next
    case 3
    from 3(2) obtain u s1 v and r :: search_round where w: "update_dispatch sqlNow d (\<lambda>r. r\<lparr>searchAttempt := searchAttempt r + 1\<rparr>) s = Inr (u, s1)"
      and c: "mapT (insert_candidate True d (round_openedAt r)) (round_providers r) s1 = Inr (v, s')"
      unfolding next_round_def tx_simps by blast
    have "system_ok s1"
      by (rule update_open_ok [OF w assms(2) row 3(1)]) (use find_dispatch_Some [OF row] 3(1) in simp_all)
    with c show ?thesis by (rule insert_candidates_ok)
  qed
qed

lemma advance_ok: "system_ok s \<Longrightarrow> system_ok (snd (advance skipped clock sqlNow d r s))"
  unfolding advance_def by (rule commitT_keeps) (rule advance_tx_ok)

lemma runOnce_ok:
  assumes "system_ok s"
  shows "system_ok (runOnce now clocks s)"
proof -
  have "system_ok (fold (\<lambda>row s. case clocks (d_id row) of (skipped, clock, sqlNow) \<Rightarrow>
       snd (advance skipped clock sqlNow (d_id row) (d_request row) s)) rows s)" for rows
    using assms by (induction rows arbitrary: s) (auto simp: advance_ok split: prod.split)
  then show ?thesis by (simp add: runOnce_def)
qed

subsection \<open>What a pass of the worker achieves\<close>









end
