(* ===== verification/Delivery_Assignments.thy ===== *)
theory Delivery_Assignments imports Dispatch_Service begin

text \<open>
  A provider puts a driver and a vehicle on the dispatch it holds: \<open>create\<close>, \<open>reassign\<close> and
  \<open>cancel\<close> of src/src/delivery-assignments/delivery-assignments.service.ts, with the rules of
  assignment-policy.ts. \<open>documents\<close> is what \<open>verification_eligibility\<close> answers for a driver and a
  vehicle: the code of a refusal, or nothing. The free text of an end reason is left out.
\<close>

subsection \<open>Rules\<close>

definition pairingConflict :: "pairing list \<Rightarrow> id \<Rightarrow> id \<Rightarrow> bool" where
  "pairingConflict pairs driverId vehicleId \<longleftrightarrow>
     list_ex (\<lambda>p. (pair_driver p = driverId \<and> pair_vehicle p \<noteq> vehicleId) \<or>
                 (pair_vehicle p = vehicleId \<and> pair_driver p \<noteq> driverId)) pairs"

record assignment_deadline =
  deadline :: "instant option"
  overdue :: bool

definition assignmentDeadline :: "dispatch \<Rightarrow> bool \<Rightarrow> int \<Rightarrow> instant \<Rightarrow> assignment_deadline" where
  "assignmentDeadline d hasActiveAssignment ttlMinutes now =
     (case (d_claimedAt d) of
        Some t \<Rightarrow>
          if d_status d \<noteq> CLAIMED \<or> claimedByIndependent d \<noteq> None then \<lparr>deadline = None, overdue = False\<rparr>
          else
            (let end = t + ttlMinutes * millis_per_minute in
             \<lparr>deadline = Some end, overdue = (\<not> hasActiveAssignment \<and> end < now)\<rparr>)
      | None \<Rightarrow> \<lparr>deadline = None, overdue = False\<rparr>)"

subsection \<open>Locks\<close>

definition lockOwnedDispatch :: "id \<Rightarrow> id \<Rightarrow> dispatch dtx" where
  "lockOwnedDispatch d p =
     bindT (requireT (\<lambda>s. if any_row (is_candidate d p) (candidates s) then find_dispatch (Some d) s else None) NotFound) (\<lambda>row.
     bindT (guardT (d_status row = CLAIMED \<and> claimedByProvider row = Some p) (Domain DISPATCH_NOT_CLAIMED_BY_PROVIDER)) (\<lambda>_.
     returnT row))"

definition lockActive :: "id \<Rightarrow> assignment dtx" where
  "lockActive d = requireT (active_of d) (Domain NO_ACTIVE_ASSIGNMENT)"

definition lockEligibleResources :: "id \<Rightarrow> id \<Rightarrow> id \<Rightarrow> id option \<Rightarrow> unit dtx" where
  "lockEligibleResources p driverId vehicleId replacing =
     bindT (requireT (\<lambda>s. first_row (\<lambda>x. prov_id x = p) (providers s)) NotFound) (\<lambda>provider.
     bindT (requireT (\<lambda>s. first_row (\<lambda>x. drv_id x = driverId \<and> drv_provider x = Some p) (drivers s)) NotFound) (\<lambda>driver.
     bindT (requireT (\<lambda>s. first_row (\<lambda>x. veh_id x = vehicleId \<and> veh_provider x = Some p) (vehicles s)) NotFound) (\<lambda>vehicle.
     bindT (guardT (prov_active provider) (Domain PROVIDER_NOT_ACTIVE)) (\<lambda>_.
     bindT (guardT (drv_active driver \<and> drv_userActive driver) (Domain DRIVER_NOT_ELIGIBLE)) (\<lambda>_.
     bindT (guardT (veh_active vehicle) (Domain VEHICLE_NOT_ELIGIBLE)) (\<lambda>_.
     bindT (readT (\<lambda>s. filter (\<lambda>a. active a \<and> Some (asg_id a) \<noteq> replacing
        \<and> (asg_driver a = driverId \<or> asg_vehicle a = vehicleId)) (assignments s))) (\<lambda>busy.
     bindT (guardT (\<not> list_ex (\<lambda>a. asg_driver a = driverId) busy) (Domain DRIVER_BUSY)) (\<lambda>_.
     bindT (guardT (\<not> list_ex (\<lambda>a. asg_vehicle a = vehicleId) busy) (Domain VEHICLE_BUSY)) (\<lambda>_.
     bindT (readT (\<lambda>s. filter (\<lambda>x. pair_current x \<and> (pair_driver x = driverId \<or> pair_vehicle x = vehicleId)) (pairings s))) (\<lambda>pairs.
     guardT (\<not> pairingConflict pairs driverId vehicleId) (Domain DRIVER_VEHICLE_MISMATCH)))))))))))"

definition assertDocumentaryEligibility :: "(id \<Rightarrow> id \<Rightarrow> db \<Rightarrow> nat option) \<Rightarrow> id \<Rightarrow> id \<Rightarrow> unit dtx" where
  "assertDocumentaryEligibility documents driverId vehicleId s =
     (case documents driverId vehicleId s of None \<Rightarrow> Inr ((), s) | Some code \<Rightarrow> Inl (DocumentDomain code))"

lemma assertDocumentaryEligibility_Inr [tx_simps]:
  "assertDocumentaryEligibility documents i j s = Inr (u, s') \<longleftrightarrow> documents i j s = None \<and> s' = s"
  by (auto simp: assertDocumentaryEligibility_def split: option.splits)

lemma assertDocumentaryEligibility_Inl [tx_simps]:
  "assertDocumentaryEligibility documents i j s = Inl f \<longleftrightarrow> (\<exists>c. documents i j s = Some c \<and> f = DocumentDomain c)"
  by (auto simp: assertDocumentaryEligibility_def split: option.splits)

text \<open>\<open>transaction\<close>: a unique index that fires under the locks is a conflict.\<close>

definition assignment_conflict :: "failure \<Rightarrow> failure" where
  "assignment_conflict f = (if isUniqueViolation f then Domain ASSIGNMENT_CONFLICT else f)"

definition fleet_assignment :: "id \<Rightarrow> id \<Rightarrow> id \<Rightarrow> id \<Rightarrow> instant \<Rightarrow> id \<Rightarrow> assignment" where
  "fleet_assignment d p driverId vehicleId now user =
     \<lparr>asg_id = 0, asg_dispatch = d, asg_mode = FLEET, asg_provider = Some p, asg_profile = None,
      asg_driver = driverId, asg_vehicle = vehicleId, asg_status = ASG_ACTIVE, asg_assignedAt = now,
      asg_assignedBy = user, asg_endedAt = None, asg_endedBy = None, asg_endReason = None\<rparr>"

definition ended :: "assignment_status \<Rightarrow> instant \<Rightarrow> id option \<Rightarrow> end_reason option \<Rightarrow> assignment \<Rightarrow> assignment" where
  "ended status now user reason a =
     a\<lparr>asg_status := status, asg_endedAt := Some now, asg_endedBy := user, asg_endReason := reason\<rparr>"

subsection \<open>Handlers\<close>

definition create_tx ::
    "(id \<Rightarrow> id \<Rightarrow> db \<Rightarrow> nat option) \<Rightarrow> instant \<Rightarrow> id \<Rightarrow> id \<Rightarrow> id \<Rightarrow> id \<Rightarrow> id \<Rightarrow> id dtx" where
  "create_tx documents now d driverId vehicleId p user =
     bindT (lockOwnedDispatch d p) (\<lambda>_.
     bindT (readT (active_of d)) (\<lambda>assigned.
     bindT (guardT (assigned = None) (Domain DISPATCH_ALREADY_ASSIGNED)) (\<lambda>_.
     bindT (lockEligibleResources p driverId vehicleId None) (\<lambda>_.
     bindT (assertDocumentaryEligibility documents driverId vehicleId) (\<lambda>_.
     insert_assignment (fleet_assignment d p driverId vehicleId now user))))))"

definition create_assignment ::
    "(id \<Rightarrow> id \<Rightarrow> db \<Rightarrow> nat option) \<Rightarrow> instant \<Rightarrow> id \<Rightarrow> id \<Rightarrow> id \<Rightarrow> id \<Rightarrow> id \<Rightarrow> db \<Rightarrow> (failure + id) \<times> db" where
  "create_assignment documents now d driverId vehicleId p user =
     commitT (catchT (create_tx documents now d driverId vehicleId p user) assignment_conflict)"

definition reassign_tx ::
    "(id \<Rightarrow> id \<Rightarrow> db \<Rightarrow> nat option) \<Rightarrow> instant \<Rightarrow> id \<Rightarrow> id \<Rightarrow> id \<Rightarrow> end_reason \<Rightarrow> id \<Rightarrow> id \<Rightarrow> (id \<times> id) dtx" where
  "reassign_tx documents now d driverId vehicleId reason p user =
     bindT (lockOwnedDispatch d p) (\<lambda>_.
     bindT (lockActive d) (\<lambda>previous.
     bindT (guardT (\<not> (asg_driver previous = driverId \<and> asg_vehicle previous = vehicleId)) (Domain ASSIGNMENT_UNCHANGED)) (\<lambda>_.
     bindT (lockEligibleResources p driverId vehicleId (Some (asg_id previous))) (\<lambda>_.
     bindT (assertDocumentaryEligibility documents driverId vehicleId) (\<lambda>_.
     bindT (update_assignment (asg_id previous) (ended ASG_REASSIGNED now (Some user) (Some reason))) (\<lambda>_.
     bindT (insert_assignment (fleet_assignment d p driverId vehicleId now user)) (\<lambda>i.
     returnT (asg_id previous, i))))))))"

definition reassign ::
    "(id \<Rightarrow> id \<Rightarrow> db \<Rightarrow> nat option) \<Rightarrow> instant \<Rightarrow> id \<Rightarrow> id \<Rightarrow> id \<Rightarrow> end_reason \<Rightarrow> id \<Rightarrow> id \<Rightarrow> db
      \<Rightarrow> (failure + (id \<times> id)) \<times> db" where
  "reassign documents now d driverId vehicleId reason p user =
     commitT (catchT (reassign_tx documents now d driverId vehicleId reason p user) assignment_conflict)"

definition cancel_tx :: "instant \<Rightarrow> id \<Rightarrow> end_reason \<Rightarrow> id \<Rightarrow> id \<Rightarrow> id dtx" where
  "cancel_tx now d reason p user =
     bindT (lockOwnedDispatch d p) (\<lambda>_.
     bindT (lockActive d) (\<lambda>a.
     bindT (update_assignment (asg_id a) (ended ASG_CANCELLED now (Some user) (Some reason))) (\<lambda>_.
     returnT (asg_id a))))"

definition cancel_assignment :: "instant \<Rightarrow> id \<Rightarrow> end_reason \<Rightarrow> id \<Rightarrow> id \<Rightarrow> db \<Rightarrow> (failure + id) \<times> db" where
  "cancel_assignment now d reason p user = commitT (catchT (cancel_tx now d reason p user) assignment_conflict)"

text \<open>\<open>cancelActiveAssignments\<close>, for the dispatches of a cancelled request.\<close>

definition cancelActiveAssignments :: "id list \<Rightarrow> instant \<Rightarrow> id option \<Rightarrow> assignment list dtx" where
  "cancelActiveAssignments dispatchIds now user =
     bindT (readT (\<lambda>s. filter (\<lambda>a. List.member dispatchIds (asg_dispatch a) \<and> active a) (assignments s))) (\<lambda>found.
     bindT (mapT (\<lambda>a. update_assignment (asg_id a) (ended ASG_CANCELLED now user (Some DELIVERY_CANCELLED))) found) (\<lambda>_.
     returnT found))"

subsection \<open>The assignments stay consistent\<close>

lemma ended_sel [simp]:
  "asg_status (ended st now u r a) = st" "asg_dispatch (ended st now u r a) = asg_dispatch a"
  "asg_id (ended st now u r a) = asg_id a" "asg_mode (ended st now u r a) = asg_mode a"
  by (simp_all add: ended_def)

lemma insert_assignment_keeps:
  assumes i: "insert_assignment a0 s = Inr (i, s')" and ok: "assignments_ok X (dispatches s) (assignments s)"
  shows "assignments_ok X (dispatches s') (assignments s')"
proof -
  from i obtain a where a: "active a" "assignment_check a" "assignment_unique a (assignments s)"
    and g: "assignment_insert_guard a (s\<lparr>nextId := nextId s + 1\<rparr>) = None"
    and s': "s' = s\<lparr>nextId := nextId s + 1, assignments := assignments s @ [a]\<rparr>"
    by (rule insert_assignment_Inr)
  from g obtain d where d: "find_dispatch (Some (asg_dispatch a)) s = Some d" "d_status d = CLAIMED"
    and own: "if asg_mode a = FLEET then claimedByProvider d = asg_provider a
      else claimedByIndependent d = Some (asg_driver a)"
    by (auto simp: assignment_insert_guard_def Let_def find_dispatch_def split: if_splits)
  with a(2) have "carried_by a d" by (auto simp: carried_by_def assignment_check_def)
  with assignments_ok_insert [OF ok _ _ this a] find_dispatch_Some [OF d(1)] show ?thesis
    by (simp add: s')
qed

lemma insert_assignment_frame:
  assumes "insert_assignment a0 s = Inr (i, s')"
  shows "\<exists>as. s' = s\<lparr>nextId := nextId s + 1, assignments := as\<rparr>"
  using assms by (rule insert_assignment_Inr) blast

lemma end_assignment_keeps:
  assumes u: "update_assignment (asg_id a) (ended st now u r) s = Inr (v, s')"
    and ok: "assignments_ok X (dispatches s) (assignments s)" and a: "a \<in> set (assignments s)" and st: "st \<noteq> ASG_ACTIVE"
    and fleet: "\<And>d. d \<in> set (dispatches s) \<Longrightarrow> d_id d = asg_dispatch a \<Longrightarrow>
      claimedByIndependent d = None \<or> List.member X (d_id d)"
  shows "assignments_ok X (dispatches s') (assignments s')"
proof -
  from u obtain old where o: "old \<in> set (assignments s)" "asg_id old = asg_id a" "active old"
      "assignment_check (ended st now u r old)"
    and s': "s' = s\<lparr>assignments := update_rows (\<lambda>x. asg_id x = asg_id a) (\<lambda>_. ended st now u r old) (assignments s)\<rparr>"
    by (rule update_assignment_Inr)
  have "distinct (map asg_id (assignments s))" using ok by (simp add: assignments_ok_def)
  from unique_key [OF this o(1) a o(2)] have [simp]: "old = a" .
  show ?thesis
    unfolding s' using o st fleet
    by (simp add: assignments_ok_ended [OF ok a, where ended = "ended st now u r a"])
qed

lemma update_assignment_frame:
  assumes "update_assignment i change s = Inr (v, s')"
  shows "\<exists>as. s' = s\<lparr>assignments := as\<rparr>"
  using assms by (rule update_assignment_Inr) blast

text \<open>The rest of the invariant does not see assignments.\<close>

lemma system_ok_assignments:
  assumes "system_ok s" "s' = s\<lparr>nextId := n, assignments := as\<rparr>" "nextId s \<le> n"
    "assignments_ok [] (dispatches s) as"
  shows "system_ok s'"
proof -
  note ok = system_okD [OF assms(1)]
  have "economy s'"
    by (rule economy_frame [OF ok(5)]) (simp_all add: assms(2) same_owners_frame)
  moreover have "ledger_wf s'" "accounts_wf s'"
    using ok assms(3) by (auto simp: assms(2) accounts_wf_def intro!: ledger_wf_cong [OF _ _ _ _ ok(1)])
  ultimately show ?thesis using ok assms(4) by (simp add: system_ok_def assms(2))
qed

lemma held_by_provider:
  assumes "system_ok s" "d \<in> set (dispatches s)" "d_status d = CLAIMED" "claimedByProvider d = Some p"
  shows "claimedByIndependent d = None"
proof -
  have "dispatch_check d" using assms(1,2) by (auto simp: system_ok_def claims_ok_def list_all_iff)
  with assms(3,4) show ?thesis by (auto simp: dispatch_check_def one_claim_def)
qed

lemma lockOwnedDispatch_Inr:
  assumes "lockOwnedDispatch d p s = Inr (row, s')"
  shows "s' = s" "row \<in> set (dispatches s)" "d_id row = d" "d_status row = CLAIMED" "claimedByProvider row = Some p"
  using assms by (auto simp: lockOwnedDispatch_def tx_simps split: if_splits dest!: find_dispatch_Some)

lemma lockEligibleResources_frame:
  "lockEligibleResources p i j r s = Inr (u, s') \<Longrightarrow> s' = s"
  by (auto simp: lockEligibleResources_def tx_simps)

lemma insert_assignment_ok:
  assumes i: "insert_assignment a0 s = Inr (i, s')" and ok: "system_ok s"
  shows "system_ok s'"
proof -
  from insert_assignment_frame [OF i] obtain as where s': "s' = s\<lparr>nextId := nextId s + 1, assignments := as\<rparr>" ..
  moreover from this insert_assignment_keeps [OF i system_okD(4) [OF ok]]
  have "assignments_ok [] (dispatches s) as" by simp
  ultimately show ?thesis
    by (intro system_ok_assignments [where s = s and s' = s' and n = "nextId s + 1" and as = as] ok) simp_all
qed

lemma create_tx_ok:
  assumes "create_tx documents now d driverId vehicleId p user s = Inr (i, s')" "system_ok s"
  shows "system_ok s'"
proof -
  from assms(1) obtain row s1 v s2 where "lockOwnedDispatch d p s = Inr (row, s1)"
    and "lockEligibleResources p driverId vehicleId None s1 = Inr (v, s2)"
    and "insert_assignment (fleet_assignment d p driverId vehicleId now user) s2 = Inr (i, s')"
    unfolding create_tx_def tx_simps by blast
  then have i: "insert_assignment (fleet_assignment d p driverId vehicleId now user) s = Inr (i, s')"
    using lockOwnedDispatch_Inr(1) lockEligibleResources_frame by metis
  show ?thesis by (rule insert_assignment_ok [OF i assms(2)])
qed

lemma end_fleet_ok:
  assumes "system_ok s" "row \<in> set (dispatches s)" "d_id row = d" "d_status row = CLAIMED" "claimedByProvider row = Some p"
    and a: "active_of d s = Some a" and st: "st \<noteq> ASG_ACTIVE"
    and u: "update_assignment (asg_id a) (ended st now u r) s = Inr (v, s')"
  shows "system_ok s'" "dispatches s' = dispatches s"
proof -
  note ok = system_okD [OF assms(1)]
  note a' = active_of_Some [OF a]
  from update_assignment_frame [OF u] obtain as where s': "s' = s\<lparr>assignments := as\<rparr>" ..
  have "claimedByIndependent e = None" if "e \<in> set (dispatches s)" "d_id e = asg_dispatch a" for e
    using unique_key [OF ok(7) that(1) assms(2)] that(2) a' assms held_by_provider [OF assms(1,2,4,5)] by simp
  then have "assignments_ok [] (dispatches s') (assignments s')"
    using end_assignment_keeps [OF u ok(4) _ st] a' by blast
  with s' have "assignments_ok [] (dispatches s) as" "s' = s\<lparr>nextId := nextId s, assignments := as\<rparr>" by simp_all
  with assms(1) show "system_ok s'" by (intro system_ok_assignments [where s = s and s' = s' and n = "nextId s" and as = as]) auto
  show "dispatches s' = dispatches s" by (simp add: s')
qed

lemma reassign_tx_ok:
  assumes "reassign_tx documents now d driverId vehicleId reason p user s = Inr (r, s')" "system_ok s"
  shows "system_ok s'"
proof -
  from assms(1) obtain row a t1 v t2 w s1 i where row: "lockOwnedDispatch d p s = Inr (row, t1)"
    and a: "active_of d t1 = Some a"
    and t2: "lockEligibleResources p driverId vehicleId (Some (asg_id a)) t1 = Inr (v, t2)"
    and u: "update_assignment (asg_id a) (ended ASG_REASSIGNED now (Some user) (Some reason)) t2 = Inr (w, s1)"
    and i: "insert_assignment (fleet_assignment d p driverId vehicleId now user) s1 = Inr (i, s')"
    unfolding reassign_tx_def tx_simps lockActive_def by blast
  have [simp]: "t1 = s" by (rule lockOwnedDispatch_Inr(1) [OF row])
  have [simp]: "t2 = s" using lockEligibleResources_frame [OF t2] by simp
  have ok1: "system_ok s1"
    using end_fleet_ok(1) [OF assms(2) lockOwnedDispatch_Inr(2-5) [OF row] _ _ u [simplified]] a by simp
  show ?thesis by (rule insert_assignment_ok [OF i ok1])
qed

lemma cancel_tx_ok:
  assumes "cancel_tx now d reason p user s = Inr (r, s')" "system_ok s"
  shows "system_ok s'"
proof -
  from assms(1) obtain row a s1 where row: "lockOwnedDispatch d p s = Inr (row, s1)" and a: "active_of d s1 = Some a"
    and u: "update_assignment (asg_id a) (ended ASG_CANCELLED now (Some user) (Some reason)) s1 = Inr ((), s')"
    by (auto simp: cancel_tx_def tx_simps lockActive_def)
  have [simp]: "s1 = s" by (rule lockOwnedDispatch_Inr(1) [OF row])
  show ?thesis
    using end_fleet_ok(1) [OF assms(2) lockOwnedDispatch_Inr(2-5) [OF row] _ _ u [simplified]] a by simp
qed

lemma create_assignment_ok: "system_ok s \<Longrightarrow> system_ok (snd (create_assignment documents now d i j p u s))"
  unfolding create_assignment_def by (rule commitT_keeps) (auto simp: tx_simps intro: create_tx_ok)

lemma reassign_ok: "system_ok s \<Longrightarrow> system_ok (snd (reassign documents now d i j r p u s))"
  unfolding reassign_def by (rule commitT_keeps) (auto simp: tx_simps intro: reassign_tx_ok)

lemma cancel_assignment_ok: "system_ok s \<Longrightarrow> system_ok (snd (cancel_assignment now d r p u s))"
  unfolding cancel_assignment_def by (rule commitT_keeps) (auto simp: tx_simps intro: cancel_tx_ok)

end
