(* ===== verification/Delivery_Status.thy ===== *)
theory Delivery_Status imports Dispatch_Service begin

text \<open>
  The status an integrated client reads: \<open>deliveryStatusView\<close> of
  src/src/deliveries/delivery-status.ts over the rows its query selects, and \<open>b2bEventPayload\<close> of
  src/src/b2b-events/b2b-outbox.ts. In the schema a request has at most one dispatch; the newest of
  the table is the one the query takes.
\<close>

record status_view =
  sv_search :: "search_response option"
  sv_publicId :: nat
  sv_externalReference :: "string option"
  sv_status :: delivery_status
  sv_execution :: "execution_identity option"
  sv_requestedAt :: instant
  sv_deliveredAt :: "instant option"
  sv_cancelledAt :: "instant option"

text \<open>\<open>publicName\<close>: a text that is not blank for \<open>String.prototype.trim\<close>.\<close>

definition js_space :: "char \<Rightarrow> bool" where
  "js_space c \<longleftrightarrow> (of_char c :: nat) \<in> {9, 10, 11, 12, 13, 32, 160}"

definition publicName :: "string option \<Rightarrow> string option" where
  "publicName v = (case v of None \<Rightarrow> None | Some n \<Rightarrow> if list_all js_space n then None else Some n)"

definition historicalIdentity :: "execution_identity option \<Rightarrow> execution_by \<Rightarrow> execution_identity" where
  "historicalIdentity recorded mode =
     \<lparr>id_mode = mode,
      id_provider = (if mode = ByProvider then publicName (Option.bind recorded id_provider) else None),
      id_driver = publicName (Option.bind recorded id_driver)\<rparr>"

fun DISPATCH_STATUS :: "dispatch_status \<Rightarrow> delivery_status" where
  "DISPATCH_STATUS OPEN = B_OPEN"
| "DISPATCH_STATUS CLAIMED = B_ASSIGNED"
| "DISPATCH_STATUS DELIVERED = B_DELIVERED"
| "DISPATCH_STATUS CANCELLED = B_CANCELLED"
| "DISPATCH_STATUS EXPIRED = B_EXPIRED"

definition dispatch_of_request :: "id \<Rightarrow> db \<Rightarrow> dispatch option" where
  "dispatch_of_request r s = first_row (\<lambda>d. d_request d = r) (rev (dispatches s))"

definition execution_mode_of :: "dispatch \<Rightarrow> execution_by option" where
  "execution_mode_of d =
     (if claimedByProvider d \<noteq> None then Some ByProvider
      else if claimedByIndependent d \<noteq> None then Some ByIndependent
      else None)"

definition claimer_name :: "dispatch \<Rightarrow> db \<Rightarrow> string option" where
  "claimer_name d s =
     Option.bind (first_row (\<lambda>c. cand_dispatch c = d_id d \<and> cand_status c = CAND_CLAIMED
         \<and> Some (cand_provider c) = claimedByProvider d) (candidates s))
       (\<lambda>c. map_option prov_name (first_row (\<lambda>p. prov_id p = cand_provider c) (providers s)))"

definition carrier_name :: "dispatch \<Rightarrow> db \<Rightarrow> string option" where
  "carrier_name d s =
     Option.bind (active_of (d_id d) s)
       (\<lambda>a. Option.bind (first_row (\<lambda>r. drv_id r = asg_driver a) (drivers s)) drv_displayName)"

definition execution_view :: "dispatch \<Rightarrow> delivery_status \<Rightarrow> db \<Rightarrow> execution_identity option" where
  "execution_view d status s =
     (case execution_mode_of d of
        None \<Rightarrow> None
      | Some mode \<Rightarrow>
          if status = B_DELIVERED then Some (historicalIdentity (d_identity d) mode)
          else if status = B_ASSIGNED then
            Some \<lparr>id_mode = mode,
                  id_provider = (if mode = ByProvider then publicName (claimer_name d s) else None),
                  id_driver = publicName (carrier_name d s)\<rparr>
          else if status = B_CANCELLED then Some \<lparr>id_mode = mode, id_provider = None, id_driver = None\<rparr>
          else None)"

definition deliveryStatusView :: "request \<Rightarrow> instant \<Rightarrow> db \<Rightarrow> status_view" where
  "deliveryStatusView r now s =
     (case dispatch_of_request (req_id r) s of
        None \<Rightarrow>
          (let status = (if req_status r = REQ_CANCELLED then B_CANCELLED else B_REQUESTED) in
           \<lparr>sv_search = None, sv_publicId = req_publicId r, sv_externalReference = req_externalReference r,
            sv_status = status, sv_execution = None, sv_requestedAt = req_requestedAt r, sv_deliveredAt = None,
            sv_cancelledAt = (if status = B_CANCELLED then req_cancelledAt r else None)\<rparr>)
      | Some d \<Rightarrow>
          (let status = DISPATCH_STATUS (effectiveDispatchStatus d now) in
           \<lparr>sv_search = searchFields d now, sv_publicId = req_publicId r,
            sv_externalReference = req_externalReference r, sv_status = status,
            sv_execution = execution_view d status s, sv_requestedAt = req_requestedAt r,
            sv_deliveredAt = d_deliveredAt d,
            sv_cancelledAt =
              (if status = B_CANCELLED
               then (case req_cancelledAt r of None \<Rightarrow> d_cancelledAt d | Some t \<Rightarrow> Some t)
               else None)\<rparr>))"

definition b2bEventPayload :: "status_view \<Rightarrow> event_payload" where
  "b2bEventPayload v =
     \<lparr>pay_publicId = sv_publicId v, pay_externalReference = sv_externalReference v, pay_status = sv_status v,
      pay_execution = sv_execution v, pay_requestedAt = sv_requestedAt v, pay_deliveredAt = sv_deliveredAt v,
      pay_cancelledAt = sv_cancelledAt v\<rparr>"

subsection \<open>What a client may rely on\<close>

lemma DISPATCH_STATUS_inj: "DISPATCH_STATUS a = DISPATCH_STATUS b \<longleftrightarrow> a = b"
  by (cases a; cases b) auto

lemma effective_delivered: "effectiveDispatchStatus d now = DELIVERED \<longleftrightarrow> d_status d = DELIVERED"
  by (simp add: effectiveDispatchStatus_def)

lemma effective_claimed: "effectiveDispatchStatus d now = CLAIMED \<longleftrightarrow> d_status d = CLAIMED"
  by (simp add: effectiveDispatchStatus_def)

text \<open>
  C24: The fields of the public status agree with each other: deliveredAt is present exactly when the
  status is DELIVERED, an ASSIGNED or DELIVERED status always names how the service is executed (by a
  provider or by an independent driver), a REQUESTED, OPEN or EXPIRED status names nobody, and
  cancelledAt only comes with CANCELLED.
\<close>

theorem status_fields_agree:
  assumes "system_ok s"
  shows "(sv_deliveredAt (deliveryStatusView r now s) \<noteq> None \<longleftrightarrow> sv_status (deliveryStatusView r now s) = B_DELIVERED)
    \<and> (sv_status (deliveryStatusView r now s) \<in> {B_ASSIGNED, B_DELIVERED} \<longrightarrow> sv_execution (deliveryStatusView r now s) \<noteq> None)
    \<and> (sv_status (deliveryStatusView r now s) \<in> {B_REQUESTED, B_OPEN, B_EXPIRED} \<longrightarrow> sv_execution (deliveryStatusView r now s) = None)
    \<and> (sv_cancelledAt (deliveryStatusView r now s) \<noteq> None \<longrightarrow> sv_status (deliveryStatusView r now s) = B_CANCELLED)"
proof (cases "dispatch_of_request (req_id r) s")
  case None
  then show ?thesis by (simp add: deliveryStatusView_def Let_def)
next
  case (Some d)
  then have "d \<in> set (dispatches s)" by (auto simp: dispatch_of_request_def dest: first_row_Some)
  with assms have c: "dispatch_check d" by (auto simp: system_ok_def claims_ok_def list_all_iff)
  show ?thesis
    using c Some
    by (cases "d_status d"; cases "effectiveDispatchStatus d now")
      (auto simp: deliveryStatusView_def Let_def dispatch_check_def no_claim_def one_claim_def
        execution_view_def execution_mode_of_def effectiveDispatchStatus_def split: option.splits if_splits)
qed

end
