(* ===== verification/Delivery_Completion.thy ===== *)
theory Delivery_Completion imports Delivery_Assignments Delivery_Status begin

text \<open>
  The operational close of a service, for both execution models: \<open>completeDelivery\<close> and
  \<open>completing\<close> of src/src/deliveries/delivery-completion.ts, with the event it records in the same
  transaction (\<open>recordDeliveryCompleted\<close> of src/src/b2b-events/b2b-outbox.ts and the guards of
  \<open>B2bOutboxEvent\<close>). That the event is written by the transaction that delivers (\<open>xmin\<close>) holds by
  construction and is not tested again.
\<close>

subsection \<open>The event\<close>

definition event_guard :: "outbox_event \<Rightarrow> db \<Rightarrow> raised option" where
  "event_guard e s =
     (if \<not> any_row (\<lambda>d. d_id d = ev_dispatch e \<and> d_status d = DELIVERED
          \<and> d_deliveredAt d = Some (ev_occurredAt e)) (dispatches s)
      then Some RAISED_EVENT_INVALID
      else
        (case Option.bind (find_dispatch (Some (ev_dispatch e)) s) d_identity of
           None \<Rightarrow> Some RAISED_PUBLIC_EXECUTION_MISMATCH
         | Some i \<Rightarrow>
             if pay_execution (ev_payload e) \<noteq> Some i then Some RAISED_PUBLIC_EXECUTION_MISMATCH else None))"

definition event_check :: "outbox_event \<Rightarrow> bool" where
  "event_check e \<longleftrightarrow>
     pay_status (ev_payload e) = B_DELIVERED \<and> pay_deliveredAt (ev_payload e) = Some (ev_occurredAt e)"

definition insert_event :: "outbox_event \<Rightarrow> outbox_event dtx" where
  "insert_event e0 =
     bindT newId (\<lambda>i.
     bindT (readT (\<lambda>_. e0\<lparr>ev_id := i\<rparr>)) (\<lambda>e.
     bindT (raise_some (event_guard e)) (\<lambda>_.
     bindT (checkT (event_check e)) (\<lambda>_.
     bindT getT (\<lambda>s.
     bindT (uniqueT (\<not> any_row (\<lambda>x. ev_dispatch x = ev_dispatch e) (outbox s))) (\<lambda>_.
     bindT (\<lambda>s. Inr ((), s\<lparr>outbox := outbox s @ [e]\<rparr>)) (\<lambda>_.
     returnT e)))))))"

definition recordDeliveryCompleted :: "id \<Rightarrow> id \<Rightarrow> instant \<Rightarrow> outbox_event dtx" where
  "recordDeliveryCompleted d requestId occurredAt =
     bindT (requireT (\<lambda>s. first_row (\<lambda>r. req_id r = requestId) (requests s)) NotFound) (\<lambda>r.
     bindT (readT (deliveryStatusView r occurredAt)) (\<lambda>view.
     insert_event \<lparr>ev_id = 0, ev_client = req_client r, ev_request = requestId, ev_dispatch = d,
       ev_occurredAt = occurredAt, ev_payload = b2bEventPayload view\<rparr>))"

subsection \<open>Completion\<close>

datatype completion_actor = FleetActor id | IndependentActor id

fun notOwner :: "completion_actor \<Rightarrow> failure" where
  "notOwner (FleetActor _) = Domain DISPATCH_NOT_CLAIMED_BY_PROVIDER"
| "notOwner (IndependentActor _) = Domain DISPATCH_NOT_CLAIMED_BY_DRIVER"

fun owns :: "dispatch \<Rightarrow> completion_actor \<Rightarrow> bool" where
  "owns d (FleetActor p) = (claimedByProvider d = Some p)"
| "owns d (IndependentActor i) = (claimedByIndependent d = Some i)"

datatype completion_outcome =
    Completed id instant outbox_event
  | AlreadyCompleted "instant option" "id option"

definition completeDelivery :: "instant \<Rightarrow> instant \<Rightarrow> id \<Rightarrow> completion_actor \<Rightarrow> id \<Rightarrow> completion_outcome dtx" where
  "completeDelivery deliveredAt sqlNow d actor user =
     bindT (requireT (find_dispatch (Some d)) NotFound) (\<lambda>row.
     bindT (guardT (owns row actor) (notOwner actor)) (\<lambda>_.
     if d_status row = DELIVERED then returnT (AlreadyCompleted (d_deliveredAt row) (d_deliveredBy row))
     else
       bindT (guardT (d_status row = CLAIMED) (notOwner actor)) (\<lambda>_.
       bindT (lockActive d) (\<lambda>a.
       bindT (update_assignment (asg_id a) (ended ASG_COMPLETED deliveredAt (Some user) None)) (\<lambda>_.
       bindT (update_dispatch sqlNow d
         (\<lambda>r. r\<lparr>d_status := DELIVERED, d_deliveredAt := Some deliveredAt, d_deliveredBy := Some user\<rparr>)) (\<lambda>_.
       bindT (recordDeliveryCompleted d (d_request row) deliveredAt) (\<lambda>e.
       returnT (Completed (asg_id a) deliveredAt e))))))))"

definition completing :: "failure \<Rightarrow> failure" where
  "completing f =
     (if isDomainException f then f
      else if isGuardRejection f then Domain DELIVERY_CONFLICT
      else f)"

text \<open>\<open>DispatchService.complete\<close> and \<open>IndependentDispatchesService.complete\<close>.\<close>

definition complete_by_provider ::
    "instant \<Rightarrow> instant \<Rightarrow> id \<Rightarrow> id \<Rightarrow> id \<Rightarrow> db \<Rightarrow> (failure + completion_outcome) \<times> db" where
  "complete_by_provider now sqlNow d p user =
     commitT (catchT
       (bindT (requireT (find_candidate d p) NotFound) (\<lambda>_. completeDelivery now sqlNow d (FleetActor p) user))
       completing)"

definition complete_by_driver ::
    "instant \<Rightarrow> instant \<Rightarrow> id \<Rightarrow> id \<Rightarrow> db \<Rightarrow> (failure + completion_outcome) \<times> db" where
  "complete_by_driver now sqlNow user d =
     commitT (bindT (requireT (\<lambda>s. first_row (\<lambda>r. drv_user r = user) (drivers s)) NotFound) (\<lambda>driver.
       catchT (completeDelivery now sqlNow d (IndependentActor (drv_id driver)) user) completing))"

subsection \<open>Completion keeps the invariant\<close>

lemma dispatch_guard_None:
  assumes "dispatch_guard old new s = None"
  shows "transition_ok (d_status old) (d_status new)" "d_status old \<notin> {EXPIRED, CANCELLED, DELIVERED}"
    "d_status old = CLAIMED \<Longrightarrow> d_status new \<noteq> CLAIMED \<Longrightarrow> a \<in> set (assignments s) \<Longrightarrow> asg_dispatch a = d_id new
      \<Longrightarrow> \<not> active a"
    "d_status new = DELIVERED \<Longrightarrow>
      list_ex (\<lambda>a. asg_dispatch a = d_id new \<and> asg_status a = ASG_COMPLETED) (assignments s)"
  using assms by (auto simp: dispatch_guard_def any_row_iff list_ex_iff split: if_splits)

lemma insert_event_Inr:
  assumes "insert_event e0 s = Inr (e, s')"
  shows "e = e0\<lparr>ev_id := nextId s\<rparr>" "event_guard e (s\<lparr>nextId := nextId s + 1\<rparr>) = None" "event_check e"
    "\<And>x. x \<in> set (outbox s) \<Longrightarrow> ev_dispatch x \<noteq> ev_dispatch e0"
    "s' = s\<lparr>nextId := nextId s + 1, outbox := outbox s @ [e]\<rparr>"
  using assms by (auto simp: insert_event_def tx_simps any_row_iff)

lemma completeDelivery_Inr:
  assumes "completeDelivery now sqlNow d actor user s = Inr (out, s')"
  obtains (already) row where "find_dispatch (Some d) s = Some row" "owns row actor" "d_status row = DELIVERED"
      "out = AlreadyCompleted (d_deliveredAt row) (d_deliveredBy row)" "s' = s"
    | (completed) row a s1 s2 e where "find_dispatch (Some d) s = Some row" "owns row actor" "d_status row = CLAIMED"
      "active_of d s = Some a"
      "update_assignment (asg_id a) (ended ASG_COMPLETED now (Some user) None) s = Inr ((), s1)"
      "update_dispatch sqlNow d
         (\<lambda>r. r\<lparr>d_status := DELIVERED, d_deliveredAt := Some now, d_deliveredBy := Some user\<rparr>) s1 = Inr ((), s2)"
      "recordDeliveryCompleted d (d_request row) now s2 = Inr (e, s')" "out = Completed (asg_id a) now e"
proof -
  from assms obtain row where row: "find_dispatch (Some d) s = Some row" "owns row actor"
    by (auto simp: completeDelivery_def tx_simps)
  show ?thesis
  proof (cases "d_status row = DELIVERED")
    case True
    with assms row already show ?thesis by (auto simp: completeDelivery_def tx_simps)
  next
    case False
    with assms row obtain a s1 s2 e where "d_status row = CLAIMED" "active_of d s = Some a"
      "update_assignment (asg_id a) (ended ASG_COMPLETED now (Some user) None) s = Inr ((), s1)"
      "update_dispatch sqlNow d
         (\<lambda>r. r\<lparr>d_status := DELIVERED, d_deliveredAt := Some now, d_deliveredBy := Some user\<rparr>) s1 = Inr ((), s2)"
      "recordDeliveryCompleted d (d_request row) now s2 = Inr (e, s')" "out = Completed (asg_id a) now e"
      by (auto simp: completeDelivery_def lockActive_def tx_simps)
    with row completed show ?thesis by blast
  qed
qed

lemma completeDelivery_ok:
  assumes "completeDelivery now sqlNow d actor user s = Inr (out, s')" "system_ok s"
  shows "system_ok s'"
  using assms(1)
proof (cases rule: completeDelivery_Inr)
  case already
  with assms(2) show ?thesis by simp
next
  case (completed row a s1 s2 e)
  note ok = system_okD [OF assms(2)]
  note r = find_dispatch_Some [OF completed(1)]
  note a = active_of_Some [OF completed(4)]
  from update_assignment_frame [OF completed(5)] obtain as where s1: "s1 = s\<lparr>assignments := as\<rparr>" ..
  have as1: "assignments_ok [d] (dispatches s) as"
    using end_assignment_keeps [OF completed(5) assignments_ok_weaken [OF ok(4), of "[d]"]] a s1 by simp
  from completed(6) obtain old new rs where f: "find_dispatch (Some d) s1 = Some old"
    and c: "core new = core (old\<lparr>d_status := DELIVERED, d_deliveredAt := Some now, d_deliveredBy := Some user\<rparr>)"
    and g: "dispatch_guard old (old\<lparr>d_status := DELIVERED, d_deliveredAt := Some now, d_deliveredBy := Some user\<rparr>) s1 = None"
    and chk: "dispatch_check new" "search_shape new"
    and s2: "s2 = s1\<lparr>dispatches := update_rows (\<lambda>d. d_id d = d_id new) (\<lambda>_. new) (dispatches s1), rounds := rs\<rparr>"
    by (rule update_dispatch_Inr)
  from f completed(1) have [simp]: "old = row" by (simp add: s1 find_dispatch_def)
  note new = coreD [OF c, simplified]
  from completed(7) obtain e0 where ev: "insert_event e0 s2 = Inr (e, s')" and e0: "ev_dispatch e0 = d"
      "ev_request e0 = d_request row" "ev_occurredAt e0 = now"
    by (auto simp: recordDeliveryCompleted_def tx_simps)
  note ie = insert_event_Inr [OF ev]
  let ?ds = "update_rows (\<lambda>d. d_id d = d_id new) (\<lambda>_. new) (dispatches s)"
  have s': "dispatches s' = ?ds" "candidates s' = candidates s" "assignments s' = as"
    "outbox s' = outbox s @ [e]" "ledger s' = ledger s" "accounts s' = accounts s" "nextId s' = nextId s + 1"
    "nextSequence s' = nextSequence s" "profiles s' = profiles s" "snapshots s' = snapshots s" "preAwards s' = preAwards s"
    using ie(5) by (simp_all add: s2 s1)
  have "claims_ok ?ds (candidates s)"
    using claims_ok_dispatch [OF ok(3) _ _ _ chk, of row] r new by simp
  moreover have "assignments_ok [] ?ds as"
  proof (rule assignments_ok_done)
    have "delivery_closed [d] as new"
      using dispatch_guard_None(4) [OF g] new r by (simp add: delivery_closed_def s1)
    moreover have "\<not> active x" if "x \<in> set as" "asg_dispatch x = d_id new" for x
      using dispatch_guard_None(3) [OF g, of x] that completed(3) new r by (simp add: s1)
    ultimately show "assignments_ok [d] ?ds as" by (intro assignments_ok_dispatch [OF as1 refl])
    show "delivery_closed [] as x" if x: "x \<in> set ?ds" "List.member [d] (d_id x)" for x
    proof -
      from x have "x = new" using new r by (auto simp: in_update_rows split: if_splits)
      with dispatch_guard_None(4) [OF g] new r show ?thesis by (simp add: delivery_closed_def s1)
    qed
  qed
  moreover have "outbox_ok ?ds (outbox s @ [e])"
  proof -
    have "outbox_ok ?ds (outbox s)" using outbox_ok_update [OF ok(6,7), of row new] r completed(3) new by simp
    moreover have "new \<in> set ?ds" using r new unfolding in_update_rows by (intro bexI [of _ row]) auto
    moreover have "d \<notin> ev_dispatch ` set (outbox s)" using ie(4) e0 by (force simp: s2 s1)
    ultimately show ?thesis
      using ie(1) e0 new r by (auto simp: outbox_ok_def list_ex_iff intro!: bexI [of _ new])
  qed
  moreover have "economy s'"
  proof (rule economy_kept [OF ok(5)])
    have h: "holder new u = holder row u" for u
      using new by (simp add: holder_def cancelledDispatchOwner_def cong: option.case_cong)
    have "exempt hs new = exempt hs row" for hs
      using new by (simp add: exempt_def claim_actor_def cong: option.case_cong)
    with h show "owes new i s = owes row i s" for i
      using completed(3) new by (simp add: owes_def holder_account_def)
    from h show "price new s = price row s" using new by (simp add: price_def)
  qed (use r new s' in \<open>auto intro!: same_owners_frame\<close>)
  moreover have "ledger_wf s'" "accounts_wf s'"
    using ok by (auto simp: s' accounts_wf_def intro!: ledger_wf_cong [OF _ _ _ _ ok(1)])
  ultimately show ?thesis by (simp add: system_ok_def s')
qed

lemma complete_by_provider_ok: "system_ok s \<Longrightarrow> system_ok (snd (complete_by_provider now sqlNow d p user s))"
  unfolding complete_by_provider_def by (rule commitT_keeps) (auto simp: tx_simps intro: completeDelivery_ok)

lemma complete_by_driver_ok: "system_ok s \<Longrightarrow> system_ok (snd (complete_by_driver now sqlNow user d s))"
  unfolding complete_by_driver_def by (rule commitT_keeps) (auto simp: tx_simps intro: completeDelivery_ok)

end
