(* ===== verification/Dispatch_Reversal.thy ===== *)
theory Dispatch_Reversal imports Delivery_Completion begin

text \<open>
  What the reversals share: a transaction that ends the assignment of a dispatch, closes or reopens
  the dispatch and gives the credits back. \<open>settling X\<close> is the invariant of the system while the
  dispatches of \<open>X\<close> have lost their assignment and are not yet closed.
\<close>

definition settling :: "id list \<Rightarrow> db \<Rightarrow> bool" where
  "settling X s \<longleftrightarrow>
     ledger_wf s \<and> accounts_wf s \<and> claims_ok (dispatches s) (candidates s) \<and>
     assignments_ok X (dispatches s) (assignments s) \<and> economy s \<and> outbox_ok (dispatches s) (outbox s)"

lemma settling_Nil: "settling [] s = system_ok s"
  by (simp add: settling_def system_ok_def)

lemma settlingD:
  assumes "settling X s"
  shows "ledger_wf s" "accounts_wf s" "claims_ok (dispatches s) (candidates s)"
    "assignments_ok X (dispatches s) (assignments s)" "economy s" "outbox_ok (dispatches s) (outbox s)"
    "distinct (map d_id (dispatches s))"
  using assms by (auto simp: settling_def claims_ok_def)

lemma settling_weaken: "system_ok s \<Longrightarrow> settling X s"
  by (simp add: settling_def system_ok_def assignments_ok_weaken)

text \<open>Ending an assignment of a dispatch that is still to be settled.\<close>

lemma settling_end:
  assumes u: "update_assignment (asg_id a) (ended st now u r) s = Inr (v, s')"
    and ok: "settling X s" and a: "a \<in> set (assignments s)" "List.member X (asg_dispatch a)" and st: "st \<noteq> ASG_ACTIVE"
  shows "settling X s'"
proof -
  note k = settlingD [OF ok]
  from update_assignment_frame [OF u] obtain as where s': "s' = s\<lparr>assignments := as\<rparr>" ..
  have "assignments_ok X (dispatches s') (assignments s')"
    using end_assignment_keeps [OF u k(4) a(1) st] a(2) by simp
  moreover have "economy s'" by (rule economy_frame [OF k(5)]) (simp_all add: s' same_owners_frame)
  moreover have "ledger_wf s'" "accounts_wf s'"
    using k by (auto simp: s' accounts_wf_def intro!: ledger_wf_cong [OF _ _ _ _ k(1)])
  ultimately show ?thesis using k by (simp add: settling_def s')
qed

lemma assignments_ok_settled:
  assumes ok: "assignments_ok X ds as" and ds: "distinct (map d_id ds)"
    and sub: "set X \<subseteq> insert (d_id new) (set Y)"
    and none: "\<And>a. a \<in> set as \<Longrightarrow> asg_dispatch a = d_id new \<Longrightarrow> \<not> active a"
    and closed: "d_status new \<notin> {CLAIMED, DELIVERED}"
  shows "assignments_ok Y (update_rows (\<lambda>d. d_id d = d_id new) (\<lambda>_. new) ds) as"
proof -
  let ?ds = "update_rows (\<lambda>d. d_id d = d_id new) (\<lambda>_. new) ds"
  have k: "assignments_ok X ?ds as"
    by (rule assignments_ok_dispatch [OF ok refl none delivery_closed_open [OF closed]])
  have "delivery_closed Y as d" if d: "d \<in> set ?ds" for d
  proof (cases "d_id d = d_id new")
    case True
    with d have "d = new" by (auto simp: in_update_rows split: if_splits)
    with closed show ?thesis by (simp add: delivery_closed_open)
  next
    case False
    from k d have "delivery_closed X as d" by (auto simp: assignments_ok_def list_all_iff)
    moreover have "List.member X (d_id d) \<longrightarrow> List.member Y (d_id d)" using sub False by auto
    ultimately show ?thesis by (auto simp: delivery_closed_def)
  qed
  with k show ?thesis by (auto simp: assignments_ok_def list_all_iff)
qed

text \<open>
  One dispatch is closed or reopened, and whoever held it is refunded; nobody is when nobody held it.
\<close>

lemma settle_dispatch:
  assumes w: "update_dispatch sqlNow d change s = Inr (u, s1)" and ok: "settling X s"
    and row: "find_dispatch (Some d) s = Some row"
    and to: "d_id (change row) = d" "d_status (change row) \<notin> {CLAIMED, DELIVERED}"
      "claimedByProvider (change row) = claimedByProvider row"
    and sub: "set X \<subseteq> insert d (set Y)"
    and paid: "case holder row s of None \<Rightarrow> s' = s1
      | Some owner \<Rightarrow> \<exists>r b reason actor out. refundDispatchAward r owner b reason actor s1 = Inr (out, s') \<and> rev_id r = d"
  shows "settling Y s'"
proof -
  note k = settlingD [OF ok]
  note r = find_dispatch_Some [OF row]
  from w obtain old new rs where f: "find_dispatch (Some d) s = Some old" and c: "core new = core (change old)"
    and g: "dispatch_guard old (change old) s = None" and chk: "dispatch_check new" "search_shape new"
    and s1: "s1 = s\<lparr>dispatches := update_rows (\<lambda>d. d_id d = d_id new) (\<lambda>_. new) (dispatches s), rounds := rs\<rparr>"
    by (rule update_dispatch_Inr)
  from f row have [simp]: "old = row" by simp
  note new = coreD [OF c, simplified]
  have id: "d_id new = d" using new to by simp
  have st: "d_status new \<notin> {CLAIMED, DELIVERED}" using new to by simp
  have none: "\<not> active a" if "a \<in> set (assignments s)" "asg_dispatch a = d" for a
  proof (cases "d_status row = CLAIMED")
    case True
    with dispatch_guard_None(3) [OF g _ _ that(1)] that(2) to show ?thesis by simp
  next
    case False
    with no_active_unless_claimed [OF k(4,7), of row a] r that show ?thesis by simp
  qed
  have cl: "claims_ok (dispatches s1) (candidates s1)"
    using claims_ok_dispatch [OF k(3) _ _ _ chk, of row] r id new to by (simp add: s1)
  have del: "d_status row \<noteq> DELIVERED"
    using dispatch_guard_None(2) [OF g] by auto
  have ob: "outbox_ok (dispatches s1) (outbox s1)"
    using outbox_ok_update [OF k(6,7), of row new] r id del by (simp add: s1)
  have as: "assignments_ok Y (dispatches s1) (assignments s1)"
    using assignments_ok_settled [OF k(4,7) _ _ st, of Y] sub none id by (simp add: s1)
  have wf: "ledger_wf s1" "accounts_wf s1"
    using k by (auto simp: s1 accounts_wf_def intro!: ledger_wf_cong [OF _ _ _ _ k(1)])
  show ?thesis
  proof (cases "holder row s")
    case None
    with paid have [simp]: "s' = s1" by simp
    have so: "same_owners s s1" by (rule same_owners_frame) (simp_all add: s1)
    have "economy s1"
    proof (rule economy_settled [OF k(5) so, where new = new])
      fix a
      assume "a \<in> set (accounts s1)"
      then have "a \<in> set (accounts s)" by (simp add: s1)
      from economyD [OF k(5) conjunct1 [OF r] this] None have "service_sum (acc_id a) (d_id row) (ledger s) = 0"
        by (simp add: owes_def holder_account_def)
      with r id not_owes_open [OF st, of "acc_id a" s1]
      show "service_sum (acc_id a) (d_id new) (ledger s1) = (if owes new (acc_id a) s1 then - price new s1 else 0)"
        by (simp add: s1)
    qed (simp_all add: s1)
    with cl ob as wf show ?thesis by (simp add: settling_def)
  next
    case (Some owner)
    with paid obtain r' b reason actor out where
      rf: "refundDispatchAward r' owner b reason actor s1 = Inr (out, s')" "rev_id r' = d" by auto
    note fr = refund_frame [OF rf(1)]
    have "economy s'"
      by (rule economy_refunded [OF k(5) wf(1), where new = new and old = row and owner = owner])
        (use Some rf r id st in \<open>auto simp: s1\<close>)
    with cl ob as refund_wf [OF rf(1) wf(1)] refund_accounts_wf [OF rf(1) wf(2)] show ?thesis
      by (simp add: settling_def fr)
  qed
qed

end
