(* ===== verification/Independent_Dispatches.thy ===== *)
theory Independent_Dispatches imports Dispatch_Reversal begin

text \<open>
  The independent side of a dispatch: \<open>take\<close>, \<open>release\<close> and their locks, from
  src/src/independent-drivers/independent-dispatches.service.ts. A take is the claim and the
  assignment in one transaction. The approval of the driver is read before the transaction, in the
  state \<open>before\<close>, and tested again under the locks. Completion is in Delivery_Completion.
\<close>

subsection \<open>The driver\<close>

definition profile_of :: "id \<Rightarrow> db \<Rightarrow> profile option" where
  "profile_of driverId s = first_row (\<lambda>p. prof_driver p = driverId) (profiles s)"

text \<open>\<open>ApprovedDriver\<close>: the driver and its profile.\<close>

definition approvedDriver :: "id \<Rightarrow> db \<Rightarrow> failure + (id \<times> id)" where
  "approvedDriver user s =
     (case first_row (\<lambda>r. drv_user r = user) (drivers s) of
        None \<Rightarrow> Inl NotFound
      | Some driver \<Rightarrow>
          (case profile_of (drv_id driver) s of
             None \<Rightarrow> Inl (Domain INDEPENDENT_NOT_APPROVED)
           | Some p \<Rightarrow>
               if prof_status p \<noteq> APPROVED then Inl (Domain INDEPENDENT_NOT_APPROVED)
               else Inr (drv_id driver, prof_id p)))"

definition lockEligibleResources_take :: "id \<Rightarrow> id \<Rightarrow> id \<Rightarrow> unit dtx" where
  "lockEligibleResources_take driverId profileId vehicleId =
     bindT (requireT (\<lambda>s. first_row (\<lambda>r. drv_id r = driverId) (drivers s)) NotFound) (\<lambda>driver.
     bindT (requireT (profile_of driverId) NotFound) (\<lambda>profile.
     bindT (guardT (drv_active driver \<and> drv_userActive driver) (Domain DRIVER_NOT_ELIGIBLE)) (\<lambda>_.
     bindT (guardT (prof_status profile = APPROVED) (Domain INDEPENDENT_NOT_APPROVED)) (\<lambda>_.
     bindT (requireT (\<lambda>s. first_row (\<lambda>v. veh_id v = vehicleId \<and> veh_profile v = Some profileId) (vehicles s)) NotFound) (\<lambda>vehicle.
     bindT (guardT (veh_active vehicle) (Domain VEHICLE_NOT_ELIGIBLE)) (\<lambda>_.
     bindT (readT (\<lambda>s. filter (\<lambda>a. active a \<and> (asg_driver a = driverId \<or> asg_vehicle a = vehicleId)) (assignments s))) (\<lambda>busy.
     bindT (guardT (\<not> list_ex (\<lambda>a. asg_driver a = driverId) busy) (Domain DRIVER_BUSY)) (\<lambda>_.
     guardT (\<not> list_ex (\<lambda>a. asg_vehicle a = vehicleId) busy) (Domain VEHICLE_BUSY)))))))))"

subsection \<open>Take\<close>

definition independent_assignment :: "id \<Rightarrow> id \<Rightarrow> id \<Rightarrow> id \<Rightarrow> instant \<Rightarrow> id \<Rightarrow> assignment" where
  "independent_assignment d profileId driverId vehicleId now user =
     \<lparr>asg_id = 0, asg_dispatch = d, asg_mode = INDEPENDENT, asg_provider = None, asg_profile = Some profileId,
      asg_driver = driverId, asg_vehicle = vehicleId, asg_status = ASG_ACTIVE, asg_assignedAt = now,
      asg_assignedBy = user, asg_endedAt = None, asg_endedBy = None, asg_endReason = None\<rparr>"

datatype take_outcome = TakeExpired | Taken id award_outcome

definition take_award ::
    "(id \<Rightarrow> id \<Rightarrow> db \<Rightarrow> nat option) \<Rightarrow> instant \<Rightarrow> instant \<Rightarrow> dispatch \<Rightarrow> id \<times> id \<Rightarrow> id \<Rightarrow> id \<Rightarrow> take_outcome dtx" where
  "take_award documents now sqlNow row actor vehicleId user =
     (case actor of (driverId, profileId) \<Rightarrow>
        bindT (lockEligibleResources_take driverId profileId vehicleId) (\<lambda>_.
        bindT (assertDocumentaryEligibility documents driverId vehicleId) (\<lambda>_.
        bindT (update_dispatch sqlNow (d_id row)
          (\<lambda>r. r\<lparr>d_status := CLAIMED, claimedByIndependent := Some driverId, d_claimedAt := Some now\<rparr>)) (\<lambda>_.
        bindT (insert_assignment (independent_assignment (d_id row) profileId driverId vehicleId now user)) (\<lambda>i.
        bindT (chargeDispatchAward (d_id row) (creditMode row) (IndependentOwner profileId) user) (\<lambda>award.
        returnT (Taken i award)))))))"

definition take_tx ::
    "(id \<Rightarrow> id \<Rightarrow> db \<Rightarrow> nat option) \<Rightarrow> instant \<Rightarrow> instant \<Rightarrow> instant \<Rightarrow> id \<Rightarrow> id \<times> id \<Rightarrow> id \<Rightarrow> id \<Rightarrow> take_outcome dtx" where
  "take_tx documents appNow dbNow sqlNow d actor vehicleId user =
     bindT (requireT (lockDispatch d) NotFound) (\<lambda>(row, q).
     let now = dispatchClaimTime appNow dbNow row in
     bindT (readT (\<lambda>s. any_row (\<lambda>a. asg_dispatch a = d \<and> asg_driver a = fst actor
        \<and> asg_status a = ASG_CANCELLED) (assignments s))) (\<lambda>released.
     (case takeRejection row (quote_service q) released now of
        Some code \<Rightarrow>
          if code = DISPATCH_EXPIRED \<and> d_status row = OPEN then
            bindT (expire_dispatch now sqlNow d) (\<lambda>_. returnT TakeExpired)
          else throwT (Domain code)
      | None \<Rightarrow> take_award documents now sqlNow row actor vehicleId user)))"

text \<open>\<open>transaction\<close>: what the guards and indexes refuse is a lost race; the answers of the domain pass.\<close>

definition take_conflict :: "failure \<Rightarrow> failure" where
  "take_conflict f =
     (if isDomainException f then f
      else if isUniqueViolation f \<or> isGuardRejection f then Domain TAKE_CONFLICT
      else f)"

definition take_dispatch ::
    "(id \<Rightarrow> id \<Rightarrow> db \<Rightarrow> nat option) \<Rightarrow> instant \<Rightarrow> instant \<Rightarrow> instant \<Rightarrow> id \<Rightarrow> id \<Rightarrow> id \<Rightarrow> db \<Rightarrow> db
      \<Rightarrow> (failure + take_outcome) \<times> db" where
  "take_dispatch documents appNow dbNow sqlNow user d vehicleId before s =
     (case approvedDriver user before of
        Inl f \<Rightarrow> (Inl f, s)
      | Inr actor \<Rightarrow>
          (case take_tx documents appNow dbNow sqlNow d actor vehicleId user s of
             Inl f \<Rightarrow> (Inl (charging (take_conflict f)), s)
           | Inr (TakeExpired, s') \<Rightarrow> (Inl (Domain DISPATCH_EXPIRED), s')
           | Inr (out, s') \<Rightarrow> (Inr out, s')))"

subsection \<open>Release\<close>

datatype release_reason =
    R_VEHICLE_ISSUE | R_PERSONAL_EMERGENCY | R_CANNOT_COMPLETE | R_OPERATIONAL_ISSUE | R_OTHER

fun RELEASE_END_REASON :: "release_reason \<Rightarrow> end_reason" where
  "RELEASE_END_REASON R_VEHICLE_ISSUE = VEHICLE_ISSUE"
| "RELEASE_END_REASON R_PERSONAL_EMERGENCY = DRIVER_UNAVAILABLE"
| "RELEASE_END_REASON R_CANNOT_COMPLETE = DRIVER_UNAVAILABLE"
| "RELEASE_END_REASON R_OPERATIONAL_ISSUE = OPERATIONAL_CHANGE"
| "RELEASE_END_REASON R_OTHER = OTHER"

definition end_active :: "instant \<Rightarrow> id \<Rightarrow> end_reason \<Rightarrow> assignment option \<Rightarrow> unit dtx" where
  "end_active now user reason assigned =
     (case assigned of
        None \<Rightarrow> returnT ()
      | Some a \<Rightarrow> update_assignment (asg_id a) (ended ASG_CANCELLED now (Some user) (Some reason)))"

definition release_independent_tx ::
    "instant \<Rightarrow> instant \<Rightarrow> id \<Rightarrow> id \<times> id \<Rightarrow> release_reason \<Rightarrow> id \<Rightarrow> (bool \<times> refund_outcome \<times> id option) dtx" where
  "release_independent_tx now sqlNow d actor reason user =
     bindT (requireT (lockDispatch d) NotFound) (\<lambda>(row, q).
     bindT (guardT (d_status row = CLAIMED \<and> claimedByIndependent row = Some (fst actor))
       (Domain DISPATCH_NOT_CLAIMED_BY_DRIVER)) (\<lambda>_.
     bindT (readT (active_of d)) (\<lambda>assigned.
     bindT (end_active now user (RELEASE_END_REASON reason) assigned) (\<lambda>_.
     bindT (readT (reversed_of row)) (\<lambda>awarded.
     let expired = d_expiresAt row \<le> now in
     bindT (update_dispatch sqlNow d
       (\<lambda>r. let r' = r\<lparr>d_status := (if expired then EXPIRED else OPEN), claimedByIndependent := None, d_claimedAt := None\<rparr> in
            if expired then r'\<lparr>d_expiredAt := Some now\<rparr> else r')) (\<lambda>_.
     bindT (refundDispatchAward awarded (IndependentOwner (snd actor)) (fst actor) INDEPENDENT_RELEASE (Some user)) (\<lambda>refund.
     returnT (expired, refund, map_option asg_id assigned))))))))"

definition release_independent ::
    "instant \<Rightarrow> instant \<Rightarrow> id \<Rightarrow> id \<Rightarrow> release_reason \<Rightarrow> db \<Rightarrow> db
      \<Rightarrow> (failure + (bool \<times> refund_outcome \<times> id option)) \<times> db" where
  "release_independent now sqlNow user d reason before s =
     (case approvedDriver user before of
        Inl f \<Rightarrow> (Inl f, s)
      | Inr actor \<Rightarrow> commitT (release_independent_tx now sqlNow d actor reason user) s)"

subsection \<open>Take keeps the invariant\<close>

lemma approvedDriver_profile:
  assumes "approvedDriver user s = Inr (driverId, profileId)"
  shows "map_option prof_id (profile_of driverId s) = Some profileId"
  using assms by (auto simp: approvedDriver_def split: option.splits if_splits)

lemma profile_of_same:
  "map profile_key (profiles s) = map profile_key (profiles t) \<Longrightarrow>
     map_option prof_id (profile_of i s) = map_option prof_id (profile_of i t)"
  unfolding profile_of_def by (rule profile_of_driver)

lemma holder_independent:
  assumes "claimedByProvider row = None" "claimedByIndependent row = Some i"
    "map_option prof_id (profile_of i s) = Some p"
  shows "holder row s = Some (IndependentOwner p)"
  using assms by (auto simp: holder_def cancelledDispatchOwner_def profile_of_def)

lemma lockEligibleResources_take_frame:
  "lockEligibleResources_take i p v s = Inr (u, s') \<Longrightarrow> s' = s"
  by (auto simp: lockEligibleResources_take_def tx_simps)

lemma take_award_ok:
  assumes "take_award documents now sqlNow row (i, p) v user s = Inr (out, s')" "system_ok s"
    and row: "find_dispatch (Some d) s = Some row" "d_status row = OPEN"
    and prof: "map_option prof_id (profile_of i s) = Some p"
  shows "system_ok s'"
proof -
  note ok = system_okD [OF assms(2)]
  note r = find_dispatch_Some [OF row(1)]
  from assms(1) obtain t u1 u2 s1 s2 j award where
    "lockEligibleResources_take i p v s = Inr (u1, t)"
    and w0: "update_dispatch sqlNow (d_id row)
       (\<lambda>r. r\<lparr>d_status := CLAIMED, claimedByIndependent := Some i, d_claimedAt := Some now\<rparr>) t = Inr (u2, s1)"
    and ins: "insert_assignment (independent_assignment (d_id row) p i v now user) s1 = Inr (j, s2)"
    and ch0: "chargeDispatchAward (d_id row) (creditMode row) (IndependentOwner p) user s2 = Inr (award, s')"
    unfolding take_award_def prod.case tx_simps by blast
  then have "t = s" using lockEligibleResources_take_frame by simp
  with w0 r have w: "update_dispatch sqlNow d
       (\<lambda>r. r\<lparr>d_status := CLAIMED, claimedByIndependent := Some i, d_claimedAt := Some now\<rparr>) s = Inr (u2, s1)" by simp
  from w obtain old new rs where f: "find_dispatch (Some d) s = Some old"
    and c: "core new = core (old\<lparr>d_status := CLAIMED, claimedByIndependent := Some i, d_claimedAt := Some now\<rparr>)"
    and chk: "dispatch_check new" "search_shape new" and hist: "award_history_guard old new s1 = None"
    and s1: "s1 = s\<lparr>dispatches := update_rows (\<lambda>d. d_id d = d_id new) (\<lambda>_. new) (dispatches s), rounds := rs\<rparr>"
    by (rule update_dispatch_Inr)
  from f row(1) have [simp]: "old = row" by simp
  note new = coreD [OF c, simplified]
  have chk0: "dispatch_check row" using ok(3) r by (simp add: claims_ok_def list_all_iff)
  then have free: "claimedByProvider row = None" "claimedByIndependent row = None" "d_claimedAt row = None"
    using row(2) by (auto simp: dispatch_check_def no_claim_def)
  from ins obtain a where a: "a = (independent_assignment (d_id row) p i v now user)\<lparr>asg_id := j\<rparr>"
    and s2: "s2 = s1\<lparr>nextId := nextId s1 + 1, assignments := assignments s1 @ [a]\<rparr>"
    by (rule insert_assignment_Inr)
  note fr = charge_frame [OF ch0]
  let ?ds = "update_rows (\<lambda>d. d_id d = d_id new) (\<lambda>_. new) (dispatches s)"
  have hold: "holder new s = Some (IndependentOwner p)"
    using new free prof by (intro holder_independent) simp_all
  have "claims_ok (dispatches s') (candidates s')"
    using claims_ok_dispatch [OF ok(3) _ _ _ chk, of row] r new by (simp add: fr s2 s1)
  moreover have "assignments_ok [] (dispatches s') (assignments s')"
  proof (rule assignments_ok_done)
    have "delivery_closed [d] (assignments s) new" using new r by (simp add: delivery_closed_def)
    with assignments_ok_update [OF assignments_ok_weaken [OF ok(4)] ok(7), of row new "[d]"] r row(2) new
    have "assignments_ok [d] (dispatches s1) (assignments s1)" by (simp add: s1)
    from insert_assignment_keeps [OF ins this]
    show "assignments_ok [d] (dispatches s') (assignments s')" by (simp add: fr)
    show "delivery_closed [] (assignments s') x" if x: "x \<in> set (dispatches s')" "List.member [d] (d_id x)" for x
    proof -
      from x have "x = new" using new r by (auto simp: fr s2 s1 in_update_rows split: if_splits)
      then show ?thesis
        using new r by (simp add: delivery_closed_def fr s2 s1 a independent_assignment_def)
    qed
  qed
  moreover have "outbox_ok (dispatches s') (outbox s')"
    using outbox_ok_update [OF ok(6,7), of row new] r row(2) new by (simp add: fr s2 s1)
  moreover have "economy s'"
  proof (rule economy_charged [OF ok(5,2), where ?s1.0 = s2 and new = new and old = row and mode = "creditMode row"])
    show "\<not> exempt (preAwards s) new" if "creditMode row = MONETIZED"
      using hist that new free by (auto simp: award_history_guard_def claim_of_def s1 split: if_splits)
    show "chargeDispatchAward (d_id new) (creditMode row) (IndependentOwner p) user s2 = Inr (award, s')"
      using ch0 new r by simp
  qed (use r row new hold in \<open>simp_all add: s2 s1\<close>)
  moreover have wf2: "ledger_wf s2" "accounts_wf s2"
    using ok by (auto simp: s2 s1 accounts_wf_def intro!: ledger_wf_cong [OF _ _ _ _ ok(1)])
  moreover have "ledger_wf s'" by (rule charge_wf [OF ch0 wf2(1)])
  moreover have "accounts_wf s'" by (rule fr(8) [OF wf2(2)])
  ultimately show ?thesis by (simp add: system_ok_def)
qed

lemma take_tx_ok:
  assumes "take_tx documents appNow dbNow sqlNow d (i, p) v user s = Inr (out, s')" "system_ok s"
    and prof: "map_option prof_id (profile_of i s) = Some p"
  shows "system_ok s'"
proof -
  from assms(1) obtain row q where l: "lockDispatch d s = Some (row, q)"
    and rest: "(case takeRejection row (quote_service q) (any_row (\<lambda>a. asg_dispatch a = d \<and> asg_driver a = i
        \<and> asg_status a = ASG_CANCELLED) (assignments s)) (dispatchClaimTime appNow dbNow row) of
        Some code \<Rightarrow>
          if code = DISPATCH_EXPIRED \<and> d_status row = OPEN then
            bindT (expire_dispatch (dispatchClaimTime appNow dbNow row) sqlNow d) (\<lambda>_. returnT TakeExpired)
          else throwT (Domain code)
      | None \<Rightarrow> take_award documents (dispatchClaimTime appNow dbNow row) sqlNow row (i, p) v user) s = Inr (out, s')"
    by (auto simp: take_tx_def Let_def tx_simps)
  note row = lockDispatch_Some [OF l]
  show ?thesis
  proof (cases "takeRejection row (quote_service q) (any_row (\<lambda>a. asg_dispatch a = d \<and> asg_driver a = i
        \<and> asg_status a = ASG_CANCELLED) (assignments s)) (dispatchClaimTime appNow dbNow row)")
    case None
    with rest have "take_award documents (dispatchClaimTime appNow dbNow row) sqlNow row (i, p) v user s = Inr (out, s')" by simp
    moreover from None have "d_status row = OPEN" by (simp add: take_allowed_iff)
    ultimately show ?thesis using row take_award_ok assms(2) prof by blast
  next
    case (Some code)
    with rest have "d_status row = OPEN"
      and "expire_dispatch (dispatchClaimTime appNow dbNow row) sqlNow d s = Inr ((), s')"
      by (auto simp: tx_simps split: if_splits)
    with expire_dispatch_ok [OF _ assms(2)] row show ?thesis by blast
  qed
qed

lemma take_dispatch_ok:
  assumes "system_ok s" "map profile_key (profiles before) = map profile_key (profiles s)"
  shows "system_ok (snd (take_dispatch documents appNow dbNow sqlNow user d v before s))"
proof (cases "approvedDriver user before")
  case (Inr actor)
  obtain i p where actor: "actor = (i, p)" by (cases actor)
  with Inr approvedDriver_profile profile_of_same [OF assms(2)]
  have "map_option prof_id (profile_of i s) = Some p" by metis
  then show ?thesis
    using assms(1) take_tx_ok [of documents appNow dbNow sqlNow d i p v user s]
    by (auto simp: take_dispatch_def Inr actor split: sum.split take_outcome.split)
qed (simp add: take_dispatch_def assms(1))

subsection \<open>Release keeps the invariant\<close>

lemma end_active_settling:
  assumes "end_active now user reason (active_of d s) s = Inr (u, s')" "system_ok s"
  shows "settling [d] s'" "dispatches s' = dispatches s" "profiles s' = profiles s" "preAwards s' = preAwards s"
proof -
  have "settling [d] s' \<and> dispatches s' = dispatches s \<and> profiles s' = profiles s \<and> preAwards s' = preAwards s"
  proof (cases "active_of d s")
    case None
    with assms show ?thesis by (simp add: end_active_def tx_simps settling_weaken)
  next
    case (Some a)
    with assms(1) have u: "update_assignment (asg_id a) (ended ASG_CANCELLED now (Some user) (Some reason)) s = Inr (u, s')"
      by (simp add: end_active_def)
    from update_assignment_frame [OF u] active_of_Some [OF Some] settling_end [OF u settling_weaken [OF assms(2)], of "[d]"]
    show ?thesis by auto
  qed
  then show "settling [d] s'" "dispatches s' = dispatches s" "profiles s' = profiles s" "preAwards s' = preAwards s" by auto
qed

lemma release_independent_tx_ok:
  assumes "release_independent_tx now sqlNow d (i, p) reason user s = Inr (out, s')" "system_ok s"
    and prof: "map_option prof_id (profile_of i s) = Some p"
  shows "system_ok s'"
proof -
  let ?ch = "\<lambda>row r. let r' = r\<lparr>d_status := (if d_expiresAt row \<le> now then EXPIRED else OPEN), claimedByIndependent := None, d_claimedAt := None\<rparr> in
            if d_expiresAt row \<le> now then r'\<lparr>d_expiredAt := Some now\<rparr> else r'"
  from assms(1) obtain row q s0 s1 refund u v where
    l: "lockDispatch d s = Some (row, q)" and held: "d_status row = CLAIMED" "claimedByIndependent row = Some i"
    and e: "end_active now user (RELEASE_END_REASON reason) (active_of d s) s = Inr (u, s0)"
    and w: "update_dispatch sqlNow d (?ch row) s0 = Inr (v, s1)"
    and rf: "refundDispatchAward (reversed_of row s0) (IndependentOwner p) i INDEPENDENT_RELEASE (Some user) s1 = Inr (refund, s')"
    by (auto simp: release_independent_tx_def Let_def tx_simps)
  note row = lockDispatch_Some [OF l]
  note r = find_dispatch_Some [OF conjunct1 [OF row]]
  note e' = end_active_settling [OF e assms(2)]
  have "dispatch_check row"
    using system_okD(3) [OF assms(2)] r by (simp add: claims_ok_def list_all_iff)
  with held have free: "claimedByProvider row = None" by (auto simp: dispatch_check_def one_claim_def)
  have h: "holder row s0 = Some (IndependentOwner p)"
    using free held prof e'(3) by (intro holder_independent) (simp_all add: profile_of_def)
  have "settling [] s'"
  proof (rule settle_dispatch [OF w e'(1), where row = row])
    show "find_dispatch (Some d) s0 = Some row" using row e'(2) by (simp add: find_dispatch_def)
    show "case holder row s0 of None \<Rightarrow> s' = s1
      | Some owner \<Rightarrow> \<exists>r b reason actor out. refundDispatchAward r owner b reason actor s1 = Inr (out, s') \<and> rev_id r = d"
      unfolding h option.case using rf r by (intro exI conjI) (assumption, simp add: reversed_of_def)
  qed (use r free in \<open>auto simp: Let_def\<close>)
  then show ?thesis by (simp add: settling_Nil)
qed

lemma release_independent_ok:
  assumes "system_ok s" "map profile_key (profiles before) = map profile_key (profiles s)"
  shows "system_ok (snd (release_independent now sqlNow user d reason before s))"
proof (cases "approvedDriver user before")
  case (Inr actor)
  obtain i p where actor: "actor = (i, p)" by (cases actor)
  with Inr approvedDriver_profile profile_of_same [OF assms(2)]
  have "map_option prof_id (profile_of i s) = Some p" by metis
  note k = release_independent_tx_ok [OF _ assms(1) this]
  show ?thesis
    unfolding release_independent_def Inr actor sum.case using assms(1) by (rule commitT_keeps [rotated]) (rule k)
qed (simp add: release_independent_def assms(1))

end
