(* ===== verification/Delivery_Cancellation.thy ===== *)
theory Delivery_Cancellation imports Independent_Dispatches begin

text \<open>
  The cancellation of a delivery request: \<open>cancel\<close> of
  src/src/delivery-requests/delivery-requests.service.ts and
  \<open>closeDispatchesForCancelledRequest\<close> of src/src/dispatch/dispatch-policy.ts, one transaction that
  cancels the request, closes its quotes and dispatches, ends their assignments and refunds whoever
  had been charged. The guards of \<open>DeliveryRequest\<close> and \<open>DeliveryQuote\<close> only see transitions that
  these writes respect. The free-text reason is left out.
\<close>

subsection \<open>Closing the dispatches\<close>

text \<open>
  The rows are read with a list of columns that has none of the search; in the code the missing
  \<open>searchMaxAttempts\<close> is not 5, for which 1 stands here.
\<close>

definition without_search :: "dispatch \<Rightarrow> dispatch" where
  "without_search row = row\<lparr>searchMaxAttempts := 1\<rparr>"

definition close_change :: "bool \<Rightarrow> instant \<Rightarrow> dispatch \<Rightarrow> dispatch" where
  "close_change expired now r =
     (if expired then r\<lparr>d_status := EXPIRED, d_expiredAt := Some now\<rparr>
      else r\<lparr>d_status := CANCELLED, d_cancelledAt := Some now\<rparr>)"

definition refund_owner :: "id option \<Rightarrow> dispatch \<Rightarrow> (award_owner \<times> id) option \<Rightarrow> refund_outcome list dtx" where
  "refund_owner user row owner =
     (case owner of
        None \<Rightarrow> returnT []
      | Some (account, boundaryActorId) \<Rightarrow>
          bindT (readT (reversed_of row)) (\<lambda>awarded.
          bindT (refundDispatchAward awarded account boundaryActorId REFUND_DELIVERY_CANCELLED user) (\<lambda>r.
          returnT [r])))"

definition close_row :: "instant \<Rightarrow> instant \<Rightarrow> id option \<Rightarrow> dispatch \<Rightarrow> (bool \<times> id \<times> refund_outcome list) dtx" where
  "close_row now sqlNow user row =
     (let expired = effectiveDispatchStatus (without_search row) now = EXPIRED in
      bindT (update_dispatch sqlNow (d_id row) (close_change expired now)) (\<lambda>_.
      bindT (readT (cancelledDispatchOwner row)) (\<lambda>owner.
      bindT (refund_owner user row owner) (\<lambda>refunds.
      returnT (expired, d_id row, refunds)))))"

definition closeDispatchesForCancelledRequest ::
    "id \<Rightarrow> instant \<Rightarrow> instant \<Rightarrow> id option \<Rightarrow> ((bool \<times> id \<times> refund_outcome list) list \<times> assignment list) dtx" where
  "closeDispatchesForCancelledRequest requestId now sqlNow user =
     bindT (readT (\<lambda>s. filter (\<lambda>d. d_request d = requestId \<and> (d_status d = OPEN \<or> d_status d = CLAIMED)) (dispatches s))) (\<lambda>rows.
     bindT (cancelActiveAssignments (map d_id rows) now user) (\<lambda>ends.
     bindT (mapT (close_row now sqlNow user) rows) (\<lambda>events.
     returnT (events, ends))))"

subsection \<open>The request\<close>

datatype delivery_actor = IntegrationActor id | UserActor id

fun actor_user :: "delivery_actor \<Rightarrow> id option" where
  "actor_user (IntegrationActor _) = None"
| "actor_user (UserActor u) = Some u"

definition find_request_scoped :: "delivery_actor \<Rightarrow> nat \<Rightarrow> db \<Rightarrow> request option" where
  "find_request_scoped actor publicId s =
     (case actor of
        IntegrationActor c \<Rightarrow> first_row (\<lambda>r. req_publicId r = publicId \<and> req_client r = c) (requests s)
      | UserActor _ \<Rightarrow> first_row (\<lambda>r. req_publicId r = publicId) (requests s))"

definition cancel_quote :: "id \<Rightarrow> instant \<Rightarrow> quote \<Rightarrow> quote" where
  "cancel_quote requestId now q =
     (if quote_request q = requestId \<and> quote_status q = Q_OFFERED then
        if quote_expiresAt q \<le> now then q\<lparr>quote_status := Q_EXPIRED, quote_expiredAt := Some now\<rparr>
        else q\<lparr>quote_status := Q_CANCELLED, quote_cancelledAt := Some now\<rparr>
      else q)"

definition cancel_request_rows :: "id \<Rightarrow> instant \<Rightarrow> unit dtx" where
  "cancel_request_rows i now s =
     Inr ((), s\<lparr>requests := update_rows (\<lambda>r. req_id r = i)
                 (\<lambda>r. r\<lparr>req_status := REQ_CANCELLED, req_cancelledAt := Some now\<rparr>) (requests s),
               quotes := map (cancel_quote i now) (quotes s)\<rparr>)"

datatype cancel_outcome =
    NotChanged
  | RequestCancelled "(bool \<times> id \<times> refund_outcome list) list" "assignment list"

definition cancel_request_tx :: "instant \<Rightarrow> instant \<Rightarrow> delivery_actor \<Rightarrow> nat \<Rightarrow> cancel_outcome dtx" where
  "cancel_request_tx now sqlNow actor publicId =
     bindT (requireT (find_request_scoped actor publicId) NotFound) (\<lambda>row.
     if req_status row \<noteq> CREATED then returnT NotChanged
     else
       bindT (cancel_request_rows (req_id row) now) (\<lambda>_.
       bindT (closeDispatchesForCancelledRequest (req_id row) now sqlNow (actor_user actor)) (\<lambda>closed.
       returnT (RequestCancelled (fst closed) (snd closed)))))"

definition cancel_request :: "instant \<Rightarrow> instant \<Rightarrow> delivery_actor \<Rightarrow> nat \<Rightarrow> db \<Rightarrow> (failure + cancel_outcome) \<times> db" where
  "cancel_request now sqlNow actor publicId = commitT (cancel_request_tx now sqlNow actor publicId)"

subsection \<open>Cancellation keeps the invariant\<close>

lemma update_dispatch_other:
  assumes "update_dispatch sqlNow d change s = Inr (u, s')" "d_id (change r) = d" "find_dispatch (Some d) s = Some r" "i \<noteq> d"
  shows "find_dispatch (Some i) s' = find_dispatch (Some i) s" "profiles s' = profiles s" "preAwards s' = preAwards s"
proof -
  from assms(1) obtain old new rs where f: "find_dispatch (Some d) s = Some old" and c: "core new = core (change old)"
    and s': "s' = s\<lparr>dispatches := update_rows (\<lambda>d. d_id d = d_id new) (\<lambda>_. new) (dispatches s), rounds := rs\<rparr>"
    by (rule update_dispatch_Inr)
  have "old = r" using f assms(3) by simp
  then have id: "d_id new = d" using coreD(2) [OF c] assms(2) by simp
  have "first_row (\<lambda>x. d_id x = i) (update_rows (\<lambda>x. d_id x = d_id new) (\<lambda>_. new) ds) = first_row (\<lambda>x. d_id x = i) ds" for ds
    using id assms(4) by (induction ds) (auto simp: first_row_def)
  then show "find_dispatch (Some i) s' = find_dispatch (Some i) s" by (simp add: s' find_dispatch_def)
  show "profiles s' = profiles s" "preAwards s' = preAwards s" by (simp_all add: s')
qed

lemma close_change_sel [simp]:
  "d_id (close_change e now r) = d_id r" "claimedByProvider (close_change e now r) = claimedByProvider r"
  "d_status (close_change e now r) \<noteq> CLAIMED" "d_status (close_change e now r) \<noteq> DELIVERED"
  by (simp_all add: close_change_def)

lemma close_row_ok:
  assumes "close_row now sqlNow user row s = Inr (out, s')" "settling X s"
    and row: "find_dispatch (Some (d_id row)) s = Some row" and sub: "set X \<subseteq> insert (d_id row) (set Y)"
  shows "settling Y s'" "i \<noteq> d_id row \<Longrightarrow> find_dispatch (Some i) s' = find_dispatch (Some i) s"
proof -
  let ?e = "effectiveDispatchStatus (without_search row) now = EXPIRED"
  from assms(1) obtain u s1 refunds where w: "update_dispatch sqlNow (d_id row) (close_change ?e now) s = Inr (u, s1)"
    and rf: "refund_owner user row (cancelledDispatchOwner row s1) s1 = Inr (refunds, s')"
    unfolding close_row_def Let_def tx_simps by blast
  from w obtain old new rs where
    s1: "s1 = s\<lparr>dispatches := update_rows (\<lambda>d. d_id d = d_id new) (\<lambda>_. new) (dispatches s), rounds := rs\<rparr>"
    by (rule update_dispatch_Inr)
  have own: "cancelledDispatchOwner row s1 = cancelledDispatchOwner row s"
    by (simp add: cancelledDispatchOwner_def s1 cong: option.case_cong)
  have "case holder row s of None \<Rightarrow> s' = s1
      | Some owner \<Rightarrow> \<exists>r b reason actor out. refundDispatchAward r owner b reason actor s1 = Inr (out, s') \<and> rev_id r = d_id row"
  proof (cases "cancelledDispatchOwner row s")
    case None
    with rf own show ?thesis by (simp add: holder_def refund_owner_def tx_simps)
  next
    case (Some ob)
    obtain owner b where [simp]: "ob = (owner, b)" by (cases ob)
    from rf own Some obtain out where "refundDispatchAward (reversed_of row s1) owner b REFUND_DELIVERY_CANCELLED user s1 = Inr (out, s')"
      by (auto simp: refund_owner_def tx_simps)
    moreover have "rev_id (reversed_of row s1) = d_id row" by (simp add: reversed_of_def)
    ultimately show ?thesis unfolding holder_def Some option.map option.case prod.sel \<open>ob = (owner, b)\<close> by blast
  qed
  then show "settling Y s'"
    by (intro settle_dispatch [OF w assms(2) row _ _ _ sub]) simp_all
  assume i: "i \<noteq> d_id row"
  have "dispatches s' = dispatches s1"
    using rf by (auto simp: refund_owner_def tx_simps refund_frame split: option.splits)
  with update_dispatch_other(1) [OF w _ row i] show "find_dispatch (Some i) s' = find_dispatch (Some i) s"
    by (simp add: find_dispatch_def)
qed

lemma close_rows_ok:
  assumes "mapT (close_row now sqlNow user) rows s = Inr (out, s')" "settling (map d_id rows) s"
    and "distinct (map d_id rows)" "\<forall>row \<in> set rows. find_dispatch (Some (d_id row)) s = Some row"
  shows "system_ok s'"
  using assms
proof (induction rows arbitrary: s out)
  case Nil
  then show ?case by (simp add: tx_simps settling_Nil)
next
  case (Cons row rows)
  from Cons.prems(1) obtain x s1 xs where 1: "close_row now sqlNow user row s = Inr (x, s1)"
    and 2: "mapT (close_row now sqlNow user) rows s1 = Inr (xs, s')"
    by (auto simp: tx_simps)
  have row: "find_dispatch (Some (d_id row)) s = Some row" using Cons.prems(4) by simp
  have "settling (map d_id rows) s1"
    by (rule close_row_ok(1) [OF 1 Cons.prems(2) row]) simp
  moreover have "\<forall>r \<in> set rows. find_dispatch (Some (d_id r)) s1 = Some r"
  proof
    fix r
    assume r: "r \<in> set rows"
    with Cons.prems(3) have "d_id r \<noteq> d_id row" by (auto simp: image_iff)
    then show "find_dispatch (Some (d_id r)) s1 = Some r"
      using Cons.prems(4) r close_row_ok(2) [OF 1 Cons.prems(2) row, of "map d_id rows" "d_id r"] by simp
  qed
  ultimately show ?case using Cons.IH [OF 2] Cons.prems(3) by simp
qed

lemma cancelActiveAssignments_ok:
  assumes "cancelActiveAssignments ids now user s = Inr (out, s')" "system_ok s"
  shows "settling ids s'" "dispatches s' = dispatches s"
proof -
  let ?found = "filter (\<lambda>a. List.member ids (asg_dispatch a) \<and> active a) (assignments s)"
  let ?f = "\<lambda>a. update_assignment (asg_id a) (ended ASG_CANCELLED now user (Some DELIVERY_CANCELLED))"
  from assms(1) obtain us where m: "mapT ?f ?found s = Inr (us, s')"
    by (auto simp: cancelActiveAssignments_def tx_simps)
  have "settling ids s' \<and> dispatches s' = dispatches s"
    if "mapT ?f as t = Inr (us, s')" "settling ids t" "dispatches t = dispatches s" "distinct (map asg_id as)"
      "\<forall>a \<in> set as. a \<in> set (assignments t) \<and> List.member ids (asg_dispatch a)" for as t us
    using that
  proof (induction as arbitrary: t us)
    case Nil
    then show ?case by (simp add: tx_simps)
  next
    case (Cons a as)
    from Cons.prems(1) obtain v t1 vs where 1: "?f a t = Inr (v, t1)" and 2: "mapT ?f as t1 = Inr (vs, s')"
      by (auto simp: tx_simps)
    have k: "settling ids t1" by (rule settling_end [OF 1 Cons.prems(2)]) (use Cons.prems(5) in auto)
    from 1 obtain old where
      t1: "t1 = t\<lparr>assignments := update_rows (\<lambda>x. asg_id x = asg_id a)
         (\<lambda>_. ended ASG_CANCELLED now user (Some DELIVERY_CANCELLED) old) (assignments t)\<rparr>"
      by (rule update_assignment_Inr)
    have "b \<in> set (assignments t1)" if b: "b \<in> set as" for b
    proof -
      have "asg_id b \<noteq> asg_id a" using Cons.prems(4) b by (auto simp: image_iff)
      moreover have "b \<in> set (assignments t)" using Cons.prems(5) b by simp
      ultimately show ?thesis unfolding t1 by (auto simp: in_update_rows intro!: bexI [of _ b])
    qed
    with Cons.prems k show ?case by (intro Cons.IH [OF 2 k]) (simp_all add: t1)
  qed
  note loop = this [OF m settling_weaken [OF assms(2)] refl]
  have "distinct (map asg_id ?found)"
    using system_okD(4) [OF assms(2)] by (simp add: assignments_ok_def distinct_map_filter)
  moreover have "\<forall>a \<in> set ?found. a \<in> set (assignments s) \<and> List.member ids (asg_dispatch a)" by simp
  ultimately have "settling ids s' \<and> dispatches s' = dispatches s" by (rule loop)
  then show "settling ids s'" "dispatches s' = dispatches s" by simp_all
qed

lemma closeDispatches_ok:
  assumes "closeDispatchesForCancelledRequest r now sqlNow user s = Inr (out, s')" "system_ok s"
  shows "system_ok s'"
proof -
  let ?rows = "filter (\<lambda>d. d_request d = r \<and> (d_status d = OPEN \<or> d_status d = CLAIMED)) (dispatches s)"
  from assms(1) obtain ends s1 events where 1: "cancelActiveAssignments (map d_id ?rows) now user s = Inr (ends, s1)"
    and 2: "mapT (close_row now sqlNow user) ?rows s1 = Inr (events, s')"
    unfolding closeDispatchesForCancelledRequest_def tx_simps by blast
  note c = cancelActiveAssignments_ok [OF 1 assms(2)]
  have dist: "distinct (map d_id (dispatches s))" by (rule system_okD(7) [OF assms(2)])
  show ?thesis
  proof (rule close_rows_ok [OF 2 c(1)])
    show "distinct (map d_id ?rows)" using dist by (rule distinct_map_filter)
    show "\<forall>row \<in> set ?rows. find_dispatch (Some (d_id row)) s1 = Some row"
      using find_dispatch_in [of s1] dist c(2) by auto
  qed
qed

text \<open>The request and its quotes are no part of the invariant.\<close>

lemma cancel_request_rows_ok:
  assumes "cancel_request_rows i now s = Inr (u, s')" "system_ok s"
  shows "system_ok s'"
proof -
  note ok = system_okD [OF assms(2)]
  from assms(1) obtain rs qs where s': "s' = s\<lparr>requests := rs, quotes := qs\<rparr>"
    by (auto simp: cancel_request_rows_def)
  have "economy s'" by (rule economy_frame [OF ok(5)]) (simp_all add: s' same_owners_frame)
  moreover have "ledger_wf s'" "accounts_wf s'"
    using ok by (auto simp: s' accounts_wf_def intro!: ledger_wf_cong [OF _ _ _ _ ok(1)])
  ultimately show ?thesis using ok by (simp add: system_ok_def s')
qed

lemma cancel_request_tx_ok:
  assumes "cancel_request_tx now sqlNow actor publicId s = Inr (out, s')" "system_ok s"
  shows "system_ok s'"
proof -
  from assms(1) obtain row where row: "find_request_scoped actor publicId s = Some row"
    and rest: "(if req_status row \<noteq> CREATED then returnT NotChanged
     else
       bindT (cancel_request_rows (req_id row) now) (\<lambda>_.
       bindT (closeDispatchesForCancelledRequest (req_id row) now sqlNow (actor_user actor)) (\<lambda>closed.
       returnT (RequestCancelled (fst closed) (snd closed))))) s = Inr (out, s')"
    by (auto simp: cancel_request_tx_def tx_simps simp del: split_paired_Ex)
  show ?thesis
  proof (cases "req_status row = CREATED")
    case False
    with rest assms(2) show ?thesis by (simp add: tx_simps)
  next
    case True
    with rest obtain u s1 closed where 1: "cancel_request_rows (req_id row) now s = Inr (u, s1)"
      and 2: "closeDispatchesForCancelledRequest (req_id row) now sqlNow (actor_user actor) s1 = Inr (closed, s')"
      unfolding tx_simps by (auto simp: tx_simps)
    show ?thesis by (rule closeDispatches_ok [OF 2 cancel_request_rows_ok [OF 1 assms(2)]])
  qed
qed

lemma cancel_request_ok: "system_ok s \<Longrightarrow> system_ok (snd (cancel_request now sqlNow actor publicId s))"
  unfolding cancel_request_def by (rule commitT_keeps) (rule cancel_request_tx_ok)

end
