(* ===== verification/Dispatch_Opening.thy ===== *)
theory Dispatch_Opening imports Search_Worker Delivery_Cancellation begin

text \<open>
  How a dispatch comes to be: the credit snapshots frozen with it
  (src/src/credit-policies/dispatch-credit-snapshots.ts and its SQL guards), \<open>openDispatch\<close> of
  src/src/dispatch/dispatch-policy.ts, and \<open>accept\<close> of
  src/src/delivery-quotes/delivery-quotes.service.ts, which accepts a quote and opens its dispatch in
  one transaction. The advisory locks and the \<open>xmin\<close> tests hold by the serial order of the model.
\<close>

subsection \<open>Credit snapshots\<close>

definition find_policy :: "id \<Rightarrow> db \<Rightarrow> credit_policy option" where
  "find_policy i s = first_row (\<lambda>p. policy_id p = i) (policies s)"

text \<open>\<open>DispatchCreditSnapshot_values_check\<close>.\<close>

definition snapshot_check :: "snapshot \<Rightarrow> bool" where
  "snapshot_check x \<longleftrightarrow>
     1 \<le> snap_credits x \<and> snap_credits x \<le> 1000000 \<and> 0 \<le> snap_distance x \<and> 0 < snap_policyVersion x \<and>
     (case snap_calculation x of
        PER_KM \<Rightarrow> (case snap_billableKm x of None \<Rightarrow> False | Some km \<Rightarrow> 0 \<le> km) \<and> snap_creditsPerKm x \<noteq> None
          \<and> snap_minimumCredits x \<noteq> None \<and> snap_calculatedCredits x \<noteq> None \<and> snap_flatCredits x = None \<and> snap_range x = None
      | FLAT \<Rightarrow> snap_flatCredits x \<noteq> None \<and> snap_billableKm x = None \<and> snap_creditsPerKm x = None
          \<and> snap_minimumCredits x = None \<and> snap_calculatedCredits x = None \<and> snap_range x = None
      | DISTANCE_RANGE \<Rightarrow> snap_range x \<noteq> None \<and> snap_billableKm x = None \<and> snap_creditsPerKm x = None
          \<and> snap_minimumCredits x = None \<and> snap_calculatedCredits x = None \<and> snap_flatCredits x = None)"

text \<open>\<open>credit_required_actors\<close>, the SQL mirror of SERVICE_EXECUTION_MODES.\<close>

fun credit_required_actors :: "service_type \<Rightarrow> actor_type list" where
  "credit_required_actors LOCAL_DELIVERY = [PROVIDER, INDEPENDENT_DRIVER]"

text \<open>The recomputation of the cost in \<open>dispatch_credit_snapshot_guard\<close>, in integer arithmetic.\<close>

definition snapshot_matches :: "snapshot \<Rightarrow> credit_policy \<Rightarrow> bool" where
  "snapshot_matches x p \<longleftrightarrow>
     (case policy_calculationType p of
        PER_KM \<Rightarrow>
          (let km = (snap_distance x + 999) div 1000 in
           snap_billableKm x = Some km \<and> snap_creditsPerKm x = creditsPerKm p \<and> snap_minimumCredits x = minimumCredits p
           \<and> snap_calculatedCredits x = map_option ((*) km) (creditsPerKm p)
           \<and> Some (snap_credits x) = Option.bind (creditsPerKm p) (\<lambda>a. map_option (max (km * a)) (minimumCredits p)))
      | FLAT \<Rightarrow> snap_flatCredits x = flatCredits p \<and> Some (snap_credits x) = flatCredits p
      | DISTANCE_RANGE \<Rightarrow>
          (case snap_range x of
             None \<Rightarrow> False
           | Some (pos, lo, hi) \<Rightarrow>
               list_ex (\<lambda>r. position r = pos \<and> minDistanceMeters r = lo \<and> maxDistanceMeters r = hi
                 \<and> credits r = snap_credits x \<and> range_covers r (snap_distance x)) (policy_ranges p)))"

definition snapshot_guard :: "service_type \<Rightarrow> snapshot \<Rightarrow> db \<Rightarrow> raised option" where
  "snapshot_guard service x s =
     (case find_dispatch (Some (snap_dispatch x)) s of
        None \<Rightarrow> Some RAISED_CREDIT_SNAPSHOT_INVALID
      | Some d \<Rightarrow>
          if d_status d \<noteq> OPEN \<or> d_claimedAt d \<noteq> None
             \<or> any_row (\<lambda>c. cand_dispatch c = d_id d \<and> cand_claimedAt c \<noteq> None) (candidates s)
             \<or> any_row (\<lambda>a. asg_dispatch a = d_id d) (assignments s)
             \<or> (case find_quote (d_quote d) s of None \<Rightarrow> False
                | Some q \<Rightarrow> quote_service q \<noteq> service \<or> quote_distance q \<noteq> snap_distance x)
             \<or> \<not> List.member (credit_required_actors service) (snap_actor x)
          then Some RAISED_CREDIT_SNAPSHOT_INVALID
          else
            (case find_policy (snap_policy x) s of
               None \<Rightarrow> Some RAISED_CREDIT_SNAPSHOT_INVALID
             | Some p \<Rightarrow>
                 if policy_actorType p \<noteq> snap_actor x \<or> policy_serviceType p \<noteq> service
                    \<or> policy_version p \<noteq> snap_policyVersion x \<or> policy_calculationType p \<noteq> snap_calculation x
                    \<or> policy_status p \<noteq> ACTIVE
                 then Some RAISED_CREDIT_SNAPSHOT_INVALID
                 else if \<not> snapshot_matches x p then Some RAISED_CREDIT_SNAPSHOT_INVALID
                 else None))"

definition insert_snapshot :: "service_type \<Rightarrow> snapshot \<Rightarrow> snapshot dtx" where
  "insert_snapshot service x0 =
     bindT newId (\<lambda>i.
     bindT (readT (\<lambda>_. x0\<lparr>snap_id := i\<rparr>)) (\<lambda>x.
     bindT (raise_some (snapshot_guard service x)) (\<lambda>_.
     bindT (checkT (snapshot_check x)) (\<lambda>_.
     bindT getT (\<lambda>s.
     bindT (uniqueT (\<not> any_row (\<lambda>y. snap_dispatch y = snap_dispatch x \<and> snap_actor y = snap_actor x) (snapshots s))) (\<lambda>_.
     bindT (\<lambda>s. Inr ((), s\<lparr>snapshots := snapshots s @ [x]\<rparr>)) (\<lambda>_.
     returnT x)))))))"

definition snapshot_of :: "id \<Rightarrow> actor_type \<Rightarrow> int \<Rightarrow> credit_policy \<Rightarrow> credit_cost \<Rightarrow> snapshot" where
  "snapshot_of d actor distance p cost =
     (let range =
        (if cost_calculationType cost = DISTANCE_RANGE
         then first_row (\<lambda>r. Some (position r) = rangePosition cost) (policy_ranges p) else None) in
      \<lparr>snap_id = 0, snap_dispatch = d, snap_actor = actor, snap_policy = policy_id p,
       snap_policyVersion = policy_version p, snap_calculation = policy_calculationType p,
       snap_distance = distance, snap_billableKm = billableKm cost,
       snap_creditsPerKm = (if policy_calculationType p = PER_KM then creditsPerKm p else None),
       snap_minimumCredits = (if policy_calculationType p = PER_KM then minimumCredits p else None),
       snap_calculatedCredits = calculatedCredits cost,
       snap_flatCredits = (if policy_calculationType p = FLAT then flatCredits p else None),
       snap_range = map_option (\<lambda>r. (position r, minDistanceMeters r, maxDistanceMeters r)) range,
       snap_credits = cost_credits cost\<rparr>)"

text \<open>A fault of the policy functions as the failure of a transaction.\<close>

fun policy_failure :: "policy_fault \<Rightarrow> failure" where
  "policy_failure (PolicyError e) = PolicyDomain e"
| "policy_failure PolicyNotFound = NotFound"
| "policy_failure (PolicyBadRequest _) = NotFound"
| "policy_failure PolicyGuard = Sql (RaiseException RAISED_CREDIT_SNAPSHOT_INVALID)"
| "policy_failure PolicyCheck = Sql CheckViolation"
| "policy_failure PolicyUnique = Sql UniqueViolation"

definition faultT :: "(db \<Rightarrow> policy_fault + 'a) \<Rightarrow> 'a dtx" where
  "faultT f s = (case f s of Inl e \<Rightarrow> Inl (policy_failure e) | Inr a \<Rightarrow> Inr (a, s))"

definition actor_snapshot :: "id \<Rightarrow> quote \<Rightarrow> actor_type \<Rightarrow> snapshot dtx" where
  "actor_snapshot d q actor =
     bindT (faultT (\<lambda>s. resolveActiveCreditPolicy (quote_service q) actor (policies s))) (\<lambda>p.
     bindT (faultT (\<lambda>_. case calculateCreditCost (policy_for_calculation.truncate p) (Integral (quote_distance q)) of
              Inl e \<Rightarrow> Inl (PolicyError e) | Inr c \<Rightarrow> Inr c)) (\<lambda>cost.
     bindT (guardT (1 \<le> cost_credits cost) (PolicyDomain CREDIT_COST_OUT_OF_RANGE)) (\<lambda>_.
     insert_snapshot (quote_service q) (snapshot_of d actor (quote_distance q) p cost))))"

definition createDispatchCreditSnapshots :: "id \<Rightarrow> quote \<Rightarrow> actor_type list \<Rightarrow> snapshot list dtx" where
  "createDispatchCreditSnapshots d q actors = mapT (actor_snapshot d q) actors"

definition creditCostFor :: "snapshot list \<Rightarrow> actor_type \<Rightarrow> int option" where
  "creditCostFor xs actor = map_option snap_credits (first_row (\<lambda>x. snap_actor x = actor) xs)"

subsection \<open>Opening\<close>

definition find_conversion :: "id \<Rightarrow> db \<Rightarrow> conversion option" where
  "find_conversion r s = first_row (\<lambda>c. conv_request c = r) (conversions s)"

definition rejectConvertedRequest :: "operation_code \<Rightarrow> id \<Rightarrow> unit dtx" where
  "rejectConvertedRequest code r =
     bindT (readT (find_conversion r)) (\<lambda>c. guardT (c = None) (Domain code))"

text \<open>
  The triggers of an INSERT into \<open>Dispatch\<close>, by name: \<open>conversion_dispatch_guard\<close>,
  \<open>dispatch_guard\<close> and \<open>dispatch_search_guard\<close>; the others only see columns that are born fixed.
\<close>

definition dispatch_insert_guard :: "dispatch \<Rightarrow> db \<Rightarrow> raised option" where
  "dispatch_insert_guard d s =
     (let c = first_row (\<lambda>c. conv_request c = d_request d) (conversions s);
          a = Option.bind c (\<lambda>c. first_row (\<lambda>a. accept_conversion a = conv_id c) (acceptances s)) in
      if c \<noteq> None \<and> (case a of None \<Rightarrow> True
          | Some a \<Rightarrow> accept_dispatch a \<noteq> d_id d \<or> accept_request a \<noteq> d_request d \<or> accept_quote a \<noteq> d_quote d
              \<or> status_of_request (accept_request a) s \<noteq> Some CREATED)
      then Some RAISED_DISPATCH_INVALID
      else if creditMode d \<noteq> MONETIZED then Some RAISED_DISPATCH_INVALID
      else if d_status d \<noteq> OPEN \<or> (case find_quote (d_quote d) s of None \<Rightarrow> True
          | Some q \<Rightarrow> quote_status q \<noteq> Q_ACCEPTED \<or> quote_request q \<noteq> d_request d)
      then Some RAISED_DISPATCH_INVALID
      else if searchMaxAttempts d = 5 \<and> (searchAttempt d \<noteq> 1 \<or> searchStoppedReason d \<noteq> None \<or>
          \<not> any_row (\<lambda>a. accept_dispatch a = d_id d \<and> any_row (\<lambda>v. conv_id v = accept_conversion a \<and>
              any_row (\<lambda>i. client_id i = conv_client v \<and> automaticDispatchSearch i \<and> client_active i) (clients s))
            (conversions s)) (acceptances s))
      then Some RAISED_SEARCH_NOT_AUTHORIZED
      else if searchMaxAttempts d = 5 \<and> d_expiresAt d \<noteq> d_openedAt d + window_millis d then Some RAISED_SEARCH_WINDOW
      else None)"

definition insert_dispatch :: "dispatch \<Rightarrow> unit dtx" where
  "insert_dispatch d =
     bindT (raise_some (dispatch_insert_guard d)) (\<lambda>_.
     bindT (checkT (dispatch_check d \<and> search_shape d)) (\<lambda>_.
     bindT getT (\<lambda>s.
     bindT (uniqueT (\<not> any_row (\<lambda>x. d_id x = d_id d \<or> d_quote x = d_quote d) (dispatches s))) (\<lambda>_.
     bindT (\<lambda>s. Inr ((), s\<lparr>dispatches := dispatches s @ [d]\<rparr>)) (\<lambda>_.
     record_round d)))))"

text \<open>\<open>dispatch_credit_snapshots_required\<close>, deferred to the COMMIT, which follows the last statement.\<close>

definition snapshots_required :: "id \<Rightarrow> quote \<Rightarrow> db \<Rightarrow> raised option" where
  "snapshots_required d q s =
     (if list_all (\<lambda>actor. any_row (\<lambda>x. snap_dispatch x = d \<and> snap_actor x = actor) (snapshots s))
         (credit_required_actors (quote_service q))
      then None else Some RAISED_CREDIT_SNAPSHOT_MISSING)"

definition authorized_dispatch :: "quote \<Rightarrow> id option dtx" where
  "authorized_dispatch q =
     bindT getT (\<lambda>s.
     (case find_conversion (quote_request q) s of
        None \<Rightarrow> returnT None
      | Some c \<Rightarrow>
          (case first_row (\<lambda>a. accept_conversion a = conv_id c) (acceptances s) of
             None \<Rightarrow> throwT (Domain AUTHORIZED_ACCEPT_REQUIRED)
           | Some a \<Rightarrow>
               bindT (guardT (accept_quote a = quote_id q \<and> accept_request a = quote_request q)
                 (Domain AUTHORIZED_ACCEPT_REQUIRED)) (\<lambda>_.
               returnT (Some (accept_dispatch a))))))"

definition search_enabled :: "bool \<Rightarrow> quote \<Rightarrow> db \<Rightarrow> bool" where
  "search_enabled automatic q s \<longleftrightarrow>
     automatic \<and> (case find_conversion (quote_request q) s of None \<Rightarrow> False
       | Some c \<Rightarrow> any_row (\<lambda>i. client_id i = conv_client c \<and> automaticDispatchSearch i \<and> client_active i) (clients s))"

text \<open>\<open>generated\<close> is the UUID the client library draws when the acceptance does not fix the id.\<close>

definition opening_row :: "id \<Rightarrow> bool \<Rightarrow> quote \<Rightarrow> int \<Rightarrow> instant \<Rightarrow> dispatch" where
  "opening_row i enabled q ttlMinutes now =
     \<lparr>d_status = OPEN, d_expiresAt = dispatchExpiry now ttlMinutes,
      searchMaxAttempts = (if enabled then 5 else 1), searchAttempt = 1, searchStoppedReason = None,
      d_id = i, d_request = quote_request q, d_quote = quote_id q, d_openedAt = now,
      claimedByProvider = None, claimedByIndependent = None, d_claimedAt = None, d_expiredAt = None,
      d_cancelledAt = None, d_deliveredAt = None, d_deliveredBy = None, creditMode = MONETIZED,
      searchWindowSeconds = (if enabled then Some (ttlMinutes * 60) else None), d_identity = None\<rparr>"

definition openDispatch :: "id \<Rightarrow> quote \<Rightarrow> int \<Rightarrow> instant \<Rightarrow> bool \<Rightarrow> (id \<times> id list \<times> snapshot list) dtx" where
  "openDispatch generated q ttlMinutes now automatic =
     bindT (authorized_dispatch q) (\<lambda>authorized.
     bindT (readT (eligibleProviderIds (quote_zone q) (quote_service q) None)) (\<lambda>providerIds.
     bindT (readT (search_enabled automatic q)) (\<lambda>enabled.
     bindT (readT (\<lambda>_. case authorized of Some i \<Rightarrow> i | None \<Rightarrow> generated)) (\<lambda>i.
     bindT (insert_dispatch (opening_row i enabled q ttlMinutes now)) (\<lambda>_.
     bindT (createDispatchCreditSnapshots i q (creditActorsFor SERVICE_EXECUTION_MODES (quote_service q))) (\<lambda>xs.
     bindT (mapT (insert_candidate False i now) providerIds) (\<lambda>_.
     bindT (raise_some (snapshots_required i q)) (\<lambda>_.
     returnT (i, providerIds, xs)))))))))"

subsection \<open>Accepting a quote\<close>

text \<open>\<open>delivery_quote_immutable\<close>, \<open>conversion_quote_guard\<close> and the partial unique index on ACCEPTED.\<close>

definition quote_guard :: "quote \<Rightarrow> quote \<Rightarrow> db \<Rightarrow> raised option" where
  "quote_guard old new s =
     (if quote_status new = Q_ACCEPTED \<and> find_conversion (quote_request new) s \<noteq> None \<and>
         (case Option.bind (find_conversion (quote_request new) s)
            (\<lambda>c. first_row (\<lambda>a. accept_conversion a = conv_id c) (acceptances s)) of
            None \<Rightarrow> True | Some a \<Rightarrow> accept_quote a \<noteq> quote_id new \<or> accept_request a \<noteq> quote_request new)
      then Some RAISED_QUOTE_IMMUTABLE
      else if quote_status new \<noteq> quote_status old \<and> quote_status old \<noteq> Q_OFFERED then Some RAISED_QUOTE_IMMUTABLE
      else None)"

definition update_quote :: "id \<Rightarrow> (quote \<Rightarrow> quote) \<Rightarrow> quote dtx" where
  "update_quote i change =
     bindT (requireT (find_quote i) NotFound) (\<lambda>old.
     bindT (raise_some (quote_guard old (change old))) (\<lambda>_.
     bindT getT (\<lambda>s.
     bindT (uniqueT (quote_status (change old) \<noteq> Q_ACCEPTED \<or>
        \<not> any_row (\<lambda>q. quote_id q \<noteq> i \<and> quote_request q = quote_request old \<and> quote_status q = Q_ACCEPTED) (quotes s))) (\<lambda>_.
     bindT (\<lambda>s. Inr ((), s\<lparr>quotes := update_rows (\<lambda>q. quote_id q = i) (\<lambda>_. change old) (quotes s)\<rparr>)) (\<lambda>_.
     returnT (change old))))))"

datatype accept_outcome =
    AcceptAlready quote
  | AcceptExpired quote
  | Accepted quote id "id list" "snapshot list"

definition owned_quote :: "nat \<Rightarrow> id \<Rightarrow> db \<Rightarrow> quote option" where
  "owned_quote publicId client s =
     first_row (\<lambda>q. quote_publicId q = publicId \<and>
       any_row (\<lambda>r. req_id r = quote_request q \<and> req_client r = client) (requests s)) (quotes s)"

definition accept_tx :: "int \<Rightarrow> instant \<Rightarrow> id \<Rightarrow> nat \<Rightarrow> id \<Rightarrow> accept_outcome dtx" where
  "accept_tx ttlMinutes now generated publicId client =
     bindT (requireT (owned_quote publicId client) NotFound) (\<lambda>q.
     bindT (readT (status_of_request (quote_request q))) (\<lambda>request.
     bindT (rejectConvertedRequest AUTHORIZED_ACCEPT_REQUIRED (quote_request q)) (\<lambda>_.
     if quote_status q = Q_ACCEPTED then returnT (AcceptAlready q)
     else
       bindT (guardT (quote_status q \<noteq> Q_EXPIRED) (Domain QUOTE_EXPIRED)) (\<lambda>_.
       bindT (guardT (quote_status q \<noteq> Q_CANCELLED \<and> request = Some CREATED) (Domain QUOTE_NOT_ACCEPTABLE)) (\<lambda>_.
       if quote_expiresAt q \<le> now then
         bindT (update_quote (quote_id q) (\<lambda>q. q\<lparr>quote_status := Q_EXPIRED, quote_expiredAt := Some now\<rparr>)) (\<lambda>e.
         returnT (AcceptExpired e))
       else
         bindT (update_quote (quote_id q) (\<lambda>q. q\<lparr>quote_status := Q_ACCEPTED, quote_acceptedAt := Some now\<rparr>)) (\<lambda>accepted.
         bindT (openDispatch generated accepted ttlMinutes now False) (\<lambda>(i, ps, xs).
         returnT (Accepted accepted i ps xs))))))))"

text \<open>The handler: an expiry found on the way is committed and then reported as an error.\<close>

definition accept_quote_handler ::
    "int \<Rightarrow> instant \<Rightarrow> id \<Rightarrow> nat \<Rightarrow> id \<Rightarrow> db \<Rightarrow> (failure + accept_outcome) \<times> db" where
  "accept_quote_handler ttlMinutes now generated publicId client s =
     (case accept_tx ttlMinutes now generated publicId client s of
        Inl f \<Rightarrow> (Inl f, s)
      | Inr (AcceptExpired q, s') \<Rightarrow> (Inl (Domain QUOTE_EXPIRED), s')
      | Inr (out, s') \<Rightarrow> (Inr out, s'))"

end
