(* ===== verification/Opening_Rules.thy ===== *)
theory Opening_Rules imports Dispatch_Opening begin

text \<open>
  Opening a dispatch keeps the invariant of the system: the new row is OPEN, owes nothing because no
  movement names it, and its snapshots and candidates only concern it. Then what the engine of the
  credit policies computes is exactly what the SQL guard of the snapshots recomputes, so that guard
  never refuses a dispatch.
\<close>

subsection \<open>Opening keeps the invariant\<close>

text \<open>The foreign keys to \<open>Dispatch\<close>: what the other tables reference exists.\<close>

definition referenced :: "db \<Rightarrow> id set" where
  "referenced s = set (List.map_filter entry_reference (ledger s)) \<union> snap_dispatch ` set (snapshots s)
     \<union> asg_dispatch ` set (assignments s)"

definition references_ok :: "db \<Rightarrow> bool" where
  "references_ok s \<longleftrightarrow> referenced s \<subseteq> d_id ` set (dispatches s)"

lemma in_map_filter: "x \<in> set (List.map_filter f xs) \<longleftrightarrow> (\<exists>y \<in> set xs. f y = Some x)"
  by (induction xs) (auto simp: List.map_filter_def split: option.splits)

lemma unused_service_sum: "i \<notin> referenced s \<Longrightarrow> service_sum a i (ledger s) = 0"
  unfolding referenced_def service_sum_def
  by (auto simp: in_map_filter service_entry_def filter_empty_conv)

lemma holder_cong: "profiles t = profiles s \<Longrightarrow> holder row t = holder row s"
  by (simp add: holder_def cancelledDispatchOwner_def cong: option.case_cong)

lemma find_snapshot_append:
  "snap_dispatch x \<noteq> i \<Longrightarrow> snapshots t = snapshots s @ [x] \<Longrightarrow> find_snapshot i a t = find_snapshot i a s"
  by (simp add: find_snapshot_def first_row_append) (simp add: first_row_def split: option.splits)

lemma insert_dispatch_Inr:
  assumes "insert_dispatch d s = Inr (u, s')"
  obtains rs where "s' = s\<lparr>dispatches := dispatches s @ [d], rounds := rs\<rparr>" "dispatch_check d" "search_shape d"
    "d_status d = OPEN" "d_id d \<notin> d_id ` set (dispatches s)" "d_quote d \<notin> d_quote ` set (dispatches s)"
proof -
  from assms have g: "dispatch_insert_guard d s = None" "dispatch_check d" "search_shape d"
    and u: "\<not> any_row (\<lambda>x. d_id x = d_id d \<or> d_quote x = d_quote d) (dispatches s)"
    and r: "record_round d (s\<lparr>dispatches := dispatches s @ [d]\<rparr>) = Inr (u, s')"
    unfolding insert_dispatch_def tx_simps by blast+
  from record_round_frame [OF r] obtain rs where "s' = s\<lparr>dispatches := dispatches s @ [d], rounds := rs\<rparr>" by auto
  moreover have "d_status d = OPEN"
    using g(1) by (auto simp: dispatch_insert_guard_def Let_def split: if_splits)
  moreover have "d_id d \<notin> d_id ` set (dispatches s)" "d_quote d \<notin> d_quote ` set (dispatches s)"
    using u by (auto simp: any_row_iff image_iff)
  ultimately show ?thesis using that g(2,3) by blast
qed

lemma economy_appended:
  assumes eco: "economy s" and unused: "d_id d \<notin> referenced s" and "d_status d = OPEN"
    and so: "same_owners s t" and "dispatches t = dispatches s @ [d]" "ledger t = ledger s"
  shows "economy t"
proof -
  have "service_sum (acc_id a) (d_id row) (ledger t) = (if owes row (acc_id a) t then - price row t else 0)"
    if row: "row \<in> set (dispatches t)" and a: "a \<in> set (accounts t)" for row a
  proof (cases "row = d")
    case True
    then show ?thesis using unused_service_sum [OF unused] assms by (simp add: owes_def)
  next
    case False
    obtain b where b: "b \<in> set (accounts s)" "acc_id b = acc_id a" by (rule same_owners_account [OF so a])
    show ?thesis
      using economyD [OF eco, of row b] row a b False assms
      by (simp add: same_owners_owes [OF so] same_owners_price [OF so])
  qed
  then show ?thesis by (simp add: economy_def list_all_iff)
qed

lemma insert_dispatch_ok:
  assumes "insert_dispatch d s = Inr (u, s')" and ok: "system_ok s" and refs: "references_ok s"
  shows "system_ok s'"
proof -
  note k = system_okD [OF ok]
  from assms(1) obtain rs where s': "s' = s\<lparr>dispatches := dispatches s @ [d], rounds := rs\<rparr>"
    and d: "dispatch_check d" "search_shape d" "d_status d = OPEN" "d_id d \<notin> d_id ` set (dispatches s)"
    by (rule insert_dispatch_Inr)
  have unused: "d_id d \<notin> referenced s" using refs d(4) by (auto simp: references_ok_def)
  have free: "no_claim d" using d(1,3) by (simp add: dispatch_check_def)
  have owner: "cand_dispatch c \<noteq> d_id d" if "c \<in> set (candidates s)" for c
  proof -
    from k(3) that have "\<exists>x \<in> set (dispatches s). d_id x = cand_dispatch c"
      unfolding claims_ok_def list_all_iff list_ex_iff by blast
    with d(4) show ?thesis by (metis imageI)
  qed
  then have "claim_matches (candidates s) d"
    using free by (auto simp: claim_matches_def list_all_iff no_claim_def)
  then have "claims_ok (dispatches s @ [d]) (candidates s)"
    using k(3) d by (auto simp: claims_ok_def list_all_iff)
  moreover have "assignments_ok [] (dispatches s @ [d]) (assignments s)"
    using k(4) d(3) by (auto simp: assignments_ok_def list_all_iff delivery_closed_def)
  moreover have "economy s'"
    by (rule economy_appended [OF k(5) unused d(3)]) (simp_all add: s' same_owners_frame)
  moreover have "outbox_ok (dispatches s @ [d]) (outbox s)"
    using k(6) by (auto simp: outbox_ok_def list_all_iff)
  moreover have "ledger_wf s'" "accounts_wf s'"
    using k by (auto simp: s' accounts_wf_def intro!: ledger_wf_cong [OF _ _ _ _ k(1)])
  ultimately show ?thesis by (simp add: system_ok_def s')
qed

text \<open>A snapshot is only inserted for an OPEN dispatch, which owes nothing yet.\<close>

lemma economy_snapshot:
  assumes eco: "economy s" and "t = s\<lparr>nextId := n, snapshots := snapshots s @ [x]\<rparr>"
    and free: "\<And>row. row \<in> set (dispatches s) \<Longrightarrow> d_id row = snap_dispatch x \<Longrightarrow> d_status row = OPEN"
  shows "economy t"
proof -
  note holder = holder_cong [of t s]
  have so: "owner_account w t = owner_account w s" for w by (simp add: assms(2) owner_account_def)
  have owes: "owes row i t = owes row i s" for row i
    using holder by (simp add: assms(2) owes_def holder_account_def so [unfolded assms(2)])
  have price: "price row t = price row s" if "d_id row \<noteq> snap_dispatch x" for row
    using find_snapshot_append [of x "d_id row" t s] that holder by (simp add: assms(2) price_def)
  have "service_sum (acc_id a) (d_id row) (ledger t) = (if owes row (acc_id a) t then - price row t else 0)"
    if row: "row \<in> set (dispatches t)" and a: "a \<in> set (accounts t)" for row a
  proof (cases "d_id row = snap_dispatch x")
    case True
    then have "\<not> owes row i s" for i using free row by (simp add: assms(2) owes_def)
    then show ?thesis using economyD [OF eco, of row a] row a by (simp add: assms(2) owes [unfolded assms(2)])
  next
    case False
    then show ?thesis using economyD [OF eco, of row a] row a price owes by (simp add: assms(2))
  qed
  then show ?thesis by (simp add: economy_def list_all_iff)
qed

lemma insert_snapshot_ok:
  assumes "insert_snapshot service x0 s = Inr (x, s')" and ok: "system_ok s"
  shows "system_ok s'" "s' = s\<lparr>nextId := nextId s + 1, snapshots := snapshots s @ [x]\<rparr>"
    "x = x0\<lparr>snap_id := nextId s\<rparr>"
proof -
  note k = system_okD [OF ok]
  from assms(1) have x: "x = x0\<lparr>snap_id := nextId s\<rparr>"
    and g: "snapshot_guard service x (s\<lparr>nextId := nextId s + 1\<rparr>) = None"
    and s': "s' = s\<lparr>nextId := nextId s + 1, snapshots := snapshots s @ [x]\<rparr>"
    by (auto simp: insert_snapshot_def tx_simps)
  show "x = x0\<lparr>snap_id := nextId s\<rparr>" "s' = s\<lparr>nextId := nextId s + 1, snapshots := snapshots s @ [x]\<rparr>"
    by (fact x s')+
  from g obtain r where r: "r \<in> set (dispatches s)" "d_id r = snap_dispatch x" "d_status r = OPEN"
    by (auto simp: snapshot_guard_def find_dispatch_def split: option.splits if_splits dest!: first_row_Some)
  have "economy s'"
    by (rule economy_snapshot [OF k(5) s']) (use r unique_key [OF k(7) _ r(1)] in auto)
  moreover have "ledger_wf s'" "accounts_wf s'"
    using k by (auto simp: s' accounts_wf_def intro!: ledger_wf_cong [OF _ _ _ _ k(1)])
  ultimately show "system_ok s'" using k by (simp add: system_ok_def s')
qed

lemma actor_snapshot_ok:
  assumes "actor_snapshot d q actor s = Inr (x, s')" "system_ok s"
  shows "system_ok s'" "\<exists>n xs. s' = s\<lparr>nextId := n, snapshots := snapshots s @ xs\<rparr>"
proof -
  from assms(1) obtain x0 where "insert_snapshot (quote_service q) x0 s = Inr (x, s')"
    by (auto simp: actor_snapshot_def tx_simps faultT_def split: sum.splits)
  note i = insert_snapshot_ok [OF this assms(2)]
  show "system_ok s'" by (fact i(1))
  show "\<exists>n xs. s' = s\<lparr>nextId := n, snapshots := snapshots s @ xs\<rparr>" using i(2) by blast
qed

lemma createDispatchCreditSnapshots_ok:
  "createDispatchCreditSnapshots d q actors s = Inr (xs, s') \<Longrightarrow> system_ok s \<Longrightarrow> system_ok s'"
  unfolding createDispatchCreditSnapshots_def
  by (rule mapT_invariant [where I = system_ok and f = "actor_snapshot d q"]) (use actor_snapshot_ok(1) in blast)+

lemma openDispatch_ok:
  assumes "openDispatch generated q ttl now automatic s = Inr (r, s')" "system_ok s"
    and "references_ok s"
  shows "system_ok s'"
proof -
  from assms(1) obtain i ps xs a e u s1 s2 v where
    d: "insert_dispatch (opening_row i e q ttl now) s = Inr (u, s1)"
    and x: "createDispatchCreditSnapshots i q a s1 = Inr (xs, s2)"
    and c: "mapT (insert_candidate False i now) ps s2 = Inr (v, s')" and r: "r = (i, ps, xs)"
    by (auto simp: openDispatch_def tx_simps authorized_dispatch_def split: option.splits)
  have "system_ok s1"
    by (rule insert_dispatch_ok [OF d assms(2,3)])
  from createDispatchCreditSnapshots_ok [OF x this] have "system_ok s2" .
  with c show ?thesis by (rule insert_candidates_ok)
qed

subsection \<open>The engine and the SQL guard compute the same cost\<close>

lemma snapshot_of_sel:
  "snap_dispatch (snapshot_of i a d p c) = i" "snap_actor (snapshot_of i a d p c) = a"
  "snap_distance (snapshot_of i a d p c) = d" "snap_credits (snapshot_of i a d p c) = cost_credits c"
  "snap_policy (snapshot_of i a d p c) = policy_id p" "snap_policyVersion (snapshot_of i a d p c) = policy_version p"
  "snap_calculation (snapshot_of i a d p c) = policy_calculationType p"
  by (simp_all add: snapshot_of_def Let_def)

lemma billableKilometers_sql:
  assumes "0 \<le> d"
  shows "billableKilometers d = (d + 999) div 1000"
proof -
  have "(d + 999) div 1000 = billableKilometers d"
    by (rule int_div_pos_eq [where r = "d + 999 - 1000 * billableKilometers d"])
      (use billableKilometers_bounds [OF assms] in linarith)+
  then show ?thesis ..
qed

lemma cost_distance:
  assumes "calculateCreditCost p (Integral d) = Inr c"
  shows "assertCanonicalDistance (Integral d) = Inr d"
proof (cases "assertCanonicalDistance (Integral d)")
  case (Inl e)
  with assms show ?thesis by (simp add: calculateCreditCost_def)
next
  case (Inr n)
  then show ?thesis by (simp add: assertCanonicalDistance_Inr)
qed

text \<open>What the engine reports beside the credits, for each calculation.\<close>

lemma cost_report:
  assumes "calculateCreditCost p (Integral d) = Inr c"
  shows "0 \<le> d" "cost_calculationType c = policy_calculationType p" "cost_credits c \<le> MAX_POLICY_CREDITS"
    "policy_calculationType p = PER_KM \<Longrightarrow> \<exists>a b. creditsPerKm p = Some a \<and> minimumCredits p = Some b \<and>
       billableKm c = Some (billableKilometers d) \<and> calculatedCredits c = Some (billableKilometers d * a) \<and>
       cost_credits c = max (billableKilometers d * a) b"
    "policy_calculationType p = FLAT \<Longrightarrow> flatCredits p = Some (cost_credits c) \<and> billableKm c = None \<and> calculatedCredits c = None"
    "policy_calculationType p = DISTANCE_RANGE \<Longrightarrow> \<exists>r. findRange (policy_ranges p) d = Some r \<and>
       rangePosition c = Some (position r) \<and> cost_credits c = credits r \<and> billableKm c = None \<and> calculatedCredits c = None"
proof -
  note d = cost_distance [OF assms]
  then show "0 \<le> d" by (simp add: assertCanonicalDistance_Inr)
  note calc = assms [unfolded calculateCreditCost_def d sum.case Let_def]
  have "cost_calculationType c = policy_calculationType p \<and> cost_credits c \<le> MAX_POLICY_CREDITS"
  proof (cases "policy_calculationType p")
    case PER_KM
    with calc show ?thesis by (auto simp: with_credits_Inr base_cost_def split: if_splits)
  next
    case FLAT
    with calc show ?thesis by (auto simp: with_credits_Inr base_cost_def split: if_splits)
  next
    case DISTANCE_RANGE
    with calc show ?thesis by (auto simp: with_credits_Inr base_cost_def split: if_splits option.splits)
  qed
  then show "cost_calculationType c = policy_calculationType p" "cost_credits c \<le> MAX_POLICY_CREDITS" by auto
  show "\<exists>a b. creditsPerKm p = Some a \<and> minimumCredits p = Some b \<and>
       billableKm c = Some (billableKilometers d) \<and> calculatedCredits c = Some (billableKilometers d * a) \<and>
       cost_credits c = max (billableKilometers d * a) b" if "policy_calculationType p = PER_KM"
    using calc that by (cases "creditsPerKm p"; cases "minimumCredits p")
      (auto simp: with_credits_Inr isCredits_iff split: if_splits)
  show "flatCredits p = Some (cost_credits c) \<and> billableKm c = None \<and> calculatedCredits c = None"
    if "policy_calculationType p = FLAT"
    using calc that by (cases "flatCredits p") (auto simp: with_credits_Inr isCredits_iff base_cost_def split: if_splits)
  show "\<exists>r. findRange (policy_ranges p) d = Some r \<and> rangePosition c = Some (position r) \<and>
       cost_credits c = credits r \<and> billableKm c = None \<and> calculatedCredits c = None"
    if "policy_calculationType p = DISTANCE_RANGE"
    using calc that by (auto simp: with_credits_Inr base_cost_def split: if_splits option.splits)
qed

lemma findRange_Some:
  assumes "findRange rs d = Some r"
  shows "r \<in> set rs" "range_covers r d"
proof -
  have "r \<in> set (filter (\<lambda>r. range_covers r d) rs)"
    using assms unfolding findRange_def by (cases "filter (\<lambda>r. range_covers r d) rs") (auto split: list.splits)
  then show "r \<in> set rs" "range_covers r d" by auto
qed

lemma snapshot_passes:
  assumes c: "calculateCreditCost (policy_for_calculation.truncate p) (Integral d) = Inr c"
    and one: "1 \<le> cost_credits c" and v: "0 < policy_version p" and pos: "distinct (map position (policy_ranges p))"
  shows "snapshot_check (snapshot_of i a d p c)" "snapshot_matches (snapshot_of i a d p c) p"
proof -
  have tr: "policy_calculationType (policy_for_calculation.truncate p) = policy_calculationType p"
    "creditsPerKm (policy_for_calculation.truncate p) = creditsPerKm p"
    "minimumCredits (policy_for_calculation.truncate p) = minimumCredits p"
    "flatCredits (policy_for_calculation.truncate p) = flatCredits p"
    "policy_ranges (policy_for_calculation.truncate p) = policy_ranges p"
    by (simp_all add: policy_for_calculation.defs)
  note r = cost_report [OF c, unfolded tr]
  have le: "cost_credits c \<le> 1000000" using r(3) by (simp add: MAX_POLICY_CREDITS_def MAX_CREDIT_MOVEMENT_def)
  have "snapshot_check (snapshot_of i a d p c) \<and> snapshot_matches (snapshot_of i a d p c) p"
  proof (cases "policy_calculationType p")
    case PER_KM
    with r(4) obtain k m where km: "creditsPerKm p = Some k" "minimumCredits p = Some m"
      "billableKm c = Some (billableKilometers d)" "calculatedCredits c = Some (billableKilometers d * k)"
      "cost_credits c = max (billableKilometers d * k) m" by blast
    then show ?thesis
      using PER_KM r(1,2) one v le billableKilometers_bounds(1) [OF r(1)]
      by (simp add: snapshot_of_def Let_def snapshot_check_def snapshot_matches_def billableKilometers_sql)
  next
    case FLAT
    then show ?thesis
      using r(1,2) r(5) [OF FLAT] one v le
      by (simp add: snapshot_of_def Let_def snapshot_check_def snapshot_matches_def)
  next
    case DISTANCE_RANGE
    with r(6) obtain g where g: "findRange (policy_ranges p) d = Some g" "rangePosition c = Some (position g)"
      "cost_credits c = credits g" "billableKm c = None" "calculatedCredits c = None" by blast
    note f = findRange_Some [OF g(1)]
    have "first_row (\<lambda>q. position q = position g) (policy_ranges p) = Some g"
      by (rule first_row_unique_key [OF pos f(1)])
    then have "first_row (\<lambda>q. Some (position q) = rangePosition c) (policy_ranges p) = Some g" by (simp add: g(2))
    then show ?thesis
      using DISTANCE_RANGE r(1,2) g f one v le
      by (auto simp: snapshot_of_def Let_def snapshot_check_def snapshot_matches_def list_ex_iff)
  qed
  then show "snapshot_check (snapshot_of i a d p c)" "snapshot_matches (snapshot_of i a d p c) p" by auto
qed

lemma matches_same_credits:
  assumes "policy_complete p" and c: "calculateCreditCost (policy_for_calculation.truncate p) (Integral d) = Inr c"
    and x: "snapshot_matches x p" "snap_distance x = d"
  shows "snap_credits x = cost_credits c"
proof -
  have tr: "policy_calculationType (policy_for_calculation.truncate p) = policy_calculationType p"
    "creditsPerKm (policy_for_calculation.truncate p) = creditsPerKm p"
    "minimumCredits (policy_for_calculation.truncate p) = minimumCredits p"
    "flatCredits (policy_for_calculation.truncate p) = flatCredits p"
    "policy_ranges (policy_for_calculation.truncate p) = policy_ranges p"
    by (simp_all add: policy_for_calculation.defs)
  note r = cost_report [OF c, unfolded tr]
  have max: "d \<le> MAX_DISTANCE_METERS"
    using cost_distance [OF c] by (simp add: assertCanonicalDistance_Inr)
  show ?thesis
  proof (cases "policy_calculationType p")
    case PER_KM
    with r(4) x r(1) show ?thesis by (auto simp: snapshot_matches_def Let_def billableKilometers_sql)
  next
    case FLAT
    with r(5) x show ?thesis by (auto simp: snapshot_matches_def)
  next
    case DISTANCE_RANGE
    have tc: "policy_calculationType (policy_for_calculation.truncate p) = DISTANCE_RANGE"
      "policy_complete (policy_for_calculation.truncate p)" using assms(1) DISTANCE_RANGE tr(1) by simp_all
    from cost_by_range [OF r(1) max tc] obtain g where
      "\<forall>q \<in> set (policy_ranges p). range_covers q d \<longrightarrow> q = g" and
      "map_sum id cost_credits (calculateCreditCost (policy_for_calculation.truncate p) (Integral d)) = Inr (credits g)"
      unfolding tr by blast
    moreover from this(2) have "credits g = cost_credits c" by (simp add: c)
    ultimately have "\<And>q. q \<in> set (policy_ranges p) \<Longrightarrow> range_covers q d \<Longrightarrow> q = g" "credits g = cost_credits c"
      by blast+
    with x DISTANCE_RANGE show ?thesis
      by (auto simp: snapshot_matches_def list_ex_iff split: option.splits)
  qed
qed

text \<open>
  C11: The cost an opening dispatch freezes is computed twice, by the engine of the credit policies and by
  the SQL guard of the snapshots, in its own arithmetic. The two agree: the guard and the CHECK accept the
  snapshot that the engine produces from a stored policy, whatever its calculation, and they accept no
  other amount of credits for that policy and distance.
\<close>

theorem snapshot_guard_recomputes_engine:
  assumes "policy_complete p" and "0 < policy_version p" and "distinct (map position (policy_ranges p))"
    and "calculateCreditCost (policy_for_calculation.truncate p) (Integral d) = Inr c" and "1 \<le> cost_credits c"
  shows "snapshot_check (snapshot_of i actor d p c) \<and> snapshot_matches (snapshot_of i actor d p c) p \<and>
    (\<forall>x. snapshot_matches x p \<and> snap_distance x = d \<longrightarrow> snap_credits x = cost_credits c)"
  using snapshot_passes [OF assms(4,5,2,3)] matches_same_credits [OF assms(1,4)] by blast

subsection \<open>Accepting a quote\<close>

lemma update_quote_Inr:
  assumes "update_quote i change s = Inr (q, s')"
  shows "s' = s\<lparr>quotes := update_rows (\<lambda>q. quote_id q = i) (\<lambda>_. q) (quotes s)\<rparr>"
    "\<exists>old. find_quote i s = Some old \<and> q = change old"
  using assms by (auto simp: update_quote_def tx_simps)

lemma system_ok_quotes: "system_ok s \<Longrightarrow> system_ok (s\<lparr>quotes := qs\<rparr>)"
proof -
  assume "system_ok s"
  note k = system_okD [OF this]
  have "economy (s\<lparr>quotes := qs\<rparr>)" by (rule economy_frame [OF k(5)]) (simp_all add: same_owners_frame)
  moreover have "ledger_wf (s\<lparr>quotes := qs\<rparr>)" "accounts_wf (s\<lparr>quotes := qs\<rparr>)"
    using k by (auto simp: accounts_wf_def intro!: ledger_wf_cong [OF _ _ _ _ k(1)])
  ultimately show ?thesis using k by (simp add: system_ok_def)
qed

end
