(* ===== verification/Credit_Accounts.thy ===== *)
theory Credit_Accounts imports Service_Credits begin

text \<open>
  The movements a human makes (src/src/credits/credit-accounts.service.ts): \<open>recharge\<close>, \<open>adjust\<close>
  and the \<open>move\<close> they share, with its idempotency by key, and the bodies the DTOs let through
  (credits.dto.ts). \<open>fingerprint\<close> (a SHA-256 of the request) is a parameter. The first lookup of the
  key runs before the transaction; \<open>moveFrom\<close> takes its result, so that a stale one can be studied.
\<close>

subsection \<open>The owner's account\<close>

definition accountIdForProvider :: "id \<Rightarrow> id dtx" where
  "accountIdForProvider p =
     bindT (requireT (\<lambda>s. first_row (\<lambda>r. prov_id r = p) (providers s)) NotFound) (\<lambda>_.
     bindT (requireT (owner_account (ProviderOwner p)) (CreditDomain CREDIT_ACCOUNT_NOT_FOUND)) (\<lambda>a.
     returnT (acc_id a)))"

definition accountIdForIndependentDriver :: "id \<Rightarrow> id dtx" where
  "accountIdForIndependentDriver d =
     bindT (requireT (\<lambda>s. first_row (\<lambda>r. drv_id r = d) (drivers s)) NotFound) (\<lambda>_.
     bindT (requireT (\<lambda>s. first_row (\<lambda>r. prof_driver r = d) (profiles s)) NotFound) (\<lambda>p.
     bindT (requireT (owner_account (IndependentOwner (prof_id p))) (CreditDomain CREDIT_ACCOUNT_NOT_FOUND)) (\<lambda>a.
     returnT (acc_id a))))"

definition accountIdForDriverUser :: "id \<Rightarrow> id dtx" where
  "accountIdForDriverUser u =
     bindT (requireT (\<lambda>s. first_row (\<lambda>r. drv_user r = u) (drivers s)) NotFound) (\<lambda>d.
     bindT (requireT (\<lambda>s. Option.bind (first_row (\<lambda>r. prof_driver r = drv_id d) (profiles s))
              (\<lambda>p. owner_account (IndependentOwner (prof_id p)) s))
            (CreditDomain CREDIT_ACCOUNT_NOT_FOUND)) (\<lambda>a.
     returnT (acc_id a)))"

subsection \<open>Bodies\<close>

datatype human_movement =
    Recharge (move_amount: int) recharge_method "string option" (move_reason: "string option")
  | Adjustment (move_amount: int) string

fun body_ok :: "human_movement \<Rightarrow> bool" where
  "body_ok (Recharge n m external reason) =
     (1 \<le> n \<and> n \<le> MAX_CREDIT_MOVEMENT \<and>
      (case external of None \<Rightarrow> True | Some t \<Rightarrow> text_between 1 100 t) \<and>
      (case reason of None \<Rightarrow> m \<noteq> OTHER_METHOD | Some t \<Rightarrow> reason_ok t))"
| "body_ok (Adjustment a reason) =
     (- MAX_CREDIT_MOVEMENT \<le> a \<and> a \<le> MAX_CREDIT_MOVEMENT \<and> a \<noteq> 0 \<and> reason_ok reason)"

text \<open>\<open>IDEMPOTENCY_KEY_PATTERN\<close>: 8 to 255 visible ASCII characters.\<close>

definition key_ok :: "string \<Rightarrow> bool" where
  "key_ok k \<longleftrightarrow>
     8 \<le> length k \<and> length k \<le> 255 \<and> list_all (\<lambda>c. 33 \<le> (of_char c :: nat) \<and> (of_char c :: nat) \<le> 126) k"

subsection \<open>Movements\<close>

definition byKey :: "id \<Rightarrow> string \<Rightarrow> db \<Rightarrow> ledger_entry option" where
  "byKey account key s = first_row (\<lambda>e. entry_account e = account \<and> entry_key e = Some key) (ledger s)"

record movement_result =
  res_account :: credit_account
  res_entry :: ledger_entry
  res_replayed :: bool

definition replay :: "id \<Rightarrow> ledger_entry \<Rightarrow> string \<Rightarrow> movement_result dtx" where
  "replay account e hash =
     bindT (guardT (entry_hash e = Some hash) (CreditDomain CREDIT_IDEMPOTENCY_CONFLICT)) (\<lambda>_.
     bindT (requireT (find_account account) NotFound) (\<lambda>a.
     returnT \<lparr>res_account = a, res_entry = e, res_replayed = True\<rparr>))"

fun human_entry :: "id \<Rightarrow> human_movement \<Rightarrow> int \<Rightarrow> int \<Rightarrow> string \<Rightarrow> string \<Rightarrow> id \<Rightarrow> ledger_entry" where
  "human_entry account (Recharge a m external reason) before after key hash actor =
     \<lparr>entry_id = 0, entry_sequence = 0, entry_account = account, entry_type = RECHARGE, amount = a,
      balanceBefore = before, balanceAfter = after, entry_method = Some m, entry_external = external,
      entry_reason = reason, entry_reference = None, reverses = None, refundReason = None,
      entry_createdBy = Some actor, entry_key = Some key, entry_hash = Some hash\<rparr>"
| "human_entry account (Adjustment a reason) before after key hash actor =
     \<lparr>entry_id = 0, entry_sequence = 0, entry_account = account, entry_type = ADMIN_ADJUSTMENT, amount = a,
      balanceBefore = before, balanceAfter = after, entry_method = None, entry_external = None,
      entry_reason = Some reason, entry_reference = None, reverses = None, refundReason = None,
      entry_createdBy = Some actor, entry_key = Some key, entry_hash = Some hash\<rparr>"

text \<open>The transaction of \<open>move\<close>: the entry, and whether it was there already.\<close>

definition move_locked :: "id \<Rightarrow> human_movement \<Rightarrow> string \<Rightarrow> string \<Rightarrow> id \<Rightarrow> (ledger_entry \<times> bool) dtx" where
  "move_locked account m key hash actor =
     bindT (requireT (find_account account) (CreditDomain CREDIT_ACCOUNT_NOT_FOUND)) (\<lambda>locked.
     bindT (readT (byKey account key)) (\<lambda>raced.
     (case raced of
        Some e \<Rightarrow> returnT (e, True)
      | None \<Rightarrow>
          bindT (nextBalanceT (balance locked) (move_amount m)) (\<lambda>after.
          bindT (insert_entry (human_entry account m (balance locked) after key hash actor)) (\<lambda>e.
          returnT (e, False))))))"

text \<open>The catch clause: it runs after the rollback, on the state the transaction started from.\<close>

definition move_recover :: "id \<Rightarrow> string \<Rightarrow> string \<Rightarrow> failure \<Rightarrow> movement_result dtx" where
  "move_recover account key hash f =
     (if isDomainException f then throwT f
      else
        bindT (readT (byKey account key)) (\<lambda>winner.
        if isUniqueViolation f \<and> winner \<noteq> None then replay account (the winner) hash
        else if isLedgerRejection f then throwT (CreditDomain CREDIT_MOVEMENT_CONFLICT)
        else throwT f))"

definition moveFrom ::
    "ledger_entry option \<Rightarrow> id \<Rightarrow> human_movement \<Rightarrow> string \<Rightarrow> string \<Rightarrow> id \<Rightarrow> movement_result dtx" where
  "moveFrom prior account m key hash actor s =
     (case prior of
        Some e \<Rightarrow> replay account e hash s
      | None \<Rightarrow>
          (case move_locked account m key hash actor s of
             Inl f \<Rightarrow> move_recover account key hash f s
           | Inr ((e, replayed), s') \<Rightarrow>
               if replayed then replay account e hash s'
               else
                 bindT (requireT (find_account account) NotFound) (\<lambda>a.
                 returnT \<lparr>res_account = a, res_entry = e, res_replayed = False\<rparr>) s'))"

definition move :: "(human_movement \<Rightarrow> string) \<Rightarrow> id \<Rightarrow> human_movement \<Rightarrow> string \<Rightarrow> id \<Rightarrow> movement_result dtx" where
  "move fingerprint account m key actor =
     bindT (readT (byKey account key)) (\<lambda>prior. moveFrom prior account m key (fingerprint m) actor)"

definition recharge ::
    "(human_movement \<Rightarrow> string) \<Rightarrow> id \<Rightarrow> int \<Rightarrow> recharge_method \<Rightarrow> string option \<Rightarrow> string option \<Rightarrow> string \<Rightarrow> id
      \<Rightarrow> movement_result dtx" where
  "recharge fingerprint account n m external reason =
     move fingerprint account (Recharge n m external reason)"

definition adjust ::
    "(human_movement \<Rightarrow> string) \<Rightarrow> id \<Rightarrow> int \<Rightarrow> string \<Rightarrow> string \<Rightarrow> id \<Rightarrow> movement_result dtx" where
  "adjust fingerprint account a reason = move fingerprint account (Adjustment a reason)"

subsection \<open>Correctness of a movement\<close>

lemma human_entry_sel [simp]:
  "entry_account (human_entry i m b c k h u) = i"
  "amount (human_entry i m b c k h u) = move_amount m"
  "balanceBefore (human_entry i m b c k h u) = b"
  "balanceAfter (human_entry i m b c k h u) = c"
  "entry_key (human_entry i m b c k h u) = Some k"
  "entry_hash (human_entry i m b c k h u) = Some h"
  "entry_type (human_entry i m b c k h u) \<noteq> SERVICE_AWARD"
  "entry_type (human_entry i m b c k h u) \<noteq> SERVICE_REFUND"
  by (cases m; simp)+

lemma human_entry_check:
  assumes "body_ok m" "key_ok k" "fits b" "fits (b + move_amount m)"
  shows "entry_check (human_entry i m b (b + move_amount m) k h u)"
  using assms
  by (cases m)
    (auto simp: entry_check_def amount_check_def type_check_def award_check_def refund_check_def text_check_def
      length_between_def key_ok_def text_between_def reason_ok_def MAX_CREDIT_MOVEMENT_def split: option.splits)

lemma byKey_None:
  "byKey i k s = None \<longleftrightarrow> (\<forall>e \<in> set (ledger s). \<not> (entry_account e = i \<and> entry_key e = Some k))"
  by (simp add: byKey_def first_row_None)

lemma move_locked_Inr:
  assumes "move_locked i m k h u s = Inr ((e, r), s')"
  obtains (raced) "r" "byKey i k s = Some e" "s' = s"
    | (moved) a where "\<not> r" "find_account i s = Some a" "byKey i k s = None"
        "insert_entry (human_entry i m (balance a) (balance a + move_amount m) k h u) s = Inr (e, s')"
proof (cases "byKey i k s")
  case None
  with assms moved show ?thesis by (auto simp: move_locked_def tx_simps)
next
  case (Some x)
  with assms raced show ?thesis by (auto simp: move_locked_def tx_simps)
qed

lemma moveFrom_wf:
  assumes "moveFrom prior i m k h u s = Inr (res, s')" and "ledger_wf s"
  shows "ledger_wf s'"
proof (cases prior)
  case (Some e)
  with assms show ?thesis by (auto simp: moveFrom_def replay_def tx_simps)
next
  case None
  show ?thesis
  proof (cases "move_locked i m k h u s")
    case (Inl f)
    with None assms show ?thesis
      by (auto simp: moveFrom_def move_recover_def replay_def tx_simps split: if_splits)
  next
    case (Inr r)
    obtain e b t where r: "r = ((e, b), t)" by (metis surj_pair)
    have "ledger_wf t"
      using Inr unfolding r by (rule move_locked_Inr) (use assms(2) insert_entry_wf in auto)
    moreover have "s' = t"
      using assms(1) None Inr r by (auto simp: moveFrom_def replay_def tx_simps split: if_splits)
    ultimately show ?thesis by simp
  qed
qed

lemma byKey_after_insert:
  assumes "insert_entry e0 s = Inr (e, s')" and "byKey i k s = None"
  shows "byKey i k s' = (if entry_account e0 = i \<and> entry_key e0 = Some k then Some e else None)"
proof -
  have "entry_account e = entry_account e0" "entry_key e = entry_key e0"
    using assms(1) by (auto simp: insert_entry_Inr)
  then show ?thesis
    using assms(2) insert_entry_frame(10) [OF assms(1)]
    by (simp add: byKey_def first_row_append first_row_single)
qed

lemma find_account_after:
  assumes "insert_entry e0 s = Inr (e, s')" "ledger_wf s"
  shows "\<exists>a. find_account (entry_account e0) s' = Some a \<and> balance a = balanceBefore e0 + amount e0"
proof -
  have "balance_of s' (entry_account e0) = Some (balanceBefore e0 + amount e0)"
    using insert_entry_balance(1) [OF assms] by simp
  then show ?thesis by (auto simp: balance_of_def)
qed

lemma nextBalance_fits: "fits b \<Longrightarrow> nextBalance b a = Inr c \<longleftrightarrow> c = b + a \<and> fits (b + a)"
  by (auto simp: nextBalance_def Let_def fits_def MAX_CREDIT_BALANCE_def)

text \<open>A valid movement with a fresh key is inserted.\<close>

lemma move_locked_succeeds:
  assumes wf: "ledger_wf s" and a: "find_account i s = Some a" and ok: "body_ok m" "key_ok k"
    and k: "byKey i k s = None" and b: "fits (balance a + move_amount m)"
  shows "\<exists>e s'. move_locked i m k h u s = Inr ((e, False), s')
    \<and> insert_entry (human_entry i m (balance a) (balance a + move_amount m) k h u) s = Inr (e, s')"
proof -
  note a' = find_account_Some [OF a]
  have "fits (balance a)" using a' wf by (auto intro: account_fits)
  then obtain e s' where i: "insert_entry (human_entry i m (balance a) (balance a + move_amount m) k h u) s = Inr (e, s')"
    using insert_entry_succeeds [of s a "human_entry i m (balance a) (balance a + move_amount m) k h u"]
      wf a' human_entry_check [OF ok _ b] k by (auto simp: entry_guard_def byKey_None)
  then have "move_locked i m k h u s = Inr ((e, False), s')"
    using a k b by (auto simp: move_locked_def tx_simps fits_def MAX_CREDIT_BALANCE_def)
  with i show ?thesis by blast
qed

text \<open>
  C17: A recharge or an adjustment that its DTO lets through, with a key not used before, is decided
  by the balance alone: it is applied once, as one ledger entry, moving the balance of that account
  by its amount and of no other; or it is refused with INSUFFICIENT_CREDITS or CREDIT_BALANCE_LIMIT.
  No CHECK, unique index or trigger ever refuses it.
\<close>

theorem movement_decided_by_balance:
  assumes "ledger_wf s" "find_account i s = Some a" "body_ok m" "key_ok k" "byKey i k s = None"
  shows "(\<forall>b. nextBalance (balance a) (move_amount m) = Inr b \<longrightarrow>
      (\<exists>res s'. move fingerprint i m k u s = Inr (res, s') \<and> \<not> res_replayed res
        \<and> balance (res_account res) = b
        \<and> ledger s' = ledger s @ [res_entry res] \<and> amount (res_entry res) = move_amount m
        \<and> balance_of s' = (balance_of s)(i \<mapsto> b)))
    \<and> (\<forall>r. nextBalance (balance a) (move_amount m) = Inl r \<longrightarrow>
        move fingerprint i m k u s = Inl (CreditDomain r))"
proof (intro conjI allI impI)
  fix b
  assume "nextBalance (balance a) (move_amount m) = Inr b"
  then have b: "b = balance a + move_amount m" "fits (balance a + move_amount m)"
    by (auto simp: nextBalance_Inr fits_def MAX_CREDIT_BALANCE_def)
  from move_locked_succeeds [OF assms b(2)] obtain e s' where
    m: "move_locked i m k (fingerprint m) u s = Inr ((e, False), s')"
    and ins: "insert_entry (human_entry i m (balance a) (balance a + move_amount m) k (fingerprint m) u) s = Inr (e, s')"
    by blast
  from find_account_after [OF ins assms(1)] obtain a' where
    a': "find_account i s' = Some a'" "balance a' = balance a + move_amount m" by auto
  have "move fingerprint i m k u s = Inr (\<lparr>res_account = a', res_entry = e, res_replayed = False\<rparr>, s')"
    using assms(5) m a' by (simp add: move_def moveFrom_def tx_simps)
  moreover have "amount e = move_amount m" using ins by (auto simp: insert_entry_Inr)
  ultimately show "\<exists>res s'. move fingerprint i m k u s = Inr (res, s') \<and> \<not> res_replayed res
        \<and> balance (res_account res) = b
        \<and> ledger s' = ledger s @ [res_entry res] \<and> amount (res_entry res) = move_amount m
        \<and> balance_of s' = (balance_of s)(i \<mapsto> b)"
    using a' b insert_entry_frame(10) [OF ins] insert_entry_balance(1) [OF ins assms(1)] by auto
next
  fix r
  assume "nextBalance (balance a) (move_amount m) = Inl r"
  then have "move_locked i m k (fingerprint m) u s = Inl (CreditDomain r)"
    using assms(2,5) by (auto simp: move_locked_def tx_simps)
  then show "move fingerprint i m k u s = Inl (CreditDomain r)"
    using assms(5) by (simp add: move_def moveFrom_def move_recover_def tx_simps)
qed

text \<open>After a movement its key names its entry, whatever the movement did.\<close>

lemma move_key:
  assumes "move fingerprint i m k u s = Inr (res, s')" and "ledger_wf s"
  shows "byKey i k s' = Some (res_entry res)" "entry_hash (res_entry res) = Some (fingerprint m)"
    "find_account i s' = Some (res_account res)"
proof -
  have rep: "byKey i k s' = Some (res_entry res) \<and> entry_hash (res_entry res) = Some (fingerprint m)
      \<and> find_account i s' = Some (res_account res)"
    if "replay i e (fingerprint m) t = Inr (res, s')" "byKey i k t = Some e" for e t
    using that by (auto simp: replay_def tx_simps)
  have "byKey i k s' = Some (res_entry res) \<and> entry_hash (res_entry res) = Some (fingerprint m)
      \<and> find_account i s' = Some (res_account res)"
  proof (cases "byKey i k s")
    case (Some e)
    with assms(1) have "replay i e (fingerprint m) s = Inr (res, s')"
      by (simp add: move_def moveFrom_def tx_simps)
    then show ?thesis using Some by (rule rep)
  next
    case None
    show ?thesis
    proof (cases "move_locked i m k (fingerprint m) u s")
      case (Inl f)
      with None assms(1) show ?thesis
        by (auto simp: move_def moveFrom_def move_recover_def tx_simps split: if_splits)
    next
      case (Inr r)
      then obtain e b t where r: "move_locked i m k (fingerprint m) u s = Inr ((e, b), t)"
        by (metis surj_pair)
      from r show ?thesis
      proof (cases rule: move_locked_Inr)
        case raced
        with None show ?thesis by simp
      next
        case (moved a)
        from byKey_after_insert [OF moved(4) None] have "byKey i k t = Some e" by simp
        moreover have "entry_hash e = Some (fingerprint m)" using moved(4) by (auto simp: insert_entry_Inr)
        ultimately show ?thesis
          using assms(1) None r moved(1) by (auto simp: move_def moveFrom_def tx_simps)
      qed
    qed
  qed
  then show "byKey i k s' = Some (res_entry res)" "entry_hash (res_entry res) = Some (fingerprint m)"
    "find_account i s' = Some (res_account res)" by blast+
qed

text \<open>
  C18: A movement is applied exactly once. Once a movement returned, every repetition with its key,
  by anyone, whether its first lookup saw the entry or was stale (it ran before the commit of the
  original), replays the original entry without writing anything; and a different request with that
  key is CREDIT_IDEMPOTENCY_CONFLICT, never a second movement.
\<close>

theorem retried_movement_replays:
  assumes "move fingerprint i m k u s = Inr (res, s')" and "ledger_wf s"
    and "prior = None \<or> prior = byKey i k s'"
  shows "moveFrom prior i m k (fingerprint m) u' s' = Inr (res\<lparr>res_replayed := True\<rparr>, s')
    \<and> (fingerprint m' \<noteq> fingerprint m \<longrightarrow>
      moveFrom prior i m' k (fingerprint m') u' s' = Inl (CreditDomain CREDIT_IDEMPOTENCY_CONFLICT))"
proof (intro conjI impI)
  note key = move_key [OF assms(1,2)]
  have locked: "move_locked i n k h u' s' = Inr ((res_entry res, True), s')" for n h
    using key by (simp add: move_locked_def tx_simps)
  have from_replay: "moveFrom prior i n k h u' s' = replay i (res_entry res) h s'" for n h
    using assms(3) key locked by (auto simp: moveFrom_def)
  show "moveFrom prior i m k (fingerprint m) u' s' = Inr (res\<lparr>res_replayed := True\<rparr>, s')"
    using key by (simp add: from_replay replay_def tx_simps)
  show "moveFrom prior i m' k (fingerprint m') u' s' = Inl (CreditDomain CREDIT_IDEMPOTENCY_CONFLICT)"
    if "fingerprint m' \<noteq> fingerprint m"
    using key that by (simp add: from_replay replay_def tx_simps)
qed

subsection \<open>Examples\<close>

definition example_movement :: human_movement where
  "example_movement = Adjustment (- 30) ''wrong deposit''"

theorem movement_decided_by_balance_witness:
  "\<exists>res s'. move (\<lambda>_. ''h'') 5 example_movement ''adjust-0001'' 1 example_award_db = Inr (res, s')
    \<and> balance (res_account res) = 70 \<and> balance_of s' 5 = Some 70"
proof -
  have "ledger_wf example_award_db" "find_account 5 example_award_db = Some (example_account 100)"
    "body_ok example_movement" "key_ok ''adjust-0001''" "byKey 5 ''adjust-0001'' example_award_db = None"
    by code_simp+
  from movement_decided_by_balance [OF this, of "\<lambda>_. ''h''" 1] show ?thesis
    by (auto simp: example_account_def example_movement_def nextBalance_def MAX_CREDIT_BALANCE_def)
qed

fun example_fingerprint :: "human_movement \<Rightarrow> string" where
  "example_fingerprint (Recharge _ _ _ _) = ''r''"
| "example_fingerprint (Adjustment _ _) = ''a''"

theorem retried_movement_replays_witness:
  "\<exists>res s'. moveFrom None 5 example_movement ''adjust-0001'' ''a'' 2 s' = Inr (res, s')
    \<and> moveFrom None 5 (Recharge 10 CASH None None) ''adjust-0001'' ''r'' 2 s'
        = Inl (CreditDomain CREDIT_IDEMPOTENCY_CONFLICT)
    \<and> length (ledger s') = 2"
proof -
  let ?r = "move example_fingerprint 5 example_movement ''adjust-0001'' 1 example_award_db"
  have "succeeded ?r" "length (ledger (state_after example_award_db ?r)) = 2"
    and wf: "ledger_wf example_award_db" by code_simp+
  then obtain res s' where "?r = Inr (res, s')" "length (ledger s') = 2"
    by (cases ?r) auto
  with retried_movement_replays [OF this(1) wf, of None 2 "Recharge 10 CASH None None"] show ?thesis
    by (auto simp: example_movement_def)
qed

end
