(* ===== verification/System_History.thy ===== *)
theory System_History imports Transaction_Steps Opening_Rules Credit_Accounts "HOL-Library.Sublist" begin

text \<open>
  The history of the system: what no handler can undo. The ledger and the frozen costs only grow, a
  dispatch keeps its request, quote, opening and credit mode, and what is final (a dispatch that
  expired, was cancelled or delivered, an assignment that ended) never changes again.
\<close>

definition dispatch_key :: "dispatch \<Rightarrow> id \<times> id \<times> id \<times> instant \<times> credit_mode" where
  "dispatch_key d = (d_id d, d_request d, d_quote d, d_openedAt d, creditMode d)"

definition final_dispatch :: "dispatch \<Rightarrow> bool" where
  "final_dispatch d \<longleftrightarrow> d_status d = EXPIRED \<or> d_status d = CANCELLED \<or> d_status d = DELIVERED"

definition keys_ok :: "db \<Rightarrow> bool" where
  "keys_ok s \<longleftrightarrow> distinct (map d_id (dispatches s)) \<and> distinct (map asg_id (assignments s))"

definition grows :: "db \<Rightarrow> db \<Rightarrow> bool" where
  "grows s t \<longleftrightarrow>
     keys_ok t \<and> prefix (map dispatch_key (dispatches s)) (map dispatch_key (dispatches t)) \<and>
     (\<forall>d \<in> set (dispatches s). final_dispatch d \<longrightarrow> d \<in> set (dispatches t)) \<and>
     (\<forall>a \<in> set (assignments s). \<not> active a \<longrightarrow> a \<in> set (assignments t)) \<and>
     prefix (ledger s) (ledger t) \<and> prefix (snapshots s) (snapshots t) \<and> prefix (outbox s) (outbox t) \<and>
     referenced t \<subseteq> referenced s \<union> d_id ` set (dispatches t)"

definition evolves :: "db \<Rightarrow> db \<Rightarrow> bool" where
  "evolves s t \<longleftrightarrow> (keys_ok s \<longrightarrow> grows s t)"

lemma ids_of_keys: "map d_id ds = map fst (map dispatch_key ds)"
  by (simp add: dispatch_key_def comp_def)

lemma prefix_ids:
  assumes "prefix (map dispatch_key ds) (map dispatch_key es)"
  shows "d_id ` set ds \<subseteq> d_id ` set es"
proof -
  from assms have "set (map dispatch_key ds) \<subseteq> set (map dispatch_key es)" by (rule set_mono_prefix)
  then have "fst ` set (map dispatch_key ds) \<subseteq> fst ` set (map dispatch_key es)" by (rule image_mono)
  then show ?thesis by (simp add: image_image dispatch_key_def)
qed

lemma grows_trans:
  assumes 1: "grows s t" and 2: "grows t u"
  shows "grows s u"
proof -
  have "d_id ` set (dispatches t) \<subseteq> d_id ` set (dispatches u)"
    using 2 by (intro prefix_ids) (simp add: grows_def)
  then have "referenced u \<subseteq> referenced s \<union> d_id ` set (dispatches u)"
    using 1 2 unfolding grows_def by blast
  moreover have "prefix (map dispatch_key (dispatches s)) (map dispatch_key (dispatches u))"
    "prefix (ledger s) (ledger u)" "prefix (snapshots s) (snapshots u)" "prefix (outbox s) (outbox u)"
    using 1 2 unfolding grows_def by (auto intro: prefix_order.trans)
  ultimately show ?thesis using 1 2 unfolding grows_def by blast
qed

interpretation history: evolution evolves
proof
  show "evolves s s" for s by (simp add: evolves_def grows_def)
  show "evolves s u" if "evolves s t" "evolves t u" for s t u
    unfolding evolves_def
  proof
    assume "keys_ok s"
    with that(1) have g: "grows s t" by (simp add: evolves_def)
    then have "keys_ok t" by (simp add: grows_def)
    with that(2) have "grows t u" by (simp add: evolves_def)
    with g show "grows s u" by (rule grows_trans)
  qed
qed

subsection \<open>The writes\<close>

text \<open>A write that leaves these tables alone.\<close>

lemma evolves_frame:
  assumes "dispatches t = dispatches s" "assignments t = assignments s" "ledger t = ledger s"
    "snapshots t = snapshots s" "outbox t = outbox s"
  shows "evolves s t"
  using assms by (auto simp: evolves_def grows_def keys_ok_def referenced_def)

lemma steps_raises [intro]:
  "stepsT evolves (raise_some f)" "stepsT evolves (raiseT b r)" "stepsT evolves (checkT b)" "stepsT evolves (uniqueT b)"
  "stepsT evolves (nextBalanceT b' a)" "stepsT evolves (assertDocumentaryEligibility documents i j)"
  "stepsT evolves (faultT g)"
  by (auto intro!: stepsTI simp: tx_simps history.refl nextBalanceT_def faultT_def split: sum.splits)

lemma dispatch_guard_keeps:
  assumes "dispatch_guard old new s = None"
  shows "d_request new = d_request old" "d_quote new = d_quote old" "d_openedAt new = d_openedAt old"
    "\<not> final_dispatch old"
  using assms by (auto simp: dispatch_guard_def final_dispatch_def split: if_splits)

lemma map_update_keys:
  assumes "distinct (map d_id ds)" "old \<in> set ds" "dispatch_key new = dispatch_key old"
  shows "map dispatch_key (update_rows (\<lambda>d. d_id d = d_id new) (\<lambda>_. new) ds) = map dispatch_key ds"
proof -
  have "dispatch_key d = dispatch_key new" if "d \<in> set ds" "d_id d = d_id new" for d
    using unique_key [OF assms(1) that(1) assms(2)] that(2) assms(3) by (simp add: dispatch_key_def)
  then show ?thesis by (auto simp: update_rows_def)
qed

lemma update_dispatch_steps:
  assumes "\<And>r. d_id (change r) = d_id r"
  shows "stepsT evolves (update_dispatch sqlNow i change)"
proof (rule stepsTI)
  fix s u s'
  assume "update_dispatch sqlNow i change s = Inr (u, s')"
  then obtain old new rs where f: "find_dispatch (Some i) s = Some old" and c: "core new = core (change old)"
    and g: "dispatch_guard old (change old) s = None" and m: "creditMode (change old) = creditMode old"
    and s': "s' = s\<lparr>dispatches := update_rows (\<lambda>d. d_id d = d_id new) (\<lambda>_. new) (dispatches s), rounds := rs\<rparr>"
    by (rule update_dispatch_Inr)
  note old = find_dispatch_Some [OF f]
  note k = dispatch_guard_keeps [OF g]
  have key: "dispatch_key new = dispatch_key old"
    using coreD [OF c] assms k(1,2,3) m by (simp add: dispatch_key_def)
  then have id: "d_id new = d_id old" by (simp add: dispatch_key_def)
  show "evolves s s'"
    unfolding evolves_def
  proof
    assume keys: "keys_ok s"
    then have d: "distinct (map d_id (dispatches s))" by (simp add: keys_ok_def)
    note upd = map_update_keys [OF d old [THEN conjunct1] key]
    have ids: "map d_id (dispatches s') = map d_id (dispatches s)"
      unfolding ids_of_keys by (simp add: s' upd [simplified])
    then have "set (map d_id (dispatches s')) = set (map d_id (dispatches s))" by simp
    moreover have "x \<in> set (dispatches s')" if "x \<in> set (dispatches s)" "final_dispatch x" for x
    proof -
      have "x \<noteq> old" using that(2) k(4) by auto
      then have "d_id x \<noteq> d_id new" using unique_key [OF d that(1) old [THEN conjunct1]] id by auto
      then show ?thesis using that(1) by (auto simp: s' update_rows_def)
    qed
    ultimately show "grows s s'"
      using keys ids upd by (auto simp: grows_def keys_ok_def s' referenced_def)
  qed
qed

lemma update_candidate_steps: "stepsT evolves (update_candidate d p change)"
  by (rule stepsTI) (auto simp: update_candidate_def tx_simps intro: evolves_frame)

lemma insert_candidate_steps: "stepsT evolves (insert_candidate skip d at p)"
  by (rule stepsTI) (auto simp: insert_candidate_def tx_simps split: if_splits intro: evolves_frame history.refl)

lemma update_assignment_steps:
  assumes "\<And>a. asg_id (change a) = asg_id a"
  shows "stepsT evolves (update_assignment i change)"
proof (rule stepsTI)
  fix s u s'
  assume "update_assignment i change s = Inr (u, s')"
  then obtain old where f: "first_row (\<lambda>a. asg_id a = i) (assignments s) = Some old"
    and g: "assignment_update_guard old (change old) = None"
    and s': "s' = s\<lparr>assignments := update_rows (\<lambda>a. asg_id a = i) (\<lambda>_. change old) (assignments s)\<rparr>"
    by (auto simp: update_assignment_def tx_simps)
  note old = first_row_Some [OF f]
  from g have k: "asg_dispatch (change old) = asg_dispatch old" "active old"
    by (auto simp: assignment_update_guard_def split: if_splits)
  show "evolves s s'"
    unfolding evolves_def
  proof
    assume keys: "keys_ok s"
    then have d: "distinct (map asg_id (assignments s))" by (simp add: keys_ok_def)
    have same: "a = old" if "a \<in> set (assignments s)" "asg_id a = i" for a
      using unique_key [OF d that(1) old [THEN conjunct1]] that(2) old by simp
    have "map asg_id (assignments s') = map asg_id (assignments s)"
      using same assms by (auto simp: s' update_rows_def)
    moreover have "asg_dispatch ` set (assignments s') \<subseteq> asg_dispatch ` set (assignments s)"
      using same k old by (auto simp: s' update_rows_def)
    moreover have "a \<in> set (assignments s')" if "a \<in> set (assignments s)" "\<not> active a" for a
    proof -
      have "asg_id a \<noteq> i" using same [OF that(1)] that(2) k(2) by auto
      then show ?thesis using that(1) by (auto simp: s' update_rows_def)
    qed
    ultimately show "grows s s'"
      using keys by (auto simp: grows_def keys_ok_def s' referenced_def)
  qed
qed

lemma insert_assignment_steps: "stepsT evolves (insert_assignment a0)"
proof (rule stepsTI)
  fix s i s'
  assume "insert_assignment a0 s = Inr (i, s')"
  then obtain a where g: "assignment_insert_guard a (s\<lparr>nextId := nextId s + 1\<rparr>) = None"
    and u: "assignment_unique a (assignments s)"
    and s': "s' = s\<lparr>nextId := nextId s + 1, assignments := assignments s @ [a]\<rparr>"
    by (auto simp: insert_assignment_def tx_simps)
  from g have "find_dispatch (Some (asg_dispatch a)) (s\<lparr>nextId := nextId s + 1\<rparr>) \<noteq> None"
    by (auto simp: assignment_insert_guard_def Let_def split: if_splits)
  then obtain d where "d \<in> set (dispatches s)" "d_id d = asg_dispatch a"
    by (auto simp: find_dispatch_def dest!: first_row_Some)
  then have "asg_dispatch a \<in> d_id ` set (dispatches s)" by force
  moreover have "asg_id a \<notin> asg_id ` set (assignments s)"
    using u by (auto simp: assignment_unique_def any_row_iff)
  ultimately show "evolves s s'" by (auto simp: evolves_def grows_def keys_ok_def s' referenced_def)
qed

lemma entry_guard_reference:
  assumes "entry_guard e s = None" "is_award e \<or> is_refund e"
  shows "\<exists>d \<in> set (dispatches s). entry_reference e = Some (d_id d)"
proof -
  have "find_dispatch (entry_reference e) s \<noteq> None"
    using assms by (auto simp: entry_guard_def service_award_guard_def service_refund_guard_def
        split: if_splits option.splits)
  then obtain d where "find_dispatch (entry_reference e) s = Some d" by auto
  from first_row_Some [OF this [unfolded find_dispatch_def]] show ?thesis by (metis)
qed

lemma insert_entry_steps:
  assumes "is_award e0 \<or> is_refund e0 \<or> entry_reference e0 = None"
  shows "stepsT evolves (insert_entry e0)"
proof (rule stepsTI)
  fix s e s'
  assume "insert_entry e0 s = Inr (e, s')"
  then have e: "e = e0\<lparr>entry_id := nextId s, entry_sequence := nextSequence s\<rparr>"
    and g: "entry_guard e (s\<lparr>nextId := nextId s + 1, nextSequence := nextSequence s + 1\<rparr>) = None"
    and s': "dispatches s' = dispatches s" "assignments s' = assignments s" "ledger s' = ledger s @ [e]"
      "snapshots s' = snapshots s" "outbox s' = outbox s"
    by (auto simp: insert_entry_Inr)
  have "entry_reference e = None \<or> (\<exists>d \<in> set (dispatches s). entry_reference e = Some (d_id d))"
    using entry_guard_reference [OF g] assms by (auto simp: e)
  then show "evolves s s'"
    by (auto simp: evolves_def grows_def keys_ok_def s' referenced_def in_map_filter)
qed

lemma insert_event_steps: "stepsT evolves (insert_event e0)"
  by (rule stepsTI)
    (auto simp: insert_event_def tx_simps evolves_def grows_def keys_ok_def referenced_def)

lemma insert_snapshot_steps: "stepsT evolves (insert_snapshot service x0)"
proof (rule stepsTI)
  fix s x s'
  assume "insert_snapshot service x0 s = Inr (x, s')"
  then have g: "snapshot_guard service x (s\<lparr>nextId := nextId s + 1\<rparr>) = None"
    and s': "s' = s\<lparr>nextId := nextId s + 1, snapshots := snapshots s @ [x]\<rparr>"
    by (auto simp: insert_snapshot_def tx_simps)
  from g have "find_dispatch (Some (snap_dispatch x)) (s\<lparr>nextId := nextId s + 1\<rparr>) \<noteq> None"
    by (cases "find_dispatch (Some (snap_dispatch x)) (s\<lparr>nextId := nextId s + 1\<rparr>)") (simp_all add: snapshot_guard_def)
  then obtain d where "d \<in> set (dispatches s)" "d_id d = snap_dispatch x"
    by (auto simp: find_dispatch_def dest!: first_row_Some)
  then have "snap_dispatch x \<in> d_id ` set (dispatches s)" by force
  then show "evolves s s'" by (auto simp: evolves_def grows_def keys_ok_def s' referenced_def)
qed

lemma insert_dispatch_steps: "stepsT evolves (insert_dispatch d)"
proof (rule stepsTI)
  fix s u s'
  assume "insert_dispatch d s = Inr (u, s')"
  then obtain rs where s': "s' = s\<lparr>dispatches := dispatches s @ [d], rounds := rs\<rparr>"
    and "d_id d \<notin> d_id ` set (dispatches s)"
    by (rule insert_dispatch_Inr)
  then show "evolves s s'" by (auto simp: evolves_def grows_def keys_ok_def s' referenced_def)
qed

lemma update_quote_steps: "stepsT evolves (update_quote i change)"
  by (rule stepsTI) (auto dest!: update_quote_Inr(1) intro: evolves_frame)

lemma cancel_request_rows_steps: "stepsT evolves (cancel_request_rows i now)"
  by (rule stepsTI) (auto simp: cancel_request_rows_def intro: evolves_frame)

lemmas step_writes =
  update_dispatch_steps update_candidate_steps insert_candidate_steps update_assignment_steps
  insert_assignment_steps insert_entry_steps insert_event_steps insert_snapshot_steps
  insert_dispatch_steps update_quote_steps cancel_request_rows_steps steps_raises

subsection \<open>The handlers\<close>

lemma charge_steps: "stepsT evolves (chargeDispatchAward d mode owner actor)"
  unfolding chargeDispatchAward_def
  by (intro history.rules step_writes) (simp add: service_movement_def)

lemma refund_steps: "stepsT evolves (refundDispatchAward d owner b reason actor)"
  unfolding refundDispatchAward_def
  by (intro history.rules step_writes) (simp add: service_movement_def)

lemma expire_steps: "stepsT evolves (expire_dispatch now sqlNow d)"
  unfolding expire_dispatch_def by (intro step_writes) simp

lemma rejection_steps:
  "stepsT evolves n \<Longrightarrow> (\<And>c. stepsT evolves (f c)) \<Longrightarrow>
     stepsT evolves (case r of AlreadyOwner \<Rightarrow> n | Rejected c \<Rightarrow> f c)"
  by (cases r) simp_all

lemma claim_steps: "stepsT evolves (claim_tx appNow dbNow sqlNow d p actor)"
proof -
  have "stepsT evolves (claim_award now sqlNow row q p actor)" for now row q
    unfolding claim_award_def by (intro history.rules step_writes charge_steps) simp
  then show ?thesis
    unfolding claim_tx_def by (intro history.rules rejection_steps expire_steps)
qed

lemma release_steps: "stepsT evolves (release_tx now sqlNow d p actor)"
  unfolding release_tx_def by (intro history.rules step_writes refund_steps) (simp add: Let_def)

lemma ended_id: "asg_id (ended st now user reason a) = asg_id a"
  by (simp add: ended_def)

lemmas resource_steps = lockOwnedDispatch_def lockActive_def lockEligibleResources_def lockEligibleResources_take_def

lemma assignment_steps:
  "stepsT evolves (create_tx documents now d i j p user)"
  "stepsT evolves (reassign_tx documents now d i j reason p user)"
  "stepsT evolves (cancel_tx now d reason p user)"
  unfolding create_tx_def reassign_tx_def cancel_tx_def resource_steps
  by (intro history.rules step_writes ended_id)+

lemma complete_steps: "stepsT evolves (completeDelivery now sqlNow d actor user)"
  unfolding completeDelivery_def lockActive_def recordDeliveryCompleted_def
  by (intro history.rules step_writes ended_id) simp

lemma take_steps: "stepsT evolves (take_tx documents appNow dbNow sqlNow d actor v user)"
proof -
  have "stepsT evolves (take_award documents now sqlNow row actor v user)" for now row
    unfolding take_award_def resource_steps by (intro history.rules step_writes charge_steps) simp
  then show ?thesis unfolding take_tx_def by (intro history.rules expire_steps)
qed

lemma release_independent_steps: "stepsT evolves (release_independent_tx now sqlNow d actor reason user)"
  unfolding release_independent_tx_def end_active_def
  by (intro history.rules step_writes refund_steps ended_id) (simp add: Let_def)

lemma cancellation_steps: "stepsT evolves (cancel_request_tx now sqlNow actor publicId)"
proof -
  have "d_id (close_change expired now r) = d_id r" for expired r by (simp add: close_change_def)
  then have "stepsT evolves (close_row now sqlNow user row)" for user row
    unfolding close_row_def refund_owner_def by (intro history.rules step_writes refund_steps)
  then show ?thesis
    unfolding cancel_request_tx_def closeDispatchesForCancelledRequest_def cancelActiveAssignments_def
    by (intro history.rules step_writes ended_id)
qed

lemma advance_steps: "stepsT evolves (advance_tx skipped clock sqlNow d requestId)"
  unfolding advance_tx_def stop_search_def next_round_def
  by (intro history.rules step_writes) simp_all

lemma opening_steps: "stepsT evolves (openDispatch generated q ttl now automatic)"
  unfolding openDispatch_def authorized_dispatch_def createDispatchCreditSnapshots_def actor_snapshot_def
  by (intro history.rules step_writes)

lemma accept_steps: "stepsT evolves (accept_tx ttl now generated publicId client)"
  unfolding accept_tx_def rejectConvertedRequest_def
  by (intro history.rules step_writes opening_steps)

text \<open>Opening keeps the invariant: both of its parts are kept by the two writes of \<open>accept\<close>.\<close>

definition sound :: "db \<Rightarrow> db \<Rightarrow> bool" where
  "sound s t \<longleftrightarrow> (system_ok s \<and> references_ok s \<longrightarrow> system_ok t \<and> references_ok t)"

interpretation soundness: evolution sound
  by unfold_locales (auto simp: sound_def)

lemma system_keys: "system_ok s \<Longrightarrow> keys_ok s"
  by (simp add: keys_ok_def system_ok_def claims_ok_def assignments_ok_def)

lemma evolves_references:
  assumes "evolves s t" "system_ok s" "references_ok s"
  shows "references_ok t"
proof -
  have g: "grows s t" using assms(1) system_keys [OF assms(2)] by (simp add: evolves_def)
  then have "d_id ` set (dispatches s) \<subseteq> d_id ` set (dispatches t)"
    by (intro prefix_ids) (simp add: grows_def)
  moreover have "referenced t \<subseteq> referenced s \<union> d_id ` set (dispatches t)" using g by (simp add: grows_def)
  ultimately show ?thesis using assms(3) unfolding references_ok_def by blast
qed

lemma sound_openDispatch: "stepsT sound (openDispatch generated q ttl now automatic)"
proof (rule stepsTI)
  fix s r s'
  assume o: "openDispatch generated q ttl now automatic s = Inr (r, s')"
  show "sound s s'"
    unfolding sound_def
  proof
    assume g: "system_ok s \<and> references_ok s"
    then have "system_ok s'" by (intro openDispatch_ok [OF o]) simp_all
    moreover have "references_ok s'"
      using g by (intro evolves_references [OF stepsTD [OF opening_steps o]]) simp_all
    ultimately show "system_ok s' \<and> references_ok s'" ..
  qed
qed

lemma sound_update_quote: "stepsT sound (update_quote i change)"
proof (rule stepsTI)
  fix s q s'
  assume "update_quote i change s = Inr (q, s')"
  note s' = update_quote_Inr(1) [OF this]
  show "sound s s'"
    unfolding sound_def s' by (simp add: system_ok_quotes references_ok_def referenced_def)
qed

lemma accept_sound: "stepsT sound (accept_tx ttl now generated publicId client)"
  unfolding accept_tx_def rejectConvertedRequest_def
  by (intro soundness.rules sound_openDispatch sound_update_quote)

lemma accept_ok:
  assumes "system_ok s" "references_ok s"
  shows "system_ok (snd (accept_quote_handler ttl now generated publicId client s))"
  using assms accept_sound [of ttl now generated publicId client]
  by (auto simp: accept_quote_handler_def stepsT_def sound_def split: sum.splits accept_outcome.splits)

end
