(* ===== verification/Dispatch_System.thy ===== *)
theory Dispatch_System imports System_History begin

text \<open>
  The whole dispatch system as a step relation: one step is one committed handler of any component, or
  a change of the tables that other parts of the program own (clients, requests, providers, drivers,
  vehicles, coverages, policies). Every reachable state satisfies the invariants of the components.
\<close>

subsection \<open>Human movements and the environment\<close>

lemma moveFrom_writes:
  assumes "moveFrom prior i m k h u s = Inr (res, s')"
  shows "s' = s \<or> (\<exists>b c e. insert_entry (human_entry i m b c k h u) s = Inr (e, s'))"
proof (cases prior)
  case (Some e)
  with assms show ?thesis by (auto simp: moveFrom_def replay_def tx_simps)
next
  case None
  show ?thesis
  proof (cases "move_locked i m k h u s")
    case (Inl f)
    with None assms show ?thesis
      by (auto simp: moveFrom_def move_recover_def replay_def tx_simps split: if_splits)
  next
    case (Inr r)
    obtain e b t where r: "r = ((e, b), t)" by (metis surj_pair)
    have "s' = t"
      using assms None Inr r by (auto simp: moveFrom_def replay_def tx_simps split: if_splits)
    with Inr [unfolded r] show ?thesis by (cases rule: move_locked_Inr) auto
  qed
qed

lemma human_insert_ok:
  assumes i: "insert_entry (human_entry a m b c k h u) s = Inr (e, s')" and ok: "system_ok s"
  shows "system_ok s'"
proof -
  note k = system_okD [OF ok]
  note f = insert_entry_frame [OF i]
  have "is_award e \<longleftrightarrow> False" "is_refund e \<longleftrightarrow> False" "ledger s' = ledger s @ [e]"
    using i by (auto simp: insert_entry_Inr)
  then have same: "service_sum x y (ledger s') = service_sum x y (ledger s)" for x y
    by (simp add: service_sum_append service_entry_def)
  note so = insert_entry_same_owners [OF i]
  have ds: "dispatches s' = dispatches s" "candidates s' = candidates s" "assignments s' = assignments s" "outbox s' = outbox s"
    using i by (auto simp: insert_entry_Inr)
  have "economy s'"
    unfolding economy_def list_all_iff
  proof (intro ballI)
    fix row x
    assume row: "row \<in> set (dispatches s')" and x: "x \<in> set (accounts s')"
    obtain y where y: "y \<in> set (accounts s)" "acc_id y = acc_id x" by (rule same_owners_account [OF so x])
    show "service_sum (acc_id x) (d_id row) (ledger s') = (if owes row (acc_id x) s' then - price row s' else 0)"
      using economyD [OF k(5), of row y] row y ds
      by (simp add: same same_owners_owes [OF so] same_owners_price [OF so])
  qed
  then show ?thesis
    using k insert_entry_wf [OF i] insert_entry_accounts_wf [OF i] by (simp add: system_ok_def ds)
qed

lemma moveFrom_ok: "moveFrom prior i m k h u s = Inr (res, s') \<Longrightarrow> system_ok s \<Longrightarrow> system_ok s'"
  using moveFrom_writes human_insert_ok by blast

lemma moveFrom_evolves:
  assumes "moveFrom prior i m k h u s = Inr (res, s')"
  shows "evolves s s'"
proof -
  have ref: "entry_reference (human_entry i m b c k h u) = None" for b c by (cases m) simp_all
  have "stepsT evolves (insert_entry (human_entry i m b c k h u))" for b c
    by (rule insert_entry_steps) (simp add: ref)
  with moveFrom_writes [OF assms] show ?thesis
    using history.refl by (auto dest: stepsTD)
qed

text \<open>
  What the rest of the program may change at any time: everything but the tables of the dispatch system
  and the identity of the independent profiles.
\<close>

definition environment :: "db \<Rightarrow> db \<Rightarrow> bool" where
  "environment s t \<longleftrightarrow>
     dispatches t = dispatches s \<and> candidates t = candidates s \<and> assignments t = assignments s \<and>
     snapshots t = snapshots s \<and> preAwards t = preAwards s \<and> accounts t = accounts s \<and>
     ledger t = ledger s \<and> outbox t = outbox s \<and> nextSequence t = nextSequence s \<and> nextId s \<le> nextId t \<and>
     map profile_key (profiles t) = map profile_key (profiles s)"

lemma environment_ok:
  assumes "environment s t" "system_ok s"
  shows "system_ok t"
proof -
  note k = system_okD [OF assms(2)]
  have "economy t"
    by (rule economy_frame [OF k(5)])
      (use assms(1) in \<open>simp_all add: environment_def same_owners_def owner_account_def\<close>)
  moreover have "ledger_wf t" "accounts_wf t"
    using k assms(1) by (auto simp: environment_def accounts_wf_def intro!: ledger_wf_cong [OF _ _ _ _ k(1)])
  ultimately show ?thesis using k assms(1) by (simp add: system_ok_def environment_def)
qed

subsection \<open>The steps\<close>

inductive system_step :: "db \<Rightarrow> db \<Rightarrow> bool" where
  accept: "system_step s (snd (accept_quote_handler ttl now generated publicId client s))"
| claim: "system_step s (snd (claim appNow dbNow sqlNow d p actor s))"
| release: "system_step s (snd (release now sqlNow d p actor s))"
| assign: "system_step s (snd (create_assignment documents now d i j p user s))"
| reassign: "system_step s (snd (reassign documents now d i j reason p user s))"
| unassign: "system_step s (snd (cancel_assignment now d reason p user s))"
| complete: "system_step s (snd (complete_by_provider now sqlNow d p user s))"
| complete_independent: "system_step s (snd (complete_by_driver now sqlNow user d s))"
| take: "map profile_key (profiles seen) = map profile_key (profiles s) \<Longrightarrow>
    system_step s (snd (take_dispatch documents appNow dbNow sqlNow user d v seen s))"
| release_taken: "map profile_key (profiles seen) = map profile_key (profiles s) \<Longrightarrow>
    system_step s (snd (release_independent now sqlNow user d why seen s))"
| cancel: "system_step s (snd (cancel_request now sqlNow who publicId s))"
| search: "system_step s (snd (advance skipped clock sqlNow d r s))"
| movement: "moveFrom prior i m k h u s = Inr (res, t) \<Longrightarrow> system_step s t"
| environment: "environment s t \<Longrightarrow> system_step s t"

definition good :: "db \<Rightarrow> bool" where
  "good s \<longleftrightarrow> system_ok s \<and> references_ok s"

lemma accept_evolves: "evolves s (snd (accept_quote_handler ttl now generated publicId client s))"
  using accept_steps [of ttl now generated publicId client] history.refl
  by (auto simp: accept_quote_handler_def dest: stepsTD split: sum.splits accept_outcome.splits)

lemma claim_evolves: "evolves s (snd (claim appNow dbNow sqlNow d p actor s))"
  using claim_steps [of appNow dbNow sqlNow d p actor] history.refl
  by (auto simp: claim_def dest: stepsTD split: sum.splits claim_outcome.splits)

lemma take_evolves: "evolves s (snd (take_dispatch documents appNow dbNow sqlNow user d v seen s))"
  using take_steps [of documents appNow dbNow sqlNow d _ v user] history.refl
  by (auto simp: take_dispatch_def dest: stepsTD split: sum.splits take_outcome.splits)

lemma release_taken_evolves: "evolves s (snd (release_independent now sqlNow user d why seen s))"
  by (auto simp: release_independent_def history.refl intro: history.commit [OF release_independent_steps]
      split: sum.splits)

lemma complete_evolves:
  "evolves s (snd (complete_by_provider now sqlNow d p user s))"
  "evolves s (snd (complete_by_driver now sqlNow user d s))"
  unfolding complete_by_provider_def complete_by_driver_def
  by (intro history.commit history.rules complete_steps)+

lemma assignment_evolves:
  "evolves s (snd (create_assignment documents now d i j p user s))"
  "evolves s (snd (reassign documents now d i j reason p user s))"
  "evolves s (snd (cancel_assignment now d reason' p user s))"
  unfolding create_assignment_def reassign_def cancel_assignment_def
  by (intro history.commit history.rules assignment_steps)+

lemma environment_evolves: "environment s t \<Longrightarrow> evolves s t"
  by (intro evolves_frame) (simp_all add: environment_def)

lemma step_evolves: "system_step s t \<Longrightarrow> evolves s t"
proof (induction rule: system_step.induct)
  case (release s now sqlNow d p actor)
  show ?case unfolding release_def by (rule history.commit [OF release_steps])
next
  case (cancel s now sqlNow who publicId)
  show ?case unfolding cancel_request_def by (rule history.commit [OF cancellation_steps])
next
  case (search s skipped clock sqlNow d r)
  show ?case unfolding advance_def by (rule history.commit [OF advance_steps])
qed (auto intro: accept_evolves claim_evolves assignment_evolves complete_evolves take_evolves
     release_taken_evolves moveFrom_evolves environment_evolves)

lemma step_ok: "system_step s t \<Longrightarrow> system_ok s \<Longrightarrow> references_ok s \<Longrightarrow> system_ok t"
  by (induction rule: system_step.induct)
    (auto intro: accept_ok claim_ok release_ok create_assignment_ok reassign_ok cancel_assignment_ok
      complete_by_provider_ok complete_by_driver_ok take_dispatch_ok release_independent_ok cancel_request_ok
      advance_ok moveFrom_ok environment_ok)

interpretation dispatching: invariant_system system_step good
proof
  fix s t
  assume step: "system_step s t" and g: "good s"
  from g have "system_ok t" unfolding good_def using step_ok [OF step] by blast
  moreover have "references_ok t"
    using evolves_references [OF step_evolves [OF step]] g by (simp add: good_def)
  ultimately show "good t" by (simp add: good_def)
qed

subsection \<open>What holds in every reachable state\<close>

lemma reachable_good: "rtranclp system_step s t \<Longrightarrow> good s \<Longrightarrow> good t"
  by (rule dispatching.reachable_inv)

lemma reachable_system_ok: "rtranclp system_step s t \<Longrightarrow> good s \<Longrightarrow> system_ok t"
  using reachable_good by (simp add: good_def)

lemma reachable_evolves: "rtranclp system_step s t \<Longrightarrow> evolves s t"
  by (induction rule: rtranclp_induct) (auto intro: history.refl history.trans step_evolves)

text \<open>
  C1: The credits follow the service. In every reachable state, whatever was claimed, taken, released,
  reassigned, cancelled, delivered or recharged before and in whatever order, what a dispatch has cost
  an account is its frozen price if the owner of that account holds or delivered the service, and nothing
  otherwise: no double charge, no charge kept after a release or a cancellation, no refund of a delivery.
\<close>

theorem money_follows_the_service:
  assumes "rtranclp system_step s t" "good s"
    and "row \<in> set (dispatches t)" "a \<in> set (accounts t)"
  shows "service_sum (acc_id a) (d_id row) (ledger t) = (if owes row (acc_id a) t then - price row t else 0)"
  using economyD [OF system_okD(5) [OF reachable_system_ok [OF assms(1,2)]] assms(3,4)] .

text \<open>
  C4: In every reachable state the balance of an account is the sum of its ledger, never negative and
  never above the limit, and each entry of the ledger carries the balances before and after it.
\<close>

theorem balances_are_the_ledger:
  assumes "rtranclp system_step s t" "good s" "a \<in> set (accounts t)"
  shows "balance a = account_sum (acc_id a) (ledger t) \<and> 0 \<le> balance a \<and> balance a \<le> MAX_CREDIT_BALANCE
    \<and> (\<forall>e \<in> set (ledger t). balanceAfter e = balanceBefore e + amount e \<and> 0 \<le> balanceAfter e)"
  using system_okD(1) [OF reachable_system_ok [OF assms(1,2)]] assms(3)
  by (auto simp: ledger_wf_def list_all_iff balance_ok_def fits_def entry_check_def amount_check_def MAX_CREDIT_BALANCE_def)

text \<open>
  C2: A service has one winner. In every reachable state a dispatch is never held by a fleet and an
  independent driver at once; a fleet holds it exactly when its candidate row is the CLAIMED one, and
  no two candidates of a dispatch are CLAIMED. An OPEN dispatch is held by nobody.
\<close>

theorem one_winner:
  assumes "rtranclp system_step s t" "good s" and row: "row \<in> set (dispatches t)"
  shows "(claimedByProvider row = None \<or> claimedByIndependent row = None) \<and>
    (d_status row = OPEN \<longrightarrow> claimedByProvider row = None \<and> claimedByIndependent row = None) \<and>
    (\<forall>c \<in> set (candidates t). cand_dispatch c = d_id row \<longrightarrow>
      (cand_status c = CAND_CLAIMED) = (claimedByProvider row = Some (cand_provider c)))"
proof -
  have "claims_ok (dispatches t) (candidates t)" by (rule system_okD(3) [OF reachable_system_ok [OF assms(1,2)]])
  with row have "dispatch_check row" "claim_matches (candidates t) row" by (auto simp: claims_ok_def list_all_iff)
  then show ?thesis
    by (auto simp: dispatch_check_def no_claim_def one_claim_def claim_matches_def list_all_iff)
qed

text \<open>
  C3: Nobody carries two services. In every reachable state a dispatch has at most one ACTIVE assignment,
  a driver and a vehicle are in at most one, and an ACTIVE assignment belongs to a CLAIMED dispatch held by
  the fleet, or by the independent driver, that it names.
\<close>

theorem one_carrier:
  assumes "rtranclp system_step s t" "good s"
    and a: "a \<in> set (assignments t)" "active a" and b: "b \<in> set (assignments t)" "active b"
  shows "(asg_dispatch a = asg_dispatch b \<or> asg_driver a = asg_driver b \<or> asg_vehicle a = asg_vehicle b \<longrightarrow> a = b) \<and>
    (\<exists>row \<in> set (dispatches t). d_id row = asg_dispatch a \<and> carried_by a row)"
proof -
  have ok: "assignments_ok [] (dispatches t) (assignments t)"
    by (rule system_okD(4) [OF reachable_system_ok [OF assms(1,2)]])
  then have u: "unique_on active asg_dispatch (assignments t)" "unique_on active asg_driver (assignments t)"
    "unique_on active asg_vehicle (assignments t)" by (auto simp: assignments_ok_def)
  have "\<exists>row \<in> set (dispatches t). d_id row = asg_dispatch a \<and> carried_by a row"
    using ok a by (auto simp: assignments_ok_def list_all_iff list_ex_iff)
  with unique_onD [OF u(1) a(1) b(1)] unique_onD [OF u(2) a(1) b(1)] unique_onD [OF u(3) a(1) b(1)] a(2) b(2)
  show ?thesis by blast
qed

text \<open>
  C6: A delivery is announced once and only when it happened: in every reachable state the events of the
  outbox name different dispatches, and each names a DELIVERED one of its request with the time of its
  delivery.
\<close>

theorem events_announce_deliveries:
  assumes "rtranclp system_step s t" "good s"
  shows "distinct (map ev_dispatch (outbox t)) \<and>
    (\<forall>e \<in> set (outbox t). \<exists>row \<in> set (dispatches t). d_id row = ev_dispatch e \<and> d_status row = DELIVERED
      \<and> d_request row = ev_request e \<and> d_deliveredAt row = Some (ev_occurredAt e))"
  using system_okD(6) [OF reachable_system_ok [OF assms]]
  by (auto simp: outbox_ok_def list_all_iff list_ex_iff)

text \<open>
  C5: Nothing of the past is rewritten. Whatever steps follow, the ledger, the frozen costs and the outbox
  only grow at their end, a dispatch that expired, was cancelled or delivered never changes again, an
  ended assignment neither, and every dispatch keeps its request, quote, opening and credit mode.
\<close>

theorem history_is_append_only:
  assumes "rtranclp system_step s t" "good s"
  shows "prefix (ledger s) (ledger t) \<and> prefix (snapshots s) (snapshots t) \<and> prefix (outbox s) (outbox t) \<and>
    (\<forall>d \<in> set (dispatches s). final_dispatch d \<longrightarrow> d \<in> set (dispatches t)) \<and>
    (\<forall>a \<in> set (assignments s). \<not> active a \<longrightarrow> a \<in> set (assignments t)) \<and>
    prefix (map dispatch_key (dispatches s)) (map dispatch_key (dispatches t))"
proof -
  have "keys_ok s" using assms(2) by (simp add: good_def system_keys)
  with reachable_evolves [OF assms(1)] have "grows s t" by (simp add: evolves_def)
  then show ?thesis by (simp add: grows_def)
qed

end
