(* ===== verification/Award_Triggers.thy ===== *)
theory Award_Triggers imports Dispatch_Service begin

text \<open>
  The award checks that PostgreSQL runs at COMMIT: the deferred constraint triggers
  \<open>dispatch_award_integrity\<close> (migration 20260923000200) and \<open>dispatch_award_refund_required\<close>
  (20260923000300, replaced by 20260923001600). The writes of Dispatch_Guards leave them to the end of
  the transaction, as the database does; \<open>commit_passes\<close> says what they find there. \<open>awards_ok\<close> is the
  invariant behind them: every award that was ever made has its debit, and every debit its award.
\<close>

subsection \<open>The triggers\<close>

text \<open>
  The view \<open>dispatch_operational_awards\<close>: who was ever awarded a dispatch, and when. Its columns are those of
  the table of historical exemptions.
\<close>

definition candidate_award :: "candidate \<Rightarrow> instant \<Rightarrow> pre_award" where
  "candidate_award c t =
     \<lparr>pre_dispatch = cand_dispatch c, pre_actorType = PROVIDER, pre_actorId = cand_provider c, pre_awardedAt = t\<rparr>"

definition assignment_award :: "assignment \<Rightarrow> pre_award" where
  "assignment_award x =
     \<lparr>pre_dispatch = asg_dispatch x, pre_actorType = INDEPENDENT_DRIVER, pre_actorId = asg_driver x,
      pre_awardedAt = asg_assignedAt x\<rparr>"

definition operational_awards :: "db \<Rightarrow> pre_award list" where
  "operational_awards s =
     List.map_filter (\<lambda>c. map_option (candidate_award c) (cand_claimedAt c)) (candidates s) @
     map assignment_award (filter (\<lambda>x. asg_mode x = INDEPENDENT) (assignments s))"

text \<open>The actor an account belongs to, and the debit of an award; joins on a key are lookups.\<close>

definition account_actor :: "credit_account \<Rightarrow> db \<Rightarrow> id option" where
  "account_actor a s =
     (case acc_ownerType a of
        PROVIDER \<Rightarrow> acc_provider a
      | INDEPENDENT_DRIVER \<Rightarrow>
          map_option prof_driver (first_row (\<lambda>p. Some (prof_id p) = acc_profile a) (profiles s)))"

definition pays_for :: "pre_award \<Rightarrow> ledger_entry \<Rightarrow> db \<Rightarrow> bool" where
  "pays_for w e s \<longleftrightarrow>
     is_award e \<and> entry_reference e = Some (pre_dispatch w) \<and>
     (case find_account (entry_account e) s of
        None \<Rightarrow> False
      | Some a \<Rightarrow> acc_ownerType a = pre_actorType w \<and> account_actor a s = Some (pre_actorId w)) \<and>
     map_option (\<lambda>x. - snap_credits x) (find_snapshot (pre_dispatch w) (pre_actorType w) s) = Some (amount e)"

text \<open>An award that has to be paid: of a MONETIZED dispatch, and not one of the historical exemptions.\<close>

definition enforced_award :: "pre_award \<Rightarrow> db \<Rightarrow> bool" where
  "enforced_award w s \<longleftrightarrow>
     map_option creditMode (find_dispatch (Some (pre_dispatch w)) s) = Some MONETIZED \<and>
     \<not> any_row ((=) w) (preAwards s)"

definition assert_dispatch_award_integrity :: "id \<Rightarrow> db \<Rightarrow> raised option" where
  "assert_dispatch_award_integrity target s =
     (if any_row (\<lambda>w. pre_dispatch w = target \<and> enforced_award w s \<and>
           length (filter (\<lambda>e. pays_for w e s) (ledger s)) \<noteq> 1) (operational_awards s)
      then Some RAISED_CREDIT_AWARD_REQUIRED
      else if any_row (\<lambda>e. is_award e \<and> entry_reference e = Some target \<and>
           \<not> any_row (\<lambda>w. pre_dispatch w = target \<and> enforced_award w s \<and> pays_for w e s) (operational_awards s)) (ledger s)
      then Some RAISED_CREDIT_AWARD_ORPHAN
      else None)"

text \<open>The branch of \<open>dispatch_award_integrity\<close> for a row of \<open>Dispatch\<close>: its winner is in the history.\<close>

definition winner_history :: "dispatch \<Rightarrow> db \<Rightarrow> raised option" where
  "winner_history new s =
     (if creditMode new = MONETIZED \<and> d_claimedAt new \<noteq> None \<and>
         \<not> any_row (\<lambda>w. pre_dispatch w = d_id new \<and> (pre_actorType w, Some (pre_actorId w)) = claim_actor new \<and>
             Some (pre_awardedAt w) = d_claimedAt new) (operational_awards s)
      then Some RAISED_CREDIT_AWARD_REQUIRED else None)"

definition dispatch_award_integrity :: "dispatch \<Rightarrow> dispatch \<Rightarrow> db \<Rightarrow> raised option" where
  "dispatch_award_integrity old new s =
     (case winner_history new s of
        Some r \<Rightarrow> Some r
      | None \<Rightarrow>
          (case award_history_guard old new s of
             Some r \<Rightarrow> Some r
           | None \<Rightarrow> assert_dispatch_award_integrity (d_id new) s))"

definition reversed_account :: "dispatch \<Rightarrow> credit_account \<Rightarrow> db \<Rightarrow> bool" where
  "reversed_account old a s \<longleftrightarrow>
     (claimedByProvider old \<noteq> None \<and> acc_provider a = claimedByProvider old) \<or>
     (claimedByIndependent old \<noteq> None \<and> acc_profile a \<noteq> None \<and>
      acc_profile a = map_option prof_id (first_row (\<lambda>p. Some (prof_driver p) = claimedByIndependent old) (profiles s)))"

definition dispatch_award_refund_required :: "dispatch \<Rightarrow> dispatch \<Rightarrow> db \<Rightarrow> raised option" where
  "dispatch_award_refund_required old new s =
     (if d_status old \<noteq> CLAIMED then None
      else if d_status new = DELIVERED then None
      else if d_status new = CLAIMED \<and> claimedByProvider new = claimedByProvider old
         \<and> claimedByIndependent new = claimedByIndependent old
      then None
      else
        (case first_row (\<lambda>a. reversed_account old a s) (accounts s) of
           None \<Rightarrow> None
         | Some a \<Rightarrow>
             (case find_award (d_id old) (acc_id a) s of
                None \<Rightarrow> None
              | Some w \<Rightarrow> if find_refund (entry_id w) s = None then Some RAISED_CREDIT_REFUND_REQUIRED else None)))"

text \<open>
  The COMMIT of a transaction that went from \<open>s\<close> to \<open>t\<close>: the triggers run on the final tables for every
  row written. They are evaluated for all rows, written or not, which asks for more. A handler writes a
  dispatch at most once, so the row an event carries is the one in \<open>t\<close>.
\<close>

definition award_targets :: "db \<Rightarrow> id list" where
  "award_targets t =
     map d_id (dispatches t) @ map cand_dispatch (candidates t) @ map asg_dispatch (assignments t) @
     List.map_filter entry_reference (ledger t)"

definition commit_passes :: "db \<Rightarrow> db \<Rightarrow> bool" where
  "commit_passes s t \<longleftrightarrow>
     list_all (\<lambda>i. assert_dispatch_award_integrity i t = None) (award_targets t) \<and>
     list_all (\<lambda>new. winner_history new t = None) (dispatches t) \<and>
     list_all (\<lambda>old. list_all (\<lambda>new. d_id new = d_id old \<longrightarrow>
       dispatch_award_integrity old new t = None \<and> dispatch_award_refund_required old new t = None)
       (dispatches t)) (dispatches s)"

subsection \<open>The invariant\<close>

text \<open>The keys of \<open>IndependentDriverProfile\<close>: its id, and its unique driver.\<close>

definition profile_keys_ok :: "db \<Rightarrow> bool" where
  "profile_keys_ok s \<longleftrightarrow> distinct (map prof_id (profiles s)) \<and> distinct (map prof_driver (profiles s))"

definition awards_ok :: "db \<Rightarrow> bool" where
  "awards_ok s \<longleftrightarrow>
     list_all (\<lambda>w. find_dispatch (Some (pre_dispatch w)) s \<noteq> None \<and>
       (enforced_award w s \<longrightarrow> list_ex (\<lambda>e. pays_for w e s) (ledger s))) (operational_awards s) \<and>
     list_all (\<lambda>e. is_award e \<longrightarrow>
       list_ex (\<lambda>w. enforced_award w s \<and> pays_for w e s) (operational_awards s)) (ledger s) \<and>
     list_all (\<lambda>d. winner_history d s = None) (dispatches s)"

lemma awards_okD:
  assumes "awards_ok s"
  shows "w \<in> set (operational_awards s) \<Longrightarrow> find_dispatch (Some (pre_dispatch w)) s \<noteq> None"
    "w \<in> set (operational_awards s) \<Longrightarrow> enforced_award w s \<Longrightarrow> \<exists>e \<in> set (ledger s). pays_for w e s"
    "e \<in> set (ledger s) \<Longrightarrow> is_award e \<Longrightarrow> \<exists>w \<in> set (operational_awards s). enforced_award w s \<and> pays_for w e s"
    "d \<in> set (dispatches s) \<Longrightarrow> winner_history d s = None"
  using assms by (auto simp: awards_ok_def list_all_iff list_ex_iff)

text \<open>The invariant is what the checks ask for: one debit, because the keys of the ledger and the
  accounts leave no room for a second one.\<close>

lemma profile_unique:
  assumes "profile_keys_ok s" "p \<in> set (profiles s)" "q \<in> set (profiles s)"
  shows "prof_driver p = prof_driver q \<Longrightarrow> p = q" "prof_id p = prof_id q \<Longrightarrow> p = q"
  using assms unique_key [of prof_driver "profiles s" p q] unique_key [of prof_id "profiles s" p q]
  by (auto simp: profile_keys_ok_def)

lemma same_actor_account:
  assumes wf: "accounts_wf s" "profile_keys_ok s" and a: "a \<in> set (accounts s)" and b: "b \<in> set (accounts s)"
    and "acc_ownerType a = acc_ownerType b" "account_actor a s = Some i" "account_actor b s = Some i"
  shows "a = b"
proof (cases "acc_ownerType b")
  case PROVIDER
  then show ?thesis
    using unique_onD [of "\<lambda>a. acc_provider a \<noteq> None" acc_provider "accounts s" a b] assms
    by (simp add: accounts_wf_def account_actor_def)
next
  case INDEPENDENT_DRIVER
  with assms obtain p q where p: "first_row (\<lambda>p. Some (prof_id p) = acc_profile a) (profiles s) = Some p" "prof_driver p = i"
    and q: "first_row (\<lambda>p. Some (prof_id p) = acc_profile b) (profiles s) = Some q" "prof_driver q = i"
    by (auto simp: account_actor_def)
  then have "p = q" using first_row_Some [OF p(1)] first_row_Some [OF q(1)] by (intro profile_unique(1) [OF wf(2)]) simp_all
  then have "acc_profile a = acc_profile b" "acc_profile a \<noteq> None"
    using conjunct2 [OF first_row_Some [OF p(1)]] conjunct2 [OF first_row_Some [OF q(1)]] by (metis option.distinct(1))+
  then show ?thesis
    using unique_onD [of "\<lambda>a. acc_profile a \<noteq> None" acc_profile "accounts s" a b] wf(1) a b by (simp add: accounts_wf_def)
qed

lemma one_debit:
  assumes wf: "ledger_wf s" "accounts_wf s" "profile_keys_ok s" and e: "e \<in> set (ledger s)" "pays_for w e s"
  shows "length (filter (\<lambda>e. pays_for w e s) (ledger s)) = 1"
proof -
  have only: "x = e" if x: "x \<in> set (ledger s)" "pays_for w x s" for x
  proof -
    from e(2) x(2) obtain a b where a: "find_account (entry_account e) s = Some a" "acc_ownerType a = pre_actorType w"
        "account_actor a s = Some (pre_actorId w)"
      and b: "find_account (entry_account x) s = Some b" "acc_ownerType b = pre_actorType w"
        "account_actor b s = Some (pre_actorId w)"
      by (auto simp: pays_for_def split: option.splits)
    have "a = b"
      using find_account_Some [OF a(1)] find_account_Some [OF b(1)] a b
      by (intro same_actor_account [OF wf(2,3)]) simp_all
    with find_account_Some [OF a(1)] find_account_Some [OF b(1)] have "entry_account e = entry_account x" by simp
    moreover have "is_award e" "is_award x" "entry_reference x = entry_reference e"
      using e(2) x(2) by (simp_all add: pays_for_def)
    moreover have "unique_on is_award award_key (ledger s)" using wf(1) by (simp add: ledger_wf_def)
    ultimately show ?thesis using e(1) x(1) unique_onD [of is_award award_key "ledger s" x e] by (simp add: award_key_def)
  qed
  have "distinct (ledger s)" using wf(1) by (auto simp: ledger_wf_def distinct_map)
  then have "distinct (filter (\<lambda>e. pays_for w e s) (ledger s))" by (rule distinct_filter)
  moreover have "set (filter (\<lambda>e. pays_for w e s) (ledger s)) = {e}"
    unfolding set_filter using e only by blast
  ultimately show ?thesis using distinct_card [of "filter (\<lambda>e. pays_for w e s) (ledger s)"] by simp
qed

lemma awards_ok_assert:
  assumes "ledger_wf s" "accounts_wf s" "profile_keys_ok s" "awards_ok s"
  shows "assert_dispatch_award_integrity i s = None"
proof -
  have "\<not> any_row (\<lambda>w. pre_dispatch w = i \<and> enforced_award w s \<and>
      length (filter (\<lambda>e. pays_for w e s) (ledger s)) \<noteq> 1) (operational_awards s)"
    using awards_okD(2) [OF assms(4)] one_debit [OF assms(1-3)] by (auto simp: any_row_iff)
  moreover have "\<not> any_row (\<lambda>e. is_award e \<and> entry_reference e = Some i \<and>
      \<not> any_row (\<lambda>w. pre_dispatch w = i \<and> enforced_award w s \<and> pays_for w e s) (operational_awards s)) (ledger s)"
    using awards_okD(3) [OF assms(4)] by (fastforce simp: any_row_iff pays_for_def)
  ultimately show ?thesis unfolding assert_dispatch_award_integrity_def by simp
qed

text \<open>The refund that a reversal owes is a consequence of the economy of the ledger.\<close>

lemma reversed_holder:
  assumes wf: "accounts_wf t" "profile_keys_ok t" and chk: "dispatch_check old" "dispatch_check new"
    and st: "d_status old = CLAIMED" "d_status new = CLAIMED"
    and a: "a \<in> set (accounts t)" "reversed_account old a t" "holder_account new t = Some a"
  shows "claimedByProvider new = claimedByProvider old \<and> claimedByIndependent new = claimedByIndependent old"
proof -
  from chk st have one: "one_claim old" "one_claim new" by (auto simp: dispatch_check_def)
  have own: "acc_provider a = None \<or> acc_profile a = None"
    using wf(1) a(1) by (auto simp: accounts_wf_def list_all_iff owner_check_def)
  from a(3) obtain w where w: "holder new t = Some w" "owner_account w t = Some a"
    by (auto simp: holder_account_def bind_eq_Some_conv)
  then have mine: "owns_account w a" by (auto simp: owner_account_def dest: first_row_Some)
  show ?thesis
  proof (cases "claimedByProvider new")
    case (Some p)
    with w mine have "acc_provider a = Some p" by (auto simp: holder_def cancelledDispatchOwner_def)
    with a(2) own Some one show ?thesis by (auto simp: reversed_account_def one_claim_def)
  next
    case None
    with w one(2) obtain i p where i: "claimedByIndependent new = Some i"
        "first_row (\<lambda>p. prof_driver p = i) (profiles t) = Some p" "w = IndependentOwner (prof_id p)"
      by (auto simp: holder_def cancelledDispatchOwner_def split: option.splits)
    with mine have acc: "acc_profile a = Some (prof_id p)" by simp
    with a(2) own obtain j where j0: "claimedByIndependent old = Some j"
        "acc_profile a = map_option prof_id (first_row (\<lambda>p. prof_driver p = j) (profiles t))"
      by (auto simp: reversed_account_def)
    with acc have "map_option prof_id (first_row (\<lambda>p. prof_driver p = j) (profiles t)) = Some (prof_id p)" by metis
    with j0(1) obtain q where j: "claimedByIndependent old = Some j"
        "first_row (\<lambda>p. prof_driver p = j) (profiles t) = Some q" "prof_id q = prof_id p" by auto
    have "q = p" using first_row_Some [OF j(2)] first_row_Some [OF i(2)] j(3) by (intro profile_unique(2) [OF wf(2)]) simp_all
    then have "i = j" using first_row_Some [OF j(2)] first_row_Some [OF i(2)] by simp
    with i j None one show ?thesis by (auto simp: one_claim_def)
  qed
qed

lemma refund_is_there:
  assumes wf: "ledger_wf t" "accounts_wf t" "profile_keys_ok t" and eco: "economy t"
    and new: "new \<in> set (dispatches t)" "dispatch_check new" and old: "d_id old = d_id new" "dispatch_check old"
  shows "dispatch_award_refund_required old new t = None"
proof (cases "d_status old \<noteq> CLAIMED \<or> d_status new = DELIVERED \<or> (d_status new = CLAIMED \<and>
    claimedByProvider new = claimedByProvider old \<and> claimedByIndependent new = claimedByIndependent old)")
  case True
  then show ?thesis by (auto simp: dispatch_award_refund_required_def)
next
  case reversal: False
  have no: False
    if a: "first_row (\<lambda>a. reversed_account old a t) (accounts t) = Some a" and w: "find_award (d_id old) (acc_id a) t = Some w"
      "find_refund (entry_id w) t = None"
    for a w
  proof -
    note a' = first_row_Some [OF a] and w' = find_award_Some [OF w(1)]
    have "\<not> owes new (acc_id a) t"
    proof
      assume o: "owes new (acc_id a) t"
      then obtain b where b: "holder_account new t = Some b" "acc_id b = acc_id a" by (auto simp: owes_def)
      from b(1) have "b \<in> set (accounts t)" by (auto simp: holder_account_def owner_account_def bind_eq_Some_conv dest: first_row_Some)
      with b(2) a' unique_key [of acc_id "accounts t" b a] wf(1) have "b = a" by (simp add: ledger_wf_def)
      with b(1) o reversal reversed_holder [OF wf(2,3) old(2) new(2), of a] a' show False by (auto simp: owes_def)
    qed
    with economyD [OF eco new(1), of a] a' have "service_sum (acc_id a) (d_id new) (ledger t) = 0" by simp
    with service_sum_award [OF wf(1), of w "acc_id a" "d_id new"] w' old(1) award_amount [OF wf(1), of w]
    have "refunded (ledger t) w" by (auto simp: service_entry_def split: if_splits)
    with w(2) show False by (auto simp: refunded_def list_ex_iff find_refund_None)
  qed
  show ?thesis
    unfolding dispatch_award_refund_required_def by (auto split: option.splits dest: no)
qed

text \<open>A new claim that meets no exemption.\<close>

definition claims_unexempted :: "db \<Rightarrow> db \<Rightarrow> bool" where
  "claims_unexempted s t \<longleftrightarrow>
     (\<forall>old \<in> set (dispatches s). \<forall>new \<in> set (dispatches t). d_id new = d_id old \<longrightarrow> award_history_guard old new t = None)"

lemma commit_passesI:
  assumes "system_ok s" and ok: "system_ok t" "profile_keys_ok t" "awards_ok t" and "claims_unexempted s t"
  shows "commit_passes s t"
proof -
  note k = system_okD [OF ok(1)]
  have chk: "dispatch_check d" if "d \<in> set (dispatches s) \<or> d \<in> set (dispatches t)" for d
    using that system_okD(3) [OF assms(1)] k(3) by (auto simp: claims_ok_def list_all_iff)
  have i: "assert_dispatch_award_integrity i t = None" for i by (rule awards_ok_assert [OF k(1,2) ok(2,3)])
  have "dispatch_award_integrity old new t = None \<and> dispatch_award_refund_required old new t = None"
    if "old \<in> set (dispatches s)" "new \<in> set (dispatches t)" "d_id new = d_id old" for old new
  proof
    have "award_history_guard old new t = None" using that assms(5) unfolding claims_unexempted_def by blast
    with awards_okD(4) [OF ok(3) that(2)] i show "dispatch_award_integrity old new t = None"
      by (simp add: dispatch_award_integrity_def)
    show "dispatch_award_refund_required old new t = None"
      using that chk by (intro refund_is_there [OF k(1,2) ok(2) k(5)]) simp_all
  qed
  then show ?thesis
    using i awards_okD(4) [OF ok(3)] by (simp add: commit_passes_def list_all_iff)
qed

subsection \<open>Who an account belongs to stays the same\<close>

lemma first_row_keys:
  "map f xs = map f ys \<Longrightarrow>
     map_option f (first_row (\<lambda>x. P (f x)) xs) = map_option f (first_row (\<lambda>x. P (f x)) ys)"
proof (induction xs arbitrary: ys)
  case Nil
  then show ?case by simp
next
  case (Cons x xs)
  then obtain y zs where ys: "ys = y # zs" "f x = f y" "map f xs = map f zs" by auto
  from Cons.IH [OF this(3)] ys show ?case by (cases "P (f y)") (simp_all add: first_row_def)
qed

definition acc_key :: "credit_account \<Rightarrow> id \<times> actor_type \<times> id option \<times> id option" where
  "acc_key a = (acc_id a, acc_ownerType a, acc_provider a, acc_profile a)"

definition same_parties :: "db \<Rightarrow> db \<Rightarrow> bool" where
  "same_parties s t \<longleftrightarrow>
     map acc_key (accounts t) = map acc_key (accounts s) \<and>
     map profile_key (profiles t) = map profile_key (profiles s) \<and> preAwards t = preAwards s"

lemma same_parties_refl: "same_parties s s"
  by (simp add: same_parties_def)

lemma same_parties_trans: "same_parties s t \<Longrightarrow> same_parties t u \<Longrightarrow> same_parties s u"
  by (simp add: same_parties_def)

lemma same_parties_frame:
  "accounts t = accounts s \<Longrightarrow> profiles t = profiles s \<Longrightarrow> preAwards t = preAwards s \<Longrightarrow> same_parties s t"
  by (simp add: same_parties_def)

lemma insert_entry_same_parties: "insert_entry e0 s = Inr (e, s') \<Longrightarrow> same_parties s s'"
  by (auto simp: insert_entry_Inr same_parties_def acc_key_def intro!: map_update_rows)

lemma profile_keys_ok_keys: "map profile_key (profiles t) = map profile_key (profiles s) \<Longrightarrow> profile_keys_ok t = profile_keys_ok s"
proof -
  assume k: "map profile_key (profiles t) = map profile_key (profiles s)"
  then have "map fst (map profile_key (profiles t)) = map fst (map profile_key (profiles s))"
    "map snd (map profile_key (profiles t)) = map snd (map profile_key (profiles s))" by simp_all
  then have "map prof_id (profiles t) = map prof_id (profiles s)" "map prof_driver (profiles t) = map prof_driver (profiles s)"
    by (simp_all add: profile_key_def comp_def)
  then show ?thesis by (simp add: profile_keys_ok_def)
qed

lemma find_account_keys:
  "same_parties s t \<Longrightarrow> map_option acc_key (find_account i t) = map_option acc_key (find_account i s)"
  using first_row_keys [of acc_key "accounts t" "accounts s" "\<lambda>k. fst k = i"]
  by (simp add: same_parties_def find_account_def acc_key_def)

lemma account_actor_keys:
  assumes "same_parties s t" "acc_key a = acc_key b"
  shows "account_actor a t = account_actor b s"
proof -
  have "map_option prof_driver (first_row (\<lambda>p. Some (prof_id p) = x) ps) =
      map_option snd (map_option profile_key (first_row (\<lambda>p. Some (fst (profile_key p)) = x) ps))" for x ps
    by (simp add: option.map_comp comp_def profile_key_def)
  with first_row_keys [of profile_key "profiles t" "profiles s" "\<lambda>k. Some (fst k) = acc_profile b"] assms
  show ?thesis by (simp add: account_actor_def same_parties_def acc_key_def cong: actor_type.case_cong)
qed

lemma pays_for_kept:
  assumes sp: "same_parties s t" and p: "pays_for w e s"
    and x: "\<And>x. find_snapshot (pre_dispatch w) (pre_actorType w) s = Some x \<Longrightarrow> find_snapshot (pre_dispatch w) (pre_actorType w) t = Some x"
  shows "pays_for w e t"
proof -
  from p obtain a y where a: "find_account (entry_account e) s = Some a" "acc_ownerType a = pre_actorType w"
      "account_actor a s = Some (pre_actorId w)"
    and y: "find_snapshot (pre_dispatch w) (pre_actorType w) s = Some y" "amount e = - snap_credits y"
    by (auto simp: pays_for_def split: option.splits)
  obtain b where b: "find_account (entry_account e) t = Some b" "acc_key b = acc_key a"
    using find_account_keys [OF sp, of "entry_account e"] a(1) by auto
  then have "acc_ownerType b = acc_ownerType a" by (simp add: acc_key_def)
  with p a y x [OF y(1)] b account_actor_keys [OF sp b(2)] show ?thesis by (simp add: pays_for_def)
qed

subsection \<open>Keeping the awards and their debits\<close>

lemma awards_kept:
  assumes ok: "awards_ok s" and sp: "same_parties s t" and led: "set (ledger s) \<subseteq> set (ledger t)"
    and disp: "\<And>i r. find_dispatch (Some i) s = Some r \<Longrightarrow> \<exists>r'. find_dispatch (Some i) t = Some r' \<and> creditMode r' = creditMode r"
    and snaps: "\<And>i a x. find_snapshot i a s = Some x \<Longrightarrow> find_snapshot i a t = Some x"
    and ops: "set (operational_awards s) \<subseteq> set (operational_awards t)"
    and new_ops: "\<And>w. w \<in> set (operational_awards t) \<Longrightarrow> w \<notin> set (operational_awards s) \<Longrightarrow>
      find_dispatch (Some (pre_dispatch w)) t \<noteq> None \<and> (enforced_award w t \<longrightarrow> (\<exists>e \<in> set (ledger t). pays_for w e t))"
    and new_led: "\<And>e. e \<in> set (ledger t) \<Longrightarrow> e \<notin> set (ledger s) \<Longrightarrow> is_award e \<Longrightarrow>
      \<exists>w \<in> set (operational_awards t). enforced_award w t \<and> pays_for w e t"
    and rows: "\<And>d. d \<in> set (dispatches t) \<Longrightarrow> winner_history d t = None"
  shows "awards_ok t"
proof -
  note old = awards_okD [OF ok]
  have pays: "pays_for w e t" if "pays_for w e s" for w e
    by (rule pays_for_kept [OF sp that]) (rule snaps)
  have enf: "enforced_award w t = enforced_award w s" if "w \<in> set (operational_awards s)" for w
    using disp old(1) [OF that] sp by (fastforce simp: enforced_award_def same_parties_def)
  have "find_dispatch (Some (pre_dispatch w)) t \<noteq> None \<and> (enforced_award w t \<longrightarrow> (\<exists>e \<in> set (ledger t). pays_for w e t))"
    if w: "w \<in> set (operational_awards t)" for w
  proof (cases "w \<in> set (operational_awards s)")
    case True
    have "find_dispatch (Some (pre_dispatch w)) t \<noteq> None" using disp old(1) [OF True] by fastforce
    moreover have "\<exists>e \<in> set (ledger t). pays_for w e t" if "enforced_award w t"
      using old(2) [OF True] that enf [OF True] pays led by blast
    ultimately show ?thesis by blast
  qed (use new_ops [OF w] in blast)
  moreover have "\<exists>w \<in> set (operational_awards t). enforced_award w t \<and> pays_for w e t"
    if e: "e \<in> set (ledger t)" "is_award e" for e
  proof (cases "e \<in> set (ledger s)")
    case True
    from old(3) [OF True e(2)] obtain w where "w \<in> set (operational_awards s)" "enforced_award w s" "pays_for w e s" by blast
    with enf pays ops show ?thesis by blast
  qed (use new_led [OF e(1) _ e(2)] in blast)
  ultimately show ?thesis using rows unfolding awards_ok_def list_all_iff list_ex_iff by blast
qed

lemma winner_history_kept:
  assumes "winner_history d0 s = None" "set (operational_awards s) \<subseteq> set (operational_awards t)"
    and "d_id d = d_id d0" "creditMode d = creditMode d0" "claim_of d = claim_of d0"
  shows "winner_history d t = None"
proof -
  have "claim_actor d = claim_actor d0" "d_claimedAt d = d_claimedAt d0"
    using assms(5) by (simp_all add: claim_of_def claim_actor_def cong: option.case_cong)
  with assms(1-4) show ?thesis by (auto simp: winner_history_def any_row_iff split: if_splits)
qed

lemma award_history_guard_kept:
  "d_claimedAt new = None \<or> claim_of new = claim_of old \<Longrightarrow> award_history_guard old new t = None"
  by (auto simp: award_history_guard_def)

text \<open>The charge of an award writes the debit that pays for it.\<close>

lemma charge_pays:
  assumes ch: "chargeDispatchAward d MONETIZED owner actor s = Inr (out, s')" and wf: "ledger_wf s"
    and own: "\<And>a. owner_account owner s = Some a \<Longrightarrow>
      acc_ownerType a = pre_actorType w \<and> account_actor a s = Some (pre_actorId w)"
    and w: "pre_dispatch w = d" "pre_actorType w = owner_actorType owner"
  obtains e where "ledger s' = ledger s @ [e]" "pays_for w e s'"
proof -
  from ch obtain x a e where
    x: "find_snapshot d (owner_actorType owner) s = Some x" and a: "owner_account owner s = Some a"
    and ins: "insert_entry (service_movement SERVICE_AWARD (acc_id a) (- snap_credits x) (balance a)
       (balance a - snap_credits x) d None None (Some actor)) s = Inr (e, s')"
    by (blast elim: charge_Inr)
  note f = insert_entry_frame [OF ins] and sp = insert_entry_same_parties [OF ins]
  have e: "is_award e" "entry_reference e = Some d" "entry_account e = acc_id a" "amount e = - snap_credits x"
    using ins by (auto simp: insert_entry_Inr)
  have "a \<in> set (accounts s)" using a by (auto simp: owner_account_def dest: first_row_Some)
  with find_account_keys [OF sp, of "acc_id a"] find_account_in [OF wf]
  obtain b where b: "find_account (acc_id a) s' = Some b" "acc_key b = acc_key a" by auto
  then have "acc_ownerType b = acc_ownerType a" by (simp add: acc_key_def)
  with own [OF a] b w e x account_actor_keys [OF sp b(2)] f(12) [of d "owner_actorType owner"]
  have "pays_for w e s'" by (simp add: pays_for_def)
  with f(10) that show ?thesis by blast
qed

text \<open>An award: one row gets its winner, the history gets the award, and the ledger its debit.\<close>

lemma awarded:
  assumes ok: "system_ok s" "awards_ok s"
    and ds: "dispatches s2 = update_rows (\<lambda>d. d_id d = d_id new) (\<lambda>_. new) (dispatches s)"
    and old: "old \<in> set (dispatches s)" "d_id old = d_id new" "creditMode new = creditMode old"
    and s2: "same_parties s s2" "ledger s2 = ledger s" "snapshots s2 = snapshots s" "ledger_wf s2"
    and hist: "creditMode new = MONETIZED \<Longrightarrow> \<not> exempt (preAwards s) new"
    and w: "pre_dispatch w = d_id new" "(pre_actorType w, Some (pre_actorId w)) = claim_actor new"
      "Some (pre_awardedAt w) = d_claimedAt new" "pre_actorType w = owner_actorType owner"
    and ops: "set (operational_awards s2) = insert w (set (operational_awards s))"
    and own: "\<And>a. owner_account owner s2 = Some a \<Longrightarrow>
      acc_ownerType a = pre_actorType w \<and> account_actor a s2 = Some (pre_actorId w)"
    and ch: "chargeDispatchAward (d_id new) (creditMode new) owner actor s2 = Inr (out, s')"
  shows "awards_ok s'" "claims_unexempted s s'"
proof -
  have frame: "dispatches s' = dispatches s2" "operational_awards s' = operational_awards s2" "snapshots s' = snapshots s2"
    using charge_frame [OF ch] by (simp_all add: operational_awards_def)
  have keys: "distinct (map d_id (dispatches s))" by (rule system_okD(7) [OF ok(1)])
  have row: "d = new \<or> d \<in> set (dispatches s) \<and> d_id d \<noteq> d_id new" if "d \<in> set (dispatches s')" for d
    using that by (auto simp: frame ds in_update_rows split: if_splits)
  have new: "find_dispatch (Some (d_id new)) s' = Some new"
  proof -
    have "new \<in> set (dispatches s')" using old by (auto simp: frame ds in_update_rows intro: bexI [of _ old])
    moreover have "distinct (map d_id (dispatches s'))"
      using keys map_update_rows [of "dispatches s" "\<lambda>d. d_id d = d_id new" d_id "\<lambda>_. new"] by (simp add: frame ds)
    ultimately show ?thesis by (rule find_dispatch_in [rotated])
  qed
  have disp: "\<exists>r'. find_dispatch (Some i) s' = Some r' \<and> creditMode r' = creditMode r"
    if "find_dispatch (Some i) s = Some r" for i r
  proof (cases "i = d_id new")
    case True
    with find_dispatch_Some [OF that] unique_key [OF keys _ old(1), of r] old new show ?thesis by simp
  next
    case False
    then have "find_dispatch (Some i) s' = find_dispatch (Some i) s"
      unfolding find_dispatch_def frame ds by (intro first_row_update_other) auto
    with that show ?thesis by simp
  qed
  have paid: "(\<exists>e. creditMode new = MONETIZED \<and> ledger s' = ledger s2 @ [e] \<and> pays_for w e s' \<and> enforced_award w s' \<and> same_parties s2 s')
      \<or> creditMode new = LEGACY \<and> s' = s2"
  proof (cases "creditMode new")
    case LEGACY
    with ch show ?thesis by (simp add: charge_legacy)
  next
    case MONETIZED
    with ch have ch': "chargeDispatchAward (d_id new) MONETIZED owner actor s2 = Inr (out, s')" by simp
    obtain e where e: "ledger s' = ledger s2 @ [e]" "pays_for w e s'"
      by (rule charge_pays [OF ch' s2(4) own w(1,4)])
    from ch' have sp: "same_parties s2 s'" by (blast elim: charge_Inr intro: insert_entry_same_parties)
    have "\<not> any_row ((=) w) (preAwards s)"
      using hist [OF MONETIZED] w(1-3) by (auto simp: exempt_def list_ex_iff any_row_iff)
    then have "enforced_award w s'"
      using sp s2(1) new w(1) MONETIZED by (simp add: enforced_award_def same_parties_def)
    with e sp MONETIZED show ?thesis by blast
  qed
  then have sp: "same_parties s s'" using same_parties_trans [OF s2(1)] s2(1) by blast
  have led: "set (ledger s) \<subseteq> set (ledger s')" using paid s2(2) by auto
  show "awards_ok s'"
  proof (rule awards_kept [OF ok(2) sp led disp])
    show "find_snapshot i a s' = Some x" if "find_snapshot i a s = Some x" for i a x
      using that s2(3) by (simp add: find_snapshot_def frame)
    show "set (operational_awards s) \<subseteq> set (operational_awards s')" using ops by (auto simp: frame)
    show "find_dispatch (Some (pre_dispatch v)) s' \<noteq> None \<and> (enforced_award v s' \<longrightarrow> (\<exists>e \<in> set (ledger s'). pays_for v e s'))"
      if "v \<in> set (operational_awards s')" "v \<notin> set (operational_awards s)" for v
    proof -
      from that have "v = w" using ops by (simp add: frame)
      moreover have "\<not> enforced_award w s'" if "creditMode new = LEGACY"
        using that new w(1) by (simp add: enforced_award_def)
      ultimately show ?thesis using paid new w(1) by auto
    qed
    show "\<exists>v \<in> set (operational_awards s'). enforced_award v s' \<and> pays_for v e s'"
      if "e \<in> set (ledger s')" "e \<notin> set (ledger s)" "is_award e" for e
      using that paid s2(2) ops by (auto simp: frame)
    show "winner_history d s' = None" if "d \<in> set (dispatches s')" for d
    proof (cases "d = new")
      case True
      have "w \<in> set (operational_awards s')" using ops by (simp add: frame)
      with w(1-3) True show ?thesis by (auto simp: winner_history_def any_row_iff)
    next
      case False
      with row [OF that] have "d \<in> set (dispatches s)" by blast
      then show ?thesis using awards_okD(4) [OF ok(2)] ops by (intro winner_history_kept [of d s s' d]) (auto simp: frame)
    qed
  qed
  show "claims_unexempted s s'"
    unfolding claims_unexempted_def
  proof (intro ballI impI)
    fix a b
    assume a: "a \<in> set (dispatches s)" and b: "b \<in> set (dispatches s')" and id: "d_id b = d_id a"
    show "award_history_guard a b s' = None"
    proof (cases "b = new")
      case True
      with hist sp show ?thesis by (auto simp: award_history_guard_def same_parties_def)
    next
      case False
      with row [OF b] unique_key [OF keys a, of b] id have "b = a" by auto
      then show ?thesis by (simp add: award_history_guard_kept)
    qed
  qed
qed

subsection \<open>A claim\<close>

text \<open>The awards a change of one candidate leaves: the same ones, or one more when it is claimed.\<close>

definition candidate_awards :: "candidate list \<Rightarrow> pre_award set" where
  "candidate_awards cs = {w. \<exists>c \<in> set cs. \<exists>t. cand_claimedAt c = Some t \<and> w = candidate_award c t}"

lemma set_operational_awards:
  "set (operational_awards s) =
     candidate_awards (candidates s) \<union> assignment_award ` {x \<in> set (assignments s). asg_mode x = INDEPENDENT}"
proof -
  have "set (List.map_filter (\<lambda>c. map_option (candidate_award c) (cand_claimedAt c)) cs) = candidate_awards cs" for cs
    by (induction cs) (auto simp: candidate_awards_def List.map_filter_def split: option.splits)
  then show ?thesis by (auto simp: operational_awards_def)
qed

lemma candidate_awards_update:
  assumes keys: "distinct (map cand_key cs)" and old: "old \<in> set cs" "cand_key old = (d, p)" and new: "cand_key c' = (d, p)"
    and at: "cand_claimedAt old = None \<or> cand_claimedAt c' = cand_claimedAt old"
  shows "candidate_awards (update_rows (is_candidate d p) (\<lambda>_. c') cs) =
    candidate_awards cs \<union> {w. \<exists>t. cand_claimedAt c' = Some t \<and> w = candidate_award c' t}"
proof -
  have same: "is_candidate d p c \<longleftrightarrow> c = old" if "c \<in> set cs" for c
    using unique_key [OF keys that old(1)] old(2) by (auto simp: cand_key_def)
  have rows: "set (update_rows (is_candidate d p) (\<lambda>_. c') cs) = insert c' (set cs - {old})"
  proof -
    have "set (update_rows (is_candidate d p) (\<lambda>_. c') cs) = (\<lambda>c. if c = old then c' else c) ` set cs"
      unfolding set_update_rows by (rule image_cong [OF refl]) (simp add: same)
    with old(1) show ?thesis by auto
  qed
  have award: "candidate_award c' t = candidate_award old t" for t
    using old(2) new by (simp add: candidate_award_def cand_key_def)
  have split: "candidate_awards cs = {w. \<exists>c \<in> set cs - {old}. \<exists>t. cand_claimedAt c = Some t \<and> w = candidate_award c t}
      \<union> {w. \<exists>t. cand_claimedAt old = Some t \<and> w = candidate_award old t}"
    using old(1) unfolding candidate_awards_def by blast
  from at show ?thesis
  proof
    assume "cand_claimedAt old = None"
    then show ?thesis unfolding split unfolding candidate_awards_def rows by auto
  next
    assume "cand_claimedAt c' = cand_claimedAt old"
    then show ?thesis unfolding split award unfolding candidate_awards_def rows by (auto simp: award)
  qed
qed

lemma claim_award_awards:
  assumes cl: "claim_award now sqlNow row q p actor s = Inr (out, s')" and ok: "system_ok s" "awards_ok s"
    and row: "find_dispatch (Some d) s = Some row" "d_status row = OPEN"
  shows "awards_ok s'" "claims_unexempted s s'" "profiles s' = profiles s"
proof -
  note k = system_okD [OF ok(1)]
  note r = find_dispatch_Some [OF row(1)]
  from cl obtain s1 s2 award where
    u: "update_candidate d p (\<lambda>c. c\<lparr>cand_status := CAND_CLAIMED, cand_claimedAt := Some now\<rparr>) s = Inr ((), s1)"
    and w: "update_dispatch sqlNow d
       (\<lambda>r. r\<lparr>d_status := CLAIMED, claimedByProvider := Some p, d_claimedAt := Some now\<rparr>) s1 = Inr ((), s2)"
    and ch: "chargeDispatchAward d (creditMode row) (ProviderOwner p) actor s2 = Inr (award, s')"
    using r by (auto simp: claim_award_def tx_simps)
  from u obtain oc where oc: "find_candidate d p s = Some oc"
    and ck: "cand_key (oc\<lparr>cand_status := CAND_CLAIMED, cand_claimedAt := Some now\<rparr>) = (d, p)"
    and cg: "candidate_guard oc (oc\<lparr>cand_status := CAND_CLAIMED, cand_claimedAt := Some now\<rparr>) = None"
    and s1: "s1 = s\<lparr>candidates := update_rows (is_candidate d p)
        (\<lambda>_. oc\<lparr>cand_status := CAND_CLAIMED, cand_claimedAt := Some now\<rparr>) (candidates s)\<rparr>"
    by (rule update_candidate_Inr)
  from w obtain old new rs where f: "find_dispatch (Some d) s1 = Some old"
    and c: "core new = core (old\<lparr>d_status := CLAIMED, claimedByProvider := Some p, d_claimedAt := Some now\<rparr>)"
    and hist: "award_history_guard old new s2 = None"
    and s2: "s2 = s1\<lparr>dispatches := update_rows (\<lambda>d. d_id d = d_id new) (\<lambda>_. new) (dispatches s1), rounds := rs\<rparr>"
    by (rule update_dispatch_Inr)
  from f row(1) have [simp]: "old = row" by (simp add: s1 find_dispatch_def)
  note new = coreD [OF c, simplified]
  have chk: "dispatch_check row" "claim_matches (candidates s) row" using k(3) r by (auto simp: claims_ok_def list_all_iff)
  with row(2) have free: "claimedByProvider row = None" "d_claimedAt row = None" by (auto simp: dispatch_check_def no_claim_def)
  note oc' = find_candidate_Some [OF oc]
  have "cand_status oc \<noteq> CAND_CLAIMED" using claim_matches_claimed [OF chk(2), of oc] oc' r free by simp
  then have "cand_status oc = CAND_OFFERED" using cg by (auto simp: candidate_guard_def split: if_splits)
  moreover have "candidate_check oc" using k(3) oc' by (auto simp: claims_ok_def list_all_iff)
  ultimately have unclaimed: "cand_claimedAt oc = None" by (simp add: candidate_check_def)
  let ?w = "\<lparr>pre_dispatch = d, pre_actorType = PROVIDER, pre_actorId = p, pre_awardedAt = now\<rparr>"
  have keys: "distinct (map cand_key (candidates s))" using k(3) by (simp add: claims_ok_def)
  have ops: "set (operational_awards s2) = insert ?w (set (operational_awards s))"
    using candidate_awards_update [OF keys _ _ ck, of oc] oc' unclaimed
    by (auto simp: set_operational_awards s2 s1 cand_key_def candidate_award_def)
  have wf2: "ledger_wf s2" "accounts_wf s2"
    using k by (auto simp: s2 s1 accounts_wf_def intro!: ledger_wf_cong [OF _ _ _ _ k(1)])
  have own: "acc_ownerType a = PROVIDER \<and> account_actor a s2 = Some p" if "owner_account (ProviderOwner p) s2 = Some a" for a
    using owner_account_Some [OF that wf2(2)] by (simp add: account_actor_def)
  have hist': "\<not> exempt (preAwards s) new" if "creditMode new = MONETIZED"
    using hist that new free by (auto simp: award_history_guard_def claim_of_def s2 s1 split: if_splits)
  have id: "d_id new = d" "creditMode new = creditMode row" using new r by auto
  have act: "claim_actor new = (PROVIDER, Some p)" "d_claimedAt new = Some now" using new by (simp_all add: claim_actor_def)
  have ch': "chargeDispatchAward (d_id new) (creditMode new) (ProviderOwner p) actor s2 = Inr (award, s')" using ch id by simp
  have ds: "dispatches s2 = update_rows (\<lambda>d. d_id d = d_id new) (\<lambda>_. new) (dispatches s)" by (simp add: s2 s1)
  have sp: "same_parties s s2" by (rule same_parties_frame) (simp_all add: s2 s1)
  note settled = awarded [OF ok ds _ _ _ sp _ _ wf2(1) hist', of row ?w "ProviderOwner p", OF _ _ _ _ _ _ _ _ _ _ ops _ ch']
  show "awards_ok s'" by (rule settled(1)) (use r id act own in \<open>simp_all add: s2 s1\<close>)
  show "claims_unexempted s s'" by (rule settled(2)) (use r id act own in \<open>simp_all add: s2 s1\<close>)
  show "profiles s' = profiles s" by (simp add: charge_frame [OF ch] s2 s1)
qed

text \<open>The COMMIT of a claim that went through.\<close>

lemma claim_commits:
  assumes cl: "claim_tx appNow dbNow sqlNow d p actor s = Inr (ClaimDone award, s')"
    and ok: "system_ok s" "awards_ok s" "profile_keys_ok s"
  shows "commit_passes s s'"
proof -
  obtain row q c where l: "lockDispatch d s = Some (row, q)" and "find_candidate d p s = Some c"
    and rest: "(case claimRejection row (cand_status c) p (dispatchClaimTime appNow dbNow row) of
        Some AlreadyOwner \<Rightarrow>
          bindT (readT (\<lambda>s. list_ex (\<lambda>h. pre_dispatch h = d \<and> pre_actorType h = PROVIDER \<and> pre_actorId h = p
            \<and> Some (pre_awardedAt h) = d_claimedAt row) (preAwards s))) (\<lambda>historical. returnT (ClaimAlready historical))
      | Some (Rejected code) \<Rightarrow>
          if code = DISPATCH_EXPIRED \<and> d_status row = OPEN then
            bindT (expire_dispatch (dispatchClaimTime appNow dbNow row) sqlNow d) (\<lambda>_. returnT ClaimExpired)
          else throwT (Domain code)
      | None \<Rightarrow> claim_award (dispatchClaimTime appNow dbNow row) sqlNow row q p actor) s = Inr (ClaimDone award, s')"
    using cl by (auto simp: claim_tx_def Let_def tx_simps)
  note row = lockDispatch_Some [OF l]
  have none: "claimRejection row (cand_status c) p (dispatchClaimTime appNow dbNow row) = None"
    using rest by (auto simp: tx_simps split: option.splits rejection.splits if_splits)
  with rest have cl': "claim_award (dispatchClaimTime appNow dbNow row) sqlNow row q p actor s = Inr (ClaimDone award, s')" by simp
  from none have "d_status row = OPEN" by (simp add: claim_allowed_iff)
  note a = claim_award_awards [OF cl' ok(1,2) conjunct1 [OF row] this]
  have "profile_keys_ok s'" using ok(3) a(3) by (simp add: profile_keys_ok_def)
  with a(1,2) ok(1) claim_tx_ok [OF cl ok(1)] show ?thesis by (intro commit_passesI)
qed

end
