(* ===== verification/Award_Integrity.thy ===== *)
theory Award_Integrity imports Dispatch_System Award_Triggers begin

text \<open>
  Every handler keeps \<open>awards_ok\<close>, so in every reachable state the award checks deferred to the COMMIT
  pass: the writes of the model, which do without them, lose no transaction that the database would
  refuse. \<open>calm\<close> is what all handlers but a claim and a take do to the awards: nothing.
\<close>

subsection \<open>Writes that award nothing\<close>

definition cand_keys_ok :: "db \<Rightarrow> bool" where
  "cand_keys_ok s \<longleftrightarrow> distinct (map cand_key (candidates s))"

definition quiet :: "db \<Rightarrow> db \<Rightarrow> bool" where
  "quiet s t \<longleftrightarrow>
     set (operational_awards t) = set (operational_awards s) \<and>
     filter is_award (ledger t) = filter is_award (ledger s) \<and> same_parties s t \<and>
     (\<forall>d \<in> set (dispatches t). d_claimedAt d = None \<or>
       (\<exists>d0 \<in> set (dispatches s). dispatch_key d0 = dispatch_key d \<and> claim_of d0 = claim_of d))"

definition calm :: "db \<Rightarrow> db \<Rightarrow> bool" where
  "calm s t \<longleftrightarrow> (keys_ok s \<and> cand_keys_ok s \<longrightarrow> grows s t \<and> cand_keys_ok t \<and> quiet s t)"

lemma quiet_claim:
  assumes "quiet s t" "d \<in> set (dispatches t)"
  obtains "d_claimedAt d = None"
    | d0 where "d0 \<in> set (dispatches s)" "dispatch_key d0 = dispatch_key d" "claim_of d0 = claim_of d"
  using assms by (auto simp: quiet_def)

lemma quiet_trans:
  assumes 1: "quiet s t" and 2: "quiet t u"
  shows "quiet s u"
proof -
  have "d_claimedAt d = None \<or> (\<exists>d0 \<in> set (dispatches s). dispatch_key d0 = dispatch_key d \<and> claim_of d0 = claim_of d)"
    if d: "d \<in> set (dispatches u)" for d
  proof (rule quiet_claim [OF 2 d])
    fix e
    assume e: "e \<in> set (dispatches t)" "dispatch_key e = dispatch_key d" "claim_of e = claim_of d"
    then have "d_claimedAt e = d_claimedAt d" by (simp add: claim_of_def)
    with e show ?thesis by (cases rule: quiet_claim [OF 1 e(1)]) auto
  qed simp
  with 1 2 show ?thesis unfolding quiet_def using same_parties_trans by (metis (no_types, lifting))
qed

interpretation calmness: evolution calm
proof
  show "calm s s" for s
    using history.refl [of s] by (auto simp: calm_def evolves_def quiet_def same_parties_refl)
  show "calm s u" if "calm s t" "calm t u" for s t u
    unfolding calm_def
  proof
    assume "keys_ok s \<and> cand_keys_ok s"
    with that(1) have 1: "grows s t" "cand_keys_ok t" "quiet s t" by (simp_all add: calm_def)
    then have "keys_ok t" by (simp add: grows_def)
    with that(2) 1(2) have "grows t u" "cand_keys_ok u" "quiet t u" by (simp_all add: calm_def)
    with 1 show "grows s u \<and> cand_keys_ok u \<and> quiet s u" using grows_trans quiet_trans by blast
  qed
qed

lemma calmI:
  assumes "evolves s t" "keys_ok s \<Longrightarrow> cand_keys_ok s \<Longrightarrow> cand_keys_ok t \<and> quiet s t"
  shows "calm s t"
  using assms by (simp add: calm_def evolves_def)

text \<open>A write that leaves the tables of the awards alone, or only adds rows that award nothing.\<close>

lemma calm_frame:
  assumes "evolves s t" and "candidates t = candidates s" "assignments t = assignments s"
    and "filter is_award (ledger t) = filter is_award (ledger s)" and "same_parties s t"
    and "\<And>d. d \<in> set (dispatches t) \<Longrightarrow> d \<notin> set (dispatches s) \<Longrightarrow> d_claimedAt d = None"
  shows "calm s t"
proof (rule calmI [OF assms(1)])
  assume "cand_keys_ok s"
  moreover have "operational_awards t = operational_awards s" using assms(2,3) by (simp add: operational_awards_def)
  ultimately show "cand_keys_ok t \<and> quiet s t" using assms by (auto simp: cand_keys_ok_def quiet_def)
qed

lemma calm_raises:
  "stepsT calm (raise_some f)" "stepsT calm (raiseT b r)" "stepsT calm (checkT b)" "stepsT calm (uniqueT b)"
  "stepsT calm (nextBalanceT b' a)" "stepsT calm (assertDocumentaryEligibility documents i j)"
  "stepsT calm (faultT g)"
  by (auto intro!: stepsTI simp: tx_simps calmness.refl nextBalanceT_def faultT_def split: sum.splits)

lemma calm_update_dispatch:
  assumes id: "\<And>r. d_id (change r) = d_id r"
    and cl: "\<And>r. d_claimedAt (change r) = None \<or> claim_of (change r) = claim_of r"
  shows "stepsT calm (update_dispatch sqlNow i change)"
proof (rule stepsTI)
  fix s u s'
  assume w: "update_dispatch sqlNow i change s = Inr (u, s')"
  then obtain old new rs where f: "find_dispatch (Some i) s = Some old" and c: "core new = core (change old)"
    and g: "dispatch_guard old (change old) s = None" and m: "creditMode (change old) = creditMode old"
    and s': "s' = s\<lparr>dispatches := update_rows (\<lambda>d. d_id d = d_id new) (\<lambda>_. new) (dispatches s), rounds := rs\<rparr>"
    by (rule update_dispatch_Inr)
  note k = dispatch_guard_keeps [OF g]
  have key: "dispatch_key new = dispatch_key old"
    using coreD [OF c] id k(1,2,3) m by (simp add: dispatch_key_def)
  have claim: "d_claimedAt new = None \<or> claim_of new = claim_of old"
    using cl [of old] coreD [OF c] by (simp add: claim_of_def)
  have ev: "evolves s s'" by (rule stepsTD [OF update_dispatch_steps w]) (rule id)
  have "operational_awards s' = operational_awards s" by (simp add: s' operational_awards_def)
  moreover have "d_claimedAt d = None \<or> (\<exists>d0 \<in> set (dispatches s). dispatch_key d0 = dispatch_key d \<and> claim_of d0 = claim_of d)"
    if "d \<in> set (dispatches s')" for d
  proof (cases "d = new")
    case True
    with claim key find_dispatch_Some [OF f] show ?thesis by force
  next
    case False
    with that show ?thesis by (auto simp: s' in_update_rows split: if_splits)
  qed
  ultimately show "calm s s'"
    by (intro calmI [OF ev]) (simp_all add: s' cand_keys_ok_def quiet_def same_parties_frame)
qed

lemma calm_update_candidate:
  assumes at: "\<And>c. cand_claimedAt (change c) = cand_claimedAt c"
  shows "stepsT calm (update_candidate d p change)"
proof (rule stepsTI)
  fix s u s'
  assume w: "update_candidate d p change s = Inr (u, s')"
  then obtain old where f: "find_candidate d p s = Some old" and k: "cand_key (change old) = (d, p)"
    and s': "s' = s\<lparr>candidates := update_rows (is_candidate d p) (\<lambda>_. change old) (candidates s)\<rparr>"
    by (rule update_candidate_Inr)
  note old = find_candidate_Some [OF f]
  show "calm s s'"
  proof (rule calmI [OF stepsTD [OF update_candidate_steps w]])
    assume keys: "cand_keys_ok s"
    have key: "cand_key old = (d, p)" using old by (simp add: cand_key_def)
    have "candidate_award (change old) t = candidate_award old t" for t
      using k key by (simp add: candidate_award_def cand_key_def)
    then have "{w. \<exists>t. cand_claimedAt (change old) = Some t \<and> w = candidate_award (change old) t} \<subseteq> candidate_awards (candidates s)"
      unfolding at candidate_awards_def using old by auto
    with candidate_awards_update [OF keys [unfolded cand_keys_ok_def] _ key k] old at
    have "candidate_awards (candidates s') = candidate_awards (candidates s)" by (auto simp: s')
    then have "set (operational_awards s') = set (operational_awards s)" by (simp add: set_operational_awards s')
    moreover have "map cand_key (candidates s') = map cand_key (candidates s)"
      unfolding s' using k by (auto intro!: map_update_rows simp: cand_key_def)
    ultimately show "cand_keys_ok s' \<and> quiet s s'"
      using keys by (auto simp: cand_keys_ok_def quiet_def s' same_parties_frame)
  qed
qed

lemma calm_insert_candidate: "stepsT calm (insert_candidate skip d at p)"
proof (rule stepsTI)
  fix s u s'
  assume w: "insert_candidate skip d at p s = Inr (u, s')"
  let ?c = "\<lparr>cand_dispatch = d, cand_provider = p, cand_status = CAND_OFFERED, cand_offeredAt = at,
            cand_claimedAt = None, cand_releasedAt = None\<rparr>"
  from w have "s' = s \<or> s' = s\<lparr>candidates := candidates s @ [?c]\<rparr> \<and> \<not> any_row (is_candidate d p) (candidates s)"
    by (auto simp: insert_candidate_def tx_simps split: if_splits)
  then show "calm s s'"
  proof (elim disjE conjE)
    assume s': "s' = s\<lparr>candidates := candidates s @ [?c]\<rparr>" and new: "\<not> any_row (is_candidate d p) (candidates s)"
    have "set (operational_awards s') = set (operational_awards s)"
      by (auto simp: set_operational_awards candidate_awards_def s')
    moreover have "cand_keys_ok s \<Longrightarrow> cand_keys_ok s'"
      using new by (auto simp: cand_keys_ok_def s' cand_key_def any_row_iff)
    ultimately show ?thesis
      by (intro calmI [OF stepsTD [OF insert_candidate_steps w]]) (auto simp: quiet_def s' same_parties_frame)
  qed (simp add: calmness.refl)
qed

lemma calm_update_assignment:
  assumes "\<And>a. asg_id (change a) = asg_id a"
  shows "stepsT calm (update_assignment i change)"
proof (rule stepsTI)
  fix s u s'
  assume w: "update_assignment i change s = Inr (u, s')"
  then obtain old where old: "old \<in> set (assignments s)" "asg_id old = i"
    and g: "assignment_update_guard old (change old) = None"
    and s': "s' = s\<lparr>assignments := update_rows (\<lambda>a. asg_id a = i) (\<lambda>_. change old) (assignments s)\<rparr>"
    by (rule update_assignment_Inr)
  have same: "assignment_award (change old) = assignment_award old" "asg_mode (change old) = asg_mode old"
    using g by (auto simp: assignment_update_guard_def assignment_award_def split: if_splits)
  show "calm s s'"
  proof (rule calmI [OF stepsTD [OF update_assignment_steps w]])
    assume keys: "keys_ok s" "cand_keys_ok s"
    have only: "a = old" if "a \<in> set (assignments s)" "asg_id a = i" for a
      using unique_key [of asg_id "assignments s" a old] that old keys(1) by (simp add: keys_ok_def)
    have "map (\<lambda>a. (assignment_award a, asg_mode a)) (assignments s') = map (\<lambda>a. (assignment_award a, asg_mode a)) (assignments s)"
      unfolding s' using only same by (auto intro!: map_update_rows)
    moreover have "map assignment_award (filter (\<lambda>x. asg_mode x = INDEPENDENT) xs) =
        map fst (filter (\<lambda>q. snd q = INDEPENDENT) (map (\<lambda>a. (assignment_award a, asg_mode a)) xs))" for xs
      by (induction xs) auto
    ultimately have "operational_awards s' = operational_awards s" by (simp add: operational_awards_def s')
    with keys show "cand_keys_ok s' \<and> quiet s s'" by (auto simp: cand_keys_ok_def quiet_def s' same_parties_frame)
  qed (rule assms)
qed

lemma calm_insert_assignment:
  assumes "asg_mode a0 = FLEET"
  shows "stepsT calm (insert_assignment a0)"
proof (rule stepsTI)
  fix s i s'
  assume w: "insert_assignment a0 s = Inr (i, s')"
  then obtain a where a: "a = a0\<lparr>asg_id := i\<rparr>"
    and s': "s' = s\<lparr>nextId := nextId s + 1, assignments := assignments s @ [a]\<rparr>"
    by (rule insert_assignment_Inr)
  have "set (operational_awards s') = set (operational_awards s)"
    using assms by (auto simp: set_operational_awards s' a)
  then show "calm s s'"
    by (intro calmI [OF stepsTD [OF insert_assignment_steps w]]) (auto simp: cand_keys_ok_def quiet_def s' same_parties_frame)
qed

lemma calm_insert_entry:
  assumes "is_refund e0 \<or> entry_reference e0 = None" "\<not> is_award e0"
  shows "stepsT calm (insert_entry e0)"
proof (rule stepsTI)
  fix s e s'
  assume w: "insert_entry e0 s = Inr (e, s')"
  have "\<not> is_award e" using w assms(2) by (auto simp: insert_entry_Inr)
  with insert_entry_frame [OF w] show "calm s s'"
    by (intro calm_frame [OF stepsTD [OF insert_entry_steps w]]) (use assms(1) insert_entry_same_parties [OF w] in auto)
qed

lemma calm_others:
  "stepsT calm (insert_event e0)" "stepsT calm (insert_snapshot service x0)" "stepsT calm (update_quote i change)"
  "stepsT calm (cancel_request_rows r now)" "stepsT calm (insert_dispatch d)"
proof -
  show "stepsT calm (insert_event e0)"
    by (rule stepsTI) (auto intro!: calm_frame [OF stepsTD [OF insert_event_steps]] same_parties_frame dest: insert_event_Inr(5))
  show "stepsT calm (insert_snapshot service x0)"
  proof (rule stepsTI)
    fix s x s'
    assume w: "insert_snapshot service x0 s = Inr (x, s')"
    then have "s' = s\<lparr>nextId := nextId s + 1, snapshots := snapshots s @ [x]\<rparr>" by (auto simp: insert_snapshot_def tx_simps)
    then show "calm s s'" by (intro calm_frame [OF stepsTD [OF insert_snapshot_steps w]]) (simp_all add: same_parties_frame)
  qed
  show "stepsT calm (update_quote i change)"
    by (rule stepsTI) (auto intro!: calm_frame [OF stepsTD [OF update_quote_steps]] same_parties_frame dest: update_quote_Inr(1))
  show "stepsT calm (cancel_request_rows r now)"
    by (rule stepsTI) (auto intro!: calm_frame [OF stepsTD [OF cancel_request_rows_steps]] same_parties_frame simp: cancel_request_rows_def)
  show "stepsT calm (insert_dispatch d)"
  proof (rule stepsTI)
    fix s u s'
    assume w: "insert_dispatch d s = Inr (u, s')"
    then obtain rs where "s' = s\<lparr>dispatches := dispatches s @ [d], rounds := rs\<rparr>" "dispatch_check d" "d_status d = OPEN"
      by (rule insert_dispatch_Inr)
    then show "calm s s'"
      by (intro calm_frame [OF stepsTD [OF insert_dispatch_steps w]]) (auto simp: same_parties_frame dispatch_check_def)
  qed
qed

lemmas calm_writes =
  calm_update_dispatch calm_update_candidate calm_insert_candidate calm_update_assignment
  calm_insert_assignment calm_insert_entry calm_others calm_raises

subsection \<open>The handlers that award nothing\<close>

lemma calm_refund: "stepsT calm (refundDispatchAward d owner b reason actor)"
  unfolding refundDispatchAward_def
  by (intro calmness.rules calm_writes) (simp_all add: service_movement_def)

lemma calm_expire: "stepsT calm (expire_dispatch now sqlNow d)"
  unfolding expire_dispatch_def by (intro calm_writes) (simp_all add: claim_of_def)

lemma calm_release: "stepsT calm (release_tx now sqlNow d p actor)"
  unfolding release_tx_def by (intro calmness.rules calm_writes calm_refund) (simp_all add: Let_def)

lemma calm_assignments:
  "stepsT calm (create_tx documents now d i j p user)"
  "stepsT calm (reassign_tx documents now d i j reason p user)"
  "stepsT calm (cancel_tx now d reason p user)"
  unfolding create_tx_def reassign_tx_def cancel_tx_def resource_steps
  by (intro calmness.rules calm_writes ended_id; simp add: fleet_assignment_def)+

lemma calm_complete: "stepsT calm (completeDelivery now sqlNow d actor user)"
  unfolding completeDelivery_def lockActive_def recordDeliveryCompleted_def
  by (intro calmness.rules calm_writes ended_id) (simp_all add: claim_of_def)

lemma calm_release_independent: "stepsT calm (release_independent_tx now sqlNow d actor reason user)"
  unfolding release_independent_tx_def end_active_def
  by (intro calmness.rules calm_writes calm_refund ended_id) (simp_all add: Let_def)

lemma calm_cancellation: "stepsT calm (cancel_request_tx now sqlNow actor publicId)"
proof -
  have "d_id (close_change expired now r) = d_id r" "claim_of (close_change expired now r) = claim_of r" for expired r
    by (simp_all add: close_change_def claim_of_def)
  then have "stepsT calm (close_row now sqlNow user row)" for user row
    unfolding close_row_def refund_owner_def by (intro calmness.rules calm_writes calm_refund) simp_all
  then show ?thesis
    unfolding cancel_request_tx_def closeDispatchesForCancelledRequest_def cancelActiveAssignments_def
    by (intro calmness.rules calm_writes ended_id)
qed

lemma calm_advance: "stepsT calm (advance_tx skipped clock sqlNow d requestId)"
  unfolding advance_tx_def stop_search_def next_round_def
  by (intro calmness.rules calm_writes) (simp_all add: claim_of_def)

lemma calm_accept: "stepsT calm (accept_tx ttl now generated publicId client)"
  unfolding accept_tx_def rejectConvertedRequest_def openDispatch_def authorized_dispatch_def
    createDispatchCreditSnapshots_def actor_snapshot_def
  by (intro calmness.rules calm_writes)

lemma calm_movement:
  assumes "moveFrom prior i m k h u s = Inr (res, s')"
  shows "calm s s'"
proof -
  have "entry_reference (human_entry i m b c k h u) = None" "\<not> is_award (human_entry i m b c k h u)" for b c
    by (cases m; simp)+
  then have "stepsT calm (insert_entry (human_entry i m b c k h u))" for b c
    by (intro calm_insert_entry) simp_all
  with moveFrom_writes [OF assms] show ?thesis
    using calmness.refl by (auto dest: stepsTD)
qed

subsection \<open>Every step keeps the awards\<close>

lemma find_dispatch_grows:
  assumes g: "grows s t" and f: "find_dispatch (Some i) s = Some r"
  shows "\<exists>r'. find_dispatch (Some i) t = Some r' \<and> creditMode r' = creditMode r"
proof -
  note r = find_dispatch_Some [OF f]
  from g have "prefix (map dispatch_key (dispatches s)) (map dispatch_key (dispatches t))" "keys_ok t" by (simp_all add: grows_def)
  with r have "dispatch_key r \<in> set (map dispatch_key (dispatches t))" using set_mono_prefix by fastforce
  then obtain r' where "r' \<in> set (dispatches t)" "dispatch_key r' = dispatch_key r" by auto
  with r \<open>keys_ok t\<close> find_dispatch_in [of t r'] show ?thesis by (auto simp: dispatch_key_def keys_ok_def)
qed

lemma find_snapshot_grows:
  assumes "grows s t" "find_snapshot i a s = Some x"
  shows "find_snapshot i a t = Some x"
proof -
  from assms(1) obtain xs where "snapshots t = snapshots s @ xs" by (auto simp: grows_def prefix_def)
  with assms(2) show ?thesis by (simp add: find_snapshot_def first_row_append)
qed

text \<open>What a step does to the awards: they stay paid, and no new claim reuses an exemption.\<close>

definition settles :: "db \<Rightarrow> db \<Rightarrow> bool" where
  "settles s t \<longleftrightarrow>
     (system_ok s \<and> awards_ok s \<and> profile_keys_ok s \<longrightarrow> awards_ok t \<and> profile_keys_ok t \<and> claims_unexempted s t)"

lemma calm_settles:
  assumes "calm s t"
  shows "settles s t"
  unfolding settles_def
proof
  assume a: "system_ok s \<and> awards_ok s \<and> profile_keys_ok s"
  then have keys: "keys_ok s" "cand_keys_ok s" by (simp_all add: system_keys cand_keys_ok_def system_ok_def claims_ok_def)
  with assms have g: "grows s t" and q: "quiet s t" by (simp_all add: calm_def)
  have ops: "set (operational_awards t) = set (operational_awards s)" and led: "filter is_award (ledger t) = filter is_award (ledger s)"
    and sp: "same_parties s t" using q by (simp_all add: quiet_def)
  have "awards_ok t"
  proof (rule awards_kept [OF conjunct1 [OF conjunct2 [OF a]] sp])
    show "set (ledger s) \<subseteq> set (ledger t)" using g by (simp add: grows_def set_mono_prefix)
    show "\<exists>w \<in> set (operational_awards t). enforced_award w t \<and> pays_for w e t"
      if "e \<in> set (ledger t)" "e \<notin> set (ledger s)" "is_award e" for e
    proof -
      from that have "e \<in> set (filter is_award (ledger t))" by simp
      with led that show ?thesis by simp
    qed
    show "winner_history d t = None" if d: "d \<in> set (dispatches t)" for d
    proof (cases rule: quiet_claim [OF q d])
      case 1
      then show ?thesis by (simp add: winner_history_def)
    next
      case (2 d0)
      then show ?thesis using a awards_okD(4) ops
        by (intro winner_history_kept [of d0 s t d]) (auto simp: dispatch_key_def)
    qed
    show "\<exists>r'. find_dispatch (Some i) t = Some r' \<and> creditMode r' = creditMode r" if "find_dispatch (Some i) s = Some r" for i r
      by (rule find_dispatch_grows [OF g that])
    show "find_snapshot i x t = Some y" if "find_snapshot i x s = Some y" for i x y
      by (rule find_snapshot_grows [OF g that])
  qed (simp_all add: ops)
  moreover have "profile_keys_ok t" using sp a profile_keys_ok_keys [of t s] by (simp add: same_parties_def)
  moreover have "claims_unexempted s t"
    unfolding claims_unexempted_def
  proof (intro ballI impI)
    fix old new
    assume old: "old \<in> set (dispatches s)" and new: "new \<in> set (dispatches t)" and id: "d_id new = d_id old"
    show "award_history_guard old new t = None"
    proof (cases rule: quiet_claim [OF q new])
      case 1
      then show ?thesis by (simp add: award_history_guard_kept)
    next
      case (2 d0)
      with unique_key [of d_id "dispatches s" d0 old] keys(1) old id have "d0 = old" by (simp add: keys_ok_def dispatch_key_def)
      with 2 show ?thesis by (simp add: award_history_guard_kept)
    qed
  qed
  ultimately show "awards_ok t \<and> profile_keys_ok t \<and> claims_unexempted s t" by simp
qed

lemma settles_refl: "settles s s"
  by (rule calm_settles [OF calmness.refl])

lemma claim_tx_settles:
  assumes "claim_tx appNow dbNow sqlNow d p actor s = Inr (out, s')"
  shows "settles s s'"
proof -
  from assms obtain row q c where l: "lockDispatch d s = Some (row, q)" and "find_candidate d p s = Some c"
    and rest: "(case claimRejection row (cand_status c) p (dispatchClaimTime appNow dbNow row) of
        Some AlreadyOwner \<Rightarrow>
          bindT (readT (\<lambda>s. list_ex (\<lambda>h. pre_dispatch h = d \<and> pre_actorType h = PROVIDER \<and> pre_actorId h = p
            \<and> Some (pre_awardedAt h) = d_claimedAt row) (preAwards s))) (\<lambda>historical. returnT (ClaimAlready historical))
      | Some (Rejected code) \<Rightarrow>
          if code = DISPATCH_EXPIRED \<and> d_status row = OPEN then
            bindT (expire_dispatch (dispatchClaimTime appNow dbNow row) sqlNow d) (\<lambda>_. returnT ClaimExpired)
          else throwT (Domain code)
      | None \<Rightarrow> claim_award (dispatchClaimTime appNow dbNow row) sqlNow row q p actor) s = Inr (out, s')"
    by (auto simp: claim_tx_def Let_def tx_simps)
  show ?thesis
  proof (cases "claimRejection row (cand_status c) p (dispatchClaimTime appNow dbNow row)")
    case None
    with rest have cl: "claim_award (dispatchClaimTime appNow dbNow row) sqlNow row q p actor s = Inr (out, s')" by simp
    from None have "d_status row = OPEN" by (simp add: claim_allowed_iff)
    note a = claim_award_awards [OF cl _ _ conjunct1 [OF lockDispatch_Some [OF l]] this]
    show ?thesis unfolding settles_def
    proof
      assume "system_ok s \<and> awards_ok s \<and> profile_keys_ok s"
      with a show "awards_ok s' \<and> profile_keys_ok s' \<and> claims_unexempted s s'" by (simp add: profile_keys_ok_def)
    qed
  next
    case (Some rej)
    then show ?thesis
      using rest stepsTD [OF calm_expire] calm_settles settles_refl
      by (cases rej) (auto simp: tx_simps split: if_splits)
  qed
qed

lemma take_award_awards:
  assumes tk: "take_award documents now sqlNow row (i, p) v user s = Inr (out, s')"
    and ok: "system_ok s" "awards_ok s" "profile_keys_ok s"
    and row: "find_dispatch (Some d) s = Some row" "d_status row = OPEN"
    and prof: "map_option prof_id (profile_of i s) = Some p"
  shows "awards_ok s'" "claims_unexempted s s'" "profiles s' = profiles s"
proof -
  note k = system_okD [OF ok(1)]
  note r = find_dispatch_Some [OF row(1)]
  from tk obtain t u1 u2 s1 s2 j award where
    "lockEligibleResources_take i p v s = Inr (u1, t)"
    and w0: "update_dispatch sqlNow (d_id row)
       (\<lambda>r. r\<lparr>d_status := CLAIMED, claimedByIndependent := Some i, d_claimedAt := Some now\<rparr>) t = Inr (u2, s1)"
    and ins: "insert_assignment (independent_assignment (d_id row) p i v now user) s1 = Inr (j, s2)"
    and ch: "chargeDispatchAward (d_id row) (creditMode row) (IndependentOwner p) user s2 = Inr (award, s')"
    unfolding take_award_def prod.case tx_simps by blast
  then have "t = s" using lockEligibleResources_take_frame by simp
  with w0 r have w: "update_dispatch sqlNow d
       (\<lambda>r. r\<lparr>d_status := CLAIMED, claimedByIndependent := Some i, d_claimedAt := Some now\<rparr>) s = Inr (u2, s1)" by simp
  from w obtain old new rs where f: "find_dispatch (Some d) s = Some old"
    and c: "core new = core (old\<lparr>d_status := CLAIMED, claimedByIndependent := Some i, d_claimedAt := Some now\<rparr>)"
    and hist: "award_history_guard old new s1 = None"
    and s1: "s1 = s\<lparr>dispatches := update_rows (\<lambda>d. d_id d = d_id new) (\<lambda>_. new) (dispatches s), rounds := rs\<rparr>"
    by (rule update_dispatch_Inr)
  from f row(1) have [simp]: "old = row" by simp
  note new = coreD [OF c, simplified]
  have "dispatch_check row" using k(3) r by (simp add: claims_ok_def list_all_iff)
  with row(2) have free: "claimedByProvider row = None" "d_claimedAt row = None" by (auto simp: dispatch_check_def no_claim_def)
  from ins obtain a where a: "a = (independent_assignment (d_id row) p i v now user)\<lparr>asg_id := j\<rparr>"
    and s2: "s2 = s1\<lparr>nextId := nextId s1 + 1, assignments := assignments s1 @ [a]\<rparr>"
    by (rule insert_assignment_Inr)
  let ?w = "\<lparr>pre_dispatch = d, pre_actorType = INDEPENDENT_DRIVER, pre_actorId = i, pre_awardedAt = now\<rparr>"
  have "{x \<in> set (assignments s2). asg_mode x = INDEPENDENT} = insert a {x \<in> set (assignments s). asg_mode x = INDEPENDENT}"
    by (auto simp: s2 s1 a independent_assignment_def)
  moreover have "assignment_award a = ?w" using r by (simp add: a independent_assignment_def assignment_award_def)
  ultimately have ops: "set (operational_awards s2) = insert ?w (set (operational_awards s))"
    by (simp add: set_operational_awards s2 s1)
  have wf2: "ledger_wf s2" "accounts_wf s2"
    using k by (auto simp: s2 s1 accounts_wf_def intro!: ledger_wf_cong [OF _ _ _ _ k(1)])
  have own: "acc_ownerType x = INDEPENDENT_DRIVER \<and> account_actor x s2 = Some i"
    if "owner_account (IndependentOwner p) s2 = Some x" for x
  proof -
    from prof obtain q where q: "q \<in> set (profiles s)" "prof_driver q = i" "prof_id q = p"
      by (auto simp: profile_of_def dest: first_row_Some)
    then have "first_row (\<lambda>q. prof_id q = p) (profiles s) = Some q"
      using first_row_unique_key [of prof_id "profiles s" q] ok(3) by (auto simp: profile_keys_ok_def)
    with owner_account_Some [OF that wf2(2)] q show ?thesis by (simp add: account_actor_def s2 s1)
  qed
  have hist': "\<not> exempt (preAwards s) new" if "creditMode new = MONETIZED"
    using hist that new free by (auto simp: award_history_guard_def claim_of_def s1 split: if_splits)
  have id: "d_id new = d" "creditMode new = creditMode row" using new r by auto
  have act: "claim_actor new = (INDEPENDENT_DRIVER, Some i)" "d_claimedAt new = Some now"
    using new free by (simp_all add: claim_actor_def)
  have ch': "chargeDispatchAward (d_id new) (creditMode new) (IndependentOwner p) user s2 = Inr (award, s')" using ch id r by simp
  have ds: "dispatches s2 = update_rows (\<lambda>d. d_id d = d_id new) (\<lambda>_. new) (dispatches s)" by (simp add: s2 s1)
  have sp: "same_parties s s2" by (rule same_parties_frame) (simp_all add: s2 s1)
  note settled = awarded [OF ok(1,2) ds _ _ _ sp _ _ wf2(1) hist', of row ?w "IndependentOwner p", OF _ _ _ _ _ _ _ _ _ _ ops _ ch']
  show "awards_ok s'" by (rule settled(1)) (use r id act own in \<open>simp_all add: s2 s1\<close>)
  show "claims_unexempted s s'" by (rule settled(2)) (use r id act own in \<open>simp_all add: s2 s1\<close>)
  show "profiles s' = profiles s" by (simp add: charge_frame [OF ch] s2 s1)
qed

lemma take_tx_settles:
  assumes "take_tx documents appNow dbNow sqlNow d (i, p) v user s = Inr (out, s')"
    and prof: "map_option prof_id (profile_of i s) = Some p"
  shows "settles s s'"
proof -
  from assms(1) obtain row q where l: "lockDispatch d s = Some (row, q)"
    and rest: "(case takeRejection row (quote_service q) (any_row (\<lambda>a. asg_dispatch a = d \<and> asg_driver a = i
        \<and> asg_status a = ASG_CANCELLED) (assignments s)) (dispatchClaimTime appNow dbNow row) of
        Some code \<Rightarrow>
          if code = DISPATCH_EXPIRED \<and> d_status row = OPEN then
            bindT (expire_dispatch (dispatchClaimTime appNow dbNow row) sqlNow d) (\<lambda>_. returnT TakeExpired)
          else throwT (Domain code)
      | None \<Rightarrow> take_award documents (dispatchClaimTime appNow dbNow row) sqlNow row (i, p) v user) s = Inr (out, s')"
    by (auto simp: take_tx_def Let_def tx_simps)
  show ?thesis
  proof (cases "takeRejection row (quote_service q) (any_row (\<lambda>a. asg_dispatch a = d \<and> asg_driver a = i
        \<and> asg_status a = ASG_CANCELLED) (assignments s)) (dispatchClaimTime appNow dbNow row)")
    case None
    with rest have tk: "take_award documents (dispatchClaimTime appNow dbNow row) sqlNow row (i, p) v user s = Inr (out, s')" by simp
    from None have "d_status row = OPEN" by (simp add: take_allowed_iff)
    note a = take_award_awards [OF tk _ _ _ conjunct1 [OF lockDispatch_Some [OF l]] this prof]
    show ?thesis unfolding settles_def
    proof
      assume "system_ok s \<and> awards_ok s \<and> profile_keys_ok s"
      with a show "awards_ok s' \<and> profile_keys_ok s' \<and> claims_unexempted s s'" by (simp add: profile_keys_ok_def)
    qed
  next
    case (Some code)
    then show ?thesis
      using rest stepsTD [OF calm_expire] calm_settles
      by (auto simp: tx_simps split: if_splits)
  qed
qed

lemma commit_settles: "stepsT calm m \<Longrightarrow> settles s (snd (commitT m s))"
  by (rule calm_settles) (rule calmness.commit)

lemma claim_settles: "settles s (snd (claim appNow dbNow sqlNow d p actor s))"
  using claim_tx_settles [of appNow dbNow sqlNow d p actor s] settles_refl
  by (auto simp: claim_def split: sum.splits claim_outcome.splits)

lemma accept_settles: "settles s (snd (accept_quote_handler ttl now generated publicId client s))"
  using stepsTD [OF calm_accept] calm_settles settles_refl
  by (auto simp: accept_quote_handler_def split: sum.splits accept_outcome.splits)

lemma take_settles:
  assumes "map profile_key (profiles seen) = map profile_key (profiles s)"
  shows "settles s (snd (take_dispatch documents appNow dbNow sqlNow user d v seen s))"
proof (cases "approvedDriver user seen")
  case (Inr actor)
  obtain i p where actor: "actor = (i, p)" by (cases actor)
  with Inr approvedDriver_profile profile_of_same [OF assms]
  have "map_option prof_id (profile_of i s) = Some p" by metis
  from take_tx_settles [OF _ this] settles_refl show ?thesis
    by (auto simp: take_dispatch_def Inr actor split: sum.split take_outcome.split)
qed (simp add: take_dispatch_def settles_refl)

lemma release_taken_settles: "settles s (snd (release_independent now sqlNow user d why seen s))"
  using commit_settles [OF calm_release_independent] settles_refl
  by (auto simp: release_independent_def split: sum.splits)

lemma complete_settles:
  "settles s (snd (complete_by_provider now sqlNow d p user s))"
  "settles s (snd (complete_by_driver now sqlNow user d s))"
  unfolding complete_by_provider_def complete_by_driver_def
  by (intro commit_settles calmness.rules calm_complete)+

lemma assignment_settles:
  "settles s (snd (create_assignment documents now d i j p user s))"
  "settles s (snd (reassign documents now d i j reason p user s))"
  "settles s (snd (cancel_assignment now d reason' p user s))"
  unfolding create_assignment_def reassign_def cancel_assignment_def
  by (intro commit_settles calmness.rules calm_assignments)+

lemma environment_settles:
  assumes "environment s t"
  shows "settles s t"
proof (rule calm_settles, rule calm_frame)
  show "evolves s t" using assms by (rule environment_evolves)
  show "same_parties s t" using assms by (simp add: environment_def same_parties_def)
qed (use assms in \<open>simp_all add: environment_def\<close>)

lemma step_settles: "system_step s t \<Longrightarrow> settles s t"
proof (induction rule: system_step.induct)
  case (release s now sqlNow d p actor)
  show ?case unfolding release_def by (rule commit_settles [OF calm_release])
next
  case (cancel s now sqlNow who publicId)
  show ?case unfolding cancel_request_def by (rule commit_settles [OF calm_cancellation])
next
  case (search s skipped clock sqlNow d r)
  show ?case unfolding advance_def by (rule commit_settles [OF calm_advance])
next
  case (movement prior i m k h u s res t)
  then show ?case by (intro calm_settles calm_movement)
qed (auto intro: accept_settles claim_settles assignment_settles complete_settles take_settles
     release_taken_settles environment_settles)

text \<open>The invariant of the dispatch system with its awards.\<close>

definition awards_good :: "db \<Rightarrow> bool" where
  "awards_good s \<longleftrightarrow> good s \<and> awards_ok s \<and> profile_keys_ok s"

interpretation awarding: invariant_system system_step awards_good
proof
  fix s t
  assume step: "system_step s t" and g: "awards_good s"
  then have "good t" using dispatching.inv_step by (simp add: awards_good_def)
  with step_settles [OF step] g show "awards_good t" by (simp add: awards_good_def settles_def good_def)
qed

text \<open>
  C8: No transaction of the dispatch system is refused at its COMMIT. After any history, whatever
  handler runs next, the deferred award checks pass on what it leaves behind: each enforced award of a
  provider or of an independent driver has exactly one debit of the frozen cost, each debit has its award,
  a holder is in the history of its dispatch, no new claim reuses a historical exemption, and a claim that
  was given up or cancelled has been refunded.
\<close>

theorem deferred_checks_never_refuse:
  assumes "rtranclp system_step s t" "awards_good s" "system_step t u"
  shows "commit_passes t u"
proof -
  have t: "awards_good t" by (rule awarding.reachable_inv [OF assms(1,2)])
  then have u: "awards_good u" using awarding.inv_step assms(3) by blast
  with t step_settles [OF assms(3)] show ?thesis
    by (intro commit_passesI) (simp_all add: awards_good_def good_def settles_def)
qed

end
