(* ===== verification/Claim_Success.thy ===== *)
theory Claim_Success imports Search_Worker Award_Triggers begin







end
