(* ===== verification/Search_Termination.thy ===== *)
theory Search_Termination imports Search_Worker begin

text \<open>
  The automatic search ends: every pass of the worker over a due dispatch uses up one of at most five
  rounds or stops the search for good.
\<close>

definition rounds_left :: "dispatch \<Rightarrow> nat" where
  "rounds_left row =
     (if d_status row = OPEN \<and> searchMaxAttempts row = 5 \<and> searchStoppedReason row = None
      then 6 - searchAttempt row else 0)"

lemma update_dispatch_row:
  assumes "update_dispatch sqlNow d change s = Inr (u, s')" and dist: "distinct (map d_id (dispatches s))"
    and row: "find_dispatch (Some d) s = Some row" and id: "d_id (change row) = d"
  shows "\<exists>new. find_dispatch (Some d) s' = Some new \<and> core new = core (change row) \<and> search_shape new"
proof -
  from assms(1) obtain old new rs where f: "find_dispatch (Some d) s = Some old" and c: "core new = core (change old)"
    and sh: "search_shape new"
    and s': "s' = s\<lparr>dispatches := update_rows (\<lambda>d. d_id d = d_id new) (\<lambda>_. new) (dispatches s), rounds := rs\<rparr>"
    by (rule update_dispatch_Inr)
  have old: "old = row" using f row by simp
  then have n: "d_id new = d" using coreD(2) [OF c] id by simp
  note r = find_dispatch_Some [OF row]
  have "new \<in> set (dispatches s')" using r n by (auto simp: s' update_rows_def)
  moreover have "distinct (map d_id (dispatches s'))"
    using dist n map_update_rows [of "dispatches s" "\<lambda>x. d_id x = d_id new" d_id "\<lambda>_. new"] by (simp add: s')
  ultimately have "find_dispatch (Some d) s' = Some new" using find_dispatch_in [of s' new] n by simp
  with c old sh show ?thesis by blast
qed

lemma insert_candidates_dispatches:
  "mapT (insert_candidate skip d at) ps s = Inr (us, s') \<Longrightarrow> dispatches s' = dispatches s"
proof (induction ps arbitrary: s us)
  case Nil
  then show ?case by (simp add: tx_simps)
next
  case (Cons p ps)
  then obtain u s1 vs where "insert_candidate skip d at p s = Inr (u, s1)" "mapT (insert_candidate skip d at) ps s1 = Inr (vs, s')"
    by (auto simp: tx_simps)
  moreover from this(1) have "dispatches s1 = dispatches s"
    by (auto simp: insert_candidate_def tx_simps split: if_splits)
  ultimately show ?case using Cons.IH by simp
qed

lemma advance_cases:
  assumes "advance_tx skipped clock sqlNow d r s = Inr (out, s')" "out \<noteq> NotDue"
  obtains row where "row \<in> set (dispatches s)" "d_id row = d" "d_status row = OPEN" "searchMaxAttempts row = 5"
    "searchStoppedReason row = None"
    "stop_search clock sqlNow d (stop_of row s) s = Inr (out, s') \<or> next_round sqlNow d s = Inr (out, s')"
proof (cases "first_row (\<lambda>x. d_id x = d \<and> d_request x = r) (dispatches s)")
  case None
  with assms show ?thesis by (simp add: advance_tx_def tx_simps)
next
  case (Some row)
  note f = first_row_Some [OF this]
  from Some assms have "d_status row = OPEN" "searchMaxAttempts row = 5" "searchStoppedReason row = None"
    "stop_search clock sqlNow d (stop_of row s) s = Inr (out, s') \<or> next_round sqlNow d s = Inr (out, s')"
    by (auto simp: advance_tx_def tx_simps Let_def split: if_splits)
  with f that show ?thesis by blast
qed

text \<open>
  C9: The automatic search terminates. Each transaction of the worker that finds a search due either
  ends it or starts its next round, and both leave strictly fewer of the at most five rounds, so the
  worker cannot come back to a dispatch more than five times in a row.
\<close>

theorem search_uses_up_its_rounds:
  assumes ok: "system_ok s" and adv: "advance skipped clock sqlNow d r s = (Inr out, s')" "out \<noteq> NotDue"
  shows "\<exists>row row'. find_dispatch (Some d) s = Some row \<and> find_dispatch (Some d) s' = Some row' \<and>
    rounds_left row' < rounds_left row \<and> rounds_left row \<le> 5"
proof -
  note k = system_okD [OF ok]
  from adv(1) have "advance_tx skipped clock sqlNow d r s = Inr (out, s')"
    by (auto simp: advance_def commitT_def split: sum.splits)
  then obtain row where row: "row \<in> set (dispatches s)" "d_id row = d" "d_status row = OPEN" "searchMaxAttempts row = 5"
      "searchStoppedReason row = None"
    and run: "stop_search clock sqlNow d (stop_of row s) s = Inr (out, s') \<or> next_round sqlNow d s = Inr (out, s')"
    using adv(2) by (rule advance_cases)
  have f: "find_dispatch (Some d) s = Some row" using find_dispatch_in [OF k(7) row(1)] row(2) by simp
  have "search_shape row" using k(3) row(1) by (auto simp: claims_ok_def list_all_iff)
  then have a: "1 \<le> searchAttempt row" "searchAttempt row \<le> 5" using row(4) by (auto simp: search_shape_def)
  have "\<exists>row'. find_dispatch (Some d) s' = Some row' \<and> rounds_left row' < rounds_left row"
    using run
  proof
    assume "stop_search clock sqlNow d (stop_of row s) s = Inr (out, s')"
    then obtain u where "update_dispatch sqlNow d (\<lambda>r. r\<lparr>d_status := EXPIRED, d_expiredAt := Some clock,
        searchStoppedReason := stop_of row s\<rparr>) s = Inr (u, s')"
      by (auto simp: stop_search_def tx_simps)
    from update_dispatch_row [OF this k(7) f] row(2) obtain new where
      "find_dispatch (Some d) s' = Some new" "d_status new = EXPIRED" by (auto dest: coreD(1))
    then show ?thesis using row a by (auto simp: rounds_left_def)
  next
    assume "next_round sqlNow d s = Inr (out, s')"
    then obtain u s1 at ps us where
      w: "update_dispatch sqlNow d (\<lambda>r. r\<lparr>searchAttempt := searchAttempt r + 1\<rparr>) s = Inr (u, s1)"
      and "mapT (insert_candidate True d at) ps s1 = Inr (us, s')"
      by (auto simp: next_round_def tx_simps)
    then have same: "find_dispatch (Some d) s' = find_dispatch (Some d) s1"
      by (simp add: find_dispatch_def insert_candidates_dispatches)
    from update_dispatch_row [OF w k(7) f] row(2) obtain new where
      new: "find_dispatch (Some d) s1 = Some new" "searchAttempt new = searchAttempt row + 1" by (auto dest: coreD(9))
    then show ?thesis using row a same by (auto simp: rounds_left_def)
  qed
  moreover have "rounds_left row \<le> 5" using a by (auto simp: rounds_left_def)
  ultimately show ?thesis using f by blast
qed

end
