(* ===== verification/Scenarios.thy ===== *)
theory Scenarios imports Award_Integrity Claim_Success Search_Termination begin

text \<open>
  Concrete states: a small world with one client, two providers, one independent driver and the credit
  policies of both actors, and the states that the handlers reach from it. The witnesses of the
  properties evaluate the handlers on them.
\<close>

definition flat_policy :: "id \<Rightarrow> actor_type \<Rightarrow> int \<Rightarrow> credit_policy" where
  "flat_policy i actor cost =
     \<lparr>policy_id = i, policy_version = 1, policy_serviceType = LOCAL_DELIVERY, policy_actorType = actor,
      policy_calculationType = FLAT, creditsPerKm = None, minimumCredits = None, flatCredits = Some cost,
      policy_ranges = [], policy_status = ACTIVE, effectiveFrom = 0, effectiveUntil = None,
      policy_reason = Some ''initial'', policy_createdBy = 1\<rparr>"

definition recharge_row :: "id \<Rightarrow> nat \<Rightarrow> id \<Rightarrow> int \<Rightarrow> ledger_entry" where
  "recharge_row i n account a =
     \<lparr>entry_id = i, entry_sequence = n, entry_account = account, entry_type = RECHARGE, amount = a,
      balanceBefore = 0, balanceAfter = a, entry_method = Some CASH, entry_external = None,
      entry_reason = None, entry_reference = None, reverses = None, refundReason = None,
      entry_createdBy = Some 1, entry_key = Some ''initial-load'', entry_hash = Some ''h''\<rparr>"

definition world :: db where
  "world = empty_db\<lparr>
     clients := [\<lparr>client_id = 10, client_active = True, automaticDispatchSearch = False\<rparr>],
     requests := [\<lparr>req_id = 20, req_publicId = 1, req_client = 10, req_service = LOCAL_DELIVERY,
       req_status = CREATED, req_externalReference = None, req_requestedAt = 0, req_cancelledAt = None\<rparr>],
     quotes := [\<lparr>quote_id = 30, quote_publicId = 7, quote_request = 20, quote_service = LOCAL_DELIVERY,
       quote_zone = 40, quote_distance = 1500, quote_amount = 500, quote_currency = ''MXN'',
       quote_status = Q_OFFERED, quote_createdAt = 0, quote_expiresAt = 100000, quote_acceptedAt = None,
       quote_expiredAt = None, quote_cancelledAt = None\<rparr>],
     zones_active := [40],
     providers := [\<lparr>prov_id = 51, prov_name = ''Fleet One'', prov_active = True, prov_createdAt = 0\<rparr>,
       \<lparr>prov_id = 52, prov_name = ''Fleet Two'', prov_active = True, prov_createdAt = 1\<rparr>],
     coverages := [\<lparr>cov_provider = 51, cov_zone = 40, cov_service = LOCAL_DELIVERY, cov_active = True\<rparr>,
       \<lparr>cov_provider = 52, cov_zone = 40, cov_service = LOCAL_DELIVERY, cov_active = True\<rparr>],
     drivers := [\<lparr>drv_id = 61, drv_user = 161, drv_displayName = Some ''Ana'', drv_provider = Some 51,
         drv_active = True, drv_userActive = True\<rparr>,
       \<lparr>drv_id = 62, drv_user = 162, drv_displayName = Some ''Luis'', drv_provider = None,
         drv_active = True, drv_userActive = True\<rparr>],
     profiles := [\<lparr>prof_id = 72, prof_driver = 62, prof_status = APPROVED\<rparr>],
     vehicles := [\<lparr>veh_id = 81, veh_provider = Some 51, veh_profile = None, veh_active = True\<rparr>,
       \<lparr>veh_id = 82, veh_provider = None, veh_profile = Some 72, veh_active = True\<rparr>],
     policies := [flat_policy 91 PROVIDER 5, flat_policy 92 INDEPENDENT_DRIVER 3],
     accounts := [\<lparr>acc_id = 101, acc_ownerType = PROVIDER, acc_provider = Some 51, acc_profile = None, balance = 20\<rparr>,
       \<lparr>acc_id = 102, acc_ownerType = PROVIDER, acc_provider = Some 52, acc_profile = None, balance = 20\<rparr>,
       \<lparr>acc_id = 103, acc_ownerType = INDEPENDENT_DRIVER, acc_provider = None, acc_profile = Some 72, balance = 20\<rparr>],
     ledger := [recharge_row 201 1 101 20, recharge_row 202 2 102 20, recharge_row 203 3 103 20],
     nextSequence := 4\<rparr>"

text \<open>The service accepted at 1000: its dispatch, open until 1801000, with frozen costs and two candidates.\<close>

definition open_row :: dispatch where
  "open_row =
     \<lparr>d_status = OPEN, d_expiresAt = 1801000, searchMaxAttempts = 1, searchAttempt = 1,
      searchStoppedReason = None, d_id = 500, d_request = 20, d_quote = 30, d_openedAt = 1000,
      claimedByProvider = None, claimedByIndependent = None, d_claimedAt = None, d_expiredAt = None,
      d_cancelledAt = None, d_deliveredAt = None, d_deliveredBy = None, creditMode = MONETIZED,
      searchWindowSeconds = None, d_identity = None\<rparr>"

definition offer_row :: "id \<Rightarrow> candidate" where
  "offer_row p =
     \<lparr>cand_dispatch = 500, cand_provider = p, cand_status = CAND_OFFERED, cand_offeredAt = 1000,
      cand_claimedAt = None, cand_releasedAt = None\<rparr>"

definition frozen_row :: "id \<Rightarrow> actor_type \<Rightarrow> id \<Rightarrow> int \<Rightarrow> snapshot" where
  "frozen_row i actor policy cost =
     \<lparr>snap_id = i, snap_dispatch = 500, snap_actor = actor, snap_policy = policy, snap_policyVersion = 1,
      snap_calculation = FLAT, snap_distance = 1500, snap_billableKm = None, snap_creditsPerKm = None,
      snap_minimumCredits = None, snap_calculatedCredits = None, snap_flatCredits = Some cost,
      snap_range = None, snap_credits = cost\<rparr>"

definition world_open :: db where
  "world_open = world\<lparr>
     quotes := map (\<lambda>q. q\<lparr>quote_status := Q_ACCEPTED, quote_acceptedAt := Some 1000\<rparr>) (quotes world),
     dispatches := [open_row], candidates := [offer_row 51, offer_row 52],
     snapshots := [frozen_row 1000 PROVIDER 91 5, frozen_row 1001 INDEPENDENT_DRIVER 92 3],
     nextId := 1002\<rparr>"

definition award_row :: "id \<Rightarrow> nat \<Rightarrow> id \<Rightarrow> int \<Rightarrow> id \<Rightarrow> ledger_entry" where
  "award_row i n account a user =
     \<lparr>entry_id = i, entry_sequence = n, entry_account = account, entry_type = SERVICE_AWARD, amount = - a,
      balanceBefore = 20, balanceAfter = 20 - a, entry_method = None, entry_external = None,
      entry_reason = None, entry_reference = Some 500, reverses = None, refundReason = None,
      entry_createdBy = Some user, entry_key = None, entry_hash = None\<rparr>"

definition set_balance :: "id \<Rightarrow> int \<Rightarrow> credit_account list \<Rightarrow> credit_account list" where
  "set_balance i b = map (\<lambda>a. if acc_id a = i then a\<lparr>balance := b\<rparr> else a)"

text \<open>Claimed by the first fleet at 2000, its driver and vehicle assigned at 3000, delivered at 4000.\<close>

definition world_claimed :: db where
  "world_claimed = world_open\<lparr>
     dispatches := [open_row\<lparr>d_status := CLAIMED, claimedByProvider := Some 51, d_claimedAt := Some 2000\<rparr>],
     candidates := [(offer_row 51)\<lparr>cand_status := CAND_CLAIMED, cand_claimedAt := Some 2000\<rparr>, offer_row 52],
     accounts := set_balance 101 15 (accounts world_open),
     ledger := ledger world_open @ [award_row 1002 4 101 5 151], nextId := 1003, nextSequence := 5\<rparr>"

definition no_documents :: "id \<Rightarrow> id \<Rightarrow> db \<Rightarrow> nat option" where
  "no_documents i j s = None"

definition fleet_row :: assignment where
  "fleet_row =
     \<lparr>asg_id = 1003, asg_dispatch = 500, asg_mode = FLEET, asg_provider = Some 51, asg_profile = None,
      asg_driver = 61, asg_vehicle = 81, asg_status = ASG_ACTIVE, asg_assignedAt = 3000,
      asg_assignedBy = 151, asg_endedAt = None, asg_endedBy = None, asg_endReason = None\<rparr>"

definition world_assigned :: db where
  "world_assigned = world_claimed\<lparr>assignments := [fleet_row], nextId := 1004\<rparr>"

definition executed :: execution_identity where
  "executed = \<lparr>id_mode = ByProvider, id_provider = Some ''Fleet One'', id_driver = Some ''Ana''\<rparr>"

definition world_delivered :: db where
  "world_delivered = world_assigned\<lparr>
     dispatches := [open_row\<lparr>d_status := DELIVERED, claimedByProvider := Some 51, d_claimedAt := Some 2000,
       d_deliveredAt := Some 4000, d_deliveredBy := Some 151, d_identity := Some executed\<rparr>],
     assignments := [fleet_row\<lparr>asg_status := ASG_COMPLETED, asg_endedAt := Some 4000, asg_endedBy := Some 151\<rparr>],
     outbox := [\<lparr>ev_id = 1004, ev_client = 10, ev_request = 20, ev_dispatch = 500, ev_occurredAt = 4000,
       ev_payload = \<lparr>pay_publicId = 1, pay_externalReference = None, pay_status = B_DELIVERED,
         pay_execution = Some executed, pay_requestedAt = 0, pay_deliveredAt = Some 4000, pay_cancelledAt = None\<rparr>\<rparr>],
     nextId := 1005\<rparr>"

text \<open>Or taken by the independent driver at 2000.\<close>

definition world_taken :: db where
  "world_taken = world_open\<lparr>
     dispatches := [open_row\<lparr>d_status := CLAIMED, claimedByIndependent := Some 62, d_claimedAt := Some 2000\<rparr>],
     assignments := [fleet_row\<lparr>asg_id := 1002, asg_mode := INDEPENDENT, asg_provider := None,
       asg_profile := Some 72, asg_driver := 62, asg_vehicle := 82, asg_assignedAt := 2000, asg_assignedBy := 162\<rparr>],
     accounts := set_balance 103 17 (accounts world_open),
     ledger := ledger world_open @ [award_row 1003 4 103 3 162], nextId := 1004, nextSequence := 5\<rparr>"

text \<open>The same service with an automatic search of five rounds, its first window lapsed at 1801000.\<close>

definition search_row :: dispatch where
  "search_row = open_row\<lparr>searchMaxAttempts := 5, searchWindowSeconds := Some 1800\<rparr>"

definition world_search :: db where
  "world_search = world_open\<lparr>
     clients := [\<lparr>client_id = 10, client_active = True, automaticDispatchSearch = True\<rparr>],
     dispatches := [search_row]\<rparr>"

subsection \<open>What the handlers do on them\<close>

lemma world_accept:
  "accept_quote_handler 30 1000 500 7 10 world =
     (Inr (Accepted (hd (quotes world_open)) 500 [51, 52] (snapshots world_open)), world_open)"
  by code_simp

lemma world_claim:
  "snd (claim 2000 2000 2000 500 51 151 world_open) = world_claimed"
  by code_simp

lemma world_assign:
  "create_assignment no_documents 3000 500 61 81 51 151 world_claimed = (Inr 1003, world_assigned)"
  by code_simp

lemma world_take:
  "snd (take_dispatch no_documents 2000 2000 2000 162 500 82 world_open world_open) = world_taken"
  by code_simp

lemma world_complete:
  "snd (complete_by_provider 4000 4000 500 51 151 world_assigned) = world_delivered"
  by code_simp

lemma worlds_ok:
  "good world \<and> system_ok world_search"
  by code_simp

lemma world_good: "good world" and world_search_ok: "system_ok world_search"
  using worlds_ok by blast+

lemma world_steps:
  "system_step world world_open" "system_step world_open world_claimed" "system_step world_claimed world_assigned"
  "system_step world_assigned world_delivered" "system_step world_open world_taken"
  using system_step.accept [of world 30 1000 500 7 10] system_step.claim [of world_open 2000 2000 2000 500 51 151]
    system_step.assign [of world_claimed no_documents 3000 500 61 81 51 151]
    system_step.complete [of world_assigned 4000 4000 500 51 151]
    system_step.take [OF refl, of world_open no_documents 2000 2000 2000 162 500 82]
  by (simp_all add: world_accept world_claim world_assign world_complete world_take)

lemma worlds_reachable:
  "system_step\<^sup>*\<^sup>* world world_open" "system_step\<^sup>*\<^sup>* world world_assigned" "system_step\<^sup>*\<^sup>* world world_delivered"
  "system_step\<^sup>*\<^sup>* world world_taken"
  using world_steps by (meson rtranclp.rtrancl_into_rtrancl rtranclp.rtrancl_refl)+

lemma world_awards_good: "awards_good world"
proof -
  have "awards_ok world \<and> profile_keys_ok world" by code_simp
  with world_good show ?thesis by (simp add: awards_good_def)
qed


lemmas worlds_reached_ok = worlds_reachable [THEN reachable_system_ok, OF world_good]

subsection \<open>Witnesses\<close>

text \<open>The delivered service is reported with the provider and the driver that executed it.\<close>

lemma status_fields_agree_witness:
  "sv_execution (deliveryStatusView (hd (requests world_delivered)) 5000 world_delivered) \<noteq> None"
proof -
  have "sv_status (deliveryStatusView (hd (requests world_delivered)) 5000 world_delivered) = B_DELIVERED"
    by code_simp
  with status_fields_agree [OF worlds_reached_ok(3)] show ?thesis by blast
qed


text \<open>The first fleet paid five credits for the delivered service.\<close>

lemma money_follows_the_service_witness: "service_sum 101 500 (ledger world_delivered) = -5"
proof -
  let ?row = "hd (dispatches world_delivered)" and ?a = "hd (accounts world_delivered)"
  have f: "dispatches world_delivered = [?row] \<and> acc_id ?a = 101 \<and> accounts world_delivered = ?a # tl (accounts world_delivered)
      \<and> d_id ?row = 500 \<and> owes ?row 101 world_delivered \<and> price ?row world_delivered = 5"
    by code_simp
  then have "?row \<in> set (dispatches world_delivered)" "?a \<in> set (accounts world_delivered)"
    by (metis list.set_intros(1))+
  from money_follows_the_service [OF worlds_reachable(3) world_good this] f show ?thesis by simp
qed

lemma balances_are_the_ledger_witness:
  "\<exists>a \<in> set (accounts world_delivered). acc_id a = 101 \<and> balance a = account_sum 101 (ledger world_delivered)"
proof -
  let ?a = "hd (accounts world_delivered)"
  have f: "acc_id ?a = 101 \<and> accounts world_delivered = ?a # tl (accounts world_delivered)" by code_simp
  then have a: "?a \<in> set (accounts world_delivered)" by (metis list.set_intros(1))
  from balances_are_the_ledger [OF worlds_reachable(3) world_good a] f a show ?thesis by metis
qed

lemma one_winner_witness:
  "\<exists>row \<in> set (dispatches world_taken). claimedByIndependent row = Some 62 \<and> claimedByProvider row = None"
proof -
  let ?row = "hd (dispatches world_taken)"
  have f: "dispatches world_taken = [?row] \<and> claimedByIndependent ?row = Some 62" by code_simp
  then have r: "?row \<in> set (dispatches world_taken)" by (metis list.set_intros(1))
  from one_winner [OF worlds_reachable(4) world_good r] f r show ?thesis by auto
qed

lemma one_carrier_witness:
  "\<exists>row \<in> set (dispatches world_assigned). d_id row = 500 \<and> carried_by fleet_row row"
proof -
  have "assignments world_assigned = [fleet_row]" "active fleet_row" "asg_dispatch fleet_row = 500"
    by (simp_all add: world_assigned_def fleet_row_def)
  with one_carrier [OF worlds_reachable(2) world_good, of fleet_row fleet_row] show ?thesis by auto
qed

lemma events_announce_deliveries_witness:
  "\<exists>row \<in> set (dispatches world_delivered). d_id row = 500 \<and> d_status row = DELIVERED"
proof -
  have "outbox world_delivered \<noteq> [] \<and> ev_dispatch (hd (outbox world_delivered)) = 500" by code_simp
  with events_announce_deliveries [OF worlds_reachable(3) world_good] show ?thesis
    by (metis list.set_sel(1))
qed

lemma history_is_append_only_witness: "prefix (ledger world) (ledger world_delivered)"
  using history_is_append_only [OF worlds_reachable(3) world_good] by simp

definition per_km_policy :: credit_policy where
  "per_km_policy = (flat_policy 93 PROVIDER 5)\<lparr>policy_calculationType := PER_KM, creditsPerKm := Some 2,
     minimumCredits := Some 3, flatCredits := None\<rparr>"

text \<open>1500 metres are two kilometres begun, so four credits.\<close>

lemma per_km_cost:
  "map_sum id cost_credits (calculateCreditCost (policy_for_calculation.truncate per_km_policy) (Integral 1500)) = Inr 4"
  by code_simp

lemma snapshot_guard_recomputes_engine_witness:
  "\<exists>c. cost_credits c = 4 \<and> snapshot_matches (snapshot_of 500 PROVIDER 1500 per_km_policy c) per_km_policy"
proof -
  from per_km_cost obtain c where
    c: "calculateCreditCost (policy_for_calculation.truncate per_km_policy) (Integral 1500) = Inr c" "cost_credits c = 4"
    by (cases "calculateCreditCost (policy_for_calculation.truncate per_km_policy) (Integral 1500)") auto
  have "policy_complete per_km_policy" "0 < policy_version per_km_policy" "distinct (map position (policy_ranges per_km_policy))"
    by (simp_all add: policy_complete_def per_km_policy_def flat_policy_def MAX_POLICY_CREDITS_def MAX_CREDIT_MOVEMENT_def)
  from snapshot_guard_recomputes_engine [OF this c(1), of 500 PROVIDER] c(2) show ?thesis by auto
qed

text \<open>The claim of the first fleet at 2000 commits: its award, the first one, is paid.\<close>

lemma deferred_checks_never_refuse_witness:
  "commit_passes world_open world_claimed \<and> operational_awards world_claimed =
     [\<lparr>pre_dispatch = 500, pre_actorType = PROVIDER, pre_actorId = 51, pre_awardedAt = 2000\<rparr>]"
proof
  show "commit_passes world_open world_claimed"
    by (rule deferred_checks_never_refuse [OF worlds_reachable(1) world_awards_good world_steps(2)])
  show "operational_awards world_claimed =
     [\<lparr>pre_dispatch = 500, pre_actorType = PROVIDER, pre_actorId = 51, pre_awardedAt = 2000\<rparr>]"
    by code_simp
qed


lemma search_uses_up_its_rounds_witness:
  "\<exists>row row'. find_dispatch (Some 500) world_search = Some row \<and>
     find_dispatch (Some 500) (snd (advance False 1801000 1801000 500 20 world_search)) = Some row' \<and>
     rounds_left row' < rounds_left row"
proof -
  let ?r = "advance False 1801000 1801000 500 20 world_search"
  have "fst ?r = Inr (Advanced 2)" by code_simp
  then have "?r = (Inr (Advanced 2), snd ?r)" by (metis prod.collapse)
  from search_uses_up_its_rounds [OF world_search_ok this] show ?thesis by auto
qed

end
