(* ===== verification/Webhook_Targets.thy ===== *)
theory Webhook_Targets imports Mandaria_Prelude "HOL-Library.Word" begin

text \<open>
  Where Mandaria lets a webhook point (src/src/b2b-webhooks/webhook-target.ts): the numeric test of an
  IPv4 address, the expansion of an IPv6 address into its eight groups, and the two checks of an
  endpoint, one on its URL and one on the addresses its name resolves to. An address is the text that
  the URL parser or the resolver gave; \<open>isIP\<close> of node:net and the parsed \<open>URL\<close> are arguments. Shifts
  happen on \<open>32 word\<close>, as \<open>>>>\<close> does.
\<close>

unbundle bit_operations_syntax

subsection \<open>Text\<close>

fun split_on :: "char \<Rightarrow> string \<Rightarrow> string list" where
  "split_on c [] = [[]]"
| "split_on c (x # xs) =
     (if x = c then [] # split_on c xs else (x # hd (split_on c xs)) # tl (split_on c xs))"

definition is_digit :: "char \<Rightarrow> bool" where
  "is_digit c \<longleftrightarrow> 48 \<le> (of_char c :: nat) \<and> (of_char c :: nat) \<le> 57"

text \<open>\<open>Number\<close> of a part of an address; no part of an address is spelled in hexadecimal or with an exponent.\<close>

definition Number_part :: "string \<Rightarrow> int option" where
  "Number_part s = (if list_all is_digit s then Some (int (digits_value 0 s)) else None)"

definition hex_digit :: "char \<Rightarrow> nat option" where
  "hex_digit c =
     (let n = of_char c in
      if 48 \<le> n \<and> n \<le> 57 then Some (n - 48) else if 97 \<le> n \<and> n \<le> 102 then Some (n - 87)
      else if 65 \<le> n \<and> n \<le> 70 then Some (n - 55) else None)"

text \<open>\<open>Number.parseInt(g, 16)\<close>: the longest prefix of hexadecimal digits, NaN when there is none.\<close>

fun hex_value :: "nat \<Rightarrow> string \<Rightarrow> nat" where
  "hex_value acc [] = acc"
| "hex_value acc (c # cs) = (case hex_digit c of None \<Rightarrow> acc | Some d \<Rightarrow> hex_value (16 * acc + d) cs)"

definition parseHex :: "string \<Rightarrow> int option" where
  "parseHex s =
     (case s of [] \<Rightarrow> None | c # cs \<Rightarrow> (if hex_digit c = None then None else Some (int (hex_value 0 s))))"

definition hex_char :: "nat \<Rightarrow> char" where
  "hex_char d = char_of (if d < 10 then 48 + d else 87 + d)"

text \<open>\<open>toString(16)\<close> of a non-negative integer.\<close>

fun hexadecimal :: "nat \<Rightarrow> string" where
  "hexadecimal n = (if n < 16 then [hex_char n] else hexadecimal (n div 16) @ [hex_char (n mod 16)])"

declare hexadecimal.simps [simp del]

subsection \<open>IPv4\<close>

text \<open>The sum over the parts; a part that is no number makes it NaN.\<close>

definition ipv4 :: "string \<Rightarrow> int option" where
  "ipv4 s =
     foldl (\<lambda>acc part. case (acc, Number_part part) of (Some a, Some n) \<Rightarrow> Some (a * 256 + n) | _ \<Rightarrow> None)
       (Some 0) (split_on (CHR ''.'') s)"

text \<open>\<open>ToUint32\<close> of a number, which the operator \<open>>>>\<close> applies first.\<close>

definition uint32 :: "int option \<Rightarrow> 32 word" where
  "uint32 n = (case n of None \<Rightarrow> 0 | Some i \<Rightarrow> word_of_int i)"

definition inRange :: "32 word \<Rightarrow> string \<times> nat \<Rightarrow> bool" where
  "inRange n r \<longleftrightarrow> drop_bit (32 - snd r) n = drop_bit (32 - snd r) (uint32 (ipv4 (fst r)))"

definition forbidden_ranges :: "(string \<times> nat) list" where
  "forbidden_ranges =
     [(''0.0.0.0'', 8), (''10.0.0.0'', 8), (''100.64.0.0'', 10), (''127.0.0.0'', 8),
      (''169.254.0.0'', 16), (''172.16.0.0'', 12), (''192.0.0.0'', 24), (''192.0.2.0'', 24),
      (''192.168.0.0'', 16), (''198.18.0.0'', 15), (''198.51.100.0'', 24), (''203.0.113.0'', 24)]"

definition isForbiddenIpv4 :: "string \<Rightarrow> bool" where
  "isForbiddenIpv4 address \<longleftrightarrow>
     (let n = uint32 (ipv4 address) in
      list_ex (inRange n) forbidden_ranges \<or> drop_bit 28 n = 0xe \<or> drop_bit 28 n = 0xf)"

subsection \<open>IPv6\<close>

text \<open>The dotted quad at the end of an address, where there is one: \<open>(\d+\.\d+\.\d+\.\d+)$\<close>.\<close>

definition is_quad :: "string \<Rightarrow> bool" where
  "is_quad s \<longleftrightarrow> length (split_on (CHR ''.'') s) = 4 \<and>
     list_all (\<lambda>p. p \<noteq> [] \<and> list_all is_digit p) (split_on (CHR ''.'') s)"

fun quad_at_end :: "string \<Rightarrow> string \<Rightarrow> (string \<times> string) option" where
  "quad_at_end seen [] = None"
| "quad_at_end seen (c # cs) =
     (if is_quad (c # cs) then Some (seen, c # cs) else quad_at_end (seen @ [c]) cs)"

definition fold_quad :: "string \<Rightarrow> string" where
  "fold_quad value =
     (case quad_at_end [] value of
        None \<Rightarrow> value
      | Some (seen, quad) \<Rightarrow>
          (let n = uint32 (ipv4 quad) in
           seen @ hexadecimal (unat (drop_bit 16 n)) @ '':'' @ hexadecimal (unat (n AND 0xffff))))"

text \<open>\<open>text.split('::')\<close>\<close>

fun split_double_colon :: "string \<Rightarrow> string list" where
  "split_double_colon [] = [[]]"
| "split_double_colon [c] = [[c]]"
| "split_double_colon (c # d # cs) =
     (if c = CHR '':'' \<and> d = CHR '':'' then [] # split_double_colon cs
      else (c # hd (split_double_colon (d # cs))) # tl (split_double_colon (d # cs)))"

definition parse_groups :: "string \<Rightarrow> int option list" where
  "parse_groups part = (if part = [] then [] else map parseHex (split_on (CHR '':'') part))"

text \<open>
  With more than eight groups around \<open>::\<close> the source would ask for an array of negative length; no address
  with \<open>isIP\<close> 6 has them, and here the count refuses them.
\<close>

definition ipv6Groups :: "string \<Rightarrow> int list option" where
  "ipv6Groups value =
     (let parts = split_double_colon (fold_quad value) in
      if length parts > 2 then None
      else
        (let left = parse_groups (hd parts);
             right = (if length parts = 1 then [] else parse_groups (parts ! 1)) in
         if None \<in> set left \<or> None \<in> set right then None
         else
           (let l = List.map_filter id left; r = List.map_filter id right;
                groups = (if length parts = 1 then l else l @ replicate (8 - length l - length r) 0 @ r) in
            if length groups = 8 then Some groups else None)))"

definition zeroPrefix :: "int list \<Rightarrow> nat \<Rightarrow> bool" where
  "zeroPrefix g count \<longleftrightarrow> list_all (\<lambda>x. x = 0) (take count g)"

definition dotted :: "nat \<Rightarrow> nat \<Rightarrow> nat \<Rightarrow> nat \<Rightarrow> string" where
  "dotted a b c d = decimal a @ ''.'' @ decimal b @ ''.'' @ decimal c @ ''.'' @ decimal d"

definition forbidden_groups :: "int list \<Rightarrow> bool" where
  "forbidden_groups g \<longleftrightarrow>
     (if zeroPrefix g 7 \<and> (g ! 7 = 0 \<or> g ! 7 = 1) then True
      else if zeroPrefix g 5 \<and> (g ! 5 = 0xffff \<or> g ! 5 = 0) then
        isForbiddenIpv4 (dotted (nat (drop_bit 8 (g ! 6))) (nat (g ! 6 AND 0xff))
          (nat (drop_bit 8 (g ! 7))) (nat (g ! 7 AND 0xff)))
      else g ! 0 AND 0xfe00 = 0xfc00 \<or> g ! 0 AND 0xffc0 = 0xfe80 \<or> g ! 0 AND 0xff00 = 0xff00
        \<or> (g ! 0 = 0x64 \<and> g ! 1 = 0xff9b) \<or> (g ! 0 = 0x2001 \<and> g ! 1 = 0x0db8))"

text \<open>\<open>toLowerCase\<close> on the letters an address can have, and the brackets of a URL host.\<close>

definition lower :: "char \<Rightarrow> char" where
  "lower c = (if 65 \<le> (of_char c :: nat) \<and> (of_char c :: nat) \<le> 90 then char_of (of_char c + 32 :: nat) else c)"

definition strip_brackets :: "string \<Rightarrow> string" where
  "strip_brackets s =
     (let t = (if s \<noteq> [] \<and> hd s = CHR ''['' then tl s else s) in
      if t \<noteq> [] \<and> last t = CHR '']'' then butlast t else t)"

definition isForbiddenIpv6 :: "string \<Rightarrow> bool" where
  "isForbiddenIpv6 address \<longleftrightarrow>
     (let value = hd (split_on (CHR ''%'') (strip_brackets (map lower address))) in
      case ipv6Groups value of None \<Rightarrow> True | Some g \<Rightarrow> forbidden_groups g)"

definition isForbiddenAddress :: "(string \<Rightarrow> nat) \<Rightarrow> string \<Rightarrow> bool" where
  "isForbiddenAddress isIP address \<longleftrightarrow>
     (if isIP address = 6 then isForbiddenIpv6 address else isForbiddenIpv4 address)"

subsection \<open>Reading a dotted quad\<close>

lemma split_on_absent: "c \<notin> set xs \<Longrightarrow> split_on c xs = [xs]"
  by (induction xs) auto

lemma split_on_join: "c \<notin> set xs \<Longrightarrow> split_on c (xs @ c # ys) = xs # split_on c ys"
  by (induction xs) auto

lemma digit_char_code: "d < 10 \<Longrightarrow> of_char (digit_char d) = 48 + d"
  by simp

lemma digit_char_iff: "d < 10 \<Longrightarrow> is_digit (digit_char d)"
  by (simp add: is_digit_def)

lemma decimal_is_digits: "list_all is_digit (decimal n)"
  unfolding list_all_iff using decimal_digits digit_char_iff by blast

lemma not_digit [simp]: "\<not> is_digit (CHR ''.'')" "\<not> is_digit (CHR '':'')"
  by (simp_all add: is_digit_def)

lemma dot_not_in_decimal [simp]: "CHR ''.'' \<notin> set (decimal n)" "CHR '':'' \<notin> set (decimal n)"
  using decimal_is_digits [of n] by (auto simp: list_all_iff)

lemma decimal_nonempty [simp]: "decimal n \<noteq> []"
  by (subst decimal.simps) auto

lemma Number_decimal [simp]: "Number_part (decimal n) = Some (int n)"
  by (simp add: Number_part_def decimal_is_digits digits_value_decimal)

lemma split_dotted: "split_on (CHR ''.'') (dotted a b c d) = [decimal a, decimal b, decimal c, decimal d]"
  by (simp add: dotted_def split_on_join split_on_absent)

definition quad_value :: "nat \<Rightarrow> nat \<Rightarrow> nat \<Rightarrow> nat \<Rightarrow> int" where
  "quad_value a b c d = ((int a * 256 + int b) * 256 + int c) * 256 + int d"

lemma ipv4_dotted: "ipv4 (dotted a b c d) = Some (quad_value a b c d)"
  by (simp add: ipv4_def split_dotted quad_value_def)

lemma uint32_bits:
  assumes "0 \<le> x" "x < 2 ^ 32"
  shows "uint (drop_bit k (uint32 (Some x))) = x div 2 ^ k"
proof -
  have "uint (word_of_int x :: 32 word) = x"
    using assms by (simp add: uint_word_of_int)
  then show ?thesis
    using assms by (simp only: uint32_def option.case unsigned_drop_bit_eq)
      (simp add: take_bit_int_eq_self drop_bit_eq_div)
qed

lemma uint32_bits_eq:
  assumes "0 \<le> x" "x < 2 ^ 32" "0 \<le> y" "y < 2 ^ 32"
  shows "drop_bit k (uint32 (Some x)) = drop_bit k (uint32 (Some y)) \<longleftrightarrow> x div 2 ^ k = y div 2 ^ k"
  by (metis assms uint32_bits word_uint_eq_iff)

lemma quad_value_range:
  assumes "a < 256" "b < 256" "c < 256" "d < 256"
  shows "0 \<le> quad_value a b c d" "quad_value a b c d < 2 ^ 32"
  using assms by (simp_all add: quad_value_def)

lemma inRange_iff:
  assumes "a < 256" "b < 256" "c < 256" "d < 256" "ipv4 s = Some y" "0 \<le> y" "y < 2 ^ 32"
  shows "inRange (uint32 (Some (quad_value a b c d))) (s, bits) \<longleftrightarrow>
    quad_value a b c d div 2 ^ (32 - bits) = y div 2 ^ (32 - bits)"
  using uint32_bits_eq [OF quad_value_range [OF assms(1-4)] assms(6,7)] by (simp add: inRange_def assms(5))

lemma literal_ranges:
  "ipv4 ''0.0.0.0'' = Some 0" "ipv4 ''10.0.0.0'' = Some 167772160" "ipv4 ''100.64.0.0'' = Some 1681915904"
  "ipv4 ''127.0.0.0'' = Some 2130706432" "ipv4 ''169.254.0.0'' = Some 2851995648"
  "ipv4 ''172.16.0.0'' = Some 2886729728" "ipv4 ''192.0.0.0'' = Some 3221225472"
  "ipv4 ''192.0.2.0'' = Some 3221225984" "ipv4 ''192.168.0.0'' = Some 3232235520"
  "ipv4 ''198.18.0.0'' = Some 3323068416" "ipv4 ''198.51.100.0'' = Some 3325256704"
  "ipv4 ''203.0.113.0'' = Some 3405803776"
  by code_simp+

lemma quad_divs:
  assumes "a < 256" "b < 256" "c < 256" "d < 256"
  shows "quad_value a b c d div 16777216 = int a"
    "quad_value a b c d div 4194304 = int a * 4 + int b div 64"
    "quad_value a b c d div 1048576 = int a * 16 + int b div 16"
    "quad_value a b c d div 131072 = int a * 128 + int b div 2"
    "quad_value a b c d div 65536 = int a * 256 + int b"
    "quad_value a b c d div 256 = (int a * 256 + int b) * 256 + int c"
    "quad_value a b c d div 268435456 = int a div 16"
  using assms by (simp_all add: quad_value_def)

text \<open>The addresses that are refused, by their four octets.\<close>

definition unroutable :: "nat \<Rightarrow> nat \<Rightarrow> nat \<Rightarrow> bool" where
  "unroutable a b c \<longleftrightarrow>
     a = 0 \<or> a = 10 \<or> (a = 100 \<and> 64 \<le> b \<and> b \<le> 127) \<or> a = 127 \<or> (a = 169 \<and> b = 254)
     \<or> (a = 172 \<and> 16 \<le> b \<and> b \<le> 31) \<or> (a = 192 \<and> b = 0 \<and> (c = 0 \<or> c = 2)) \<or> (a = 192 \<and> b = 168)
     \<or> (a = 198 \<and> (b = 18 \<or> b = 19)) \<or> (a = 198 \<and> b = 51 \<and> c = 100) \<or> (a = 203 \<and> b = 0 \<and> c = 113) \<or> 224 \<le> a"

lemma top_nibble:
  assumes "0 \<le> x" "x < 2 ^ 32" "0 \<le> k" "k < 16"
  shows "drop_bit 28 (uint32 (Some x)) = (word_of_int k :: 32 word) \<longleftrightarrow> x div 268435456 = k"
proof -
  have "uint (word_of_int k :: 32 word) = k"
    using assms by (simp add: uint_word_of_int)
  moreover have "uint (drop_bit 28 (uint32 (Some x))) = x div 268435456"
    using uint32_bits [OF assms(1,2), of 28] by simp
  ultimately show ?thesis
    by (simp only: word_uint_eq_iff)
qed

text \<open>Mixed-radix numbers are equal digit by digit.\<close>

lemma radix_eq:
  fixes x c m K :: int
  assumes "0 \<le> c" "c < m"
  shows "x * m + c = K \<longleftrightarrow> x = K div m \<and> c = K mod m"
  using assms by auto

lemma octet_digits:
  assumes "b < 256" "c < 256"
  shows "int a * 256 + int b = K \<longleftrightarrow> int a = K div 256 \<and> int b = K mod 256"
    "65536 * int a + int b * 256 + int c = K \<longleftrightarrow> int a = K div 256 div 256 \<and> int b = K div 256 mod 256 \<and> int c = K mod 256"
    "int a * 4 + int b div 64 = K \<longleftrightarrow> int a = K div 4 \<and> int b div 64 = K mod 4"
    "int a * 16 + int b div 16 = K \<longleftrightarrow> int a = K div 16 \<and> int b div 16 = K mod 16"
    "int a * 128 + int b div 2 = K \<longleftrightarrow> int a = K div 128 \<and> int b div 2 = K mod 128"
proof -
  have b: "0 \<le> int b" "int b < 256" and c: "0 \<le> int c" "int c < 256"
    using assms by simp_all
  show ab: "int a * 256 + int b = K \<longleftrightarrow> int a = K div 256 \<and> int b = K mod 256" for K
    by (rule radix_eq [OF b])
  have "(int a * 256 + int b) * 256 + int c = K \<longleftrightarrow> int a * 256 + int b = K div 256 \<and> int c = K mod 256"
    by (rule radix_eq [OF c])
  moreover have "65536 * int a + int b * 256 + int c = (int a * 256 + int b) * 256 + int c"
    by algebra
  ultimately show "65536 * int a + int b * 256 + int c = K \<longleftrightarrow>
      int a = K div 256 div 256 \<and> int b = K div 256 mod 256 \<and> int c = K mod 256"
    by (simp only: ab conj_assoc)
  have slices: "0 \<le> int b div 64" "int b div 64 < 4" "0 \<le> int b div 16" "int b div 16 < 16"
    "0 \<le> int b div 2" "int b div 2 < 128"
    using b by simp_all
  show "int a * 4 + int b div 64 = K \<longleftrightarrow> int a = K div 4 \<and> int b div 64 = K mod 4"
    "int a * 16 + int b div 16 = K \<longleftrightarrow> int a = K div 16 \<and> int b div 16 = K mod 16"
    "int a * 128 + int b div 2 = K \<longleftrightarrow> int a = K div 128 \<and> int b div 2 = K mod 128"
    using slices by (simp_all only: radix_eq)
qed

lemma octet_slices:
  "int b div 64 = 1 \<longleftrightarrow> 64 \<le> b \<and> b \<le> 127"
  "int b div 16 = 1 \<longleftrightarrow> 16 \<le> b \<and> b \<le> 31"
  "int b div 2 = 9 \<longleftrightarrow> b = 18 \<or> b = 19"
  by auto

lemma octet_ranges:
  assumes "a < 256" "b < 256" "c < 256" "d < 256"
  shows "inRange (uint32 (Some (quad_value a b c d))) (''0.0.0.0'', 8) \<longleftrightarrow> a = 0"
    "inRange (uint32 (Some (quad_value a b c d))) (''10.0.0.0'', 8) \<longleftrightarrow> a = 10"
    "inRange (uint32 (Some (quad_value a b c d))) (''100.64.0.0'', 10) \<longleftrightarrow> a = 100 \<and> 64 \<le> b \<and> b \<le> 127"
    "inRange (uint32 (Some (quad_value a b c d))) (''127.0.0.0'', 8) \<longleftrightarrow> a = 127"
    "inRange (uint32 (Some (quad_value a b c d))) (''169.254.0.0'', 16) \<longleftrightarrow> a = 169 \<and> b = 254"
    "inRange (uint32 (Some (quad_value a b c d))) (''172.16.0.0'', 12) \<longleftrightarrow> a = 172 \<and> 16 \<le> b \<and> b \<le> 31"
    "inRange (uint32 (Some (quad_value a b c d))) (''192.0.0.0'', 24) \<longleftrightarrow> a = 192 \<and> b = 0 \<and> c = 0"
    "inRange (uint32 (Some (quad_value a b c d))) (''192.0.2.0'', 24) \<longleftrightarrow> a = 192 \<and> b = 0 \<and> c = 2"
    "inRange (uint32 (Some (quad_value a b c d))) (''192.168.0.0'', 16) \<longleftrightarrow> a = 192 \<and> b = 168"
    "inRange (uint32 (Some (quad_value a b c d))) (''198.18.0.0'', 15) \<longleftrightarrow> a = 198 \<and> (b = 18 \<or> b = 19)"
    "inRange (uint32 (Some (quad_value a b c d))) (''198.51.100.0'', 24) \<longleftrightarrow> a = 198 \<and> b = 51 \<and> c = 100"
    "inRange (uint32 (Some (quad_value a b c d))) (''203.0.113.0'', 24) \<longleftrightarrow> a = 203 \<and> b = 0 \<and> c = 113"
  using assms by (simp_all add: literal_ranges [THEN inRange_iff [OF assms]] quad_divs [OF assms]
      octet_digits [OF assms(2,3)] octet_slices)

lemma octet_top:
  assumes "a < 256" "b < 256" "c < 256" "d < 256"
  shows "drop_bit 28 (uint32 (Some (quad_value a b c d))) = 0xe \<or> drop_bit 28 (uint32 (Some (quad_value a b c d))) = 0xf
    \<longleftrightarrow> 224 \<le> a"
proof -
  note top = top_nibble [OF quad_value_range [OF assms], unfolded quad_divs(7) [OF assms]]
  have "drop_bit 28 (uint32 (Some (quad_value a b c d))) = 0xe \<longleftrightarrow> int a div 16 = 14"
    using top [of 14] by simp
  moreover have "drop_bit 28 (uint32 (Some (quad_value a b c d))) = 0xf \<longleftrightarrow> int a div 16 = 15"
    using top [of 15] by simp
  moreover have "int a div 16 = 14 \<or> int a div 16 = 15 \<longleftrightarrow> 224 \<le> a"
    using assms(1) by linarith
  ultimately show ?thesis
    by (simp only:)
qed

theorem ipv4_refused_by_octets:
  assumes "a < 256" "b < 256" "c < 256" "d < 256"
  shows "isForbiddenIpv4 (dotted a b c d) \<longleftrightarrow> unroutable a b c"
proof -
  have "list_ex (inRange (uint32 (Some (quad_value a b c d)))) forbidden_ranges \<or> 224 \<le> a \<longleftrightarrow> unroutable a b c"
    by (simp only: forbidden_ranges_def list_ex_Nil_iff list_ex_Cons_iff octet_ranges [OF assms] unroutable_def) argo
  then show ?thesis
    unfolding isForbiddenIpv4_def Let_def ipv4_dotted octet_top [OF assms] .
qed

subsection \<open>An IPv4 address wearing an IPv6 costume\<close>

lemma hex_char_digit: "d < 16 \<Longrightarrow> hex_digit (hex_char d) = Some d"
  by (auto simp: hex_digit_def hex_char_def Let_def)

lemma hex_char_plain:
  assumes "d < 16"
  shows "hex_char d \<noteq> CHR '':''" "hex_char d \<noteq> CHR ''.''" "hex_char d \<noteq> CHR ''%''" "hex_char d \<noteq> CHR '']''"
    "hex_char d \<noteq> CHR ''[''" "lower (hex_char d) = hex_char d"
proof -
  have "hex_digit (CHR '':'') = None" "hex_digit (CHR ''.'') = None" "hex_digit (CHR ''%'') = None"
    "hex_digit (CHR '']'') = None" "hex_digit (CHR ''['') = None"
    by (simp_all add: hex_digit_def Let_def)
  then show "hex_char d \<noteq> CHR '':''" "hex_char d \<noteq> CHR ''.''" "hex_char d \<noteq> CHR ''%''" "hex_char d \<noteq> CHR '']''"
    "hex_char d \<noteq> CHR ''[''"
    using hex_char_digit [OF assms] by (metis option.distinct(1))+
  show "lower (hex_char d) = hex_char d"
    using assms by (auto simp: lower_def hex_char_def)
qed

lemma hexadecimal_digits: "c \<in> set (hexadecimal n) \<Longrightarrow> \<exists>d < 16. c = hex_char d"
proof (induction n rule: hexadecimal.induct)
  case (1 n)
  then show ?case
    by (subst (asm) (2) hexadecimal.simps) (auto split: if_splits intro: exI [where x = "n mod 16"])
qed

lemma hex_value_append:
  "(\<And>c. c \<in> set xs \<Longrightarrow> hex_digit c \<noteq> None) \<Longrightarrow> hex_value acc (xs @ ys) = hex_value (hex_value acc xs) ys"
proof (induction xs arbitrary: acc)
  case (Cons c cs)
  then obtain d where "hex_digit c = Some d" by fastforce
  with Cons show ?case by simp
qed simp

lemma hex_value_hexadecimal: "hex_value 0 (hexadecimal n) = n"
proof (induction n rule: hexadecimal.induct)
  case (1 n)
  show ?case
  proof (cases "n < 16")
    case True
    then show ?thesis by (subst hexadecimal.simps) (simp add: hex_char_digit)
  next
    case False
    have "hex_value 0 (hexadecimal (n div 16) @ [hex_char (n mod 16)]) =
        hex_value (hex_value 0 (hexadecimal (n div 16))) [hex_char (n mod 16)]"
      by (rule hex_value_append) (use hexadecimal_digits hex_char_digit in fastforce)
    also have "\<dots> = n"
      using 1 [OF False] by (simp add: hex_char_digit)
    finally show ?thesis
      using False by (subst hexadecimal.simps) simp
  qed
qed

lemma hexadecimal_nonempty [simp]: "hexadecimal n \<noteq> []"
  by (subst hexadecimal.simps) auto

lemma parseHex_hexadecimal [simp]: "parseHex (hexadecimal n) = Some (int n)"
proof -
  obtain c cs where h: "hexadecimal n = c # cs"
    by (meson hexadecimal_nonempty list.exhaust)
  then have "hex_digit c \<noteq> None"
    using hexadecimal_digits [of c n] hex_char_digit by fastforce
  then show ?thesis
    using hex_value_hexadecimal [of n] by (simp add: parseHex_def h del: hex_value.simps)
qed

lemma hexadecimal_plain [simp]:
  "CHR '':'' \<notin> set (hexadecimal n)" "CHR ''%'' \<notin> set (hexadecimal n)" "CHR ''.'' \<notin> set (hexadecimal n)"
  "CHR '']'' \<notin> set (hexadecimal n)" "map lower (hexadecimal n) = hexadecimal n"
  using hexadecimal_digits [of _ n] hex_char_plain by (fastforce intro: map_idI)+

fun spaced :: "string \<Rightarrow> bool" where
  "spaced (c # d # cs) \<longleftrightarrow> \<not> (c = CHR '':'' \<and> d = CHR '':'') \<and> spaced (d # cs)"
| "spaced cs \<longleftrightarrow> True"

lemma split_double_spaced: "spaced xs \<Longrightarrow> split_double_colon xs = [xs]"
  by (induction xs rule: split_double_colon.induct) auto

lemma spaced_absent: "CHR '':'' \<notin> set xs \<Longrightarrow> spaced xs"
  by (induction xs rule: spaced.induct) auto

lemma spaced_join:
  "CHR '':'' \<notin> set xs \<Longrightarrow> spaced ys \<Longrightarrow> ys \<noteq> [] \<Longrightarrow> hd ys \<noteq> CHR '':'' \<Longrightarrow> spaced (xs @ CHR '':'' # ys)"
  by (induction xs rule: spaced.induct) (auto simp: neq_Nil_conv)

lemma hd_hexadecimal [simp]: "hd (hexadecimal n) \<noteq> CHR '':''"
  by (metis hd_in_set hexadecimal_nonempty hexadecimal_plain(1))

definition mapped_tail :: "nat \<Rightarrow> nat \<Rightarrow> string" where
  "mapped_tail hi lo = ''ffff'' @ CHR '':'' # hexadecimal hi @ CHR '':'' # hexadecimal lo"

lemma spaced_mapped_tail: "spaced (mapped_tail hi lo)"
  unfolding mapped_tail_def by (intro spaced_join) (auto simp: spaced_absent)

lemma split_mapped: "split_double_colon (''::'' @ mapped_tail hi lo) = [[], mapped_tail hi lo]"
  using split_double_spaced [OF spaced_mapped_tail] by simp

lemma parse_mapped_tail: "parse_groups (mapped_tail hi lo) = [Some 65535, Some (int hi), Some (int lo)]"
proof -
  have "split_on (CHR '':'') (mapped_tail hi lo) = [''ffff'', hexadecimal hi, hexadecimal lo]"
    unfolding mapped_tail_def by (subst split_on_join; simp add: split_on_join split_on_absent)
  moreover have "parseHex ''ffff'' = Some 65535"
    by (simp add: parseHex_def hex_digit_def Let_def)
  moreover have "mapped_tail hi lo \<noteq> []"
    by (simp add: mapped_tail_def)
  ultimately show ?thesis
    by (simp add: parse_groups_def)
qed

lemma groups_mapped:
  assumes "fold_quad value = ''::'' @ mapped_tail hi lo"
  shows "ipv6Groups value = Some [0, 0, 0, 0, 0, 65535, int hi, int lo]"
proof -
  have "List.map_filter id [Some 65535, Some (int hi), Some (int lo)] = [65535, int hi, int lo]"
    "replicate 5 (0::int) = [0, 0, 0, 0, 0]"
    by (simp_all add: map_filter_simps numeral_eq_Suc)
  moreover have "parse_groups [] = []" "List.map_filter id [] = []"
    by (simp_all add: parse_groups_def map_filter_simps)
  ultimately show ?thesis
    unfolding ipv6Groups_def assms split_mapped Let_def by (simp add: parse_mapped_tail)
qed

lemma quad_needs_digits: "CHR ''.'' \<notin> set xs \<Longrightarrow> \<not> list_all is_digit xs \<Longrightarrow> \<not> is_quad (xs @ CHR ''.'' # ys)"
  by (simp add: is_quad_def split_on_join)

lemma quad_at_end_skip:
  "CHR ''.'' \<notin> set xs \<Longrightarrow> (xs = [] \<or> \<not> is_digit (last xs)) \<Longrightarrow> CHR ''.'' \<notin> set first \<Longrightarrow>
     quad_at_end seen (xs @ first @ CHR ''.'' # ys) = quad_at_end (seen @ xs) (first @ CHR ''.'' # ys)"
proof (induction xs arbitrary: seen)
  case (Cons c xs)
  have "\<not> list_all is_digit (c # xs @ first)"
    using Cons.prems(2) by (auto simp: list_all_iff split: if_splits)
  then have "\<not> is_quad ((c # xs @ first) @ CHR ''.'' # ys)"
    using Cons.prems by (intro quad_needs_digits) auto
  then show ?case
    using Cons by (auto split: if_splits)
qed simp

lemma is_quad_dotted: "is_quad (dotted a b c d)"
  by (simp add: is_quad_def split_dotted decimal_is_digits)

lemma quad_of_mapped: "quad_at_end [] (''::ffff:'' @ dotted a b c d) = Some (''::ffff:'', dotted a b c d)"
proof -
  have "quad_at_end [] (''::ffff:'' @ dotted a b c d) = quad_at_end ''::ffff:'' (dotted a b c d)"
    unfolding dotted_def using quad_at_end_skip [of "''::ffff:''" "decimal a" "[]"] by simp
  moreover have "dotted a b c d \<noteq> []"
    by (simp add: dotted_def)
  ultimately show ?thesis
    using is_quad_dotted by (metis list.exhaust quad_at_end.simps(2))
qed

lemma quad_halves:
  assumes "a < 256" "b < 256" "c < 256" "d < 256"
  shows "unat (drop_bit 16 (uint32 (Some (quad_value a b c d)))) = a * 256 + b"
    "unat (uint32 (Some (quad_value a b c d)) AND 0xffff) = c * 256 + d"
proof -
  note range = quad_value_range [OF assms]
  have "uint (drop_bit 16 (uint32 (Some (quad_value a b c d)))) = int (a * 256 + b)"
    using uint32_bits [OF range, of 16] quad_divs(5) [OF assms] by simp
  then show "unat (drop_bit 16 (uint32 (Some (quad_value a b c d)))) = a * 256 + b"
    by (metis nat_int unat_eq_nat_uint)
  have "uint (uint32 (Some (quad_value a b c d))) = quad_value a b c d"
    using uint32_bits [OF range, of 0] by simp
  then have "unat (uint32 (Some (quad_value a b c d))) = nat (quad_value a b c d)"
    by (metis unat_eq_nat_uint)
  moreover have "nat (quad_value a b c d) = (a * 256 + b) * 65536 + (c * 256 + d)"
    by (simp add: quad_value_def nat_add_distrib nat_mult_distrib)
  moreover have "unat (uint32 (Some (quad_value a b c d)) AND 0xffff) =
      unat (uint32 (Some (quad_value a b c d))) mod 65536"
  proof -
    have "(0xffff :: 32 word) = mask 16"
      by (simp add: mask_eq_exp_minus_1)
    then have "unat (uint32 (Some (quad_value a b c d)) AND 0xffff) =
        take_bit 16 (unat (uint32 (Some (quad_value a b c d))))"
      by (simp only: take_bit_eq_mask [symmetric] unsigned_take_bit_eq)
    then show ?thesis
      by (simp add: take_bit_eq_mod)
  qed
  ultimately show "unat (uint32 (Some (quad_value a b c d)) AND 0xffff) = c * 256 + d"
    using assms mod_mult_self3 [of "a * 256 + b" 65536 "c * 256 + d"] by simp
qed

lemma octets_of_group:
  assumes "b < 256"
  shows "nat (drop_bit 8 (int (a * 256 + b))) = a" "nat (int (a * 256 + b) AND 0xff) = b"
proof -
  show "nat (drop_bit 8 (int (a * 256 + b))) = a"
    using assms by (simp add: drop_bit_eq_div)
  have "(0xff :: int) = mask 8"
    by (simp add: mask_eq_exp_minus_1)
  then show "nat (int (a * 256 + b) AND 0xff) = b"
    using assms by (simp only: take_bit_eq_mask [symmetric]) (simp add: take_bit_eq_mod)
qed

lemma forbidden_mapped_groups:
  assumes "b < 256" "d < 256"
  shows "forbidden_groups [0, 0, 0, 0, 0, 65535, int (a * 256 + b), int (c * 256 + d)] =
    isForbiddenIpv4 (dotted a b c d)"
  unfolding forbidden_groups_def octets_of_group [OF assms(1)]
  by (simp add: zeroPrefix_def octets_of_group [OF assms(2)] octets_of_group [OF assms(1)] del: of_nat_add of_nat_mult)

lemma fold_mapped:
  assumes "a < 256" "b < 256" "c < 256" "d < 256"
  shows "fold_quad (''::ffff:'' @ dotted a b c d) = ''::'' @ mapped_tail (a * 256 + b) (c * 256 + d)"
  by (simp add: fold_quad_def quad_of_mapped ipv4_dotted quad_halves [OF assms] mapped_tail_def Let_def
      del: append_Cons)

lemma fold_plain:
  assumes "CHR ''.'' \<notin> set addr"
  shows "fold_quad addr = addr"
proof -
  have "quad_at_end seen addr = None" for seen
    using assms
  proof (induction addr arbitrary: seen)
    case (Cons c cs)
    then have "\<not> is_quad (c # cs)"
      unfolding is_quad_def by (subst split_on_absent) auto
    with Cons show ?case by simp
  qed simp
  then show ?thesis
    by (simp add: fold_quad_def)
qed

lemma clean_address:
  assumes "map lower t = t" "CHR ''%'' \<notin> set t" "CHR '']'' \<notin> set t"
  shows "hd (split_on (CHR ''%'') (strip_brackets (map lower (''::'' @ t)))) = ''::'' @ t"
proof -
  have "lower (CHR '':'') = CHR '':''"
    by (simp add: lower_def)
  then have "map lower (''::'' @ t) = ''::'' @ t"
    by (simp add: assms(1))
  moreover have "last (''::'' @ t) \<noteq> CHR '']''"
    using assms(3) by (cases t rule: rev_cases) auto
  ultimately have "strip_brackets (map lower (''::'' @ t)) = ''::'' @ t"
    by (simp add: strip_brackets_def Let_def)
  then show ?thesis
    using assms(2) by (simp add: split_on_absent)
qed

lemma digits_clean:
  assumes "list_all (\<lambda>c. is_digit c \<or> c = CHR ''.'') t"
  shows "map lower t = t" "CHR ''%'' \<notin> set t" "CHR '']'' \<notin> set t"
  using assms by (auto simp: list_all_iff is_digit_def lower_def intro!: map_idI dest!: bspec)

lemma dotted_digits: "list_all (\<lambda>c. is_digit c \<or> c = CHR ''.'') (dotted a b c d)"
  using decimal_is_digits by (auto simp: dotted_def list_all_iff)

lemma ffff_clean: "map lower ''ffff'' = ''ffff''" "lower (CHR '':'') = CHR '':''"
  by (simp_all add: lower_def)

text \<open>
  The two spellings of a mapped IPv4 address that a URL leaves, the quad and the two groups a URL parser
  rewrites it into, are refused exactly when the quad alone is.
\<close>

lemma mapped_address_is_its_quad:
  assumes "a < 256" "b < 256" "c < 256" "d < 256"
    and "spelling = ''::ffff:'' @ dotted a b c d \<or> spelling = ''::'' @ mapped_tail (a * 256 + b) (c * 256 + d)"
  shows "isForbiddenIpv6 spelling \<longleftrightarrow> isForbiddenIpv4 (dotted a b c d)"
proof -
  have "hd (split_on (CHR ''%'') (strip_brackets (map lower spelling))) = spelling"
    using assms(5)
  proof
    assume s: "spelling = ''::ffff:'' @ dotted a b c d"
    have "hd (split_on (CHR ''%'') (strip_brackets (map lower (''::'' @ ''ffff'' @ CHR '':'' # dotted a b c d)))) =
        ''::'' @ ''ffff'' @ CHR '':'' # dotted a b c d"
      using digits_clean [OF dotted_digits, of a b c d] by (intro clean_address) (simp_all add: ffff_clean [simplified])
    then show ?thesis
      by (simp add: s)
  next
    assume s: "spelling = ''::'' @ mapped_tail (a * 256 + b) (c * 256 + d)"
    show ?thesis
      unfolding s by (intro clean_address) (simp_all add: mapped_tail_def ffff_clean [simplified])
  qed
  moreover have "fold_quad spelling = ''::'' @ mapped_tail (a * 256 + b) (c * 256 + d)"
    using assms(5) fold_mapped [OF assms(1-4)] fold_plain [of "''::'' @ mapped_tail (a * 256 + b) (c * 256 + d)"]
    by (auto simp: mapped_tail_def)
  ultimately show ?thesis
    using groups_mapped forbidden_mapped_groups [OF assms(2,4)] ipv4_refused_by_octets [OF assms(1-4)]
    by (simp add: isForbiddenIpv6_def)
qed

subsection \<open>The two checks of an endpoint\<close>

datatype target_rejection =
  NOT_A_URL | SCHEME | CREDENTIALS | FRAGMENT | HOST | PRIVATE_HOST | TOO_LONG

record url_parts =
  url_protocol :: string
  url_username :: string
  url_password :: string
  url_hash :: string
  url_hostname :: string
  url_href :: string

text \<open>What the runtime answers: \<open>new URL(raw)\<close> and \<open>isIP\<close>.\<close>

record url_library =
  parseUrl :: "string \<Rightarrow> url_parts option"
  isIP :: "string \<Rightarrow> nat"

definition ends_with :: "string \<Rightarrow> string \<Rightarrow> bool" where
  "ends_with s t \<longleftrightarrow> length t \<le> length s \<and> drop (length s - length t) s = t"

definition forbidden_host :: "string \<Rightarrow> bool" where
  "forbidden_host host \<longleftrightarrow>
     list_ex (\<lambda>name. map lower host = name \<or> ends_with (map lower host) (CHR ''.'' # name))
       [''localhost'', ''local'', ''internal'', ''intranet'', ''home.arpa'']"

definition strip_final_dot :: "string \<Rightarrow> string" where
  "strip_final_dot s = (if s \<noteq> [] \<and> last s = CHR ''.'' then butlast s else s)"

definition parseWebhookTarget :: "url_library \<Rightarrow> bool \<Rightarrow> string \<Rightarrow> target_rejection + url_parts" where
  "parseWebhookTarget lib allowInsecureTargets raw =
     (if length raw > 2048 then Inl TOO_LONG
      else case parseUrl lib raw of
        None \<Rightarrow> Inl NOT_A_URL
      | Some url \<Rightarrow>
          (if url_protocol url \<noteq> ''https:'' \<and> \<not> (allowInsecureTargets \<and> url_protocol url = ''http:'') then Inl SCHEME
           else if url_username url \<noteq> [] \<or> url_password url \<noteq> [] then Inl CREDENTIALS
           else if url_hash url \<noteq> [] then Inl FRAGMENT
           else
             (let host = strip_final_dot (strip_brackets (url_hostname url)) in
              if host = [] then Inl HOST
              else if allowInsecureTargets then Inr url
              else if forbidden_host host then Inl HOST
              else if isIP lib host \<noteq> 0 \<and> isForbiddenAddress (isIP lib) host then Inl PRIVATE_HOST
              else Inr url)))"

definition assertResolvedAddresses :: "url_library \<Rightarrow> bool \<Rightarrow> string list \<Rightarrow> target_rejection option" where
  "assertResolvedAddresses lib allowInsecureTargets addresses =
     (if allowInsecureTargets then None
      else if addresses = [] then Some PRIVATE_HOST
      else if list_ex (isForbiddenAddress (isIP lib)) addresses then Some PRIVATE_HOST
      else None)"

end
