(* ===== verification/Webhook_Transport.thy ===== *)
theory Webhook_Transport imports Webhook_Targets Data_Model begin

text \<open>
  One attempt to hand an event to an endpoint (\<open>attemptWebhookDelivery\<close> of
  src/src/b2b-webhooks/webhook-transport.ts) and the signature contract of webhook-secret.ts. The
  network and the libraries are the fields of \<open>transport\<close>: the resolver, \<open>fetch\<close>, JSON, HMAC and the
  elapsed time. The function gives the outcome and the request it sent, if it sent one.
\<close>

datatype failure_kind = HTTP_STATUS | TIMEOUT | NETWORK | INVALID_ENDPOINT

datatype attempt_outcome =
  Succeeded (httpStatus: int) (durationMs: int)
| Failed (failureKind: failure_kind) (failureDetail: string) (failureStatus: "int option") (durationMs: int)

datatype http_answer = Responded int | Rejected string

record http_request =
  rq_url :: string
  rq_eventId :: id
  rq_timestamp :: int
  rq_signature :: "string option"
  rq_body :: string

record transport = url_library +
  resolver :: "string \<Rightarrow> string list option"
  fetcher :: "http_request \<Rightarrow> http_answer"
  stringify :: "outbox_event \<Rightarrow> string"
  hmac :: "string \<Rightarrow> string \<Rightarrow> string"
  elapsed :: int

subsection \<open>Details that are stored\<close>

definition is_break :: "char \<Rightarrow> bool" where
  "is_break c \<longleftrightarrow> of_char c \<in> {9, 10, 13 :: nat}"

definition printable_char :: "char \<Rightarrow> bool" where
  "printable_char c \<longleftrightarrow> 32 \<le> (of_char c :: nat) \<and> (of_char c :: nat) \<le> 126"

text \<open>\<open>replace(/[\r\n\t]+/g, ' ')\<close>: a run becomes one space.\<close>

fun collapse_breaks :: "bool \<Rightarrow> string \<Rightarrow> string" where
  "collapse_breaks inRun [] = []"
| "collapse_breaks inRun (c # cs) =
     (if is_break c then (if inRun then collapse_breaks True cs else CHR '' '' # collapse_breaks True cs)
      else c # collapse_breaks False cs)"

definition trim_spaces :: "string \<Rightarrow> string" where
  "trim_spaces s = rev (dropWhile (\<lambda>c. c = CHR '' '') (rev (dropWhile (\<lambda>c. c = CHR '' '') s)))"

definition sanitize :: "string \<Rightarrow> string" where
  "sanitize s =
     (let t = take 200 (trim_spaces (filter printable_char (collapse_breaks False s))) in
      if t = [] then ''UNKNOWN'' else t)"

fun reason_text :: "target_rejection \<Rightarrow> string" where
  "reason_text NOT_A_URL = ''NOT_A_URL''"
| "reason_text SCHEME = ''SCHEME''"
| "reason_text CREDENTIALS = ''CREDENTIALS''"
| "reason_text FRAGMENT = ''FRAGMENT''"
| "reason_text HOST = ''HOST''"
| "reason_text PRIVATE_HOST = ''PRIVATE_HOST''"
| "reason_text TOO_LONG = ''TOO_LONG''"

subsection \<open>The attempt\<close>

definition signedMessage :: "nat \<Rightarrow> string \<Rightarrow> string" where
  "signedMessage timestampSeconds rawBody = decimal timestampSeconds @ ''.'' @ rawBody"

definition signWebhook :: "(string \<Rightarrow> string \<Rightarrow> string) \<Rightarrow> string \<Rightarrow> nat \<Rightarrow> string \<Rightarrow> string" where
  "signWebhook mac secret timestampSeconds rawBody = ''v1='' @ mac secret (signedMessage timestampSeconds rawBody)"

definition check_target :: "transport \<Rightarrow> bool \<Rightarrow> string \<Rightarrow> string + url_parts" where
  "check_target net allowInsecureTargets url =
     (case parseWebhookTarget (url_library.truncate net) allowInsecureTargets url of
        Inl reason \<Rightarrow> Inl (reason_text reason)
      | Inr target \<Rightarrow>
          (let host = strip_brackets (url_hostname target) in
           if isIP net host \<noteq> 0 then Inr target
           else case resolver net host of
             None \<Rightarrow> Inl ''DNS_FAILED''
           | Some addresses \<Rightarrow>
               (case assertResolvedAddresses (url_library.truncate net) allowInsecureTargets addresses of
                  Some reason \<Rightarrow> Inl (reason_text reason)
                | None \<Rightarrow> Inr target)))"

definition attemptWebhookDelivery ::
  "transport \<Rightarrow> bool \<Rightarrow> instant \<Rightarrow> string option \<Rightarrow> string \<Rightarrow> outbox_event \<Rightarrow> attempt_outcome \<times> http_request option" where
  "attemptWebhookDelivery net allowInsecureTargets now secret url event =
     (let ms = max 0 (elapsed net) in
      case check_target net allowInsecureTargets url of
        Inl detail \<Rightarrow> (Failed INVALID_ENDPOINT (sanitize detail) None ms, None)
      | Inr target \<Rightarrow>
          (let rawBody = stringify net event;
               timestamp = now div 1000;
               request = \<lparr>rq_url = url_href target, rq_eventId = ev_id event, rq_timestamp = timestamp,
                 rq_signature = (case secret of None \<Rightarrow> None
                   | Some k \<Rightarrow> (if k = [] then None else Some (signWebhook (hmac net) k (nat timestamp) rawBody))),
                 rq_body = rawBody\<rparr> in
           case fetcher net request of
             Rejected name \<Rightarrow>
               (let timeout = (name = ''TimeoutError'' \<or> name = ''AbortError'') in
                (Failed (if timeout then TIMEOUT else NETWORK)
                   (sanitize (if timeout then ''TIMEOUT'' else if name = [] then ''NETWORK'' else name)) None ms,
                 Some request))
           | Responded status \<Rightarrow>
               (if 200 \<le> status \<and> status \<le> 299 then (Succeeded status ms, Some request)
                else (Failed HTTP_STATUS (''HTTP_'' @ decimal (nat status)) (Some status) ms, Some request))))"

subsection \<open>What an attempt guarantees\<close>

lemma sanitize_bounds: "1 \<le> length (sanitize s) \<and> length (sanitize s) \<le> 200"
  by (auto simp: sanitize_def Let_def Suc_le_eq)

text \<open>The shape the CHECK of an attempt row asks for.\<close>

fun outcome_ok :: "attempt_outcome \<Rightarrow> bool" where
  "outcome_ok (Succeeded status ms) \<longleftrightarrow> 200 \<le> status \<and> status \<le> 299 \<and> 0 \<le> ms"
| "outcome_ok (Failed kind detail status ms) \<longleftrightarrow>
     1 \<le> length detail \<and> length detail \<le> 200 \<and> (kind = HTTP_STATUS \<longleftrightarrow> status \<noteq> None)
     \<and> (\<forall>s \<in> set_option status. 100 \<le> s \<and> s \<le> 599) \<and> 0 \<le> ms"

text \<open>A failure by status never carries a 2xx.\<close>

fun honest :: "attempt_outcome \<Rightarrow> bool" where
  "honest (Succeeded _ _) \<longleftrightarrow> True"
| "honest (Failed _ _ status _) \<longleftrightarrow> (\<forall>s \<in> set_option status. \<not> (200 \<le> s \<and> s \<le> 299))"

lemma attempt_honest: "honest (fst (attemptWebhookDelivery net insecure now secret url event))"
  by (auto simp: attemptWebhookDelivery_def Let_def split: sum.splits http_answer.splits)

lemma attempt_outcome_ok:
  assumes "\<And>rq s. fetcher net rq = Responded s \<Longrightarrow> 100 \<le> s \<and> s \<le> 599"
  shows "outcome_ok (fst (attemptWebhookDelivery net insecure now secret url event))"
proof -
  have short: "s \<le> 599 \<Longrightarrow> length (decimal (nat s)) < 196" for s
    using decimal_length [of "nat s" 2] by (cases "nat s < 1000") auto
  have "s < 200 \<Longrightarrow> length (decimal (nat s)) < 196" for s
    by (rule short) simp
  then show ?thesis
    using assms sanitize_bounds short
    by (auto simp: attemptWebhookDelivery_def Let_def Suc_le_eq not_le split: sum.splits http_answer.splits
        dest!: assms)
qed

lemma check_target_passes:
  assumes "check_target net False url = Inr target"
    and ends: "\<And>h. isIP net h \<noteq> 0 \<Longrightarrow> strip_final_dot h = h"
  defines "host \<equiv> strip_brackets (url_hostname target)"
  shows "url_protocol target = ''https:''" "url_username target = []" "url_password target = []" "url_hash target = []"
    "isIP net host \<noteq> 0 \<Longrightarrow> \<not> isForbiddenAddress (isIP net) host"
    "isIP net host = 0 \<Longrightarrow> \<exists>addresses. resolver net host = Some addresses \<and> addresses \<noteq> []
      \<and> (\<forall>a \<in> set addresses. \<not> isForbiddenAddress (isIP net) a)"
  using assms(1) ends
  by (auto simp: check_target_def parseWebhookTarget_def assertResolvedAddresses_def Let_def host_def
      url_library.truncate_def list_ex_iff split: sum.splits option.splits if_splits)

text \<open>
  C15: Outside the local and test switch, a request only ever leaves for an https URL without embedded
  credentials whose literal address, or every address its name resolved to just before, is one
  Mandaria calls: never loopback, private or link-local space.
\<close>

theorem request_only_to_allowed_targets:
  assumes "attemptWebhookDelivery net False now secret url event = (outcome, Some request)"
    and "\<And>h. isIP net h \<noteq> 0 \<Longrightarrow> strip_final_dot h = h"
  shows "\<exists>target. parseUrl net url = Some target \<and> rq_url request = url_href target
    \<and> url_protocol target = ''https:'' \<and> url_username target = [] \<and> url_password target = []
    \<and> (let host = strip_brackets (url_hostname target) in
       if isIP net host \<noteq> 0 then \<not> isForbiddenAddress (isIP net) host
       else \<exists>addresses. resolver net host = Some addresses \<and> addresses \<noteq> []
         \<and> (\<forall>a \<in> set addresses. \<not> isForbiddenAddress (isIP net) a))"
proof -
  obtain target where t: "check_target net False url = Inr target" "rq_url request = url_href target"
    using assms(1) by (auto simp: attemptWebhookDelivery_def Let_def split: sum.splits http_answer.splits if_splits)
  then have "parseUrl net url = Some target"
    by (auto simp: check_target_def parseWebhookTarget_def Let_def url_library.truncate_def
        split: sum.splits option.splits if_splits)
  then show ?thesis
    using t(2) check_target_passes [OF t(1) assms(2)] by (auto simp: Let_def)
qed

definition sample_net :: transport where
  "sample_net =
     \<lparr>parseUrl = (\<lambda>u. if u = ''https://api.example.com/hook'' then Some \<lparr>url_protocol = ''https:'', url_username = [],
        url_password = [], url_hash = [], url_hostname = ''api.example.com'', url_href = u\<rparr> else None),
      isIP = (\<lambda>h. if h = dotted 8 8 4 4 then 4 else 0), resolver = (\<lambda>h. Some [dotted 8 8 4 4]),
      fetcher = (\<lambda>rq. Responded 204), stringify = (\<lambda>e. ''{}''), hmac = (\<lambda>k m. k @ m), elapsed = 12\<rparr>"

definition sample_event :: outbox_event where
  "sample_event =
     \<lparr>ev_id = 7, ev_client = 1, ev_request = 2, ev_dispatch = 3, ev_occurredAt = 1000,
      ev_payload = \<lparr>pay_publicId = 2, pay_externalReference = None, pay_status = B_DELIVERED, pay_execution = None,
        pay_requestedAt = 0, pay_deliveredAt = Some 1000, pay_cancelledAt = None\<rparr>\<rparr>"

lemma sample_target:
  "check_target sample_net False ''https://api.example.com/hook'' = Inr \<lparr>url_protocol = ''https:'', url_username = [],
     url_password = [], url_hash = [], url_hostname = ''api.example.com'', url_href = ''https://api.example.com/hook''\<rparr>"
proof -
  have "\<not> isForbiddenIpv4 (dotted 8 8 4 4)"
    by (simp add: ipv4_refused_by_octets unroutable_def)
  moreover have "dotted 8 8 4 4 \<noteq> ''api.example.com''"
    using dotted_digits [of 8 8 4 4] by (auto simp: is_digit_def list_all_iff)
  ultimately show ?thesis
    by (simp add: check_target_def parseWebhookTarget_def sample_net_def url_library.truncate_def Let_def
        strip_brackets_def strip_final_dot_def forbidden_host_def ends_with_def lower_def assertResolvedAddresses_def
        isForbiddenAddress_def)
qed

theorem request_only_to_allowed_targets_witness:
  "rq_url (the (snd (attemptWebhookDelivery sample_net False 5000 (Some ''k'') ''https://api.example.com/hook'' sample_event)))
     = ''https://api.example.com/hook''
   \<and> (\<exists>target. parseUrl sample_net ''https://api.example.com/hook'' = Some target \<and> url_protocol target = ''https:'')"
proof -
  obtain request where run: "attemptWebhookDelivery sample_net False 5000 (Some ''k'') ''https://api.example.com/hook'' sample_event
      = (Succeeded 204 12, Some request)" "rq_url request = ''https://api.example.com/hook''"
    by (simp add: attemptWebhookDelivery_def sample_target Let_def) (simp add: sample_net_def)
  have "strip_final_dot h = h" if "isIP sample_net h \<noteq> 0" for h
  proof -
    have "h = dotted 8 8 4 4"
      using that by (auto simp: sample_net_def split: if_splits)
    moreover have "last (dotted 8 8 4 4) \<noteq> CHR ''.''"
      by (metis decimal_nonempty dot_not_in_decimal(1) dotted_def last_appendR last_in_set append_is_Nil_conv)
    ultimately show ?thesis
      by (simp add: strip_final_dot_def)
  qed
  from request_only_to_allowed_targets [OF run(1) this] run show ?thesis
    by auto
qed

end
