(* ===== verification/Webhook_Policy.thy ===== *)
theory Webhook_Policy imports Webhook_Transport begin

text \<open>
  When a handover is tried again and when Mandaria stops (src/src/b2b-webhooks/webhook-retry-policy.ts),
  and how an operator reads it (webhook-operations.ts). The schedule alone bounds nothing: a worker may be
  late, and an administrator may rescue an exhausted handover or deliver it by hand.
\<close>

subsection \<open>The schedule\<close>

definition BACKOFF_MS :: "int list" where
  "BACKOFF_MS = [60000, 5 * 60000, 15 * 60000, 60 * 60000]"

definition MAX_ATTEMPTS :: nat where
  "MAX_ATTEMPTS = length BACKOFF_MS + 1"

definition backoffMs :: "nat \<Rightarrow> int option" where
  "backoffMs attemptsMade =
     (if 1 \<le> attemptsMade \<and> attemptsMade - 1 < length BACKOFF_MS then Some (BACKOFF_MS ! (attemptsMade - 1)) else None)"

datatype http_disposition = SUCCESS | RETRYABLE | TERMINAL

definition RETRYABLE_STATUS :: "int list" where
  "RETRYABLE_STATUS = [408, 425, 429]"

definition TERMINAL_STATUS :: "int list" where
  "TERMINAL_STATUS = [400, 401, 403, 404, 405, 409, 410, 422, 451]"

definition classifyStatus :: "int \<Rightarrow> http_disposition" where
  "classifyStatus status =
     (if 200 \<le> status \<and> status \<le> 299 then SUCCESS
      else if status \<in> set RETRYABLE_STATUS then RETRYABLE
      else if 500 \<le> status \<and> status \<le> 599 then RETRYABLE
      else if status \<in> set TERMINAL_STATUS then TERMINAL
      else TERMINAL)"

fun classifyFailure :: "failure_kind \<Rightarrow> http_disposition" where
  "classifyFailure INVALID_ENDPOINT = TERMINAL"
| "classifyFailure _ = RETRYABLE"

text \<open>\<open>disposition\<close> of b2b-webhooks.service.ts.\<close>

fun disposition :: "attempt_outcome \<Rightarrow> http_disposition" where
  "disposition (Succeeded _ _) = SUCCESS"
| "disposition (Failed HTTP_STATUS _ status _) =
     (case status of None \<Rightarrow> TERMINAL | Some code \<Rightarrow> (if code = 0 then TERMINAL else classifyStatus code))"
| "disposition (Failed kind _ _ _) = classifyFailure kind"

datatype handover_state = WH_PENDING | WH_DELIVERED | WH_EXHAUSTED

datatype next_step = NextDelivered | NextPending (nextAttemptAt: instant) | NextExhausted

fun step_state :: "next_step \<Rightarrow> handover_state" where
  "step_state NextDelivered = WH_DELIVERED"
| "step_state (NextPending _) = WH_PENDING"
| "step_state NextExhausted = WH_EXHAUSTED"

definition nextStep :: "http_disposition \<Rightarrow> nat \<Rightarrow> instant \<Rightarrow> next_step" where
  "nextStep disp attemptsMade now =
     (case disp of
        SUCCESS \<Rightarrow> NextDelivered
      | TERMINAL \<Rightarrow> NextExhausted
      | RETRYABLE \<Rightarrow>
          (case (if attemptsMade \<ge> MAX_ATTEMPTS then None else backoffMs attemptsMade) of
             None \<Rightarrow> NextExhausted
           | Some delay \<Rightarrow> NextPending (now + delay)))"

lemma MAX_ATTEMPTS_eq [simp]: "MAX_ATTEMPTS = 5"
  by (simp add: MAX_ATTEMPTS_def BACKOFF_MS_def)

lemma next_pending_iff:
  "nextStep disp n now = NextPending later \<longleftrightarrow>
     disp = RETRYABLE \<and> 1 \<le> n \<and> n \<le> 4 \<and> later = now + BACKOFF_MS ! (n - 1)"
  by (auto simp: nextStep_def backoffMs_def BACKOFF_MS_def split: http_disposition.splits option.splits if_splits)

end
