(* ===== verification/Webhook_Delivery.thy ===== *)
theory Webhook_Delivery imports Webhook_Policy Transaction_Steps begin

text \<open>
  Reliable delivery of the recorded events (src/src/b2b-webhooks/b2b-webhooks.service.ts and the
  \<open>rescue\<close> of webhook-operations.service.ts) with the guards of migrations 20260925000100,
  20260926000100 and 20260927000100. A handover is leased in one transaction, sent outside any, and
  recorded in another; what a worker holds in between is a \<open>leased\<close> value. \<open>now\<close> is the clock of the
  process and \<open>dbNow\<close> that of the database. Rows that tie in an ORDER BY are taken in table order.
\<close>

subsection \<open>Tables\<close>

record webhook_endpoint =
  ep_id :: id
  ep_client :: id
  ep_url :: string
  ep_enabled :: bool
  deliverFrom :: instant
  secretCiphertext :: "string option"

record webhook_delivery =
  wd_id :: id
  wd_event :: id
  wd_client :: id
  wd_endpoint :: id
  wd_state :: handover_state
  attemptCount :: nat
  wd_nextAttemptAt :: "instant option"
  leaseOwner :: "string option"
  leaseExpiresAt :: "instant option"
  lastAttemptAt :: "instant option"
  wd_deliveredAt :: "instant option"
  exhaustedAt :: "instant option"

record webhook_attempt =
  at_id :: id
  at_event :: id
  at_client :: id
  at_endpoint :: id
  at_url :: string
  attemptNumber :: "nat option"
  attemptedAt :: instant
  at_outcome :: attempt_outcome

record webhook_db =
  wb_events :: "outbox_event list"
  endpoints :: "webhook_endpoint list"
  handovers :: "webhook_delivery list"
  attempts :: "webhook_attempt list"
  wb_nextId :: id

datatype webhook_error =
  EVENT_NOT_FOUND
| ROW_NOT_FOUND
| WEBHOOK_DELIVERY_IN_PROGRESS
| WEBHOOK_DELIVERY_NOT_TRACKED
| WEBHOOK_ALREADY_DELIVERED
| B2B_WEBHOOK_DELIVERY_IMMUTABLE
| B2B_WEBHOOK_DELIVERY_INVALID
| WEBHOOK_CHECK
| WEBHOOK_UNIQUE
| CLIENT_NOT_FOUND
| ENDPOINT_NOT_FOUND
| TARGET_REFUSED target_rejection
| SECRET_REFUSED

type_synonym 'a wtx = "(webhook_error, webhook_db, 'a) tx"

subsection \<open>Writes and their guards\<close>

definition handover_check :: "webhook_delivery \<Rightarrow> bool" where
  "handover_check d \<longleftrightarrow>
     (wd_state d \<noteq> WH_PENDING \<or>
        wd_nextAttemptAt d \<noteq> None \<and> wd_deliveredAt d = None \<and> exhaustedAt d = None)
     \<and> (wd_state d \<noteq> WH_DELIVERED \<or>
        wd_deliveredAt d \<noteq> None \<and> attemptCount d \<ge> 1 \<and> wd_nextAttemptAt d = None \<and> exhaustedAt d = None)
     \<and> (wd_state d \<noteq> WH_EXHAUSTED \<or>
        exhaustedAt d \<noteq> None \<and> attemptCount d \<ge> 1 \<and> wd_nextAttemptAt d = None \<and> wd_deliveredAt d = None)
     \<and> (leaseOwner d = None \<longleftrightarrow> leaseExpiresAt d = None)
     \<and> (case leaseOwner d of None \<Rightarrow> True | Some w \<Rightarrow> 1 \<le> length w \<and> length w \<le> 100)
     \<and> (wd_state d = WH_PENDING \<or> leaseOwner d = None)
     \<and> (lastAttemptAt d \<noteq> None \<longleftrightarrow> attemptCount d > 0)"

definition handover_guard :: "webhook_delivery \<Rightarrow> webhook_delivery \<Rightarrow> webhook_error option" where
  "handover_guard old new =
     (if wd_id new \<noteq> wd_id old \<or> wd_event new \<noteq> wd_event old \<or> wd_client new \<noteq> wd_client old
        \<or> wd_endpoint new \<noteq> wd_endpoint old then Some B2B_WEBHOOK_DELIVERY_IMMUTABLE
      else if attemptCount new < attemptCount old then Some B2B_WEBHOOK_DELIVERY_INVALID
      else if wd_state old = WH_DELIVERED \<and> (wd_state new \<noteq> WH_DELIVERED \<or> wd_deliveredAt new \<noteq> wd_deliveredAt old)
        then Some B2B_WEBHOOK_DELIVERY_IMMUTABLE
      else None)"

definition find_handover :: "id \<Rightarrow> webhook_db \<Rightarrow> webhook_delivery option" where
  "find_handover i s = first_row (\<lambda>d. wd_id d = i) (handovers s)"

definition update_handover :: "id \<Rightarrow> (webhook_delivery \<Rightarrow> webhook_delivery) \<Rightarrow> unit wtx" where
  "update_handover i change s =
     (case find_handover i s of
        None \<Rightarrow> Inl ROW_NOT_FOUND
      | Some old \<Rightarrow>
          (case handover_guard old (change old) of
             Some e \<Rightarrow> Inl e
           | None \<Rightarrow>
               (if handover_check (change old)
                then Inr ((), s\<lparr>handovers := update_rows (\<lambda>d. wd_id d = i) change (handovers s)\<rparr>)
                else Inl WEBHOOK_CHECK)))"

definition insert_handover :: "webhook_delivery \<Rightarrow> unit wtx" where
  "insert_handover d s =
     (if \<not> handover_check d then Inl WEBHOOK_CHECK
      else if any_row (\<lambda>x. wd_id x = wd_id d \<or> wd_event x = wd_event d) (handovers s) then Inl WEBHOOK_UNIQUE
      else Inr ((), s\<lparr>handovers := handovers s @ [d]\<rparr>))"

definition attempt_check :: "webhook_attempt \<Rightarrow> bool" where
  "attempt_check a \<longleftrightarrow>
     8 \<le> length (at_url a) \<and> length (at_url a) \<le> 2048 \<and> outcome_ok (at_outcome a)
     \<and> (case attemptNumber a of None \<Rightarrow> True | Some n \<Rightarrow> n \<ge> 1)"

definition insert_attempt :: "webhook_attempt \<Rightarrow> unit wtx" where
  "insert_attempt a s =
     (if \<not> attempt_check a then Inl WEBHOOK_CHECK
      else if attemptNumber a \<noteq> None
        \<and> any_row (\<lambda>x. at_event x = at_event a \<and> attemptNumber x = attemptNumber a) (attempts s) then Inl WEBHOOK_UNIQUE
      else Inr ((), s\<lparr>attempts := attempts s @ [a]\<rparr>))"

definition fresh_webhook_id :: "id wtx" where
  "fresh_webhook_id s = Inr (wb_nextId s, s\<lparr>wb_nextId := wb_nextId s + 1\<rparr>)"

subsection \<open>Leasing\<close>

record leased =
  ls_id :: id
  ls_event :: id
  ls_client :: id
  ls_endpoint :: id
  ls_attemptCount :: nat
  ls_deliveredAt :: "instant option"
  ls_exhaustedAt :: "instant option"

definition earliest :: "('r \<Rightarrow> instant) \<Rightarrow> 'r list \<Rightarrow> 'r option" where
  "earliest key rows = (case sort_key key rows of [] \<Rightarrow> None | r # _ \<Rightarrow> Some r)"

definition find_endpoint :: "id \<Rightarrow> webhook_db \<Rightarrow> webhook_endpoint option" where
  "find_endpoint i s = first_row (\<lambda>p. ep_id p = i) (endpoints s)"

definition endpoint_of :: "id \<Rightarrow> webhook_db \<Rightarrow> webhook_endpoint option" where
  "endpoint_of client s = first_row (\<lambda>p. ep_client p = client) (endpoints s)"

definition usable :: "webhook_endpoint option \<Rightarrow> bool" where
  "usable p = (case p of None \<Rightarrow> False | Some e \<Rightarrow> ep_enabled e \<and> secretCiphertext e \<noteq> None)"

definition lease_free :: "instant \<Rightarrow> webhook_delivery \<Rightarrow> bool" where
  "lease_free dbNow d = (case leaseExpiresAt d of None \<Rightarrow> True | Some t \<Rightarrow> t \<le> dbNow)"

definition is_due :: "instant \<Rightarrow> webhook_db \<Rightarrow> webhook_delivery \<Rightarrow> bool" where
  "is_due dbNow s d \<longleftrightarrow>
     wd_state d = WH_PENDING \<and> (case wd_nextAttemptAt d of None \<Rightarrow> False | Some t \<Rightarrow> t \<le> dbNow)
     \<and> lease_free dbNow d \<and> usable (find_endpoint (wd_endpoint d) s)"

definition due_handover :: "instant \<Rightarrow> webhook_db \<Rightarrow> webhook_delivery option" where
  "due_handover dbNow s = earliest (\<lambda>d. the (wd_nextAttemptAt d)) (filter (is_due dbNow s) (handovers s))"

definition is_fresh :: "webhook_db \<Rightarrow> outbox_event \<Rightarrow> bool" where
  "is_fresh s e \<longleftrightarrow>
     (case endpoint_of (ev_client e) s of
        None \<Rightarrow> False
      | Some p \<Rightarrow> usable (Some p) \<and> deliverFrom p \<le> ev_occurredAt e)
     \<and> \<not> any_row (\<lambda>d. wd_event d = ev_id e) (handovers s)"

definition fresh_event :: "webhook_db \<Rightarrow> outbox_event option" where
  "fresh_event s = earliest ev_occurredAt (filter (is_fresh s) (wb_events s))"

definition leased_of :: "webhook_delivery \<Rightarrow> leased" where
  "leased_of d =
     \<lparr>ls_id = wd_id d, ls_event = wd_event d, ls_client = wd_client d, ls_endpoint = wd_endpoint d,
      ls_attemptCount = attemptCount d, ls_deliveredAt = None, ls_exhaustedAt = None\<rparr>"

text \<open>The state row of an event met for the first time, held by the worker that met it.\<close>

definition new_handover :: "id \<Rightarrow> outbox_event \<Rightarrow> id \<Rightarrow> string \<Rightarrow> instant \<Rightarrow> instant \<Rightarrow> webhook_delivery" where
  "new_handover i e p worker now expiresAt =
     \<lparr>wd_id = i, wd_event = ev_id e, wd_client = ev_client e, wd_endpoint = p, wd_state = WH_PENDING,
      attemptCount = 0, wd_nextAttemptAt = Some now, leaseOwner = Some worker, leaseExpiresAt = Some expiresAt,
      lastAttemptAt = None, wd_deliveredAt = None, exhaustedAt = None\<rparr>"

definition lease :: "string \<Rightarrow> int \<Rightarrow> instant \<Rightarrow> instant \<Rightarrow> leased option wtx" where
  "lease worker leaseMs now dbNow =
     bindT (readT (due_handover dbNow)) (\<lambda>due.
       case due of
         Some d \<Rightarrow>
           bindT (update_handover (wd_id d)
             (\<lambda>r. r\<lparr>leaseOwner := Some worker, leaseExpiresAt := Some (now + leaseMs)\<rparr>)) (\<lambda>_.
           returnT (Some (leased_of d)))
       | None \<Rightarrow>
           bindT (readT fresh_event) (\<lambda>fresh.
             case fresh of
               None \<Rightarrow> returnT None
             | Some e \<Rightarrow>
                 bindT (requireT (endpoint_of (ev_client e)) ROW_NOT_FOUND) (\<lambda>p.
                 bindT fresh_webhook_id (\<lambda>i.
                 bindT (insert_handover (new_handover i e (ep_id p) worker now (now + leaseMs))) (\<lambda>_.
                 returnT (Some (leased_of (new_handover i e (ep_id p) worker now (now + leaseMs)))))))))"

subsection \<open>Sending\<close>

datatype secret_error = NOT_CONFIGURED | UNREADABLE | OTHER_SECRET_ERROR

fun secret_detail :: "secret_error \<Rightarrow> string" where
  "secret_detail NOT_CONFIGURED = ''NOT_CONFIGURED''"
| "secret_detail UNREADABLE = ''UNREADABLE''"
| "secret_detail OTHER_SECRET_ERROR = ''SECRET''"

text \<open>\<open>decrypt\<close> is \<open>decryptSecret\<close> under the configured key, a cipher of node:crypto.\<close>

definition send ::
  "transport \<Rightarrow> bool \<Rightarrow> (string \<Rightarrow> secret_error + string) \<Rightarrow> instant \<Rightarrow> outbox_event \<Rightarrow> webhook_endpoint \<Rightarrow> attempt_outcome" where
  "send net insecure decrypt now event endpoint =
     (case secretCiphertext endpoint of
        None \<Rightarrow> fst (attemptWebhookDelivery net insecure now None (ep_url endpoint) event)
      | Some c \<Rightarrow>
          (case decrypt c of
             Inl e \<Rightarrow> Failed INVALID_ENDPOINT (secret_detail e) None 0
           | Inr secret \<Rightarrow> fst (attemptWebhookDelivery net insecure now (Some secret) (ep_url endpoint) event)))"

subsection \<open>Recording\<close>

definition recorded :: "leased \<Rightarrow> next_step \<Rightarrow> instant \<Rightarrow> webhook_delivery \<Rightarrow> webhook_delivery" where
  "recorded l step now d =
     d\<lparr>attemptCount := ls_attemptCount l + 1, lastAttemptAt := Some now, leaseOwner := None, leaseExpiresAt := None,
       wd_state := step_state step,
       wd_nextAttemptAt := (case step of NextPending t \<Rightarrow> Some t | _ \<Rightarrow> None),
       wd_deliveredAt := (if step = NextDelivered \<and> ls_deliveredAt l = None then Some now else wd_deliveredAt d),
       exhaustedAt := (if step = NextDelivered then None
         else if step = NextExhausted \<and> ls_exhaustedAt l = None then Some now else exhaustedAt d)\<rparr>"

text \<open>\<open>record\<close>: the attempt and the state it leads to, in one transaction.\<close>

definition record_attempt :: "leased \<Rightarrow> webhook_endpoint \<Rightarrow> attempt_outcome \<Rightarrow> instant \<Rightarrow> (id \<times> next_step) wtx" where
  "record_attempt l endpoint outcome now =
     (let attemptNo = ls_attemptCount l + 1;
          step = nextStep (disposition outcome) attemptNo now in
      bindT fresh_webhook_id (\<lambda>i.
      bindT (insert_attempt
        \<lparr>at_id = i, at_event = ls_event l, at_client = ls_client l, at_endpoint = ep_id endpoint, at_url = ep_url endpoint,
         attemptNumber = Some attemptNo, attemptedAt = now, at_outcome = outcome\<rparr>) (\<lambda>_.
      bindT (update_handover (ls_id l) (recorded l step now)) (\<lambda>_.
      returnT (i, step)))))"

text \<open>\<open>attempt\<close>: the rows it reads, the request (\<open>answer\<close>), the record.\<close>

definition attempt ::
  "(outbox_event \<Rightarrow> webhook_endpoint \<Rightarrow> attempt_outcome) \<Rightarrow> leased \<Rightarrow> instant \<Rightarrow> (id \<times> next_step) wtx" where
  "attempt answer l later =
     bindT (requireT (\<lambda>s. first_row (\<lambda>e. ev_id e = ls_event l) (wb_events s)) ROW_NOT_FOUND) (\<lambda>event.
     bindT (requireT (find_endpoint (ls_endpoint l)) ROW_NOT_FOUND) (\<lambda>endpoint.
     record_attempt l endpoint (answer event endpoint) later))"

text \<open>
  \<open>drain\<close>: one round for each element of \<open>ticks\<close>, which holds the clock of the process and of the
  database at the lease and the clock when the answer is recorded; a process that stops does fewer. The
  first component is the error that ended the pass, if one did.
\<close>

fun drain ::
  "(outbox_event \<Rightarrow> webhook_endpoint \<Rightarrow> attempt_outcome) \<Rightarrow> string \<Rightarrow> int \<Rightarrow> (instant \<times> instant \<times> instant) list \<Rightarrow>
     webhook_db \<Rightarrow> webhook_error option \<times> (id \<times> next_step) list \<times> webhook_db" where
  "drain answer worker leaseMs [] s = (None, [], s)"
| "drain answer worker leaseMs ((now, dbNow, later) # ticks) s =
     (case lease worker leaseMs now dbNow s of
        Inl e \<Rightarrow> (Some e, [], s)
      | Inr (None, s1) \<Rightarrow> (None, [], s1)
      | Inr (Some l, s1) \<Rightarrow>
          (case attempt answer l later s1 of
             Inl e \<Rightarrow> (Some e, [], s1)
           | Inr (result, s2) \<Rightarrow>
               (let (e, results, s3) = drain answer worker leaseMs ticks s2 in (e, result # results, s3))))"

subsection \<open>What an administrator can ask for\<close>

datatype skip_reason = NO_ENDPOINT | ENDPOINT_DISABLED | NO_SECRET

datatype deliver_start = Skip skip_reason | Tracked leased webhook_endpoint | Untracked outbox_event webhook_endpoint

text \<open>The row \<open>deliver\<close> keeps while the request is on its way, with the stamps the worker does not read.\<close>

definition held_row :: "outbox_event \<Rightarrow> webhook_endpoint \<Rightarrow> webhook_delivery \<Rightarrow> leased" where
  "held_row event endpoint d =
     \<lparr>ls_id = wd_id d, ls_event = ev_id event, ls_client = ev_client event, ls_endpoint = ep_id endpoint,
      ls_attemptCount = attemptCount d, ls_deliveredAt = wd_deliveredAt d, ls_exhaustedAt = exhaustedAt d\<rparr>"

text \<open>\<open>deliver\<close> up to the request: the reads, and the transaction that takes the lease.\<close>

definition deliver_begin :: "string \<Rightarrow> int \<Rightarrow> id \<Rightarrow> instant \<Rightarrow> deliver_start wtx" where
  "deliver_begin worker leaseMs eventId now =
     bindT (requireT (\<lambda>s. first_row (\<lambda>e. ev_id e = eventId) (wb_events s)) EVENT_NOT_FOUND) (\<lambda>event.
     bindT (readT (endpoint_of (ev_client event))) (\<lambda>found.
       case found of
         None \<Rightarrow> returnT (Skip NO_ENDPOINT)
       | Some endpoint \<Rightarrow>
           if \<not> ep_enabled endpoint then returnT (Skip ENDPOINT_DISABLED)
           else if secretCiphertext endpoint = None then returnT (Skip NO_SECRET)
           else
             bindT (readT (\<lambda>s. first_row (\<lambda>d. wd_event d = eventId) (handovers s))) (\<lambda>row.
               case row of
                 None \<Rightarrow> returnT (Untracked event endpoint)
               | Some d \<Rightarrow>
                   bindT (guardT (lease_free now d) WEBHOOK_DELIVERY_IN_PROGRESS) (\<lambda>_.
                   bindT (if wd_state d = WH_PENDING
                          then update_handover (wd_id d)
                            (\<lambda>r. r\<lparr>leaseOwner := Some worker, leaseExpiresAt := Some (now + leaseMs)\<rparr>)
                          else returnT ()) (\<lambda>_.
                   returnT (Tracked (held_row event endpoint d) endpoint))))))"

text \<open>The attempt of an event outside reliable delivery: recorded, and no state is created.\<close>

definition record_untracked :: "outbox_event \<Rightarrow> webhook_endpoint \<Rightarrow> attempt_outcome \<Rightarrow> instant \<Rightarrow> id wtx" where
  "record_untracked event endpoint outcome now =
     bindT fresh_webhook_id (\<lambda>i.
     bindT (insert_attempt
       \<lparr>at_id = i, at_event = ev_id event, at_client = ev_client event, at_endpoint = ep_id endpoint,
        at_url = ep_url endpoint, attemptNumber = None, attemptedAt = now, at_outcome = outcome\<rparr>) (\<lambda>_.
     returnT i))"

datatype rescue_outcome = Rescheduled nat | AlreadyPending

definition rescue :: "id \<Rightarrow> instant \<Rightarrow> rescue_outcome wtx" where
  "rescue eventId now =
     bindT (requireT (\<lambda>s. first_row (\<lambda>d. wd_event d = eventId) (handovers s)) WEBHOOK_DELIVERY_NOT_TRACKED) (\<lambda>d.
     bindT (guardT (wd_state d \<noteq> WH_DELIVERED) WEBHOOK_ALREADY_DELIVERED) (\<lambda>_.
     if wd_state d = WH_PENDING then returnT AlreadyPending
     else
       bindT (update_handover (wd_id d)
         (\<lambda>r. r\<lparr>wd_state := WH_PENDING, wd_nextAttemptAt := Some now, exhaustedAt := None, leaseOwner := None,
                leaseExpiresAt := None\<rparr>)) (\<lambda>_.
       returnT (Rescheduled (attemptCount d)))))"

subsection \<open>Configuration\<close>

definition endpoint_check :: "webhook_endpoint \<Rightarrow> bool" where
  "endpoint_check p \<longleftrightarrow> 8 \<le> length (ep_url p) \<and> length (ep_url p) \<le> 2048
     \<and> (take 7 (ep_url p) = ''http://'' \<or> take 8 (ep_url p) = ''https://'')"

text \<open>\<open>upsert\<close> of admin-b2b-webhooks.controller.ts; a new endpoint only delivers what happens from \<open>dbNow\<close> on.\<close>

definition upsertEndpoint ::
  "url_library \<Rightarrow> bool \<Rightarrow> bool \<Rightarrow> id \<Rightarrow> string \<Rightarrow> bool option \<Rightarrow> instant \<Rightarrow> webhook_endpoint wtx" where
  "upsertEndpoint lib insecure clientExists client url enabled dbNow =
     bindT (guardT clientExists CLIENT_NOT_FOUND) (\<lambda>_.
     case parseWebhookTarget lib insecure url of
       Inl reason \<Rightarrow> throwT (TARGET_REFUSED reason)
     | Inr _ \<Rightarrow>
         (let on = (case enabled of None \<Rightarrow> True | Some b \<Rightarrow> b) in
          bindT (readT (endpoint_of client)) (\<lambda>found.
            case found of
              Some p \<Rightarrow>
                (let q = p\<lparr>ep_url := url, ep_enabled := on\<rparr> in
                 bindT (guardT (endpoint_check q) WEBHOOK_CHECK) (\<lambda>_.
                 (\<lambda>s. Inr (q, s\<lparr>endpoints := update_rows (\<lambda>x. ep_id x = ep_id p) (\<lambda>_. q) (endpoints s)\<rparr>))))
            | None \<Rightarrow>
                bindT fresh_webhook_id (\<lambda>i.
                  let q = \<lparr>ep_id = i, ep_client = client, ep_url = url, ep_enabled = on, deliverFrom = dbNow,
                           secretCiphertext = None\<rparr> in
                  bindT (guardT (endpoint_check q) WEBHOOK_CHECK) (\<lambda>_.
                  (\<lambda>s. Inr (q, s\<lparr>endpoints := endpoints s @ [q]\<rparr>)))))))"

text \<open>\<open>issueSecret\<close>: \<open>encrypted\<close> is the generated secret under the configured key, or nothing without one.\<close>

definition issueSecret :: "id \<Rightarrow> string option \<Rightarrow> unit wtx" where
  "issueSecret client encrypted =
     bindT (requireT (endpoint_of client) ENDPOINT_NOT_FOUND) (\<lambda>p.
     case encrypted of
       None \<Rightarrow> throwT SECRET_REFUSED
     | Some c \<Rightarrow>
         (\<lambda>s. Inr ((), s\<lparr>endpoints := update_rows (\<lambda>x. ep_id x = ep_id p) (\<lambda>x. x\<lparr>secretCiphertext := Some c\<rparr>) (endpoints s)\<rparr>)))"

subsection \<open>How an operator reads it\<close>

datatype transport_state = Tracked_state handover_state | NO_DELIVERY

datatype no_delivery_reason = NO_ENDPOINT_YET | BEFORE_BOUNDARY | NOT_YET_PICKED_UP

record transport_view =
  tv_state :: transport_state
  tv_reason :: "no_delivery_reason option"
  tv_attemptCount :: nat
  tv_nextAttemptAt :: "instant option"
  tv_lastAttemptAt :: "instant option"
  tv_deliveredAt :: "instant option"
  tv_exhaustedAt :: "instant option"
  inFlight :: bool

definition transportOf :: "outbox_event \<Rightarrow> webhook_delivery option \<Rightarrow> webhook_endpoint option \<Rightarrow> instant \<Rightarrow> transport_view" where
  "transportOf event delivery endpoint now =
     (case delivery of
        Some d \<Rightarrow>
          \<lparr>tv_state = Tracked_state (wd_state d), tv_reason = None, tv_attemptCount = attemptCount d,
           tv_nextAttemptAt = wd_nextAttemptAt d, tv_lastAttemptAt = lastAttemptAt d, tv_deliveredAt = wd_deliveredAt d,
           tv_exhaustedAt = exhaustedAt d,
           inFlight = (case leaseExpiresAt d of None \<Rightarrow> False | Some t \<Rightarrow> t > now)\<rparr>
      | None \<Rightarrow>
          \<lparr>tv_state = NO_DELIVERY,
           tv_reason = Some (case endpoint of
               None \<Rightarrow> NO_ENDPOINT_YET
             | Some p \<Rightarrow> (if secretCiphertext p = None then NO_ENDPOINT_YET
                 else if ev_occurredAt event < deliverFrom p then BEFORE_BOUNDARY else NOT_YET_PICKED_UP)),
           tv_attemptCount = 0, tv_nextAttemptAt = None, tv_lastAttemptAt = None, tv_deliveredAt = None,
           tv_exhaustedAt = None, inFlight = False\<rparr>)"

datatype redelivery_outcome = RD_DELIVERED | RD_FAILED | RD_RESCHEDULED | RD_EXHAUSTED | RD_SKIPPED

text \<open>\<open>state\<close> is None for an untracked attempt.\<close>

fun redeliveryOutcome :: "(attempt_outcome \<times> handover_state option) option \<Rightarrow> redelivery_outcome" where
  "redeliveryOutcome None = RD_SKIPPED"
| "redeliveryOutcome (Some (Succeeded _ _, _)) = RD_DELIVERED"
| "redeliveryOutcome (Some (Failed _ _ _ _, Some WH_PENDING)) = RD_RESCHEDULED"
| "redeliveryOutcome (Some (Failed _ _ _ _, Some WH_EXHAUSTED)) = RD_EXHAUSTED"
| "redeliveryOutcome (Some (Failed _ _ _ _, _)) = RD_FAILED"

end
