(* ===== verification/Webhook_System.thy ===== *)
theory Webhook_System imports Webhook_Delivery begin

text \<open>
  The invariants of reliable delivery, over every interleaving of workers, administrators, crashes and
  new events: the tracked attempts of an event are numbered one after the other, the count of the state
  row is their number, and the row is DELIVERED exactly when one of them succeeded.
\<close>

subsection \<open>Invariants\<close>

definition tracked :: "id \<Rightarrow> webhook_db \<Rightarrow> webhook_attempt list" where
  "tracked e s = filter (\<lambda>a. at_event a = e \<and> attemptNumber a \<noteq> None) (attempts s)"

fun is_success :: "attempt_outcome \<Rightarrow> bool" where
  "is_success (Succeeded _ _) = True"
| "is_success (Failed _ _ _ _) = False"

definition ordinals :: "id \<Rightarrow> webhook_db \<Rightarrow> nat list" where
  "ordinals e s = map (\<lambda>a. the (attemptNumber a)) (tracked e s)"

definition accounted :: "webhook_db \<Rightarrow> webhook_delivery \<Rightarrow> bool" where
  "accounted s d \<longleftrightarrow>
     ordinals (wd_event d) s = [1..<Suc (attemptCount d)]
     \<and> (wd_state d = WH_DELIVERED \<longleftrightarrow> list_ex (\<lambda>a. is_success (at_outcome a)) (tracked (wd_event d) s))"

definition webhook_good :: "webhook_db \<Rightarrow> bool" where
  "webhook_good s \<longleftrightarrow>
     distinct (map wd_id (handovers s)) \<and> distinct (map wd_event (handovers s))
     \<and> list_all handover_check (handovers s) \<and> list_all (accounted s) (handovers s)
     \<and> list_all (\<lambda>d. wd_id d < wb_nextId s) (handovers s)
     \<and> list_all (\<lambda>a. attemptNumber a = None \<or> any_row (\<lambda>d. wd_event d = at_event a) (handovers s)) (attempts s)"

lemma webhook_goodD:
  assumes "webhook_good s"
  shows "distinct (map wd_id (handovers s))" "distinct (map wd_event (handovers s))"
    "\<And>d. d \<in> set (handovers s) \<Longrightarrow> handover_check d" "\<And>d. d \<in> set (handovers s) \<Longrightarrow> accounted s d"
    "\<And>d. d \<in> set (handovers s) \<Longrightarrow> wd_id d < wb_nextId s"
  using assms by (auto simp: webhook_good_def list_all_iff)

text \<open>What a worker or an administrator holds while the request is on its way.\<close>

definition job_ok :: "webhook_db \<Rightarrow> leased \<Rightarrow> bool" where
  "job_ok s l \<longleftrightarrow>
     any_row (\<lambda>d. wd_id d = ls_id l \<and> wd_event d = ls_event l \<and> ls_attemptCount l \<le> attemptCount d) (handovers s)"

lemma update_handover_Inr:
  assumes "update_handover i f s = Inr (u, s')"
  obtains old where "find_handover i s = Some old" "old \<in> set (handovers s)" "wd_id old = i"
    "handover_guard old (f old) = None" "handover_check (f old)"
    "s' = s\<lparr>handovers := update_rows (\<lambda>d. wd_id d = i) f (handovers s)\<rparr>"
proof -
  obtain old where "find_handover i s = Some old" "handover_guard old (f old) = None" "handover_check (f old)"
    "s' = s\<lparr>handovers := update_rows (\<lambda>d. wd_id d = i) f (handovers s)\<rparr>"
    using assms by (auto simp: update_handover_def split: option.splits if_splits)
  with that show thesis
    using first_row_Some [of "\<lambda>d. wd_id d = i"] by (auto simp: find_handover_def)
qed

lemma three_guards:
  "(if p then Some x else if q then Some y else if r then Some z else None) = None \<longleftrightarrow> \<not> p \<and> \<not> q \<and> \<not> r"
  by simp

lemma handover_guard_None:
  "handover_guard old new = None \<longleftrightarrow>
     wd_id new = wd_id old \<and> wd_event new = wd_event old \<and> wd_client new = wd_client old \<and> wd_endpoint new = wd_endpoint old
     \<and> attemptCount old \<le> attemptCount new
     \<and> (wd_state old = WH_DELIVERED \<longrightarrow> wd_state new = WH_DELIVERED \<and> wd_deliveredAt new = wd_deliveredAt old)"
  unfolding handover_guard_def three_guards de_Morgan_disj not_not not_less by argo

lemma updated_rows:
  assumes dist: "distinct (map wd_id (handovers s))" and old: "old \<in> set (handovers s)" "wd_id old = i"
  shows "set (update_rows (\<lambda>d. wd_id d = i) f (handovers s)) = insert (f old) (set (handovers s) - {old})"
proof -
  have only: "wd_id d = i \<longleftrightarrow> d = old" if "d \<in> set (handovers s)" for d
    using unique_key [OF dist that old(1)] old(2) by metis
  have "(\<lambda>d. if wd_id d = i then f d else d) ` set (handovers s) = (\<lambda>d. if d = old then f d else d) ` set (handovers s)"
    by (rule image_cong) (simp_all add: only)
  also have "\<dots> = insert (f old) (set (handovers s) - {old})"
    using old(1) by (auto simp: image_iff)
  finally show ?thesis
    unfolding set_update_rows .
qed

lemma updated_keys:
  assumes dist: "distinct (map wd_id (handovers s))" and old: "old \<in> set (handovers s)" "wd_id old = i"
    and g: "g (f old) = g old"
  shows "map g (update_rows (\<lambda>d. wd_id d = i) f (handovers s)) = map g (handovers s)"
proof (rule map_update_rows)
  fix d assume "d \<in> set (handovers s)" "wd_id d = i"
  then have "d = old" using unique_key [OF dist _ old(1)] old(2) by simp
  with g show "g (f d) = g d" by simp
qed

lemma tracked_more [simp]: "tracked e (s\<lparr>handovers := ds\<rparr>) = tracked e s" "tracked e (s\<lparr>wb_nextId := n\<rparr>) = tracked e s"
  by (simp_all add: tracked_def)

lemma accounted_more [simp]:
  "accounted (s\<lparr>handovers := ds\<rparr>) = accounted s" "accounted (s\<lparr>wb_nextId := n\<rparr>) = accounted s"
  by (auto simp: accounted_def ordinals_def fun_eq_iff)

text \<open>One row replaced by another about the same event, everything else as it was.\<close>

lemma update_keeps_good:
  assumes good: "distinct (map wd_id (handovers s))" "distinct (map wd_event (handovers s))"
      "list_all handover_check (handovers s)"
      "\<forall>d \<in> set (handovers s) - {old}. accounted s d" "list_all (\<lambda>d. wd_id d < wb_nextId s) (handovers s)"
      "list_all (\<lambda>a. attemptNumber a = None \<or> any_row (\<lambda>d. wd_event d = at_event a) (handovers s)) (attempts s)"
    and old: "old \<in> set (handovers s)" "wd_id old = i"
    and new: "wd_id (f old) = wd_id old" "wd_event (f old) = wd_event old" "handover_check (f old)" "accounted s (f old)"
  shows "webhook_good (s\<lparr>handovers := update_rows (\<lambda>d. wd_id d = i) f (handovers s)\<rparr>)"
proof -
  note rows = updated_rows [OF good(1) old, of f]
  have "\<exists>d \<in> insert (f old) (set (handovers s) - {old}). wd_event d = e" if "\<exists>d \<in> set (handovers s). wd_event d = e" for e
    using that new(2) by auto
  then show ?thesis
    using good new old updated_keys [OF good(1) old, where g = wd_id and f = f, OF new(1)]
      updated_keys [OF good(1) old, where g = wd_event and f = f, OF new(2)]
    by (auto simp: webhook_good_def list_all_iff rows any_row_iff)
qed

lemma update_keeps_job:
  assumes "distinct (map wd_id (handovers s))" "old \<in> set (handovers s)" "wd_id old = i"
    and "handover_guard old (f old) = None" "job_ok s l"
  shows "job_ok (s\<lparr>handovers := update_rows (\<lambda>d. wd_id d = i) f (handovers s)\<rparr>) l"
proof -
  obtain d where d: "d \<in> set (handovers s)" "wd_id d = ls_id l" "wd_event d = ls_event l" "ls_attemptCount l \<le> attemptCount d"
    using assms(5) by (auto simp: job_ok_def any_row_iff)
  show ?thesis
    using d assms(4) by (cases "d = old") (auto simp: job_ok_def any_row_iff updated_rows [OF assms(1-3)] handover_guard_None)
qed

text \<open>A write that neither counts an attempt nor changes whether the row is DELIVERED.\<close>

lemma housekeeping:
  assumes good: "webhook_good s" and run: "update_handover i f s = Inr (u, s')"
    and f: "\<And>d. find_handover i s = Some d \<Longrightarrow> attemptCount (f d) = attemptCount d \<and> (wd_state (f d) = WH_DELIVERED \<longleftrightarrow> wd_state d = WH_DELIVERED)"
  shows "webhook_good s'" "job_ok s l \<Longrightarrow> job_ok s' l"
proof -
  obtain old where old: "find_handover i s = Some old" "old \<in> set (handovers s)" "wd_id old = i" "handover_guard old (f old) = None"
    "handover_check (f old)" "s' = s\<lparr>handovers := update_rows (\<lambda>d. wd_id d = i) f (handovers s)\<rparr>"
    by (rule update_handover_Inr [OF run])
  have "accounted s (f old)"
    using webhook_goodD(4) [OF good old(2)] f [OF old(1)] old(4) by (simp add: accounted_def handover_guard_None)
  moreover have "wd_id (f old) = wd_id old" "wd_event (f old) = wd_event old"
    using old(4) unfolding handover_guard_None by blast+
  moreover note good [unfolded webhook_good_def]
  moreover have "\<forall>d \<in> set (handovers s) - {old}. accounted s d"
    using webhook_goodD(4) [OF good] by blast
  ultimately show "webhook_good s'"
    unfolding old(6) using old(2,3,5) by (intro update_keeps_good [where old = old]) blast+
  show "job_ok s l \<Longrightarrow> job_ok s' l"
    unfolding old(6) by (rule update_keeps_job [where old = old and f = f, OF webhook_goodD(1) [OF good] old(2,3,4)])
qed

subsection \<open>Every operation keeps them\<close>

lemma keeps_with_id: "webhook_good s \<Longrightarrow> webhook_good (s\<lparr>wb_nextId := Suc (wb_nextId s)\<rparr>)"
  by (auto simp: webhook_good_def list_all_iff less_Suc_eq)

lemma job_with_id [simp]: "job_ok (s\<lparr>wb_nextId := n\<rparr>) l = job_ok s l"
  by (simp add: job_ok_def)

lemma job_with_attempt [simp]: "job_ok (s\<lparr>attempts := as\<rparr>) l = job_ok s l"
  by (simp add: job_ok_def)

text \<open>An attempt recorded under the ordinal after the leased count takes the next free ordinal.\<close>

lemma insert_attempt_Inr:
  "insert_attempt a s = Inr (u, s') \<longleftrightarrow>
     attempt_check a \<and> s' = s\<lparr>attempts := attempts s @ [a]\<rparr>
     \<and> (attemptNumber a = None \<or> \<not> any_row (\<lambda>x. at_event x = at_event a \<and> attemptNumber x = attemptNumber a) (attempts s))"
  by (auto simp: insert_attempt_def)

lemma ordinal_taken:
  "any_row (\<lambda>x. at_event x = e \<and> attemptNumber x = Some n) (attempts s) \<longleftrightarrow> n \<in> set (ordinals e s)"
  by (force simp: any_row_iff ordinals_def tracked_def)

lemma next_ordinal:
  assumes "accounted s d" "wd_event d = e" "m \<le> attemptCount d" "Suc m \<notin> set (ordinals e s)"
  shows "m = attemptCount d"
  using assms by (auto simp: accounted_def)

lemma tracked_append:
  "tracked e (s\<lparr>attempts := attempts s @ [a]\<rparr>) =
     tracked e s @ (if at_event a = e \<and> attemptNumber a \<noteq> None then [a] else [])"
  by (simp add: tracked_def)

lemma accounted_other:
  assumes "accounted s d" "at_event a \<noteq> wd_event d \<or> attemptNumber a = None"
  shows "accounted (s\<lparr>attempts := attempts s @ [a]\<rparr>) d"
proof -
  have "tracked (wd_event d) (s\<lparr>attempts := attempts s @ [a]\<rparr>) = tracked (wd_event d) s"
    unfolding tracked_append using assms(2) by auto
  with assms(1) show ?thesis
    by (simp add: accounted_def ordinals_def)
qed

lemma classify_success: "classifyStatus code = SUCCESS \<longleftrightarrow> 200 \<le> code \<and> code \<le> 299"
  by (simp add: classifyStatus_def)

lemma disposition_success: "disposition outcome = SUCCESS \<longleftrightarrow> is_success outcome" if "honest outcome"
  using that by (cases outcome rule: disposition.cases) (auto simp: classify_success split: option.splits if_splits)

lemma step_success: "nextStep disp n now = NextDelivered \<longleftrightarrow> disp = SUCCESS"
  by (auto simp: nextStep_def split: http_disposition.splits option.splits)

lemma step_state_iff: "step_state step = WH_DELIVERED \<longleftrightarrow> step = NextDelivered"
  by (cases step) auto

lemma record_attempt_Inr:
  assumes "record_attempt l p outcome now s = Inr (r, s')"
  obtains a where "attemptNumber a = Some (Suc (ls_attemptCount l))" "at_event a = ls_event l" "at_outcome a = outcome"
    "attemptedAt a = now" "attempt_check a" "Suc (ls_attemptCount l) \<notin> set (ordinals (ls_event l) s)"
    "update_handover (ls_id l) (recorded l (nextStep (disposition outcome) (Suc (ls_attemptCount l)) now) now)
       (s\<lparr>wb_nextId := Suc (wb_nextId s), attempts := attempts s @ [a]\<rparr>) = Inr ((), s')"
    "r = (wb_nextId s, nextStep (disposition outcome) (Suc (ls_attemptCount l)) now)"
proof -
  let ?a = "\<lparr>at_id = wb_nextId s, at_event = ls_event l, at_client = ls_client l, at_endpoint = ep_id p, at_url = ep_url p,
         attemptNumber = Some (Suc (ls_attemptCount l)), attemptedAt = now, at_outcome = outcome\<rparr>"
  have "insert_attempt ?a (s\<lparr>wb_nextId := Suc (wb_nextId s)\<rparr>)
      = Inr ((), s\<lparr>wb_nextId := Suc (wb_nextId s), attempts := attempts s @ [?a]\<rparr>)"
    "update_handover (ls_id l) (recorded l (nextStep (disposition outcome) (Suc (ls_attemptCount l)) now) now)
       (s\<lparr>wb_nextId := Suc (wb_nextId s), attempts := attempts s @ [?a]\<rparr>) = Inr ((), s')"
    "r = (wb_nextId s, nextStep (disposition outcome) (Suc (ls_attemptCount l)) now)"
    using assms by (auto simp: record_attempt_def tx_simps Let_def fresh_webhook_id_def insert_attempt_Inr)
  with that [of ?a] show thesis
    using ordinal_taken [of "ls_event l" "Suc (ls_attemptCount l)" s] by (auto simp: insert_attempt_Inr)
qed

lemma record_good:
  assumes good: "webhook_good s" and job: "job_ok s l" and honest: "honest outcome"
    and run: "record_attempt l p outcome now s = Inr (r, s')"
  shows "webhook_good s'" "job_ok s j \<Longrightarrow> job_ok s' j"
proof -
  obtain a where a: "attemptNumber a = Some (Suc (ls_attemptCount l))" "at_event a = ls_event l" "at_outcome a = outcome"
    "Suc (ls_attemptCount l) \<notin> set (ordinals (ls_event l) s)"
    and upd: "update_handover (ls_id l) (recorded l (nextStep (disposition outcome) (Suc (ls_attemptCount l)) now) now)
       (s\<lparr>wb_nextId := Suc (wb_nextId s), attempts := attempts s @ [a]\<rparr>) = Inr ((), s')"
    by (rule record_attempt_Inr [OF run])
  let ?t = "s\<lparr>wb_nextId := Suc (wb_nextId s), attempts := attempts s @ [a]\<rparr>"
  let ?f = "recorded l (nextStep (disposition outcome) (Suc (ls_attemptCount l)) now) now"
  obtain old where old: "old \<in> set (handovers ?t)" "wd_id old = ls_id l" "handover_guard old (?f old) = None"
    "handover_check (?f old)" "s' = ?t\<lparr>handovers := update_rows (\<lambda>d. wd_id d = ls_id l) ?f (handovers ?t)\<rparr>"
    by (rule update_handover_Inr [OF upd]) (rule that)
  obtain d where d: "d \<in> set (handovers s)" "wd_id d = ls_id l" "wd_event d = ls_event l" "ls_attemptCount l \<le> attemptCount d"
    using job by (auto simp: job_ok_def any_row_iff)
  have mem: "old \<in> set (handovers s)"
    using old(1) by simp
  have same: "d = old"
    using unique_key [OF webhook_goodD(1) [OF good] d(1) mem] d(2) old(2) by simp
  have count: "ls_attemptCount l = attemptCount old"
    using next_ordinal [OF webhook_goodD(4) [OF good d(1)] d(3,4) a(4)] same by simp
  have others: "\<forall>x \<in> set (handovers ?t) - {old}. accounted ?t x"
  proof
    fix x assume x: "x \<in> set (handovers ?t) - {old}"
    have "wd_event x \<noteq> wd_event old"
      using x unique_key [OF webhook_goodD(2) [OF good] _ mem, of x] by auto
    then show "accounted ?t x"
      using accounted_other [of "s\<lparr>wb_nextId := Suc (wb_nextId s)\<rparr>" x a] webhook_goodD(4) [OF good, of x] x a(2) d(3) same by simp
  qed
  have new: "wd_id (?f old) = wd_id old" "wd_event (?f old) = wd_event old"
    by (simp_all add: recorded_def)
  have "accounted ?t (?f old)"
  proof -
    have "tracked (wd_event old) ?t = tracked (wd_event old) s @ [a]"
      using tracked_append [of "wd_event old" "s\<lparr>wb_nextId := Suc (wb_nextId s)\<rparr>" a] a(1,2) d(3) same by simp
    moreover have "accounted s old"
      by (rule webhook_goodD(4) [OF good mem])
    moreover have "wd_state (?f old) = WH_DELIVERED \<longleftrightarrow> is_success outcome"
      using disposition_success [OF honest] by (simp add: recorded_def step_state_iff step_success)
    moreover have "wd_state old = WH_DELIVERED \<Longrightarrow> wd_state (?f old) = WH_DELIVERED"
      using old(3) by (simp add: handover_guard_None)
    ultimately show ?thesis
      using a(1,3) count by (auto simp: accounted_def ordinals_def recorded_def)
  qed
  moreover have "list_all (\<lambda>x. attemptNumber x = None \<or> any_row (\<lambda>d. wd_event d = at_event x) (handovers ?t)) (attempts ?t)"
    using good d(1,3) a(2) by (auto simp: webhook_good_def list_all_iff any_row_iff)
  moreover have "list_all (\<lambda>d. wd_id d < wb_nextId ?t) (handovers ?t)"
    using good by (auto simp: webhook_good_def list_all_iff less_Suc_eq)
  ultimately show "webhook_good s'"
    unfolding old(5) using good others new old(1,2,4)
    by (intro update_keeps_good [where old = old]) (simp_all add: webhook_good_def)
  show "job_ok s j \<Longrightarrow> job_ok s' j"
    unfolding old(5)
    by (rule update_keeps_job [where old = old and f = ?f]) (use good old in \<open>simp_all add: webhook_good_def job_ok_def\<close>)
qed

lemma insert_handover_Inr:
  "insert_handover d s = Inr (u, s') \<longleftrightarrow>
     handover_check d \<and> \<not> any_row (\<lambda>x. wd_id x = wd_id d \<or> wd_event x = wd_event d) (handovers s) \<and> s' = s\<lparr>handovers := handovers s @ [d]\<rparr>"
  by (auto simp: insert_handover_def)

lemma tracked_none:
  assumes "webhook_good s" "\<not> any_row (\<lambda>x. wd_event x = e) (handovers s)"
  shows "tracked e s = []"
  using assms by (auto simp: webhook_good_def list_all_iff tracked_def filter_empty_conv any_row_iff)

lemma new_handover_good:
  assumes good: "webhook_good s"
    and run: "insert_handover (new_handover (wb_nextId s) e p w now exp) (s\<lparr>wb_nextId := Suc (wb_nextId s)\<rparr>) = Inr (u, s')"
  shows "webhook_good s'" "job_ok s j \<Longrightarrow> job_ok s' j" "job_ok s' (leased_of (new_handover (wb_nextId s) e p w now exp))"
proof -
  let ?d = "new_handover (wb_nextId s) e p w now exp"
  have d: "handover_check ?d" "\<not> any_row (\<lambda>x. wd_event x = ev_id e) (handovers s)"
    "s' = s\<lparr>wb_nextId := Suc (wb_nextId s), handovers := handovers s @ [?d]\<rparr>"
    using run by (auto simp: insert_handover_Inr new_handover_def any_row_iff)
  have "accounted s ?d"
    using tracked_none [OF good d(2)] by (simp add: accounted_def ordinals_def new_handover_def)
  then show "webhook_good s'"
    using good d by (auto simp: webhook_good_def list_all_iff any_row_iff new_handover_def less_Suc_eq)
  show "job_ok s j \<Longrightarrow> job_ok s' j" "job_ok s' (leased_of ?d)"
    by (auto simp: job_ok_def d(3) any_row_iff leased_of_def)
qed

lemma earliest_Some: "earliest k rows = Some r \<Longrightarrow> r \<in> set rows"
  by (metis earliest_def list.case_eq_if list.set_sel(1) option.distinct(1) option.inject set_sort)

lemma due_handover_Some: "due_handover dbNow s = Some d \<Longrightarrow> d \<in> set (handovers s) \<and> is_due dbNow s d"
  unfolding due_handover_def by (drule earliest_Some) simp

lemma job_of_row: "d \<in> set (handovers s) \<Longrightarrow> job_ok s (leased_of d)"
  by (auto simp: job_ok_def any_row_iff leased_of_def)

lemma lease_good:
  assumes good: "webhook_good s" and run: "lease w ms now dbNow s = Inr (found, s')"
  shows "webhook_good s'" "job_ok s j \<Longrightarrow> job_ok s' j" "found = Some l \<Longrightarrow> job_ok s' l"
proof -
  have "webhook_good s' \<and> (\<forall>j. job_ok s j \<longrightarrow> job_ok s' j) \<and> (\<forall>l. found = Some l \<longrightarrow> job_ok s' l)"
  proof (cases "due_handover dbNow s")
    case (Some d)
    then obtain u where upd: "update_handover (wd_id d) (\<lambda>r. r\<lparr>leaseOwner := Some w, leaseExpiresAt := Some (now + ms)\<rparr>) s = Inr (u, s')"
      and found: "found = Some (leased_of d)"
      using run by (auto simp: lease_def tx_simps)
    show ?thesis
      using housekeeping [OF good upd] job_of_row [of d s] due_handover_Some [OF Some] found by simp
  next
    case None
    show ?thesis
    proof (cases "fresh_event s")
      case None
      with \<open>due_handover dbNow s = None\<close> show ?thesis
        using run good by (auto simp: lease_def tx_simps)
    next
      case (Some e)
      with \<open>due_handover dbNow s = None\<close> have "\<exists>(p::webhook_endpoint) u. insert_handover (new_handover (wb_nextId s) e (ep_id p) w now (now + ms))
          (s\<lparr>wb_nextId := Suc (wb_nextId s)\<rparr>) = Inr (u, s')
          \<and> found = Some (leased_of (new_handover (wb_nextId s) e (ep_id p) w now (now + ms)))"
        using run by (auto simp: lease_def tx_simps fresh_webhook_id_def)
      then obtain p :: webhook_endpoint and u where ins: "insert_handover (new_handover (wb_nextId s) e (ep_id p) w now (now + ms))
          (s\<lparr>wb_nextId := Suc (wb_nextId s)\<rparr>) = Inr (u, s')"
        and found: "found = Some (leased_of (new_handover (wb_nextId s) e (ep_id p) w now (now + ms)))"
        by blast
      show ?thesis
        using new_handover_good [OF good ins] found by simp
    qed
  qed
  then show "webhook_good s'" "job_ok s j \<Longrightarrow> job_ok s' j" "found = Some l \<Longrightarrow> job_ok s' l"
    by blast+
qed

lemma deliver_begin_Inr:
  assumes "deliver_begin w ms e now s = Inr (r, s')"
  shows "s' = s \<and> (\<forall>l p. r \<noteq> Tracked l p) \<or>
      (\<exists>d p ev. d \<in> set (handovers s) \<and> wd_event d = ev_id ev \<and> r = Tracked (held_row ev p d) p \<and> ev_id ev = e \<and>
        (s' = s \<or> (\<exists>u. wd_state d = WH_PENDING \<and> update_handover (wd_id d)
            (\<lambda>r. r\<lparr>leaseOwner := Some w, leaseExpiresAt := Some (now + ms)\<rparr>) s = Inr (u, s'))))"
proof -
  obtain ev where ev: "first_row (\<lambda>x. ev_id x = e) (wb_events s) = Some ev"
    using assms by (auto simp: deliver_begin_def tx_simps)
  have id: "ev_id ev = e"
    using first_row_Some [OF ev] by simp
  show ?thesis
  proof (cases "first_row (\<lambda>d. wd_event d = e) (handovers s)")
    case None
    then show ?thesis
      using assms ev by (auto simp: deliver_begin_def tx_simps split: option.splits if_splits)
  next
    case (Some d)
    then have "d \<in> set (handovers s)" "wd_event d = ev_id ev"
      using first_row_Some [OF Some] id by simp_all
    then show ?thesis
      using assms ev Some id by (simp add: deliver_begin_def tx_simps split: option.splits if_splits) blast+
  qed
qed

lemma held_job: "d \<in> set (handovers s) \<Longrightarrow> wd_event d = ev_id ev \<Longrightarrow> job_ok s (held_row ev p d)"
  by (auto simp: job_ok_def any_row_iff held_row_def)

lemma deliver_begin_good:
  assumes good: "webhook_good s" and run: "deliver_begin w ms e now s = Inr (r, s')"
  shows "webhook_good s'" "job_ok s j \<Longrightarrow> job_ok s' j" "r = Tracked l p \<Longrightarrow> job_ok s' l"
proof -
  have "webhook_good s' \<and> (\<forall>j. job_ok s j \<longrightarrow> job_ok s' j) \<and> (\<forall>l p. r = Tracked l p \<longrightarrow> job_ok s' l)"
    using deliver_begin_Inr [OF run]
  proof (elim disjE exE conjE)
    fix d q ev u
    assume d: "d \<in> set (handovers s)" "wd_event d = ev_id ev" "r = Tracked (held_row ev q d) q"
      and upd: "update_handover (wd_id d) (\<lambda>r. r\<lparr>leaseOwner := Some w, leaseExpiresAt := Some (now + ms)\<rparr>) s = Inr (u, s')"
    show ?thesis
      using housekeeping [OF good upd] held_job [OF d(1,2)] d(3) by simp
  qed (use good held_job in auto)
  then show "webhook_good s'" "job_ok s j \<Longrightarrow> job_ok s' j" "r = Tracked l p \<Longrightarrow> job_ok s' l"
    by blast+
qed

lemma untracked_good:
  assumes good: "webhook_good s" and run: "record_untracked e p outcome now s = Inr (r, s')"
  shows "webhook_good s'" "job_ok s j \<Longrightarrow> job_ok s' j"
proof -
  define a where "a = \<lparr>at_id = wb_nextId s, at_event = ev_id e, at_client = ev_client e, at_endpoint = ep_id p,
    at_url = ep_url p, attemptNumber = None, attemptedAt = now, at_outcome = outcome\<rparr>"
  then have a: "attemptNumber a = None" "s' = s\<lparr>wb_nextId := Suc (wb_nextId s), attempts := attempts s @ [a]\<rparr>"
    using run by (auto simp: record_untracked_def tx_simps fresh_webhook_id_def insert_attempt_Inr)
  have "accounted s' d" if "d \<in> set (handovers s)" for d
    using accounted_other [of "s\<lparr>wb_nextId := Suc (wb_nextId s)\<rparr>" d a] webhook_goodD(4) [OF good that] a by simp
  then show "webhook_good s'"
    using good a by (auto simp: webhook_good_def list_all_iff less_Suc_eq)
  show "job_ok s j \<Longrightarrow> job_ok s' j"
    by (simp add: a(2) job_ok_def)
qed

lemma rescue_good:
  assumes good: "webhook_good s" and run: "rescue e now s = Inr (r, s')"
  shows "webhook_good s'" "job_ok s j \<Longrightarrow> job_ok s' j"
proof -
  obtain d where d: "first_row (\<lambda>d. wd_event d = e) (handovers s) = Some d" "wd_state d \<noteq> WH_DELIVERED"
    "s' = s \<or> (\<exists>u. update_handover (wd_id d) (\<lambda>r. r\<lparr>wd_state := WH_PENDING, wd_nextAttemptAt := Some now, exhaustedAt := None,
         leaseOwner := None, leaseExpiresAt := None\<rparr>) s = Inr (u, s'))"
    using run by (auto simp: rescue_def tx_simps split: if_splits)
  have "find_handover (wd_id d) s = Some d"
    unfolding find_handover_def by (rule first_row_unique_key [OF webhook_goodD(1) [OF good]]) (use first_row_Some [OF d(1)] in simp)
  then have "webhook_good s' \<and> (job_ok s j \<longrightarrow> job_ok s' j)"
    using d(2,3) housekeeping [OF good, of "wd_id d"] good by fastforce
  then show "webhook_good s'" "job_ok s j \<Longrightarrow> job_ok s' j"
    by blast+
qed

subsection \<open>Every interleaving\<close>

text \<open>
  The database with what every worker and administrator holds at the moment: a leased event, then the
  endpoint it read and the answer it got. A crash forgets a holding. New events and the configuration of
  endpoints come from other parts of the program.
\<close>

type_synonym holding = "leased \<times> (webhook_endpoint \<times> attempt_outcome) option"

inductive webhook_step :: "webhook_db \<times> holding list \<Rightarrow> webhook_db \<times> holding list \<Rightarrow> bool" where
  worker_leases:
    "lease worker leaseMs now dbNow s = Inr (Some l, s') \<Longrightarrow> webhook_step (s, js) (s', (l, None) # js)"
| worker_sends:
    "first_row (\<lambda>e. ev_id e = ls_event l) (wb_events s) = Some event \<Longrightarrow> find_endpoint (ls_endpoint l) s = Some p \<Longrightarrow>
     webhook_step (s, xs @ (l, None) # ys) (s, xs @ (l, Some (p, send net insecure decrypt now event p)) # ys)"
| administrator_sends:
    "deliver_begin worker leaseMs eventId now s = Inr (Tracked l p, s') \<Longrightarrow> first_row (\<lambda>e. ev_id e = eventId) (wb_events s) = Some event \<Longrightarrow>
     webhook_step (s, js) (s', (l, Some (p, send net insecure decrypt now event p)) # js)"
| answer_recorded:
    "record_attempt l p outcome now s = Inr (r, s') \<Longrightarrow> webhook_step (s, xs @ (l, Some (p, outcome)) # ys) (s', xs @ ys)"
| holder_gone: "webhook_step (s, xs @ j # ys) (s, xs @ ys)"
| untracked_sent:
    "deliver_begin worker leaseMs eventId now s = Inr (Untracked event p, s') \<Longrightarrow>
     record_untracked event p (send net insecure decrypt now event p) later s' = Inr (i, s'') \<Longrightarrow> webhook_step (s, js) (s'', js)"
| rescued: "rescue eventId now s = Inr (r, s') \<Longrightarrow> webhook_step (s, js) (s', js)"
| event_recorded: "webhook_step (s, js) (s\<lparr>wb_events := wb_events s @ [e]\<rparr>, js)"
| endpoints_configured: "webhook_step (s, js) (s\<lparr>endpoints := ps\<rparr>, js)"

definition world_good :: "webhook_db \<times> holding list \<Rightarrow> bool" where
  "world_good w \<longleftrightarrow> webhook_good (fst w) \<and>
     (\<forall>(l, sent) \<in> set (snd w). job_ok (fst w) l \<and> (\<forall>(p, outcome) \<in> set_option sent. honest outcome))"

lemma honest_send: "honest (send net insecure decrypt now event p)"
  by (auto simp: send_def attempt_honest split: option.splits sum.splits)

lemma good_more [simp]:
  "webhook_good (s\<lparr>wb_events := es\<rparr>) = webhook_good s" "webhook_good (s\<lparr>endpoints := ps\<rparr>) = webhook_good s"
  "job_ok (s\<lparr>wb_events := es\<rparr>) = job_ok s" "job_ok (s\<lparr>endpoints := ps\<rparr>) = job_ok s"
  by (auto simp: webhook_good_def accounted_def ordinals_def tracked_def job_ok_def list_all_iff fun_eq_iff)

lemma world_moves:
  "world_good (s, js) \<Longrightarrow> webhook_good s' \<Longrightarrow> (\<And>j. job_ok s j \<Longrightarrow> job_ok s' j) \<Longrightarrow> set js' \<subseteq> set js \<Longrightarrow>
     world_good (s', js')"
  unfolding world_good_def by fastforce

lemma webhook_step_good: "webhook_step v w \<Longrightarrow> world_good v \<Longrightarrow> world_good w"
proof (induction rule: webhook_step.induct)
  case (worker_leases worker leaseMs now dbNow s l s' js)
  then show ?case
    using lease_good [OF _ worker_leases.hyps] by (fastforce simp: world_good_def)
next
  case (worker_sends l s event p xs ys net insecure decrypt now)
  then show ?case
    by (auto simp: world_good_def honest_send)
next
  case (administrator_sends worker leaseMs eventId now s l p s' event js net insecure decrypt)
  then show ?case
    using deliver_begin_good [OF _ administrator_sends.hyps(1)] by (fastforce simp: world_good_def honest_send)
next
  case (answer_recorded l p outcome now s r s' xs ys)
  then have "webhook_good s" "job_ok s l" "honest outcome"
    by (auto simp: world_good_def)
  note rec = record_good [OF this answer_recorded.hyps]
  show ?case
    by (rule world_moves [OF answer_recorded.prems rec]) auto
next
  case (holder_gone s xs j ys)
  then show ?case
    by (auto simp: world_good_def)
next
  case (untracked_sent worker leaseMs eventId now s event p s' net insecure decrypt later i s'' js)
  have "webhook_good s'" "\<And>j. job_ok s j \<Longrightarrow> job_ok s' j"
    using untracked_sent deliver_begin_good [OF _ untracked_sent.hyps(1)] by (auto simp: world_good_def)
  with untracked_good [OF _ untracked_sent.hyps(2)] show ?case
    by (intro world_moves [OF untracked_sent.prems]) auto
next
  case (rescued eventId now s r s' js)
  then have "webhook_good s"
    by (simp add: world_good_def)
  from rescue_good [OF this rescued.hyps] show ?case
    by (intro world_moves [OF rescued.prems]) auto
qed (auto simp: world_good_def)

interpretation delivering: invariant_system webhook_step world_good
  by unfold_locales (rule webhook_step_good)

text \<open>
  C12: Whatever the workers, administrators, crashes and rescues do, in whatever order, the tracked
  attempts of an event are numbered 1, 2, 3 and so on without gap or repetition, the count of its row
  is their number, and the row is DELIVERED exactly when one of them succeeded.
\<close>

theorem handovers_are_accounted:
  assumes "rtranclp webhook_step (s0, []) (s, js)" and "handovers s0 = []" "attempts s0 = []"
    and "d \<in> set (handovers s)"
  shows "ordinals (wd_event d) s = [1..<Suc (attemptCount d)]
    \<and> (wd_state d = WH_DELIVERED \<longleftrightarrow> (\<exists>a \<in> set (tracked (wd_event d) s). is_success (at_outcome a)))"
proof -
  have "world_good (s0, [])"
    using assms(2,3) by (simp add: world_good_def webhook_good_def)
  then have "webhook_good s"
    using delivering.reachable_inv [OF assms(1)] by (simp add: world_good_def)
  from webhook_goodD(4) [OF this assms(4)] show ?thesis
    by (simp add: accounted_def list_ex_iff)
qed

end
