(* ===== verification/Webhook_History.thy ===== *)
theory Webhook_History imports Webhook_System begin

text \<open>
  What no operation on the handovers ever undoes, and two requests of an administrator that the database
  refuses after the receiver has been called.
\<close>

subsection \<open>What only grows\<close>

definition kept_row :: "webhook_delivery \<Rightarrow> webhook_delivery \<Rightarrow> bool" where
  "kept_row d d' \<longleftrightarrow>
     wd_id d' = wd_id d \<and> wd_event d' = wd_event d \<and> wd_endpoint d' = wd_endpoint d \<and> attemptCount d \<le> attemptCount d'
     \<and> (wd_state d = WH_DELIVERED \<longrightarrow> wd_state d' = WH_DELIVERED \<and> wd_deliveredAt d' = wd_deliveredAt d)"

definition handed_over :: "webhook_db \<Rightarrow> webhook_db \<Rightarrow> bool" where
  "handed_over s s' \<longleftrightarrow>
     (\<exists>more. attempts s' = attempts s @ more) \<and> (\<forall>d \<in> set (handovers s). \<exists>d' \<in> set (handovers s'). kept_row d d')"

definition keyed :: "webhook_db \<Rightarrow> bool" where
  "keyed s \<longleftrightarrow> distinct (map wd_id (handovers s))"

definition webhook_evolves :: "webhook_db \<Rightarrow> webhook_db \<Rightarrow> bool" where
  "webhook_evolves s s' \<longleftrightarrow> (keyed s \<longrightarrow> keyed s' \<and> handed_over s s')"

lemma kept_row_refl: "kept_row d d"
  by (simp add: kept_row_def)

lemma kept_row_trans: "kept_row a b \<Longrightarrow> kept_row b c \<Longrightarrow> kept_row a c"
  unfolding kept_row_def by simp

lemma handed_over_refl: "handed_over s s"
  unfolding handed_over_def using kept_row_refl by blast

lemma handed_over_trans: "handed_over s t \<Longrightarrow> handed_over t u \<Longrightarrow> handed_over s u"
  unfolding handed_over_def by (metis append_assoc kept_row_trans)

interpretation webhook_history: evolution webhook_evolves
  by unfold_locales (auto simp: webhook_evolves_def intro: handed_over_refl handed_over_trans)

lemma update_handover_steps: "stepsT webhook_evolves (update_handover i f)"
proof (rule stepsTI)
  fix s u s' assume run: "update_handover i f s = Inr (u, s')"
  obtain old where old: "old \<in> set (handovers s)" "wd_id old = i" "handover_guard old (f old) = None"
    "s' = s\<lparr>handovers := update_rows (\<lambda>d. wd_id d = i) f (handovers s)\<rparr>"
    by (rule update_handover_Inr [OF run]) (rule that)
  show "webhook_evolves s s'"
    unfolding webhook_evolves_def
  proof
    assume keyed: "keyed s"
    note k = keyed [unfolded keyed_def]
    have "wd_id (f old) = wd_id old" and row: "kept_row old (f old)"
      using old(3) by (simp_all add: handover_guard_None kept_row_def)
    then have "keyed s'"
      using updated_keys [OF k old(1,2), where g = wd_id and f = f] k by (simp add: keyed_def old(4))
    moreover have "\<exists>d' \<in> set (handovers s'). kept_row d d'" if "d \<in> set (handovers s)" for d
      using that row kept_row_refl [of d] updated_rows [OF k old(1,2), of f] by (cases "d = old") (auto simp: old(4))
    ultimately show "keyed s' \<and> handed_over s s'"
      by (simp add: handed_over_def old(4))
  qed
qed

lemma insert_handover_steps: "stepsT webhook_evolves (insert_handover d)"
  by (rule stepsTI) (auto simp: insert_handover_Inr webhook_evolves_def keyed_def handed_over_def any_row_iff
      intro: kept_row_refl)

lemma insert_attempt_steps: "stepsT webhook_evolves (insert_attempt a)"
  by (rule stepsTI) (auto simp: insert_attempt_Inr webhook_evolves_def keyed_def handed_over_def intro: kept_row_refl)

lemma fresh_webhook_id_steps: "stepsT webhook_evolves fresh_webhook_id"
  by (rule stepsTI) (auto simp: fresh_webhook_id_def webhook_evolves_def keyed_def handed_over_def intro: kept_row_refl)

lemmas webhook_write_steps =
  update_handover_steps insert_handover_steps insert_attempt_steps fresh_webhook_id_steps

lemma lease_steps: "stepsT webhook_evolves (lease w ms now dbNow)"
  unfolding lease_def by (intro webhook_history.rules webhook_write_steps)

lemma record_attempt_steps: "stepsT webhook_evolves (record_attempt l p outcome now)"
  unfolding record_attempt_def Let_def by (intro webhook_history.rules webhook_write_steps)

lemma deliver_begin_steps: "stepsT webhook_evolves (deliver_begin w ms e now)"
  unfolding deliver_begin_def by (intro webhook_history.rules webhook_write_steps)

lemma record_untracked_steps: "stepsT webhook_evolves (record_untracked e p outcome now)"
  unfolding record_untracked_def by (intro webhook_history.rules webhook_write_steps)

lemma rescue_steps: "stepsT webhook_evolves (rescue e now)"
  unfolding rescue_def by (intro webhook_history.rules webhook_write_steps)

lemma webhook_step_evolves: "webhook_step v w \<Longrightarrow> webhook_evolves (fst v) (fst w)"
proof (induction rule: webhook_step.induct)
  case (untracked_sent worker leaseMs eventId now s event p s' net insecure decrypt later i s'' js)
  have "webhook_evolves s s'" "webhook_evolves s' s''"
    using stepsTD [OF deliver_begin_steps untracked_sent.hyps(1)] stepsTD [OF record_untracked_steps untracked_sent.hyps(2)] .
  then show ?case
    using webhook_history.trans by simp
next
  case (event_recorded s js e)
  then show ?case
    by (simp add: webhook_evolves_def keyed_def handed_over_def) (blast intro: kept_row_refl)
next
  case (endpoints_configured s js ps)
  then show ?case
    by (simp add: webhook_evolves_def keyed_def handed_over_def) (blast intro: kept_row_refl)
qed (simp_all add: webhook_history.refl stepsTD [OF lease_steps] stepsTD [OF record_attempt_steps]
    stepsTD [OF deliver_begin_steps] stepsTD [OF rescue_steps])

lemma webhook_steps_evolve: "rtranclp webhook_step v w \<Longrightarrow> webhook_evolves (fst v) (fst w)"
proof (induction rule: rtranclp_induct)
  case base
  then show ?case by (rule webhook_history.refl)
next
  case (step w x)
  then show ?case using webhook_step_evolves webhook_history.trans by blast
qed

text \<open>
  C14: Transport history is append-only: later attempts only follow the recorded ones, and a handover
  that reached DELIVERED keeps that state and the instant it was first handed over, through retries,
  redeliveries, rescues and races.
\<close>

theorem delivery_is_stamped_once:
  assumes "rtranclp webhook_step (s, js) (s', js')" and "distinct (map wd_id (handovers s))"
    and "d \<in> set (handovers s)" "wd_state d = WH_DELIVERED"
  shows "(\<exists>more. attempts s' = attempts s @ more)
    \<and> (\<exists>d' \<in> set (handovers s'). wd_id d' = wd_id d \<and> wd_event d' = wd_event d \<and> wd_state d' = WH_DELIVERED
        \<and> wd_deliveredAt d' = wd_deliveredAt d)"
  using webhook_steps_evolve [OF assms(1)] assms(2-4)
  unfolding webhook_evolves_def keyed_def handed_over_def kept_row_def by auto

subsection \<open>Requests refused after the call\<close>

lemma record_attempt_refused:
  assumes "\<And>a. update_handover (ls_id l) (recorded l (nextStep (disposition outcome) (Suc (ls_attemptCount l)) now) now)
       (s\<lparr>wb_nextId := Suc (wb_nextId s), attempts := attempts s @ [a]\<rparr>) \<noteq> Inr ((), s')"
  shows "record_attempt l p outcome now s \<noteq> Inr (r, s')"
proof
  assume run: "record_attempt l p outcome now s = Inr (r, s')"
  obtain a where "update_handover (ls_id l) (recorded l (nextStep (disposition outcome) (Suc (ls_attemptCount l)) now) now)
       (s\<lparr>wb_nextId := Suc (wb_nextId s), attempts := attempts s @ [a]\<rparr>) = Inr ((), s')"
    by (rule record_attempt_Inr [OF run]) (rule that)
  with assms show False by blast
qed

lemma record_fails:
  assumes "\<And>r s'. record_attempt l p outcome now s \<noteq> Inr (r, s')"
  shows "\<exists>e. record_attempt l p outcome now s = Inl e"
  using assms by (cases "record_attempt l p outcome now s") auto

lemma begin_row:
  assumes "deliver_begin w ms e now s = Inr (Tracked l p, s')" "distinct (map wd_event (handovers s))"
    and "d \<in> set (handovers s)" "wd_event d = e" "wd_state d \<noteq> WH_PENDING"
  shows "s' = s" "ls_id l = wd_id d" "ls_attemptCount l = attemptCount d" "ls_deliveredAt l = wd_deliveredAt d"
    "ls_exhaustedAt l = exhaustedAt d"
proof -
  obtain d' ev where d': "d' \<in> set (handovers s)" "wd_event d' = e" "l = held_row ev p d'"
    "s' = s \<or> wd_state d' = WH_PENDING"
    using deliver_begin_Inr [OF assms(1)] by auto
  moreover have "d' = d"
    using unique_key [OF assms(2) d'(1) assms(3)] d'(2) assms(4) by simp
  ultimately show "s' = s" "ls_id l = wd_id d" "ls_attemptCount l = attemptCount d" "ls_deliveredAt l = wd_deliveredAt d"
    "ls_exhaustedAt l = exhaustedAt d"
    using assms(5) by (auto simp: held_row_def)
qed

text \<open>
  C25: An administrator who pushes a DELIVERED event again gets an error whenever the receiver does not
  accept it: the state to record is not DELIVERED, the guard of the table refuses it, and the attempt
  that was made is not recorded. The code documents the contrary, that the extra attempt is audited and
  the state stays DELIVERED.
\<close>

theorem failed_redelivery_is_not_recorded:
  assumes "webhook_good s" and "deliver_begin w ms e now s = Inr (Tracked l p, s')"
    and "d \<in> set (handovers s)" "wd_event d = e" "wd_state d = WH_DELIVERED"
    and "outcome = send net insecure decrypt sentAt event p" "\<not> is_success outcome"
  shows "\<exists>err. record_attempt l p outcome later s' = Inl err"
proof (rule record_fails, rule record_attempt_refused)
  fix r t a
  note row = begin_row [OF assms(2) webhook_goodD(2) [OF assms(1)] assms(3,4)]
  let ?f = "recorded l (nextStep (disposition outcome) (Suc (ls_attemptCount l)) later) later"
  have "find_handover (ls_id l) s = Some d"
    using first_row_unique_key [OF webhook_goodD(1) [OF assms(1)] assms(3)] row(2) assms(5) by (simp add: find_handover_def)
  moreover have "wd_state (?f d) \<noteq> WH_DELIVERED"
    using disposition_success [of outcome] honest_send assms(6,7) by (simp add: recorded_def step_state_iff step_success)
  ultimately show "update_handover (ls_id l) ?f (s'\<lparr>wb_nextId := Suc (wb_nextId s'), attempts := attempts s' @ [a]\<rparr>) \<noteq> Inr ((), t)"
    using row(1) assms(5) by (auto simp: update_handover_def find_handover_def handover_guard_None split: option.splits)
qed

text \<open>
  An administrator who pushes an EXHAUSTED event that had fewer than four attempts gets an error
  whenever the failure is a retryable one: the code schedules the next attempt without clearing
  \<open>exhaustedAt\<close>, and the CHECK of the table refuses such a row. The attempt is not recorded.
\<close>

theorem retry_of_exhausted_is_not_recorded:
  assumes "webhook_good s" and "deliver_begin w ms e now s = Inr (Tracked l p, s')"
    and "d \<in> set (handovers s)" "wd_event d = e" "wd_state d = WH_EXHAUSTED" "attemptCount d < 4"
    and "disposition outcome = RETRYABLE"
  shows "\<exists>err. record_attempt l p outcome later s' = Inl err"
proof (rule record_fails, rule record_attempt_refused)
  fix r t a
  note row = begin_row [OF assms(2) webhook_goodD(2) [OF assms(1)] assms(3,4)]
  let ?step = "nextStep (disposition outcome) (Suc (ls_attemptCount l)) later"
  have found: "find_handover (ls_id l) s = Some d"
    using first_row_unique_key [OF webhook_goodD(1) [OF assms(1)] assms(3)] row(2) assms(5) by (simp add: find_handover_def)
  obtain later' where step: "?step = NextPending later'"
    using assms(6,7) row(3) assms(5) next_pending_iff [of RETRYABLE "Suc (ls_attemptCount l)" later] by simp
  have "exhaustedAt d \<noteq> None"
    using webhook_goodD(3) [OF assms(1,3)] assms(5) by (simp add: handover_check_def)
  then have "\<not> handover_check (recorded l ?step later d)"
    unfolding step by (auto simp: handover_check_def recorded_def)
  then show "update_handover (ls_id l) (recorded l ?step later) (s'\<lparr>wb_nextId := Suc (wb_nextId s'), attempts := attempts s' @ [a]\<rparr>)
      \<noteq> Inr ((), t)"
    using row(1) assms(5) found by (auto simp: update_handover_def find_handover_def split: option.splits)
qed

end
