(* ===== verification/Webhook_Progress.thy ===== *)
theory Webhook_Progress imports Webhook_System begin

text \<open>
  No work is left behind: a pass of the worker with enough rounds attempts every handover that is due and
  every event that has no handover yet, and none of the guards its writes meet refuses.
\<close>

subsection \<open>Outstanding work\<close>

definition outstanding :: "instant \<Rightarrow> webhook_db \<Rightarrow> nat" where
  "outstanding now s = length (filter (is_due now s) (handovers s)) + length (filter (is_fresh s) (wb_events s))"

text \<open>The keys and foreign keys the reads of a pass rest on.\<close>

definition webhook_refs :: "webhook_db \<Rightarrow> bool" where
  "webhook_refs s \<longleftrightarrow>
     distinct (map ep_id (endpoints s)) \<and> distinct (map ev_id (wb_events s))
     \<and> list_all (\<lambda>p. 8 \<le> length (ep_url p) \<and> length (ep_url p) \<le> 2048) (endpoints s)
     \<and> list_all (\<lambda>d. any_row (\<lambda>e. ev_id e = wd_event d) (wb_events s)) (handovers s)"

lemma earliest_None: "earliest k rows = None \<longleftrightarrow> rows = []"
  by (auto simp: earliest_def split: list.splits) (metis length_0_conv length_sort list.size(3))

lemma outstanding_zero: "outstanding now s = 0 \<longleftrightarrow> due_handover now s = None \<and> fresh_event s = None"
  by (auto simp: outstanding_def due_handover_def fresh_event_def earliest_None)

lemma count_update:
  assumes "distinct (map key rows)" "r \<in> set rows" "P r" "\<not> P (f r)"
  shows "Suc (length (filter P (update_rows (\<lambda>x. key x = key r) f rows))) = length (filter P rows)"
  using assms
proof (induction rows)
  case (Cons x rows)
  show ?case
  proof (cases "x = r")
    case True
    then have "update_rows (\<lambda>x. key x = key r) f rows = rows"
      using Cons.prems(1) by (intro update_rows_none) (auto simp: image_iff)
    with True Cons.prems show ?thesis by simp
  next
    case False
    then have "key x \<noteq> key r" "r \<in> set rows"
      using Cons.prems by (auto simp: image_iff)
    with Cons show ?thesis by simp
  qed
qed simp

lemma count_except:
  assumes "distinct xs" "x \<in> set xs" "P x"
  shows "Suc (length (filter (\<lambda>y. P y \<and> y \<noteq> x) xs)) = length (filter P xs)"
  using assms
proof (induction xs)
  case (Cons y ys)
  show ?case
  proof (cases "y = x")
    case True
    then have "filter (\<lambda>y. P y \<and> y \<noteq> x) ys = filter P ys"
      using Cons.prems by (intro filter_cong) auto
    with True Cons.prems show ?thesis by simp
  qed (use Cons in auto)
qed simp

lemma update_handover_at:
  assumes dist: "distinct (map wd_id (handovers s))" and d: "d \<in> set (handovers s)"
    and "handover_guard d (f d) = None" "handover_check (f d)"
  shows "update_handover (wd_id d) f s = Inr ((), s\<lparr>handovers := update_rows (\<lambda>x. wd_id x = wd_id d) f (handovers s)\<rparr>)"
  using first_row_unique_key [OF dist d] assms(3,4) by (simp add: update_handover_def find_handover_def)

lemma update_rows_twice:
  assumes "\<And>x. P x \<Longrightarrow> P (f x)"
  shows "update_rows P g (update_rows P f rs) = update_rows P (\<lambda>x. g (f x)) rs"
  using assms by (induction rs) auto

text \<open>What a recorded attempt leaves is not due at an earlier instant.\<close>

lemma recorded_not_due:
  assumes "now \<le> later"
  shows "\<not> is_due now s (recorded l (nextStep disp (Suc n) later) later d)"
proof -
  have "\<not> t \<le> now" if "nextStep disp (Suc n) later = NextPending t" for t
  proof -
    have "n < 4" "t = later + BACKOFF_MS ! n"
      using that next_pending_iff [of disp "Suc n" later t] by auto
    moreover have "0 < BACKOFF_MS ! n" if "n < 4" for n
      using that by (auto simp: BACKOFF_MS_def less_Suc_eq numeral_eq_Suc)
    ultimately show ?thesis
      using assms by force
  qed
  then show ?thesis
    by (cases "nextStep disp (Suc n) later") (auto simp: is_due_def recorded_def)
qed

lemma recorded_check:
  assumes "handover_check d" "wd_state d = WH_PENDING" "ls_deliveredAt l = None" "ls_exhaustedAt l = None"
  shows "handover_check (recorded l step now d)"
  using assms by (cases step) (auto simp: handover_check_def recorded_def)

lemma record_succeeds:
  fixes later :: instant
  assumes dist: "distinct (map wd_id (handovers s))" and d: "d \<in> set (handovers s)"
    and l: "l = leased_of d0" "wd_id d0 = wd_id d" "wd_event d0 = wd_event d" "attemptCount d0 = attemptCount d"
    and row: "handover_check d" "wd_state d = WH_PENDING"
    and acc: "ordinals (wd_event d) s = [1..<Suc (attemptCount d)]"
    and p: "8 \<le> length (ep_url p)" "length (ep_url p) \<le> 2048" and out: "outcome_ok outcome"
  defines "step \<equiv> nextStep (disposition outcome) (Suc (attemptCount d)) later"
  shows "\<exists>a. record_attempt l p outcome later s =
    Inr ((wb_nextId s, step), s\<lparr>wb_nextId := Suc (wb_nextId s), attempts := attempts s @ [a],
      handovers := update_rows (\<lambda>x. wd_id x = wd_id d) (recorded l step later) (handovers s)\<rparr>)"
proof -
  have ls: "ls_id l = wd_id d" "ls_event l = wd_event d" "ls_attemptCount l = attemptCount d" "ls_deliveredAt l = None"
    "ls_exhaustedAt l = None"
    by (simp_all add: l leased_of_def)
  define a where "a = \<lparr>at_id = wb_nextId s, at_event = ls_event l, at_client = ls_client l, at_endpoint = ep_id p, at_url = ep_url p,
         attemptNumber = Some (Suc (ls_attemptCount l)), attemptedAt = later, at_outcome = outcome\<rparr>"
  let ?t = "s\<lparr>wb_nextId := Suc (wb_nextId s), attempts := attempts s @ [a]\<rparr>"
  have "\<not> any_row (\<lambda>x. at_event x = wd_event d \<and> attemptNumber x = Some (Suc (attemptCount d))) (attempts s)"
    unfolding ordinal_taken acc by simp
  then have ins: "insert_attempt a (s\<lparr>wb_nextId := Suc (wb_nextId s)\<rparr>) = Inr ((), ?t)"
    using p out by (simp add: insert_attempt_def attempt_check_def a_def ls)
  have "handover_guard d (recorded l step later d) = None"
    using row(2) by (simp add: handover_guard_None recorded_def ls)
  then have upd: "update_handover (wd_id d) (recorded l step later) ?t =
      Inr ((), ?t\<lparr>handovers := update_rows (\<lambda>x. wd_id x = wd_id d) (recorded l step later) (handovers ?t)\<rparr>)"
    using dist d recorded_check [OF row ls(4,5)] by (intro update_handover_at) simp_all
  have "record_attempt l p outcome later s =
      bindT fresh_webhook_id (\<lambda>i. bindT (insert_attempt (a\<lparr>at_id := i\<rparr>)) (\<lambda>_. bindT (update_handover (wd_id d) (recorded l step later)) (\<lambda>_.
        returnT (i, step)))) s"
    by (simp add: record_attempt_def Let_def a_def ls step_def)
  also have "\<dots> = Inr ((wb_nextId s, step), ?t\<lparr>handovers := update_rows (\<lambda>x. wd_id x = wd_id d) (recorded l step later) (handovers ?t)\<rparr>)"
    using ins upd by (simp add: bindT_def fresh_webhook_id_def returnT_def a_def)
  finally show ?thesis
    by (intro exI [of _ a]) simp
qed

lemma is_due_same: "endpoints s' = endpoints s \<Longrightarrow> is_due now s' = is_due now s"
  by (auto simp: is_due_def find_endpoint_def fun_eq_iff)

lemma is_fresh_same:
  "endpoints s' = endpoints s \<Longrightarrow> wd_event ` set (handovers s') = wd_event ` set (handovers s) \<Longrightarrow> is_fresh s' = is_fresh s"
  by (auto simp: is_fresh_def endpoint_of_def fun_eq_iff any_row_iff image_iff set_eq_iff split: option.splits; metis)

text \<open>A round on a handover that is due.\<close>

lemma round_due:
  assumes good: "webhook_good s" and refs: "webhook_refs s" and w: "1 \<le> length w" "length w \<le> 100"
    and answers: "\<And>e p. outcome_ok (answer e p)" and time: "now \<le> later"
    and due: "due_handover now s = Some d"
  shows "\<exists>l s1 r s2. lease w ms t now s = Inr (Some l, s1) \<and> attempt answer l later s1 = Inr (r, s2)
    \<and> webhook_refs s2 \<and> Suc (outstanding now s2) = outstanding now s"
proof -
  have d: "d \<in> set (handovers s)" "is_due now s d"
    using due_handover_Some [OF due] by simp_all
  note k = webhook_goodD(1) [OF good]
  have check: "handover_check d" "wd_state d = WH_PENDING"
    using webhook_goodD(3) [OF good d(1)] d(2) by (simp_all add: is_due_def)
  let ?h = "\<lambda>r. r\<lparr>leaseOwner := Some w, leaseExpiresAt := Some (t + ms)\<rparr>"
  let ?s1 = "s\<lparr>handovers := update_rows (\<lambda>x. wd_id x = wd_id d) ?h (handovers s)\<rparr>"
  have held: "handover_check (?h d)" "handover_guard d (?h d) = None"
    using check w by (simp_all add: handover_check_def handover_guard_None)
  have "update_handover (wd_id d) ?h s = Inr ((), ?s1)"
    by (rule update_handover_at [where f = ?h, OF k d(1) held(2,1)])
  then have lease: "lease w ms t now s = Inr (Some (leased_of d), ?s1)"
    by (simp add: lease_def bindT_def readT_def returnT_def due)
  obtain p where p: "find_endpoint (wd_endpoint d) s = Some p"
    using d(2) by (auto simp: is_due_def usable_def split: option.splits)
  have url: "8 \<le> length (ep_url p)" "length (ep_url p) \<le> 2048"
    using refs first_row_Some [of "\<lambda>p. ep_id p = wd_endpoint d" "endpoints s" p] p
    by (auto simp: webhook_refs_def list_all_iff find_endpoint_def)
  obtain e where e: "first_row (\<lambda>e. ev_id e = wd_event d) (wb_events s) = Some e"
    using refs d(1) by (cases "first_row (\<lambda>e. ev_id e = wd_event d) (wb_events s)")
      (auto simp: webhook_refs_def list_all_iff first_row_None any_row_iff)
  let ?o = "answer e p"
  have at: "attempt answer (leased_of d) later ?s1 = record_attempt (leased_of d) p ?o later ?s1"
    using e p by (simp add: attempt_def bindT_def requireT_def leased_of_def find_endpoint_def)
  have rows1: "set (handovers ?s1) = insert (?h d) (set (handovers s) - {d})"
    using updated_rows [OF k d(1), of "wd_id d" ?h] by simp
  have keys1: "distinct (map wd_id (handovers ?s1))"
    using updated_keys [OF k d(1), of "wd_id d" wd_id ?h] k by simp
  have "webhook_good ?s1"
    using lease_good(1) [OF good lease] .
  then have acc: "ordinals (wd_event (?h d)) ?s1 = [1..<Suc (attemptCount (?h d))]"
    using webhook_goodD(4) [of ?s1 "?h d"] rows1 by (simp add: accounted_def ordinals_def del: upt_Suc)
  define step where "step = nextStep (disposition ?o) (Suc (attemptCount (?h d))) later"
  let ?f = "\<lambda>x. recorded (leased_of d) step later (?h x)"
  have "\<exists>a. record_attempt (leased_of d) p ?o later ?s1 = Inr ((wb_nextId ?s1, step), ?s1\<lparr>wb_nextId := Suc (wb_nextId ?s1),
      attempts := attempts ?s1 @ [a], handovers := update_rows (\<lambda>x. wd_id x = wd_id (?h d)) (recorded (leased_of d) step later) (handovers ?s1)\<rparr>)"
    unfolding step_def
    by (rule record_succeeds [where d = "?h d" and ?d0.0 = d, OF keys1 _ HOL.refl _ _ _ held(1) _ acc url answers])
      (simp_all add: rows1 [simplified] check(2))
  then obtain a where rec: "record_attempt (leased_of d) p ?o later ?s1 = Inr ((wb_nextId ?s1, step), ?s1\<lparr>wb_nextId := Suc (wb_nextId ?s1),
      attempts := attempts ?s1 @ [a], handovers := update_rows (\<lambda>x. wd_id x = wd_id (?h d)) (recorded (leased_of d) step later) (handovers ?s1)\<rparr>)" ..
  define s2 where "s2 = ?s1\<lparr>wb_nextId := Suc (wb_nextId ?s1), attempts := attempts ?s1 @ [a],
    handovers := update_rows (\<lambda>x. wd_id x = wd_id d) ?f (handovers s)\<rparr>"
  have rec2: "record_attempt (leased_of d) p ?o later ?s1 = Inr ((wb_nextId ?s1, step), s2)"
    unfolding rec s2_def by (simp add: update_rows_twice)
  have same: "endpoints s2 = endpoints s" "wb_events s2 = wb_events s"
    by (simp_all add: s2_def)
  have rows2: "set (handovers s2) = insert (?f d) (set (handovers s) - {d})"
    using updated_rows [OF k d(1), of "wd_id d" ?f] by (simp add: s2_def)
  have ev2: "wd_event (?f d) = wd_event d"
    by (simp add: recorded_def)
  have events: "wd_event ` set (handovers s2) = wd_event ` set (handovers s)"
    unfolding rows2 using d(1) ev2 by auto
  have "\<not> is_due now s (?f d)"
    unfolding step_def by (rule recorded_not_due [OF time])
  then have "Suc (length (filter (is_due now s) (handovers s2))) = length (filter (is_due now s) (handovers s))"
    using count_update [OF k d(1), of "is_due now s" ?f] d(2) by (simp add: s2_def)
  then have "Suc (outstanding now s2) = outstanding now s"
    by (simp add: outstanding_def is_due_same [OF same(1)] is_fresh_same [OF same(1) events] same(2))
  moreover have "webhook_refs s2"
    using refs d(1) ev2 by (auto simp: webhook_refs_def same rows2 list_all_iff)
  ultimately show ?thesis
    using lease at rec2 by metis
qed

lemma new_handover_rows:
  assumes "list_all (\<lambda>d. wd_id d < i) rows"
  shows "update_rows (\<lambda>x. wd_id x = i) f (rows @ [new_handover i e p w t exp]) = rows @ [f (new_handover i e p w t exp)]"
proof -
  have "update_rows (\<lambda>x. wd_id x = i) f rows = rows"
    using assms by (intro update_rows_none) (auto simp: list_all_iff)
  then show ?thesis
    by (simp add: update_rows_def new_handover_def)
qed

text \<open>A round on an event met for the first time.\<close>

lemma round_fresh:
  assumes good: "webhook_good s" and refs: "webhook_refs s" and w: "1 \<le> length w" "length w \<le> 100"
    and answers: "\<And>e p. outcome_ok (answer e p)" and time: "now \<le> later"
    and none: "due_handover now s = None" and fresh: "fresh_event s = Some e"
  shows "\<exists>l s1 r s2. lease w ms t now s = Inr (Some l, s1) \<and> attempt answer l later s1 = Inr (r, s2)
    \<and> webhook_refs s2 \<and> Suc (outstanding now s2) = outstanding now s"
proof -
  have e: "e \<in> set (wb_events s)" "is_fresh s e"
    using earliest_Some [OF fresh [unfolded fresh_event_def]] by simp_all
  then obtain p where p: "endpoint_of (ev_client e) s = Some p" and untracked: "\<not> any_row (\<lambda>d. wd_event d = ev_id e) (handovers s)"
    by (auto simp: is_fresh_def split: option.splits)
  have mem: "p \<in> set (endpoints s)"
    using first_row_Some [OF p [unfolded endpoint_of_def]] by simp
  have url: "8 \<le> length (ep_url p)" "length (ep_url p) \<le> 2048"
    using refs mem unfolding webhook_refs_def list_all_iff by blast+
  have found: "find_endpoint (ep_id p) s = Some p"
    unfolding find_endpoint_def using refs mem by (intro first_row_unique_key) (simp_all add: webhook_refs_def)
  have event: "first_row (\<lambda>x. ev_id x = ev_id e) (wb_events s) = Some e"
    using refs e(1) by (intro first_row_unique_key) (simp_all add: webhook_refs_def)
  let ?d = "new_handover (wb_nextId s) e (ep_id p) w t (t + ms)"
  have d: "handover_check ?d" "wd_event ?d = ev_id e" "wd_id ?d = wb_nextId s" "attemptCount ?d = 0" "wd_state ?d = WH_PENDING"
    "wd_endpoint ?d = ep_id p"
    using w by (simp_all add: new_handover_def handover_check_def)
  let ?s1 = "s\<lparr>wb_nextId := Suc (wb_nextId s), handovers := handovers s @ [?d]\<rparr>"
  have ids: "list_all (\<lambda>x. wd_id x < wb_nextId s) (handovers s)"
    using good by (simp add: webhook_good_def)
  then have "insert_handover ?d (s\<lparr>wb_nextId := Suc (wb_nextId s)\<rparr>) = Inr ((), ?s1)"
    using untracked d by (auto simp: insert_handover_def any_row_iff list_all_iff)
  then have lease: "lease w ms t now s = Inr (Some (leased_of ?d), ?s1)"
    using p by (simp add: lease_def bindT_def readT_def returnT_def requireT_def fresh_webhook_id_def none fresh)
  let ?o = "answer e p"
  have at: "attempt answer (leased_of ?d) later ?s1 = record_attempt (leased_of ?d) p ?o later ?s1"
    using event found d by (simp add: attempt_def bindT_def requireT_def leased_of_def find_endpoint_def)
  have good1: "webhook_good ?s1"
    using lease_good(1) [OF good lease] .
  have acc: "ordinals (wd_event ?d) ?s1 = [1..<Suc (attemptCount ?d)]"
    using webhook_goodD(4) [OF good1, of ?d] by (simp add: accounted_def ordinals_def del: upt_Suc)
  define step where "step = nextStep (disposition ?o) (Suc (attemptCount ?d)) later"
  let ?f = "recorded (leased_of ?d) step later"
  have "\<exists>a. record_attempt (leased_of ?d) p ?o later ?s1 = Inr ((wb_nextId ?s1, step), ?s1\<lparr>wb_nextId := Suc (wb_nextId ?s1),
      attempts := attempts ?s1 @ [a], handovers := update_rows (\<lambda>x. wd_id x = wd_id ?d) ?f (handovers ?s1)\<rparr>)"
    unfolding step_def
    by (rule record_succeeds [where d = ?d and ?d0.0 = ?d, OF webhook_goodD(1) [OF good1] _ HOL.refl HOL.refl HOL.refl HOL.refl d(1,5) acc url answers])
      simp
  then obtain a where rec: "record_attempt (leased_of ?d) p ?o later ?s1 = Inr ((wb_nextId ?s1, step), ?s1\<lparr>wb_nextId := Suc (wb_nextId ?s1),
      attempts := attempts ?s1 @ [a], handovers := update_rows (\<lambda>x. wd_id x = wd_id ?d) ?f (handovers ?s1)\<rparr>)" ..
  define s2 where "s2 = ?s1\<lparr>wb_nextId := Suc (wb_nextId ?s1), attempts := attempts ?s1 @ [a], handovers := handovers s @ [?f ?d]\<rparr>"
  have rec2: "record_attempt (leased_of ?d) p ?o later ?s1 = Inr ((wb_nextId ?s1, step), s2)"
    unfolding rec s2_def using new_handover_rows [OF ids, of ?f e "ep_id p" w t "t + ms"] by (simp add: d(3))
  have same: "endpoints s2 = endpoints s" "wb_events s2 = wb_events s" "handovers s2 = handovers s @ [?f ?d]"
    by (simp_all add: s2_def)
  have ev2: "wd_event (?f ?d) = ev_id e"
    using d(2) by (simp add: recorded_def)
  have "\<not> is_due now s (?f ?d)"
    unfolding step_def by (rule recorded_not_due [OF time])
  then have due_count: "length (filter (is_due now s2) (handovers s2)) = length (filter (is_due now s) (handovers s))"
    by (simp add: same(3) is_due_same [OF same(1)])
  have "distinct (map ev_id (wb_events s))"
    using refs by (simp add: webhook_refs_def)
  then have only: "ev_id x = ev_id e \<longleftrightarrow> x = e" if "x \<in> set (wb_events s)" for x
    using unique_key [OF _ that e(1), of ev_id] by blast
  have "is_fresh s2 x \<longleftrightarrow> is_fresh s x \<and> x \<noteq> e" if "x \<in> set (wb_events s)" for x
    using only [OF that] ev2 by (auto simp: is_fresh_def endpoint_of_def same any_row_iff split: option.splits)
  then have "filter (is_fresh s2) (wb_events s2) = filter (\<lambda>x. is_fresh s x \<and> x \<noteq> e) (wb_events s)"
    unfolding same(2) by (intro filter_cong) auto
  then have "Suc (length (filter (is_fresh s2) (wb_events s2))) = length (filter (is_fresh s) (wb_events s))"
    using count_except [of "wb_events s" e "is_fresh s"] refs e by (simp add: webhook_refs_def distinct_map)
  then have "Suc (outstanding now s2) = outstanding now s"
    using due_count by (simp add: outstanding_def)
  moreover have "webhook_refs s2"
    using refs e(1) ev2 by (auto simp: webhook_refs_def same list_all_iff any_row_iff)
  ultimately show ?thesis
    using lease at rec2 by metis
qed

subsection \<open>A pass\<close>

lemma secret_detail_bounds: "1 \<le> length (secret_detail e)" "length (secret_detail e) \<le> 200"
  by (cases e; simp)+

lemma drain_clears:
  assumes "webhook_good s" and "webhook_refs s" and w: "1 \<le> length w" "length w \<le> 100"
    and answers: "\<And>e p. outcome_ok (answer e p)" "\<And>e p. honest (answer e p)"
    and "\<forall>(t, dbNow, later) \<in> set ticks. dbNow = now \<and> now \<le> later" and "outstanding now s \<le> length ticks"
  shows "\<exists>results s'. drain answer w ms ticks s = (None, results, s') \<and> outstanding now s' = 0
    \<and> length results = outstanding now s"
  using assms(1,2,7,8)
proof (induction ticks arbitrary: s)
  case Nil
  then show ?case by simp
next
  case (Cons tick ticks)
  obtain t later where tick: "tick = (t, now, later)" "now \<le> later"
    using Cons.prems(3) by (cases tick) auto
  show ?case
  proof (cases "outstanding now s = 0")
    case True
    then have "lease w ms t now s = Inr (None, s)"
      by (simp add: outstanding_zero lease_def bindT_def readT_def returnT_def)
    with True tick show ?thesis by simp
  next
    case False
    then have "\<exists>l s1 r s2. lease w ms t now s = Inr (Some l, s1) \<and> attempt answer l later s1 = Inr (r, s2)
        \<and> webhook_refs s2 \<and> Suc (outstanding now s2) = outstanding now s"
      using round_due [OF Cons.prems(1,2) w answers(1) tick(2)] round_fresh [OF Cons.prems(1,2) w answers(1) tick(2)]
      unfolding outstanding_zero by (cases "due_handover now s") auto
    then obtain l s1 r s2 where run: "lease w ms t now s = Inr (Some l, s1)" "attempt answer l later s1 = Inr (r, s2)"
      "webhook_refs s2" "Suc (outstanding now s2) = outstanding now s"
      by blast
    obtain e p where "record_attempt l p (answer e p) later s1 = Inr (r, s2)"
      using run(2) by (auto simp: attempt_def tx_simps)
    then have "webhook_good s2"
      using record_good(1) [OF lease_good(1) [OF Cons.prems(1) run(1)] lease_good(3) [OF Cons.prems(1) run(1) HOL.refl] answers(2)] by blast
    from Cons.IH [OF this run(3)] Cons.prems(3,4) run(4)
    obtain results s' where "drain answer w ms ticks s2 = (None, results, s')" "outstanding now s' = 0"
      "length results = outstanding now s2"
      by auto
    with run tick show ?thesis by simp
  qed
qed

text \<open>
  C13: Whatever the receivers answer, a pass with enough rounds attempts every handover that is due and
  every eligible event that never had one, exactly once each, without an error: nothing due is left.
\<close>

theorem pass_leaves_nothing_due:
  assumes "webhook_good s" and "webhook_refs s" and "1 \<le> length w \<and> length w \<le> 100"
    and "\<And>rq status. fetcher net rq = Responded status \<Longrightarrow> 100 \<le> status \<and> status \<le> 599"
    and "\<forall>(t, dbNow, later) \<in> set ticks. dbNow = now \<and> now \<le> later" and "outstanding now s \<le> length ticks"
  shows "\<exists>results s'. drain (send net insecure decrypt sentAt) w ms ticks s = (None, results, s')
    \<and> length results = outstanding now s \<and> due_handover now s' = None \<and> fresh_event s' = None"
proof -
  have ok: "outcome_ok (send net insecure decrypt sentAt e p)" for e p
  proof -
    have "outcome_ok (fst (attemptWebhookDelivery net insecure sentAt k u e))" for k u
      by (rule attempt_outcome_ok) (rule assms(4))
    then show ?thesis
      using secret_detail_bounds by (simp add: send_def split: option.splits sum.splits)
  qed
  show ?thesis
    using drain_clears [where answer = "send net insecure decrypt sentAt", OF assms(1,2) _ _ ok honest_send assms(5,6)] assms(3)
    unfolding outstanding_zero by blast
qed

end
