(* ===== verification/Webhook_Scenarios.thy ===== *)
theory Webhook_Scenarios imports Webhook_History Webhook_Progress begin

text \<open>
  One client, one endpoint, one delivered service: the states its event goes through, and the properties
  of reliable delivery at them.
\<close>

definition sample_endpoint :: webhook_endpoint where
  "sample_endpoint =
     \<lparr>ep_id = 1, ep_client = 1, ep_url = ''https://api.example.com/hook'', ep_enabled = True, deliverFrom = 0,
      secretCiphertext = Some ''v1''\<rparr>"

definition wb_recorded :: webhook_db where
  "wb_recorded = \<lparr>wb_events = [sample_event], endpoints = [sample_endpoint], handovers = [], attempts = [], wb_nextId = 100\<rparr>"

definition sample_leased :: leased where
  "sample_leased =
     \<lparr>ls_id = 100, ls_event = 7, ls_client = 1, ls_endpoint = 1, ls_attemptCount = 0, ls_deliveredAt = None,
      ls_exhaustedAt = None\<rparr>"

definition leased_row :: webhook_delivery where
  "leased_row =
     \<lparr>wd_id = 100, wd_event = 7, wd_client = 1, wd_endpoint = 1, wd_state = WH_PENDING, attemptCount = 0,
      wd_nextAttemptAt = Some 2000, leaseOwner = Some ''w1'', leaseExpiresAt = Some 62000, lastAttemptAt = None,
      wd_deliveredAt = None, exhaustedAt = None\<rparr>"

definition wb_leased :: webhook_db where
  "wb_leased =
     \<lparr>wb_events = [sample_event], endpoints = [sample_endpoint], handovers = [leased_row], attempts = [], wb_nextId = 101\<rparr>"

definition sample_attempt :: "attempt_outcome \<Rightarrow> webhook_attempt" where
  "sample_attempt outcome =
     \<lparr>at_id = 101, at_event = 7, at_client = 1, at_endpoint = 1, at_url = ''https://api.example.com/hook'',
      attemptNumber = Some 1, attemptedAt = 3000, at_outcome = outcome\<rparr>"

definition delivered_row :: webhook_delivery where
  "delivered_row =
     \<lparr>wd_id = 100, wd_event = 7, wd_client = 1, wd_endpoint = 1, wd_state = WH_DELIVERED, attemptCount = 1,
      wd_nextAttemptAt = None, leaseOwner = None, leaseExpiresAt = None, lastAttemptAt = Some 3000,
      wd_deliveredAt = Some 3000, exhaustedAt = None\<rparr>"

definition exhausted_row :: webhook_delivery where
  "exhausted_row =
     \<lparr>wd_id = 100, wd_event = 7, wd_client = 1, wd_endpoint = 1, wd_state = WH_EXHAUSTED, attemptCount = 1,
      wd_nextAttemptAt = None, leaseOwner = None, leaseExpiresAt = None, lastAttemptAt = Some 3000,
      wd_deliveredAt = None, exhaustedAt = Some 3000\<rparr>"

definition wb_delivered :: webhook_db where
  "wb_delivered =
     \<lparr>wb_events = [sample_event], endpoints = [sample_endpoint], handovers = [delivered_row],
      attempts = [sample_attempt (Succeeded 204 12)], wb_nextId = 102\<rparr>"

definition wb_exhausted :: webhook_db where
  "wb_exhausted =
     \<lparr>wb_events = [sample_event], endpoints = [sample_endpoint], handovers = [exhausted_row],
      attempts = [sample_attempt (Failed HTTP_STATUS ''HTTP_404'' (Some 404) 12)], wb_nextId = 102\<rparr>"

text \<open>A receiver that is down, behind the same endpoint.\<close>

definition down_net :: transport where
  "down_net = sample_net\<lparr>fetcher := (\<lambda>rq. Rejected ''TimeoutError'')\<rparr>"

lemma wb_runs:
  "lease ''w1'' 60000 2000 2000 wb_recorded = Inr (Some sample_leased, wb_leased)
   \<and> record_attempt sample_leased sample_endpoint (Succeeded 204 12) 3000 wb_leased = Inr ((101, NextDelivered), wb_delivered)
   \<and> record_attempt sample_leased sample_endpoint (Failed HTTP_STATUS ''HTTP_404'' (Some 404) 12) 3000 wb_leased
       = Inr ((101, NextExhausted), wb_exhausted)"
  by code_simp

lemma wb_good: "webhook_good wb_delivered \<and> webhook_good wb_exhausted \<and> webhook_good wb_recorded \<and> webhook_refs wb_recorded"
  by code_simp

lemma wb_pushes:
  "deliver_begin ''w2'' 60000 7 9000 wb_delivered
     = Inr (Tracked (held_row sample_event sample_endpoint delivered_row) sample_endpoint, wb_delivered)
   \<and> deliver_begin ''w2'' 60000 7 9000 wb_exhausted
     = Inr (Tracked (held_row sample_event sample_endpoint exhausted_row) sample_endpoint, wb_exhausted)"
  by code_simp

lemma sample_send: "send sample_net False (\<lambda>c. Inr ''k'') 2500 sample_event sample_endpoint = Succeeded 204 12"
proof -
  have "fst (attemptWebhookDelivery sample_net False 2500 (Some ''k'') ''https://api.example.com/hook'' sample_event) = Succeeded 204 12"
    by (simp add: attemptWebhookDelivery_def sample_target Let_def) (simp add: sample_net_def)
  then show ?thesis
    by (simp add: send_def sample_endpoint_def)
qed

lemma down_send: "\<not> is_success (send down_net False (\<lambda>c. Inr ''k'') at sample_event sample_endpoint)"
  by (simp add: send_def sample_endpoint_def attemptWebhookDelivery_def down_net_def Let_def split: sum.splits)

lemma wb_reached: "rtranclp webhook_step (wb_recorded, []) (wb_delivered, [])"
proof -
  have "webhook_step (wb_recorded, []) (wb_leased, [(sample_leased, None)])"
    using wb_runs by (blast intro: worker_leases)
  moreover have "webhook_step (wb_leased, [(sample_leased, None)]) (wb_leased, [(sample_leased, Some (sample_endpoint, Succeeded 204 12))])"
    using worker_sends [where l = sample_leased and s = wb_leased and event = sample_event and p = sample_endpoint and xs = "[]"
        and ys = "[]" and net = sample_net and insecure = False and decrypt = "\<lambda>c. Inr ''k''" and now = 2500] sample_send
    by (simp add: wb_leased_def sample_leased_def sample_event_def sample_endpoint_def first_row_def find_endpoint_def)
  moreover have "webhook_step (wb_leased, [(sample_leased, Some (sample_endpoint, Succeeded 204 12))]) (wb_delivered, [])"
    using answer_recorded [where xs = "[]" and ys = "[]"] wb_runs by fastforce
  ultimately show ?thesis
    by (meson converse_rtranclp_into_rtranclp r_into_rtranclp)
qed

theorem handovers_are_accounted_witness:
  "ordinals 7 wb_delivered = [1..<2] \<and> (\<exists>a \<in> set (tracked 7 wb_delivered). is_success (at_outcome a))"
  using handovers_are_accounted [OF wb_reached, of delivered_row]
  by (simp add: wb_recorded_def wb_delivered_def delivered_row_def numeral_2_eq_2)

theorem delivery_is_stamped_once_witness:
  "\<exists>d' \<in> set (handovers wb_delivered). wd_event d' = 7 \<and> wd_deliveredAt d' = Some 3000"
  using delivery_is_stamped_once [of wb_delivered "[]" wb_delivered "[]" delivered_row]
  by (auto simp: wb_delivered_def delivered_row_def)

theorem failed_redelivery_is_not_recorded_witness:
  "\<exists>l err. deliver_begin ''w2'' 60000 7 9000 wb_delivered = Inr (Tracked l sample_endpoint, wb_delivered)
     \<and> record_attempt l sample_endpoint (send down_net False (\<lambda>c. Inr ''k'') 9000 sample_event sample_endpoint) 9500 wb_delivered = Inl err"
proof -
  obtain l where run: "deliver_begin ''w2'' 60000 7 9000 wb_delivered = Inr (Tracked l sample_endpoint, wb_delivered)"
    using wb_pushes by blast
  have "delivered_row \<in> set (handovers wb_delivered)" "wd_event delivered_row = 7" "wd_state delivered_row = WH_DELIVERED"
    by (simp_all add: wb_delivered_def delivered_row_def)
  with failed_redelivery_is_not_recorded [OF _ run _ _ _ HOL.refl down_send] wb_good run show ?thesis
    by blast
qed

theorem retry_of_exhausted_is_not_recorded_witness:
  "\<exists>l p err. deliver_begin ''w2'' 60000 7 9000 wb_exhausted = Inr (Tracked l p, wb_exhausted)
     \<and> record_attempt l p (Failed TIMEOUT ''TIMEOUT'' None 5000) 9500 wb_exhausted = Inl err"
proof -
  obtain l p where run: "deliver_begin ''w2'' 60000 7 9000 wb_exhausted = Inr (Tracked l p, wb_exhausted)"
    using wb_pushes by blast
  have "exhausted_row \<in> set (handovers wb_exhausted)" "wd_event exhausted_row = 7" "wd_state exhausted_row = WH_EXHAUSTED"
    "attemptCount exhausted_row < 4" "disposition (Failed TIMEOUT ''TIMEOUT'' None 5000) = RETRYABLE"
    by (simp_all add: wb_exhausted_def exhausted_row_def)
  with retry_of_exhausted_is_not_recorded [OF _ run] wb_good run show ?thesis
    by blast
qed

theorem pass_leaves_nothing_due_witness:
  "outstanding 2000 wb_recorded = 1 \<and> (\<exists>results s'. drain (send sample_net False (\<lambda>c. Inr ''k'') 2500) ''w1'' 60000
     [(2000, 2000, 3000)] wb_recorded = (None, results, s') \<and> length results = 1 \<and> fresh_event s' = None)"
proof -
  have one: "outstanding 2000 wb_recorded = 1"
    by code_simp
  have "\<And>rq status. fetcher sample_net rq = Responded status \<Longrightarrow> 100 \<le> status \<and> status \<le> 599"
    by (simp add: sample_net_def)
  then have "\<exists>results s'. drain (send sample_net False (\<lambda>c. Inr ''k'') 2500) ''w1'' 60000 [(2000, 2000, 3000)] wb_recorded
      = (None, results, s') \<and> length results = outstanding 2000 wb_recorded \<and> due_handover 2000 s' = None \<and> fresh_event s' = None"
    using wb_good one by (intro pass_leaves_nothing_due) auto
  then show ?thesis
    using one by auto
qed

end
