(* ===== verification/Prequote_Quota.thy ===== *)
theory Prequote_Quota imports Mandaria_Prelude "HOL-Library.Multiset" begin

text \<open>
  When a client may ask for another prequote (src/src/delivery-prequotes/consumption-policy.ts): four
  limits over the permits of a sliding window, and the instant from which a refused client fits again.
  \<open>Infinity\<close> is \<open>None\<close>. The lemmas show that this instant is the least one at which the limits hold.
\<close>

subsection \<open>Limits\<close>

record limits =
  minute :: int
  day :: int
  concurrent :: int
  globalUnits :: int
  reserveMs :: int
  retries :: int
  timeoutMs :: int

definition routingProtectionMs :: "limits \<Rightarrow> int" where
  "routingProtectionMs c = timeoutMs c * (retries c + 1) + 100 * retries c * (retries c + 1) + 15000"

definition validateConsumptionLimits :: "limits \<Rightarrow> limits option" where
  "validateConsumptionLimits c =
     (if list_all (\<lambda>(n, low, high). isSafeInteger (Integral n) \<and> \<not> n < low \<and> \<not> n > high)
         [(minute c, 1, 10000), (day c, 1, 1000000), (concurrent c, 1, 100), (globalUnits c, retries c + 1, 1000000),
          (reserveMs c, 1000, 300000), (retries c, 0, 2), (timeoutMs c, 1000, 15000)]
      then Some c else None)"

subsection \<open>Permits\<close>

datatype permit_state = RESERVED | STARTED | FINISHED | PERMIT_CANCELLED | PERMIT_EXPIRED | ABANDONED

record permit =
  pm_id :: id
  pm_client :: id
  ownerHash :: string
  policyFingerprint :: string
  pm_state :: permit_state
  units :: int
  routingBudgetMs :: int
  reservedAt :: instant
  reserveExpiresAt :: instant
  startedAt :: "instant option"
  startBy :: "instant option"
  protectedUntil :: "instant option"
  finishedAt :: "instant option"
  routingReported :: "bool option"
  publishedReported :: "bool option"

type_synonym entry = "int \<times> instant" \<comment> \<open>units, until\<close>

subsection \<open>The projection\<close>

text \<open>The loop of \<open>availableAt\<close> over the entries sorted by \<open>until\<close>.\<close>

fun release_loop :: "int \<Rightarrow> int \<Rightarrow> int \<Rightarrow> entry list \<Rightarrow> instant option" where
  "release_loop used limit need [] = None"
| "release_loop used limit need (e # es) =
     (if used - fst e + need \<le> limit then Some (snd e) else release_loop (used - fst e) limit need es)"

definition availableAt :: "entry list \<Rightarrow> int \<Rightarrow> int \<Rightarrow> instant \<Rightarrow> instant option" where
  "availableAt entries limit need now =
     (let used = sum_list (map fst entries) in
      if used + need \<le> limit then Some now else release_loop used limit need (sort_key snd entries))"

definition window_until :: "int \<Rightarrow> permit \<Rightarrow> instant" where
  "window_until ms r =
     (case startedAt r of
        Some s \<Rightarrow> s + ms
      | None \<Rightarrow> (if pm_state r = RESERVED then reserveExpiresAt r else 0))"

definition slot_until :: "permit \<Rightarrow> instant" where
  "slot_until r =
     (case startedAt r of
        Some s \<Rightarrow> the (protectedUntil r)
      | None \<Rightarrow> (if pm_state r = RESERVED then reserveExpiresAt r else 0))"

definition entries_of :: "(permit \<Rightarrow> instant) \<Rightarrow> (permit \<Rightarrow> int) \<Rightarrow> instant \<Rightarrow> permit list \<Rightarrow> entry list" where
  "entries_of until weight t rows = map (\<lambda>r. (weight r, until r)) (filter (\<lambda>r. until r > t) rows)"

definition own :: "id \<Rightarrow> permit list \<Rightarrow> permit list" where
  "own client rows = filter (\<lambda>r. pm_client r = client) rows"

fun later_of :: "instant option \<Rightarrow> instant option \<Rightarrow> instant option" where
  "later_of (Some a) (Some b) = Some (max a b)"
| "later_of _ _ = None"

text \<open>\<open>None\<close> admits; \<open>Some (Some r)\<close> is the instant to retry at; \<open>Some None\<close> would be a date that never comes.\<close>

definition consumptionRetryAt :: "permit list \<Rightarrow> id \<Rightarrow> limits \<Rightarrow> instant \<Rightarrow> instant option option" where
  "consumptionRetryAt rows client c t =
     (let retry = later_of (later_of
            (availableAt (entries_of (window_until 60000) (\<lambda>_. 1) t (own client rows)) (minute c) 1 t)
            (availableAt (entries_of (window_until 86400000) (\<lambda>_. 1) t (own client rows)) (day c) 1 t))
          (later_of
            (availableAt (entries_of slot_until (\<lambda>_. 1) t (own client rows)) (concurrent c) 1 t)
            (availableAt (entries_of (window_until 86400000) units t rows) (globalUnits c) (retries c + 1) t)) in
      case retry of None \<Rightarrow> Some None | Some r \<Rightarrow> (if r > t then Some (Some r) else None))"

subsection \<open>What the projection computes\<close>

text \<open>The units still held at an instant.\<close>

definition load :: "entry list \<Rightarrow> instant \<Rightarrow> int" where
  "load es u = sum_list (map fst (filter (\<lambda>e. snd e > u) es))"

lemma load_Nil [simp]: "load [] u = 0"
  and load_Cons [simp]: "load (e # es) u = (if snd e > u then fst e + load es u else load es u)"
  by (simp_all add: load_def)

lemma load_nonneg: "\<forall>e \<in> set es. 0 \<le> fst e \<Longrightarrow> 0 \<le> load es u"
  by (induction es) auto

lemma load_antimono: "\<forall>e \<in> set es. 0 \<le> fst e \<Longrightarrow> u \<le> v \<Longrightarrow> load es v \<le> load es u"
  by (induction es) (auto simp: load_nonneg)

lemma load_all: "\<forall>e \<in> set es. u < snd e \<Longrightarrow> load es u = sum_list (map fst es)"
  by (induction es) auto

lemma load_none: "\<forall>e \<in> set es. snd e \<le> u \<Longrightarrow> load es u = 0"
  by (induction es) auto

lemma load_filter: "load es u = sum_mset (image_mset fst (filter_mset (\<lambda>e. snd e > u) (mset es)))"
  by (induction es) auto

lemma load_sort: "load (sort_key k es) u = load es u"
  by (simp add: load_filter)

lemma sum_sort: "sum_list (map fst (sort_key k es)) = sum_list (map (fst :: int \<times> 'b \<Rightarrow> int) es)"
  by (metis mset_map mset_sort sum_mset_sum_list)

lemma release_loop_in: "release_loop used limit need es = Some u \<Longrightarrow> u \<in> snd ` set es"
  by (induction es arbitrary: used) (auto split: if_splits)

lemma release_loop_least:
  assumes "sorted (map snd es)" "\<forall>e \<in> set es. 0 \<le> fst e \<and> now < snd e" "used = sum_list (map fst es)"
    and "release_loop used limit need es = Some u" "limit < used + need"
  shows "now < u \<and> load es u + need \<le> limit \<and> (\<forall>v. now \<le> v \<and> v < u \<longrightarrow> limit < load es v + need)"
  using assms
proof (induction es arbitrary: used)
  case (Cons e es)
  show ?case
  proof (cases "used - fst e + need \<le> limit")
    case True
    then have u: "u = snd e" using Cons.prems(4) by simp
    have "load es u \<le> sum_list (map fst es)"
      using load_antimono [of es now u] load_all [of es now] Cons.prems(2) u by auto
    moreover have "load (e # es) v = used" if "v < u" for v
      using that Cons.prems(1,3) u load_all [of "e # es" v] by fastforce
    ultimately show ?thesis
      using True Cons.prems(2,3,5) u by auto
  next
    case False
    have run: "release_loop (used - fst e) limit need es = Some u"
      using Cons.prems(4) False by simp
    have "snd e \<le> u"
      using release_loop_in [OF run] Cons.prems(1) by auto
    with Cons.IH [of "used - fst e"] run Cons.prems(1-3) False show ?thesis
      by force
  qed
qed simp

lemma release_loop_exists:
  "used = sum_list (map fst es) \<Longrightarrow> need \<le> limit \<Longrightarrow> es \<noteq> [] \<Longrightarrow> release_loop used limit need es \<noteq> None"
proof (induction es arbitrary: used)
  case (Cons e es)
  then show ?case by (cases es) auto
qed simp

text \<open>\<open>availableAt\<close> answers the least instant at which the limit leaves room.\<close>

lemma availableAt_least:
  assumes "\<forall>e \<in> set es. 0 \<le> fst e \<and> now < snd e" "need \<le> limit"
  shows "\<exists>u. availableAt es limit need now = Some u \<and> now \<le> u
    \<and> (\<forall>v \<ge> now. load es v + need \<le> limit \<longleftrightarrow> u \<le> v)"
proof (cases "sum_list (map fst es) + need \<le> limit")
  case True
  then have "load es v + need \<le> limit" if "now \<le> v" for v
    using load_antimono [of es now v] load_all [of es now] assms(1) that by auto
  then show ?thesis
    using True by (auto simp: availableAt_def)
next
  case False
  then have "es \<noteq> []"
    using assms(2) by auto
  then have "sort_key snd es \<noteq> []"
    by (metis set_empty set_sort)
  then obtain u where u: "release_loop (sum_list (map fst es)) limit need (sort_key snd es) = Some u"
    using release_loop_exists [of "sum_list (map fst es)" "sort_key snd es"] assms(2) sum_sort [of snd es] by auto
  have "now < u \<and> load (sort_key snd es) u + need \<le> limit \<and>
      (\<forall>v. now \<le> v \<and> v < u \<longrightarrow> limit < load (sort_key snd es) v + need)"
    by (rule release_loop_least [OF _ _ _ u]) (use False assms(1) sum_sort [of snd es] in auto)
  then have *: "now < u" "load es u + need \<le> limit" "\<forall>v. now \<le> v \<and> v < u \<longrightarrow> limit < load es v + need"
    by (simp_all add: load_sort)
  have "load es v + need \<le> limit" if "u \<le> v" for v
    using load_antimono [of es u v] assms(1) that *(2) by auto
  with * have "\<forall>v \<ge> now. load es v + need \<le> limit \<longleftrightarrow> u \<le> v"
    by (meson leD not_le)
  then show ?thesis
    using False u *(1) by (auto simp: availableAt_def)
qed

subsection \<open>The first instant that fits\<close>

text \<open>The weight that the rows of a window hold at an instant, and the four limits with room for one more.\<close>

definition held :: "(permit \<Rightarrow> instant) \<Rightarrow> (permit \<Rightarrow> int) \<Rightarrow> instant \<Rightarrow> permit list \<Rightarrow> int" where
  "held until weight v rows = sum_list (map weight (filter (\<lambda>r. until r > v) rows))"

definition room :: "permit list \<Rightarrow> id \<Rightarrow> limits \<Rightarrow> instant \<Rightarrow> bool" where
  "room rows client c v \<longleftrightarrow>
     held (window_until 60000) (\<lambda>_. 1) v (own client rows) + 1 \<le> minute c
     \<and> held (window_until 86400000) (\<lambda>_. 1) v (own client rows) + 1 \<le> day c
     \<and> held slot_until (\<lambda>_. 1) v (own client rows) + 1 \<le> concurrent c
     \<and> held (window_until 86400000) units v rows + (retries c + 1) \<le> globalUnits c"

lemma load_entries: "t \<le> v \<Longrightarrow> load (entries_of until weight t rows) v = held until weight v rows"
  by (induction rows) (auto simp: entries_of_def held_def load_def)

lemma availableAt_entries:
  assumes "\<forall>r \<in> set rows. 0 \<le> weight r" "need \<le> limit"
  shows "\<exists>u. availableAt (entries_of until weight t rows) limit need t = Some u \<and> t \<le> u
    \<and> (\<forall>v \<ge> t. held until weight v rows + need \<le> limit \<longleftrightarrow> u \<le> v)"
proof -
  have "\<forall>e \<in> set (entries_of until weight t rows). 0 \<le> fst e \<and> t < snd e"
    using assms(1) by (auto simp: entries_of_def)
  from availableAt_least [OF this assms(2)] show ?thesis
    by (auto simp: load_entries)
qed

lemma first_room:
  assumes "validateConsumptionLimits c = Some c" and "\<forall>r \<in> set rows. 0 \<le> units r"
  shows "case consumptionRetryAt rows client c t of
      None \<Rightarrow> room rows client c t
    | Some None \<Rightarrow> False
    | Some (Some r) \<Rightarrow> t < r \<and> room rows client c r \<and> (\<forall>v. t \<le> v \<and> v < r \<longrightarrow> \<not> room rows client c v)"
proof -
  have limits: "1 \<le> minute c" "1 \<le> day c" "1 \<le> concurrent c" "retries c + 1 \<le> globalUnits c"
    using assms(1) by (auto simp: validateConsumptionLimits_def split: if_splits)
  have one: "\<forall>r \<in> set (own client rows). 0 \<le> (1 :: int)"
    by simp
  obtain a where a: "availableAt (entries_of (window_until 60000) (\<lambda>_. 1) t (own client rows)) (minute c) 1 t = Some a"
    "\<And>v. t \<le> v \<Longrightarrow> held (window_until 60000) (\<lambda>_. 1) v (own client rows) + 1 \<le> minute c \<longleftrightarrow> a \<le> v"
    using availableAt_entries [OF one limits(1)] by blast
  obtain b where b: "availableAt (entries_of (window_until 86400000) (\<lambda>_. 1) t (own client rows)) (day c) 1 t = Some b"
    "\<And>v. t \<le> v \<Longrightarrow> held (window_until 86400000) (\<lambda>_. 1) v (own client rows) + 1 \<le> day c \<longleftrightarrow> b \<le> v"
    using availableAt_entries [OF one limits(2)] by blast
  obtain s where s: "availableAt (entries_of slot_until (\<lambda>_. 1) t (own client rows)) (concurrent c) 1 t = Some s"
    "\<And>v. t \<le> v \<Longrightarrow> held slot_until (\<lambda>_. 1) v (own client rows) + 1 \<le> concurrent c \<longleftrightarrow> s \<le> v"
    using availableAt_entries [OF one limits(3)] by blast
  obtain g where g: "availableAt (entries_of (window_until 86400000) units t rows) (globalUnits c) (retries c + 1) t = Some g"
    "\<And>v. t \<le> v \<Longrightarrow> held (window_until 86400000) units v rows + (retries c + 1) \<le> globalUnits c \<longleftrightarrow> g \<le> v"
    using availableAt_entries [OF assms(2) limits(4)] by blast
  define m where "m = max (max a b) (max s g)"
  have room: "room rows client c v \<longleftrightarrow> m \<le> v" if "t \<le> v" for v
    unfolding room_def m_def a(2) [OF that] b(2) [OF that] s(2) [OF that] g(2) [OF that] by auto
  have "consumptionRetryAt rows client c t = (if m > t then Some (Some m) else None)"
    by (simp add: consumptionRetryAt_def a(1) b(1) s(1) g(1) m_def Let_def)
  then show ?thesis
    using room by auto
qed

text \<open>
  C27: For limits that pass validation, a client is admitted exactly when the four windows have room, and
  otherwise told the first instant at which they will: at every earlier one it would still be refused.
\<close>

theorem retry_is_the_first_room:
  assumes "validateConsumptionLimits c = Some c" and "\<forall>r \<in> set rows. 0 \<le> units r"
  shows "case consumptionRetryAt rows client c t of
      None \<Rightarrow> room rows client c t
    | Some None \<Rightarrow> False
    | Some (Some r) \<Rightarrow> t < r \<and> room rows client c r \<and> (\<forall>v. t \<le> v \<and> v < r \<longrightarrow> \<not> room rows client c v)"
  using assms by (rule first_room)

definition sample_limits :: limits where
  "sample_limits =
     \<lparr>minute = 2, day = 100, concurrent = 5, globalUnits = 10, reserveMs = 30000, retries = 1, timeoutMs = 5000\<rparr>"

definition sample_permit :: "id \<Rightarrow> instant \<Rightarrow> permit" where
  "sample_permit i t =
     \<lparr>pm_id = i, pm_client = 1, ownerHash = ''o'', policyFingerprint = ''f'', pm_state = STARTED, units = 2,
      routingBudgetMs = 25400, reservedAt = t, reserveExpiresAt = t + 30000, startedAt = Some t, startBy = Some (t + 5000),
      protectedUntil = Some (t + 25400), finishedAt = None, routingReported = None, publishedReported = None\<rparr>"

theorem retry_is_the_first_room_witness:
  "consumptionRetryAt [sample_permit 1 1000, sample_permit 2 9000] 1 sample_limits 10000 = Some (Some 61000)
   \<and> room [sample_permit 1 1000, sample_permit 2 9000] 1 sample_limits 61000"
proof -
  have run: "consumptionRetryAt [sample_permit 1 1000, sample_permit 2 9000] 1 sample_limits 10000 = Some (Some 61000)
      \<and> validateConsumptionLimits sample_limits = Some sample_limits"
    by code_simp
  moreover have "\<forall>r \<in> set [sample_permit 1 1000, sample_permit 2 9000]. 0 \<le> units r"
    by (simp add: sample_permit_def)
  ultimately show ?thesis
    using retry_is_the_first_room [of sample_limits "[sample_permit 1 1000, sample_permit 2 9000]" 1 10000] by simp
qed

end
