(* ===== verification/Prequote_Consumption.thy ===== *)
theory Prequote_Consumption imports Prequote_Quota begin

text \<open>
  The durable permits of a prequote (src/src/delivery-prequotes/durable-prequote-consumption.ts) with
  the guards of migration 20260928000300_prequote_consumption. Every write runs under one advisory lock,
  so each is one step on the table; \<open>time\<close> is the database clock it reads, \<open>sqlNow\<close> the one its guards
  read later. SHA-256, JSON and the random owner are arguments. The lemmas show that the limits hold in
  every state, whatever admissions, starts, ends and crashes come in between.
\<close>

subsection \<open>The tables\<close>

record quota_db =
  pq_policy :: "string option"
  permits :: "permit list"
  pq_nextId :: id

datatype quota_error =
  PREQUOTE_DISABLED
| PREQUOTE_CONSUMPTION_UNAVAILABLE
| PREQUOTE_PERMIT_INVALID
| PERMIT_RAISED
| PERMIT_CHECK
| PERMIT_ROW_MISSING

type_synonym 'a qtx = "(quota_error, quota_db, 'a) tx"

record quota_config =
  qc_enabled :: bool
  qc_limits :: limits
  sha256 :: "string \<Rightarrow> string"
  limits_json :: "limits \<Rightarrow> string"

definition hex64 :: "string \<Rightarrow> bool" where
  "hex64 s \<longleftrightarrow> length s = 64 \<and> list_all (\<lambda>ch. ch \<in> set ''0123456789abcdef'') s"

definition span_ok :: "permit \<Rightarrow> bool" where
  "span_ok r \<longleftrightarrow>
     (case (startedAt r, startBy r, protectedUntil r) of
        (None, None, None) \<Rightarrow> pm_state r \<in> {RESERVED, PERMIT_CANCELLED, PERMIT_EXPIRED}
      | (Some s, Some b, Some u) \<Rightarrow>
          pm_state r \<in> {STARTED, FINISHED, ABANDONED} \<and> reservedAt r \<le> s \<and> s < reserveExpiresAt r
          \<and> b = s + 5000 \<and> u = s + routingBudgetMs r
      | _ \<Rightarrow> False)"

definition permit_check :: "permit \<Rightarrow> bool" where
  "permit_check r \<longleftrightarrow>
     hex64 (ownerHash r) \<and> hex64 (policyFingerprint r)
     \<and> 1 \<le> units r \<and> units r \<le> 3 \<and> 16000 \<le> routingBudgetMs r \<and> routingBudgetMs r \<le> 60600
     \<and> reservedAt r < reserveExpiresAt r \<and> reserveExpiresAt r \<le> reservedAt r + 300000
     \<and> span_ok r
     \<and> (if pm_state r \<in> {RESERVED, STARTED}
        then finishedAt r = None \<and> routingReported r = None \<and> publishedReported r = None
        else (case finishedAt r of None \<Rightarrow> False | Some f \<Rightarrow> reservedAt r \<le> f))
     \<and> (pm_state r = PERMIT_CANCELLED \<longrightarrow> routingReported r = Some False \<and> publishedReported r = Some False)"

text \<open>The columns the guard calls the identity of a permit.\<close>

definition permit_identity :: "permit \<Rightarrow> id \<times> id \<times> string \<times> string \<times> int \<times> int \<times> instant \<times> instant" where
  "permit_identity r =
     (pm_id r, pm_client r, ownerHash r, policyFingerprint r, units r, routingBudgetMs r, reservedAt r, reserveExpiresAt r)"

definition permit_guard :: "instant \<Rightarrow> permit \<Rightarrow> permit \<Rightarrow> bool" where
  "permit_guard sqlNow old new \<longleftrightarrow>
     permit_identity new = permit_identity old \<and>
     (case pm_state old of
        RESERVED \<Rightarrow>
          pm_state new \<in> {STARTED, PERMIT_CANCELLED, PERMIT_EXPIRED}
          \<and> \<not> (pm_state new = STARTED \<and> reserveExpiresAt old \<le> sqlNow)
          \<and> \<not> (pm_state new = PERMIT_EXPIRED \<and> reserveExpiresAt old > sqlNow)
      | STARTED \<Rightarrow>
          pm_state new \<in> {FINISHED, ABANDONED} \<and> startedAt new = startedAt old \<and> startBy new = startBy old
          \<and> protectedUntil new = protectedUntil old
          \<and> \<not> (pm_state new = ABANDONED \<and> the (protectedUntil old) > sqlNow)
      | _ \<Rightarrow> False)"

definition find_permit :: "id \<Rightarrow> quota_db \<Rightarrow> permit option" where
  "find_permit i s = first_row (\<lambda>r. pm_id r = i) (permits s)"

definition update_permit :: "instant \<Rightarrow> id \<Rightarrow> (permit \<Rightarrow> permit) \<Rightarrow> unit qtx" where
  "update_permit sqlNow i change s =
     (case find_permit i s of
        None \<Rightarrow> Inl PERMIT_ROW_MISSING
      | Some old \<Rightarrow>
          (if \<not> permit_guard sqlNow old (change old) then Inl PERMIT_RAISED
           else if \<not> permit_check (change old) then Inl PERMIT_CHECK
           else Inr ((), s\<lparr>permits := update_rows (\<lambda>r. pm_id r = i) change (permits s)\<rparr>)))"

definition insert_permit :: "permit \<Rightarrow> unit qtx" where
  "insert_permit r s =
     (if pm_state r \<noteq> RESERVED then Inl PERMIT_RAISED
      else if \<not> permit_check r then Inl PERMIT_CHECK
      else if any_row (\<lambda>x. pm_id x = pm_id r) (permits s) then Inl PERMIT_CHECK
      else Inr ((), s\<lparr>permits := permits s @ [r]\<rparr>))"

subsection \<open>The policy\<close>

definition policy :: "quota_config \<Rightarrow> quota_error + (limits \<times> string)" where
  "policy cfg =
     (if \<not> qc_enabled cfg then Inl PREQUOTE_DISABLED
      else case validateConsumptionLimits (qc_limits cfg) of
        None \<Rightarrow> Inl PREQUOTE_CONSUMPTION_UNAVAILABLE
      | Some c \<Rightarrow> Inr (c, sha256 cfg (limits_json cfg c)))"

text \<open>The first configuration that runs is stored; any other finds the service unavailable.\<close>

definition checkedPolicy :: "quota_config \<Rightarrow> (limits \<times> string) qtx" where
  "checkedPolicy cfg s =
     (case policy cfg of
        Inl e \<Rightarrow> Inl e
      | Inr (c, print) \<Rightarrow>
          (let stored = (case pq_policy s of None \<Rightarrow> print | Some f \<Rightarrow> f) in
           if stored \<noteq> print then Inl PREQUOTE_CONSUMPTION_UNAVAILABLE
           else Inr ((c, print), s\<lparr>pq_policy := Some stored\<rparr>)))"

subsection \<open>Admission\<close>

definition is_lapsed :: "instant \<Rightarrow> permit \<Rightarrow> bool" where
  "is_lapsed time r \<longleftrightarrow>
     (pm_state r = RESERVED \<and> reserveExpiresAt r \<le> time)
     \<or> (pm_state r = STARTED \<and> (case protectedUntil r of None \<Rightarrow> False | Some u \<Rightarrow> u \<le> time))"

definition lapsed :: "permit_state \<Rightarrow> instant \<Rightarrow> permit \<Rightarrow> permit" where
  "lapsed was time r =
     r\<lparr>pm_state := (if was = RESERVED then PERMIT_EXPIRED else ABANDONED), finishedAt := Some time\<rparr>"

definition is_counted :: "instant \<Rightarrow> permit \<Rightarrow> bool" where
  "is_counted time r \<longleftrightarrow>
     (pm_state r = RESERVED \<and> reserveExpiresAt r > time)
     \<or> (case startedAt r of None \<Rightarrow> False | Some s \<Rightarrow> s > time - 86400000)
     \<or> (case protectedUntil r of None \<Rightarrow> False | Some u \<Rightarrow> u > time)"

datatype admission = Refused "instant option" | Admitted id

definition new_permit :: "quota_config \<Rightarrow> limits \<Rightarrow> string \<Rightarrow> id \<Rightarrow> id \<Rightarrow> string \<Rightarrow> instant \<Rightarrow> permit" where
  "new_permit cfg c print i client owner time =
     \<lparr>pm_id = i, pm_client = client, ownerHash = sha256 cfg owner, policyFingerprint = print, pm_state = RESERVED,
      units = retries c + 1, routingBudgetMs = routingProtectionMs c, reservedAt = time,
      reserveExpiresAt = time + reserveMs c, startedAt = None, startBy = None, protectedUntil = None,
      finishedAt = None, routingReported = None, publishedReported = None\<rparr>"

definition admit :: "quota_config \<Rightarrow> id \<Rightarrow> string \<Rightarrow> instant \<Rightarrow> instant \<Rightarrow> admission qtx" where
  "admit cfg client owner time sqlNow =
     bindT (checkedPolicy cfg) (\<lambda>(c, print).
     bindT (readT (\<lambda>s. take 100 (sort_key pm_id (filter (is_lapsed time) (permits s))))) (\<lambda>expired.
     bindT (mapT (\<lambda>row. update_permit sqlNow (pm_id row) (lapsed (pm_state row) time)) expired) (\<lambda>_.
     bindT (readT (\<lambda>s. filter (is_counted time) (permits s))) (\<lambda>rows.
       case consumptionRetryAt rows client c time of
         Some retryAt \<Rightarrow> returnT (Refused retryAt)
       | None \<Rightarrow>
           bindT (\<lambda>s. Inr (pq_nextId s, s\<lparr>pq_nextId := pq_nextId s + 1\<rparr>)) (\<lambda>i.
           bindT (insert_permit (new_permit cfg c print i client owner time)) (\<lambda>_.
           returnT (Admitted i)))))))"

subsection \<open>Use\<close>

definition startPermit :: "quota_config \<Rightarrow> id \<Rightarrow> string \<Rightarrow> instant \<Rightarrow> instant \<Rightarrow> unit qtx" where
  "startPermit cfg i owner time sqlNow =
     bindT (checkedPolicy cfg) (\<lambda>(c, print).
     bindT (requireT (find_permit i) PREQUOTE_PERMIT_INVALID) (\<lambda>p.
     bindT (guardT (\<not> (ownerHash p \<noteq> sha256 cfg owner \<or> pm_state p \<noteq> RESERVED \<or> reserveExpiresAt p \<le> time
         \<or> policyFingerprint p \<noteq> print)) PREQUOTE_PERMIT_INVALID) (\<lambda>_.
     update_permit sqlNow i (\<lambda>r. r\<lparr>pm_state := STARTED, startedAt := Some time, startBy := Some (time + 5000),
       protectedUntil := Some (time + routingBudgetMs p)\<rparr>))))"

definition assertReady :: "quota_config \<Rightarrow> id \<Rightarrow> string \<Rightarrow> instant \<Rightarrow> unit qtx" where
  "assertReady cfg i owner time s =
     (case policy cfg of
        Inl e \<Rightarrow> Inl e
      | Inr (_, print) \<Rightarrow>
          (if pq_policy s \<noteq> Some print then Inl PREQUOTE_CONSUMPTION_UNAVAILABLE
           else case find_permit i s of
             None \<Rightarrow> Inl PREQUOTE_PERMIT_INVALID
           | Some p \<Rightarrow>
               (if ownerHash p \<noteq> sha256 cfg owner \<or> pm_state p \<noteq> STARTED
                   \<or> (case startBy p of None \<Rightarrow> True | Some b \<Rightarrow> b \<le> time) \<or> policyFingerprint p \<noteq> print
                then Inl PREQUOTE_PERMIT_INVALID else Inr ((), s))))"

definition finishPermit :: "quota_config \<Rightarrow> id \<Rightarrow> string \<Rightarrow> bool \<Rightarrow> bool \<Rightarrow> instant \<Rightarrow> instant \<Rightarrow> unit qtx" where
  "finishPermit cfg i owner routingStarted published time sqlNow =
     bindT (requireT (find_permit i) PREQUOTE_PERMIT_INVALID) (\<lambda>p.
     bindT (guardT (ownerHash p = sha256 cfg owner) PREQUOTE_PERMIT_INVALID) (\<lambda>_.
     if pm_state p \<notin> {RESERVED, STARTED} then returnT ()
     else
       update_permit sqlNow i (\<lambda>r.
         if pm_state p = RESERVED
         then r\<lparr>pm_state := PERMIT_CANCELLED, finishedAt := Some time, routingReported := Some False,
                publishedReported := Some False\<rparr>
         else r\<lparr>pm_state := FINISHED, finishedAt := Some time, routingReported := Some routingStarted,
                publishedReported := Some published\<rparr>)))"

subsection \<open>The limits as an invariant\<close>

text \<open>Every client and the whole service within the limits at an instant.\<close>

definition bounded :: "limits \<Rightarrow> permit list \<Rightarrow> instant \<Rightarrow> bool" where
  "bounded c rows u \<longleftrightarrow>
     (\<forall>client. held (window_until 60000) (\<lambda>_. 1) u (own client rows) \<le> minute c
        \<and> held (window_until 86400000) (\<lambda>_. 1) u (own client rows) \<le> day c
        \<and> held slot_until (\<lambda>_. 1) u (own client rows) \<le> concurrent c)
     \<and> held (window_until 86400000) units u rows \<le> globalUnits c"

lemma held_Nil [simp]: "held until w u [] = 0"
  and held_Cons: "held until w u (r # rows) = (if until r > u then w r else 0) + held until w u rows"
  and held_append: "held until w u (rows @ extra) = held until w u rows + held until w u extra"
  by (simp_all add: held_def)

lemma held_nonneg: "\<forall>r \<in> set rows. 0 \<le> w r \<Longrightarrow> 0 \<le> held until w u rows"
  by (induction rows) (auto simp: held_Cons)

lemma held_later: "\<forall>r \<in> set rows. 0 \<le> w r \<Longrightarrow> u \<le> v \<Longrightarrow> held until w v rows \<le> held until w u rows"
  by (induction rows) (auto simp: held_Cons)

lemma held_update:
  "\<forall>r \<in> set rows. 0 \<le> w r \<and> (P r \<longrightarrow> w (f r) = w r \<and> (until (f r) > u \<longrightarrow> until r > u)) \<Longrightarrow>
     held until w u (update_rows P f rows) \<le> held until w u rows"
  by (induction rows) (auto simp: held_Cons)

lemma held_counted:
  "(\<And>r. r \<in> set rows \<Longrightarrow> until r > u \<Longrightarrow> Q r) \<Longrightarrow> held until w u (filter Q rows) = held until w u rows"
  by (induction rows) (auto simp: held_Cons)

lemma own_update:
  "\<forall>r \<in> set rows. P r \<longrightarrow> pm_client (f r) = pm_client r \<Longrightarrow> own client (update_rows P f rows) = update_rows P f (own client rows)"
  by (induction rows) (auto simp: own_def)

lemma own_filter: "own client (filter Q rows) = filter Q (own client rows)"
  by (auto simp: own_def intro: filter_cong)

lemma own_subset: "set (own client rows) \<subseteq> set rows"
  by (auto simp: own_def)

definition positive :: "permit list \<Rightarrow> bool" where
  "positive rows \<longleftrightarrow> (\<forall>r \<in> set rows. 0 \<le> units r)"

lemma bounded_later:
  assumes "bounded c rows u" "positive rows" "u \<le> v"
  shows "bounded c rows v"
proof -
  have "held until (\<lambda>_. 1) v (own i rows) \<le> held until (\<lambda>_. 1) u (own i rows)" for until i
    using assms(3) by (intro held_later) simp_all
  moreover have "held until units v rows \<le> held until units u rows" for until
    using assms(2,3) by (intro held_later) (simp_all add: positive_def)
  ultimately show ?thesis
    using assms(1) unfolding bounded_def by (meson order_trans)
qed

text \<open>A change of a permit that does not extend what it holds beyond the instant.\<close>

definition no_longer :: "instant \<Rightarrow> permit \<Rightarrow> permit \<Rightarrow> bool" where
  "no_longer u old new \<longleftrightarrow>
     pm_client new = pm_client old \<and> units new = units old
     \<and> (\<forall>ms \<in> {60000, 86400000}. window_until ms new > u \<longrightarrow> window_until ms old > u)
     \<and> (slot_until new > u \<longrightarrow> slot_until old > u)"

lemma bounded_update:
  assumes "bounded c rows u" "positive rows" and "\<forall>r \<in> set rows. P r \<longrightarrow> no_longer u r (f r)"
  shows "bounded c (update_rows P f rows) u"
proof -
  have own: "own i (update_rows P f rows) = update_rows P f (own i rows)" for i
    using assms(3) by (intro own_update) (auto simp: no_longer_def)
  have mine: "\<forall>r \<in> set (own i rows). P r \<longrightarrow> no_longer u r (f r)" for i
    using assms(3) own_subset by blast
  have "held (window_until 60000) (\<lambda>_. 1) u (own i (update_rows P f rows)) \<le> held (window_until 60000) (\<lambda>_. 1) u (own i rows)"
    "held (window_until 86400000) (\<lambda>_. 1) u (own i (update_rows P f rows)) \<le> held (window_until 86400000) (\<lambda>_. 1) u (own i rows)"
    "held slot_until (\<lambda>_. 1) u (own i (update_rows P f rows)) \<le> held slot_until (\<lambda>_. 1) u (own i rows)" for i
    unfolding own using mine [of i] by (auto intro!: held_update simp: no_longer_def)
  moreover have "held (window_until 86400000) units u (update_rows P f rows) \<le> held (window_until 86400000) units u rows"
    using assms(2,3) by (intro held_update) (auto simp: no_longer_def positive_def)
  ultimately show ?thesis
    using assms(1) unfolding bounded_def by (meson order_trans)
qed

lemma permit_span:
  assumes "permit_check r"
  shows "startedAt r = None \<longleftrightarrow> pm_state r \<in> {RESERVED, PERMIT_CANCELLED, PERMIT_EXPIRED}"
    "startedAt r = Some t \<Longrightarrow> protectedUntil r = Some (t + routingBudgetMs r)" "0 \<le> units r" "0 < routingBudgetMs r"
    "startedAt r = Some t \<Longrightarrow> t < reserveExpiresAt r"
  using assms by (auto simp: permit_check_def span_ok_def split: option.splits)

lemma guarded_no_longer:
  assumes guard: "permit_guard sqlNow old new" and checks: "permit_check old" "permit_check new" and "0 \<le> sqlNow"
  shows "no_longer sqlNow old new"
proof -
  have id: "pm_client new = pm_client old" "units new = units old" "reserveExpiresAt new = reserveExpiresAt old"
    "routingBudgetMs new = routingBudgetMs old"
    using guard by (simp_all add: permit_guard_def permit_identity_def)
  show ?thesis
  proof (cases "startedAt old")
    case None
    then have old: "pm_state old = RESERVED"
      using guard permit_span(1) [OF checks(1)] by (auto simp: permit_guard_def split: permit_state.splits)
    have "startedAt new = None \<or> reserveExpiresAt old > sqlNow"
      using guard old permit_span(1) [OF checks(2)] by (auto simp: permit_guard_def)
    moreover have "pm_state new \<noteq> RESERVED"
      using guard old by (auto simp: permit_guard_def)
    ultimately show ?thesis
      using id None old assms(4) by (auto simp: no_longer_def window_until_def slot_until_def split: option.splits)
  next
    case (Some t)
    then have old: "pm_state old = STARTED"
      using guard permit_span(1) [OF checks(1)] by (auto simp: permit_guard_def split: permit_state.splits)
    then have "startedAt new = startedAt old" "protectedUntil new = protectedUntil old"
      using guard by (auto simp: permit_guard_def)
    then show ?thesis
      using id Some by (auto simp: no_longer_def window_until_def slot_until_def)
  qed
qed

definition quota_good :: "limits \<Rightarrow> string \<Rightarrow> quota_db \<Rightarrow> instant \<Rightarrow> bool" where
  "quota_good c print s u \<longleftrightarrow>
     distinct (map pm_id (permits s)) \<and> list_all permit_check (permits s) \<and> bounded c (permits s) u
     \<and> pq_policy s = Some print \<and> 0 \<le> u"

lemma checked_positive: "list_all permit_check rows \<Longrightarrow> positive rows"
  by (auto simp: positive_def list_all_iff intro: permit_span(3))

lemma good_later: "quota_good c print s u \<Longrightarrow> u \<le> v \<Longrightarrow> quota_good c print s v"
  unfolding quota_good_def using bounded_later checked_positive by auto

lemma update_permit_good:
  assumes good: "quota_good c print s u" and run: "update_permit sqlNow i f s = Inr (x, s')" and time: "u \<le> sqlNow"
  shows "quota_good c print s' sqlNow"
proof -
  note now = good_later [OF good time, unfolded quota_good_def]
  obtain old where old: "find_permit i s = Some old" "permit_guard sqlNow old (f old)" "permit_check (f old)"
    "s' = s\<lparr>permits := update_rows (\<lambda>r. pm_id r = i) f (permits s)\<rparr>"
    using run by (auto simp: update_permit_def split: option.splits if_splits)
  have mem: "old \<in> set (permits s)" "pm_id old = i"
    using first_row_Some [OF old(1) [unfolded find_permit_def]] by simp_all
  have only: "r = old" if "r \<in> set (permits s)" "pm_id r = i" for r
    using unique_key [of pm_id "permits s" r old] that now mem by simp
  have "no_longer sqlNow old (f old)"
    using guarded_no_longer [OF old(2) _ old(3)] now mem(1) by (simp add: list_all_iff)
  then have "bounded c (permits s') sqlNow"
    unfolding old(4) using bounded_update [of c "permits s" sqlNow "\<lambda>r. pm_id r = i" f] now only checked_positive by auto
  moreover have "map pm_id (permits s') = map pm_id (permits s)"
    unfolding old(4) using only old(2) by (auto intro!: map_update_rows simp: permit_guard_def permit_identity_def)
  moreover have "list_all permit_check (permits s')"
    unfolding old(4) using now only old(3) by (auto simp: list_all_iff set_update_rows)
  ultimately show ?thesis
    using now by (simp add: quota_good_def old(4))
qed

text \<open>Two configurations that print alike are the same: SHA-256 does not collide on those in use.\<close>

definition prints_apart :: "(quota_config \<Rightarrow> bool) \<Rightarrow> limits \<Rightarrow> string \<Rightarrow> bool" where
  "prints_apart deployed c print \<longleftrightarrow> (\<forall>cfg d. deployed cfg \<longrightarrow> policy cfg = Inr (d, print) \<longrightarrow> d = c)"

lemma checkedPolicy_good:
  assumes "quota_good c print s u" "prints_apart deployed c print" "deployed cfg" "checkedPolicy cfg s = Inr ((d, p), s')"
  shows "s' = s" "d = c" "p = print" "validateConsumptionLimits c = Some c"
proof -
  have run: "policy cfg = Inr (d, p)" "p = print" "s' = s"
    using assms(1,4) by (auto simp: checkedPolicy_def quota_good_def Let_def split: sum.splits if_splits)
  moreover from this assms(2,3) have "d = c"
    by (auto simp: prints_apart_def)
  moreover have "validateConsumptionLimits d = Some d"
    using run(1) by (auto simp: policy_def validateConsumptionLimits_def split: if_splits option.splits)
  ultimately show "s' = s" "d = c" "p = print" "validateConsumptionLimits c = Some c"
    by simp_all
qed

lemma window_counted: "0 \<le> time \<Longrightarrow> ms \<le> 86400000 \<Longrightarrow> window_until ms r > time \<Longrightarrow> is_counted time r"
  by (auto simp: window_until_def is_counted_def split: option.splits if_splits)

lemma slot_counted: "0 \<le> time \<Longrightarrow> permit_check r \<Longrightarrow> slot_until r > time \<Longrightarrow> is_counted time r"
  using permit_span(2) [of r] by (auto simp: slot_until_def is_counted_def split: option.splits if_splits)

lemma counted_held:
  assumes "0 \<le> time" "list_all permit_check rows"
  shows "ms \<le> 86400000 \<Longrightarrow> held (window_until ms) w time (filter (is_counted time) rows) = held (window_until ms) w time rows"
    "held slot_until w time (filter (is_counted time) rows) = held slot_until w time rows"
proof -
  show "held slot_until w time (filter (is_counted time) rows) = held slot_until w time rows"
    using assms by (intro held_counted slot_counted) (auto simp: list_all_iff)
  show "held (window_until ms) w time (filter (is_counted time) rows) = held (window_until ms) w time rows"
    if "ms \<le> 86400000"
    using assms(1) that by (intro held_counted window_counted)
qed

lemma new_permit_bounded:
  assumes rows: "bounded c rows u" "list_all permit_check rows" and room: "room (filter (is_counted time) rows) client c time"
    and new: "pm_client r = client" "units r = retries c + 1" "0 \<le> retries c" and time: "0 \<le> time" "time \<le> u"
  shows "bounded c (rows @ [r]) u"
proof -
  have mine: "list_all permit_check (own client rows)"
    using rows(2) own_subset by (auto simp: list_all_iff)
  have pos: "positive rows"
    by (rule checked_positive [OF rows(2)])
  have later: "held until (\<lambda>_. 1) u (own client rows) \<le> held until (\<lambda>_. 1) time (own client rows)"
    "held until units u rows \<le> held until units time rows" for until
    using time(2) pos by (auto intro!: held_later simp: positive_def)
  have "held (window_until 60000) (\<lambda>_. 1) time (own client rows) + 1 \<le> minute c"
    "held (window_until 86400000) (\<lambda>_. 1) time (own client rows) + 1 \<le> day c"
    "held slot_until (\<lambda>_. 1) time (own client rows) + 1 \<le> concurrent c"
    "held (window_until 86400000) units time rows + (retries c + 1) \<le> globalUnits c"
    using room unfolding room_def own_filter
    by (simp_all add: counted_held [OF time(1) mine] counted_held [OF time(1) rows(2)])
  with later [of "window_until 60000"] later [of "window_until 86400000"] later [of slot_until]
  have fits: "held (window_until 60000) (\<lambda>_. 1) u (own client rows) + 1 \<le> minute c"
    "held (window_until 86400000) (\<lambda>_. 1) u (own client rows) + 1 \<le> day c"
    "held slot_until (\<lambda>_. 1) u (own client rows) + 1 \<le> concurrent c"
    "held (window_until 86400000) units u rows + (retries c + 1) \<le> globalUnits c"
    by linarith+
  have own: "own i (rows @ [r]) = own i rows @ (if i = client then [r] else [])" for i
    using new(1) by (simp add: own_def)
  show ?thesis
    using rows(1) fits new(2,3) unfolding bounded_def own held_append by (auto simp: held_Cons)
qed

lemma admit_good:
  assumes good: "quota_good c print s u" and apart: "prints_apart deployed c print" "deployed cfg"
    and time: "u \<le> time" "time \<le> sqlNow" and run: "admit cfg client owner time sqlNow s = Inr (a, s')"
  shows "quota_good c print s' sqlNow"
proof -
  obtain d p s1 es ys s2 where steps: "checkedPolicy cfg s = Inr ((d, p), s1)"
    "mapT (\<lambda>row::permit. update_permit sqlNow (pm_id row) (lapsed (pm_state row) time)) es s1 = Inr (ys, s2)"
    and rest: "(case consumptionRetryAt (filter (is_counted time) (permits s2)) client d time of
         Some retryAt \<Rightarrow> returnT (Refused retryAt)
       | None \<Rightarrow>
           bindT (\<lambda>s. Inr (pq_nextId s, s\<lparr>pq_nextId := pq_nextId s + 1\<rparr>)) (\<lambda>i.
           bindT (insert_permit (new_permit cfg d p i client owner time)) (\<lambda>_. returnT (Admitted i)))) s2 = Inr (a, s')"
    using run unfolding admit_def tx_simps split_paired_Ex prod.case by blast
  note cp = checkedPolicy_good [OF good apart steps(1)]
  have "quota_good c print s1 sqlNow"
    using good_later [OF good, of sqlNow] time cp(1) by simp
  with steps(2) have good2: "quota_good c print s2 sqlNow"
    by (rule mapT_invariant [where I = "\<lambda>s. quota_good c print s sqlNow", rotated]) (auto intro: update_permit_good)
  show ?thesis
  proof (cases "consumptionRetryAt (filter (is_counted time) (permits s2)) client d time")
    case (Some retryAt)
    with rest good2 show ?thesis by (simp add: tx_simps)
  next
    case None
    let ?r = "new_permit cfg d p (pq_nextId s2) client owner time"
    have ins: "permit_check ?r" "\<not> any_row (\<lambda>x. pm_id x = pm_id ?r) (permits s2)"
      "s' = s2\<lparr>pq_nextId := pq_nextId s2 + 1, permits := permits s2 @ [?r]\<rparr>"
      using rest None by (auto simp: tx_simps insert_permit_def split: if_splits)
    have pos: "\<forall>r \<in> set (filter (is_counted time) (permits s2)). 0 \<le> units r"
      using good2 checked_positive by (auto simp: quota_good_def positive_def)
    have "room (filter (is_counted time) (permits s2)) client c time"
      using first_room [OF cp(4) pos, of client time] None cp(2) by simp
    moreover have "0 \<le> retries c"
      using cp(4) by (auto simp: validateConsumptionLimits_def split: if_splits)
    moreover have "0 \<le> time"
      using good time(1) by (simp add: quota_good_def)
    ultimately have "bounded c (permits s2 @ [?r]) sqlNow"
      using good2 time(2) cp(2) by (intro new_permit_bounded) (auto simp: quota_good_def new_permit_def)
    with good2 ins show ?thesis
      by (auto simp: quota_good_def any_row_iff)
  qed
qed

lemma startPermit_good:
  assumes good: "quota_good c print s u" and apart: "prints_apart deployed c print" "deployed cfg"
    and time: "u \<le> sqlNow" and run: "startPermit cfg i owner time sqlNow s = Inr (x, s')"
  shows "quota_good c print s' sqlNow"
proof -
  obtain d p s1 f y where "checkedPolicy cfg s = Inr ((d, p), s1)" "update_permit sqlNow i f s1 = Inr (y, s')"
    using run unfolding startPermit_def tx_simps split_paired_Ex prod.case by blast
  with checkedPolicy_good(1) [OF good apart] update_permit_good [OF good _ time] show ?thesis
    by metis
qed

lemma finishPermit_good:
  assumes good: "quota_good c print s u" and time: "u \<le> sqlNow"
    and run: "finishPermit cfg i owner routed published time sqlNow s = Inr (x, s')"
  shows "quota_good c print s' sqlNow"
  using run update_permit_good [OF good _ time] good_later [OF good time]
  by (auto simp: finishPermit_def tx_simps split: if_splits)

subsection \<open>Every history\<close>

text \<open>
  The table and the clock. \<open>deployed\<close> are the configurations of the instances that share the database.
  Between the operations of a request anything may happen, or the request may never come back.
\<close>

inductive quota_step :: "(quota_config \<Rightarrow> bool) \<Rightarrow> quota_db \<times> instant \<Rightarrow> quota_db \<times> instant \<Rightarrow> bool"
  for deployed where
  time_passes: "u \<le> v \<Longrightarrow> quota_step deployed (s, u) (s, v)"
| permit_asked:
    "deployed cfg \<Longrightarrow> u \<le> time \<Longrightarrow> time \<le> v \<Longrightarrow> admit cfg client owner time v s = Inr (a, s') \<Longrightarrow>
     quota_step deployed (s, u) (s', v)"
| permit_started:
    "deployed cfg \<Longrightarrow> u \<le> time \<Longrightarrow> time \<le> v \<Longrightarrow> startPermit cfg i owner time v s = Inr (x, s') \<Longrightarrow>
     quota_step deployed (s, u) (s', v)"
| permit_finished:
    "deployed cfg \<Longrightarrow> u \<le> time \<Longrightarrow> time \<le> v \<Longrightarrow> finishPermit cfg i owner routed published time v s = Inr (x, s') \<Longrightarrow>
     quota_step deployed (s, u) (s', v)"

definition quota_inv :: "(quota_config \<Rightarrow> bool) \<Rightarrow> limits \<Rightarrow> string \<Rightarrow> quota_db \<times> instant \<Rightarrow> bool" where
  "quota_inv deployed c print w \<longleftrightarrow> prints_apart deployed c print \<and> quota_good c print (fst w) (snd w)"

interpretation quotas: invariant_system "quota_step deployed" "quota_inv deployed c print" for deployed c print
proof
  fix v w assume "quota_step deployed v w" "quota_inv deployed c print v"
  then show "quota_inv deployed c print w"
  proof (induction rule: quota_step.induct)
    case (time_passes u v s)
    then show ?case by (auto simp: quota_inv_def intro: good_later)
  next
    case (permit_asked cfg u time v client owner s a s')
    then show ?case unfolding quota_inv_def fst_conv snd_conv by (meson admit_good)
  next
    case (permit_started cfg u time v i owner s x s')
    then show ?case unfolding quota_inv_def fst_conv snd_conv by (meson startPermit_good order_trans)
  next
    case (permit_finished cfg u time v i owner routed published s x s')
    then show ?case unfolding quota_inv_def fst_conv snd_conv by (meson finishPermit_good order_trans)
  qed
qed

text \<open>
  C26: Once a configuration is stored, at every instant of every history no client holds more permits in
  a minute, in a day or in flight than its limits say, and the service no more routing units in a day.
\<close>

theorem quotas_always_hold:
  assumes "rtranclp (quota_step deployed) (\<lparr>pq_policy = Some print, permits = [], pq_nextId = n\<rparr>, t0) (s, t)"
    and "prints_apart deployed c print" and "0 \<le> t0"
    and "0 \<le> minute c \<and> 0 \<le> day c \<and> 0 \<le> concurrent c \<and> 0 \<le> globalUnits c"
  shows "held (window_until 60000) (\<lambda>_. 1) t (own client (permits s)) \<le> minute c
    \<and> held (window_until 86400000) (\<lambda>_. 1) t (own client (permits s)) \<le> day c
    \<and> held slot_until (\<lambda>_. 1) t (own client (permits s)) \<le> concurrent c
    \<and> held (window_until 86400000) units t (permits s) \<le> globalUnits c"
proof -
  have "quota_inv deployed c print (\<lparr>pq_policy = Some print, permits = [], pq_nextId = n\<rparr>, t0)"
    using assms(2-4) by (simp add: quota_inv_def quota_good_def bounded_def own_def)
  from quotas.reachable_inv [OF assms(1) this] show ?thesis
    by (simp add: quota_inv_def quota_good_def bounded_def)
qed

definition sample_config :: quota_config where
  "sample_config =
     \<lparr>qc_enabled = True, qc_limits = sample_limits, sha256 = (\<lambda>_. replicate 64 (CHR ''0'')), limits_json = (\<lambda>_. ''limits'')\<rparr>"

definition sample_start :: quota_db where
  "sample_start = \<lparr>pq_policy = Some (replicate 64 (CHR ''0'')), permits = [], pq_nextId = 1\<rparr>"

text \<open>Two permits of one client a second apart, the first of them started in between.\<close>

definition sample_admitted :: quota_db where
  "sample_admitted = state_after sample_start (admit sample_config 7 ''k'' 1000 1000 sample_start)"

definition sample_started :: quota_db where
  "sample_started = state_after sample_admitted (startPermit sample_config 1 ''k'' 1500 1500 sample_admitted)"

definition sample_history :: quota_db where
  "sample_history = state_after sample_started (admit sample_config 7 ''l'' 2000 2000 sample_started)"

lemma sample_hex: "hex64 (replicate 64 (CHR ''0''))"
  by (simp add: hex64_def list_all_iff)

lemmas sample_runs_simps = bindT_def readT_def returnT_def guardT_def requireT_def admit_def startPermit_def checkedPolicy_def
  policy_def validateConsumptionLimits_def routingProtectionMs_def new_permit_def insert_permit_def permit_check_def span_ok_def
  update_permit_def permit_guard_def permit_identity_def find_permit_def first_row_def is_counted_def is_lapsed_def
  consumptionRetryAt_def availableAt_def entries_of_def window_until_def slot_until_def own_def any_row_def
  sample_config_def sample_limits_def sample_start_def sample_hex max_safe_integer_def Let_def

lemma sample_runs:
  "succeeded (admit sample_config 7 ''k'' 1000 1000 sample_start)"
  "succeeded (startPermit sample_config 1 ''k'' 1500 1500 sample_admitted)"
  "succeeded (admit sample_config 7 ''l'' 2000 2000 sample_started)"
  by (simp_all add: sample_runs_simps sample_admitted_def sample_started_def)

lemma sample_reachable:
  "rtranclp (quota_step (\<lambda>cfg. cfg = sample_config)) (sample_start, 1000) (sample_history, 2000)"
proof -
  let ?step = "quota_step (\<lambda>cfg. cfg = sample_config)"
  obtain a b c where runs: "admit sample_config 7 ''k'' 1000 1000 sample_start = Inr (a, sample_admitted)"
    "startPermit sample_config 1 ''k'' 1500 1500 sample_admitted = Inr (b, sample_started)"
    "admit sample_config 7 ''l'' 2000 2000 sample_started = Inr (c, sample_history)"
    using sample_runs [THEN succeeded_Inr] unfolding sample_admitted_def sample_started_def sample_history_def by meson
  have "?step (sample_start, 1000) (sample_admitted, 1000)"
    by (rule permit_asked [OF _ _ _ runs(1)]) simp_all
  moreover have "?step (sample_admitted, 1000) (sample_started, 1500)"
    by (rule permit_started [OF _ _ _ runs(2)]) simp_all
  moreover have "?step (sample_started, 1500) (sample_history, 2000)"
    by (rule permit_asked [OF _ _ _ runs(3)]) simp_all
  ultimately show ?thesis
    by (meson converse_rtranclp_into_rtranclp r_into_rtranclp)
qed

theorem quotas_always_hold_witness:
  "length (permits sample_history) = 2
   \<and> held (window_until 60000) (\<lambda>_. 1) 2000 (own 7 (permits sample_history)) \<le> 2"
proof -
  have "prints_apart (\<lambda>cfg. cfg = sample_config) sample_limits (replicate 64 (CHR ''0''))"
    by (auto simp: prints_apart_def policy_def validateConsumptionLimits_def sample_config_def split: if_splits)
  moreover have "length (permits sample_history) = 2"
    by (simp add: sample_runs_simps sample_admitted_def sample_started_def sample_history_def)
  ultimately show ?thesis
    using quotas_always_hold [OF sample_reachable [unfolded sample_start_def], of sample_limits 7]
    by (simp add: sample_limits_def)
qed

end
