(* ===== verification/Canonical_Json.thy ===== *)
theory Canonical_Json imports Mandaria_Prelude "HOL-Library.Multiset" "HOL-Library.List_Lexorder" "HOL-Library.Char_ord" begin

text \<open>
  The canonical text of a JSON value (\<open>canonicalJson\<close> of src/src/idempotency/idempotency.service.ts) and
  its SQL twin \<open>prequote_canonical_json\<close>. The fingerprint of a request is a hash of this text, so the
  lemmas show when two values have one text: exactly when they differ in the order of object keys and
  in \<open>undefined\<close> members only. Numbers are those with at most six decimals, kept in millionths: the
  finest the validators of the payloads admit, where JavaScript and PostgreSQL print the same digits.
\<close>

subsection \<open>Values\<close>

datatype json =
    JUndefined
  | JNull
  | JBool bool
  | JNum int \<comment> \<open>millionths\<close>
  | JStr string
  | JArr "json list"
  | JObj "(string \<times> json) list"

text \<open>The number and string cases of \<open>JSON.stringify\<close>.\<close>

definition strip_zeros :: "string \<Rightarrow> string" where
  "strip_zeros s = rev (dropWhile (\<lambda>c. c = CHR ''0'') (rev s))"

definition fraction_text :: "nat \<Rightarrow> string" where
  "fraction_text f = (if f = 0 then [] else CHR ''.'' # strip_zeros (padStart 6 (decimal f)))"

definition number_text :: "int \<Rightarrow> string" where
  "number_text n =
     (let m = nat \<bar>n\<bar> in
      (if n < 0 then ''-'' else []) @ decimal (m div 1000000) @ fraction_text (m mod 1000000))"

definition json_hex :: "nat \<Rightarrow> char" where
  "json_hex d = char_of (if d < 10 then 48 + d else 87 + d)"

definition escape :: "char \<Rightarrow> string" where
  "escape c =
     (if c = CHR 0x22 then [CHR 0x5C, CHR 0x22]
      else if c = CHR 0x5C then [CHR 0x5C, CHR 0x5C]
      else if c = CHR 0x08 then [CHR 0x5C, CHR ''b'']
      else if c = CHR 0x0C then [CHR 0x5C, CHR ''f'']
      else if c = CHR 0x0A then [CHR 0x5C, CHR ''n'']
      else if c = CHR 0x0D then [CHR 0x5C, CHR ''r'']
      else if c = CHR 0x09 then [CHR 0x5C, CHR ''t'']
      else if (of_char c :: nat) < 32
        then [CHR 0x5C, CHR ''u'', CHR ''0'', CHR ''0'', json_hex (of_char c div 16), json_hex (of_char c mod 16)]
      else [c])"

definition string_text :: "string \<Rightarrow> string" where
  "string_text s = CHR 0x22 # concat (map escape s) @ [CHR 0x22]"

fun join :: "string list \<Rightarrow> string" where
  "join [] = []"
| "join [x] = x"
| "join (x # y # xs) = x @ CHR '','' # join (y # xs)"

subsection \<open>The canonical text\<close>

definition member_text :: "string \<times> string \<Rightarrow> string" where
  "member_text m = string_text (fst m) @ CHR '':'' # snd m"

text \<open>
  Numbers have at most six decimals and are printed without an exponent, as JavaScript does below
  \<open>1e21\<close>; the validated payloads hold coordinates and counts, far from it, and no \<open>Date\<close> or \<open>Decimal\<close>.
\<close>

fun canonicalJson :: "json \<Rightarrow> string" where
  "canonicalJson (JArr vs) = CHR ''['' # join (map canonicalJson vs) @ '']''"
| "canonicalJson (JObj ms) =
     CHR ''{'' # join (map member_text (sort_key fst
       (map (\<lambda>m. (fst m, canonicalJson (snd m))) (filter (\<lambda>m. snd m \<noteq> JUndefined) ms)))) @ ''}''"
| "canonicalJson JUndefined = ''null''"
| "canonicalJson JNull = ''null''"
| "canonicalJson (JBool b) = (if b then ''true'' else ''false'')"
| "canonicalJson (JNum n) = number_text n"
| "canonicalJson (JStr s) = string_text s"

text \<open>\<open>fingerprint\<close>: the hash is an argument, as everywhere in the development.\<close>

definition fingerprint :: "(string \<Rightarrow> string) \<Rightarrow> string \<Rightarrow> json \<Rightarrow> string" where
  "fingerprint sha256 operation payload =
     sha256 (canonicalJson (JObj [(''operation'', JStr operation), (''payload'', payload)]))"

text \<open>\<open>prequote_canonical_json\<close> on \<open>jsonb\<close>, which has no \<open>undefined\<close> and no repeated key.\<close>

fun prequote_canonical_json :: "json \<Rightarrow> string" where
  "prequote_canonical_json (JObj ms) =
     CHR ''{'' # join (map member_text (sort_key fst (map (\<lambda>m. (fst m, prequote_canonical_json (snd m))) ms))) @ ''}''"
| "prequote_canonical_json (JArr vs) = CHR ''['' # join (map prequote_canonical_json vs) @ '']''"
| "prequote_canonical_json (JNum n) = number_text n"
| "prequote_canonical_json (JStr s) = string_text s"
| "prequote_canonical_json (JBool b) = (if b then ''true'' else ''false'')"
| "prequote_canonical_json _ = ''null''"

subsection \<open>The value a text stands for\<close>

text \<open>\<open>undefined\<close> members dropped, \<open>undefined\<close> elsewhere null, members in the order of their keys.\<close>

fun normal :: "json \<Rightarrow> json" where
  "normal JUndefined = JNull"
| "normal (JArr vs) = JArr (map normal vs)"
| "normal (JObj ms) = JObj (sort_key fst (map (\<lambda>m. (fst m, normal (snd m))) (filter (\<lambda>m. snd m \<noteq> JUndefined) ms)))"
| "normal v = v"

fun plain :: "json \<Rightarrow> bool" where
  "plain JUndefined = False"
| "plain (JArr vs) = list_all plain vs"
| "plain (JObj ms) = list_all (\<lambda>m. plain (snd m)) ms"
| "plain _ = True"

text \<open>The text of a value as it stands.\<close>

fun json_text :: "json \<Rightarrow> string" where
  "json_text (JArr vs) = CHR ''['' # join (map json_text vs) @ '']''"
| "json_text (JObj ms) = CHR ''{'' # join (map (\<lambda>m. member_text (fst m, json_text (snd m))) ms) @ ''}''"
| "json_text (JBool b) = (if b then ''true'' else ''false'')"
| "json_text (JNum n) = number_text n"
| "json_text (JStr s) = string_text s"
| "json_text _ = ''null''"

lemma sort_key_map: "sort_key k (map f xs) = map f (sort_key (\<lambda>x. k (f x)) xs)"
proof (induction xs)
  case Nil
  then show ?case by simp
next
  case (Cons x xs)
  have "insort_key k (f x) (map f ys) = map f (insort_key (\<lambda>x. k (f x)) x ys)" for ys
    by (induction ys) auto
  with Cons show ?case by simp
qed

lemma canonical_text: "canonicalJson v = json_text (normal v)"
proof (induction v rule: canonicalJson.induct)
  case (1 vs)
  then show ?case by (simp cong: map_cong)
next
  case (2 ms)
  then show ?case
    by (auto simp: sort_key_map o_def intro!: arg_cong [where f = join])
qed auto

lemma plain_normal: "plain (normal v)"
  by (induction v) (auto simp: list_all_iff)

lemma sql_canonical: "plain v \<Longrightarrow> prequote_canonical_json v = canonicalJson v"
proof (induction v rule: canonicalJson.induct)
  case (1 vs)
  then show ?case by (simp add: list_all_iff cong: map_cong)
next
  case (2 ms)
  then have "filter (\<lambda>m. snd m \<noteq> JUndefined) ms = ms"
    by (auto simp: list_all_iff intro!: filter_True)
  with 2 show ?case
    by (auto simp: sort_key_map o_def list_all_iff intro!: arg_cong [where f = join])
qed auto

subsection \<open>Different values have different texts\<close>

text \<open>
  A text is followed by nothing or by one of the marks that end a value; under that condition each kind
  of text can be told where it ends.
\<close>

definition text_ended :: "string \<Rightarrow> bool" where
  "text_ended r \<longleftrightarrow> r = [] \<or> hd r \<in> {CHR '','', CHR '']'', CHR ''}''}"

lemma strip_zeros_pad: "length s = n \<Longrightarrow> strip_zeros s @ replicate (n - length (strip_zeros s)) (CHR ''0'') = s"
proof (induction s arbitrary: n rule: rev_induct)
  case Nil
  then show ?case by (simp add: strip_zeros_def)
next
  case (snoc c s)
  show ?case
  proof (cases "c = CHR ''0''")
    case True
    then have "strip_zeros (s @ [c]) = strip_zeros s"
      by (simp add: strip_zeros_def)
    moreover have "length (strip_zeros s) \<le> length s"
      by (metis strip_zeros_def length_dropWhile_le length_rev)
    ultimately show ?thesis
      using snoc True by (auto simp: Suc_diff_le) (metis append_assoc replicate_append_same)
  next
    case False
    with snoc show ?thesis by (simp add: strip_zeros_def)
  qed
qed

lemma fraction_length: "f < 1000000 \<Longrightarrow> length (padStart 6 (decimal f)) = 6"
  using decimal_length [of f 5] by (simp add: length_padStart)

lemma fraction_value: "digits_value 0 (padStart 6 (decimal f)) = f"
  by (simp add: padStart_def digits_value_zeros digits_value_decimal)

lemma strip_zeros_inj: "length s = length t \<Longrightarrow> strip_zeros s = strip_zeros t \<Longrightarrow> s = t"
  by (metis strip_zeros_pad)

lemma strip_zeros_nonempty: "f \<noteq> 0 \<Longrightarrow> strip_zeros (padStart 6 (decimal f)) \<noteq> []"
proof
  assume "f \<noteq> 0" and "strip_zeros (padStart 6 (decimal f)) = []"
  then have "\<forall>c \<in> set (decimal f). c = CHR ''0''"
    by (auto simp: strip_zeros_def padStart_def dropWhile_eq_Nil_conv)
  then have "decimal f = replicate (length (decimal f)) (CHR ''0'')"
    by (simp add: replicate_eqI)
  then have "digits_value 0 (decimal f) = digits_value 0 (replicate (length (decimal f)) (CHR ''0'') @ [])"
    by simp
  with \<open>f \<noteq> 0\<close> show False
    unfolding digits_value_zeros by (simp add: digits_value_decimal)
qed

lemma fraction_text_inj:
  assumes "f < 1000000" "g < 1000000" "fraction_text f = fraction_text g"
  shows "f = g"
proof (cases "f = 0 \<or> g = 0")
  case True
  with assms(3) show ?thesis
    by (auto simp: fraction_text_def split: if_splits)
next
  case False
  with assms(3) have "strip_zeros (padStart 6 (decimal f)) = strip_zeros (padStart 6 (decimal g))"
    by (simp add: fraction_text_def)
  from strip_zeros_inj [OF _ this] assms(1,2) have "padStart 6 (decimal f) = padStart 6 (decimal g)"
    by (simp only: fraction_length)
  from arg_cong [OF this, of "digits_value 0"] show ?thesis
    unfolding fraction_value .
qed

lemma decimal_inj:
  assumes "decimal m = decimal n"
  shows "m = n"
  using arg_cong [OF assms, of "digits_value 0"] unfolding digits_value_decimal .

definition json_digit :: "char \<Rightarrow> bool" where
  "json_digit c \<longleftrightarrow> 48 \<le> (of_char c :: nat) \<and> (of_char c :: nat) \<le> 57"

lemma digit_char_json_digit: "d < 10 \<Longrightarrow> json_digit (digit_char d)"
  by (simp add: json_digit_def)

lemma decimal_json_digit: "c \<in> set (decimal n) \<Longrightarrow> json_digit c"
  using decimal_digits digit_char_json_digit by blast

lemma split_at_mark:
  "\<forall>c \<in> set a. P c \<Longrightarrow> \<forall>c \<in> set b. P c \<Longrightarrow> r = [] \<or> \<not> P (hd r) \<Longrightarrow> s = [] \<or> \<not> P (hd s) \<Longrightarrow>
     a @ r = b @ s \<Longrightarrow> a = b \<and> r = s"
proof (induction a arbitrary: b)
  case Nil
  then show ?case by (cases b) auto
next
  case (Cons x a)
  then show ?case by (cases b) auto
qed

lemma fraction_head: "fraction_text f = [] \<or> \<not> json_digit (hd (fraction_text f))"
  by (simp add: fraction_text_def json_digit_def)

lemma decimal_not_empty: "decimal n \<noteq> []"
  by (subst decimal.simps) simp

lemma decimal_fraction_inj:
  assumes "decimal q @ fraction_text f = decimal q' @ fraction_text g" "f < 1000000" "g < 1000000"
  shows "q = q' \<and> f = g"
  using split_at_mark [where P = json_digit, OF _ _ fraction_head fraction_head assms(1)] decimal_json_digit assms(2,3)
    decimal_inj fraction_text_inj by blast

lemma number_text_inj:
  assumes "number_text n = number_text m"
  shows "n = m"
proof -
  have head: "hd (decimal k @ x) \<noteq> CHR ''-''" for k x
    using decimal_json_digit [of "hd (decimal k)" k] decimal_not_empty [of k] by (auto simp: json_digit_def)
  have "(n < 0) = (m < 0) \<and> decimal (nat \<bar>n\<bar> div 1000000) @ fraction_text (nat \<bar>n\<bar> mod 1000000)
      = decimal (nat \<bar>m\<bar> div 1000000) @ fraction_text (nat \<bar>m\<bar> mod 1000000)"
    using assms head [of "nat \<bar>n\<bar> div 1000000" "fraction_text (nat \<bar>n\<bar> mod 1000000)"]
      head [of "nat \<bar>m\<bar> div 1000000" "fraction_text (nat \<bar>m\<bar> mod 1000000)"]
    by (auto simp: number_text_def Let_def split: if_splits) (metis list.sel(1))+
  moreover from this have "nat \<bar>n\<bar> div 1000000 = nat \<bar>m\<bar> div 1000000" "nat \<bar>n\<bar> mod 1000000 = nat \<bar>m\<bar> mod 1000000"
    using decimal_fraction_inj [of "nat \<bar>n\<bar> div 1000000" "nat \<bar>n\<bar> mod 1000000" "nat \<bar>m\<bar> div 1000000" "nat \<bar>m\<bar> mod 1000000"]
    by simp_all
  ultimately have "nat \<bar>n\<bar> = nat \<bar>m\<bar>" "(n < 0) = (m < 0)"
    by (metis div_mult_mod_eq, blast)
  then show ?thesis by linarith
qed

definition number_char :: "char \<Rightarrow> bool" where
  "number_char c \<longleftrightarrow> json_digit c \<or> c = CHR ''-'' \<or> c = CHR ''.''"

lemma strip_zeros_subset: "set (strip_zeros s) \<subseteq> set s"
  by (auto simp: strip_zeros_def dest: set_dropWhileD)

lemma number_text_chars: "c \<in> set (number_text n) \<Longrightarrow> number_char c"
proof -
  have "c \<in> set (padStart 6 (decimal k)) \<Longrightarrow> json_digit c" for k
    using decimal_json_digit [of c k] by (auto simp: padStart_def json_digit_def)
  then have "c \<in> set (fraction_text k) \<Longrightarrow> number_char c" for k
    using strip_zeros_subset [of "padStart 6 (decimal k)"] by (auto simp: fraction_text_def number_char_def split: if_splits)
  then show "c \<in> set (number_text n) \<Longrightarrow> number_char c"
    using decimal_json_digit by (auto simp: number_text_def Let_def number_char_def split: if_splits)
qed

lemma number_text_nonempty: "number_text n \<noteq> []"
  using decimal_not_empty by (simp add: number_text_def Let_def)

lemma ended_mark: "text_ended r \<Longrightarrow> r = [] \<or> \<not> number_char (hd r)"
  by (auto simp: text_ended_def number_char_def json_digit_def)

lemma number_cancel:
  assumes "number_text n @ r = number_text m @ s" "text_ended r" "text_ended s"
  shows "n = m \<and> r = s"
  using split_at_mark [where P = number_char, OF _ _ ended_mark [OF assms(2)] ended_mark [OF assms(3)] assms(1)]
    number_text_chars number_text_inj by blast

lemma hex_digit_inj: "a < 16 \<Longrightarrow> b < 16 \<Longrightarrow> json_hex a = json_hex b \<Longrightarrow> a = b"
proof -
  assume "a < 16" "b < 16" "json_hex a = json_hex b"
  then have "(if a < 10 then 48 + a else 87 + a) = (if b < 10 then 48 + b else 87 + b)"
    using arg_cong [of "json_hex a" "json_hex b" "of_char :: char \<Rightarrow> nat"] by (simp add: json_hex_def split: if_splits)
  then show "a = b"
    using \<open>a < 16\<close> \<open>b < 16\<close> by (auto split: if_splits)
qed

lemma control_inj:
  assumes "(of_char c :: nat) < 32" "(of_char d :: nat) < 32"
    "json_hex (of_char c div 16) = json_hex (of_char d div 16)" "json_hex (of_char c mod 16) = json_hex (of_char d mod 16)"
  shows "c = d"
proof -
  have "(of_char c :: nat) div 16 = of_char d div 16"
    by (rule hex_digit_inj [OF _ _ assms(3)]) (use assms(1,2) in linarith)+
  moreover have "(of_char c :: nat) mod 16 = of_char d mod 16"
    by (rule hex_digit_inj [OF _ _ assms(4)]) simp_all
  ultimately have "(of_char c :: nat) = of_char d"
    by (metis div_mult_mod_eq)
  then show ?thesis by simp
qed

lemma escape_cancel: "escape c @ x = escape d @ y \<Longrightarrow> c = d \<and> x = y"
  unfolding escape_def by (simp split: if_splits) (metis control_inj)

lemma escape_head: "\<exists>h t. escape c = h # t \<and> h \<noteq> CHR 0x22"
  by (auto simp: escape_def)

lemma string_cancel: "string_text a @ r = string_text b @ s \<Longrightarrow> a = b \<and> r = s"
proof -
  have "concat (map escape a) @ CHR 0x22 # r = concat (map escape b) @ CHR 0x22 # s \<Longrightarrow> a = b \<and> r = s"
  proof (induction a arbitrary: b)
    case Nil
    show ?case
    proof (cases b)
      case (Cons d b')
      obtain h t where "escape d = h # t" "h \<noteq> CHR 0x22"
        using escape_head by blast
      with Nil Cons show ?thesis by simp
    qed (use Nil in simp)
  next
    case (Cons c a)
    obtain h t where h: "escape c = h # t" "h \<noteq> CHR 0x22"
      using escape_head by blast
    show ?case
    proof (cases b)
      case Nil
      with Cons.prems h show ?thesis by simp
    next
      case (Cons d b')
      with Cons.prems Cons.IH [of b'] escape_cancel [of c _ d] show ?thesis by auto
    qed
  qed
  then show "string_text a @ r = string_text b @ s \<Longrightarrow> a = b \<and> r = s"
    by (simp add: string_text_def)
qed

text \<open>Two lists of texts, each closed by the same mark.\<close>

definition cancels :: "('a \<Rightarrow> bool) \<Rightarrow> ('a \<Rightarrow> string) \<Rightarrow> 'a \<Rightarrow> bool" where
  "cancels Q f x \<longleftrightarrow> (\<forall>y r s. Q y \<longrightarrow> text_ended r \<longrightarrow> text_ended s \<longrightarrow> f x @ r = f y @ s \<longrightarrow> x = y \<and> r = s)"

lemma ended_Cons: "text_ended (c # r) \<longleftrightarrow> c \<in> {CHR '','', CHR '']'', CHR ''}''}"
  by (simp add: text_ended_def)

lemma join_Cons: "join (x # xs) = x @ (if xs = [] then [] else CHR '','' # join xs)"
  by (cases xs) auto

lemma join_cancel:
  assumes "\<forall>x \<in> set xs. cancels Q f x" and "\<forall>y \<in> set ys. Q y" and "z \<in> {CHR '']'', CHR ''}''}"
    and heads: "\<And>y. \<exists>h t. f y = h # t \<and> h \<notin> {CHR '','', CHR '']'', CHR ''}''}"
    and "join (map f xs) @ z # r = join (map f ys) @ z # s"
  shows "xs = ys \<and> r = s"
  using assms(1,2,5)
proof (induction xs arbitrary: ys)
  case Nil
  show ?case
  proof (cases ys)
    case (Cons y ys')
    obtain h t where "f y = h # t" "h \<notin> {CHR '','', CHR '']'', CHR ''}''}"
      using heads by blast
    with Nil Cons assms(3) show ?thesis by (simp add: join_Cons)
  qed (use Nil in simp)
next
  case (Cons x xs)
  obtain h t where h: "f x = h # t" "h \<notin> {CHR '','', CHR '']'', CHR ''}''}"
    using heads by blast
  show ?case
  proof (cases ys)
    case Nil
    with Cons.prems h assms(3) show ?thesis by (simp add: join_Cons)
  next
    case (Cons y ys')
    let ?tail = "\<lambda>l r. (if l = [] then [] else CHR '','' # join (map f l)) @ z # r"
    have "f x @ ?tail xs r = f y @ ?tail ys' s"
      using Cons.prems(3) Cons by (simp add: join_Cons)
    moreover have "text_ended (?tail l q)" for l q
      using assms(3) by (auto simp: ended_Cons)
    ultimately have "x = y" and tails: "?tail xs r = ?tail ys' s"
      using Cons.prems(1,2) Cons unfolding cancels_def by (meson list.set_intros(1))+
    then have "(xs = []) = (ys' = [])"
      using assms(3) by (auto split: if_splits)
    with tails have "join (map f xs) @ z # r = join (map f ys') @ z # s"
      by (auto split: if_splits)
    with Cons.IH [of ys'] Cons.prems(1,2) \<open>x = y\<close> Cons show ?thesis by simp
  qed
qed

lemma json_text_head: "\<exists>h t. json_text v = h # t \<and> h \<notin> {CHR '','', CHR '']'', CHR ''}''}"
proof (cases v)
  case (JNum n)
  then obtain h t where "number_text n = h # t"
    using number_text_nonempty by (cases "number_text n") auto
  moreover from this have "number_char h"
    using number_text_chars [of h n] by simp
  ultimately show ?thesis
    using JNum by (auto simp: number_char_def json_digit_def)
qed (auto simp: string_text_def)

lemma number_head: "\<exists>h t. number_text n = h # t \<and> number_char h"
  using number_text_nonempty [of n] number_text_chars [of "hd (number_text n)" n]
  by (cases "number_text n") auto

lemma not_number_char [simp]:
  "\<not> number_char (CHR ''n'')" "\<not> number_char (CHR ''t'')" "\<not> number_char (CHR ''f'')" "\<not> number_char (CHR 0x22)"
  "\<not> number_char (CHR ''['')" "\<not> number_char (CHR ''{'')"
  by (simp_all add: number_char_def json_digit_def)

lemma member_head: "\<exists>h t. member_text (k, x) = h # t \<and> h \<notin> {CHR '','', CHR '']'', CHR ''}''}"
  by (simp add: member_text_def string_text_def)

lemma member_cancels:
  assumes "cancels plain json_text (snd m)"
  shows "cancels (\<lambda>m. plain (snd m)) (\<lambda>m. member_text (fst m, json_text (snd m))) m"
  unfolding cancels_def
proof (intro allI impI)
  fix y r s
  assume y: "plain (snd y)" "text_ended r" "text_ended s"
    and "member_text (fst m, json_text (snd m)) @ r = member_text (fst y, json_text (snd y)) @ s"
  then have "fst m = fst y \<and> CHR '':'' # json_text (snd m) @ r = CHR '':'' # json_text (snd y) @ s"
    by (intro string_cancel) (simp add: member_text_def)
  with assms y show "m = y \<and> r = s"
    unfolding cancels_def by (metis list.inject prod.expand)
qed

lemma json_text_cancels: "plain v \<Longrightarrow> cancels plain json_text v"
proof (induction v)
  case (JNum n)
  have "JNum n = y \<and> r = s" if "plain y" "text_ended r" "text_ended s" "json_text (JNum n) @ r = json_text y @ s" for y r s
    using that number_head [of n] number_cancel [of n r _ s] by (cases y) (auto simp: string_text_def split: if_splits)
  then show ?case unfolding cancels_def by blast
next
  case (JStr a)
  have "JStr a = y \<and> r = s" if "plain y" "text_ended r" "text_ended s" "json_text (JStr a) @ r = json_text y @ s" for y r s
  proof (cases y)
    case (JNum m)
    with that number_head [of m] show ?thesis by (auto simp: string_text_def)
  next
    case (JStr b)
    with that string_cancel [of a r b s] show ?thesis by simp
  qed (use that in \<open>auto simp: string_text_def split: if_splits\<close>)
  then show ?case unfolding cancels_def by blast
next
  case (JArr vs)
  have "JArr vs = y \<and> r = s" if "plain y" "text_ended r" "text_ended s" "json_text (JArr vs) @ r = json_text y @ s" for y r s
  proof (cases y)
    case (JNum m)
    with that number_head [of m] show ?thesis by auto
  next
    case (JArr ws)
    with that join_cancel [of vs plain json_text ws "CHR '']''" r s] JArr.IH JArr.prems json_text_head
    show ?thesis by (simp add: list_all_iff)
  qed (use that in \<open>auto simp: string_text_def split: if_splits\<close>)
  then show ?case unfolding cancels_def by blast
next
  case (JObj ms)
  let ?f = "\<lambda>m. member_text (fst m, json_text (snd m))"
  have "\<forall>m \<in> set ms. cancels (\<lambda>m. plain (snd m)) ?f m"
    using JObj by (auto simp: list_all_iff intro!: member_cancels)
  then have "JObj ms = y \<and> r = s" if "plain y" "text_ended r" "text_ended s" "json_text (JObj ms) @ r = json_text y @ s" for y r s
  proof (cases y)
    case (JNum m)
    with that number_head [of m] show ?thesis by auto
  next
    case (JObj ns)
    with that join_cancel [of ms "\<lambda>m. plain (snd m)" ?f ns "CHR ''}''" r s] member_head
      \<open>\<forall>m \<in> set ms. cancels (\<lambda>m. plain (snd m)) ?f m\<close>
    show ?thesis by (simp add: list_all_iff)
  qed (use that in \<open>auto simp: string_text_def split: if_splits\<close>)
  then show ?case unfolding cancels_def by blast
next
  case JNull
  have "JNull = y \<and> r = s" if "plain y" "json_text JNull @ r = json_text y @ s" for y r s
    using that number_head by (cases y) (auto simp: string_text_def split: if_splits, metis list.sel(1) not_number_char(1) append_Cons)
  then show ?case unfolding cancels_def by blast
next
  case (JBool b)
  have "JBool b = y \<and> r = s" if "plain y" "json_text (JBool b) @ r = json_text y @ s" for y r s
  proof (cases y)
    case (JNum m)
    with that number_head [of m] show ?thesis by (auto split: if_splits)
  qed (use that in \<open>auto simp: string_text_def split: if_splits\<close>)
  then show ?case unfolding cancels_def by blast
qed simp

lemma same_text: "canonicalJson v = canonicalJson w \<longleftrightarrow> normal v = normal w"
proof
  assume "canonicalJson v = canonicalJson w"
  then have "json_text (normal v) @ [] = json_text (normal w) @ []"
    by (simp add: canonical_text)
  then show "normal v = normal w"
    using json_text_cancels [OF plain_normal, of v] plain_normal [of w]
    unfolding cancels_def by (metis text_ended_def)
qed (simp add: canonical_text)

text \<open>The order of the keys of an object does not matter.\<close>

lemma key_order:
  assumes "distinct (map fst ms)" and "mset ms = mset ns"
  shows "canonicalJson (JObj ms) = canonicalJson (JObj ns)"
proof -
  let ?f = "\<lambda>l. map (\<lambda>m. (fst m, normal (snd m))) (filter (\<lambda>m. snd m \<noteq> JUndefined) l)"
  have dist: "distinct (map fst ns)"
    using assms by (metis mset_eq_imp_distinct_iff mset_map)
  have keys: "map fst (?f l) = map fst (filter (\<lambda>m. snd m \<noteq> JUndefined) l)" for l
    by simp
  have "distinct (map fst (?f ms))" "distinct (map fst (?f ns))"
    unfolding keys using assms(1) dist by (simp_all add: distinct_map_filter)
  then have d: "distinct (map fst (sort_key fst (?f ms)))" "distinct (map fst (sort_key fst (?f ns)))"
    by (simp_all only: distinct_map distinct_sort set_sort)
  have "mset (?f ms) = mset (?f ns)"
    by (simp only: mset_map mset_filter assms(2))
  then have set: "set (sort_key fst (?f ms)) = set (sort_key fst (?f ns))"
    unfolding set_sort by (rule mset_eq_setD)
  have "inj_on fst (set (sort_key fst (?f ms)) \<union> set (sort_key fst (?f ns)))"
    using d(2) unfolding set Un_absorb distinct_map by blast
  from map_sorted_distinct_set_unique [OF this sorted_sort_key d(1) sorted_sort_key d(2) set]
  have "normal (JObj ms) = normal (JObj ns)" by simp
  then show ?thesis by (simp add: canonical_text)
qed

lemma fingerprint_same:
  assumes "\<And>x y. sha256 x = sha256 y \<Longrightarrow> x = y" and "p \<noteq> JUndefined" "q \<noteq> JUndefined"
  shows "fingerprint sha256 op p = fingerprint sha256 op' q \<longleftrightarrow> op = op' \<and> normal p = normal q"
proof -
  have "fingerprint sha256 op p = fingerprint sha256 op' q \<longleftrightarrow>
      canonicalJson (JObj [(''operation'', JStr op), (''payload'', p)]) =
      canonicalJson (JObj [(''operation'', JStr op'), (''payload'', q)])"
    unfolding fingerprint_def by (rule iffI) (erule assms(1), simp only:)
  also have "\<dots> \<longleftrightarrow> op = op' \<and> normal p = normal q"
    unfolding same_text using assms(2,3) by auto
  finally show ?thesis .
qed

end
