(* ===== verification/Prequote_Conditions.thy ===== *)
theory Prequote_Conditions imports Canonical_Json begin

text \<open>
  The conditions of a prequote: the one normalizer (\<open>normalizePrequoteConditions\<close> of
  src/src/delivery-prequotes/prequote-conditions.ts with the validators its two classes take from
  src/src/delivery-requests/delivery-requests.dto.ts) and the CHECK \<open>prequote_conditions_valid\<close> of
  migration 20260928000100_prequote_persistence. The lemmas show that the two agree: the table accepts
  whatever the normalizer returns, and normalizing its result changes nothing.
\<close>

subsection \<open>Reading an object\<close>

text \<open>A property of a value: \<open>undefined\<close> when it is missing.\<close>

fun property :: "string \<Rightarrow> json \<Rightarrow> json" where
  "property k (JObj ms) = (case map_of ms k of None \<Rightarrow> JUndefined | Some v \<Rightarrow> v)"
| "property k _ = JUndefined"

fun is_object :: "json \<Rightarrow> bool" where
  "is_object (JObj ms) = True"
| "is_object _ = False"

fun keys_within :: "string list \<Rightarrow> json \<Rightarrow> bool" where
  "keys_within ks (JObj ms) = list_all (\<lambda>m. List.member ks (fst m)) ms"
| "keys_within ks _ = False"

fun elements :: "json \<Rightarrow> json list option" where
  "elements (JArr vs) = Some vs"
| "elements _ = None"

fun number :: "json \<Rightarrow> int option" where
  "number (JNum n) = Some n"
| "number _ = None"

fun is_bool :: "json \<Rightarrow> bool" where
  "is_bool (JBool b) = True"
| "is_bool _ = False"

definition one :: int where
  "one = 1000000"

subsection \<open>The validators\<close>

text \<open>\<open>IsInt\<close>, \<open>Min\<close>, \<open>Max\<close>, \<open>IsLatitude\<close>, \<open>IsNumber\<close> with \<open>maxDecimalPlaces\<close>.\<close>

definition is_int_between :: "int \<Rightarrow> int \<Rightarrow> json \<Rightarrow> bool" where
  "is_int_between lo hi v =
     (case number v of None \<Rightarrow> False | Some n \<Rightarrow> n mod one = 0 \<and> lo * one \<le> n \<and> n \<le> hi * one)"

definition is_coordinate :: "int \<Rightarrow> json \<Rightarrow> bool" where
  "is_coordinate limit v = (case number v of None \<Rightarrow> False | Some n \<Rightarrow> \<bar>n\<bar> \<le> limit * one)"

definition is_measure :: "int \<Rightarrow> json \<Rightarrow> bool" where
  "is_measure step v =
     (v = JUndefined \<or> v = JNull \<or>
      (case number v of None \<Rightarrow> False | Some n \<Rightarrow> n mod step = 0 \<and> step \<le> n \<and> n \<le> 100000 * one))"

definition stop_validates :: "json \<Rightarrow> bool" where
  "stop_validates s \<longleftrightarrow>
     is_object s \<and> keys_within [''type'', ''sequence'', ''latitude'', ''longitude''] s
     \<and> List.member [JStr ''PICKUP'', JStr ''DROPOFF''] (property ''type'' s)
     \<and> is_int_between 1 2 (property ''sequence'' s)
     \<and> is_coordinate 90 (property ''latitude'' s) \<and> is_coordinate 180 (property ''longitude'' s)"

definition package_validates :: "json \<Rightarrow> bool" where
  "package_validates p \<longleftrightarrow>
     is_object p
     \<and> keys_within [''category'', ''quantity'', ''weightKg'', ''lengthCm'', ''widthCm'', ''heightCm'', ''isFragile''] p
     \<and> property ''category'' p = JStr ''FOOD''
     \<and> is_int_between 1 10000 (property ''quantity'' p)
     \<and> is_measure 1000 (property ''weightKg'' p)
     \<and> is_measure 10000 (property ''lengthCm'' p) \<and> is_measure 10000 (property ''widthCm'' p)
     \<and> is_measure 10000 (property ''heightCm'' p)
     \<and> (property ''isFragile'' p = JUndefined \<or> is_bool (property ''isFragile'' p))"

text \<open>\<open>v ?? d\<close>.\<close>

definition or_else :: "json \<Rightarrow> json \<Rightarrow> json" where
  "or_else v d = (if v = JUndefined \<or> v = JNull then d else v)"

definition normal_stop :: "json \<Rightarrow> json" where
  "normal_stop s =
     JObj [(''type'', property ''type'' s), (''sequence'', property ''sequence'' s),
           (''latitude'', property ''latitude'' s), (''longitude'', property ''longitude'' s)]"

definition normal_package :: "json \<Rightarrow> json" where
  "normal_package p =
     JObj [(''category'', property ''category'' p), (''quantity'', property ''quantity'' p),
           (''weightKg'', or_else (property ''weightKg'' p) JNull), (''lengthCm'', or_else (property ''lengthCm'' p) JNull),
           (''widthCm'', or_else (property ''widthCm'' p) JNull), (''heightCm'', or_else (property ''heightCm'' p) JNull),
           (''isFragile'', or_else (property ''isFragile'' p) (JBool False))]"

definition sequence_of :: "json \<Rightarrow> int" where
  "sequence_of s = (case number (property ''sequence'' s) of None \<Rightarrow> 0 | Some n \<Rightarrow> n)"

definition is_stop :: "string \<Rightarrow> int \<Rightarrow> json \<Rightarrow> bool" where
  "is_stop t n s \<longleftrightarrow> property ''type'' s = JStr t \<and> property ''sequence'' s = JNum (n * one)"

definition normalizePrequoteConditions :: "json \<Rightarrow> json option" where
  "normalizePrequoteConditions v =
     (if \<not> is_object v then None
      else if \<not> keys_within [''conditionsVersion'', ''serviceType'', ''stops'', ''packages''] v
         \<or> property ''conditionsVersion'' v \<noteq> JNum one \<or> property ''serviceType'' v \<noteq> JStr ''LOCAL_DELIVERY'' then None
      else case (elements (property ''stops'' v), elements (property ''packages'' v)) of
        (Some ss, Some ps) \<Rightarrow>
          (if length ss \<noteq> 2 \<or> length ps < 1 \<or> length ps > 50 then None
           else if \<not> list_all stop_validates ss then None
           else
             (let stops = sort_key sequence_of (map normal_stop ss) in
              if \<not> is_stop ''PICKUP'' 1 (stops ! 0) \<or> \<not> is_stop ''DROPOFF'' 2 (stops ! 1) then None
              else if \<not> list_all package_validates ps then None
              else
                Some (JObj [(''conditionsVersion'', JNum one), (''serviceType'', JStr ''LOCAL_DELIVERY''),
                  (''stops'', JArr stops), (''packages'', JArr (sort_key canonicalJson (map normal_package ps)))])))
      | _ \<Rightarrow> None)"

subsection \<open>The CHECK of the table\<close>

fun key_count :: "json \<Rightarrow> nat" where
  "key_count (JObj ms) = length ms"
| "key_count _ = 0"

definition sql_stop_valid :: "int \<Rightarrow> json \<Rightarrow> bool" where
  "sql_stop_valid i s \<longleftrightarrow>
     is_object s \<and> key_count s = 4
     \<and> property ''type'' s = JStr (if i = 1 then ''PICKUP'' else ''DROPOFF'')
     \<and> property ''sequence'' s = JNum (i * one)
     \<and> is_coordinate 90 (property ''latitude'' s) \<and> is_coordinate 180 (property ''longitude'' s)"

definition sql_measure_valid :: "int \<Rightarrow> json \<Rightarrow> bool" where
  "sql_measure_valid step v \<longleftrightarrow>
     v \<noteq> JUndefined \<and> (v \<noteq> JNull \<longrightarrow>
       (case number v of None \<Rightarrow> False | Some n \<Rightarrow> \<not> (n \<le> 0 \<or> n > 100000 * one \<or> n mod step \<noteq> 0)))"

definition sql_package_valid :: "json \<Rightarrow> bool" where
  "sql_package_valid p \<longleftrightarrow>
     is_object p \<and> key_count p = 7 \<and> property ''category'' p = JStr ''FOOD''
     \<and> (case number (property ''quantity'' p) of None \<Rightarrow> False
          | Some n \<Rightarrow> n mod one = 0 \<and> 1 * one \<le> n \<and> n \<le> 10000 * one)
     \<and> is_bool (property ''isFragile'' p)
     \<and> sql_measure_valid 1000 (property ''weightKg'' p) \<and> sql_measure_valid 10000 (property ''lengthCm'' p)
     \<and> sql_measure_valid 10000 (property ''widthCm'' p) \<and> sql_measure_valid 10000 (property ''heightCm'' p)"

fun sql_packages_sorted :: "string option \<Rightarrow> json list \<Rightarrow> bool" where
  "sql_packages_sorted previous [] = True"
| "sql_packages_sorted previous (p # ps) =
     ((case previous of None \<Rightarrow> True | Some t \<Rightarrow> \<not> prequote_canonical_json p < t)
      \<and> sql_packages_sorted (Some (prequote_canonical_json p)) ps)"

definition prequote_conditions_valid :: "json \<Rightarrow> bool" where
  "prequote_conditions_valid j \<longleftrightarrow>
     is_object j \<and> key_count j = 4 \<and> property ''conditionsVersion'' j = JNum one
     \<and> property ''serviceType'' j = JStr ''LOCAL_DELIVERY''
     \<and> (case (elements (property ''stops'' j), elements (property ''packages'' j)) of
          (Some ss, Some ps) \<Rightarrow>
            length ss = 2 \<and> 1 \<le> length ps \<and> length ps \<le> 50
            \<and> list_all (\<lambda>i. sql_stop_valid (int i + 1) (ss ! i)) [0 ..< length ss]
            \<and> list_all sql_package_valid ps \<and> sql_packages_sorted None ps
        | _ \<Rightarrow> False)"

subsection \<open>They agree\<close>

lemma sequence_normal [simp]: "property ''sequence'' (normal_stop s) = property ''sequence'' s"
  "property ''type'' (normal_stop s) = property ''type'' s"
  "property ''latitude'' (normal_stop s) = property ''latitude'' s"
  "property ''longitude'' (normal_stop s) = property ''longitude'' s"
  by (simp_all add: normal_stop_def)

lemma sorted_packages:
  "sorted (map prequote_canonical_json ps) \<Longrightarrow>
     (case previous of None \<Rightarrow> True | Some t \<Rightarrow> list_all (\<lambda>p. t \<le> prequote_canonical_json p) ps) \<Longrightarrow>
     sql_packages_sorted previous ps"
proof (induction ps arbitrary: previous)
  case Nil
  then show ?case by simp
next
  case (Cons p ps)
  then show ?case
    by (auto simp: list_all_iff not_less split: option.splits)
qed

lemma property_normal_package [simp]:
  "property ''category'' (normal_package p) = property ''category'' p"
  "property ''quantity'' (normal_package p) = property ''quantity'' p"
  "property ''weightKg'' (normal_package p) = or_else (property ''weightKg'' p) JNull"
  "property ''lengthCm'' (normal_package p) = or_else (property ''lengthCm'' p) JNull"
  "property ''widthCm'' (normal_package p) = or_else (property ''widthCm'' p) JNull"
  "property ''heightCm'' (normal_package p) = or_else (property ''heightCm'' p) JNull"
  "property ''isFragile'' (normal_package p) = or_else (property ''isFragile'' p) (JBool False)"
  "is_object (normal_package p)" "key_count (normal_package p) = 7"
  "keys_within [''category'', ''quantity'', ''weightKg'', ''lengthCm'', ''widthCm'', ''heightCm'', ''isFragile''] (normal_package p)"
  by (simp_all add: normal_package_def)

lemma is_measure_null: "is_measure step v \<Longrightarrow> is_measure step (or_else v JNull)"
  by (auto simp: is_measure_def or_else_def)

lemma is_measure_sql: "0 < step \<Longrightarrow> is_measure step v \<Longrightarrow> sql_measure_valid step (or_else v JNull)"
  by (auto simp: is_measure_def sql_measure_valid_def or_else_def split: option.splits)

lemma is_measure_plain: "is_measure step v \<Longrightarrow> plain (or_else v JNull)"
  by (cases v) (auto simp: is_measure_def or_else_def)

lemma is_int_plain: "is_int_between lo hi v \<Longrightarrow> plain v"
  by (cases v) (auto simp: is_int_between_def)

lemma coordinate_plain: "is_coordinate limit v \<Longrightarrow> plain v"
  by (cases v) (auto simp: is_coordinate_def)

lemma or_else_again [simp]: "or_else (or_else v d) d = or_else v d"
  by (simp add: or_else_def)

lemma or_else_flag: "v = JUndefined \<or> is_bool v \<Longrightarrow> is_bool (or_else v (JBool False)) \<and> plain (or_else v (JBool False))"
  by (cases v) (auto simp: or_else_def)

lemma plain_package:
  assumes "package_validates p"
  shows "plain (normal_package p)"
proof -
  have "plain (property ''quantity'' p)" "plain (or_else (property ''isFragile'' p) (JBool False))"
    "plain (or_else (property ''weightKg'' p) JNull)" "plain (or_else (property ''lengthCm'' p) JNull)"
    "plain (or_else (property ''widthCm'' p) JNull)" "plain (or_else (property ''heightCm'' p) JNull)"
    using assms is_int_plain is_measure_plain or_else_flag unfolding package_validates_def by blast+
  then show ?thesis
    using assms by (simp add: normal_package_def package_validates_def)
qed

lemma normal_package_valid: "package_validates p \<Longrightarrow> sql_package_valid (normal_package p)"
  unfolding package_validates_def sql_package_valid_def is_int_between_def
  by (simp add: is_measure_sql or_else_flag)

lemma normal_package_again:
  assumes "package_validates p"
  shows "package_validates (normal_package p)" "normal_package (normal_package p) = normal_package p"
proof -
  show "package_validates (normal_package p)"
    using assms or_else_flag [of "property ''isFragile'' p"] unfolding package_validates_def by (simp add: is_measure_null)
  show "normal_package (normal_package p) = normal_package p"
    unfolding normal_package_def [of "normal_package p"] by (simp add: normal_package_def [of p])
qed

lemma normal_stop_again:
  assumes "stop_validates s"
  shows "stop_validates (normal_stop s)" "normal_stop (normal_stop s) = normal_stop s"
proof -
  have "is_object (normal_stop s)" "keys_within [''type'', ''sequence'', ''latitude'', ''longitude''] (normal_stop s)"
    by (simp_all add: normal_stop_def)
  then show "stop_validates (normal_stop s)"
    using assms unfolding stop_validates_def by simp
  show "normal_stop (normal_stop s) = normal_stop s"
    unfolding normal_stop_def [of "normal_stop s"] by (simp add: normal_stop_def [of s])
qed

text \<open>What a normalized value looks like.\<close>

definition normalized :: "json \<Rightarrow> bool" where
  "normalized c \<longleftrightarrow>
     (\<exists>a b ps. c = JObj [(''conditionsVersion'', JNum one), (''serviceType'', JStr ''LOCAL_DELIVERY''),
         (''stops'', JArr [a, b]), (''packages'', JArr ps)]
       \<and> (\<forall>s \<in> {a, b}. stop_validates s \<and> normal_stop s = s) \<and> is_stop ''PICKUP'' 1 a \<and> is_stop ''DROPOFF'' 2 b
       \<and> ps \<noteq> [] \<and> length ps \<le> 50
       \<and> (\<forall>p \<in> set ps. package_validates p \<and> normal_package p = p) \<and> sorted (map canonicalJson ps))"

lemma normalize_normalized:
  assumes "normalizePrequoteConditions v = Some c"
  shows "normalized c"
proof -
  obtain ss ps where v: "elements (property ''stops'' v) = Some ss" "elements (property ''packages'' v) = Some ps"
    using assms by (auto simp: normalizePrequoteConditions_def split: option.splits if_splits)
  let ?stops = "sort_key sequence_of (map normal_stop ss)"
  let ?packages = "sort_key canonicalJson (map normal_package ps)"
  have c: "c = JObj [(''conditionsVersion'', JNum one), (''serviceType'', JStr ''LOCAL_DELIVERY''),
      (''stops'', JArr ?stops), (''packages'', JArr ?packages)]"
    and ok: "length ss = 2" "ps \<noteq> []" "length ps \<le> 50" "list_all stop_validates ss" "list_all package_validates ps"
      "is_stop ''PICKUP'' 1 (?stops ! 0)" "is_stop ''DROPOFF'' 2 (?stops ! 1)"
    using assms v by (simp_all add: normalizePrequoteConditions_def Let_def split: if_splits)
  have "length ?stops = 2" by (simp add: ok(1))
  then obtain a b where stops: "?stops = [a, b]"
    by (metis One_nat_def Suc_1 length_0_conv length_Suc_conv)
  have "set ?stops = normal_stop ` set ss" by simp
  then have "{a, b} = normal_stop ` set ss"
    unfolding stops by simp
  then have "\<forall>s \<in> {a, b}. stop_validates s \<and> normal_stop s = s"
    using ok(4) normal_stop_again by (auto simp: list_all_iff)
  moreover have "\<forall>p \<in> set ?packages. package_validates p \<and> normal_package p = p"
    using ok(5) normal_package_again by (auto simp: list_all_iff)
  moreover have "is_stop ''PICKUP'' 1 a" "is_stop ''DROPOFF'' 2 b"
    using ok(6,7) unfolding stops by simp_all
  moreover have "?packages \<noteq> []" "length ?packages \<le> 50" "sorted (map canonicalJson ?packages)"
    using ok(2,3) by (simp_all flip: length_greater_0_conv)
  ultimately show ?thesis
    unfolding normalized_def c stops by blast
qed

lemma normalized_fixed:
  assumes "normalized c"
  shows "normalizePrequoteConditions c = Some c"
proof -
  obtain a b ps where c: "c = JObj [(''conditionsVersion'', JNum one), (''serviceType'', JStr ''LOCAL_DELIVERY''),
      (''stops'', JArr [a, b]), (''packages'', JArr ps)]"
    and stops: "stop_validates a" "stop_validates b" "normal_stop a = a" "normal_stop b = b" "is_stop ''PICKUP'' 1 a" "is_stop ''DROPOFF'' 2 b"
    and ps: "ps \<noteq> []" "length ps \<le> 50" "\<forall>p \<in> set ps. package_validates p \<and> normal_package p = p" "sorted (map canonicalJson ps)"
    using assms unfolding normalized_def by auto
  have "sequence_of a \<le> sequence_of b"
    using stops(5,6) by (simp add: is_stop_def sequence_of_def one_def)
  then have "sort_key sequence_of (map normal_stop [a, b]) = [a, b]"
    using stops(3,4) by simp
  moreover have "map normal_package ps = ps"
    using ps(3) by (simp add: map_idI)
  moreover have "sort_key canonicalJson ps = ps"
    using ps(4) by (simp add: sort_key_id_if_sorted)
  ultimately show ?thesis
    using c stops ps(1-3) by (simp add: normalizePrequoteConditions_def list_all_iff not_le Let_def)
qed

lemma normalized_valid:
  assumes "normalized c"
  shows "prequote_conditions_valid c" "plain c"
proof -
  obtain a b ps where c: "c = JObj [(''conditionsVersion'', JNum one), (''serviceType'', JStr ''LOCAL_DELIVERY''),
      (''stops'', JArr [a, b]), (''packages'', JArr ps)]"
    and stops: "stop_validates a" "stop_validates b" "normal_stop a = a" "normal_stop b = b" "is_stop ''PICKUP'' 1 a" "is_stop ''DROPOFF'' 2 b"
    and ps: "ps \<noteq> []" "length ps \<le> 50" "\<forall>p \<in> set ps. package_validates p \<and> normal_package p = p" "sorted (map canonicalJson ps)"
    using assms unfolding normalized_def by auto
  have four: "key_count s = 4" if "normal_stop s = s" for s
    by (subst that [symmetric]) (simp add: normal_stop_def)
  have "sql_stop_valid 1 a" "sql_stop_valid 2 b"
    using stops four [OF stops(3)] four [OF stops(4)]
    by (simp_all add: sql_stop_valid_def stop_validates_def is_stop_def)
  moreover have "sql_package_valid p" "plain p" if "p \<in> set ps" for p
    using ps(3) that normal_package_valid [of p] plain_package [of p] by auto
  moreover from this have "map prequote_canonical_json ps = map canonicalJson ps"
    by (simp add: sql_canonical)
  with ps(4) have "sorted (map prequote_canonical_json ps)"
    by (simp only:)
  then have "sql_packages_sorted None ps"
    by (rule sorted_packages) simp
  ultimately show "prequote_conditions_valid c"
    using ps(1,2) c by (simp add: prequote_conditions_valid_def list_all_iff Suc_le_eq upt_rec)
  have "plain (normal_stop s)" if "stop_validates s" for s
    using that coordinate_plain is_int_plain by (auto simp: stop_validates_def normal_stop_def)
  then have "plain a" "plain b"
    using stops by metis+
  moreover have "\<forall>p \<in> set ps. plain p"
    using ps(3) plain_package by metis
  ultimately show "plain c"
    using c by (simp add: list_all_iff)
qed

lemma normalize_again: "normalizePrequoteConditions v = Some c \<Longrightarrow> normalizePrequoteConditions c = Some c"
  by (intro normalized_fixed normalize_normalized)

end
