(* ===== verification/Prequote_Executions.thy ===== *)
theory Prequote_Executions imports Prequote_Conditions Rate_Plans Transaction_Steps begin

text \<open>
  The durable execution of one prequote per idempotency key
  (src/src/delivery-prequotes/prequote-persistence.service.ts) with the CHECKs and triggers of migrations
  20260928000100_prequote_persistence and 20260928000200_prequote_execution_hardening. A lease names the
  version of the execution it was given for; \<open>now\<close> is the database clock after the locks, \<open>sqlNow\<close>
  the one the triggers read. Geometry, SHA-256 and the routing provider are arguments.
\<close>

subsection \<open>Tables\<close>

record zone_row = service_zone +
  zone_active :: bool \<comment> \<open>\<open>status = ACTIVE\<close>\<close>
  zone_code :: string
  zone_name :: string
  zone_boundary :: json

text \<open>\<open>ApiIdempotencyRecord\<close>, the owner of every key.\<close>

record key_row =
  key_id :: id
  key_client :: id
  key_name :: string
  key_operation :: string
  key_resourceType :: string
  key_resource :: id
  key_hash :: string

datatype execution_state = PROCESSING | RETRYABLE_FAILED | EXECUTION_FAILED | SUCCEEDED

record execution =
  ex_record :: id
  ex_state :: execution_state
  ex_owner :: id
  ex_version :: int
  ex_attempts :: int
  ex_maxAttempts :: int
  ex_lease :: instant \<comment> \<open>\<open>leaseExpiresAt\<close>\<close>
  ex_error :: "string option"

text \<open>\<open>DeliveryPrequote\<close>, without the columns its CHECK fixes.\<close>

record offer =
  offer_id :: id
  offer_publicId :: nat
  offer_record :: id
  offer_client :: id
  offer_conditions :: json
  offer_zone :: id
  offer_zoneCode :: string
  offer_zoneName :: string
  offer_zoneBoundary :: json
  offer_plan :: id
  offer_band :: id
  offer_distance :: int
  offer_duration :: int
  offer_routingProvider :: string
  offer_routeAt :: instant
  offer_amount :: int
  offer_currency :: string
  offer_issuedAt :: instant
  offer_expiresAt :: instant

record prequote_db =
  key_rows :: "key_row list"
  executions :: "execution list"
  offers :: "offer list"
  zone_rows :: "zone_row list"
  tariff :: rate_db
  next_uuid :: id
  mpq_sequence :: nat

datatype prequote_fault =
    PREQUOTE_CONDITIONS_INVALID
  | PREQUOTE_POLICY_INVALID
  | PREQUOTE_LEASE_LOST
  | PREQUOTE_LEASE_BUDGET_INSUFFICIENT
  | PREQUOTE_ERROR_CODE_INVALID
  | PREQUOTE_DURATION_INVALID
  | PREQUOTE_CONFIGURATION_CHANGED
  | IdempotencyConflict
  | QuoteFailure quote_failure
  | ExecutionRaised \<comment> \<open>\<open>prequote_execution_guard\<close>\<close>
  | ExecutionCheck \<comment> \<open>\<open>Execution_values\<close>\<close>
  | EvidenceRaised \<comment> \<open>\<open>prequote_evidence\<close>\<close>
  | OfferCheck \<comment> \<open>\<open>Prequote_values\<close>, \<open>Prequote_conditions\<close>\<close>
  | OfferUnique
  | AtomicRaised \<comment> \<open>\<open>prequote_atomic_result\<close>\<close>
  | RecordMissing

type_synonym 'a ptx = "(prequote_fault, prequote_db, 'a) tx"

subsection \<open>The guards\<close>

definition error_code_ok :: "string \<Rightarrow> bool" where
  "error_code_ok s \<longleftrightarrow>
     s \<noteq> [] \<and> length s \<le> 64 \<and> hd s \<in> {CHR ''A''..CHR ''Z''}
     \<and> list_all (\<lambda>c. c \<in> {CHR ''A''..CHR ''Z''} \<or> c \<in> {CHR ''0''..CHR ''9''} \<or> c = CHR ''_'') (tl s)"

definition execution_check :: "execution \<Rightarrow> bool" where
  "execution_check e \<longleftrightarrow>
     1 \<le> ex_version e \<and> ex_attempts e = ex_version e \<and> 1 \<le> ex_maxAttempts e \<and> ex_maxAttempts e \<le> 5
     \<and> 1 \<le> ex_attempts e \<and> ex_attempts e \<le> ex_maxAttempts e
     \<and> (if ex_state e \<in> {PROCESSING, SUCCEEDED} then ex_error e = None
        else (case ex_error e of None \<Rightarrow> False | Some c \<Rightarrow> error_code_ok c))
     \<and> (ex_state e = RETRYABLE_FAILED \<longrightarrow> ex_attempts e < ex_maxAttempts e)"

definition execution_insert_guard :: "instant \<Rightarrow> execution \<Rightarrow> bool" where
  "execution_insert_guard sqlNow e \<longleftrightarrow>
     ex_state e = PROCESSING \<and> ex_version e = 1 \<and> ex_attempts e = 1 \<and> \<not> ex_lease e \<le> sqlNow"

definition execution_update_guard :: "instant \<Rightarrow> execution \<Rightarrow> execution \<Rightarrow> bool" where
  "execution_update_guard sqlNow old new \<longleftrightarrow>
     \<not> (ex_state old \<in> {SUCCEEDED, EXECUTION_FAILED} \<or> ex_record new \<noteq> ex_record old \<or> ex_maxAttempts new \<noteq> ex_maxAttempts old)
     \<and> (if ex_version new = ex_version old + 1 then
          ex_state new = PROCESSING \<and> ex_owner new \<noteq> ex_owner old \<and> ex_attempts new = ex_attempts old + 1
          \<and> (ex_state old = RETRYABLE_FAILED \<or> (ex_state old = PROCESSING \<and> ex_lease old \<le> sqlNow))
          \<and> \<not> ex_lease new \<le> sqlNow
        else
          ex_version new = ex_version old \<and> ex_owner new = ex_owner old \<and> ex_attempts new = ex_attempts old
          \<and> ex_lease new = ex_lease old \<and> ex_state new \<in> {RETRYABLE_FAILED, EXECUTION_FAILED, SUCCEEDED}
          \<and> (if ex_error new = Some ''ATTEMPTS_EXHAUSTED'' \<and> ex_state new = EXECUTION_FAILED
             then \<not> (ex_attempts old < ex_maxAttempts old \<or> (ex_state old = PROCESSING \<and> ex_lease old > sqlNow))
             else ex_state old = PROCESSING \<and> \<not> ex_lease old \<le> sqlNow))"

definition find_execution :: "id \<Rightarrow> prequote_db \<Rightarrow> execution option" where
  "find_execution rid s = first_row (\<lambda>e. ex_record e = rid) (executions s)"

definition insert_execution :: "instant \<Rightarrow> execution \<Rightarrow> unit ptx" where
  "insert_execution sqlNow e s =
     (if \<not> execution_insert_guard sqlNow e then Inl ExecutionRaised
      else if \<not> execution_check e \<or> find_execution (ex_record e) s \<noteq> None then Inl ExecutionCheck
      else Inr ((), s\<lparr>executions := executions s @ [e]\<rparr>))"

definition update_execution :: "instant \<Rightarrow> id \<Rightarrow> (execution \<Rightarrow> execution) \<Rightarrow> execution ptx" where
  "update_execution sqlNow rid f s =
     (case find_execution rid s of
        None \<Rightarrow> Inl RecordMissing
      | Some old \<Rightarrow>
          (if \<not> execution_update_guard sqlNow old (f old) then Inl ExecutionRaised
           else if \<not> execution_check (f old) then Inl ExecutionCheck
           else Inr (f old, s\<lparr>executions := update_rows (\<lambda>e. ex_record e = rid) f (executions s)\<rparr>)))"

definition find_key_id :: "id \<Rightarrow> prequote_db \<Rightarrow> key_row option" where
  "find_key_id rid s = first_row (\<lambda>k. key_id k = rid) (key_rows s)"

definition find_key :: "id \<Rightarrow> string \<Rightarrow> prequote_db \<Rightarrow> key_row option" where
  "find_key client name s = first_row (\<lambda>k. key_client k = client \<and> key_name k = name) (key_rows s)"

text \<open>The CHECKs of \<open>DeliveryPrequote\<close>. Not here: the range of the INTEGER columns of the route.\<close>

definition offer_check :: "offer \<Rightarrow> bool" where
  "offer_check q \<longleftrightarrow>
     offer_currency q = ''MXN'' \<and> offer_amount q > 0 \<and> offer_distance q \<ge> 0 \<and> offer_duration q \<ge> 0
     \<and> 1 \<le> length (btrim (offer_routingProvider q)) \<and> length (btrim (offer_routingProvider q)) \<le> 100
     \<and> offer_routeAt q \<le> offer_issuedAt q \<and> offer_expiresAt q > offer_issuedAt q
     \<and> offer_expiresAt q \<le> offer_issuedAt q + 86400000
     \<and> prequote_conditions_valid (offer_conditions q)"

definition PREQUOTE_OPERATION :: string where
  "PREQUOTE_OPERATION = ''delivery_prequotes.create''"

definition PREQUOTE_RESOURCE :: string where
  "PREQUOTE_RESOURCE = ''DeliveryPrequote''"

text \<open>The hash the trigger computes again from the stored conditions.\<close>

definition sql_request_hash :: "(string \<Rightarrow> string) \<Rightarrow> string \<Rightarrow> json \<Rightarrow> string" where
  "sql_request_hash sha256 operation conditions =
     sha256 (prequote_canonical_json (JObj [(''operation'', JStr operation), (''payload'', conditions)]))"

definition offer_evidence :: "(string \<Rightarrow> string) \<Rightarrow> instant \<Rightarrow> instant \<Rightarrow> offer \<Rightarrow> prequote_db \<Rightarrow> bool" where
  "offer_evidence sha256 txStart sqlNow q s \<longleftrightarrow>
     (case (find_key_id (offer_record q) s, find_execution (offer_record q) s,
            first_row (\<lambda>z. zone_id z = offer_zone q) (zone_rows s),
            first_row (\<lambda>p. plan_id p = offer_plan q) (rdb_plans (tariff s))) of
        (Some r, Some e, Some z, Some p) \<Rightarrow>
          key_resource r = offer_id q \<and> key_client r = offer_client q
          \<and> key_operation r = PREQUOTE_OPERATION \<and> key_resourceType r = PREQUOTE_RESOURCE
          \<and> key_hash r = sql_request_hash sha256 (key_operation r) (offer_conditions q)
          \<and> ex_state e = PROCESSING \<and> \<not> ex_lease e \<le> sqlNow
          \<and> zone_active z \<and> zone_currency z = offer_currency q \<and> zone_code z = offer_zoneCode q
          \<and> zone_name z = offer_zoneName q \<and> zone_boundary z = offer_zoneBoundary q
          \<and> plan_status p = PLAN_ACTIVE \<and> plan_zone p = zone_id z \<and> plan_serviceType p = LOCAL_DELIVERY
          \<and> plan_calculationType p = DISTANCE_BANDS \<and> plan_currency p = offer_currency q
          \<and> (case first_row (\<lambda>b. band_id b = offer_band q) (plan_bands p) of
               None \<Rightarrow> False
             | Some b \<Rightarrow>
                 band_currency b = offer_currency q \<and> band_amount b = offer_amount q
                 \<and> \<not> offer_distance q < band_min b \<and> \<not> offer_distance q \<ge> band_max b)
          \<and> \<not> offer_issuedAt q < txStart - 1 \<and> \<not> offer_issuedAt q > sqlNow + 1
      | _ \<Rightarrow> False)"

definition insert_offer :: "(string \<Rightarrow> string) \<Rightarrow> instant \<Rightarrow> instant \<Rightarrow> offer \<Rightarrow> unit ptx" where
  "insert_offer sha256 txStart sqlNow q s =
     (if \<not> offer_evidence sha256 txStart sqlNow q s then Inl EvidenceRaised
      else if \<not> offer_check q then Inl OfferCheck
      else if any_row (\<lambda>x. offer_id x = offer_id q \<or> offer_publicId x = offer_publicId q \<or> offer_record x = offer_record q) (offers s)
      then Inl OfferUnique
      else Inr ((), s\<lparr>offers := offers s @ [q]\<rparr>))"

text \<open>The deferred trigger: at COMMIT a success and its one offer exist together or not at all.\<close>

definition atomic_result :: "id \<Rightarrow> prequote_db \<Rightarrow> bool" where
  "atomic_result rid s \<longleftrightarrow>
     (case find_key_id rid s of
        None \<Rightarrow> find_execution rid s = None
      | Some r \<Rightarrow>
          (if key_resourceType r \<noteq> PREQUOTE_RESOURCE then find_execution rid s = None
           else
             (case find_execution rid s of
                None \<Rightarrow> False
              | Some e \<Rightarrow>
                  (case first_row (\<lambda>q. offer_record q = rid) (offers s) of
                     None \<Rightarrow> ex_state e \<noteq> SUCCEEDED
                   | Some q \<Rightarrow> ex_state e = SUCCEEDED \<and> offer_id q = key_resource r \<and> offer_client q = key_client r))))"

definition commit_check :: "id \<Rightarrow> unit ptx" where
  "commit_check rid s = (if atomic_result rid s then Inr ((), s) else Inl AtomicRaised)"

definition fresh_uuid :: "id ptx" where
  "fresh_uuid s = Inr (next_uuid s, s\<lparr>next_uuid := next_uuid s + 1\<rparr>)"

definition next_mpq :: "nat ptx" where
  "next_mpq s = Inr (mpq_sequence s, s\<lparr>mpq_sequence := mpq_sequence s + 1\<rparr>)"

subsection \<open>The operations\<close>

record prequote_lease =
  lease_record :: id
  lease_client :: id
  lease_owner :: id
  lease_version :: int

datatype reservation =
    Available
  | Kept offer
  | FailedBefore string
  | InProgress instant
  | Acquired prequote_lease id

definition validDuration :: "int \<Rightarrow> int \<Rightarrow> bool" where
  "validDuration n limit \<longleftrightarrow> isSafeInteger (Integral n) \<and> n \<ge> 1 \<and> n \<le> limit"

definition visible_key :: "string \<Rightarrow> bool" where
  "visible_key k \<longleftrightarrow> 8 \<le> length k \<and> length k \<le> 255 \<and> list_all (\<lambda>c. c \<in> {CHR 0x21..CHR 0x7E}) k"

definition conditionsT :: "json \<Rightarrow> json ptx" where
  "conditionsT input = requireT (\<lambda>_. normalizePrequoteConditions input) PREQUOTE_CONDITIONS_INVALID"

definition the_offer :: "id \<Rightarrow> prequote_db \<Rightarrow> offer option" where
  "the_offer i s = first_row (\<lambda>q. offer_id q = i) (offers s)"

definition own_key :: "(string \<Rightarrow> string) \<Rightarrow> json \<Rightarrow> key_row \<Rightarrow> bool" where
  "own_key sha256 conditions r \<longleftrightarrow>
     key_operation r = PREQUOTE_OPERATION \<and> key_resourceType r = PREQUOTE_RESOURCE
     \<and> key_hash r = fingerprint sha256 PREQUOTE_OPERATION conditions"

definition inspect :: "(string \<Rightarrow> string) \<Rightarrow> id \<Rightarrow> string \<Rightarrow> json \<Rightarrow> instant \<Rightarrow> reservation ptx" where
  "inspect sha256 client name input now =
     bindT (conditionsT input) (\<lambda>conditions.
     bindT (readT (find_key client name)) (\<lambda>record.
       case record of
         None \<Rightarrow> returnT Available
       | Some r \<Rightarrow>
           bindT (guardT (own_key sha256 conditions r) IdempotencyConflict) (\<lambda>_.
           bindT (requireT (find_execution (key_id r)) IdempotencyConflict) (\<lambda>e.
             if ex_state e = SUCCEEDED then
               bindT (requireT (the_offer (key_resource r)) RecordMissing) (\<lambda>q. returnT (Kept q))
             else if ex_state e = EXECUTION_FAILED then returnT (FailedBefore (the (ex_error e)))
             else if ex_state e = PROCESSING \<and> ex_lease e > now then returnT (InProgress (ex_lease e))
             else if ex_attempts e \<ge> ex_maxAttempts e then returnT (FailedBefore ''ATTEMPTS_EXHAUSTED'')
             else returnT Available))))"

definition acquired :: "key_row \<Rightarrow> id \<Rightarrow> execution \<Rightarrow> reservation" where
  "acquired r client e =
     Acquired \<lparr>lease_record = key_id r, lease_client = client, lease_owner = ex_owner e, lease_version = ex_version e\<rparr> (key_resource r)"

definition reserve ::
    "(string \<Rightarrow> string) \<Rightarrow> id \<Rightarrow> string \<Rightarrow> json \<Rightarrow> int \<Rightarrow> int \<Rightarrow> instant \<Rightarrow> instant \<Rightarrow> reservation ptx" where
  "reserve sha256 client name input leaseMs maxAttempts now sqlNow =
     bindT (conditionsT input) (\<lambda>conditions.
     bindT (guardT (visible_key name \<and> validDuration leaseMs 300000 \<and> validDuration maxAttempts 5) PREQUOTE_POLICY_INVALID) (\<lambda>_.
     bindT fresh_uuid (\<lambda>rid.
     bindT fresh_uuid (\<lambda>resource.
     bindT fresh_uuid (\<lambda>owner.
     bindT (readT (find_key client name)) (\<lambda>record.
       case record of
         None \<Rightarrow>
           (let r = \<lparr>key_id = rid, key_client = client, key_name = name, key_operation = PREQUOTE_OPERATION,
                     key_resourceType = PREQUOTE_RESOURCE, key_resource = resource,
                     key_hash = fingerprint sha256 PREQUOTE_OPERATION conditions\<rparr>;
                e = \<lparr>ex_record = rid, ex_state = PROCESSING, ex_owner = owner, ex_version = 1, ex_attempts = 1,
                     ex_maxAttempts = maxAttempts, ex_lease = now + leaseMs, ex_error = None\<rparr> in
            bindT (\<lambda>s. Inr ((), s\<lparr>key_rows := key_rows s @ [r]\<rparr>)) (\<lambda>_.
            bindT (insert_execution sqlNow e) (\<lambda>_.
            bindT (commit_check rid) (\<lambda>_.
            returnT (acquired r client e)))))
       | Some r \<Rightarrow>
           bindT (guardT (own_key sha256 conditions r) IdempotencyConflict) (\<lambda>_.
           bindT (requireT (find_execution (key_id r)) IdempotencyConflict) (\<lambda>e.
             if ex_state e = SUCCEEDED then
               bindT (requireT (the_offer (key_resource r)) RecordMissing) (\<lambda>q. returnT (Kept q))
             else if ex_state e = EXECUTION_FAILED then returnT (FailedBefore (the (ex_error e)))
             else if ex_state e = PROCESSING \<and> ex_lease e > now then returnT (InProgress (ex_lease e))
             else if ex_attempts e \<ge> ex_maxAttempts e then
               bindT (update_execution sqlNow (key_id r) (\<lambda>e. e\<lparr>ex_state := EXECUTION_FAILED, ex_error := Some ''ATTEMPTS_EXHAUSTED''\<rparr>)) (\<lambda>_.
               bindT (commit_check (key_id r)) (\<lambda>_.
               returnT (FailedBefore ''ATTEMPTS_EXHAUSTED'')))
             else
               bindT (update_execution sqlNow (key_id r) (\<lambda>e. e\<lparr>ex_state := PROCESSING, ex_owner := owner,
                 ex_version := ex_version e + 1, ex_attempts := ex_attempts e + 1, ex_lease := now + leaseMs, ex_error := None\<rparr>)) (\<lambda>e.
               bindT (commit_check (key_id r)) (\<lambda>_.
               returnT (acquired r client e)))))))))))"

definition owned :: "prequote_lease \<Rightarrow> instant \<Rightarrow> (key_row \<times> execution) ptx" where
  "owned l now =
     bindT (requireT (\<lambda>s. first_row (\<lambda>k. key_id k = lease_record l \<and> key_client k = lease_client l) (key_rows s)) PREQUOTE_LEASE_LOST) (\<lambda>r.
     bindT (requireT (find_execution (key_id r)) PREQUOTE_LEASE_LOST) (\<lambda>e.
     bindT (guardT (\<not> (ex_state e \<noteq> PROCESSING \<or> ex_owner e \<noteq> lease_owner l \<or> ex_version e \<noteq> lease_version l \<or> ex_lease e \<le> now))
         PREQUOTE_LEASE_LOST) (\<lambda>_.
     returnT (r, e))))"

definition requireRoutingBudget :: "prequote_lease \<Rightarrow> int \<Rightarrow> instant \<Rightarrow> unit ptx" where
  "requireRoutingBudget l remainingMs now =
     bindT (owned l now) (\<lambda>(r, e). guardT (\<not> ex_lease e - now < remainingMs) PREQUOTE_LEASE_BUDGET_INSUFFICIENT)"

text \<open>\<open>fail\<close> of the service.\<close>

definition fail_execution :: "prequote_lease \<Rightarrow> string \<Rightarrow> bool \<Rightarrow> instant \<Rightarrow> instant \<Rightarrow> execution ptx" where
  "fail_execution l errorCode retryable now sqlNow =
     bindT (guardT (error_code_ok errorCode) PREQUOTE_ERROR_CODE_INVALID) (\<lambda>_.
     bindT (owned l now) (\<lambda>(r, e).
     bindT (update_execution sqlNow (lease_record l)
       (\<lambda>x. x\<lparr>ex_state := (if retryable \<and> ex_attempts e < ex_maxAttempts e then RETRYABLE_FAILED else EXECUTION_FAILED),
              ex_error := Some errorCode\<rparr>)) (\<lambda>row.
     bindT (commit_check (lease_record l)) (\<lambda>_. returnT row))))"

definition point_of :: "json \<Rightarrow> int \<times> int" where
  "point_of stop = (the (number (property ''latitude'' stop)), the (number (property ''longitude'' stop)))"

definition stop_at :: "nat \<Rightarrow> json \<Rightarrow> json" where
  "stop_at i conditions = the (elements (property ''stops'' conditions)) ! i"

text \<open>\<open>resolveActive\<close> of src/src/service-zones/service-zones.service.ts; \<open>contains\<close> is the polygon test.\<close>

definition resolveActive :: "(json \<Rightarrow> int \<times> int \<Rightarrow> bool) \<Rightarrow> prequote_db \<Rightarrow> int \<times> int \<Rightarrow> service_zone list" where
  "resolveActive contains s p =
     map service_zone.truncate (filter (\<lambda>z. zone_active z \<and> contains (zone_boundary z) p) (zone_rows s))"

definition current_pricing :: "(json \<Rightarrow> int \<times> int \<Rightarrow> bool) \<Rightarrow> json \<Rightarrow> prequote_db \<Rightarrow> quote_failure + pricing_configuration" where
  "current_pricing contains conditions s =
     prepareQuotePricing (point_of (stop_at 0 conditions)) (point_of (stop_at 1 conditions)) (resolveActive contains s)
       (\<lambda>z. map_option pricing_plan.truncate (findActive z LOCAL_DELIVERY (tariff s)))"

definition eitherT :: "('s \<Rightarrow> 'e + 'a) \<Rightarrow> ('e \<Rightarrow> 'f) \<Rightarrow> ('f, 's, 'a) tx" where
  "eitherT f h s = (case f s of Inl e \<Rightarrow> Inl (h e) | Inr a \<Rightarrow> Inr (a, s))"

text \<open>The clock is read three times under the locks and by each of two triggers; \<open>txStart\<close> is \<open>transaction_timestamp\<close>.\<close>

record publish_clock =
  txStart :: instant
  now_first :: instant
  now_issue :: instant
  now_evidence :: instant
  now_last :: instant
  now_sql :: instant

definition new_offer ::
    "key_row \<Rightarrow> id \<Rightarrow> json \<Rightarrow> zone_row \<Rightarrow> pricing_plan \<Rightarrow> quote_price \<Rightarrow> route_result \<Rightarrow> nat \<Rightarrow> instant \<Rightarrow> int \<Rightarrow> offer" where
  "new_offer r client conditions zone plan price route n issued validityMs =
     \<lparr>offer_id = key_resource r, offer_publicId = n, offer_record = key_id r, offer_client = client,
      offer_conditions = conditions, offer_zone = zone_id zone, offer_zoneCode = zone_code zone,
      offer_zoneName = zone_name zone, offer_zoneBoundary = zone_boundary zone, offer_plan = plan_id plan,
      offer_band = band_id (price_band price), offer_distance = route_distanceMeters route,
      offer_duration = route_durationSeconds route, offer_routingProvider = routingProvider route,
      offer_routeAt = calculatedAt route, offer_amount = price_amount price, offer_currency = price_currency price,
      offer_issuedAt = issued, offer_expiresAt = issued + validityMs\<rparr>"

definition publish ::
    "(string \<Rightarrow> string) \<Rightarrow> (json \<Rightarrow> int \<times> int \<Rightarrow> bool) \<Rightarrow> prequote_lease \<Rightarrow> json \<Rightarrow> id \<Rightarrow> id \<Rightarrow> route_result \<Rightarrow> int \<Rightarrow> publish_clock \<Rightarrow> offer ptx" where
  "publish sha256 contains l input zoneId planId route validityMs clock =
     bindT (conditionsT input) (\<lambda>conditions.
     bindT (guardT (validDuration validityMs 86400000) PREQUOTE_DURATION_INVALID) (\<lambda>_.
     bindT (owned l (now_first clock)) (\<lambda>(r, e).
     bindT (guardT (key_hash r = fingerprint sha256 PREQUOTE_OPERATION conditions) IdempotencyConflict) (\<lambda>_.
     bindT (eitherT (current_pricing contains conditions) QuoteFailure) (\<lambda>c.
     bindT (guardT (\<not> (zone_id (conf_zone c) \<noteq> zoneId \<or> plan_id (conf_plan c) \<noteq> planId \<or> plan_currency (conf_plan c) \<noteq> ''MXN''))
         PREQUOTE_CONFIGURATION_CHANGED) (\<lambda>_.
     bindT (eitherT (\<lambda>_. evaluateQuotePrice c route) QuoteFailure) (\<lambda>price.
     bindT (requireT (\<lambda>s. first_row (\<lambda>z. zone_id z = zone_id (conf_zone c)) (zone_rows s)) RecordMissing) (\<lambda>zone.
     bindT (owned l (now_issue clock)) (\<lambda>_.
     bindT next_mpq (\<lambda>n.
     (let q = new_offer r (lease_client l) conditions zone (conf_plan c) price route n (now_issue clock) validityMs in
      bindT (insert_offer sha256 (txStart clock) (now_evidence clock) q) (\<lambda>_.
      bindT (owned l (now_last clock)) (\<lambda>_.
      bindT (update_execution (now_sql clock) (key_id r) (\<lambda>e. e\<lparr>ex_state := SUCCEEDED, ex_error := None\<rparr>)) (\<lambda>_.
      bindT (commit_check (key_id r)) (\<lambda>_.
      returnT q)))))))))))))))"

end
