(* ===== verification/Prequote_Leases.thy ===== *)
theory Prequote_Leases imports Prequote_Executions "HOL-Library.Sublist" begin

text \<open>
  What holds over every history of keys, executions and offers, whoever reserves, fails or publishes and
  with whatever lease: one offer per key at most, exactly when its execution succeeded, and no way back
  for a lease that was lost.
\<close>

subsection \<open>One transaction\<close>

definition next_execution :: "execution \<Rightarrow> execution \<Rightarrow> bool" where
  "next_execution e f \<longleftrightarrow>
     ex_record f = ex_record e \<and> ex_maxAttempts f = ex_maxAttempts e \<and> ex_version e \<le> ex_version f
     \<and> (ex_state e \<in> {SUCCEEDED, EXECUTION_FAILED} \<longrightarrow> f = e)
     \<and> (ex_version f = ex_version e \<longrightarrow>
         ex_owner f = ex_owner e \<and> ex_lease f = ex_lease e \<and> (ex_state e \<noteq> PROCESSING \<longrightarrow> ex_state f \<noteq> PROCESSING))"

definition prequote_key :: "key_row \<Rightarrow> bool" where
  "prequote_key k \<longleftrightarrow> key_resourceType k = PREQUOTE_RESOURCE"

definition prequote_base :: "prequote_db \<Rightarrow> bool" where
  "prequote_base s \<longleftrightarrow>
     distinct (map key_id (key_rows s)) \<and> distinct (map (\<lambda>k. (key_client k, key_name k)) (key_rows s))
     \<and> distinct (map ex_record (executions s)) \<and> list_all execution_check (executions s)
     \<and> distinct (map offer_record (offers s)) \<and> distinct (map offer_id (offers s)) \<and> list_all offer_check (offers s)
     \<and> (\<forall>q \<in> set (offers s). \<exists>k \<in> set (key_rows s).
          key_id k = offer_record q \<and> key_resource k = offer_id q \<and> key_client k = offer_client q \<and> prequote_key k)
     \<and> unique_on prequote_key key_resource (key_rows s) \<and> (\<forall>k \<in> set (key_rows s). prequote_key k \<longrightarrow> key_resource k < next_uuid s)
     \<and> (\<forall>q \<in> set (offers s). offer_publicId q < mpq_sequence s) \<and> (\<forall>k \<in> set (key_rows s). key_id k < next_uuid s)
     \<and> (\<forall>e \<in> set (executions s). ex_record e < next_uuid s \<and> ex_owner e < next_uuid s)"

definition prequote_grows :: "prequote_db \<Rightarrow> prequote_db \<Rightarrow> bool" where
  "prequote_grows s t \<longleftrightarrow>
     prefix (key_rows s) (key_rows t) \<and> prefix (offers s) (offers t)
     \<and> (\<forall>e \<in> set (executions s). \<exists>f \<in> set (executions t). next_execution e f)"

text \<open>A part of a transaction that touches no key but \<open>rid\<close>.\<close>

definition touches :: "id \<Rightarrow> prequote_db \<Rightarrow> prequote_db \<Rightarrow> bool" where
  "touches rid s t \<longleftrightarrow>
     (prequote_base s \<longrightarrow>
        prequote_base t \<and> prequote_grows s t \<and> (\<forall>r. r \<noteq> rid \<longrightarrow> atomic_result r s \<longrightarrow> atomic_result r t))"

lemma next_execution_refl: "next_execution e e"
  by (simp add: next_execution_def)

lemma next_execution_trans:
  assumes "next_execution e f" "next_execution f g"
  shows "next_execution e g"
  using assms unfolding next_execution_def by (smt (verit) order.antisym order.trans)

interpretation touching: evolution "touches rid" for rid
proof
  show "touches rid s s" for s
    by (auto simp: touches_def prequote_grows_def intro: next_execution_refl)
next
  fix s t u assume "touches rid s t" "touches rid t u"
  then show "touches rid s u"
    unfolding touches_def prequote_grows_def by (meson next_execution_trans prefix_order.trans)
qed

lemma guard_next: "execution_update_guard sqlNow old new \<Longrightarrow> execution_check old \<Longrightarrow> execution_check new \<Longrightarrow> next_execution old new"
  by (auto simp: execution_update_guard_def next_execution_def split: if_splits)

lemma atomic_result_cong:
  "find_key_id r t = find_key_id r s \<Longrightarrow> find_execution r t = find_execution r s \<Longrightarrow>
   first_row (\<lambda>q. offer_record q = r) (offers t) = first_row (\<lambda>q. offer_record q = r) (offers s) \<Longrightarrow>
   atomic_result r t = atomic_result r s"
  by (simp add: atomic_result_def cong: option.case_cong)

lemma touchesI:
  assumes "prequote_base s \<Longrightarrow> prequote_base t" "prequote_base s \<Longrightarrow> prequote_grows s t"
    and "\<And>r. prequote_base s \<Longrightarrow> r \<noteq> rid \<Longrightarrow> find_key_id r t = find_key_id r s"
    and "\<And>r. prequote_base s \<Longrightarrow> r \<noteq> rid \<Longrightarrow> find_execution r t = find_execution r s"
    and "\<And>r. prequote_base s \<Longrightarrow> r \<noteq> rid \<Longrightarrow>
      first_row (\<lambda>q. offer_record q = r) (offers t) = first_row (\<lambda>q. offer_record q = r) (offers s)"
  shows "touches rid s t"
  using assms unfolding touches_def by (metis atomic_result_cong)

lemma grows_same: "key_rows t = key_rows s \<Longrightarrow> offers t = offers s \<Longrightarrow> executions t = executions s \<Longrightarrow> prequote_grows s t"
  by (auto simp: prequote_grows_def intro: next_execution_refl)

lemma touches_uuid: "fresh_uuid s = Inr (i, t) \<Longrightarrow> touches rid s t"
  by (rule touchesI) (auto simp: fresh_uuid_def prequote_base_def find_key_id_def find_execution_def less_Suc_eq
      intro!: grows_same)

lemma touches_mpq: "next_mpq s = Inr (i, t) \<Longrightarrow> touches rid s t"
  by (rule touchesI) (auto simp: next_mpq_def prequote_base_def find_key_id_def find_execution_def less_Suc_eq intro!: grows_same)

lemma touches_insert_execution:
  assumes "insert_execution sqlNow e s = Inr (u, t)" "ex_record e = rid" "rid < next_uuid s" "ex_owner e < next_uuid s"
  shows "touches rid s t"
proof -
  have t: "t = s\<lparr>executions := executions s @ [e]\<rparr>" "execution_check e" "find_execution rid s = None"
    using assms by (auto simp: insert_execution_def split: if_splits)
  then have "\<forall>x \<in> set (executions s). ex_record x \<noteq> rid"
    by (simp add: find_execution_def first_row_None)
  with t assms(2-4) show ?thesis
    by (intro touchesI) (auto simp: prequote_base_def prequote_grows_def find_key_id_def find_execution_def first_row_append first_row_single
        intro: next_execution_refl split: option.splits)
qed

lemma find_execution_update:
  "r \<noteq> rid \<Longrightarrow> (\<And>e. e \<in> set es \<Longrightarrow> ex_record e = rid \<Longrightarrow> ex_record (f e) = rid) \<Longrightarrow>
   first_row (\<lambda>e. ex_record e = r) (update_rows (\<lambda>e. ex_record e = rid) f es) = first_row (\<lambda>e. ex_record e = r) es"
  by (induction es) (auto simp: first_row_def)

lemma first_row_snoc: "\<not> P x \<Longrightarrow> first_row P (xs @ [x]) = first_row P xs"
  by (simp add: first_row_append first_row_single split: option.split)

lemma touches_update_execution:
  assumes "update_execution sqlNow rid f s = Inr (x, t)" and "\<And>e. ex_owner (f e) = ex_owner e \<or> ex_owner (f e) < next_uuid s"
  shows "touches rid s t"
proof -
  obtain old where old: "find_execution rid s = Some old" "execution_update_guard sqlNow old (f old)" "execution_check (f old)"
    and t: "t = s\<lparr>executions := update_rows (\<lambda>e. ex_record e = rid) f (executions s)\<rparr>"
    using assms(1) by (auto simp: update_execution_def split: option.splits if_splits)
  have mem: "old \<in> set (executions s)" "ex_record old = rid"
    using first_row_Some [OF old(1) [unfolded find_execution_def]] by simp_all
  have only: "e = old" if "prequote_base s" "e \<in> set (executions s)" "ex_record e = rid" for e
    using that mem unique_key [of ex_record "executions s" e old] by (simp add: prequote_base_def)
  have next_old: "next_execution old (f old)" if "prequote_base s"
    using that mem guard_next [OF old(2) _ old(3)] by (simp add: prequote_base_def list_all_iff)
  then have rec: "ex_record (f old) = rid" if "prequote_base s"
    using mem that by (simp add: next_execution_def)
  show ?thesis
  proof (rule touchesI)
    assume base: "prequote_base s"
    have "map ex_record (executions t) = map ex_record (executions s)"
      unfolding t by simp (rule map_update_rows, use only [OF base] rec [OF base] mem in blast)
    moreover have "list_all execution_check (executions t)"
      using base only [OF base] old(3) by (auto simp: t prequote_base_def list_all_iff set_update_rows)
    moreover have "ex_record e < next_uuid s \<and> ex_owner e < next_uuid s" if "e \<in> set (executions t)" for e
    proof -
      have "\<exists>d \<in> set (executions s). e = (if ex_record d = rid then f d else d)"
        using that by (simp add: t in_update_rows)
      then obtain d where d: "d \<in> set (executions s)" "e = (if ex_record d = rid then f d else d)" by blast
      have small: "ex_record d < next_uuid s" "ex_owner d < next_uuid s"
        using base d(1) by (auto simp: prequote_base_def)
      show ?thesis
      proof (cases "ex_record d = rid")
        case True
        then have "d = old" by (rule only [OF base d(1)])
        with True d(2) rec [OF base] small assms(2) [of old] show ?thesis by auto
      qed (use d(2) small in simp)
    qed
    ultimately show "prequote_base t"
      using base unfolding prequote_base_def by (simp add: t)
    show "prequote_grows s t"
      unfolding prequote_grows_def
    proof (intro conjI ballI)
      fix e assume e: "e \<in> set (executions s)"
      show "\<exists>f \<in> set (executions t). next_execution e f"
      proof (rule bexI)
        show "(if ex_record e = rid then f e else e) \<in> set (executions t)"
          using e by (auto simp: t set_update_rows)
        show "next_execution e (if ex_record e = rid then f e else e)"
          using only [OF base e] next_old [OF base] by (auto intro: next_execution_refl)
      qed
    qed (simp_all add: t)
  next
    fix r assume base: "prequote_base s" and "r \<noteq> rid"
    show "find_execution r t = find_execution r s"
      using only [OF base] rec [OF base] \<open>r \<noteq> rid\<close> by (auto simp: t find_execution_def intro!: find_execution_update)
  qed (simp_all add: t find_key_id_def)
qed

lemma touches_insert_offer:
  assumes "insert_offer sha256 started sqlNow q s = Inr (u, t)" "offer_record q = rid" "offer_publicId q < mpq_sequence s"
  shows "touches rid s t"
proof -
  have t: "t = s\<lparr>offers := offers s @ [q]\<rparr>" "offer_check q" "offer_evidence sha256 started sqlNow q s"
    "\<not> any_row (\<lambda>x. offer_id x = offer_id q \<or> offer_publicId x = offer_publicId q \<or> offer_record x = offer_record q) (offers s)"
    using assms(1) by (auto simp: insert_offer_def split: if_splits)
  obtain k where k: "find_key_id rid s = Some k" "key_resource k = offer_id q" "key_client k = offer_client q" "prequote_key k"
    using t(3) assms(2) by (auto simp: offer_evidence_def prequote_key_def split: option.splits)
  have "k \<in> set (key_rows s)" "key_id k = rid"
    using first_row_Some [OF k(1) [unfolded find_key_id_def]] by simp_all
  with k t(1,2,4) assms(2,3) show ?thesis
    by (intro touchesI) (auto simp: prequote_base_def prequote_grows_def find_key_id_def find_execution_def
        first_row_append first_row_single any_row_iff intro: next_execution_refl split: option.splits)
qed

lemma touches_new_key:
  assumes "key_id k = rid" "rid < next_uuid s" "find_key_id rid s = None" "find_key (key_client k) (key_name k) s = None"
    and "prequote_key k \<longrightarrow> key_resource k < next_uuid s \<and> (\<forall>x \<in> set (key_rows s). prequote_key x \<longrightarrow> key_resource x < key_resource k)"
  shows "touches rid s (s\<lparr>key_rows := key_rows s @ [k]\<rparr>)"
  using assms by (intro touchesI) (auto simp: unique_on_append prequote_base_def prequote_grows_def find_key_id_def find_execution_def find_key_def
      first_row_snoc first_row_None intro: next_execution_refl)

subsection \<open>The operations\<close>

definition prequote_inv :: "prequote_db \<Rightarrow> bool" where
  "prequote_inv s \<longleftrightarrow> prequote_base s \<and> (\<forall>r. atomic_result r s)"

lemma touches_inv: "touches rid s t \<Longrightarrow> atomic_result rid t \<Longrightarrow> prequote_inv s \<Longrightarrow> prequote_inv t \<and> prequote_grows s t"
  unfolding touches_def prequote_inv_def by metis

lemma commit_check_Inr: "commit_check rid s = Inr (u, t) \<longleftrightarrow> atomic_result rid s \<and> t = s"
  by (auto simp: commit_check_def)

lemma conditionsT_Inr: "conditionsT input s = Inr (c, t) \<longleftrightarrow> normalizePrequoteConditions input = Some c \<and> t = s"
  by (auto simp: conditionsT_def tx_simps)

lemma fresh_uuid_Inr: "fresh_uuid s = Inr (i, t) \<longleftrightarrow> i = next_uuid s \<and> t = s\<lparr>next_uuid := next_uuid s + 1\<rparr>"
  by (auto simp: fresh_uuid_def)

text \<open>Three identifiers are drawn by every reservation, used or not.\<close>

definition drawn :: "prequote_db \<Rightarrow> prequote_db" where
  "drawn s = s\<lparr>next_uuid := next_uuid s + 3\<rparr>"

lemma touches_drawn: "touches rid s (drawn s)"
  by (rule touchesI) (auto simp: drawn_def prequote_base_def find_key_id_def find_execution_def intro!: grows_same)

lemma lookups_drawn [simp]:
  "find_key c n (drawn s) = find_key c n s" "find_execution r (drawn s) = find_execution r s" "find_key_id r (drawn s) = find_key_id r s"
  "the_offer i (drawn s) = the_offer i s" "next_uuid (drawn s) = next_uuid s + 3" "key_rows (drawn s) = key_rows s"
  by (simp_all add: drawn_def find_key_def find_execution_def find_key_id_def the_offer_def)

lemma drawn_three: "s\<lparr>next_uuid := Suc (Suc (Suc (next_uuid s)))\<rparr> = drawn s"
  by (simp add: drawn_def)

definition new_key :: "(string \<Rightarrow> string) \<Rightarrow> id \<Rightarrow> string \<Rightarrow> json \<Rightarrow> prequote_db \<Rightarrow> key_row" where
  "new_key sha256 client name conditions s =
     \<lparr>key_id = next_uuid s, key_client = client, key_name = name, key_operation = PREQUOTE_OPERATION,
      key_resourceType = PREQUOTE_RESOURCE, key_resource = next_uuid s + 1,
      key_hash = fingerprint sha256 PREQUOTE_OPERATION conditions\<rparr>"

definition new_execution :: "int \<Rightarrow> instant \<Rightarrow> prequote_db \<Rightarrow> execution" where
  "new_execution maxAttempts lease_end s =
     \<lparr>ex_record = next_uuid s, ex_state = PROCESSING, ex_owner = next_uuid s + 2, ex_version = 1, ex_attempts = 1,
      ex_maxAttempts = maxAttempts, ex_lease = lease_end, ex_error = None\<rparr>"

lemma reserve_new:
  assumes "reserve sha256 client name input leaseMs maxAttempts now sqlNow s = Inr (x, t)" "find_key client name s = None"
  obtains conditions where
    "insert_execution sqlNow (new_execution maxAttempts (now + leaseMs) s)
       ((drawn s)\<lparr>key_rows := key_rows s @ [new_key sha256 client name conditions s]\<rparr>) = Inr ((), t)"
    "atomic_result (next_uuid s) t" "x = acquired (new_key sha256 client name conditions s) client (new_execution maxAttempts (now + leaseMs) s)"
  using assms unfolding reserve_def
  by (auto simp: tx_simps conditionsT_Inr fresh_uuid_Inr commit_check_Inr Let_def drawn_three new_key_def new_execution_def)

lemma reserve_old:
  assumes run: "reserve sha256 client name input leaseMs maxAttempts now sqlNow s = Inr (x, t)" and key: "find_key client name s = Some r"
  shows "\<exists>e. find_execution (key_id r) s = Some e \<and>
    ((t = drawn s \<and> (\<forall>l i. x \<noteq> Acquired l i))
     \<or> (atomic_result (key_id r) t \<and> (\<forall>l i. x \<noteq> Acquired l i)
        \<and> (\<exists>f. update_execution sqlNow (key_id r) (\<lambda>e. e\<lparr>ex_state := EXECUTION_FAILED, ex_error := Some ''ATTEMPTS_EXHAUSTED''\<rparr>) (drawn s) = Inr (f, t)))
     \<or> (atomic_result (key_id r) t
        \<and> (\<exists>f. update_execution sqlNow (key_id r) (\<lambda>e. e\<lparr>ex_state := PROCESSING, ex_owner := next_uuid s + 2,
                     ex_version := ex_version e + 1, ex_attempts := ex_attempts e + 1, ex_lease := now + leaseMs, ex_error := None\<rparr>) (drawn s) = Inr (f, t)
              \<and> x = acquired r client f)))"
proof -
  obtain e where e: "find_execution (key_id r) s = Some e"
    using run key unfolding reserve_def by (auto simp: tx_simps conditionsT_Inr fresh_uuid_Inr drawn_three)
  show ?thesis
    using run key e unfolding reserve_def
    by (simp add: tx_simps conditionsT_Inr fresh_uuid_Inr commit_check_Inr drawn_three split: if_splits; elim exE conjE; fastforce)
qed

lemma owned_Inr:
  "owned l now s = Inr ((r, e), t) \<longleftrightarrow>
     t = s \<and> first_row (\<lambda>k. key_id k = lease_record l \<and> key_client k = lease_client l) (key_rows s) = Some r
     \<and> find_execution (key_id r) s = Some e
     \<and> ex_state e = PROCESSING \<and> ex_owner e = lease_owner l \<and> ex_version e = lease_version l \<and> \<not> ex_lease e \<le> now"
  by (auto simp: owned_def tx_simps)

lemma owned_record: "owned l now s = Inr ((r, e), t) \<Longrightarrow> key_id r = lease_record l"
  by (auto simp: owned_Inr dest: first_row_Some)

lemma reserve_inv:
  assumes run: "reserve sha256 client name input leaseMs maxAttempts now sqlNow s = Inr (x, t)" and inv: "prequote_inv s"
  shows "prequote_inv t \<and> prequote_grows s t"
proof (cases "find_key client name s")
  case None
  from run None obtain conditions where new:
    "insert_execution sqlNow (new_execution maxAttempts (now + leaseMs) s)
       ((drawn s)\<lparr>key_rows := key_rows s @ [new_key sha256 client name conditions s]\<rparr>) = Inr ((), t)"
    "atomic_result (next_uuid s) t" by (rule reserve_new)
  let ?k = "new_key sha256 client name conditions s" and ?n = "next_uuid s"
  have unused: "find_key_id ?n s = None"
    using inv by (fastforce simp: prequote_inv_def prequote_base_def find_key_id_def first_row_None)
  have "touches ?n s (drawn s)" by (rule touches_drawn)
  moreover have "touches ?n (drawn s) ((drawn s)\<lparr>key_rows := key_rows (drawn s) @ [?k]\<rparr>)"
    by (rule touches_new_key) (use unused None inv in \<open>auto simp: new_key_def prequote_inv_def prequote_base_def\<close>)
  moreover have "touches ?n ((drawn s)\<lparr>key_rows := key_rows s @ [?k]\<rparr>) t"
    by (rule touches_insert_execution [OF new(1)]) (simp_all add: new_execution_def drawn_def)
  ultimately have "touches ?n s t" by (metis touching.trans lookups_drawn(6))
  then show ?thesis by (rule touches_inv [OF _ new(2) inv])
next
  case (Some r)
  consider "t = drawn s"
    | f y where "update_execution sqlNow (key_id r) f (drawn s) = Inr (y, t)" "\<forall>e. ex_owner (f e) \<in> {ex_owner e, next_uuid s + 2}" "atomic_result (key_id r) t"
    using reserve_old [OF run Some]
    by (elim exE conjE disjE) (rule that(1), assumption, erule that(2), simp, assumption, erule that(2), simp, assumption)
  then show ?thesis
  proof cases
    case 1
    have "atomic_result q (drawn s) = atomic_result q s" for q
      by (rule atomic_result_cong) (simp_all, simp add: drawn_def)
    with 1 touches_drawn [of "key_id r" s] inv show ?thesis
      by (intro touches_inv) (auto simp: prequote_inv_def)
  next
    case 2
    have "touches (key_id r) (drawn s) t"
      using 2(2) by (intro touches_update_execution [OF 2(1)]) auto
    with touches_drawn have "touches (key_id r) s t" by (rule touching.trans)
    then show ?thesis using 2(3) inv by (rule touches_inv)
  qed
qed

lemma fail_inv:
  assumes run: "fail_execution l errorCode retryable now sqlNow s = Inr (x, t)" and inv: "prequote_inv s"
  shows "prequote_inv t \<and> prequote_grows s t"
proof -
  obtain f where "update_execution sqlNow (lease_record l) f s = Inr (x, t)" "\<And>e. ex_owner (f e) = ex_owner e"
    and at: "atomic_result (lease_record l) t"
    using run unfolding fail_execution_def by (fastforce simp: tx_simps owned_Inr commit_check_Inr)
  then have "touches (lease_record l) s t" by (auto elim!: touches_update_execution)
  then show ?thesis using at inv by (rule touches_inv)
qed

lemma eitherT_Inr: "eitherT f h s = Inr (a, t) \<longleftrightarrow> f s = Inr a \<and> t = s"
  by (auto simp: eitherT_def split: sum.splits)

lemma next_mpq_Inr: "next_mpq s = Inr (n, t) \<longleftrightarrow> n = mpq_sequence s \<and> t = s\<lparr>mpq_sequence := mpq_sequence s + 1\<rparr>"
  by (auto simp: next_mpq_def)

lemma publish_unfold:
  assumes run: "publish sha256 contains l input zoneId planId route validityMs clock s = Inr (q, t)"
  shows "\<exists>r e s2 x. owned l (now_first clock) s = Inr ((r, e), s) \<and> owned l (now_last clock) s2 = Inr ((r, e), s2)
     \<and> offer_publicId q = mpq_sequence s \<and> offer_record q = key_id r \<and> offer_id q = key_resource r \<and> offer_client q = lease_client l
     \<and> normalizePrequoteConditions input = Some (offer_conditions q)
     \<and> key_hash r = fingerprint sha256 PREQUOTE_OPERATION (offer_conditions q)
     \<and> insert_offer sha256 (txStart clock) (now_evidence clock) q (s\<lparr>mpq_sequence := mpq_sequence s + 1\<rparr>) = Inr ((), s2)
     \<and> update_execution (now_sql clock) (key_id r) (\<lambda>e. e\<lparr>ex_state := SUCCEEDED, ex_error := None\<rparr>) s2 = Inr (x, t)
     \<and> atomic_result (key_id r) t"
proof -
  obtain r e s2 x r' e' where
    "owned l (now_first clock) s = Inr ((r, e), s)" "owned l (now_last clock) s2 = Inr ((r', e'), s2)"
    "offer_publicId q = mpq_sequence s" "offer_record q = key_id r" "offer_id q = key_resource r" "offer_client q = lease_client l"
    "normalizePrequoteConditions input = Some (offer_conditions q)"
    "key_hash r = fingerprint sha256 PREQUOTE_OPERATION (offer_conditions q)"
    "insert_offer sha256 (txStart clock) (now_evidence clock) q (s\<lparr>mpq_sequence := mpq_sequence s + 1\<rparr>) = Inr ((), s2)"
    "update_execution (now_sql clock) (key_id r) (\<lambda>e. e\<lparr>ex_state := SUCCEEDED, ex_error := None\<rparr>) s2 = Inr (x, t)"
    "atomic_result (key_id r) t"
    using run unfolding publish_def
    by (auto simp: tx_simps conditionsT_Inr eitherT_Inr commit_check_Inr next_mpq_Inr owned_Inr Let_def new_offer_def)
  moreover have "r' = r \<and> e' = e"
    using calculation(1,2,9) by (auto simp: owned_Inr insert_offer_def find_execution_def split: if_splits)
  ultimately show ?thesis by blast
qed

lemma publish_inv:
  assumes run: "publish sha256 contains l input zoneId planId route validityMs clock s = Inr (q, t)" and inv: "prequote_inv s"
  shows "prequote_inv t \<and> prequote_grows s t"
proof -
  obtain r :: key_row and s2 x where q: "offer_record q = key_id r" "offer_publicId q = mpq_sequence s"
    and offer: "insert_offer sha256 (txStart clock) (now_evidence clock) q (s\<lparr>mpq_sequence := mpq_sequence s + 1\<rparr>) = Inr ((), s2)"
    and update: "update_execution (now_sql clock) (key_id r) (\<lambda>e. e\<lparr>ex_state := SUCCEEDED, ex_error := None\<rparr>) s2 = Inr (x, t)"
    and at: "atomic_result (key_id r) t"
    using publish_unfold [OF run] by blast
  have "touches (key_id r) s (s\<lparr>mpq_sequence := mpq_sequence s + 1\<rparr>)"
    by (rule touches_mpq) (simp add: next_mpq_Inr)
  moreover have "touches (key_id r) (s\<lparr>mpq_sequence := mpq_sequence s + 1\<rparr>) s2"
    using offer q(1) by (rule touches_insert_offer) (simp add: q(2))
  moreover have "touches (key_id r) s2 t"
    using update by (rule touches_update_execution) simp
  ultimately have "touches (key_id r) s t" by (blast intro: touching.trans)
  then show ?thesis using at inv by (rule touches_inv)
qed

subsection \<open>Histories\<close>

text \<open>
  A state of the system is the database and a clock that never runs back. Leases and evidence are
  arbitrary: a caller may hold any lease, stolen or stale.
\<close>

inductive prequote_step ::
    "(string \<Rightarrow> string) \<Rightarrow> (json \<Rightarrow> int \<times> int \<Rightarrow> bool) \<Rightarrow> prequote_db \<times> instant \<Rightarrow> prequote_db \<times> instant \<Rightarrow> bool"
  for sha256 :: "string \<Rightarrow> string" and contains :: "json \<Rightarrow> int \<times> int \<Rightarrow> bool" where
  reserves: "reserve sha256 client name input leaseMs maxAttempts now sqlNow s = Inr (x, t) \<Longrightarrow> w \<le> now \<Longrightarrow> now \<le> sqlNow \<Longrightarrow> sqlNow \<le> v \<Longrightarrow>
    prequote_step sha256 contains (s, w) (t, v)"
| fails: "fail_execution l errorCode retryable now sqlNow s = Inr (y, t) \<Longrightarrow> w \<le> now \<Longrightarrow> now \<le> sqlNow \<Longrightarrow> sqlNow \<le> v \<Longrightarrow>
    prequote_step sha256 contains (s, w) (t, v)"
| publishes: "publish sha256 contains l input zoneId planId route validityMs clock s = Inr (q, t) \<Longrightarrow>
    w \<le> now_first clock \<Longrightarrow> now_first clock \<le> now_issue clock \<Longrightarrow> now_issue clock \<le> now_evidence clock \<Longrightarrow>
    now_evidence clock \<le> now_last clock \<Longrightarrow> now_last clock \<le> now_sql clock \<Longrightarrow> now_sql clock \<le> v \<Longrightarrow>
    prequote_step sha256 contains (s, w) (t, v)"
| other_key: "key_id k = next_uuid s \<Longrightarrow> key_resourceType k \<noteq> PREQUOTE_RESOURCE \<Longrightarrow> find_key (key_client k) (key_name k) s = None \<Longrightarrow> w \<le> v \<Longrightarrow>
    prequote_step sha256 contains (s, w) (s\<lparr>key_rows := key_rows s @ [k], next_uuid := next_uuid s + 1\<rparr>, v)"
| configures: "w \<le> v \<Longrightarrow> prequote_step sha256 contains (s, w) (s\<lparr>zone_rows := zs, tariff := r\<rparr>, v)"

lemma other_key_inv:
  assumes new: "key_id k = next_uuid s" and type: "key_resourceType k \<noteq> PREQUOTE_RESOURCE"
    and free: "find_key (key_client k) (key_name k) s = None" and inv: "prequote_inv s"
  defines "t \<equiv> s\<lparr>key_rows := key_rows s @ [k], next_uuid := next_uuid s + 1\<rparr>"
  shows "prequote_inv t \<and> prequote_grows s t"
proof -
  let ?u = "s\<lparr>next_uuid := next_uuid s + 1\<rparr>"
  have unused: "find_key_id (next_uuid s) s = None"
    using inv by (fastforce simp: prequote_inv_def prequote_base_def find_key_id_def first_row_None)
  have "find_execution (next_uuid s) s = None"
    using inv by (fastforce simp: prequote_inv_def prequote_base_def find_execution_def first_row_None)
  then have at: "atomic_result (next_uuid s) t"
    using type new unused
    by (simp add: atomic_result_def t_def find_key_id_def find_execution_def first_row_append first_row_single)
  have "touches (next_uuid s) s ?u" by (rule touches_uuid) (simp add: fresh_uuid_def)
  moreover have "touches (next_uuid s) ?u (?u\<lparr>key_rows := key_rows ?u @ [k]\<rparr>)"
    by (rule touches_new_key) (use new unused free type in \<open>simp_all add: find_key_id_def find_key_def prequote_key_def\<close>)
  moreover have "?u\<lparr>key_rows := key_rows ?u @ [k]\<rparr> = t" by (simp add: t_def)
  ultimately have "touches (next_uuid s) s t" by (metis touching.trans)
  then show ?thesis using at inv by (rule touches_inv)
qed

lemma configure_inv:
  assumes "prequote_inv s"
  shows "prequote_inv (s\<lparr>zone_rows := zs, tariff := r\<rparr>) \<and> prequote_grows s (s\<lparr>zone_rows := zs, tariff := r\<rparr>)"
proof -
  have "atomic_result i (s\<lparr>zone_rows := zs, tariff := r\<rparr>) = atomic_result i s" for i
    by (rule atomic_result_cong) (simp_all add: find_key_id_def find_execution_def)
  with assms show ?thesis
    by (auto simp: prequote_inv_def prequote_base_def intro!: grows_same)
qed

lemma step_inv:
  assumes "prequote_step sha256 contains x y" and "prequote_inv (fst x)"
  shows "prequote_inv (fst y) \<and> prequote_grows (fst x) (fst y) \<and> snd x \<le> snd y"
  using assms
proof cases
  case reserves
  then show ?thesis using reserve_inv assms(2) by auto
next
  case fails
  then show ?thesis using fail_inv assms(2) by auto
next
  case publishes
  then show ?thesis using publish_inv assms(2) by auto
next
  case other_key
  then show ?thesis using other_key_inv assms(2) by auto
next
  case configures
  then show ?thesis using configure_inv assms(2) by auto
qed

lemma prequote_grows_trans: "prequote_grows s t \<Longrightarrow> prequote_grows t u \<Longrightarrow> prequote_grows s u"
  unfolding prequote_grows_def by (meson next_execution_trans prefix_order.trans)

interpretation prequotes: invariant_system "prequote_step sha256 contains" "\<lambda>x. prequote_inv (fst x)" for sha256 contains
  by unfold_locales (use step_inv in blast)

interpretation prequote_growth: invariant_system "prequote_step sha256 contains"
    "\<lambda>x. prequote_inv (fst x) \<and> prequote_grows (fst a) (fst x) \<and> snd a \<le> snd x" for sha256 contains a
  by unfold_locales (use step_inv prequote_grows_trans in \<open>fastforce\<close>)

lemma history_grows:
  assumes "(prequote_step sha256 contains)\<^sup>*\<^sup>* (s, w) (t, v)" "prequote_inv s"
  shows "prequote_inv t \<and> prequote_grows s t \<and> w \<le> v"
  using prequote_growth.reachable_inv [OF assms(1), of "(s, w)"] assms(2) by (auto intro: grows_same)

subsection \<open>What a key owns\<close>

lemma key_of_id:
  assumes "prequote_inv s" "k \<in> set (key_rows s)"
  shows "find_key_id (key_id k) s = Some k"
  using assms first_row_unique_key [of key_id "key_rows s" k] by (simp add: prequote_inv_def prequote_base_def find_key_id_def)

lemma execution_of_id:
  assumes "prequote_inv s" "e \<in> set (executions s)"
  shows "find_execution (ex_record e) s = Some e"
  using assms first_row_unique_key [of ex_record "executions s" e] by (simp add: prequote_inv_def prequote_base_def find_execution_def)

lemma offer_of_record:
  assumes "prequote_inv s" "q \<in> set (offers s)"
  shows "first_row (\<lambda>x. offer_record x = offer_record q) (offers s) = Some q" and "the_offer (offer_id q) s = Some q"
  using assms first_row_unique_key [of offer_record "offers s" q] first_row_unique_key [of offer_id "offers s" q]
  by (simp_all add: prequote_inv_def prequote_base_def the_offer_def)

lemma filter_unique_key:
  "distinct (map key rs) \<Longrightarrow> length (filter (\<lambda>q. key q = i) rs) = (if first_row (\<lambda>q. key q = i) rs = None then 0 else 1)"
proof (induction rs)
  case (Cons q rs)
  then have "first_row (\<lambda>x. key x = i) rs = None" if "key q = i"
    using that Cons.prems by (auto simp: first_row_None) (metis image_eqI)
  with Cons show ?case by (auto simp: first_row_def)
qed (simp add: first_row_def)

lemma execution_found: "prequote_inv s \<Longrightarrow> find_execution r s = Some e \<Longrightarrow> execution_check e \<and> e \<in> set (executions s) \<and> ex_record e = r"
  unfolding prequote_inv_def prequote_base_def find_execution_def list_all_iff by (blast dest: first_row_Some)

lemma key_owns:
  assumes inv: "prequote_inv s" and k: "k \<in> set (key_rows s)" and type: "key_resourceType k = PREQUOTE_RESOURCE"
  shows "\<exists>e \<in> set (executions s). ex_record e = key_id k
    \<and> 1 \<le> ex_attempts e \<and> ex_attempts e \<le> ex_maxAttempts e \<and> ex_maxAttempts e \<le> 5
    \<and> length (filter (\<lambda>q. offer_record q = key_id k) (offers s)) = (if ex_state e = SUCCEEDED then 1 else 0)"
proof -
  have "atomic_result (key_id k) s"
    using inv by (simp add: prequote_inv_def)
  then obtain e where e: "find_execution (key_id k) s = Some e"
    and success: "(first_row (\<lambda>q. offer_record q = key_id k) (offers s) = None) = (ex_state e \<noteq> SUCCEEDED)"
    using key_of_id [OF inv k] type by (auto simp: atomic_result_def split: option.splits)
  have "execution_check e" "e \<in> set (executions s)" "ex_record e = key_id k"
    using execution_found [OF inv e] by simp_all
  moreover have "length (filter (\<lambda>q. offer_record q = key_id k) (offers s)) = (if ex_state e = SUCCEEDED then 1 else 0)"
    using inv success by (simp add: filter_unique_key prequote_inv_def prequote_base_def)
  ultimately show ?thesis
    by (intro bexI [of _ e]) (simp_all add: execution_check_def)
qed

lemma empty_inv: "key_rows s = [] \<Longrightarrow> executions s = [] \<Longrightarrow> offers s = [] \<Longrightarrow> prequote_inv s"
  by (simp add: prequote_inv_def prequote_base_def atomic_result_def find_key_id_def find_execution_def first_row_def)

lemma history_owns:
  assumes "(prequote_step sha256 contains)\<^sup>*\<^sup>* (s, w) (t, v)" "key_rows s = []" "executions s = []" "offers s = []"
    and "k \<in> set (key_rows t)" "key_resourceType k = PREQUOTE_RESOURCE"
  shows "\<exists>e \<in> set (executions t). ex_record e = key_id k
    \<and> 1 \<le> ex_attempts e \<and> ex_attempts e \<le> ex_maxAttempts e \<and> ex_maxAttempts e \<le> 5
    \<and> length (filter (\<lambda>q. offer_record q = key_id k) (offers t)) = (if ex_state e = SUCCEEDED then 1 else 0)"
  using key_owns [OF conjunct1 [OF history_grows [OF assms(1) empty_inv [OF assms(2-4)]]] assms(5,6)] .

subsection \<open>A lease that was lost\<close>

definition lost_lease :: "prequote_lease \<Rightarrow> prequote_db \<Rightarrow> instant \<Rightarrow> bool" where
  "lost_lease l s w \<longleftrightarrow>
     (\<exists>e \<in> set (executions s). ex_record e = lease_record l
       \<and> (lease_version l < ex_version e
          \<or> lease_version l = ex_version e \<and> (ex_state e \<noteq> PROCESSING \<or> ex_owner e \<noteq> lease_owner l \<or> ex_lease e \<le> w)))"

lemma lost_stays:
  assumes "lost_lease l s w" "prequote_grows s t" "w \<le> v"
  shows "lost_lease l t v"
proof -
  obtain e where e: "e \<in> set (executions s)" "ex_record e = lease_record l"
    and why: "lease_version l < ex_version e
      \<or> lease_version l = ex_version e \<and> (ex_state e \<noteq> PROCESSING \<or> ex_owner e \<noteq> lease_owner l \<or> ex_lease e \<le> w)"
    using assms(1) by (auto simp: lost_lease_def)
  obtain f where f: "f \<in> set (executions t)" "next_execution e f"
    using assms(2) e(1) by (auto simp: prequote_grows_def)
  show ?thesis
    unfolding lost_lease_def
    by (rule bexI [OF _ f(1)]) (use e why f(2) assms(3) in \<open>auto simp: next_execution_def\<close>)
qed

lemma lost_owned:
  assumes "prequote_inv t" "lost_lease l t v" "v \<le> now"
  shows "owned l now t = Inl PREQUOTE_LEASE_LOST"
proof -
  obtain e where e: "e \<in> set (executions t)" "ex_record e = lease_record l"
    and why: "lease_version l < ex_version e
      \<or> lease_version l = ex_version e \<and> (ex_state e \<noteq> PROCESSING \<or> ex_owner e \<noteq> lease_owner l \<or> ex_lease e \<le> v)"
    using assms(2) by (auto simp: lost_lease_def)
  have found: "find_execution (lease_record l) t = Some e"
    using execution_of_id [OF assms(1) e(1)] e(2) by simp
  show ?thesis
  proof (cases "first_row (\<lambda>k. key_id k = lease_record l \<and> key_client k = lease_client l) (key_rows t)")
    case (Some r)
    then have "key_id r = lease_record l" by (auto dest: first_row_Some)
    with Some found why assms(3) show ?thesis
      by (auto simp: owned_def bindT_def requireT_def guardT_def)
  qed (simp add: owned_def bindT_def requireT_def)
qed

lemma acquired_simp: "Acquired l i = acquired r client e \<longleftrightarrow>
    l = \<lparr>lease_record = key_id r, lease_client = client, lease_owner = ex_owner e, lease_version = ex_version e\<rparr> \<and> i = key_resource r"
  by (auto simp: acquired_def)

lemma acquired_execution:
  assumes run: "reserve sha256 client name input leaseMs maxAttempts now sqlNow s = Inr (Acquired l i, t)" and inv: "prequote_inv s"
  shows "\<exists>e \<in> set (executions t). ex_record e = lease_record l \<and> ex_version e = lease_version l
    \<and> (\<forall>d \<in> set (executions s). ex_record d = lease_record l \<longrightarrow> ex_version d < lease_version l)"
proof (cases "find_key client name s")
  case None
  from run None obtain conditions where
    "insert_execution sqlNow (new_execution maxAttempts (now + leaseMs) s)
       ((drawn s)\<lparr>key_rows := key_rows s @ [new_key sha256 client name conditions s]\<rparr>) = Inr ((), t)"
    "Acquired l i = acquired (new_key sha256 client name conditions s) client (new_execution maxAttempts (now + leaseMs) s)"
    by (rule reserve_new)
  moreover have "ex_record d \<noteq> next_uuid s" if "d \<in> set (executions s)" for d
    using that inv by (auto simp: prequote_inv_def prequote_base_def)
  ultimately show ?thesis
    by (auto simp: insert_execution_def acquired_simp new_key_def new_execution_def split: if_splits)
next
  case (Some r)
  let ?f = "\<lambda>e. e\<lparr>ex_state := PROCESSING, ex_owner := next_uuid s + 2, ex_version := ex_version e + 1,
    ex_attempts := ex_attempts e + 1, ex_lease := now + leaseMs, ex_error := None\<rparr>"
  obtain e x where e: "find_execution (key_id r) s = Some e"
    and upd: "update_execution sqlNow (key_id r) ?f (drawn s) = Inr (x, t)" and l: "Acquired l i = acquired r client x"
    using reserve_old [OF run Some] by blast
  have mem: "e \<in> set (executions s)" "ex_record e = key_id r"
    using execution_found [OF inv e] by simp_all
  have t: "x = ?f e" "t = (drawn s)\<lparr>executions := update_rows (\<lambda>e. ex_record e = key_id r) ?f (executions s)\<rparr>"
    using upd e by (auto simp: update_execution_def drawn_def find_execution_def split: if_splits)
  show ?thesis
  proof (intro bexI [of _ "?f e"] conjI ballI impI)
    show "ex_record (?f e) = lease_record l" "ex_version (?f e) = lease_version l"
      using l t(1) mem(2) by (simp_all add: acquired_simp)
    show "?f e \<in> set (executions t)"
      using mem by (auto simp: t(2) set_update_rows)
    fix d assume "d \<in> set (executions s)" "ex_record d = lease_record l"
    then have "d = e"
      using execution_of_id [OF inv, of d] e l by (simp add: acquired_simp)
    then show "ex_version d < lease_version l"
      using l t(1) by (simp add: acquired_simp)
  qed
qed

lemma fenced:
  assumes "prequote_inv s"
    and first: "reserve sha256 client name input leaseMs maxAttempts now sqlNow s = Inr (Acquired l i, s1)"
    and "(prequote_step sha256 contains)\<^sup>*\<^sup>* (s1, w1) (s2, w2)"
    and second: "reserve sha256 client' name' input' leaseMs' maxAttempts' now' sqlNow' s2 = Inr (Acquired m j, s3)"
    and same: "lease_record m = lease_record l"
    and "(prequote_step sha256 contains)\<^sup>*\<^sup>* (s3, w3) (t, v)" "v \<le> time"
  shows "owned l time t = Inl PREQUOTE_LEASE_LOST"
proof -
  have inv1: "prequote_inv s1" using reserve_inv [OF first assms(1)] by simp
  then have inv2: "prequote_inv s2" and grow2: "prequote_grows s1 s2" using history_grows [OF assms(3)] by simp_all
  then have inv3: "prequote_inv s3" using reserve_inv [OF second] by simp
  obtain e where e: "e \<in> set (executions s1)" "ex_record e = lease_record l" "ex_version e = lease_version l"
    using acquired_execution [OF first assms(1)] by blast
  then obtain f where f: "f \<in> set (executions s2)" "next_execution e f"
    using grow2 by (auto simp: prequote_grows_def)
  obtain g where g: "g \<in> set (executions s3)" "ex_record g = lease_record l"
    "ex_version g = lease_version m" "ex_version f < lease_version m"
    using acquired_execution [OF second inv2] f e same by (auto simp: next_execution_def)
  then have "lost_lease l s3 w3"
    using e f by (auto simp: lost_lease_def next_execution_def)
  then show ?thesis
    using history_grows [OF assms(6) inv3] assms(7) by (auto intro: lost_stays lost_owned)
qed

subsection \<open>A retry of a published key\<close>

lemma published_key:
  assumes run: "publish sha256 contains l input zoneId planId route validityMs clock s = Inr (q, t)" and inv: "prequote_inv s"
    and k: "k \<in> set (key_rows t)" "key_id k = lease_record l"
  shows "q \<in> set (offers t) \<and> key_resource k = offer_id q \<and> key_client k = lease_client l
    \<and> own_key sha256 (offer_conditions q) k \<and> normalizePrequoteConditions input = Some (offer_conditions q)
    \<and> (\<exists>e \<in> set (executions t). ex_record e = key_id k \<and> ex_state e = SUCCEEDED)"
proof -
  obtain r :: key_row and e s2 x where own: "owned l (now_first clock) s = Inr ((r, e), s)"
    and q: "offer_record q = key_id r" "offer_id q = key_resource r" "offer_client q = lease_client l"
    and input: "normalizePrequoteConditions input = Some (offer_conditions q)"
    and hash: "key_hash r = fingerprint sha256 PREQUOTE_OPERATION (offer_conditions q)"
    and offer: "insert_offer sha256 (txStart clock) (now_evidence clock) q (s\<lparr>mpq_sequence := mpq_sequence s + 1\<rparr>) = Inr ((), s2)"
    and update: "update_execution (now_sql clock) (key_id r) (\<lambda>e. e\<lparr>ex_state := SUCCEEDED, ex_error := None\<rparr>) s2 = Inr (x, t)"
    and at: "atomic_result (key_id r) t"
    using publish_unfold [OF run] by blast
  have t: "key_rows t = key_rows s" "offers t = offers s @ [q]"
    using offer update by (auto simp: insert_offer_def update_execution_def split: if_splits option.splits)
  have r: "r \<in> set (key_rows s)" "key_id r = lease_record l"
    using own by (auto simp: owned_Inr dest: first_row_Some)
  have "find_key_id (key_id r) s = Some r"
    using inv r(1) by (rule key_of_id)
  then have evidence: "key_operation r = PREQUOTE_OPERATION \<and> key_resourceType r = PREQUOTE_RESOURCE \<and> key_client r = offer_client q"
    using offer q(1) by (auto simp: insert_offer_def offer_evidence_def find_key_id_def split: if_splits option.splits)
  have "k = r"
    using key_of_id [OF inv, of k] key_of_id [OF inv r(1)] k r(2) t(1) by simp
  moreover have "\<exists>e \<in> set (executions t). ex_record e = key_id r \<and> ex_state e = SUCCEEDED"
  proof -
    obtain old where old: "find_execution (key_id r) s2 = Some old"
      and t2: "t = s2\<lparr>executions := update_rows (\<lambda>e. ex_record e = key_id r) (\<lambda>e. e\<lparr>ex_state := SUCCEEDED, ex_error := None\<rparr>) (executions s2)\<rparr>"
      using update by (auto simp: update_execution_def split: option.splits if_splits)
    have "old \<in> set (executions s2)" "ex_record old = key_id r"
      using old by (auto simp: find_execution_def dest: first_row_Some)
    then have "old\<lparr>ex_state := SUCCEEDED, ex_error := None\<rparr> \<in> set (executions t)"
      by (force simp: t2 set_update_rows)
    then show ?thesis
      by (rule bexI [rotated]) (simp add: \<open>ex_record old = key_id r\<close>)
  qed
  ultimately show ?thesis
    using q input hash evidence t(2) by (simp add: own_key_def)
qed

lemma retry_keeps:
  assumes run: "publish sha256 contains l input zoneId planId route validityMs clock s = Inr (q, s1)" and inv: "prequote_inv s"
    and hist: "(prequote_step sha256 contains)\<^sup>*\<^sup>* (s1, w) (t, v)"
    and k: "k \<in> set (key_rows s1)" "key_id k = lease_record l"
    and policy: "visible_key (key_name k)" "validDuration leaseMs 300000" "validDuration maxAttempts 5"
    and input: "normalizePrequoteConditions input' = normalizePrequoteConditions input"
  shows "reserve sha256 (lease_client l) (key_name k) input' leaseMs maxAttempts now sqlNow t = Inr (Kept q, drawn t)"
proof -
  have inv1: "prequote_inv s1" using publish_inv [OF run inv] by simp
  have inv_t: "prequote_inv t" and grow: "prequote_grows s1 t" using history_grows [OF hist inv1] by simp_all
  obtain e where q: "q \<in> set (offers s1)" and kq: "key_resource k = offer_id q" "key_client k = lease_client l"
    and own: "own_key sha256 (offer_conditions q) k" and cond: "normalizePrequoteConditions input = Some (offer_conditions q)"
    and e: "e \<in> set (executions s1)" "ex_record e = key_id k" "ex_state e = SUCCEEDED"
    using published_key [OF run inv k] by blast
  have k_t: "k \<in> set (key_rows t)" and q_t: "q \<in> set (offers t)" and e_t: "e \<in> set (executions t)"
    using grow k(1) q e(1,3) by (auto simp: prequote_grows_def next_execution_def dest: set_mono_prefix)
  have "first_row (\<lambda>x. (key_client x, key_name x) = (key_client k, key_name k)) (key_rows t) = Some k"
    using inv_t k_t by (intro first_row_unique_key) (simp_all add: prequote_inv_def prequote_base_def)
  then have "find_key (lease_client l) (key_name k) t = Some k"
    by (simp add: find_key_def kq(2))
  moreover have "find_execution (key_id k) t = Some e"
    using execution_of_id [OF inv_t e_t] e(2) by simp
  moreover have "the_offer (key_resource k) t = Some q"
    using offer_of_record(2) [OF inv_t q_t] kq(1) by simp
  moreover have "find_key c n (s\<lparr>next_uuid := i\<rparr>) = find_key c n s" for c n i and s :: prequote_db
    by (simp add: find_key_def)
  ultimately show ?thesis
    using policy input cond own e(3) unfolding reserve_def
    by (simp add: bindT_def conditionsT_def requireT_def guardT_def readT_def fresh_uuid_def returnT_def drawn_three)
qed

subsection \<open>A live lease publishes\<close>

lemma priced:
  assumes price: "current_pricing contains c s = Inr conf" "evaluateQuotePrice conf route = Inr price"
    and rates: "rates_wf (tariff s)" and zones: "distinct (map zone_id (zone_rows s))"
    and bands: "\<forall>p \<in> set (rdb_plans (tariff s)). distinct (map band_id (plan_bands p))"
  shows "\<exists>z p. first_row (\<lambda>x. zone_id x = zone_id (conf_zone conf)) (zone_rows s) = Some z \<and> zone_active z
    \<and> zone_id z = zone_id (conf_zone conf) \<and> zone_currency z = plan_currency (conf_plan conf)
    \<and> first_row (\<lambda>x. plan_id x = plan_id (conf_plan conf)) (rdb_plans (tariff s)) = Some p
    \<and> plan_zone p = zone_id z \<and> plan_status p = PLAN_ACTIVE \<and> plan_currency p = plan_currency (conf_plan conf)
    \<and> first_row (\<lambda>b. band_id b = band_id (price_band price)) (plan_bands p) = Some (price_band price)
    \<and> band_covers (price_band price) (route_distanceMeters route) \<and> band_ok (plan_currency (conf_plan conf)) (price_band price)
    \<and> price_amount price = band_amount (price_band price) \<and> price_currency price = band_currency (price_band price)"
proof -
  let ?b = "price_band price"
  note conf = prepareQuotePricing_Inr [OF price(1) [unfolded current_pricing_def]]
  have "conf_zone conf \<in> set (resolveActive contains s (point_of (stop_at 0 c)))"
    by (simp add: conf(1))
  then obtain z where z: "z \<in> set (zone_rows s)" "zone_active z" "service_zone.truncate z = conf_zone conf"
    by (auto simp: resolveActive_def)
  have zid: "zone_id z = zone_id (conf_zone conf)" and zc: "zone_currency z = zone_currency (conf_zone conf)"
    by (simp_all add: z(3) [symmetric] service_zone.truncate_def)
  obtain p where p: "p \<in> set (rdb_plans (tariff s))" "plan_zone p = zone_id z" "plan_status p = PLAN_ACTIVE"
    "conf_plan conf = pricing_plan.truncate (planSelect p)"
    using conf(2) zid by (auto simp: findActive_def dest!: first_row_Some)
  have plan: "plan_id (conf_plan conf) = plan_id p" "plan_currency (conf_plan conf) = plan_currency p"
    and sorted_bands: "plan_bands (conf_plan conf) = sort_key band_min (plan_bands p)"
    by (simp_all add: p(4) planSelect_def)
  have valid: "plan_currency p = zone_currency z" "validateBands (plan_bands p) (plan_currency p) = []"
    using conf(3) unfolding validateQuoteRatePlan_Inr sorted_bands plan(2) zc validateBands_sorted by blast+
  have found: "findBand (plan_bands (conf_plan conf)) (route_distanceMeters route) = Some ?b"
    and amount: "price_amount price = band_amount ?b" "price_currency price = band_currency ?b"
    using price(2) by (auto simp: evaluateQuotePrice_def split: option.splits)
  then have b: "?b \<in> set (plan_bands p)" "band_covers ?b (route_distanceMeters route)"
    using first_row_Some [OF found [unfolded findBand_def first_row_def [symmetric]]] by (simp_all add: sorted_bands)
  then have ok: "band_ok (plan_currency p) ?b"
    using valid(2) by (simp add: validateBands_Nil)
  have "first_row (\<lambda>x. zone_id x = zone_id z) (zone_rows s) = Some z"
    using zones z(1) by (rule first_row_unique_key)
  moreover have "first_row (\<lambda>x. plan_id x = plan_id p) (rdb_plans (tariff s)) = Some p"
    using rates p(1) by (intro first_row_unique_key) (simp_all add: rates_wf_def)
  moreover have "first_row (\<lambda>x. band_id x = band_id ?b) (plan_bands p) = Some ?b"
    using bands p(1) b(1) by (intro first_row_unique_key) simp_all
  ultimately show ?thesis
    using z(2) zid p(2,3) plan valid(1) b(2) ok amount by (intro exI [of _ z] exI [of _ p]) simp
qed

lemma offer_accepted:
  assumes inv: "prequote_inv s" and key: "normalizePrequoteConditions input = Some c" "own_key sha256 c r" "r \<in> set (key_rows s)"
    and live: "find_execution (key_id r) s = Some e" "ex_state e = PROCESSING" "sqlNow < ex_lease e"
    and z: "first_row (\<lambda>x. zone_id x = zone_id z) (zone_rows s) = Some z" "zone_active z" "zone_currency z = ''MXN''"
    and p: "first_row (\<lambda>x. plan_id x = plan_id plan) (rdb_plans (tariff s)) = Some p"
      "plan_zone p = zone_id z" "plan_status p = PLAN_ACTIVE" "plan_currency p = ''MXN''"
    and b: "first_row (\<lambda>b. band_id b = band_id (price_band price)) (plan_bands p) = Some (price_band price)"
      "band_covers (price_band price) (route_distanceMeters route)" "band_currency (price_band price) = ''MXN''"
      "price_amount price = band_amount (price_band price)" "price_currency price = band_currency (price_band price)"
    and clock: "started \<le> issued" "issued \<le> sqlNow"
  shows "offer_evidence sha256 started sqlNow (new_offer r (key_client r) c z plan price route n issued validityMs) s"
proof -
  have plain: "plain c"
    using normalized_valid(2) [OF normalize_normalized [OF key(1)]] .
  have hash: "key_hash r = sql_request_hash sha256 (key_operation r) c"
    using key(2) plain
    by (simp add: own_key_def sql_request_hash_def fingerprint_def sql_canonical del: canonicalJson.simps prequote_canonical_json.simps)
  obtain st where "plan_serviceType p = st" "plan_calculationType p = DISTANCE_BANDS"
    by (cases "plan_calculationType p") simp
  then show ?thesis
    using key_of_id [OF inv key(3)] key(2) hash live z p b clock
    by (cases "plan_serviceType p") (simp add: offer_evidence_def new_offer_def own_key_def band_covers_def)
qed

lemma no_offer_yet:
  assumes inv: "prequote_inv s" and e: "find_execution (key_id r) s = Some e" "ex_state e = PROCESSING"
    and r: "r \<in> set (key_rows s)" "prequote_key r"
  shows "\<not> any_row (\<lambda>x. offer_id x = key_resource r \<or> offer_publicId x = mpq_sequence s \<or> offer_record x = key_id r) (offers s)"
proof
  assume "any_row (\<lambda>x. offer_id x = key_resource r \<or> offer_publicId x = mpq_sequence s \<or> offer_record x = key_id r) (offers s)"
  moreover have "atomic_result (key_id r) s" using inv by (simp add: prequote_inv_def)
  then have none: "\<forall>q \<in> set (offers s). offer_record q \<noteq> key_id r"
    using key_of_id [OF inv r(1)] e by (auto simp: atomic_result_def first_row_None split: if_splits option.splits)
  moreover have "\<forall>q \<in> set (offers s). offer_publicId q < mpq_sequence s"
    using inv by (simp add: prequote_inv_def prequote_base_def)
  ultimately obtain q where q: "q \<in> set (offers s)" "offer_id q = key_resource r"
    by (auto simp: any_row_iff)
  then obtain k where k: "k \<in> set (key_rows s)" "key_id k = offer_record q" "key_resource k = key_resource r" "prequote_key k"
    using inv unfolding prequote_inv_def prequote_base_def by metis
  then have "k = r"
    using unique_onD [of prequote_key key_resource "key_rows s" k r] inv r by (simp add: prequote_inv_def prequote_base_def)
  then show False using k(2) none q(1) by auto
qed

definition succeeded_execution :: "execution \<Rightarrow> execution" where
  "succeeded_execution e = e\<lparr>ex_state := SUCCEEDED, ex_error := None\<rparr>"

lemma success_commits:
  assumes inv: "prequote_inv s" and e: "find_execution (key_id r) s = Some e" "ex_state e = PROCESSING" "sqlNow < ex_lease e"
    and r: "r \<in> set (key_rows s)" "prequote_key r" and q: "offer_record q = key_id r" "offer_id q = key_resource r" "offer_client q = key_client r"
    and s2: "s2 = s\<lparr>mpq_sequence := n, offers := offers s @ [q]\<rparr>"
  shows "\<exists>x t. update_execution sqlNow (key_id r) succeeded_execution s2 = Inr (x, t) \<and> atomic_result (key_id r) t"
proof -
  define t where "t = s2\<lparr>executions := update_rows (\<lambda>e. ex_record e = key_id r) succeeded_execution (executions s2)\<rparr>"
  have found: "find_execution (key_id r) s2 = Some e"
    using e(1) by (simp add: s2 find_execution_def)
  have check: "execution_check e" "e \<in> set (executions s)" "ex_record e = key_id r"
    using execution_found [OF inv e(1)] by simp_all
  have run: "update_execution sqlNow (key_id r) succeeded_execution s2 = Inr (succeeded_execution e, t)"
    using check e(2,3) by (simp add: update_execution_def found t_def execution_update_guard_def execution_check_def succeeded_execution_def)
  have "first_row (\<lambda>x. ex_record x = key_id r) (executions t) = Some (succeeded_execution e)"
  proof -
    have "map ex_record (executions t) = map ex_record (executions s)"
      by (simp add: t_def s2 succeeded_execution_def map_update_rows)
    then have "distinct (map ex_record (executions t))"
      using inv by (simp add: prequote_inv_def prequote_base_def)
    moreover have "succeeded_execution e \<in> set (executions t)"
      using check by (force simp: t_def s2 set_update_rows)
    ultimately have "first_row (\<lambda>x. ex_record x = ex_record (succeeded_execution e)) (executions t) = Some (succeeded_execution e)"
      by (rule first_row_unique_key)
    then show ?thesis using check(3) by (simp add: succeeded_execution_def)
  qed
  moreover have "find_key_id (key_id r) t = Some r"
    using key_of_id [OF inv r(1)] by (simp add: t_def s2 find_key_id_def)
  moreover have "first_row (\<lambda>x. offer_record x = key_id r) (offers t) = Some q"
  proof -
    have "atomic_result (key_id r) s" using inv by (simp add: prequote_inv_def)
    then have "first_row (\<lambda>x. offer_record x = key_id r) (offers s) = None"
      using key_of_id [OF inv r(1)] e by (auto simp: atomic_result_def split: if_splits option.splits)
    then show ?thesis using q(1) by (simp add: t_def s2 first_row_append first_row_single)
  qed
  ultimately have "atomic_result (key_id r) t"
    using r(2) q by (simp add: atomic_result_def find_execution_def prequote_key_def succeeded_execution_def)
  with run show ?thesis by blast
qed

lemma live_publishes:
  assumes inv: "prequote_inv s" and own: "owned l (now_first clock) s = Inr ((r, e), s)" and alive: "now_sql clock < ex_lease e"
    and order: "now_first clock \<le> now_issue clock" "now_issue clock \<le> now_evidence clock" "now_evidence clock \<le> now_last clock"
      "now_last clock \<le> now_sql clock" "txStart clock \<le> now_issue clock"
    and key: "normalizePrequoteConditions input = Some c" "own_key sha256 c r" and validity: "validDuration validityMs 86400000"
    and price: "current_pricing contains c s = Inr conf" "evaluateQuotePrice conf route = Inr price" "plan_currency (conf_plan conf) = ''MXN''"
    and tables: "rates_wf (tariff s)" "distinct (map zone_id (zone_rows s))"
      "\<forall>p \<in> set (rdb_plans (tariff s)). distinct (map band_id (plan_bands p))"
    and route: "0 \<le> route_durationSeconds route" "calculatedAt route \<le> now_issue clock"
      "btrim (routingProvider route) \<noteq> []" "length (btrim (routingProvider route)) \<le> 100"
  shows "\<exists>q t. publish sha256 contains l input (zone_id (conf_zone conf)) (plan_id (conf_plan conf)) route validityMs clock s = Inr (q, t)
    \<and> offer_amount q = band_amount (price_band price) \<and> offer_expiresAt q = now_issue clock + validityMs"
proof -
  obtain z p where z: "first_row (\<lambda>x. zone_id x = zone_id (conf_zone conf)) (zone_rows s) = Some z" "zone_active z"
      "zone_id z = zone_id (conf_zone conf)" "zone_currency z = plan_currency (conf_plan conf)"
    and p: "first_row (\<lambda>x. plan_id x = plan_id (conf_plan conf)) (rdb_plans (tariff s)) = Some p"
      "plan_zone p = zone_id z" "plan_status p = PLAN_ACTIVE" "plan_currency p = plan_currency (conf_plan conf)"
    and b: "first_row (\<lambda>b. band_id b = band_id (price_band price)) (plan_bands p) = Some (price_band price)"
      "band_covers (price_band price) (route_distanceMeters route)" "band_ok (plan_currency (conf_plan conf)) (price_band price)"
      "price_amount price = band_amount (price_band price)" "price_currency price = band_currency (price_band price)"
    using priced [OF price(1,2) tables] by blast
  have found: "first_row (\<lambda>k. key_id k = lease_record l \<and> key_client k = lease_client l) (key_rows s) = Some r"
    "find_execution (key_id r) s = Some e" "ex_state e = PROCESSING" "ex_owner e = lease_owner l" "ex_version e = lease_version l"
    using own by (auto simp: owned_Inr)
  have r: "r \<in> set (key_rows s)" "key_id r = lease_record l" "key_client r = lease_client l" "prequote_key r"
    using first_row_Some [OF found(1)] key(2) by (auto simp: own_key_def prequote_key_def)
  define q where "q = new_offer r (lease_client l) c z (conf_plan conf) price route (mpq_sequence s) (now_issue clock) validityMs"
  define s1 where "s1 = s\<lparr>mpq_sequence := mpq_sequence s + 1\<rparr>"
  define s2 where "s2 = s1\<lparr>offers := offers s1 @ [q]\<rparr>"
  have "offer_evidence sha256 (txStart clock) (now_evidence clock) q s"
    unfolding q_def r(3) [symmetric] using inv key r(1) found(2,3)
    by (rule offer_accepted) (use z p b order alive price(3) in \<open>simp_all add: band_ok_def\<close>)
  then have evidence: "offer_evidence sha256 (txStart clock) (now_evidence clock) q s1"
    by (simp add: s1_def offer_evidence_def find_key_id_def find_execution_def cong: option.case_cong)
  have check: "offer_check q"
    using normalized_valid(1) [OF normalize_normalized [OF key(1)]] validity b route price(3)
    by (auto simp: offer_check_def q_def new_offer_def validDuration_def band_ok_def band_covers_def Suc_le_eq)
  have "insert_offer sha256 (txStart clock) (now_evidence clock) q s1 = Inr ((), s2)"
    using evidence check no_offer_yet [OF inv found(2,3) r(1,4)]
    by (simp add: insert_offer_def s2_def) (simp add: q_def s1_def new_offer_def any_row_def)
  moreover obtain x t where "update_execution (now_sql clock) (key_id r) succeeded_execution s2 = Inr (x, t)" "atomic_result (key_id r) t"
    using success_commits [OF inv found(2,3) alive r(1,4), of q s2 "mpq_sequence s + 1"] r(3) by (auto simp: q_def new_offer_def s2_def s1_def)
  moreover have "owned l (now_issue clock) s = Inr ((r, e), s)" "owned l (now_last clock) s2 = Inr ((r, e), s2)"
    using found alive order by (auto simp: owned_Inr s2_def s1_def find_execution_def)
  ultimately have "publish sha256 contains l input (zone_id (conf_zone conf)) (plan_id (conf_plan conf)) route validityMs clock s = Inr (q, t)"
    using key validity own price z(1) unfolding publish_def succeeded_execution_def [abs_def]
    by (simp add: bindT_def conditionsT_def requireT_def guardT_def eitherT_def returnT_def next_mpq_def own_key_def
        commit_check_def s1_def q_def Let_def)
  then show ?thesis
    using b(4) by (auto simp: q_def new_offer_def)
qed

end
