(* ===== verification/Prequote_Scenarios.thy ===== *)
theory Prequote_Scenarios imports Prequote_Leases begin

text \<open>
  What the keys of prequotes promise, as properties, and one history at which each of them applies: a
  client reserves a key, its lease runs out, a second worker takes the key over and publishes.
\<close>

subsection \<open>The example\<close>

definition example_stop :: "string \<Rightarrow> int \<Rightarrow> json" where
  "example_stop t n =
     JObj [(''type'', JStr t), (''sequence'', JNum (n * one)), (''latitude'', JNum (19 * one)), (''longitude'', JNum 5)]"

definition example_package :: json where
  "example_package =
     JObj [(''category'', JStr ''FOOD''), (''quantity'', JNum one), (''weightKg'', JNull), (''lengthCm'', JNull),
           (''widthCm'', JNull), (''heightCm'', JNull), (''isFragile'', JBool False)]"

definition example_conditions :: json where
  "example_conditions =
     JObj [(''conditionsVersion'', JNum one), (''serviceType'', JStr ''LOCAL_DELIVERY''),
           (''stops'', JArr [example_stop ''PICKUP'' 1, example_stop ''DROPOFF'' 2]), (''packages'', JArr [example_package])]"

text \<open>The same conditions as a client may send them: the stops in the other order, the defaults left out.\<close>

definition example_input :: json where
  "example_input =
     JObj [(''packages'', JArr [JObj [(''category'', JStr ''FOOD''), (''quantity'', JNum one)]]),
           (''stops'', JArr [example_stop ''DROPOFF'' 2, example_stop ''PICKUP'' 1]),
           (''serviceType'', JStr ''LOCAL_DELIVERY''), (''conditionsVersion'', JNum one)]"

lemmas normalizing_example = normalizePrequoteConditions_def example_conditions_def example_input_def example_stop_def example_package_def
  one_def stop_validates_def package_validates_def is_int_between_def is_coordinate_def is_measure_def normal_stop_def normal_package_def
  or_else_def sequence_of_def is_stop_def List.member_iff

lemma example_normalized: "normalizePrequoteConditions example_conditions = Some example_conditions"
  by (simp add: normalizing_example)

lemma example_input_normalized: "normalizePrequoteConditions example_input = Some example_conditions"
  by (simp add: normalizing_example)

definition example_digest :: "string \<Rightarrow> string" where
  "example_digest text = ''digest''"

definition empty_prequotes :: prequote_db where
  "empty_prequotes =
     \<lparr>key_rows = [], executions = [], offers = [],
      zone_rows = [\<lparr>zone_id = 4, zone_currency = ''MXN'', zone_active = True, zone_code = ''CENTRO'', zone_name = ''Centro'', zone_boundary = JNull\<rparr>],
      tariff = example_active, next_uuid = 1, mpq_sequence = 7\<rparr>"

definition example_key :: key_row where
  "example_key =
     \<lparr>key_id = 1, key_client = 9, key_name = ''order-0001'', key_operation = PREQUOTE_OPERATION,
      key_resourceType = PREQUOTE_RESOURCE, key_resource = 2, key_hash = ''digest''\<rparr>"

definition first_execution :: execution where
  "first_execution =
     \<lparr>ex_record = 1, ex_state = PROCESSING, ex_owner = 3, ex_version = 1, ex_attempts = 1, ex_maxAttempts = 3,
      ex_lease = 2000, ex_error = None\<rparr>"

definition first_lease :: prequote_lease where
  "first_lease = \<lparr>lease_record = 1, lease_client = 9, lease_owner = 3, lease_version = 1\<rparr>"

definition after_first :: prequote_db where
  "after_first = empty_prequotes\<lparr>key_rows := [example_key], executions := [first_execution], next_uuid := 4\<rparr>"

definition second_execution :: execution where
  "second_execution =
     \<lparr>ex_record = 1, ex_state = PROCESSING, ex_owner = 6, ex_version = 2, ex_attempts = 2, ex_maxAttempts = 3,
      ex_lease = 5000, ex_error = None\<rparr>"

definition second_lease :: prequote_lease where
  "second_lease = \<lparr>lease_record = 1, lease_client = 9, lease_owner = 6, lease_version = 2\<rparr>"

definition after_second :: prequote_db where
  "after_second = empty_prequotes\<lparr>key_rows := [example_key], executions := [second_execution], next_uuid := 7\<rparr>"

lemma first_reservation:
  "reserve example_digest 9 ''order-0001'' example_input 1000 3 1000 1000 empty_prequotes = Inr (Acquired first_lease 2, after_first)"
  by (simp add: reserve_def conditionsT_def requireT_def bindT_def guardT_def readT_def fresh_uuid_def returnT_def
      example_input_normalized visible_key_def validDuration_def max_safe_integer_def empty_prequotes_def find_key_def first_row_def
      insert_execution_def execution_insert_guard_def execution_check_def find_execution_def commit_check_def atomic_result_def
      find_key_id_def acquired_def first_lease_def after_first_def example_key_def first_execution_def fingerprint_def example_digest_def
      del: canonicalJson.simps)

lemma second_reservation:
  "reserve example_digest 9 ''order-0001'' example_conditions 2000 3 3000 3000 after_first = Inr (Acquired second_lease 2, after_second)"
  by (simp add: reserve_def conditionsT_def requireT_def bindT_def guardT_def readT_def fresh_uuid_def returnT_def
      example_normalized visible_key_def validDuration_def max_safe_integer_def empty_prequotes_def find_key_def first_row_def
      update_execution_def execution_update_guard_def execution_check_def find_execution_def commit_check_def atomic_result_def own_key_def
      find_key_id_def acquired_def second_lease_def after_second_def after_first_def example_key_def first_execution_def second_execution_def
      fingerprint_def example_digest_def del: canonicalJson.simps)

definition example_clock :: publish_clock where
  "example_clock = \<lparr>txStart = 3100, now_first = 3200, now_issue = 3300, now_evidence = 3400, now_last = 3500, now_sql = 3600\<rparr>"

abbreviation everywhere :: "json \<Rightarrow> int \<times> int \<Rightarrow> bool" where
  "everywhere \<equiv> \<lambda>_ _. True"

lemma example_configuration:
  "\<exists>c p. current_pricing everywhere example_conditions after_second = Inr c \<and> evaluateQuotePrice c example_route = Inr p
     \<and> plan_currency (conf_plan c) = ''MXN'' \<and> plan_id (conf_plan c) = 3 \<and> zone_id (conf_zone c) = 4 \<and> band_amount (price_band p) = 6500"
proof -
  have zones: "resolveActive everywhere after_second x = [example_zone]" for x
    by (simp add: resolveActive_def after_second_def empty_prequotes_def example_zone_def service_zone.truncate_def)
  have plans: "(\<lambda>z. map_option pricing_plan.truncate (findActive z LOCAL_DELIVERY (tariff after_second))) = activePricing example_active"
    by (simp add: fun_eq_iff activePricing_def after_second_def empty_prequotes_def)
  have same: "current_pricing everywhere example_conditions after_second
      = prepareQuotePricing (0 :: nat) 0 (\<lambda>_. [example_zone]) (activePricing example_active)"
    unfolding current_pricing_def plans by (simp add: prepareQuotePricing_def zones)
  have "case prepareQuotePricing (0 :: nat) 0 (\<lambda>_. [example_zone]) (activePricing example_active) of
      Inl _ \<Rightarrow> False
    | Inr c \<Rightarrow> plan_currency (conf_plan c) = ''MXN'' \<and> plan_id (conf_plan c) = 3 \<and> zone_id (conf_zone c) = 4
        \<and> (case evaluateQuotePrice c example_route of Inl _ \<Rightarrow> False | Inr p \<Rightarrow> band_amount (price_band p) = 6500)"
    by code_simp
  then show ?thesis unfolding same by (auto split: sum.splits)
qed

lemma example_rates_ok:
  "rates_wf (tariff after_second)" "distinct (map zone_id (zone_rows after_second))"
  "\<forall>p \<in> set (rdb_plans (tariff after_second)). distinct (map band_id (plan_bands p))"
proof -
  show "rates_wf (tariff after_second)"
    using rate_history.reachable_inv [OF example_history empty_rates_wf] by (simp add: after_second_def empty_prequotes_def)
  show "distinct (map zone_id (zone_rows after_second))"
    by (simp add: after_second_def empty_prequotes_def)
  have "list_all (\<lambda>p. distinct (map band_id (plan_bands p))) (rdb_plans example_active)" by code_simp
  then show "\<forall>p \<in> set (rdb_plans (tariff after_second)). distinct (map band_id (plan_bands p))"
    by (simp add: list_all_iff after_second_def empty_prequotes_def)
qed

lemma empty_prequotes_inv: "prequote_inv empty_prequotes"
  by (rule empty_inv) (simp_all add: empty_prequotes_def)

lemma after_first_inv: "prequote_inv after_first"
  using reserve_inv [OF first_reservation empty_prequotes_inv] by simp

lemma after_second_inv: "prequote_inv after_second"
  using reserve_inv [OF second_reservation after_first_inv] by simp

lemma example_owned: "owned second_lease 3200 after_second = Inr ((example_key, second_execution), after_second)"
  by (simp add: owned_def requireT_def bindT_def guardT_def returnT_def after_second_def empty_prequotes_def example_key_def
      second_execution_def second_lease_def find_execution_def first_row_def)

lemma example_own_key: "own_key example_digest example_conditions example_key"
  by (simp add: own_key_def example_key_def fingerprint_def example_digest_def del: canonicalJson.simps)

lemma example_steps:
  "prequote_step example_digest everywhere (empty_prequotes, 0) (after_first, 1000)"
  "prequote_step example_digest everywhere (after_first, 1000) (after_second, 3000)"
  by (rule reserves [OF first_reservation], simp_all) (rule reserves [OF second_reservation], simp_all)

subsection \<open>The properties\<close>

text \<open>
  C28: A key never owns more than one prequote, and owns one exactly when its execution succeeded. In every
  history that starts without keys (reservations, failures and publications with any lease, other services'
  keys and changes of the tariff, in any order) every prequote key has its execution, tried at most as often
  as its policy allows and at most five times, and one stored prequote if that execution is SUCCEEDED, none
  otherwise.
\<close>

theorem key_owns_one_result:
  assumes "(prequote_step sha256 contains)\<^sup>*\<^sup>* (s, w) (t, v)" "key_rows s = []" "executions s = []" "offers s = []"
    and "k \<in> set (key_rows t)" "key_resourceType k = PREQUOTE_RESOURCE"
  shows "\<exists>e \<in> set (executions t). ex_record e = key_id k
    \<and> 1 \<le> ex_attempts e \<and> ex_attempts e \<le> ex_maxAttempts e \<and> ex_maxAttempts e \<le> 5
    \<and> length (filter (\<lambda>q. offer_record q = key_id k) (offers t)) = (if ex_state e = SUCCEEDED then 1 else 0)"
  using assms by (rule history_owns)

theorem key_owns_one_result_witness:
  "\<exists>e \<in> set (executions after_second). ex_record e = 1 \<and> ex_attempts e = 2
     \<and> length (filter (\<lambda>q. offer_record q = 1) (offers after_second)) = 0"
proof -
  have hist: "(prequote_step example_digest everywhere)\<^sup>*\<^sup>* (empty_prequotes, 0) (after_second, 3000)"
    by (rule rtranclp.rtrancl_into_rtrancl [OF r_into_rtranclp]) (rule example_steps)+
  show ?thesis
    using key_owns_one_result [OF hist, of example_key]
    by (simp add: empty_prequotes_def after_second_def example_key_def second_execution_def)
qed

text \<open>
  C29: A worker whose lease was superseded is fenced off for ever. When a key was reserved once and, after
  whatever happened meanwhile, reserved again, then nothing that happens later lets the first lease publish
  a prequote, declare a failure or spend routing budget.
\<close>

theorem superseded_lease_is_fenced:
  assumes "prequote_inv s"
    and "reserve sha256 client name input leaseMs maxAttempts now sqlNow s = Inr (Acquired l i, s1)"
    and "(prequote_step sha256 contains)\<^sup>*\<^sup>* (s1, w1) (s2, w2)"
    and "reserve sha256 client' name' input' leaseMs' maxAttempts' now' sqlNow' s2 = Inr (Acquired m j, s3)"
    and "lease_record m = lease_record l"
    and "(prequote_step sha256 contains)\<^sup>*\<^sup>* (s3, w3) (t, v)"
    and "v \<le> time" "v \<le> now_first clock"
  shows "\<not> succeeded (publish sha256 contains l body zoneId planId route validityMs clock t)
    \<and> \<not> succeeded (fail_execution l code retryable time sqlTime t)
    \<and> requireRoutingBudget l remainingMs time t = Inl PREQUOTE_LEASE_LOST"
proof -
  have "owned l x t = Inl PREQUOTE_LEASE_LOST" if "v \<le> x" for x
    using assms(1-6) that by (rule fenced)
  with assms(7,8) have lost: "owned l time t = Inl PREQUOTE_LEASE_LOST" "owned l (now_first clock) t = Inl PREQUOTE_LEASE_LOST"
    by simp_all
  have "publish sha256 contains l body zoneId planId route validityMs clock t \<noteq> Inr (q, u)" for q u
    using publish_unfold [of sha256 contains l body zoneId planId route validityMs clock t q u] lost(2) by auto
  moreover have "fail_execution l code retryable time sqlTime t \<noteq> Inr (y, u)" for y u
    using lost(1) by (auto simp: fail_execution_def tx_simps)
  ultimately show ?thesis
    using lost(1) by (auto dest!: succeeded_Inr simp: requireRoutingBudget_def bindT_def)
qed

theorem superseded_lease_is_fenced_witness:
  "\<not> succeeded (publish example_digest everywhere first_lease example_conditions 4 3 example_route 600000 example_clock after_second)"
  using superseded_lease_is_fenced [OF empty_prequotes_inv first_reservation rtranclp.rtrancl_refl second_reservation _ rtranclp.rtrancl_refl,
      where time = 3000 and v = 3000 and clock = example_clock and contains = everywhere]
  by (simp add: first_lease_def second_lease_def example_clock_def)


lemma example_route_ok:
  "0 \<le> route_durationSeconds example_route" "calculatedAt example_route \<le> 3300" "btrim (routingProvider example_route) = ''GOOGLE''"
  by (simp_all add: example_route_def btrim_def)


text \<open>
  C31: A retry of a published key answers the prequote that was published. Whatever happens afterwards to
  the tariff, the clock and the other keys, a reservation of the same client with the same key returns that
  very prequote and starts nothing, also when its body spells the same conditions differently.
\<close>

theorem published_key_replays:
  assumes "publish sha256 contains l input zoneId planId route validityMs clock s = Inr (q, s1)" and "prequote_inv s"
    and "(prequote_step sha256 contains)\<^sup>*\<^sup>* (s1, w) (t, v)"
    and "k \<in> set (key_rows s1)" "key_id k = lease_record l"
    and "visible_key (key_name k)" "validDuration leaseMs 300000" "validDuration maxAttempts 5"
    and "normalizePrequoteConditions input' = normalizePrequoteConditions input"
  shows "reserve sha256 (lease_client l) (key_name k) input' leaseMs maxAttempts now sqlNow t = Inr (Kept q, drawn t)"
  using assms by (rule retry_keeps)

lemma example_publication:
  "\<exists>q t. publish example_digest everywhere second_lease example_input 4 3 example_route 600000 example_clock after_second = Inr (q, t)"
proof -
  obtain c p where c: "current_pricing everywhere example_conditions after_second = Inr c" "evaluateQuotePrice c example_route = Inr p"
    "plan_currency (conf_plan c) = ''MXN''" "plan_id (conf_plan c) = 3" "zone_id (conf_zone c) = 4"
    using example_configuration by blast
  show ?thesis
    using live_publishes [of after_second second_lease example_clock example_key second_execution example_input example_conditions
        example_digest 600000 everywhere c example_route p] after_second_inv example_owned example_input_normalized example_own_key c
      example_rates_ok example_route_ok
    by (auto simp: example_clock_def second_execution_def validDuration_def max_safe_integer_def)
qed

theorem published_key_replays_witness:
  "\<exists>q t. publish example_digest everywhere second_lease example_input 4 3 example_route 600000 example_clock after_second = Inr (q, t)
    \<and> reserve example_digest 9 ''order-0001'' example_conditions 1000 3 9000 9000 t = Inr (Kept q, drawn t)"
proof -
  obtain q t where run: "publish example_digest everywhere second_lease example_input 4 3 example_route 600000 example_clock after_second = Inr (q, t)"
    using example_publication by blast
  have "example_key \<in> set (key_rows after_second)" by (simp add: after_second_def)
  then have k: "example_key \<in> set (key_rows t)"
    using publish_inv [OF run after_second_inv] by (auto simp: prequote_grows_def dest: set_mono_prefix)
  have "reserve example_digest 9 ''order-0001'' example_conditions 1000 3 9000 9000 t = Inr (Kept q, drawn t)"
    using published_key_replays [OF run after_second_inv rtranclp.rtrancl_refl k, where leaseMs = 1000 and maxAttempts = 3]
    by (simp add: example_key_def second_lease_def visible_key_def validDuration_def max_safe_integer_def
        example_normalized example_input_normalized)
  with run show ?thesis by blast
qed

text \<open>
  C32: Normalizing the conditions is stable and understood by SQL. What the normalizer returns normalizes to
  itself, satisfies the CHECK of the table, and its canonical text is the same in TypeScript and in SQL, so
  that both compute one hash.
\<close>

theorem normalized_conditions_are_stable:
  assumes "normalizePrequoteConditions v = Some c"
  shows "normalizePrequoteConditions c = Some c \<and> prequote_conditions_valid c \<and> prequote_canonical_json c = canonicalJson c"
  using normalize_again [OF assms] normalized_valid [OF normalize_normalized [OF assms]] sql_canonical by simp

theorem normalized_conditions_are_stable_witness:
  "normalizePrequoteConditions example_input = Some example_conditions \<and> prequote_conditions_valid example_conditions
    \<and> prequote_canonical_json example_conditions = canonicalJson example_conditions"
  using normalized_conditions_are_stable [OF example_input_normalized] example_input_normalized by blast

text \<open>
  C33: The text a request is hashed from identifies the request. Two values have one canonical text exactly
  when they are the same value up to the order of the keys, the properties that are undefined and the
  difference between null and undefined: no other pair of requests can share an idempotency hash without a
  collision of SHA-256.
\<close>

theorem canonical_text_identifies_request:
  "canonicalJson v = canonicalJson w \<longleftrightarrow> normal v = normal w"
  by (rule same_text)

end
