(* ===== verification/Registry_Tables.thy ===== *)
theory Registry_Tables imports Data_Model Transaction_Steps "HOL-Library.Char_ord" begin

text \<open>
  The tables of people and resources: users, providers with their members, drivers, independent
  profiles, vehicles, driver and vehicle pairings and invitations, with the CHECKs, unique indexes and
  triggers of migrations 20260915000100_core, 20260915000300_delivery_providers,
  20260915000400_drivers_vehicles, 20260916000700_user_invitations, 20260918001000_independent_drivers
  and 20261013000100_driver_verification that their writes meet. The database is a record that
  \<open>Verification_Tables\<close> extends, so every write is a function on any extension of it. The columns no
  rule reads (brand, color, creation times) are left out where nothing depends on them.
\<close>

subsection \<open>Rows\<close>

datatype user_role = SUPER_ADMIN | PROVIDER_ADMIN | DRIVER

record user_row =
  user_id :: id
  user_email :: string
  user_password :: "string option" \<comment> \<open>\<open>passwordHash\<close>\<close>
  user_role :: user_role
  user_active :: bool
  user_verifiedAt :: "instant option" \<comment> \<open>\<open>emailVerifiedAt\<close>\<close>

datatype provider_status = PROV_PENDING | PROV_ACTIVE | PROV_SUSPENDED

datatype provider_type = FLEET_PROVIDER | INDEPENDENT_PROVIDER

datatype member_role = OWNER | ADMIN

record provider_row =
  provider_id :: id
  provider_name :: string
  provider_code :: string
  provider_type :: provider_type
  provider_status :: provider_status
  maxDrivers :: int
  maxVehicles :: int

record member_row =
  member_id :: id
  member_provider :: id
  member_user :: id
  member_role :: member_role

datatype driver_status = DRV_PENDING | DRV_ACTIVE | DRV_SUSPENDED

datatype availability = OFFLINE | AVAILABLE | BUSY

record driver_row =
  driver_id :: id
  driver_provider :: "id option"
  driver_user :: id
  driver_name :: string
  driver_displayName :: "string option"
  driver_status :: driver_status
  driver_availability :: availability

record profile_row =
  profile_id :: id
  profile_driver :: id
  profile_status :: profile_status
  profile_approved :: "(instant \<times> id) option" \<comment> \<open>\<open>approvedAt\<close>, \<open>approvedByUserId\<close>\<close>
  profile_suspended :: "(instant \<times> id) option"
  profile_rejected :: "(instant \<times> id) option"
  profile_reason :: "string option"

datatype vehicle_type = BICYCLE | MOTORCYCLE | CAR | PICKUP | VAN | TRUCK | OTHER

datatype vehicle_status = VEH_ACTIVE | VEH_INACTIVE | VEH_MAINTENANCE | VEH_SUSPENDED

record vehicle_row =
  vehicle_id :: id
  vehicle_provider :: "id option"
  vehicle_profile :: "id option"
  vehicle_identifier :: string
  vehicle_type :: vehicle_type
  vehicle_status :: vehicle_status
  vehicle_brand :: "string option"
  vehicle_model :: "string option"
  vehicle_year :: "int option"
  vehicle_plate :: "string option"
  onboardingPending :: bool \<comment> \<open>\<open>verificationOnboardingPending\<close>\<close>

record pairing_row =
  pairing_id :: id
  pairing_provider :: id
  pairing_driver :: id
  pairing_vehicle :: id
  assignedAt :: instant
  unassignedAt :: "instant option"

datatype invitation_status = INV_PENDING | INV_ACCEPTED | INV_REVOKED

record invitation_row =
  invitation_id :: id
  invitation_user :: id
  invitation_email :: string
  invitation_role :: user_role
  invitation_provider :: id
  membershipRole :: "member_role option"
  driverName :: "string option"
  tokenHash :: string
  invitation_status :: invitation_status
  invitation_expiresAt :: instant
  tokenIssuedAt :: instant
  resendCount :: nat
  invitation_acceptedAt :: "instant option"
  invitation_revoked :: "(instant \<times> id) option"
  invitation_createdBy :: id

record registry =
  users :: "user_row list"
  provider_rows :: "provider_row list"
  members :: "member_row list"
  driver_rows :: "driver_row list"
  profile_rows :: "profile_row list"
  vehicle_rows :: "vehicle_row list"
  pairing_rows :: "pairing_row list"
  invitations :: "invitation_row list"
  deliveries :: "assignment list"
  next_key :: id

subsection \<open>Errors\<close>

datatype missing =
    ProviderMissing | UserMissing | DriverMissing | VehicleMissing | MemberMissing | InvitationMissing
  | ProfileMissing | PairingMissing | DriverProfileMissing

datatype registry_conflict =
    ProviderCodeExists
  | BelowCurrentDrivers
  | BelowCurrentVehicles
  | InvalidProviderTransition
  | UserNotProviderAdmin
  | AlreadyMember
  | UserNotDriver
  | UserHasDriver
  | DriverLimit
  | VehicleLimit
  | InvalidDriverTransition
  | IndependentNotApproved
  | DriverNotActive
  | ProviderNotActive
  | DuplicateIdentifier
  | SuspendedProviderAssigns
  | SuspendedDriverReceives
  | VehicleNotActive
  | DriverBusy
  | VehicleBusy
  | ExecutingDelivery
  | AlreadyPaired

datatype invitation_code =
    USER_ALREADY_ACTIVE | USER_INVITATION_PENDING | USER_DISABLED | PROVIDER_DRIVER_LIMIT_REACHED
  | INVITATION_NOT_PENDING | INVITATION_RESEND_COOLDOWN | INVITATION_TOKEN_INVALID | INVITATION_EXPIRED
  | INVITATION_REVOKED | INVITATION_ALREADY_ACCEPTED | ACCOUNT_NOT_ACTIVATABLE | MAIL_NOT_CONFIGURED

datatype independent_code =
    INDEPENDENT_DRIVER_HAS_ACTIVE_ASSIGNMENT | VEHICLE_LIMIT_REACHED | VEHICLE_HAS_ACTIVE_ASSIGNMENT | DRIVER_NOT_ELIGIBLE
  | DuplicateIndependentIdentifier

datatype registry_error =
    Missing missing
  | Conflict registry_conflict
  | NoEditableField
  | RoleForbidden
  | InvitationFieldsInvalid
  | Invitation invitation_code
  | Independent independent_code
  | Documentary string \<comment> \<open>a code of driver verification\<close>
  | AccountExists
  | InvalidCredentials
  | UniqueBroken
  | CheckBroken
  | OwnerImmutable \<comment> \<open>\<open>resource_owner_guard\<close>\<close>
  | ProfileGuarded \<comment> \<open>\<open>independent_driver_profile_guard\<close>\<close>
  | ProfileRequired \<comment> \<open>\<open>verification_no_provider_guard\<close>\<close>
  | InvitationImmutable \<comment> \<open>\<open>user_invitation_immutable\<close>\<close>
  | Admission string \<comment> \<open>\<open>verification_assignment_guard\<close>\<close>
  | VerificationRaised string \<comment> \<open>a guard of the verification tables\<close>

type_synonym ('x, 'a) rtx = "(registry_error, 'x registry_scheme, 'a) tx"

subsection \<open>Writes\<close>

definition draw :: "('x, id) rtx" where
  "draw s = Inr (next_key s, s\<lparr>next_key := next_key s + 1\<rparr>)"

definition lower_case :: "string \<Rightarrow> string" where
  "lower_case s = map (\<lambda>c. if 65 \<le> (of_char c :: nat) \<and> (of_char c :: nat) \<le> 90 then char_of ((of_char c :: nat) + 32) else c) s"

definition blank_trim :: "string \<Rightarrow> string" where
  "blank_trim s = rev (dropWhile (\<lambda>c. c = CHR '' '') (rev (dropWhile (\<lambda>c. c = CHR '' '') s)))"

definition find_user :: "id \<Rightarrow> 'x registry_scheme \<Rightarrow> user_row option" where
  "find_user i s = first_row (\<lambda>u. user_id u = i) (users s)"

definition find_email :: "string \<Rightarrow> 'x registry_scheme \<Rightarrow> user_row option" where
  "find_email e s = first_row (\<lambda>u. user_email u = e) (users s)"

text \<open>\<open>User_active_password_check\<close> and \<open>User_email_key\<close>.\<close>

definition user_check :: "user_row \<Rightarrow> bool" where
  "user_check u \<longleftrightarrow> \<not> user_active u \<or> user_password u \<noteq> None"

definition insert_user :: "user_row \<Rightarrow> ('x, unit) rtx" where
  "insert_user u s =
     (if \<not> user_check u then Inl CheckBroken
      else if any_row (\<lambda>v. user_id v = user_id u \<or> user_email v = user_email u) (users s) then Inl UniqueBroken
      else Inr ((), s\<lparr>users := users s @ [u]\<rparr>))"

definition update_user :: "id \<Rightarrow> (user_row \<Rightarrow> user_row) \<Rightarrow> ('x, user_row) rtx" where
  "update_user i f s =
     (case find_user i s of
        None \<Rightarrow> Inl (Missing UserMissing)
      | Some old \<Rightarrow>
          (if \<not> user_check (f old) then Inl CheckBroken
           else if any_row (\<lambda>v. user_id v \<noteq> i \<and> user_email v = user_email (f old)) (users s) then Inl UniqueBroken
           else Inr (f old, s\<lparr>users := update_rows (\<lambda>u. user_id u = i) f (users s)\<rparr>)))"

definition find_provider :: "id \<Rightarrow> 'x registry_scheme \<Rightarrow> provider_row option" where
  "find_provider i s = first_row (\<lambda>p. provider_id p = i) (provider_rows s)"

definition provider_check :: "provider_row \<Rightarrow> bool" where
  "provider_check p \<longleftrightarrow> 1 \<le> maxDrivers p \<and> maxDrivers p \<le> 10000 \<and> 1 \<le> maxVehicles p \<and> maxVehicles p \<le> 10000"

definition insert_provider :: "provider_row \<Rightarrow> ('x, provider_row) rtx" where
  "insert_provider p s =
     (if \<not> provider_check p then Inl CheckBroken
      else if any_row (\<lambda>q. provider_id q = provider_id p \<or> provider_code q = provider_code p) (provider_rows s) then Inl UniqueBroken
      else Inr (p, s\<lparr>provider_rows := provider_rows s @ [p]\<rparr>))"

definition update_provider :: "id \<Rightarrow> (provider_row \<Rightarrow> provider_row) \<Rightarrow> ('x, provider_row) rtx" where
  "update_provider i f s =
     (case find_provider i s of
        None \<Rightarrow> Inl (Missing ProviderMissing)
      | Some old \<Rightarrow>
          (if \<not> provider_check (f old) then Inl CheckBroken
           else if any_row (\<lambda>q. provider_id q \<noteq> i \<and> provider_code q = provider_code (f old)) (provider_rows s) then Inl UniqueBroken
           else Inr (f old, s\<lparr>provider_rows := update_rows (\<lambda>p. provider_id p = i) f (provider_rows s)\<rparr>)))"

definition insert_member :: "member_row \<Rightarrow> ('x, member_row) rtx" where
  "insert_member m s =
     (if any_row (\<lambda>n. member_id n = member_id m \<or> (member_provider n = member_provider m \<and> member_user n = member_user m)) (members s)
      then Inl UniqueBroken else Inr (m, s\<lparr>members := members s @ [m]\<rparr>))"

definition find_driver :: "id \<Rightarrow> 'x registry_scheme \<Rightarrow> driver_row option" where
  "find_driver i s = first_row (\<lambda>d. driver_id d = i) (driver_rows s)"

definition find_driver_of_user :: "id \<Rightarrow> 'x registry_scheme \<Rightarrow> driver_row option" where
  "find_driver_of_user u s = first_row (\<lambda>d. driver_user d = u) (driver_rows s)"

definition driver_check :: "driver_row \<Rightarrow> bool" where
  "driver_check d \<longleftrightarrow>
     1 \<le> length (blank_trim (driver_name d)) \<and> length (blank_trim (driver_name d)) \<le> 100
     \<and> (case driver_displayName d of None \<Rightarrow> True
        | Some n \<Rightarrow> 1 \<le> length (blank_trim n) \<and> length (blank_trim n) \<le> 100 \<and> n = blank_trim n)"

definition insert_driver :: "driver_row \<Rightarrow> ('x, driver_row) rtx" where
  "insert_driver d s =
     (if \<not> driver_check d then Inl CheckBroken
      else if any_row (\<lambda>e. driver_id e = driver_id d \<or> driver_user e = driver_user d) (driver_rows s) then Inl UniqueBroken
      else Inr (d, s\<lparr>driver_rows := driver_rows s @ [d]\<rparr>))"

definition update_driver :: "id \<Rightarrow> (driver_row \<Rightarrow> driver_row) \<Rightarrow> ('x, driver_row) rtx" where
  "update_driver i f s =
     (case find_driver i s of
        None \<Rightarrow> Inl (Missing DriverMissing)
      | Some old \<Rightarrow>
          (if driver_provider (f old) \<noteq> driver_provider old then Inl OwnerImmutable
           else if \<not> driver_check (f old) then Inl CheckBroken
           else Inr (f old, s\<lparr>driver_rows := update_rows (\<lambda>d. driver_id d = i) f (driver_rows s)\<rparr>)))"

definition find_profile :: "id \<Rightarrow> 'x registry_scheme \<Rightarrow> profile_row option" where
  "find_profile i s = first_row (\<lambda>p. profile_id p = i) (profile_rows s)"

definition find_profile_of :: "id \<Rightarrow> 'x registry_scheme \<Rightarrow> profile_row option" where
  "find_profile_of d s = first_row (\<lambda>p. profile_driver p = d) (profile_rows s)"

text \<open>At COMMIT, \<open>Driver_independent_required\<close>: a driver without a provider has a profile.\<close>

definition independent_required :: "id \<Rightarrow> ('x, unit) rtx" where
  "independent_required i s =
     (if any_row (\<lambda>d. driver_id d = i \<and> driver_provider d = None) (driver_rows s) \<and> find_profile_of i s = None
      then Inl ProfileRequired else Inr ((), s))"

definition profile_check :: "profile_row \<Rightarrow> bool" where
  "profile_check p \<longleftrightarrow>
     (profile_status p = PENDING \<longrightarrow> profile_approved p = None \<and> profile_suspended p = None \<and> profile_rejected p = None)
     \<and> (profile_status p = APPROVED \<longrightarrow> profile_approved p \<noteq> None)
     \<and> (profile_status p = SUSPENDED \<longrightarrow> profile_suspended p \<noteq> None)
     \<and> (profile_status p = REJECTED \<longrightarrow> profile_rejected p \<noteq> None)
     \<and> (case profile_reason p of None \<Rightarrow> True | Some r \<Rightarrow> 3 \<le> length (blank_trim r) \<and> length (blank_trim r) \<le> 500)"

definition active_delivery :: "(assignment \<Rightarrow> bool) \<Rightarrow> 'x registry_scheme \<Rightarrow> bool" where
  "active_delivery P s = any_row (\<lambda>a. asg_status a = ASG_ACTIVE \<and> P a) (deliveries s)"

definition insert_profile :: "profile_row \<Rightarrow> ('x, profile_row) rtx" where
  "insert_profile p s =
     (if \<not> profile_check p then Inl CheckBroken
      else if any_row (\<lambda>q. profile_id q = profile_id p \<or> profile_driver q = profile_driver p) (profile_rows s) then Inl UniqueBroken
      else Inr (p, s\<lparr>profile_rows := profile_rows s @ [p]\<rparr>))"

definition update_profile :: "id \<Rightarrow> (profile_row \<Rightarrow> profile_row) \<Rightarrow> ('x, profile_row) rtx" where
  "update_profile i f s =
     (case find_profile i s of
        None \<Rightarrow> Inl (Missing ProfileMissing)
      | Some old \<Rightarrow>
          (if profile_driver (f old) \<noteq> profile_driver old
              \<or> (profile_status (f old) \<noteq> profile_status old \<and> profile_status (f old) \<noteq> APPROVED
                 \<and> active_delivery (\<lambda>a. asg_profile a = Some i) s) then Inl ProfileGuarded
           else if \<not> profile_check (f old) then Inl CheckBroken
           else Inr (f old, s\<lparr>profile_rows := update_rows (\<lambda>p. profile_id p = i) f (profile_rows s)\<rparr>)))"

definition identifier_ok :: "string \<Rightarrow> bool" where
  "identifier_ok t \<longleftrightarrow>
     t \<noteq> [] \<and> length t \<le> 30 \<and> hd t \<in> {CHR ''A''..CHR ''Z''} \<union> {CHR ''0''..CHR ''9''}
     \<and> list_all (\<lambda>c. c \<in> {CHR ''A''..CHR ''Z''} \<or> c \<in> {CHR ''0''..CHR ''9''} \<or> c = CHR ''_'' \<or> c = CHR ''-'') (tl t)"

lemma identifier_ok_code [code]:
  "identifier_ok t \<longleftrightarrow>
     t \<noteq> [] \<and> length t \<le> 30 \<and> ((CHR ''A'' \<le> hd t \<and> hd t \<le> CHR ''Z'') \<or> (CHR ''0'' \<le> hd t \<and> hd t \<le> CHR ''9''))
     \<and> list_all (\<lambda>c. (CHR ''A'' \<le> c \<and> c \<le> CHR ''Z'') \<or> (CHR ''0'' \<le> c \<and> c \<le> CHR ''9'') \<or> c = CHR ''_'' \<or> c = CHR ''-'') (tl t)"
  by (simp add: identifier_ok_def list_all_iff)

definition vehicle_check :: "vehicle_row \<Rightarrow> bool" where
  "vehicle_check v \<longleftrightarrow>
     identifier_ok (vehicle_identifier v)
     \<and> (case vehicle_year v of None \<Rightarrow> True | Some y \<Rightarrow> 1900 \<le> y \<and> y \<le> 2100)
     \<and> (vehicle_provider v = None) \<noteq> (vehicle_profile v = None)"

text \<open>\<open>Vehicle_providerId_identifier_key\<close> and \<open>Vehicle_independent_identifier_key\<close>.\<close>

definition same_vehicle_name :: "vehicle_row \<Rightarrow> vehicle_row \<Rightarrow> bool" where
  "same_vehicle_name v w \<longleftrightarrow>
     vehicle_identifier v = vehicle_identifier w
     \<and> ((vehicle_provider v \<noteq> None \<and> vehicle_provider v = vehicle_provider w)
        \<or> (vehicle_profile v \<noteq> None \<and> vehicle_profile v = vehicle_profile w))"

definition insert_vehicle :: "vehicle_row \<Rightarrow> ('x, vehicle_row) rtx" where
  "insert_vehicle v s =
     (if \<not> vehicle_check v then Inl CheckBroken
      else if any_row (\<lambda>w. vehicle_id w = vehicle_id v \<or> same_vehicle_name w v) (vehicle_rows s) then Inl UniqueBroken
      else Inr (v, s\<lparr>vehicle_rows := vehicle_rows s @ [v]\<rparr>))"

text \<open>
  \<open>Vehicle_verification_initial_state\<close> clears the marker of a pending onboarding in every update that
  names the column \<open>status\<close>, also when its value stays.
\<close>

definition update_vehicle_row :: "bool \<Rightarrow> id \<Rightarrow> (vehicle_row \<Rightarrow> vehicle_row) \<Rightarrow> ('x, vehicle_row) rtx" where
  "update_vehicle_row names_status i f s =
     (case first_row (\<lambda>v. vehicle_id v = i) (vehicle_rows s) of
        None \<Rightarrow> Inl (Missing VehicleMissing)
      | Some old \<Rightarrow>
          (let new = (if names_status then (f old)\<lparr>onboardingPending := False\<rparr> else f old) in
           if vehicle_provider new \<noteq> vehicle_provider old \<or> vehicle_profile new \<noteq> vehicle_profile old then Inl OwnerImmutable
           else if \<not> vehicle_check new then Inl CheckBroken
           else if any_row (\<lambda>w. vehicle_id w \<noteq> i \<and> same_vehicle_name w new) (vehicle_rows s) then Inl UniqueBroken
           else Inr (new, s\<lparr>vehicle_rows := update_rows (\<lambda>v. vehicle_id v = i) (\<lambda>_. new) (vehicle_rows s)\<rparr>)))"

abbreviation current_pairing :: "pairing_row \<Rightarrow> bool" where
  "current_pairing p \<equiv> unassignedAt p = None"

definition insert_pairing :: "pairing_row \<Rightarrow> ('x, pairing_row) rtx" where
  "insert_pairing p s =
     (if any_row (\<lambda>q. pairing_id q = pairing_id p
           \<or> (current_pairing q \<and> (pairing_driver q = pairing_driver p \<or> pairing_vehicle q = pairing_vehicle p))) (pairing_rows s)
      then Inl UniqueBroken
      else if \<not> any_row (\<lambda>d. driver_id d = pairing_driver p \<and> driver_provider d = Some (pairing_provider p)) (driver_rows s)
           \<or> \<not> any_row (\<lambda>v. vehicle_id v = pairing_vehicle p \<and> vehicle_provider v = Some (pairing_provider p)) (vehicle_rows s)
      then Inl CheckBroken
      else Inr (p, s\<lparr>pairing_rows := pairing_rows s @ [p]\<rparr>))"

definition close_pairing :: "id \<Rightarrow> instant \<Rightarrow> ('x, pairing_row) rtx" where
  "close_pairing i t s =
     (case first_row (\<lambda>p. pairing_id p = i) (pairing_rows s) of
        None \<Rightarrow> Inl (Missing PairingMissing)
      | Some old \<Rightarrow>
          (if t < assignedAt old then Inl CheckBroken
           else Inr (old\<lparr>unassignedAt := Some t\<rparr>,
                     s\<lparr>pairing_rows := update_rows (\<lambda>p. pairing_id p = i) (\<lambda>p. p\<lparr>unassignedAt := Some t\<rparr>) (pairing_rows s)\<rparr>)))"

definition hex_hash :: "string \<Rightarrow> bool" where
  "hex_hash t \<longleftrightarrow> length t = 64 \<and> list_all (\<lambda>c. c \<in> {CHR ''0''..CHR ''9''} \<or> c \<in> {CHR ''a''..CHR ''f''}) t"

lemma hex_hash_code [code]:
  "hex_hash t \<longleftrightarrow> length t = 64 \<and> list_all (\<lambda>c. (CHR ''0'' \<le> c \<and> c \<le> CHR ''9'') \<or> (CHR ''a'' \<le> c \<and> c \<le> CHR ''f'')) t"
  by (simp add: hex_hash_def list_all_iff)

definition invitation_check :: "invitation_row \<Rightarrow> bool" where
  "invitation_check i \<longleftrightarrow>
     invitation_email i = lower_case (invitation_email i) \<and> 3 \<le> length (invitation_email i) \<and> length (invitation_email i) \<le> 254
     \<and> hex_hash (tokenHash i) \<and> invitation_expiresAt i > tokenIssuedAt i
     \<and> ((invitation_role i = PROVIDER_ADMIN \<and> membershipRole i \<noteq> None \<and> driverName i = None)
        \<or> (invitation_role i = DRIVER \<and> membershipRole i = None
           \<and> (case driverName i of None \<Rightarrow> False | Some n \<Rightarrow> 1 \<le> length (blank_trim n) \<and> length (blank_trim n) \<le> 100)))
     \<and> (case invitation_status i of
          INV_PENDING \<Rightarrow> invitation_acceptedAt i = None \<and> invitation_revoked i = None
        | INV_ACCEPTED \<Rightarrow> invitation_acceptedAt i \<noteq> None \<and> invitation_revoked i = None
        | INV_REVOKED \<Rightarrow> invitation_revoked i \<noteq> None \<and> invitation_acceptedAt i = None)"

abbreviation pending_invitation :: "invitation_row \<Rightarrow> bool" where
  "pending_invitation i \<equiv> invitation_status i = INV_PENDING"

definition insert_invitation :: "invitation_row \<Rightarrow> ('x, invitation_row) rtx" where
  "insert_invitation i s =
     (if \<not> invitation_check i then Inl CheckBroken
      else if any_row (\<lambda>j. invitation_id j = invitation_id i \<or> tokenHash j = tokenHash i
           \<or> (pending_invitation j \<and> pending_invitation i \<and> invitation_user j = invitation_user i)) (invitations s) then Inl UniqueBroken
      else Inr (i, s\<lparr>invitations := invitations s @ [i]\<rparr>))"

definition user_invitation_immutable :: "invitation_row \<Rightarrow> invitation_row \<Rightarrow> bool" where
  "user_invitation_immutable old new \<longleftrightarrow>
     invitation_user new = invitation_user old \<and> invitation_email new = invitation_email old
     \<and> invitation_role new = invitation_role old \<and> invitation_provider new = invitation_provider old
     \<and> membershipRole new = membershipRole old \<and> driverName new = driverName old
     \<and> invitation_createdBy new = invitation_createdBy old \<and> invitation_status old = INV_PENDING"

definition find_invitation :: "id \<Rightarrow> 'x registry_scheme \<Rightarrow> invitation_row option" where
  "find_invitation i s = first_row (\<lambda>v. invitation_id v = i) (invitations s)"

definition update_invitation :: "id \<Rightarrow> (invitation_row \<Rightarrow> invitation_row) \<Rightarrow> ('x, invitation_row) rtx" where
  "update_invitation i f s =
     (case find_invitation i s of
        None \<Rightarrow> Inl (Missing InvitationMissing)
      | Some old \<Rightarrow>
          (if \<not> user_invitation_immutable old (f old) then Inl InvitationImmutable
           else if \<not> invitation_check (f old) then Inl CheckBroken
           else if any_row (\<lambda>j. invitation_id j \<noteq> i \<and> tokenHash j = tokenHash (f old)) (invitations s) then Inl UniqueBroken
           else Inr (f old, s\<lparr>invitations := update_rows (\<lambda>v. invitation_id v = i) f (invitations s)\<rparr>)))"

end
