(* ===== verification/Registry_Services.thy ===== *)
theory Registry_Services imports Registry_Tables begin

text \<open>
  The services of the registry: providers and members (src/src/providers), drivers (src/src/drivers),
  vehicles (src/src/vehicles), pairings of drivers and vehicles (src/src/assignments) and independent
  profiles (src/src/independent-drivers/independent-drivers.service.ts). A field a request may leave
  out is an option, a nullable one an option of an option. \<open>eligible\<close> is the documentary check, the answer of
  \<open>verification_eligibility\<close> (Verification_Accounts).
\<close>

definition lockProvider :: "id \<Rightarrow> ('x, provider_row) rtx" where
  "lockProvider i = requireT (find_provider i) (Missing ProviderMissing)"

definition provider_drivers :: "id \<Rightarrow> 'x registry_scheme \<Rightarrow> int" where
  "provider_drivers i s = int (length (filter (\<lambda>d. driver_provider d = Some i) (driver_rows s)))"

definition provider_vehicles :: "id \<Rightarrow> 'x registry_scheme \<Rightarrow> int" where
  "provider_vehicles i s = int (length (filter (\<lambda>v. vehicle_provider v = Some i) (vehicle_rows s)))"

definition profile_vehicles :: "id \<Rightarrow> 'x registry_scheme \<Rightarrow> int" where
  "profile_vehicles i s = int (length (filter (\<lambda>v. vehicle_profile v = Some i) (vehicle_rows s)))"

fun unique_as :: "registry_error \<Rightarrow> registry_error \<Rightarrow> registry_error" where
  "unique_as e UniqueBroken = e"
| "unique_as e f = f"

definition given :: "'a option \<Rightarrow> 'a \<Rightarrow> 'a" where
  "given v old = (case v of None \<Rightarrow> old | Some x \<Rightarrow> x)"

subsection \<open>Providers\<close>

record provider_dto =
  new_name :: "string option"
  new_code :: "string option"
  new_maxDrivers :: "int option"
  new_maxVehicles :: "int option"

fun provider_databaseError :: "registry_error \<Rightarrow> registry_error" where
  "provider_databaseError UniqueBroken = Conflict ProviderCodeExists"
| "provider_databaseError e = e"

definition provider_create ::
    "(provider_type \<Rightarrow> int \<times> int) \<Rightarrow> provider_type \<Rightarrow> string \<Rightarrow> string \<Rightarrow> int option \<Rightarrow> int option \<Rightarrow> ('x, provider_row) rtx" where
  "provider_create defaults t name code max_d max_v =
     catchT
       (bindT draw (\<lambda>i.
        insert_provider \<lparr>provider_id = i, provider_name = name, provider_code = code, provider_type = t,
          provider_status = PROV_PENDING, maxDrivers = given max_d (fst (defaults t)), maxVehicles = given max_v (snd (defaults t))\<rparr>))
       provider_databaseError"

definition provider_update :: "id \<Rightarrow> provider_dto \<Rightarrow> ('x, provider_row) rtx" where
  "provider_update i dto =
     bindT (guardT (new_name dto \<noteq> None \<or> new_code dto \<noteq> None \<or> new_maxDrivers dto \<noteq> None \<or> new_maxVehicles dto \<noteq> None)
       NoEditableField) (\<lambda>_.
     catchT
       (bindT (lockProvider i) (\<lambda>_.
        bindT (readT (provider_drivers i)) (\<lambda>driver_count.
        bindT (guardT (case new_maxDrivers dto of None \<Rightarrow> True | Some m \<Rightarrow> \<not> m < driver_count) (Conflict BelowCurrentDrivers)) (\<lambda>_.
        bindT (readT (provider_vehicles i)) (\<lambda>vehicle_count.
        bindT (guardT (case new_maxVehicles dto of None \<Rightarrow> True | Some m \<Rightarrow> \<not> m < vehicle_count) (Conflict BelowCurrentVehicles)) (\<lambda>_.
        update_provider i (\<lambda>p. p\<lparr>provider_name := given (new_name dto) (provider_name p), provider_code := given (new_code dto) (provider_code p),
          maxDrivers := given (new_maxDrivers dto) (maxDrivers p), maxVehicles := given (new_maxVehicles dto) (maxVehicles p)\<rparr>)))))))
       provider_databaseError)"

text \<open>\<open>updateMany\<close>: every driver of the provider goes OFFLINE.\<close>

definition drivers_offline :: "id \<Rightarrow> ('x, unit) rtx" where
  "drivers_offline i s =
     Inr ((), s\<lparr>driver_rows := update_rows (\<lambda>d. driver_provider d = Some i \<and> driver_availability d \<noteq> OFFLINE)
       (\<lambda>d. d\<lparr>driver_availability := OFFLINE\<rparr>) (driver_rows s)\<rparr>)"

definition provider_transition :: "id \<Rightarrow> provider_status \<Rightarrow> ('x, provider_row) rtx" where
  "provider_transition i target =
     bindT (lockProvider i) (\<lambda>current.
     if provider_status current = target then returnT current
     else
       bindT (guardT (provider_status current \<in> (if target = PROV_ACTIVE then {PROV_PENDING, PROV_SUSPENDED} else {PROV_ACTIVE}))
         (Conflict InvalidProviderTransition)) (\<lambda>_.
       bindT (update_provider i (\<lambda>p. p\<lparr>provider_status := target\<rparr>)) (\<lambda>p.
       bindT (if target = PROV_SUSPENDED then drivers_offline i else returnT ()) (\<lambda>_.
       returnT p))))"

definition provider_activate :: "id \<Rightarrow> ('x, provider_row) rtx" where
  "provider_activate i = provider_transition i PROV_ACTIVE"

definition provider_suspend :: "id \<Rightarrow> ('x, provider_row) rtx" where
  "provider_suspend i = provider_transition i PROV_SUSPENDED"

record capacity_view =
  cap_drivers :: "int \<times> int"
  cap_vehicles :: "int \<times> int"

definition provider_capacity :: "id \<Rightarrow> ('x, capacity_view) rtx" where
  "provider_capacity i =
     bindT (lockProvider i) (\<lambda>p.
     bindT (readT (provider_drivers i)) (\<lambda>d.
     bindT (readT (provider_vehicles i)) (\<lambda>v.
     returnT \<lparr>cap_drivers = (d, maxDrivers p), cap_vehicles = (v, maxVehicles p)\<rparr>)))"

definition member_add :: "id \<Rightarrow> id \<Rightarrow> member_role \<Rightarrow> ('x, member_row) rtx" where
  "member_add i u role =
     catchT
       (bindT (lockProvider i) (\<lambda>_.
        bindT (requireT (find_user u) (Missing UserMissing)) (\<lambda>user.
        bindT (guardT (user_active user \<and> user_role user = PROVIDER_ADMIN) (Conflict UserNotProviderAdmin)) (\<lambda>_.
        bindT draw (\<lambda>k.
        insert_member \<lparr>member_id = k, member_provider = i, member_user = u, member_role = role\<rparr>)))))
       (unique_as (Conflict AlreadyMember))"

definition member_remove :: "id \<Rightarrow> id \<Rightarrow> ('x, unit) rtx" where
  "member_remove i m s =
     (if any_row (\<lambda>x. member_id x = m \<and> member_provider x = i) (members s)
      then Inr ((), s\<lparr>members := filter (\<lambda>x. \<not> (member_id x = m \<and> member_provider x = i)) (members s)\<rparr>)
      else Inl (Missing MemberMissing))"

subsection \<open>Drivers\<close>

fun STATUS_TRANSITIONS :: "driver_status \<Rightarrow> driver_status set" where
  "STATUS_TRANSITIONS DRV_PENDING = {DRV_ACTIVE, DRV_SUSPENDED}"
| "STATUS_TRANSITIONS DRV_ACTIVE = {DRV_SUSPENDED}"
| "STATUS_TRANSITIONS DRV_SUSPENDED = {DRV_ACTIVE}"

definition driver_create :: "id \<Rightarrow> id \<Rightarrow> string \<Rightarrow> string option \<Rightarrow> ('x, driver_row) rtx" where
  "driver_create i u name display =
     catchT
       (bindT (lockProvider i) (\<lambda>provider.
        bindT (requireT (find_user u) (Missing UserMissing)) (\<lambda>user.
        bindT (guardT (user_active user \<and> user_role user = DRIVER) (Conflict UserNotDriver)) (\<lambda>_.
        bindT (readT (find_driver_of_user u)) (\<lambda>existing.
        bindT (guardT (existing = None) (Conflict UserHasDriver)) (\<lambda>_.
        bindT (readT (provider_drivers i)) (\<lambda>count.
        bindT (guardT (\<not> count \<ge> maxDrivers provider) (Conflict DriverLimit)) (\<lambda>_.
        bindT draw (\<lambda>k.
        insert_driver \<lparr>driver_id = k, driver_provider = Some i, driver_user = u, driver_name = name,
          driver_displayName = display, driver_status = DRV_PENDING, driver_availability = OFFLINE\<rparr>)))))))))
       (unique_as (Conflict UserHasDriver))"

record driver_dto =
  new_driverName :: "string option"
  new_displayName :: "string option option"
  new_driverStatus :: "driver_status option"

definition find_provider_driver :: "id \<Rightarrow> id \<Rightarrow> 'x registry_scheme \<Rightarrow> driver_row option" where
  "find_provider_driver i d s = first_row (\<lambda>x. driver_id x = d \<and> driver_provider x = Some i) (driver_rows s)"

definition driver_update :: "id \<Rightarrow> id \<Rightarrow> driver_dto \<Rightarrow> ('x, driver_row) rtx" where
  "driver_update i d dto =
     bindT (guardT (new_driverName dto \<noteq> None \<or> new_displayName dto \<noteq> None \<or> new_driverStatus dto \<noteq> None) NoEditableField) (\<lambda>_.
     bindT (requireT (find_provider_driver i d) (Missing DriverMissing)) (\<lambda>previous.
     let statusChanged = (new_driverStatus dto \<noteq> None \<and> new_driverStatus dto \<noteq> Some (driver_status previous));
         forceOffline = (statusChanged \<and> new_driverStatus dto \<noteq> Some DRV_ACTIVE \<and> driver_availability previous \<noteq> OFFLINE) in
     bindT (guardT (\<not> (statusChanged \<and> the (new_driverStatus dto) \<notin> STATUS_TRANSITIONS (driver_status previous)))
       (Conflict InvalidDriverTransition)) (\<lambda>_.
     update_driver d (\<lambda>x. x\<lparr>driver_name := given (new_driverName dto) (driver_name x),
       driver_displayName := given (new_displayName dto) (driver_displayName x),
       driver_status := given (new_driverStatus dto) (driver_status x),
       driver_availability := (if forceOffline then OFFLINE else driver_availability x)\<rparr>))))"

definition setOwnAvailability :: "id \<Rightarrow> availability \<Rightarrow> ('x, unit) rtx" where
  "setOwnAvailability u target =
     bindT (requireT (find_driver_of_user u) (Missing DriverProfileMissing)) (\<lambda>found.
     bindT (case driver_provider found of
              None \<Rightarrow> returnT None
            | Some i \<Rightarrow> bindT (lockProvider i) (\<lambda>p. returnT (Some p))) (\<lambda>provider.
     bindT (requireT (find_driver (driver_id found)) (Missing DriverProfileMissing)) (\<lambda>driver.
     bindT (readT (find_profile_of (driver_id found))) (\<lambda>profile.
     bindT (guardT (target = OFFLINE \<or> provider \<noteq> None \<or> (\<exists>p \<in> set_option profile. profile_status p = APPROVED))
       (Conflict IndependentNotApproved)) (\<lambda>_.
     bindT (guardT (target = OFFLINE \<or> driver_status driver = DRV_ACTIVE) (Conflict DriverNotActive)) (\<lambda>_.
     bindT (guardT (target = OFFLINE \<or> (case provider of None \<Rightarrow> True | Some p \<Rightarrow> provider_status p = PROV_ACTIVE))
       (Conflict ProviderNotActive)) (\<lambda>_.
     if driver_availability driver = target then returnT ()
     else bindT (update_driver (driver_id found) (\<lambda>d. d\<lparr>driver_availability := target\<rparr>)) (\<lambda>_. returnT ()))))))))"

subsection \<open>Vehicles of a provider\<close>

record vehicle_dto =
  dto_identifier :: "string option"
  dto_type :: "vehicle_type option"
  dto_status :: "vehicle_status option"
  dto_brand :: "string option option"
  dto_model :: "string option option"
  dto_year :: "int option option"
  dto_plate :: "string option option"

definition new_vehicle :: "id \<Rightarrow> id option \<Rightarrow> id option \<Rightarrow> string \<Rightarrow> vehicle_type \<Rightarrow> vehicle_status \<Rightarrow> bool \<Rightarrow> vehicle_dto \<Rightarrow> vehicle_row" where
  "new_vehicle k provider profile identifier t status onboarding dto =
     \<lparr>vehicle_id = k, vehicle_provider = provider, vehicle_profile = profile, vehicle_identifier = identifier, vehicle_type = t,
      vehicle_status = status, vehicle_brand = given (dto_brand dto) None, vehicle_model = given (dto_model dto) None,
      vehicle_year = given (dto_year dto) None, vehicle_plate = given (dto_plate dto) None, onboardingPending = onboarding\<rparr>"

definition vehicle_create :: "id \<Rightarrow> string \<Rightarrow> vehicle_type \<Rightarrow> vehicle_dto \<Rightarrow> ('x, vehicle_row) rtx" where
  "vehicle_create i identifier t dto =
     catchT
       (bindT (lockProvider i) (\<lambda>provider.
        bindT (readT (provider_vehicles i)) (\<lambda>count.
        bindT (guardT (\<not> count \<ge> maxVehicles provider) (Conflict VehicleLimit)) (\<lambda>_.
        bindT draw (\<lambda>k.
        insert_vehicle (new_vehicle k (Some i) None identifier t (given (dto_status dto) VEH_ACTIVE) False dto))))))
       (unique_as (Conflict DuplicateIdentifier))"

definition no_vehicle_field :: "vehicle_dto \<Rightarrow> bool" where
  "no_vehicle_field dto \<longleftrightarrow>
     dto_identifier dto = None \<and> dto_type dto = None \<and> dto_status dto = None \<and> dto_brand dto = None \<and> dto_model dto = None
     \<and> dto_year dto = None \<and> dto_plate dto = None"

definition apply_vehicle_dto :: "vehicle_dto \<Rightarrow> vehicle_row \<Rightarrow> vehicle_row" where
  "apply_vehicle_dto dto v =
     v\<lparr>vehicle_identifier := given (dto_identifier dto) (vehicle_identifier v), vehicle_type := given (dto_type dto) (vehicle_type v),
       vehicle_status := given (dto_status dto) (vehicle_status v), vehicle_brand := given (dto_brand dto) (vehicle_brand v),
       vehicle_model := given (dto_model dto) (vehicle_model v), vehicle_year := given (dto_year dto) (vehicle_year v),
       vehicle_plate := given (dto_plate dto) (vehicle_plate v)\<rparr>"

definition vehicle_update :: "id \<Rightarrow> id \<Rightarrow> vehicle_dto \<Rightarrow> ('x, vehicle_row) rtx" where
  "vehicle_update i v dto =
     bindT (guardT (\<not> no_vehicle_field dto) NoEditableField) (\<lambda>_.
     catchT
       (bindT (requireT (\<lambda>s. first_row (\<lambda>x. vehicle_id x = v \<and> vehicle_provider x = Some i) (vehicle_rows s)) (Missing VehicleMissing)) (\<lambda>_.
        update_vehicle_row (dto_status dto \<noteq> None) v (apply_vehicle_dto dto)))
       (unique_as (Conflict DuplicateIdentifier)))"

subsection \<open>Pairings\<close>

definition assertNoDeliveryAssignment :: "id \<Rightarrow> id option \<Rightarrow> ('x, unit) rtx" where
  "assertNoDeliveryAssignment d v =
     bindT (readT (active_delivery (\<lambda>a. asg_driver a = d \<or> Some (asg_vehicle a) = v))) (\<lambda>active.
     guardT (\<not> active) (Conflict ExecutingDelivery))"

definition documentary :: "(string \<Rightarrow> registry_error) \<Rightarrow> ('x registry_scheme \<Rightarrow> string option) \<Rightarrow> ('x, unit) rtx" where
  "documentary e check s = (case check s of None \<Rightarrow> Inr ((), s) | Some code \<Rightarrow> Inl (e code))"

definition pair_vehicle ::
    "(id \<Rightarrow> id \<Rightarrow> 'x registry_scheme \<Rightarrow> string option) \<Rightarrow> id \<Rightarrow> id \<Rightarrow> id \<Rightarrow> instant \<Rightarrow> ('x, pairing_row) rtx" where
  "pair_vehicle eligible i d v now =
     catchT
       (bindT (lockProvider i) (\<lambda>provider.
        bindT (requireT (find_provider_driver i d) (Missing DriverMissing)) (\<lambda>driver.
        bindT (requireT (\<lambda>s. first_row (\<lambda>x. vehicle_id x = v \<and> vehicle_provider x = Some i) (vehicle_rows s)) (Missing VehicleMissing)) (\<lambda>vehicle.
        bindT (guardT (provider_status provider \<noteq> PROV_SUSPENDED) (Conflict SuspendedProviderAssigns)) (\<lambda>_.
        bindT (guardT (driver_status driver \<noteq> DRV_SUSPENDED) (Conflict SuspendedDriverReceives)) (\<lambda>_.
        bindT (guardT (vehicle_status vehicle = VEH_ACTIVE) (Conflict VehicleNotActive)) (\<lambda>_.
        bindT (readT (\<lambda>s. filter (\<lambda>p. current_pairing p \<and> (pairing_driver p = d \<or> pairing_vehicle p = v)) (pairing_rows s))) (\<lambda>active.
        bindT (guardT (\<not> any_row (\<lambda>p. pairing_driver p = d) active) (Conflict DriverBusy)) (\<lambda>_.
        bindT (guardT (active = []) (Conflict VehicleBusy)) (\<lambda>_.
        bindT (assertNoDeliveryAssignment d (Some v)) (\<lambda>_.
        bindT (documentary Documentary (eligible d v)) (\<lambda>_.
        bindT draw (\<lambda>k.
        bindT (documentary Admission (eligible d v)) (\<lambda>_.
        insert_pairing \<lparr>pairing_id = k, pairing_provider = i, pairing_driver = d, pairing_vehicle = v, assignedAt = now, unassignedAt = None\<rparr>))))))))))))))
       (unique_as (Conflict AlreadyPaired))"

definition unpair_vehicle :: "id \<Rightarrow> id \<Rightarrow> instant \<Rightarrow> ('x, pairing_row) rtx" where
  "unpair_vehicle i d now =
     bindT (requireT (find_provider_driver i d) (Missing DriverMissing)) (\<lambda>_.
     bindT (requireT (\<lambda>s. first_row (\<lambda>p. pairing_driver p = d \<and> current_pairing p) (pairing_rows s)) (Missing PairingMissing)) (\<lambda>active.
     bindT (assertNoDeliveryAssignment d None) (\<lambda>_.
     close_pairing (pairing_id active) (if now < assignedAt active then assignedAt active else now))))"

subsection \<open>Independent profiles\<close>

definition eligibleDriver :: "id \<Rightarrow> ('x, driver_row) rtx" where
  "eligibleDriver d =
     bindT (requireT (find_driver d) (Missing DriverMissing)) (\<lambda>driver.
     bindT (requireT (find_user (driver_user driver)) (Missing UserMissing)) (\<lambda>user.
     bindT (guardT (driver_status driver = DRV_ACTIVE \<and> user_active user \<and> user_role user = DRIVER) (Independent DRIVER_NOT_ELIGIBLE)) (\<lambda>_.
     returnT driver)))"

definition lockProfile :: "id \<Rightarrow> ('x, profile_row) rtx" where
  "lockProfile d = requireT (find_profile_of d) (Missing ProfileMissing)"

definition independent_approve :: "id \<Rightarrow> string option \<Rightarrow> id \<Rightarrow> instant \<Rightarrow> ('x, profile_row) rtx" where
  "independent_approve d reason actor now =
     bindT (eligibleDriver d) (\<lambda>_.
     bindT (readT (find_profile_of d)) (\<lambda>existing.
     let approved = (\<lambda>p. p\<lparr>profile_status := APPROVED, profile_approved := Some (now, actor), profile_suspended := None,
                     profile_rejected := None, profile_reason := reason\<rparr>) in
     case existing of
       Some p \<Rightarrow> if profile_status p = APPROVED then returnT p else update_profile (profile_id p) approved
     | None \<Rightarrow>
         bindT draw (\<lambda>k.
         insert_profile (approved \<lparr>profile_id = k, profile_driver = d, profile_status = PENDING, profile_approved = None,
           profile_suspended = None, profile_rejected = None, profile_reason = None\<rparr>))))"

definition independent_close :: "id \<Rightarrow> profile_status \<Rightarrow> string \<Rightarrow> id \<Rightarrow> instant \<Rightarrow> ('x, profile_row) rtx" where
  "independent_close d status reason actor now =
     bindT (lockProfile d) (\<lambda>profile.
     if profile_status profile = status then returnT profile
     else
       bindT (readT (active_delivery (\<lambda>a. asg_profile a = Some (profile_id profile)))) (\<lambda>active.
       bindT (guardT (\<not> active) (Independent INDEPENDENT_DRIVER_HAS_ACTIVE_ASSIGNMENT)) (\<lambda>_.
       update_profile (profile_id profile)
         (\<lambda>p. if status = SUSPENDED
              then p\<lparr>profile_status := status, profile_suspended := Some (now, actor), profile_reason := Some reason\<rparr>
              else p\<lparr>profile_status := status, profile_rejected := Some (now, actor), profile_reason := Some reason\<rparr>))))"

definition independent_suspend :: "id \<Rightarrow> string \<Rightarrow> id \<Rightarrow> instant \<Rightarrow> ('x, profile_row) rtx" where
  "independent_suspend d reason actor now = independent_close d SUSPENDED reason actor now"

definition independent_reject :: "id \<Rightarrow> string \<Rightarrow> id \<Rightarrow> instant \<Rightarrow> ('x, profile_row) rtx" where
  "independent_reject d reason actor now = independent_close d REJECTED reason actor now"

definition independent_createVehicle :: "int \<Rightarrow> id \<Rightarrow> string \<Rightarrow> vehicle_type \<Rightarrow> vehicle_dto \<Rightarrow> ('x, vehicle_row) rtx" where
  "independent_createVehicle max_vehicles d identifier t dto =
     catchT
       (bindT (lockProfile d) (\<lambda>profile.
        bindT (readT (profile_vehicles (profile_id profile))) (\<lambda>count.
        bindT (guardT (\<not> count \<ge> max_vehicles) (Independent VEHICLE_LIMIT_REACHED)) (\<lambda>_.
        bindT draw (\<lambda>k.
        insert_vehicle (new_vehicle k None (Some (profile_id profile)) identifier t VEH_ACTIVE False dto))))))
       (unique_as (Independent DuplicateIndependentIdentifier))"

definition independent_updateVehicle :: "id \<Rightarrow> id \<Rightarrow> vehicle_dto \<Rightarrow> ('x, vehicle_row) rtx" where
  "independent_updateVehicle d v dto =
     bindT (guardT (\<not> no_vehicle_field dto) NoEditableField) (\<lambda>_.
     catchT
       (bindT (lockProfile d) (\<lambda>profile.
        bindT (requireT (\<lambda>s. first_row (\<lambda>x. vehicle_id x = v \<and> vehicle_profile x = Some (profile_id profile)) (vehicle_rows s)) (Missing VehicleMissing)) (\<lambda>previous.
        bindT (readT (active_delivery (\<lambda>a. asg_vehicle a = v))) (\<lambda>active.
        bindT (guardT (\<not> (dto_status dto \<noteq> None \<and> dto_status dto \<noteq> Some VEH_ACTIVE \<and> vehicle_status previous = VEH_ACTIVE \<and> active))
          (Independent VEHICLE_HAS_ACTIVE_ASSIGNMENT)) (\<lambda>_.
        update_vehicle_row (dto_status dto \<noteq> None) v (apply_vehicle_dto dto))))))
       (unique_as (Independent DuplicateIndependentIdentifier)))"

end
