(* ===== verification/Invitations.thy ===== *)
theory Invitations imports Registry_Services begin

text \<open>
  Invitations and activation of accounts (src/src/invitations). The hash of a token, the hash of a
  password and whether the web address is configured are arguments; the e-mail leaves after the
  transaction and changes no row, so its outcome is not part of it.
\<close>

subsection \<open>Policy\<close>

datatype effective_invitation = EFF_PENDING | EFF_EXPIRED | EFF_ACCEPTED | EFF_REVOKED

definition effectiveInvitationStatus :: "invitation_row \<Rightarrow> instant \<Rightarrow> effective_invitation" where
  "effectiveInvitationStatus i now =
     (case invitation_status i of
        INV_PENDING \<Rightarrow> if now \<ge> invitation_expiresAt i then EFF_EXPIRED else EFF_PENDING
      | INV_ACCEPTED \<Rightarrow> EFF_ACCEPTED
      | INV_REVOKED \<Rightarrow> EFF_REVOKED)"

definition invitationExpiry :: "instant \<Rightarrow> int \<Rightarrow> instant" where
  "invitationExpiry issuedAt ttlHours = issuedAt + ttlHours * 3600000"

definition assertActivatable :: "invitation_row option \<Rightarrow> instant \<Rightarrow> invitation_code option" where
  "assertActivatable invitation now =
     (case invitation of
        None \<Rightarrow> Some INVITATION_TOKEN_INVALID
      | Some i \<Rightarrow>
          (case effectiveInvitationStatus i now of
             EFF_PENDING \<Rightarrow> None
           | EFF_EXPIRED \<Rightarrow> Some INVITATION_EXPIRED
           | EFF_REVOKED \<Rightarrow> Some INVITATION_REVOKED
           | EFF_ACCEPTED \<Rightarrow> Some INVITATION_ALREADY_ACCEPTED))"

datatype account_status = ACCOUNT_INVITED | ACCOUNT_ACTIVE | ACCOUNT_DISABLED

definition userAccountStatus :: "bool \<Rightarrow> bool \<Rightarrow> account_status" where
  "userAccountStatus active hasPassword =
     (if active then ACCOUNT_ACTIVE else if hasPassword then ACCOUNT_DISABLED else ACCOUNT_INVITED)"

fun INVITATION_ROLE_MATRIX :: "user_role \<Rightarrow> user_role list" where
  "INVITATION_ROLE_MATRIX SUPER_ADMIN = [PROVIDER_ADMIN, DRIVER]"
| "INVITATION_ROLE_MATRIX PROVIDER_ADMIN = [DRIVER]"
| "INVITATION_ROLE_MATRIX DRIVER = []"

definition canInvite :: "user_role \<Rightarrow> user_role \<Rightarrow> bool" where
  "canInvite actorRole r \<longleftrightarrow> r \<in> set (INVITATION_ROLE_MATRIX actorRole)"

subsection \<open>The service\<close>

record invite_input =
  invite_email :: string
  invite_role :: user_role
  invite_membershipRole :: "member_role option"
  invite_driverName :: "string option"

record invitation_config =
  web_url :: bool \<comment> \<open>\<open>MANDARIA_WEB_URL\<close> is set\<close>
  ttlHours :: int
  cooldownSeconds :: int

text \<open>The scope of a route: any invitation, or the DRIVER ones of one provider.\<close>

type_synonym invitation_scope = "id option"

definition in_scope :: "invitation_scope \<Rightarrow> invitation_row \<Rightarrow> bool" where
  "in_scope sc i \<longleftrightarrow> (case sc of None \<Rightarrow> True | Some p \<Rightarrow> invitation_provider i = p \<and> invitation_role i = DRIVER)"

definition findInScope :: "id \<Rightarrow> invitation_scope \<Rightarrow> ('x, invitation_row) rtx" where
  "findInScope i sc = requireT (\<lambda>s. first_row (\<lambda>v. invitation_id v = i \<and> in_scope sc v) (invitations s)) (Missing InvitationMissing)"

definition lockInvitation :: "id \<Rightarrow> ('x, invitation_row) rtx" where
  "lockInvitation i = requireT (find_invitation i) (Missing InvitationMissing)"

definition reserved_seats :: "id \<Rightarrow> instant \<Rightarrow> id option \<Rightarrow> 'x registry_scheme \<Rightarrow> int" where
  "reserved_seats p now except s =
     int (length (filter (\<lambda>i. invitation_provider i = p \<and> invitation_role i = DRIVER \<and> pending_invitation i
                              \<and> invitation_expiresAt i > now \<and> Some (invitation_id i) \<noteq> except) (invitations s)))"

definition assertDriverSeat :: "provider_row \<Rightarrow> instant \<Rightarrow> id option \<Rightarrow> ('x, unit) rtx" where
  "assertDriverSeat provider now except =
     bindT (readT (provider_drivers (provider_id provider))) (\<lambda>driver_count.
     bindT (readT (reserved_seats (provider_id provider) now except)) (\<lambda>reserved.
     guardT (\<not> driver_count + reserved \<ge> maxDrivers provider) (Invitation PROVIDER_DRIVER_LIMIT_REACHED)))"

definition invitation_fields_ok :: "invite_input \<Rightarrow> bool" where
  "invitation_fields_ok input \<longleftrightarrow>
     (if invite_role input = PROVIDER_ADMIN then invite_membershipRole input \<noteq> None \<and> invite_driverName input = None
      else invite_driverName input \<noteq> None \<and> invite_driverName input \<noteq> Some [] \<and> invite_membershipRole input = None)"

definition invited_account :: "invite_input \<Rightarrow> ('x, id) rtx" where
  "invited_account input =
     bindT (readT (find_email (invite_email input))) (\<lambda>existing.
     case existing of
       Some u \<Rightarrow>
         bindT (guardT (\<not> user_active u) (Invitation USER_ALREADY_ACTIVE)) (\<lambda>_.
         bindT (guardT (user_password u = None) (Invitation USER_DISABLED)) (\<lambda>_.
         bindT (readT (\<lambda>s. any_row (\<lambda>i. invitation_user i = user_id u \<and> pending_invitation i) (invitations s))) (\<lambda>pending.
         bindT (guardT (\<not> pending) (Invitation USER_INVITATION_PENDING)) (\<lambda>_.
         bindT (update_user (user_id u) (\<lambda>v. v\<lparr>user_role := invite_role input\<rparr>)) (\<lambda>_.
         returnT (user_id u))))))
     | None \<Rightarrow>
         bindT draw (\<lambda>k.
         bindT (insert_user \<lparr>user_id = k, user_email = invite_email input, user_password = None, user_role = invite_role input,
           user_active = False, user_verifiedAt = None\<rparr>) (\<lambda>_. returnT k)))"

definition invite ::
    "invitation_config \<Rightarrow> id \<Rightarrow> invite_input \<Rightarrow> id \<times> user_role \<Rightarrow> string \<Rightarrow> instant \<Rightarrow> ('x, invitation_row) rtx" where
  "invite cfg p input actor hash now =
     bindT (guardT (canInvite (snd actor) (invite_role input)) RoleForbidden) (\<lambda>_.
     bindT (guardT (invitation_fields_ok input) InvitationFieldsInvalid) (\<lambda>_.
     bindT (guardT (web_url cfg) (Invitation MAIL_NOT_CONFIGURED)) (\<lambda>_.
     catchT
       (bindT (lockProvider p) (\<lambda>provider.
        bindT (invited_account input) (\<lambda>u.
        bindT (if invite_role input = DRIVER then assertDriverSeat provider now None else returnT ()) (\<lambda>_.
        bindT draw (\<lambda>k.
        insert_invitation
          \<lparr>invitation_id = k, invitation_user = u, invitation_email = invite_email input, invitation_role = invite_role input,
           invitation_provider = p, membershipRole = invite_membershipRole input, driverName = invite_driverName input,
           tokenHash = hash, invitation_status = INV_PENDING, invitation_expiresAt = invitationExpiry now (ttlHours cfg),
           tokenIssuedAt = now, resendCount = 0, invitation_acceptedAt = None, invitation_revoked = None, invitation_createdBy = fst actor\<rparr>)))))
       (unique_as (Invitation USER_INVITATION_PENDING)))))"

definition resend :: "invitation_config \<Rightarrow> id \<Rightarrow> invitation_scope \<Rightarrow> string \<Rightarrow> instant \<Rightarrow> ('x, invitation_row) rtx" where
  "resend cfg i sc hash now =
     bindT (guardT (web_url cfg) (Invitation MAIL_NOT_CONFIGURED)) (\<lambda>_.
     bindT (findInScope i sc) (\<lambda>target.
     bindT (if invitation_role target = DRIVER then bindT (lockProvider (invitation_provider target)) (\<lambda>p. returnT (Some p)) else returnT None) (\<lambda>provider.
     bindT (lockInvitation i) (\<lambda>current.
     bindT (guardT (pending_invitation current) (Invitation INVITATION_NOT_PENDING)) (\<lambda>_.
     bindT (guardT (\<not> now - tokenIssuedAt current < cooldownSeconds cfg * 1000) (Invitation INVITATION_RESEND_COOLDOWN)) (\<lambda>_.
     bindT (case provider of None \<Rightarrow> returnT () | Some p \<Rightarrow> assertDriverSeat p now (Some i)) (\<lambda>_.
     update_invitation i (\<lambda>v. v\<lparr>tokenHash := hash, tokenIssuedAt := now, invitation_expiresAt := invitationExpiry now (ttlHours cfg),
       resendCount := resendCount v + 1\<rparr>))))))))"

definition revoke :: "id \<Rightarrow> invitation_scope \<Rightarrow> id \<Rightarrow> instant \<Rightarrow> ('x, invitation_row) rtx" where
  "revoke i sc actor now =
     bindT (findInScope i sc) (\<lambda>_.
     bindT (lockInvitation i) (\<lambda>current.
     bindT (guardT (invitation_status current \<noteq> INV_ACCEPTED) (Invitation INVITATION_NOT_PENDING)) (\<lambda>_.
     if invitation_status current = INV_REVOKED then returnT current
     else update_invitation i (\<lambda>v. v\<lparr>invitation_status := INV_REVOKED, invitation_revoked := Some (now, actor)\<rparr>))))"

definition activatable :: "invitation_row option \<Rightarrow> instant \<Rightarrow> ('x, invitation_row) rtx" where
  "activatable v now =
     (case assertActivatable v now of
        Some code \<Rightarrow> throwT (Invitation code)
      | None \<Rightarrow> requireT (\<lambda>_. v) (Invitation INVITATION_TOKEN_INVALID))"

text \<open>
  \<open>activate\<close> finds the invitation of the token, hashes the password and starts its transaction, which
  locks and checks everything again; each of the three reads the clock. \<open>activate_find\<close> and \<open>activate_invitation\<close> are its two parts.
\<close>

definition activate_find :: "string \<Rightarrow> instant \<Rightarrow> ('x, id) rtx" where
  "activate_find hash now =
     bindT (readT (\<lambda>s. first_row (\<lambda>v. tokenHash v = hash) (invitations s))) (\<lambda>found.
     bindT (activatable found now) (\<lambda>v. returnT (invitation_id v)))"

definition activate_invitation :: "string \<Rightarrow> string \<Rightarrow> instant \<Rightarrow> instant \<Rightarrow> id \<Rightarrow> ('x, user_row) rtx" where
  "activate_invitation hash password checked now i =
     bindT (lockInvitation i) (\<lambda>invitation.
     bindT (if invitation_role invitation = DRIVER then bindT (lockProvider (invitation_provider invitation)) (\<lambda>p. returnT (Some p)) else returnT None) (\<lambda>provider.
     bindT (readT (find_user (invitation_user invitation))) (\<lambda>user.
     bindT (lockInvitation i) (\<lambda>current.
     bindT (activatable (if tokenHash current = hash then Some current else None) checked) (\<lambda>_.
     bindT (guardT (case user of None \<Rightarrow> False | Some u \<Rightarrow> \<not> user_active u \<and> user_password u = None) (Invitation ACCOUNT_NOT_ACTIVATABLE)) (\<lambda>_.
     bindT (case provider of
              None \<Rightarrow> returnT ()
            | Some p \<Rightarrow>
                bindT (readT (provider_drivers (provider_id p))) (\<lambda>driver_count.
                guardT (\<not> driver_count \<ge> maxDrivers p) (Invitation PROVIDER_DRIVER_LIMIT_REACHED))) (\<lambda>_.
     bindT (update_user (invitation_user invitation)
       (\<lambda>u. u\<lparr>user_active := True, user_password := Some password, user_role := invitation_role invitation, user_verifiedAt := Some now\<rparr>)) (\<lambda>u.
     bindT (if invitation_role invitation = PROVIDER_ADMIN then
              bindT draw (\<lambda>k.
              bindT (insert_member \<lparr>member_id = k, member_provider = invitation_provider invitation, member_user = invitation_user invitation,
                member_role = the (membershipRole invitation)\<rparr>) (\<lambda>_. returnT ()))
            else returnT ()) (\<lambda>_.
     bindT (if invitation_role invitation = DRIVER then
              bindT draw (\<lambda>k.
              bindT (insert_driver \<lparr>driver_id = k, driver_provider = Some (invitation_provider invitation), driver_user = invitation_user invitation,
                driver_name = the (driverName invitation), driver_displayName = None, driver_status = DRV_PENDING, driver_availability = OFFLINE\<rparr>)
                (\<lambda>_. returnT ()))
            else returnT ()) (\<lambda>_.
     bindT (update_invitation i (\<lambda>v. v\<lparr>invitation_status := INV_ACCEPTED, invitation_acceptedAt := Some now\<rparr>)) (\<lambda>_.
     returnT u)))))))))))"

definition activate :: "string \<Rightarrow> string \<Rightarrow> instant \<Rightarrow> instant \<Rightarrow> instant \<Rightarrow> ('x, user_row) rtx" where
  "activate hash password found checked now = bindT (activate_find hash found) (activate_invitation hash password checked now)"

end
