(* ===== verification/Registry_Invariants.thy ===== *)
theory Registry_Invariants imports Invitations begin

text \<open>
  What the tables of people and resources hold between transactions, and what no transaction takes
  back. The rows named by \<open>X\<close> are in the middle of a transaction and exempt from the
  clauses a later write of that transaction restores. Every write has a lemma with what it needs of its
  caller; the operations compose them.
\<close>

subsection \<open>The invariant\<close>

definition has_account :: "user_role \<Rightarrow> id \<Rightarrow> user_row list \<Rightarrow> bool" where
  "has_account r i us \<longleftrightarrow> (\<exists>u \<in> set us. user_id u = i \<and> user_active u \<and> user_role u = r)"

definition users_ok :: "user_row list \<Rightarrow> bool" where
  "users_ok us \<longleftrightarrow> distinct (map user_id us) \<and> distinct (map user_email us) \<and> list_all user_check us"

definition providers_ok :: "provider_row list \<Rightarrow> bool" where
  "providers_ok ps \<longleftrightarrow> distinct (map provider_id ps) \<and> distinct (map provider_code ps) \<and> list_all provider_check ps"

definition members_ok :: "member_row list \<Rightarrow> user_row list \<Rightarrow> bool" where
  "members_ok ms us \<longleftrightarrow>
     distinct (map member_id ms) \<and> distinct (map (\<lambda>m. (member_provider m, member_user m)) ms)
     \<and> (\<forall>m \<in> set ms. has_account PROVIDER_ADMIN (member_user m) us)"

definition may_work :: "driver_row \<Rightarrow> provider_row list \<Rightarrow> bool" where
  "may_work d ps \<longleftrightarrow>
     driver_status d = DRV_ACTIVE
     \<and> (\<forall>i. driver_provider d = Some i \<longrightarrow> (\<exists>p \<in> set ps. provider_id p = i \<and> provider_status p = PROV_ACTIVE))"

text \<open>Exempt from the clauses below: drivers, invitations.\<close>

type_synonym exempt_rows = "id set \<times> id set"

definition driver_ok :: "exempt_rows \<Rightarrow> user_row list \<Rightarrow> provider_row list \<Rightarrow> profile_row list \<Rightarrow> driver_row \<Rightarrow> bool" where
  "driver_ok X us ps fs d \<longleftrightarrow>
     driver_check d \<and> has_account DRIVER (driver_user d) us \<and> (driver_availability d \<noteq> OFFLINE \<longrightarrow> may_work d ps)
     \<and> (\<forall>i. driver_provider d = Some i \<longrightarrow> i \<in> provider_id ` set ps)
     \<and> (driver_provider d = None \<longrightarrow> driver_id d \<in> fst X \<or> driver_id d \<in> profile_driver ` set fs)"

definition drivers_ok :: "exempt_rows \<Rightarrow> driver_row list \<Rightarrow> user_row list \<Rightarrow> provider_row list \<Rightarrow> profile_row list \<Rightarrow> bool" where
  "drivers_ok X ds us ps fs \<longleftrightarrow>
     distinct (map driver_id ds) \<and> distinct (map driver_user ds) \<and> (\<forall>d \<in> set ds. driver_ok X us ps fs d)"

definition profiles_ok :: "profile_row list \<Rightarrow> bool" where
  "profiles_ok fs \<longleftrightarrow> distinct (map profile_id fs) \<and> distinct (map profile_driver fs) \<and> list_all profile_check fs"

definition vehicles_ok :: "vehicle_row list \<Rightarrow> provider_row list \<Rightarrow> bool" where
  "vehicles_ok vs ps \<longleftrightarrow>
     distinct (map vehicle_id vs)
     \<and> (\<forall>v \<in> set vs. vehicle_check v \<and> (\<forall>i. vehicle_provider v = Some i \<longrightarrow> i \<in> provider_id ` set ps))
     \<and> (\<forall>v \<in> set vs. \<forall>w \<in> set vs. same_vehicle_name v w \<longrightarrow> v = w)"

definition pairings_ok :: "pairing_row list \<Rightarrow> driver_row list \<Rightarrow> vehicle_row list \<Rightarrow> bool" where
  "pairings_ok qs ds vs \<longleftrightarrow>
     distinct (map pairing_id qs) \<and> unique_on current_pairing pairing_driver qs \<and> unique_on current_pairing pairing_vehicle qs
     \<and> (\<forall>q \<in> set qs. (\<exists>d \<in> set ds. driver_id d = pairing_driver q \<and> driver_provider d = Some (pairing_provider q))
          \<and> (\<exists>v \<in> set vs. vehicle_id v = pairing_vehicle q \<and> vehicle_provider v = Some (pairing_provider q))
          \<and> (case unassignedAt q of None \<Rightarrow> True | Some t \<Rightarrow> assignedAt q \<le> t))"

text \<open>Who is invited has an account without a password, with the role of the invitation.\<close>

definition invited :: "invitation_row \<Rightarrow> user_row \<Rightarrow> bool" where
  "invited i u \<longleftrightarrow>
     user_id u = invitation_user i \<and> user_email u = invitation_email i \<and> user_role u = invitation_role i
     \<and> \<not> user_active u \<and> user_password u = None"

definition invitations_ok :: "exempt_rows \<Rightarrow> invitation_row list \<Rightarrow> user_row list \<Rightarrow> provider_row list \<Rightarrow> bool" where
  "invitations_ok X vs us ps \<longleftrightarrow>
     distinct (map invitation_id vs) \<and> distinct (map tokenHash vs) \<and> list_all invitation_check vs
     \<and> unique_on pending_invitation invitation_user vs
     \<and> (\<forall>v \<in> set vs. invitation_provider v \<in> provider_id ` set ps
          \<and> (pending_invitation v \<longrightarrow> invitation_id v \<in> snd X \<or> (\<exists>u \<in> set us. invited v u)))"

definition capacity_ok :: "provider_row list \<Rightarrow> driver_row list \<Rightarrow> vehicle_row list \<Rightarrow> bool" where
  "capacity_ok ps ds vs \<longleftrightarrow>
     (\<forall>p \<in> set ps. int (length (filter (\<lambda>d. driver_provider d = Some (provider_id p)) ds)) \<le> maxDrivers p
        \<and> int (length (filter (\<lambda>v. vehicle_provider v = Some (provider_id p)) vs)) \<le> maxVehicles p)"

definition foreign_keys_ok :: "member_row list \<Rightarrow> provider_row list \<Rightarrow> profile_row list \<Rightarrow> driver_row list \<Rightarrow> vehicle_row list \<Rightarrow> bool" where
  "foreign_keys_ok ms ps fs ds vs \<longleftrightarrow>
     member_provider ` set ms \<subseteq> provider_id ` set ps \<and> profile_driver ` set fs \<subseteq> driver_id ` set ds
     \<and> vehicle_profile ` set vs \<subseteq> insert None (Some ` profile_id ` set fs)"

definition row_keys_ok :: "'x registry_scheme \<Rightarrow> bool" where
  "row_keys_ok s \<longleftrightarrow>
     (\<forall>i \<in> user_id ` set (users s) \<union> provider_id ` set (provider_rows s) \<union> member_id ` set (members s)
        \<union> driver_id ` set (driver_rows s) \<union> profile_id ` set (profile_rows s) \<union> vehicle_id ` set (vehicle_rows s)
        \<union> pairing_id ` set (pairing_rows s) \<union> invitation_id ` set (invitations s). i < next_key s)"

definition registry_ok :: "exempt_rows \<Rightarrow> 'x registry_scheme \<Rightarrow> bool" where
  "registry_ok X s \<longleftrightarrow>
     users_ok (users s) \<and> providers_ok (provider_rows s) \<and> members_ok (members s) (users s)
     \<and> drivers_ok X (driver_rows s) (users s) (provider_rows s) (profile_rows s)
     \<and> profiles_ok (profile_rows s) \<and> vehicles_ok (vehicle_rows s) (provider_rows s)
     \<and> pairings_ok (pairing_rows s) (driver_rows s) (vehicle_rows s)
     \<and> invitations_ok X (invitations s) (users s) (provider_rows s)
     \<and> capacity_ok (provider_rows s) (driver_rows s) (vehicle_rows s)
     \<and> foreign_keys_ok (members s) (provider_rows s) (profile_rows s) (driver_rows s) (vehicle_rows s) \<and> row_keys_ok s"

lemmas registry_parts = users_ok_def providers_ok_def members_ok_def drivers_ok_def profiles_ok_def vehicles_ok_def pairings_ok_def
  invitations_ok_def capacity_ok_def foreign_keys_ok_def row_keys_ok_def

subsection \<open>What is never taken back\<close>

definition registry_grows :: "'x registry_scheme \<Rightarrow> 'x registry_scheme \<Rightarrow> bool" where
  "registry_grows s t \<longleftrightarrow>
     (\<forall>u \<in> set (users s). \<exists>v \<in> set (users t). user_id v = user_id u \<and> user_email v = user_email u
        \<and> (user_active u \<longrightarrow> user_active v \<and> user_role v = user_role u \<and> user_password v = user_password u))
     \<and> (\<forall>d \<in> set (driver_rows s). \<exists>e \<in> set (driver_rows t). driver_id e = driver_id d \<and> driver_user e = driver_user d
          \<and> driver_provider e = driver_provider d)
     \<and> (\<forall>v \<in> set (vehicle_rows s). \<exists>w \<in> set (vehicle_rows t). vehicle_id w = vehicle_id v
          \<and> vehicle_provider w = vehicle_provider v \<and> vehicle_profile w = vehicle_profile v)
     \<and> (\<forall>v \<in> set (invitations s). \<not> pending_invitation v \<longrightarrow> v \<in> set (invitations t))
     \<and> (\<forall>q \<in> set (pairing_rows s). \<not> current_pairing q \<longrightarrow> q \<in> set (pairing_rows t))"

lemma registry_grows_refl: "registry_grows s s"
  unfolding registry_grows_def by blast

lemma registry_grows_trans: "registry_grows s t \<Longrightarrow> registry_grows t u \<Longrightarrow> registry_grows s u"
  unfolding registry_grows_def by (intro conjI ballI impI; metis)

definition kept :: "exempt_rows \<Rightarrow> 'x registry_scheme \<Rightarrow> 'x registry_scheme \<Rightarrow> bool" where
  "kept X s t \<longleftrightarrow> (registry_ok X s \<longrightarrow> registry_ok X t \<and> registry_grows s t)"

interpretation keeping: evolution "kept X" for X
proof
  show "kept X s s" for s :: "'a registry_scheme"
    by (simp add: kept_def registry_grows_refl)
next
  fix s t u :: "'a registry_scheme" assume "kept X s t" "kept X t u"
  then show "kept X s u"
    unfolding kept_def by (meson registry_grows_trans)
qed

lemmas kept_trans = keeping.trans

lemma drivers_ok_mono:
  assumes "drivers_ok X ds us ps fs" "\<And>i. has_account DRIVER i us \<Longrightarrow> has_account DRIVER i us'"
    and "provider_id ` set ps \<subseteq> provider_id ` set ps'" "profile_driver ` set fs \<subseteq> profile_driver ` set fs'"
    and "\<And>d. d \<in> set ds \<Longrightarrow> driver_availability d \<noteq> OFFLINE \<Longrightarrow> may_work d ps \<Longrightarrow> may_work d ps'"
  shows "drivers_ok X ds us' ps' fs'"
  using assms unfolding drivers_ok_def driver_ok_def by (meson in_mono)

lemma driver_home: "drivers_ok X ds us ps fs \<Longrightarrow> d \<in> set ds \<Longrightarrow> driver_provider d = Some i \<Longrightarrow> i \<in> provider_id ` set ps"
  by (simp add: drivers_ok_def driver_ok_def)

lemma may_work_append: "may_work d ps \<Longrightarrow> may_work d (ps @ [p])"
  by (auto simp: may_work_def)

lemma in_update_key:
  "x \<in> set (update_rows (\<lambda>r. key r = i) f rs) \<longleftrightarrow> (x \<in> set rs \<and> key x \<noteq> i) \<or> (\<exists>r \<in> set rs. key r = i \<and> x = f r)"
  by (auto simp: set_update_rows)

lemma in_update_row:
  assumes "distinct (map key rs)" "old \<in> set rs" "key old = i"
  shows "x \<in> set (update_rows (\<lambda>r. key r = i) f rs) \<longleftrightarrow> (x \<in> set rs \<and> key x \<noteq> i) \<or> x = f old"
proof -
  have "r = old" if "r \<in> set rs" "key r = i" for r
    using unique_key [OF assms(1) that(1) assms(2)] that(2) assms(3) by simp
  then show ?thesis using assms(2,3) unfolding in_update_key by metis
qed

lemma ball_update_key:
  "(\<forall>x \<in> set (update_rows (\<lambda>r. key r = i) f rs). P x) \<longleftrightarrow>
     (\<forall>x \<in> set rs. if key x = i then P (f x) else P x)"
  by (auto simp: set_update_rows)

lemma has_account_append [simp]: "has_account r i (us @ [u]) \<longleftrightarrow> has_account r i us \<or> (user_id u = i \<and> user_active u \<and> user_role u = r)"
  by (auto simp: has_account_def)

lemma find_user_has: "find_user i s = Some u \<Longrightarrow> user_active u \<Longrightarrow> has_account (user_role u) i (users s)"
  by (auto simp: find_user_def has_account_def dest: first_row_Some)

subsection \<open>Writes\<close>

lemma kept_draw: "draw s = Inr (k, t) \<Longrightarrow> kept X s t"
  by (auto simp: draw_def kept_def registry_ok_def row_keys_ok_def registry_grows_def less_Suc_eq)

lemma kept_insert_user:
  assumes "insert_user u s = Inr (x, t)" "user_id u < next_key s"
  shows "kept X s t"
proof -
  have t: "t = s\<lparr>users := users s @ [u]\<rparr>" "user_check u" "\<forall>v \<in> set (users s). user_id v \<noteq> user_id u \<and> user_email v \<noteq> user_email u"
    using assms by (auto simp: insert_user_def any_row_iff split: if_splits)
  have "registry_ok X t \<and> registry_grows s t" if ok: "registry_ok X s"
  proof
    show "registry_ok X t"
      unfolding registry_ok_def
    proof (intro conjI)
      show "users_ok (users t)" using ok t by (auto simp: registry_ok_def users_ok_def)
      show "members_ok (members t) (users t)" using ok t by (auto simp: registry_ok_def members_ok_def)
      show "drivers_ok X (driver_rows t) (users t) (provider_rows t) (profile_rows t)"
        using ok t by (auto simp: registry_ok_def intro: drivers_ok_mono)
      show "invitations_ok X (invitations t) (users t) (provider_rows t)"
        using ok t by (auto simp: registry_ok_def invitations_ok_def)
      show "row_keys_ok t" using ok t assms(2) by (auto simp: registry_ok_def row_keys_ok_def)
    qed (use ok t in \<open>simp_all add: registry_ok_def\<close>)
    show "registry_grows s t" using t(1) by (auto simp: registry_grows_def)
  qed
  then show ?thesis by (simp add: kept_def)
qed

lemma has_account_update:
  assumes "distinct (map user_id us)" "old \<in> set us" "user_id old = i" "user_id (f old) = i"
    and "user_active old \<longrightarrow> user_active (f old) \<and> user_role (f old) = user_role old" and "has_account r j us"
  shows "has_account r j (update_rows (\<lambda>u. user_id u = i) f us)"
proof -
  obtain u where u: "u \<in> set us" "user_id u = j" "user_active u" "user_role u = r"
    using assms(6) by (auto simp: has_account_def)
  let ?w = "if user_id u = i then f u else u"
  have "?w \<in> set (update_rows (\<lambda>u. user_id u = i) f us)"
    using u(1) by (auto simp: set_update_rows)
  moreover have "u = old" if "j = i"
    using unique_key [OF assms(1) u(1) assms(2)] u(2) assms(3) that by simp
  then have "user_id ?w = j \<and> user_active ?w \<and> user_role ?w = r"
    using u assms(3-5) by auto
  ultimately show ?thesis by (auto simp: has_account_def)
qed

lemma kept_update_user:
  assumes "update_user i f s = Inr (x, t)"
    and keep: "\<And>u. find_user i s = Some u \<Longrightarrow> user_id (f u) = i \<and> user_email (f u) = user_email u
          \<and> (user_active u \<longrightarrow> user_active (f u) \<and> user_role (f u) = user_role u \<and> user_password (f u) = user_password u)"
    and inv: "\<And>u v. find_user i s = Some u \<Longrightarrow> v \<in> set (invitations s) \<Longrightarrow> pending_invitation v \<Longrightarrow> invitation_id v \<notin> snd X \<Longrightarrow> invited v u \<Longrightarrow> invited v (f u)"
  shows "kept X s t"
proof -
  obtain old where old: "find_user i s = Some old" "user_check (f old)" and t: "t = s\<lparr>users := update_rows (\<lambda>u. user_id u = i) f (users s)\<rparr>"
    using assms(1) by (auto simp: update_user_def split: option.splits if_splits)
  have mem: "old \<in> set (users s)" "user_id old = i"
    using first_row_Some [OF old(1) [unfolded find_user_def]] by simp_all
  have k: "user_id (f old) = i" "user_email (f old) = user_email old"
      "user_active old \<longrightarrow> user_active (f old) \<and> user_role (f old) = user_role old \<and> user_password (f old) = user_password old"
    using keep [OF old(1)] by simp_all
  have "registry_ok X t \<and> registry_grows s t" if ok: "registry_ok X s"
  proof
    have d: "distinct (map user_id (users s))" using ok by (simp add: registry_ok_def users_ok_def)
    have only: "u = old" if "u \<in> set (users s)" "user_id u = i" for u
      using unique_key [OF d that(1) mem(1)] that mem by simp
    have new: "f old \<in> set (users t)" unfolding t using mem by (simp add: in_update_key) blast
    have acc: "has_account r j (users s) \<Longrightarrow> has_account r j (users t)" for r j
      using has_account_update [where f = f, OF d mem k(1)] k(3) by (simp add: t)
    have ids: "map user_id (users t) = map user_id (users s)" "map user_email (users t) = map user_email (users s)"
      unfolding t by (simp_all, (rule map_update_rows, use only k mem in blast)+)
    have idset: "user_id ` set (users t) = user_id ` set (users s)"
      using ids(1) by (metis list.set_map)
    show "registry_ok X t"
      unfolding registry_ok_def
    proof (intro conjI)
      note ids
      moreover have "list_all user_check (users t)"
        using ok only old(2) by (auto simp: t registry_ok_def users_ok_def list_all_iff set_update_rows)
      ultimately show "users_ok (users t)"
        using ok unfolding registry_ok_def users_ok_def by simp
      show "members_ok (members t) (users t)" using ok acc t by (auto simp: registry_ok_def members_ok_def)
      have "drivers_ok X (driver_rows s) (users s) (provider_rows s) (profile_rows s)" using ok by (simp add: registry_ok_def)
      then have "drivers_ok X (driver_rows s) (users t) (provider_rows s) (profile_rows s)" by (rule drivers_ok_mono) (simp_all add: acc)
      then show "drivers_ok X (driver_rows t) (users t) (provider_rows t) (profile_rows t)" by (simp add: t)
      have "\<exists>u \<in> set (users t). invited v u" if v: "v \<in> set (invitations s)" "pending_invitation v" "invitation_id v \<notin> snd X" for v
      proof -
        obtain u where u: "u \<in> set (users s)" "invited v u" using ok v unfolding registry_ok_def invitations_ok_def by blast
        show ?thesis
        proof (cases "user_id u = i")
          case True
          then have "u = old" using only u by simp
          then have "invited v (f old)" using inv [OF old(1) v] u by simp
          with new show ?thesis by blast
        next
          case False
          with u show ?thesis unfolding t by (auto simp: in_update_key)
        qed
      qed
      then show "invitations_ok X (invitations t) (users t) (provider_rows t)"
        using ok t unfolding registry_ok_def invitations_ok_def by auto
      show "row_keys_ok t" using ok idset unfolding registry_ok_def row_keys_ok_def by (simp add: t)
    qed (use ok t in \<open>simp_all add: registry_ok_def\<close>)
    have "\<exists>v \<in> set (users t). user_id v = user_id u \<and> user_email v = user_email u
        \<and> (user_active u \<longrightarrow> user_active v \<and> user_role v = user_role u \<and> user_password v = user_password u)" if "u \<in> set (users s)" for u
      proof (cases "user_id u = i")
      case True
      with only [OF that] k mem new show ?thesis by metis
    next
      case False
      with that have "u \<in> set (users t)" unfolding t by (auto simp: in_update_key)
      then show ?thesis by blast
    qed
    then show "registry_grows s t" by (auto simp: registry_grows_def t)
  qed
  then show ?thesis by (simp add: kept_def)
qed

lemma capacity_new_provider:
  assumes "capacity_ok ps ds vs" "provider_id p \<notin> provider_id ` set ps"
    and "\<forall>d \<in> set ds. driver_provider d \<noteq> Some (provider_id p)" "\<forall>v \<in> set vs. vehicle_provider v \<noteq> Some (provider_id p)"
    and "provider_check p"
  shows "capacity_ok (ps @ [p]) ds vs"
proof -
  have "filter (\<lambda>d. driver_provider d = Some (provider_id p)) ds = []" "filter (\<lambda>v. vehicle_provider v = Some (provider_id p)) vs = []"
    using assms(3,4) by (simp_all add: filter_empty_conv)
  with assms(1,5) show ?thesis by (auto simp: capacity_ok_def provider_check_def)
qed

lemma update_keys:
  "(\<And>r. r \<in> set rs \<Longrightarrow> key r = i \<Longrightarrow> g (f r) = g r) \<Longrightarrow> map g (update_rows (\<lambda>r. key r = i) f rs) = map g rs"
  by (rule map_update_rows) auto

lemma update_key_set:
  assumes "\<And>r. r \<in> set rs \<Longrightarrow> key r = i \<Longrightarrow> g (f r) = g r"
  shows "g ` set (update_rows (\<lambda>r. key r = i) f rs) = g ` set rs"
  using arg_cong [OF update_keys [of rs key i g f, OF assms], of set] by simp

lemma length_filter_update:
  "(\<And>r. r \<in> set rs \<Longrightarrow> Q r \<Longrightarrow> P (f r) = P r) \<Longrightarrow> length (filter P (update_rows Q f rs)) = length (filter P rs)"
  by (induction rs) auto

lemma update_mono:
  assumes "\<And>r. r \<in> set rs \<Longrightarrow> Q r \<Longrightarrow> g (f r) = g r" and "\<exists>r \<in> set rs. P (g r)"
  shows "\<exists>r \<in> set (update_rows Q f rs). P (g r)"
proof -
  obtain r where r: "r \<in> set rs" "P (g r)" using assms(2) by blast
  have "(if Q r then f r else r) \<in> set (update_rows Q f rs)" using r(1) by (simp add: set_update_rows)
  moreover have "P (g (if Q r then f r else r))" using r assms(1) by auto
  ultimately show ?thesis by blast
qed

lemma kept_insert_provider:
  assumes "insert_provider p s = Inr (x, t)" "provider_id p < next_key s"
  shows "kept X s t"
proof -
  have t: "t = s\<lparr>provider_rows := provider_rows s @ [p]\<rparr>" "provider_check p" "\<forall>q \<in> set (provider_rows s). provider_id q \<noteq> provider_id p \<and> provider_code q \<noteq> provider_code p"
    using assms by (auto simp: insert_provider_def any_row_iff split: if_splits)
  have "registry_ok X t" if ok: "registry_ok X s"
    unfolding registry_ok_def
  proof (intro conjI)
    have nodriver: "\<forall>d \<in> set (driver_rows s). driver_provider d \<noteq> Some (provider_id p)"
      using ok t(3) driver_home [of X "driver_rows s"] unfolding registry_ok_def by (metis (no_types, lifting) imageE)
    have novehicle: "\<forall>v \<in> set (vehicle_rows s). vehicle_provider v \<noteq> Some (provider_id p)"
      using ok t(3) unfolding registry_ok_def vehicles_ok_def by (metis (no_types, lifting) imageE)
    show "providers_ok (provider_rows t)" using ok t by (auto simp: registry_ok_def providers_ok_def)
    show "drivers_ok X (driver_rows t) (users t) (provider_rows t) (profile_rows t)"
      using ok t(1) by (auto simp: registry_ok_def intro: drivers_ok_mono may_work_append)
    show "vehicles_ok (vehicle_rows t) (provider_rows t)"
      using ok t(1) by (auto simp: registry_ok_def vehicles_ok_def)
    show "invitations_ok X (invitations t) (users t) (provider_rows t)"
      using ok t(1) by (auto simp: registry_ok_def invitations_ok_def)
    show "capacity_ok (provider_rows t) (driver_rows t) (vehicle_rows t)"
      unfolding t(1) by (simp, rule capacity_new_provider) (use ok nodriver novehicle t in \<open>auto simp: registry_ok_def\<close>)
    show "foreign_keys_ok (members t) (provider_rows t) (profile_rows t) (driver_rows t) (vehicle_rows t)"
      using ok t(1) by (auto simp: registry_ok_def foreign_keys_ok_def)
    show "row_keys_ok t" using ok t(1) assms(2) by (auto simp: registry_ok_def row_keys_ok_def)
  qed (use ok t in \<open>simp_all add: registry_ok_def\<close>)
  moreover have "registry_grows s t" by (simp add: t(1) registry_grows_def) blast
  ultimately show ?thesis by (simp add: kept_def)
qed

lemma kept_update_provider:
  assumes "update_provider i f s = Inr (x, t)"
    and keep: "\<And>p. find_provider i s = Some p \<Longrightarrow> provider_id (f p) = i \<and> provider_drivers i s \<le> maxDrivers (f p) \<and> provider_vehicles i s \<le> maxVehicles (f p)
       \<and> (provider_status (f p) = PROV_ACTIVE \<or> provider_status (f p) = provider_status p
          \<or> (\<forall>d \<in> set (driver_rows s). driver_provider d = Some i \<longrightarrow> driver_availability d = OFFLINE))"
  shows "kept X s t"
proof -
  obtain old where old: "find_provider i s = Some old" "provider_check (f old)"
    "\<forall>q \<in> set (provider_rows s). provider_id q \<noteq> i \<longrightarrow> provider_code q \<noteq> provider_code (f old)"
    and t: "t = s\<lparr>provider_rows := update_rows (\<lambda>u. provider_id u = i) f (provider_rows s)\<rparr>"
    using assms(1) by (auto simp: update_provider_def any_row_iff split: option.splits if_splits)
  have mem: "old \<in> set (provider_rows s)" "provider_id old = i"
    using first_row_Some [OF old(1) [unfolded find_provider_def]] by simp_all
  note k = keep [OF old(1)]
  have "registry_ok X t" if ok: "registry_ok X s"
  proof -
    have d: "distinct (map provider_id (provider_rows s))" using ok by (simp add: registry_ok_def providers_ok_def)
    have only: "p = old" if "p \<in> set (provider_rows s)" "provider_id p = i" for p
      using unique_key [OF d that(1) mem(1)] that mem by simp
    have ids: "map provider_id (provider_rows t) = map provider_id (provider_rows s)"
      unfolding t by (simp, rule update_keys) (use only k mem in blast)
    then have idset: "provider_id ` set (provider_rows t) = provider_id ` set (provider_rows s)" by (metis list.set_map)
    have in_t: "p \<in> set (provider_rows t) \<longleftrightarrow> (p \<in> set (provider_rows s) \<and> provider_id p \<noteq> i) \<or> p = f old" for p
      unfolding t by (simp, rule in_update_row [OF d mem])
    show ?thesis
      unfolding registry_ok_def
    proof (intro conjI)
      have "unique_on (\<lambda>_. True) provider_code (update_rows (\<lambda>u. provider_id u = i) f (provider_rows s))"
      proof (rule unique_on_update [OF d])
        show "unique_on (\<lambda>_. True) provider_code (provider_rows s)"
          using ok by (simp add: registry_ok_def providers_ok_def unique_on_def)
        show "provider_code q \<noteq> provider_code (f p)"
          if "p \<in> set (provider_rows s)" "provider_id p = i" "q \<in> set (provider_rows s)" "provider_id q \<noteq> i" for p q
          using only [OF that(1,2)] old(3) that by simp
      qed
      then show "providers_ok (provider_rows t)"
        using ok ids old(2) by (auto simp: t registry_ok_def providers_ok_def unique_on_def list_all_iff in_t [unfolded t, simplified])
      have "may_work e (provider_rows t)"
        if "may_work e (provider_rows s)" "e \<in> set (driver_rows s)" "driver_availability e \<noteq> OFFLINE" for e
      proof -
        have "\<exists>p \<in> set (provider_rows t). provider_id p = j \<and> provider_status p = PROV_ACTIVE" if j: "driver_provider e = Some j" for j
        proof -
          obtain p where p: "p \<in> set (provider_rows s)" "provider_id p = j" "provider_status p = PROV_ACTIVE"
            using \<open>may_work e (provider_rows s)\<close> j by (auto simp: may_work_def)
          show ?thesis
          proof (cases "j = i")
            case True
            then have "p = old" using only p by simp
            then have "provider_status (f old) = PROV_ACTIVE" using k p that True j \<open>e \<in> set (driver_rows s)\<close> \<open>driver_availability e \<noteq> OFFLINE\<close> by auto
            with True k in_t show ?thesis by blast
          next
            case False
            with p in_t show ?thesis by blast
          qed
        qed
        with that(1) show ?thesis by (simp add: may_work_def)
      qed
      moreover have "drivers_ok X (driver_rows s) (users s) (provider_rows s) (profile_rows s)" using ok by (simp add: registry_ok_def)
      ultimately have "drivers_ok X (driver_rows s) (users s) (provider_rows t) (profile_rows s)"
        using idset by (auto intro: drivers_ok_mono)
      then show "drivers_ok X (driver_rows t) (users t) (provider_rows t) (profile_rows t)"
        by (simp add: t)
      have "vehicles_ok (vehicle_rows s) (provider_rows t)"
        using ok unfolding registry_ok_def vehicles_ok_def idset by blast
      then show "vehicles_ok (vehicle_rows t) (provider_rows t)" by (simp add: t)
      have "invitations_ok X (invitations s) (users s) (provider_rows t)"
        using ok unfolding registry_ok_def invitations_ok_def idset by blast
      then show "invitations_ok X (invitations t) (users t) (provider_rows t)" by (simp add: t)
      have "capacity_ok (provider_rows t) (driver_rows s) (vehicle_rows s)"
        using ok k unfolding registry_ok_def capacity_ok_def provider_drivers_def provider_vehicles_def by (auto simp: in_t)
      then show "capacity_ok (provider_rows t) (driver_rows t) (vehicle_rows t)" by (simp add: t)
      show "foreign_keys_ok (members t) (provider_rows t) (profile_rows t) (driver_rows t) (vehicle_rows t)"
        using ok idset unfolding registry_ok_def foreign_keys_ok_def by (simp add: t)
      show "row_keys_ok t" using ok idset unfolding registry_ok_def row_keys_ok_def by (simp add: t)
    qed (use ok t in \<open>simp_all add: registry_ok_def\<close>)
  qed
  moreover have "registry_grows s t" by (simp add: t registry_grows_def) blast
  ultimately show ?thesis by (simp add: kept_def)
qed

lemma kept_drivers_offline:
  assumes "drivers_offline i s = Inr (u, t)"
  shows "kept X s t" "registry_ok X s \<Longrightarrow> d \<in> set (driver_rows t) \<Longrightarrow> driver_provider d = Some i \<Longrightarrow> driver_availability d = OFFLINE"
proof -
  let ?Q = "\<lambda>d. driver_provider d = Some i \<and> driver_availability d \<noteq> OFFLINE"
  let ?f = "\<lambda>d. d\<lparr>driver_availability := OFFLINE\<rparr>"
  have t: "t = s\<lparr>driver_rows := update_rows ?Q ?f (driver_rows s)\<rparr>"
    using assms by (simp add: drivers_offline_def)
  show "driver_availability d = OFFLINE" if "d \<in> set (driver_rows t)" "driver_provider d = Some i"
    using that by (auto simp: t set_update_rows split: if_splits)
  have same: "map g (driver_rows t) = map g (driver_rows s)" if "\<And>d :: driver_row. g (?f d) = g d" for g :: "driver_row \<Rightarrow> 'z"
    unfolding t using that by (simp add: update_rows_def)
  have home: "\<exists>e \<in> set (driver_rows t). driver_id e = a \<and> driver_provider e = b"
    if "\<exists>e \<in> set (driver_rows s). driver_id e = a \<and> driver_provider e = b" for a b
    unfolding t by (simp, rule update_mono [where g = "\<lambda>e. (driver_id e, driver_provider e)" and P = "\<lambda>x. x = (a, b)", simplified]) (use that in auto)
  have "registry_ok X t" if ok: "registry_ok X s"
    unfolding registry_ok_def
  proof (intro conjI)
    have "driver_ok X (users s) (provider_rows s) (profile_rows s) d" if "d \<in> set (driver_rows t)" for d
      using that ok by (auto simp: t in_update_rows registry_ok_def drivers_ok_def driver_ok_def driver_check_def split: if_splits)
    then show "drivers_ok X (driver_rows t) (users t) (provider_rows t) (profile_rows t)"
      using ok same [of driver_id] same [of driver_user] by (simp add: registry_ok_def drivers_ok_def t)
    have "pairings_ok (pairing_rows s) (driver_rows t) (vehicle_rows s)"
      using ok home unfolding registry_ok_def pairings_ok_def by blast
    then show "pairings_ok (pairing_rows t) (driver_rows t) (vehicle_rows t)" by (simp add: t)
    have "length (filter (\<lambda>d. driver_provider d = j) (driver_rows t)) = length (filter (\<lambda>d. driver_provider d = j) (driver_rows s))" for j
      unfolding t by (simp, rule length_filter_update) simp
    then show "capacity_ok (provider_rows t) (driver_rows t) (vehicle_rows t)"
      using ok by (simp add: registry_ok_def capacity_ok_def t)
    have "driver_id ` set (driver_rows t) = driver_id ` set (driver_rows s)" using arg_cong [OF same [of driver_id], of set] by simp
    then show "foreign_keys_ok (members t) (provider_rows t) (profile_rows t) (driver_rows t) (vehicle_rows t)" "row_keys_ok t"
      using ok unfolding registry_ok_def foreign_keys_ok_def row_keys_ok_def by (simp_all add: t)
  qed (use ok t in \<open>simp_all add: registry_ok_def\<close>)
  moreover have "\<exists>e \<in> set (driver_rows t). driver_id e = driver_id d \<and> driver_user e = driver_user d \<and> driver_provider e = driver_provider d"
    if "d \<in> set (driver_rows s)" for d
    unfolding t by (simp, rule update_mono [where g = "\<lambda>e. (driver_id e, driver_user e, driver_provider e)"
        and P = "\<lambda>x. x = (driver_id d, driver_user d, driver_provider d)", simplified]) (use that in auto)
  then have "registry_grows s t" unfolding registry_grows_def by (auto simp: t)
  ultimately show "kept X s t" by (simp add: kept_def)
qed

lemma kept_insert_member:
  assumes "insert_member m s = Inr (x, t)" "member_id m < next_key s" "has_account PROVIDER_ADMIN (member_user m) (users s)"
    and "member_provider m \<in> provider_id ` set (provider_rows s)"
  shows "kept X s t"
proof -
  have t: "t = s\<lparr>members := members s @ [m]\<rparr>"
    "\<forall>n \<in> set (members s). member_id n \<noteq> member_id m \<and> \<not> (member_provider n = member_provider m \<and> member_user n = member_user m)"
    using assms by (auto simp: insert_member_def any_row_iff split: if_splits)
  have "registry_ok X t" if ok: "registry_ok X s"
    unfolding registry_ok_def
  proof (intro conjI)
    show "members_ok (members t) (users t)" using ok t assms(3) by (auto simp: registry_ok_def members_ok_def)
    show "foreign_keys_ok (members t) (provider_rows t) (profile_rows t) (driver_rows t) (vehicle_rows t)"
      using ok t(1) assms(4) by (auto simp: registry_ok_def foreign_keys_ok_def)
    show "row_keys_ok t" using ok t(1) assms(2) by (auto simp: registry_ok_def row_keys_ok_def)
  qed (use ok t in \<open>simp_all add: registry_ok_def\<close>)
  moreover have "registry_grows s t" by (simp add: t(1) registry_grows_def) blast
  ultimately show ?thesis by (simp add: kept_def)
qed

lemma distinct_map_filter: "distinct (map g xs) \<Longrightarrow> distinct (map g (filter P xs))"
  by (induction xs) auto

lemma kept_member_remove:
  assumes "member_remove i m s = Inr (x, t)"
  shows "kept X s t"
proof -
  have t: "t = s\<lparr>members := filter (\<lambda>x. \<not> (member_id x = m \<and> member_provider x = i)) (members s)\<rparr>"
    using assms by (auto simp: member_remove_def split: if_splits)
  have "registry_ok X t" if ok: "registry_ok X s"
    unfolding registry_ok_def
  proof (intro conjI)
    show "members_ok (members t) (users t)" using ok t by (auto simp: registry_ok_def members_ok_def intro!: distinct_map_filter)
    show "foreign_keys_ok (members t) (provider_rows t) (profile_rows t) (driver_rows t) (vehicle_rows t)"
      using ok t by (auto simp: registry_ok_def foreign_keys_ok_def)
    show "row_keys_ok t" using ok t(1) by (auto simp: registry_ok_def row_keys_ok_def)
  qed (use ok t in \<open>simp_all add: registry_ok_def\<close>)
  moreover have "registry_grows s t" by (simp add: t(1) registry_grows_def) blast
  ultimately show ?thesis by (simp add: kept_def)
qed

lemma kept_insert_driver:
  assumes "insert_driver d s = Inr (x, t)" "driver_id d < next_key s" "has_account DRIVER (driver_user d) (users s)"
    and "driver_availability d = OFFLINE" "driver_provider d = None \<Longrightarrow> driver_id d \<in> fst X"
    and "\<And>i. driver_provider d = Some i \<Longrightarrow> \<exists>p. find_provider i s = Some p \<and> provider_drivers i s < maxDrivers p"
  shows "kept X s t"
proof -
  have t: "t = s\<lparr>driver_rows := driver_rows s @ [d]\<rparr>" "driver_check d"
    "\<forall>e \<in> set (driver_rows s). driver_id e \<noteq> driver_id d \<and> driver_user e \<noteq> driver_user d"
    using assms by (auto simp: insert_driver_def any_row_iff split: if_splits)
  have "registry_ok X t" if ok: "registry_ok X s"
    unfolding registry_ok_def
  proof (intro conjI)
    have dp: "distinct (map provider_id (provider_rows s))" using ok by (simp add: registry_ok_def providers_ok_def)
    have home: "i \<in> provider_id ` set (provider_rows s)" if "driver_provider d = Some i" for i
      using assms(6) [OF that] by (auto simp: find_provider_def dest: first_row_Some)
    have "driver_ok X (users s) (provider_rows s) (profile_rows s) d"
      using t(2) assms(3-5) home by (simp add: driver_ok_def)
    then show "drivers_ok X (driver_rows t) (users t) (provider_rows t) (profile_rows t)"
      using ok t by (auto simp: registry_ok_def drivers_ok_def)
    show "pairings_ok (pairing_rows t) (driver_rows t) (vehicle_rows t)"
      using ok unfolding t(1) registry_ok_def pairings_ok_def by auto
    have room: "int (length (filter (\<lambda>e. driver_provider e = Some (provider_id p)) (driver_rows s))) < maxDrivers p"
      if "p \<in> set (provider_rows s)" "driver_provider d = Some (provider_id p)" for p
      using assms(6) [OF that(2)] first_row_unique_key [OF dp that(1)] by (auto simp: find_provider_def provider_drivers_def)
    show "capacity_ok (provider_rows t) (driver_rows t) (vehicle_rows t)"
      using ok room unfolding t(1) registry_ok_def capacity_ok_def by fastforce
    show "foreign_keys_ok (members t) (provider_rows t) (profile_rows t) (driver_rows t) (vehicle_rows t)"
      using ok t(1) by (auto simp: registry_ok_def foreign_keys_ok_def)
    show "row_keys_ok t" using ok t(1) assms(2) by (auto simp: registry_ok_def row_keys_ok_def)
  qed (use ok t in \<open>simp_all add: registry_ok_def\<close>)
  moreover have "registry_grows s t" by (simp add: t(1) registry_grows_def) blast
  ultimately show ?thesis by (simp add: kept_def)
qed

lemma kept_update_driver:
  assumes "update_driver i f s = Inr (x, t)"
    and keep: "\<And>d. find_driver i s = Some d \<Longrightarrow> driver_id (f d) = i \<and> driver_user (f d) = driver_user d
       \<and> (driver_availability (f d) \<noteq> OFFLINE \<longrightarrow> may_work d (provider_rows s) \<longrightarrow> may_work (f d) (provider_rows s))
       \<and> (driver_availability (f d) \<noteq> OFFLINE \<longrightarrow> driver_availability d = OFFLINE \<longrightarrow> may_work (f d) (provider_rows s))"
  shows "kept X s t"
proof -
  let ?U = "update_rows (\<lambda>d. driver_id d = i) f (driver_rows s)"
  obtain old where old: "find_driver i s = Some old" "driver_provider (f old) = driver_provider old" "driver_check (f old)"
    and t: "t = s\<lparr>driver_rows := ?U\<rparr>"
    using assms(1) by (auto simp: update_driver_def split: option.splits if_splits)
  have mem: "old \<in> set (driver_rows s)" "driver_id old = i"
    using first_row_Some [OF old(1) [unfolded find_driver_def]] by simp_all
  note k = keep [OF old(1)]
  have "registry_ok X t \<and> registry_grows s t" if ok: "registry_ok X s"
  proof
    have d: "distinct (map driver_id (driver_rows s))" using ok by (simp add: registry_ok_def drivers_ok_def)
    have only: "e = old" if "e \<in> set (driver_rows s)" "driver_id e = i" for e
      using unique_key [OF d that(1) mem(1)] that mem by simp
    have same: "map g ?U = map g (driver_rows s)" if "g (f old) = g old" for g :: "driver_row \<Rightarrow> 'z"
      by (rule update_keys) (use only that in blast)
    have sames: "map driver_id ?U = map driver_id (driver_rows s)" "map driver_user ?U = map driver_user (driver_rows s)"
      by (rule same, use k mem in simp)+
    have home: "\<exists>e \<in> set ?U. driver_id e = driver_id d \<and> driver_user e = driver_user d \<and> driver_provider e = driver_provider d"
      if "d \<in> set (driver_rows s)" for d
    proof (cases "driver_id d = i")
      case True
      then have "d = old" using only that by simp
      then show ?thesis using in_update_row [OF d mem] k old(2) mem by metis
    next
      case False
      then show ?thesis using that in_update_row [OF d mem] by blast
    qed
    show "registry_ok X t"
      unfolding registry_ok_def
    proof (intro conjI)
      have "driver_ok X (users s) (provider_rows s) (profile_rows s) old"
        using ok mem by (simp add: registry_ok_def drivers_ok_def)
      then have new: "driver_ok X (users s) (provider_rows s) (profile_rows s) (f old)"
        using k old(2,3) mem by (auto simp: driver_ok_def)
      have "\<forall>e \<in> set ?U. driver_ok X (users s) (provider_rows s) (profile_rows s) e"
        using ok new in_update_row [OF d mem] unfolding registry_ok_def drivers_ok_def by metis
      then have "drivers_ok X ?U (users s) (provider_rows s) (profile_rows s)"
        using ok sames unfolding registry_ok_def drivers_ok_def by simp
      then show "drivers_ok X (driver_rows t) (users t) (provider_rows t) (profile_rows t)" by (simp add: t)
      have "pairings_ok (pairing_rows s) ?U (vehicle_rows s)"
        using ok home unfolding registry_ok_def pairings_ok_def by metis
      then show "pairings_ok (pairing_rows t) (driver_rows t) (vehicle_rows t)" by (simp add: t)
      have "length (filter (\<lambda>d. driver_provider d = j) ?U) = length (filter (\<lambda>d. driver_provider d = j) (driver_rows s))" for j
        by (rule length_filter_update) (use only old(2) in auto)
      then show "capacity_ok (provider_rows t) (driver_rows t) (vehicle_rows t)"
        using ok by (simp add: registry_ok_def capacity_ok_def t)
      have "driver_id ` set ?U = driver_id ` set (driver_rows s)" using arg_cong [OF sames(1), of set] by simp
      then show "foreign_keys_ok (members t) (provider_rows t) (profile_rows t) (driver_rows t) (vehicle_rows t)" "row_keys_ok t"
        using ok unfolding registry_ok_def foreign_keys_ok_def row_keys_ok_def by (simp_all add: t)
    qed (use ok t in \<open>simp_all add: registry_ok_def\<close>)
    show "registry_grows s t" using home unfolding registry_grows_def t by auto
  qed
  then show ?thesis by (simp add: kept_def)
qed

lemma kept_insert_profile:
  assumes "insert_profile p s = Inr (x, t)" "profile_id p < next_key s" "profile_driver p \<in> driver_id ` set (driver_rows s)"
  shows "kept X s t"
proof -
  have t: "t = s\<lparr>profile_rows := profile_rows s @ [p]\<rparr>" "profile_check p"
    "\<forall>q \<in> set (profile_rows s). profile_id q \<noteq> profile_id p \<and> profile_driver q \<noteq> profile_driver p"
    using assms by (auto simp: insert_profile_def any_row_iff split: if_splits)
  have "registry_ok X t" if ok: "registry_ok X s"
    unfolding registry_ok_def
  proof (intro conjI)
    show "drivers_ok X (driver_rows t) (users t) (provider_rows t) (profile_rows t)"
      using ok t(1) by (auto simp: registry_ok_def intro: drivers_ok_mono)
    show "profiles_ok (profile_rows t)" using ok t by (auto simp: registry_ok_def profiles_ok_def)
    show "foreign_keys_ok (members t) (provider_rows t) (profile_rows t) (driver_rows t) (vehicle_rows t)"
      using ok t(1) assms(3) by (auto simp: registry_ok_def foreign_keys_ok_def)
    show "row_keys_ok t" using ok t(1) assms(2) by (auto simp: registry_ok_def row_keys_ok_def)
  qed (use ok t in \<open>simp_all add: registry_ok_def\<close>)
  moreover have "registry_grows s t" by (simp add: t(1) registry_grows_def) blast
  ultimately show ?thesis by (simp add: kept_def)
qed

lemma kept_update_profile:
  assumes "update_profile i f s = Inr (x, t)" and keep: "\<And>p. profile_id (f p) = profile_id p"
  shows "kept X s t"
proof -
  let ?U = "update_rows (\<lambda>p. profile_id p = i) f (profile_rows s)"
  obtain old where old: "find_profile i s = Some old" "profile_driver (f old) = profile_driver old" "profile_check (f old)"
    and t: "t = s\<lparr>profile_rows := ?U\<rparr>"
    using assms(1) by (auto simp: update_profile_def split: option.splits if_splits)
  have mem: "old \<in> set (profile_rows s)" "profile_id old = i"
    using first_row_Some [OF old(1) [unfolded find_profile_def]] by simp_all
  have "registry_ok X t" if ok: "registry_ok X s"
  proof -
    have d: "distinct (map profile_id (profile_rows s))" using ok by (simp add: registry_ok_def profiles_ok_def)
    have only: "e = old" if "e \<in> set (profile_rows s)" "profile_id e = i" for e
      using unique_key [OF d that(1) mem(1)] that mem by simp
    have ids: "map profile_id ?U = map profile_id (profile_rows s)" by (rule update_keys) (rule keep)
    have ds: "map profile_driver ?U = map profile_driver (profile_rows s)" by (rule update_keys) (use only old(2) in blast)
    have sets: "profile_id ` set ?U = profile_id ` set (profile_rows s)" "profile_driver ` set ?U = profile_driver ` set (profile_rows s)"
      using arg_cong [OF ids, of set] arg_cong [OF ds, of set] by simp_all
    show ?thesis
      unfolding registry_ok_def
    proof (intro conjI)
      show "drivers_ok X (driver_rows t) (users t) (provider_rows t) (profile_rows t)"
        using ok sets(2) by (auto simp: t registry_ok_def intro: drivers_ok_mono)
      have "list_all profile_check ?U"
        using ok old(3) only by (auto simp: registry_ok_def profiles_ok_def list_all_iff set_update_rows)
      then show "profiles_ok (profile_rows t)" using ok ids ds by (auto simp: t registry_ok_def profiles_ok_def)
      show "foreign_keys_ok (members t) (provider_rows t) (profile_rows t) (driver_rows t) (vehicle_rows t)"
        using ok sets unfolding registry_ok_def foreign_keys_ok_def by (simp add: t)
      show "row_keys_ok t" using ok sets(1) unfolding registry_ok_def row_keys_ok_def by (simp add: t)
    qed (use ok t in \<open>simp_all add: registry_ok_def\<close>)
  qed
  moreover have "registry_grows s t" by (simp add: t registry_grows_def) blast
  ultimately show ?thesis by (simp add: kept_def)
qed

lemma same_vehicle_name_sym: "same_vehicle_name v w \<longleftrightarrow> same_vehicle_name w v"
  unfolding same_vehicle_name_def by metis

lemma kept_insert_vehicle:
  assumes "insert_vehicle v s = Inr (x, t)" "vehicle_id v < next_key s"
    and "\<And>i. vehicle_provider v = Some i \<Longrightarrow> \<exists>p. find_provider i s = Some p \<and> provider_vehicles i s < maxVehicles p"
    and "\<And>i. vehicle_profile v = Some i \<Longrightarrow> i \<in> profile_id ` set (profile_rows s)"
  shows "kept X s t"
proof -
  have t: "t = s\<lparr>vehicle_rows := vehicle_rows s @ [v]\<rparr>" "vehicle_check v"
    "\<forall>w \<in> set (vehicle_rows s). vehicle_id w \<noteq> vehicle_id v \<and> \<not> same_vehicle_name w v"
    using assms by (auto simp: insert_vehicle_def any_row_iff split: if_splits)
  have "registry_ok X t" if ok: "registry_ok X s"
    unfolding registry_ok_def
  proof (intro conjI)
    have dp: "distinct (map provider_id (provider_rows s))" using ok by (simp add: registry_ok_def providers_ok_def)
    have home: "i \<in> provider_id ` set (provider_rows s)" if "vehicle_provider v = Some i" for i
      using assms(3) [OF that] by (auto simp: find_provider_def dest: first_row_Some)
    show "vehicles_ok (vehicle_rows t) (provider_rows t)"
      using ok t home same_vehicle_name_sym by (auto simp: registry_ok_def vehicles_ok_def)
    show "pairings_ok (pairing_rows t) (driver_rows t) (vehicle_rows t)"
      using ok unfolding t(1) registry_ok_def pairings_ok_def by auto
    have room: "int (length (filter (\<lambda>e. vehicle_provider e = Some (provider_id p)) (vehicle_rows s))) < maxVehicles p"
      if "p \<in> set (provider_rows s)" "vehicle_provider v = Some (provider_id p)" for p
      using assms(3) [OF that(2)] first_row_unique_key [OF dp that(1)] by (auto simp: find_provider_def provider_vehicles_def)
    show "capacity_ok (provider_rows t) (driver_rows t) (vehicle_rows t)"
      using ok room unfolding t(1) registry_ok_def capacity_ok_def by fastforce
    show "foreign_keys_ok (members t) (provider_rows t) (profile_rows t) (driver_rows t) (vehicle_rows t)"
      using ok t(1) assms(4) by (cases "vehicle_profile v") (auto simp: registry_ok_def foreign_keys_ok_def)
    show "row_keys_ok t" using ok t(1) assms(2) by (auto simp: registry_ok_def row_keys_ok_def)
  qed (use ok t in \<open>simp_all add: registry_ok_def\<close>)
  moreover have "registry_grows s t" by (simp add: t(1) registry_grows_def) blast
  ultimately show ?thesis by (simp add: kept_def)
qed

lemma kept_update_vehicle:
  assumes "update_vehicle_row b i f s = Inr (x, t)" and keep: "\<And>v. vehicle_id (f v) = vehicle_id v"
  shows "kept X s t"
proof -
  obtain old where old: "first_row (\<lambda>v. vehicle_id v = i) (vehicle_rows s) = Some old"
    using assms(1) by (auto simp: update_vehicle_row_def split: option.splits)
  define new where "new = (if b then (f old)\<lparr>onboardingPending := False\<rparr> else f old)"
  let ?U = "update_rows (\<lambda>v. vehicle_id v = i) (\<lambda>_. new) (vehicle_rows s)"
  have n: "vehicle_provider new = vehicle_provider old" "vehicle_profile new = vehicle_profile old" "vehicle_check new"
    "\<forall>w \<in> set (vehicle_rows s). vehicle_id w \<noteq> i \<longrightarrow> \<not> same_vehicle_name w new" and t: "t = s\<lparr>vehicle_rows := ?U\<rparr>"
    using assms(1) old by (auto simp: update_vehicle_row_def Let_def new_def any_row_iff split: if_splits)
  have mem: "old \<in> set (vehicle_rows s)" "vehicle_id old = i"
    using first_row_Some [OF old] by simp_all
  have id: "vehicle_id new = i" using keep mem(2) by (simp add: new_def)
  have "registry_ok X t \<and> registry_grows s t" if ok: "registry_ok X s"
  proof
    have d: "distinct (map vehicle_id (vehicle_rows s))" using ok by (simp add: registry_ok_def vehicles_ok_def)
    have only: "e = old" if "e \<in> set (vehicle_rows s)" "vehicle_id e = i" for e
      using unique_key [OF d that(1) mem(1)] that mem by simp
    note in_U = in_update_row [OF d mem, of _ "\<lambda>_. new"]
    have ids: "map vehicle_id ?U = map vehicle_id (vehicle_rows s)" by (rule update_keys) (simp add: id)
    have home: "\<exists>e \<in> set ?U. vehicle_id e = vehicle_id v \<and> vehicle_provider e = vehicle_provider v \<and> vehicle_profile e = vehicle_profile v"
      if "v \<in> set (vehicle_rows s)" for v
      using that only [OF that] in_U id n(1,2) mem by metis
    show "registry_ok X t"
      unfolding registry_ok_def
    proof (intro conjI)
      have names: "v = w" if "v \<in> set ?U" "w \<in> set ?U" "same_vehicle_name v w" for v w
        using that ok n(4) unfolding in_U registry_ok_def vehicles_ok_def by (metis same_vehicle_name_sym)
      have rows: "vehicle_check v \<and> (\<forall>j. vehicle_provider v = Some j \<longrightarrow> j \<in> provider_id ` set (provider_rows s))" if "v \<in> set ?U" for v
        using that ok n(1,3) mem unfolding in_U registry_ok_def vehicles_ok_def by metis
      have "vehicles_ok ?U (provider_rows s)"
        using ok ids names rows unfolding registry_ok_def vehicles_ok_def by simp
      then show "vehicles_ok (vehicle_rows t) (provider_rows t)" by (simp add: t)
      have "pairings_ok (pairing_rows s) (driver_rows s) ?U"
        using ok home unfolding registry_ok_def pairings_ok_def by metis
      then show "pairings_ok (pairing_rows t) (driver_rows t) (vehicle_rows t)" by (simp add: t)
      have "length (filter (\<lambda>d. vehicle_provider d = j) ?U) = length (filter (\<lambda>d. vehicle_provider d = j) (vehicle_rows s))" for j
        by (rule length_filter_update) (use only n(1) in auto)
      then show "capacity_ok (provider_rows t) (driver_rows t) (vehicle_rows t)"
        using ok by (simp add: registry_ok_def capacity_ok_def t)
      have "map vehicle_profile ?U = map vehicle_profile (vehicle_rows s)" by (rule update_keys) (use only n(2) in simp)
      then have "vehicle_profile ` set ?U = vehicle_profile ` set (vehicle_rows s)" by (metis list.set_map)
      then show "foreign_keys_ok (members t) (provider_rows t) (profile_rows t) (driver_rows t) (vehicle_rows t)"
        using ok unfolding registry_ok_def foreign_keys_ok_def by (simp add: t)
      have "vehicle_id ` set ?U = vehicle_id ` set (vehicle_rows s)" using arg_cong [OF ids, of set] by simp
      then show "row_keys_ok t" using ok unfolding registry_ok_def row_keys_ok_def by (simp add: t)
    qed (use ok t in \<open>simp_all add: registry_ok_def\<close>)
    show "registry_grows s t" using home unfolding registry_grows_def t by auto
  qed
  then show ?thesis by (simp add: kept_def)
qed

lemma kept_insert_pairing:
  assumes "insert_pairing p s = Inr (x, t)" "pairing_id p < next_key s" "unassignedAt p = None"
  shows "kept X s t"
proof -
  have t: "t = s\<lparr>pairing_rows := pairing_rows s @ [p]\<rparr>"
    "\<forall>q \<in> set (pairing_rows s). pairing_id q \<noteq> pairing_id p
       \<and> (current_pairing q \<longrightarrow> pairing_driver q \<noteq> pairing_driver p \<and> pairing_vehicle q \<noteq> pairing_vehicle p)"
    "\<exists>d \<in> set (driver_rows s). driver_id d = pairing_driver p \<and> driver_provider d = Some (pairing_provider p)"
    "\<exists>v \<in> set (vehicle_rows s). vehicle_id v = pairing_vehicle p \<and> vehicle_provider v = Some (pairing_provider p)"
    using assms(1) by (auto simp: insert_pairing_def any_row_iff split: if_splits)
  have "registry_ok X t" if ok: "registry_ok X s"
    unfolding registry_ok_def
  proof (intro conjI)
    have "pairings_ok (pairing_rows s @ [p]) (driver_rows s) (vehicle_rows s)"
      using ok t(2-4) assms(3) unfolding registry_ok_def pairings_ok_def by (auto simp: unique_on_append)
    then show "pairings_ok (pairing_rows t) (driver_rows t) (vehicle_rows t)" by (simp add: t)
    show "row_keys_ok t" using ok t(1) assms(2) by (auto simp: registry_ok_def row_keys_ok_def)
  qed (use ok t in \<open>simp_all add: registry_ok_def\<close>)
  moreover have "registry_grows s t" by (simp add: t(1) registry_grows_def) blast
  ultimately show ?thesis by (simp add: kept_def)
qed

lemma kept_close_pairing:
  assumes "close_pairing i now s = Inr (x, t)" "p \<in> set (pairing_rows s)" "pairing_id p = i" "current_pairing p"
  shows "kept X s t"
proof -
  let ?f = "\<lambda>p. p\<lparr>unassignedAt := Some now\<rparr>"
  let ?U = "update_rows (\<lambda>p. pairing_id p = i) ?f (pairing_rows s)"
  obtain old where old: "first_row (\<lambda>p. pairing_id p = i) (pairing_rows s) = Some old" "assignedAt old \<le> now" and t: "t = s\<lparr>pairing_rows := ?U\<rparr>"
    using assms(1) by (auto simp: close_pairing_def split: option.splits if_splits)
  have mem: "old \<in> set (pairing_rows s)" "pairing_id old = i"
    using first_row_Some [OF old(1)] by simp_all
  have "registry_ok X t \<and> registry_grows s t" if ok: "registry_ok X s"
  proof
    have d: "distinct (map pairing_id (pairing_rows s))" using ok by (simp add: registry_ok_def pairings_ok_def)
    have only: "e = old" if "e \<in> set (pairing_rows s)" "pairing_id e = i" for e
      using unique_key [OF d that(1) mem(1)] that mem by simp
    note in_U = in_update_row [OF d mem, of _ ?f]
    have ids: "map pairing_id ?U = map pairing_id (pairing_rows s)" by (rule update_keys) simp
    have u: "unique_on current_pairing g ?U" if "unique_on current_pairing g (pairing_rows s)" for g :: "pairing_row \<Rightarrow> nat"
      by (rule unique_on_update [OF d that]) simp
    have rows: "(\<exists>d \<in> set (driver_rows s). driver_id d = pairing_driver q \<and> driver_provider d = Some (pairing_provider q))
          \<and> (\<exists>v \<in> set (vehicle_rows s). vehicle_id v = pairing_vehicle q \<and> vehicle_provider v = Some (pairing_provider q))
          \<and> (case unassignedAt q of None \<Rightarrow> True | Some t \<Rightarrow> assignedAt q \<le> t)" if "q \<in> set ?U" for q
    proof (cases "q = ?f old")
      case True
      with ok mem(1) old(2) show ?thesis unfolding registry_ok_def pairings_ok_def by auto
    next
      case False
      with that in_U have "q \<in> set (pairing_rows s)" by blast
      with ok show ?thesis unfolding registry_ok_def pairings_ok_def by blast
    qed
    show "registry_ok X t"
      unfolding registry_ok_def
    proof (intro conjI)
      have "pairings_ok ?U (driver_rows s) (vehicle_rows s)"
        using ok ids u rows unfolding registry_ok_def pairings_ok_def by auto
      then show "pairings_ok (pairing_rows t) (driver_rows t) (vehicle_rows t)" by (simp add: t)
      have "pairing_id ` set ?U = pairing_id ` set (pairing_rows s)" using arg_cong [OF ids, of set] by simp
      then show "row_keys_ok t" using ok unfolding registry_ok_def row_keys_ok_def by (simp add: t)
    qed (use ok t in \<open>simp_all add: registry_ok_def\<close>)
    have "p = old" using only assms(2,3) by simp
    then have "q \<in> set ?U" if "q \<in> set (pairing_rows s)" "\<not> current_pairing q" for q
      using that only [OF that(1)] assms(4) unfolding in_U by metis
    then show "registry_grows s t" unfolding registry_grows_def t by auto
  qed
  then show ?thesis by (simp add: kept_def)
qed

lemma kept_insert_invitation:
  assumes "insert_invitation v s = Inr (x, t)" "invitation_id v < next_key s" "invitation_provider v \<in> provider_id ` set (provider_rows s)"
    and "\<exists>u \<in> set (users s). invited v u"
  shows "kept X s t"
proof -
  have t: "t = s\<lparr>invitations := invitations s @ [v]\<rparr>" "invitation_check v"
    "\<forall>w \<in> set (invitations s). invitation_id w \<noteq> invitation_id v \<and> tokenHash w \<noteq> tokenHash v
       \<and> (pending_invitation w \<and> pending_invitation v \<longrightarrow> invitation_user w \<noteq> invitation_user v)"
    using assms(1) by (auto simp: insert_invitation_def any_row_iff split: if_splits)
  have "registry_ok X t" if ok: "registry_ok X s"
    unfolding registry_ok_def
  proof (intro conjI)
    have "invitations_ok X (invitations s @ [v]) (users s) (provider_rows s)"
      using ok t(2,3) assms(3,4) unfolding registry_ok_def invitations_ok_def by (auto simp: unique_on_append)
    then show "invitations_ok X (invitations t) (users t) (provider_rows t)" by (simp add: t)
    show "row_keys_ok t" using ok t(1) assms(2) by (auto simp: registry_ok_def row_keys_ok_def)
  qed (use ok t in \<open>simp_all add: registry_ok_def\<close>)
  moreover have "registry_grows s t" by (simp add: t(1) registry_grows_def) blast
  ultimately show ?thesis by (simp add: kept_def)
qed

lemma update_invitation_Inr:
  "update_invitation i f s = Inr (x, t) \<longleftrightarrow>
     (\<exists>old. find_invitation i s = Some old \<and> user_invitation_immutable old (f old) \<and> invitation_check (f old)
        \<and> (\<forall>w \<in> set (invitations s). invitation_id w \<noteq> i \<longrightarrow> tokenHash w \<noteq> tokenHash (f old))
        \<and> x = f old \<and> t = s\<lparr>invitations := update_rows (\<lambda>v. invitation_id v = i) f (invitations s)\<rparr>)"
proof (cases "find_invitation i s")
  case (Some old)
  then show ?thesis
    by (simp add: update_invitation_def any_row_iff) metis
qed (simp add: update_invitation_def)

text \<open>An update of a pending invitation; one that resolves it ends the exemption \<open>Y\<close> of its transaction.\<close>

lemma update_invitation_ok:
  assumes "update_invitation i f s = Inr (x, t)" and keep: "\<And>v. invitation_id (f v) = invitation_id v"
    and ok: "registry_ok Y s" "fst Y = fst X" "snd Y \<subseteq> insert i (snd X)" "Y = X \<or> \<not> pending_invitation x"
  shows "registry_ok X t \<and> registry_grows s t"
proof -
  let ?U = "update_rows (\<lambda>v. invitation_id v = i) f (invitations s)"
  obtain old where old: "find_invitation i s = Some old" "user_invitation_immutable old (f old)" "invitation_check (f old)"
    "\<forall>w \<in> set (invitations s). invitation_id w \<noteq> i \<longrightarrow> tokenHash w \<noteq> tokenHash (f old)" and t: "t = s\<lparr>invitations := ?U\<rparr>" and x: "x = f old"
    using assms(1) unfolding update_invitation_Inr by blast
  have mem: "old \<in> set (invitations s)" "invitation_id old = i"
    using first_row_Some [OF old(1) [unfolded find_invitation_def]] by simp_all
  have d: "distinct (map invitation_id (invitations s))" using ok(1) by (simp add: registry_ok_def invitations_ok_def)
  have only: "e = old" if "e \<in> set (invitations s)" "invitation_id e = i" for e
    using unique_key [OF d that(1) mem(1)] that mem by simp
  note in_U = in_update_row [OF d mem, of _ f]
  have ids: "map invitation_id ?U = map invitation_id (invitations s)" by (rule update_keys) (rule keep)
  have "distinct (map tokenHash (invitations s))" using ok(1) by (simp add: registry_ok_def invitations_ok_def)
  then have "unique_on (\<lambda>_. True) tokenHash ?U"
    using only old(4) by (intro unique_on_update [OF d]) (auto simp: unique_on_def)
  then have hashes: "distinct (map tokenHash ?U)" by (simp add: unique_on_def)
  have pend: "pending_invitation old" "invitation_user (f old) = invitation_user old" "invitation_provider (f old) = invitation_provider old"
    "invited (f old) = invited old"
    using old(2) by (auto simp: user_invitation_immutable_def invited_def fun_eq_iff)
  have users: "unique_on pending_invitation invitation_user ?U"
  proof (rule unique_on_update [OF d])
    show u: "unique_on pending_invitation invitation_user (invitations s)" using ok(1) by (simp add: registry_ok_def invitations_ok_def)
    show "invitation_user q \<noteq> invitation_user (f r)"
      if "r \<in> set (invitations s)" "invitation_id r = i" "q \<in> set (invitations s)" "invitation_id q \<noteq> i" "pending_invitation q" for r q
      using only [OF that(1,2)] pend(1,2) unique_onD [OF u that(3) mem(1) that(5) pend(1)] that(4) mem(2) by auto
  qed
  have rows: "invitation_check w \<and> invitation_provider w \<in> provider_id ` set (provider_rows s)
       \<and> (pending_invitation w \<longrightarrow> invitation_id w \<in> snd X \<or> (\<exists>u \<in> set (users s). invited w u))" if "w \<in> set ?U" for w
  proof (cases "w = f old")
    case True
    have "invitation_provider old \<in> provider_id ` set (provider_rows s) \<and> (invitation_id old \<in> snd Y \<or> (\<exists>u \<in> set (users s). invited old u))"
      using ok(1) mem(1) pend(1) unfolding registry_ok_def invitations_ok_def by blast
    with True ok(4) x keep mem(2) old(3) pend show ?thesis by auto
  next
    case False
    then have w: "w \<in> set (invitations s)" "invitation_id w \<noteq> i" using that in_U by blast+
    then have "invitation_id w \<in> snd Y \<Longrightarrow> invitation_id w \<in> snd X" using ok(3) by blast
    with w(1) ok(1) show ?thesis unfolding registry_ok_def invitations_ok_def list_all_iff by blast
  qed
  have "registry_ok X t"
    unfolding registry_ok_def
  proof (intro conjI)
    have "drivers_ok Y (driver_rows s) (users s) (provider_rows s) (profile_rows s)" using ok(1) by (simp add: registry_ok_def)
    then show "drivers_ok X (driver_rows t) (users t) (provider_rows t) (profile_rows t)"
      using ok(2) unfolding drivers_ok_def driver_ok_def by (simp add: t)
    have "invitations_ok X ?U (users s) (provider_rows s)"
      using ids d hashes users rows unfolding invitations_ok_def list_all_iff by auto
    then show "invitations_ok X (invitations t) (users t) (provider_rows t)" by (simp add: t)
    have "invitation_id ` set ?U = invitation_id ` set (invitations s)" using arg_cong [OF ids, of set] by simp
    then show "row_keys_ok t" using ok unfolding registry_ok_def row_keys_ok_def by (simp add: t)
  qed (use ok t in \<open>simp_all add: registry_ok_def\<close>)
  moreover have "q \<in> set ?U" if "q \<in> set (invitations s)" "\<not> pending_invitation q" for q
    using that only [OF that(1)] pend(1) unfolding in_U by metis
  then have "registry_grows s t" unfolding registry_grows_def t by auto
  ultimately show ?thesis by blast
qed

end
