(* ===== verification/Registry_System.thy ===== *)
theory Registry_System imports Registry_Invariants begin

text \<open>
  Every operation of the registry keeps its invariant and what it promised, and therefore every history
  of operations does.
\<close>

lemma draw_Inr: "draw s = Inr (k, t) \<longleftrightarrow> k = next_key s \<and> t = s\<lparr>next_key := next_key s + 1\<rparr>"
  by (auto simp: draw_def)

lemma lookups_next_key [simp]:
  "find_user i (s\<lparr>next_key := n\<rparr>) = find_user i s" "find_provider i (s\<lparr>next_key := n\<rparr>) = find_provider i s"
  "provider_drivers i (s\<lparr>next_key := n\<rparr>) = provider_drivers i s" "provider_vehicles i (s\<lparr>next_key := n\<rparr>) = provider_vehicles i s"
  by (simp_all add: find_user_def find_provider_def provider_drivers_def provider_vehicles_def)

lemma kept_next_key: "kept X s (s\<lparr>next_key := next_key s + 1\<rparr>)"
  by (rule kept_draw [of s "next_key s"]) (simp add: draw_def)

lemma after_draw: "kept X (s\<lparr>next_key := Suc (next_key s)\<rparr>) t \<Longrightarrow> kept X s t"
  using kept_trans [OF kept_next_key] by simp

lemma find_provider_member: "find_provider i s = Some p \<Longrightarrow> p \<in> set (provider_rows s) \<and> provider_id p = i"
  unfolding find_provider_def by (drule first_row_Some) simp

lemma find_provider_key: "find_provider i s = Some p \<Longrightarrow> i \<in> provider_id ` set (provider_rows s)"
  using find_provider_member by blast

lemma find_driver_member: "find_driver i s = Some d \<Longrightarrow> d \<in> set (driver_rows s) \<and> driver_id d = i"
  unfolding find_driver_def by (drule first_row_Some) simp

lemma find_user_member: "find_user i s = Some u \<Longrightarrow> u \<in> set (users s) \<and> user_id u = i"
  unfolding find_user_def by (drule first_row_Some) simp

subsection \<open>Providers\<close>

lemma kept_provider_create: "provider_create defaults ty name code md mv s = Inr (x, t) \<Longrightarrow> kept X s t"
  unfolding provider_create_def
  by (simp add: tx_simps draw_Inr, rule after_draw, erule kept_insert_provider) simp

lemma capacity_held:
  assumes "registry_ok X s" "find_provider i s = Some p"
  shows "provider_drivers i s \<le> maxDrivers p" "provider_vehicles i s \<le> maxVehicles p"
  using assms(1) find_provider_member [OF assms(2)]
  by (auto simp: registry_ok_def capacity_ok_def provider_drivers_def provider_vehicles_def)

lemma kept_provider_update:
  assumes "provider_update i dto s = Inr (x, t)"
  shows "kept X s t"
proof -
  let ?f = "\<lambda>p. p\<lparr>provider_name := given (new_name dto) (provider_name p), provider_code := given (new_code dto) (provider_code p),
          maxDrivers := given (new_maxDrivers dto) (maxDrivers p), maxVehicles := given (new_maxVehicles dto) (maxVehicles p)\<rparr>"
  have md: "case new_maxDrivers dto of None \<Rightarrow> True | Some m \<Rightarrow> \<not> m < provider_drivers i s"
    and mv: "case new_maxVehicles dto of None \<Rightarrow> True | Some m \<Rightarrow> \<not> m < provider_vehicles i s"
    and u: "update_provider i ?f s = Inr (x, t)"
    using assms by (auto simp: provider_update_def lockProvider_def tx_simps)
  have "kept X s t" if ok: "registry_ok X s"
  proof (rule kept_update_provider [OF u])
    fix q assume q: "find_provider i s = Some q"
    show "provider_id (?f q) = i \<and> provider_drivers i s \<le> maxDrivers (?f q) \<and> provider_vehicles i s \<le> maxVehicles (?f q)
      \<and> (provider_status (?f q) = PROV_ACTIVE \<or> provider_status (?f q) = provider_status q
         \<or> (\<forall>d \<in> set (driver_rows s). driver_provider d = Some i \<longrightarrow> driver_availability d = OFFLINE))"
      using find_provider_member [OF q] md mv capacity_held [OF ok q] by (auto simp: given_def split: option.splits)
  qed
  then show ?thesis by (auto simp: kept_def)
qed

text \<open>Providers and drivers are separate tables, so the two writes of a suspension commute.\<close>

lemma update_provider_frame:
  "update_provider i f (s\<lparr>driver_rows := ds\<rparr>) =
     (case update_provider i f s of Inl e \<Rightarrow> Inl e | Inr (p, t) \<Rightarrow> Inr (p, t\<lparr>driver_rows := ds\<rparr>))"
  by (simp add: update_provider_def find_provider_def split: option.splits)

lemma kept_provider_transition:
  assumes "provider_transition i target s = Inr (x, t)" "target \<noteq> PROV_PENDING"
  shows "kept X s t"
proof (cases "find_provider i s")
  case (Some p)
  show ?thesis
  proof (cases "provider_status p = target")
    case True
    with assms Some have "t = s" by (simp add: provider_transition_def lockProvider_def tx_simps)
    then show ?thesis by (simp add: keeping.refl)
  next
    case False
    let ?f = "\<lambda>p. p\<lparr>provider_status := target\<rparr>"
    obtain s1 where w: "update_provider i ?f s = Inr (x, s1)"
      and off: "(if target = PROV_SUSPENDED then drivers_offline i else returnT ()) s1 = Inr ((), t)"
      using assms Some False by (auto simp: provider_transition_def lockProvider_def tx_simps)
    have same: "find_provider i s' = Some q \<Longrightarrow> provider_id q = i" for q s'
      using find_provider_member by blast
    show ?thesis
    proof (cases "target = PROV_SUSPENDED")
      case True
      obtain s2 where s2: "drivers_offline i s = Inr ((), s2)" by (simp add: drivers_offline_def)
      have s2_def: "s2 = s\<lparr>driver_rows := driver_rows s2\<rparr>" using s2 by (auto simp: drivers_offline_def)
      have "driver_rows s1 = driver_rows s" using w by (auto simp: update_provider_def split: option.splits if_splits)
      then have "t = s1\<lparr>driver_rows := driver_rows s2\<rparr>"
        using off True s2 by (auto simp: drivers_offline_def)
      then have w2: "update_provider i ?f s2 = Inr (x, t)"
        using w update_provider_frame [where s = s and ds = "driver_rows s2"] by (subst s2_def) simp
      have "kept X s2 t" if "registry_ok X s"
      proof (rule kept_update_provider [OF w2])
        fix q assume q: "find_provider i s2 = Some q"
        have "registry_ok X s2" using kept_drivers_offline(1) [OF s2, of X] that by (simp add: kept_def)
        then show "provider_id (?f q) = i \<and> provider_drivers i s2 \<le> maxDrivers (?f q) \<and> provider_vehicles i s2 \<le> maxVehicles (?f q)
            \<and> (provider_status (?f q) = PROV_ACTIVE \<or> provider_status (?f q) = provider_status q
               \<or> (\<forall>d \<in> set (driver_rows s2). driver_provider d = Some i \<longrightarrow> driver_availability d = OFFLINE))"
          using kept_drivers_offline(2) [OF s2 that] capacity_held [of X s2 i q] q same by auto
      qed
      then have "kept X s t" if "registry_ok X s"
        using kept_trans [OF kept_drivers_offline(1) [OF s2]] that by blast
      then show ?thesis by (auto simp: kept_def)
    next
      case False
      then have t: "t = s1" "target = PROV_ACTIVE" using off assms(2) by (auto simp: tx_simps) (cases target, auto)
      have "kept X s t" if "registry_ok X s"
        unfolding t(1) by (rule kept_update_provider [OF w]) (use t(2) capacity_held [OF that] same in auto)
      then show ?thesis by (auto simp: kept_def)
    qed
  qed
qed (use assms in \<open>simp add: provider_transition_def lockProvider_def tx_simps\<close>)

lemma users_next_key [simp]: "users (s\<lparr>next_key := n\<rparr>) = users s"
  by simp

lemma kept_member_add:
  assumes "member_add i u role s = Inr (x, t)"
  shows "kept X s t"
proof -
  obtain v p where "find_user u s = Some v" "user_active v" "user_role v = PROVIDER_ADMIN" and p: "find_provider i s = Some p"
    and w: "insert_member \<lparr>member_id = next_key s, member_provider = i, member_user = u, member_role = role\<rparr>
        (s\<lparr>next_key := Suc (next_key s)\<rparr>) = Inr (x, t)"
    using assms by (simp add: member_add_def lockProvider_def tx_simps draw_Inr) blast
  then have "has_account PROVIDER_ADMIN u (users s)" using find_user_has by metis
  show ?thesis by (rule after_draw, rule kept_insert_member [OF w]) (use \<open>has_account PROVIDER_ADMIN u (users s)\<close> find_provider_key [OF p] in auto)
qed

subsection \<open>Drivers\<close>

lemma kept_driver_create:
  assumes "driver_create i u name display s = Inr (x, t)"
  shows "kept X s t"
proof -
  obtain p v where p: "find_provider i s = Some p" "provider_drivers i s < maxDrivers p"
    and v: "find_user u s = Some v" "user_active v" "user_role v = DRIVER"
    and w: "insert_driver \<lparr>driver_id = next_key s, driver_provider = Some i, driver_user = u, driver_name = name,
          driver_displayName = display, driver_status = DRV_PENDING, driver_availability = OFFLINE\<rparr>
        (s\<lparr>next_key := Suc (next_key s)\<rparr>) = Inr (x, t)"
    using assms by (auto simp: driver_create_def lockProvider_def tx_simps draw_Inr)
  have "has_account DRIVER u (users s)" using v find_user_has by metis
  show ?thesis by (rule after_draw, rule kept_insert_driver [OF w]) (use p \<open>has_account DRIVER u (users s)\<close> in auto)
qed

lemma kept_driver_update:
  assumes "driver_update i d dto s = Inr (x, t)"
  shows "kept X s t"
proof -
  let ?changed = "\<lambda>old. new_driverStatus dto \<noteq> None \<and> new_driverStatus dto \<noteq> Some (driver_status old)"
  let ?f = "\<lambda>old x. x\<lparr>driver_name := given (new_driverName dto) (driver_name x),
       driver_displayName := given (new_displayName dto) (driver_displayName x),
       driver_status := given (new_driverStatus dto) (driver_status x),
       driver_availability := (if ?changed old \<and> new_driverStatus dto \<noteq> Some DRV_ACTIVE \<and> driver_availability old \<noteq> OFFLINE
          then OFFLINE else driver_availability x)\<rparr>"
  obtain old where old: "find_provider_driver i d s = Some old" and w: "update_driver d (?f old) s = Inr (x, t)"
    using assms by (auto simp: driver_update_def tx_simps Let_def)
  have "kept X s t" if ok: "registry_ok X s"
  proof (rule kept_update_driver [OF w])
    fix e assume "find_driver d s = Some e"
    then have e: "e \<in> set (driver_rows s)" "driver_id e = d" using find_driver_member by auto
    have o: "old \<in> set (driver_rows s)" "driver_id old = d"
      using old unfolding find_provider_driver_def by (auto dest: first_row_Some)
    have "e = old" using ok e o unique_key [of driver_id "driver_rows s" e old] by (simp add: registry_ok_def drivers_ok_def)
    moreover have "driver_availability old \<noteq> OFFLINE \<longrightarrow> may_work old (provider_rows s)"
      using ok o(1) by (simp add: registry_ok_def drivers_ok_def driver_ok_def)
    ultimately show "driver_id (?f old e) = d \<and> driver_user (?f old e) = driver_user e
       \<and> (driver_availability (?f old e) \<noteq> OFFLINE \<longrightarrow> may_work e (provider_rows s) \<longrightarrow> may_work (?f old e) (provider_rows s))
       \<and> (driver_availability (?f old e) \<noteq> OFFLINE \<longrightarrow> driver_availability e = OFFLINE \<longrightarrow> may_work (?f old e) (provider_rows s))"
      using e(2) by (auto simp: may_work_def given_def split: option.splits if_splits)
  qed
  then show ?thesis by (auto simp: kept_def)
qed

lemma own_provider_Inr:
  "(case o1 of None \<Rightarrow> returnT None | Some i \<Rightarrow> bindT (lockProvider i) (\<lambda>p. returnT (Some p))) s = Inr (p, t) \<longleftrightarrow>
     t = s \<and> (case o1 of None \<Rightarrow> p = None | Some i \<Rightarrow> p \<noteq> None \<and> find_provider i s = p)"
  by (cases o1) (auto simp: lockProvider_def tx_simps)

lemma set_availability_Inr:
  "(if b then returnT () else bindT m (\<lambda>_. returnT ())) s = Inr (x, t) \<longleftrightarrow> (if b then t = s else \<exists>y. m s = Inr (y, t))"
  by (auto simp: tx_simps)

lemma kept_setOwnAvailability:
  assumes "setOwnAvailability u target s = Inr (x, t)"
  shows "kept X s t"
proof -
  obtain d p where d: "find_driver_of_user u s = Some d"
    and p: "case driver_provider d of None \<Rightarrow> p = None | Some i \<Rightarrow> p \<noteq> None \<and> find_provider i s = p"
    and st: "target = OFFLINE \<or> (\<forall>e. find_driver (driver_id d) s = Some e \<longrightarrow> driver_status e = DRV_ACTIVE)"
    and act: "target = OFFLINE \<or> (case p of None \<Rightarrow> True | Some p \<Rightarrow> provider_status p = PROV_ACTIVE)"
    and w: "t = s \<or> (\<exists>y. update_driver (driver_id d) (\<lambda>d. d\<lparr>driver_availability := target\<rparr>) s = Inr (y, t))"
    using assms by (simp add: setOwnAvailability_def own_provider_Inr set_availability_Inr tx_simps) (metis option.inject)
  show ?thesis
  proof (cases "t = s")
    case True
    then show ?thesis by (simp add: keeping.refl)
  next
    case False
    then obtain y where w: "update_driver (driver_id d) (\<lambda>d. d\<lparr>driver_availability := target\<rparr>) s = Inr (y, t)" using w by blast
    have "kept X s t" if ok: "registry_ok X s"
    proof (rule kept_update_driver [OF w])
      fix e assume f: "find_driver (driver_id d) s = Some e"
      then have e: "e \<in> set (driver_rows s)" "driver_id e = driver_id d" using find_driver_member by auto
      have "d \<in> set (driver_rows s)" using d unfolding find_driver_of_user_def by (auto dest: first_row_Some)
      then have "e = d" using ok e unique_key [of driver_id "driver_rows s" e d] by (simp add: registry_ok_def drivers_ok_def)
      have "\<exists>q \<in> set (provider_rows s). provider_id q = i \<and> provider_status q = PROV_ACTIVE"
        if i: "driver_provider e = Some i" "target \<noteq> OFFLINE" for i
      proof -
        obtain q where "p = Some q" "find_provider i s = Some q"
          using p i(1) unfolding \<open>e = d\<close> by auto
        then show ?thesis using act i(2) find_provider_member by fastforce
      qed
      then have "may_work (e\<lparr>driver_availability := target\<rparr>) (provider_rows s)" if "target \<noteq> OFFLINE"
        using st f that by (auto simp: may_work_def)
      then show "driver_id (e\<lparr>driver_availability := target\<rparr>) = driver_id d \<and> driver_user (e\<lparr>driver_availability := target\<rparr>) = driver_user e
       \<and> (driver_availability (e\<lparr>driver_availability := target\<rparr>) \<noteq> OFFLINE \<longrightarrow> may_work e (provider_rows s) \<longrightarrow> may_work (e\<lparr>driver_availability := target\<rparr>) (provider_rows s))
       \<and> (driver_availability (e\<lparr>driver_availability := target\<rparr>) \<noteq> OFFLINE \<longrightarrow> driver_availability e = OFFLINE \<longrightarrow> may_work (e\<lparr>driver_availability := target\<rparr>) (provider_rows s))"
        using e(2) by simp
    qed
    then show ?thesis by (auto simp: kept_def)
  qed
qed

subsection \<open>Vehicles and pairings\<close>

lemma kept_vehicle_create:
  assumes "vehicle_create i identifier ty dto s = Inr (x, t)"
  shows "kept X s t"
proof -
  obtain p where p: "find_provider i s = Some p" "provider_vehicles i s < maxVehicles p"
    and w: "insert_vehicle (new_vehicle (next_key s) (Some i) None identifier ty (given (dto_status dto) VEH_ACTIVE) False dto)
        (s\<lparr>next_key := Suc (next_key s)\<rparr>) = Inr (x, t)"
    using assms by (auto simp: vehicle_create_def lockProvider_def tx_simps draw_Inr)
  show ?thesis by (rule after_draw, rule kept_insert_vehicle [OF w]) (use p in \<open>auto simp: new_vehicle_def\<close>)
qed

lemma kept_vehicle_update:
  assumes "vehicle_update i v dto s = Inr (x, t)"
  shows "kept X s t"
proof -
  have w: "update_vehicle_row (dto_status dto \<noteq> None) v (apply_vehicle_dto dto) s = Inr (x, t)"
    using assms by (auto simp: vehicle_update_def tx_simps)
  show ?thesis by (rule kept_update_vehicle [OF w]) (simp add: apply_vehicle_dto_def)
qed

lemma documentary_Inr: "documentary e f s = Inr (u, t) \<longleftrightarrow> f s = None \<and> t = s"
  by (auto simp: documentary_def split: option.splits)

lemma kept_pair_vehicle:
  assumes "pair_vehicle eligible i d v now s = Inr (x, t)"
  shows "kept X s t"
proof -
  have w: "insert_pairing \<lparr>pairing_id = next_key s, pairing_provider = i, pairing_driver = d, pairing_vehicle = v, assignedAt = now,
      unassignedAt = None\<rparr> (s\<lparr>next_key := Suc (next_key s)\<rparr>) = Inr (x, t)"
    using assms by (auto simp: pair_vehicle_def lockProvider_def assertNoDeliveryAssignment_def documentary_Inr tx_simps draw_Inr)
  show ?thesis by (rule after_draw, rule kept_insert_pairing [OF w]) simp_all
qed

lemma kept_unpair_vehicle:
  assumes "unpair_vehicle i d now s = Inr (x, t)"
  shows "kept X s t"
proof -
  obtain p where p: "first_row (\<lambda>p. pairing_driver p = d \<and> current_pairing p) (pairing_rows s) = Some p"
    and w: "close_pairing (pairing_id p) (if now < assignedAt p then assignedAt p else now) s = Inr (x, t)"
    using assms by (auto simp: unpair_vehicle_def assertNoDeliveryAssignment_def tx_simps)
  show ?thesis by (rule kept_close_pairing [OF w]) (use first_row_Some [OF p] in auto)
qed

subsection \<open>Independent profiles\<close>

lemma kept_drawn_profile:
  "insert_profile p (s\<lparr>next_key := Suc (next_key s)\<rparr>) = Inr (x, t) \<Longrightarrow> profile_id p = next_key s
     \<Longrightarrow> profile_driver p \<in> driver_id ` set (driver_rows s) \<Longrightarrow> kept X s t"
  by (rule after_draw, erule kept_insert_profile) simp_all

lemma kept_independent_approve:
  assumes "independent_approve d reason actor now s = Inr (x, t)"
  shows "kept X s t"
proof -
  have "t = s \<or> (\<exists>i f. update_profile i f s = Inr (x, t) \<and> (\<forall>p. profile_id (f p) = profile_id p))
      \<or> (\<exists>p. insert_profile p (s\<lparr>next_key := Suc (next_key s)\<rparr>) = Inr (x, t) \<and> profile_id p = next_key s
           \<and> profile_driver p \<in> driver_id ` set (driver_rows s))"
  proof (cases "find_profile_of d s")
    case None
    with assms show ?thesis
      by (auto simp: independent_approve_def eligibleDriver_def Let_def tx_simps draw_Inr dest!: find_driver_member)
  next
    case (Some p)
    show ?thesis
    proof (cases "profile_status p = APPROVED")
      case True
      with assms Some show ?thesis by (auto simp: independent_approve_def eligibleDriver_def Let_def tx_simps)
    next
      case False
      with assms Some have "update_profile (profile_id p) (\<lambda>p. p\<lparr>profile_status := APPROVED, profile_approved := Some (now, actor),
          profile_suspended := None, profile_rejected := None, profile_reason := reason\<rparr>) s = Inr (x, t)"
        by (auto simp: independent_approve_def eligibleDriver_def Let_def tx_simps)
      then show ?thesis by (intro disjI2 disjI1 exI conjI) auto
    qed
  qed
  then show ?thesis
    by (elim disjE exE conjE) (auto intro: kept_drawn_profile kept_update_profile simp: keeping.refl)
qed

lemma kept_independent_close:
  assumes "independent_close d st reason actor now s = Inr (x, t)"
  shows "kept X s t"
proof -
  let ?f = "\<lambda>p. if st = SUSPENDED
              then p\<lparr>profile_status := st, profile_suspended := Some (now, actor), profile_reason := Some reason\<rparr>
              else p\<lparr>profile_status := st, profile_rejected := Some (now, actor), profile_reason := Some reason\<rparr>"
  have "t = s \<or> (\<exists>i. update_profile i ?f s = Inr (x, t))"
    using assms unfolding independent_close_def lockProfile_def by (auto simp: tx_simps split: if_split_asm)
  then show ?thesis
    by (elim disjE exE) (auto intro: kept_update_profile [where f = ?f] simp: keeping.refl)
qed

lemma kept_independent_createVehicle:
  assumes "independent_createVehicle mx d identifier ty dto s = Inr (x, t)"
  shows "kept X s t"
proof -
  obtain p where p: "find_profile_of d s = Some p"
    and w: "insert_vehicle (new_vehicle (next_key s) None (Some (profile_id p)) identifier ty VEH_ACTIVE False dto)
        (s\<lparr>next_key := Suc (next_key s)\<rparr>) = Inr (x, t)"
    using assms by (auto simp: independent_createVehicle_def lockProfile_def tx_simps draw_Inr)
  have "p \<in> set (profile_rows s)" using p unfolding find_profile_of_def by (auto dest: first_row_Some)
  then show ?thesis by (intro after_draw [OF kept_insert_vehicle [OF w]]) (auto simp: new_vehicle_def)
qed

lemma kept_independent_updateVehicle:
  assumes "independent_updateVehicle d v dto s = Inr (x, t)"
  shows "kept X s t"
proof -
  have w: "update_vehicle_row (dto_status dto \<noteq> None) v (apply_vehicle_dto dto) s = Inr (x, t)"
    using assms by (auto simp: independent_updateVehicle_def lockProfile_def tx_simps)
  show ?thesis by (rule kept_update_vehicle [OF w]) (simp add: apply_vehicle_dto_def)
qed

subsection \<open>Invitations\<close>

lemma update_user_Inr:
  "update_user i f s = Inr (x, t) \<longleftrightarrow>
     (\<exists>old. find_user i s = Some old \<and> user_check (f old)
        \<and> (\<forall>v \<in> set (users s). user_id v \<noteq> i \<longrightarrow> user_email v \<noteq> user_email (f old))
        \<and> x = f old \<and> t = s\<lparr>users := update_rows (\<lambda>u. user_id u = i) f (users s)\<rparr>)"
proof (cases "find_user i s")
  case (Some old)
  then show ?thesis by (simp add: update_user_def any_row_iff) metis
qed (simp add: update_user_def)

lemma updated_user:
  assumes "update_user i f s = Inr (x, t)"
  shows "x \<in> set (users t)"
  using assms find_user_member unfolding update_user_Inr by (fastforce simp: in_update_key)

text \<open>The account an invitation is for: new, or one that was invited before and has no password.\<close>

lemma invited_account_steps:
  assumes "invited_account input s = Inr (u, t)" and ok: "registry_ok X s"
  shows "kept X s t" "\<exists>v \<in> set (users t). user_id v = u \<and> user_email v = invite_email input \<and> user_role v = invite_role input
      \<and> \<not> user_active v \<and> user_password v = None" "provider_rows t = provider_rows s"
proof -
  have "kept X s t \<and> (\<exists>v \<in> set (users t). user_id v = u \<and> user_email v = invite_email input \<and> user_role v = invite_role input
      \<and> \<not> user_active v \<and> user_password v = None) \<and> provider_rows t = provider_rows s"
  proof (cases "find_email (invite_email input) s")
    case None
    let ?u = "\<lparr>user_id = next_key s, user_email = invite_email input, user_password = None, user_role = invite_role input,
           user_active = False, user_verifiedAt = None\<rparr>"
    have w: "insert_user ?u (s\<lparr>next_key := Suc (next_key s)\<rparr>) = Inr ((), t)" "u = next_key s"
      using assms None by (auto simp: invited_account_def tx_simps draw_Inr)
    have "kept X s t" by (rule after_draw, rule kept_insert_user [OF w(1)]) simp
    moreover have "t = s\<lparr>next_key := Suc (next_key s), users := users s @ [?u]\<rparr>"
      using w(1) by (auto simp: insert_user_def split: if_splits)
    ultimately show ?thesis using w(2) by simp
  next
    case (Some e)
    let ?f = "\<lambda>v. v\<lparr>user_role := invite_role input\<rparr>"
    have e: "e \<in> set (users s)" "user_email e = invite_email input"
      using Some unfolding find_email_def by (auto dest: first_row_Some)
    obtain y where c: "\<not> user_active e" "user_password e = None" "u = user_id e"
      "\<forall>i \<in> set (invitations s). invitation_user i = user_id e \<longrightarrow> \<not> pending_invitation i"
      and w: "update_user (user_id e) ?f s = Inr (y, t)"
      using assms Some by (auto simp: invited_account_def tx_simps any_row_iff)
    obtain old where old: "find_user (user_id e) s = Some old" "y = ?f old" "t = s\<lparr>users := update_rows (\<lambda>u. user_id u = user_id e) ?f (users s)\<rparr>"
      using w unfolding update_user_Inr by blast
    have same: "v = e" if "find_user (user_id e) s = Some v" for v
      using find_user_member [OF that] e(1) ok unique_key [of user_id "users s" v e] by (simp add: registry_ok_def users_ok_def)
    have "kept X s t"
      by (rule kept_update_user [OF w]) (use same c in \<open>auto simp: invited_def\<close>)
    moreover have "y \<in> set (users t)" by (rule updated_user [OF w])
    ultimately show ?thesis
      using old same c e by (intro conjI bexI [of _ y]) auto
  qed
  then show "kept X s t" "\<exists>v \<in> set (users t). user_id v = u \<and> user_email v = invite_email input \<and> user_role v = invite_role input
      \<and> \<not> user_active v \<and> user_password v = None" "provider_rows t = provider_rows s" by blast+
qed

lemma kept_invite:
  assumes "invite cfg p input actor hash now s = Inr (x, t)"
  shows "kept X s t"
proof -
  let ?v = "\<lambda>u s1 :: 'a registry_scheme. \<lparr>invitation_id = next_key s1, invitation_user = u, invitation_email = invite_email input, invitation_role = invite_role input,
           invitation_provider = p, membershipRole = invite_membershipRole input, driverName = invite_driverName input,
           tokenHash = hash, invitation_status = INV_PENDING, invitation_expiresAt = invitationExpiry now (ttlHours cfg),
           tokenIssuedAt = now, resendCount = 0, invitation_acceptedAt = None, invitation_revoked = None, invitation_createdBy = fst actor\<rparr>"
  obtain q u s1 where q: "find_provider p s = Some q" and a: "invited_account input s = Inr (u, s1)"
    and w: "insert_invitation (?v u s1) (s1\<lparr>next_key := Suc (next_key s1)\<rparr>) = Inr (x, t)"
    using assms by (auto simp: invite_def lockProvider_def assertDriverSeat_def tx_simps draw_Inr split: if_split_asm)
  have "kept X s t" if ok: "registry_ok X s"
  proof (rule kept_trans [OF invited_account_steps(1) [OF a ok]])
    show "kept X s1 t"
      by (rule after_draw, rule kept_insert_invitation [OF w])
        (use invited_account_steps(2,3) [OF a ok] find_provider_member [OF q] in \<open>auto simp: invited_def\<close>)
  qed
  then show ?thesis by (auto simp: kept_def)
qed

lemma kept_update_invitation:
  assumes "update_invitation i f s = Inr (x, t)" "\<And>v. invitation_id (f v) = invitation_id v"
  shows "kept X s t"
  using update_invitation_ok [OF assms, where X = X and Y = X] by (auto simp: kept_def)

lemma kept_resend:
  assumes "resend cfg i sc hash now s = Inr (x, t)"
  shows "kept X s t"
proof -
  have w: "update_invitation i (\<lambda>v. v\<lparr>tokenHash := hash, tokenIssuedAt := now, invitation_expiresAt := invitationExpiry now (ttlHours cfg),
       resendCount := resendCount v + 1\<rparr>) s = Inr (x, t)"
    using assms by (auto simp: resend_def findInScope_def lockInvitation_def lockProvider_def assertDriverSeat_def tx_simps
        split: if_split_asm option.split_asm)
  show ?thesis by (rule kept_update_invitation [OF w]) simp
qed

lemma kept_revoke:
  assumes "revoke i sc actor now s = Inr (x, t)"
  shows "kept X s t"
proof -
  have "t = s \<or> update_invitation i (\<lambda>v. v\<lparr>invitation_status := INV_REVOKED, invitation_revoked := Some (now, actor)\<rparr>) s = Inr (x, t)"
    using assms by (auto simp: revoke_def findInScope_def lockInvitation_def tx_simps split: if_split_asm)
  then show ?thesis by (auto intro: kept_update_invitation simp: keeping.refl)
qed

subsection \<open>Activation\<close>

lemma registry_ok_weaken: "registry_ok X s \<Longrightarrow> registry_ok (fst X, insert i (snd X)) s"
  unfolding registry_ok_def drivers_ok_def driver_ok_def invitations_ok_def by auto

lemma activatable_Inr: "activatable v now s = Inr (w, t) \<longleftrightarrow> v = Some w \<and> effectiveInvitationStatus w now = EFF_PENDING \<and> t = s"
  by (cases v) (auto simp: activatable_def assertActivatable_def tx_simps split: effective_invitation.splits)

lemma effective_pending: "effectiveInvitationStatus v now = EFF_PENDING \<longleftrightarrow> pending_invitation v \<and> now < invitation_expiresAt v"
  by (cases "invitation_status v") (auto simp: effectiveInvitationStatus_def)

text \<open>What the new account gets: a membership or a driver.\<close>

definition grant_member :: "invitation_row \<Rightarrow> ('x, unit) rtx" where
  "grant_member v =
     (if invitation_role v = PROVIDER_ADMIN then
        bindT draw (\<lambda>k.
        bindT (insert_member \<lparr>member_id = k, member_provider = invitation_provider v, member_user = invitation_user v,
          member_role = the (membershipRole v)\<rparr>) (\<lambda>_. returnT ()))
      else returnT ())"

definition grant_driver :: "invitation_row \<Rightarrow> ('x, unit) rtx" where
  "grant_driver v =
     (if invitation_role v = DRIVER then
        bindT draw (\<lambda>k.
        bindT (insert_driver \<lparr>driver_id = k, driver_provider = Some (invitation_provider v), driver_user = invitation_user v,
          driver_name = the (driverName v), driver_displayName = None, driver_status = DRV_PENDING, driver_availability = OFFLINE\<rparr>)
          (\<lambda>_. returnT ()))
      else returnT ())"

lemma kept_grant_member:
  assumes "grant_member v s = Inr (x, t)" "has_account (invitation_role v) (invitation_user v) (users s)"
    and "invitation_provider v \<in> provider_id ` set (provider_rows s)"
  shows "kept X s t"
proof (cases "invitation_role v = PROVIDER_ADMIN")
  case True
  obtain y where w: "insert_member \<lparr>member_id = next_key s, member_provider = invitation_provider v, member_user = invitation_user v,
          member_role = the (membershipRole v)\<rparr> (s\<lparr>next_key := Suc (next_key s)\<rparr>) = Inr (y, t)"
    using assms(1) True by (auto simp: grant_member_def tx_simps draw_Inr)
  show ?thesis by (rule after_draw, rule kept_insert_member [OF w]) (use assms(2,3) True in auto)
qed (use assms in \<open>simp add: grant_member_def tx_simps keeping.refl\<close>)

lemma kept_grant_driver:
  assumes "grant_driver v s = Inr (x, t)" "has_account (invitation_role v) (invitation_user v) (users s)"
    and "invitation_role v = DRIVER \<Longrightarrow> \<exists>p. find_provider (invitation_provider v) s = Some p \<and> provider_drivers (invitation_provider v) s < maxDrivers p"
  shows "kept X s t"
proof (cases "invitation_role v = DRIVER")
  case True
  obtain y where w: "insert_driver \<lparr>driver_id = next_key s, driver_provider = Some (invitation_provider v), driver_user = invitation_user v,
          driver_name = the (driverName v), driver_displayName = None, driver_status = DRV_PENDING, driver_availability = OFFLINE\<rparr>
          (s\<lparr>next_key := Suc (next_key s)\<rparr>) = Inr (y, t)"
    using assms(1) True by (auto simp: grant_driver_def tx_simps draw_Inr)
  show ?thesis by (rule after_draw, rule kept_insert_driver [OF w]) (use assms(2,3) True in auto)
qed (use assms in \<open>simp add: grant_driver_def tx_simps keeping.refl\<close>)

abbreviation activated :: "invitation_row \<Rightarrow> string \<Rightarrow> instant \<Rightarrow> user_row \<Rightarrow> user_row" where
  "activated v password now u \<equiv> u\<lparr>user_active := True, user_password := Some password, user_role := invitation_role v, user_verifiedAt := Some now\<rparr>"

abbreviation accepted :: "instant \<Rightarrow> invitation_row \<Rightarrow> invitation_row" where
  "accepted now v \<equiv> v\<lparr>invitation_status := INV_ACCEPTED, invitation_acceptedAt := Some now\<rparr>"

text \<open>The transaction of an activation, read as its checks and its four writes.\<close>

lemma activate_invitation_Inr:
  "activate_invitation hash password checked now i s = Inr (x, t) \<longleftrightarrow>
     (\<exists>v u s1 s2 s3 y.
        find_invitation i s = Some v \<and> tokenHash v = hash \<and> pending_invitation v \<and> checked < invitation_expiresAt v
        \<and> find_user (invitation_user v) s = Some u \<and> \<not> user_active u \<and> user_password u = None
        \<and> (invitation_role v = DRIVER \<longrightarrow> (\<exists>p. find_provider (invitation_provider v) s = Some p
             \<and> provider_drivers (provider_id p) s < maxDrivers p))
        \<and> update_user (invitation_user v) (activated v password now) s = Inr (x, s1)
        \<and> grant_member v s1 = Inr ((), s2) \<and> grant_driver v s2 = Inr ((), s3)
        \<and> update_invitation i (accepted now) s3 = Inr (y, t))"
proof -
  have own: "(if r = DRIVER then bindT (lockProvider j) (\<lambda>p. returnT (Some p)) else returnT None) s = Inr (q, s') \<longleftrightarrow>
      q = (if r = DRIVER then find_provider j s else None) \<and> (r = DRIVER \<longrightarrow> find_provider j s \<noteq> None) \<and> s' = s" for r j q s' and s :: "'a registry_scheme"
    by (auto simp: lockProvider_def tx_simps)
  have seat: "(case q of None \<Rightarrow> returnT () | Some p \<Rightarrow> bindT (readT (provider_drivers (provider_id p)))
        (\<lambda>n. guardT (\<not> n \<ge> maxDrivers p) (Invitation PROVIDER_DRIVER_LIMIT_REACHED))) s = Inr (z, s') \<longleftrightarrow>
      s' = s \<and> (case q of None \<Rightarrow> True | Some p \<Rightarrow> provider_drivers (provider_id p) s < maxDrivers p)" for q z s' and s :: "'a registry_scheme"
    by (auto simp: tx_simps not_le split: option.splits)
  have account: "(case o1 of None \<Rightarrow> False | Some u \<Rightarrow> \<not> user_active u \<and> user_password u = None) \<longleftrightarrow>
      (\<exists>u. o1 = Some u \<and> \<not> user_active u \<and> user_password u = None)" for o1
    by (cases o1) auto
  have same: "(if tokenHash v = hash then Some v else None) = Some w \<longleftrightarrow> tokenHash v = hash \<and> w = v" for v w
    by auto
  have left: "activate_invitation hash password checked now i s = Inr (x, t) \<longleftrightarrow>
      (\<exists>v. find_invitation i s = Some v \<and> (invitation_role v = DRIVER \<longrightarrow> find_provider (invitation_provider v) s \<noteq> None)
        \<and> tokenHash v = hash \<and> pending_invitation v \<and> checked < invitation_expiresAt v
        \<and> (\<exists>u. find_user (invitation_user v) s = Some u \<and> \<not> user_active u \<and> user_password u = None)
        \<and> (case if invitation_role v = DRIVER then find_provider (invitation_provider v) s else None of None \<Rightarrow> True
           | Some p \<Rightarrow> provider_drivers (provider_id p) s < maxDrivers p)
        \<and> (\<exists>s1. update_user (invitation_user v) (activated v password now) s = Inr (x, s1)
            \<and> (\<exists>s2. grant_member v s1 = Inr ((), s2) \<and> (\<exists>s3. grant_driver v s2 = Inr ((), s3)
              \<and> (\<exists>y. update_invitation i (accepted now) s3 = Inr (y, t))))))"
    unfolding activate_invitation_def grant_member_def [symmetric] grant_driver_def [symmetric] lockInvitation_def
      bindT_Inr own seat activatable_Inr account same effective_pending
    by (cases "find_invitation i s", simp_all add: tx_simps cong: conj_cong) (intro conjI impI conj_cong refl; blast)
  show ?thesis
    unfolding left by (rule iffI; elim exE conjE; cases "find_provider (invitation_provider v) s") (auto split: if_split_asm)
qed

lemma find_invitation_member: "find_invitation i s = Some v \<Longrightarrow> v \<in> set (invitations s) \<and> invitation_id v = i"
  unfolding find_invitation_def by (drule first_row_Some) simp

lemma grant_member_frame:
  "grant_member v s = Inr (x, t) \<Longrightarrow> users t = users s \<and> provider_rows t = provider_rows s \<and> driver_rows t = driver_rows s"
  by (auto simp: grant_member_def tx_simps draw_Inr insert_member_def split: if_split_asm)

lemma kept_activated_account:
  assumes "update_user (invitation_user v) (activated v password now) s = Inr (x, t)" "find_invitation i s = Some v" "pending_invitation v"
    and "find_user (invitation_user v) s = Some u" "\<not> user_active u" and ok: "registry_ok X s"
  shows "kept (fst X, insert i (snd X)) s t"
proof (rule kept_update_user [OF assms(1)])
  note v_in = find_invitation_member [OF assms(2)] and u_in = find_user_member [OF assms(4)]
  show "user_id (activated v password now e) = invitation_user v \<and> user_email (activated v password now e) = user_email e
      \<and> (user_active e \<longrightarrow> user_active (activated v password now e) \<and> user_role (activated v password now e) = user_role e
        \<and> user_password (activated v password now e) = user_password e)" if "find_user (invitation_user v) s = Some e" for e
    using that assms(4,5) u_in by auto
  fix e z assume "find_user (invitation_user v) s = Some e"
    and z: "z \<in> set (invitations s)" "pending_invitation z" "invitation_id z \<notin> snd (fst X, insert i (snd X))" "invited z e"
  then have "invitation_user z = invitation_user v" using assms(4) u_in by (simp add: invited_def)
  moreover have "unique_on pending_invitation invitation_user (invitations s)" using ok by (simp add: registry_ok_def invitations_ok_def)
  ultimately have "z = v"
    using unique_onD [of pending_invitation invitation_user "invitations s" z v] z(1,2) v_in assms(3) by simp
  with z(3) v_in show "invited z (activated v password now e)" by simp
qed

lemma kept_activate_invitation:
  assumes "activate_invitation hash password checked now i s = Inr (x, t)"
  shows "kept X s t"
proof -
  obtain v u s1 s2 s3 y where v: "find_invitation i s = Some v" "pending_invitation v"
    and u: "find_user (invitation_user v) s = Some u" "\<not> user_active u"
    and seat: "invitation_role v = DRIVER \<longrightarrow> (\<exists>p. find_provider (invitation_provider v) s = Some p \<and> provider_drivers (provider_id p) s < maxDrivers p)"
    and w: "update_user (invitation_user v) (activated v password now) s = Inr (x, s1)"
      "grant_member v s1 = Inr ((), s2)" "grant_driver v s2 = Inr ((), s3)" "update_invitation i (accepted now) s3 = Inr (y, t)"
    using assms unfolding activate_invitation_Inr by blast
  let ?Y = "(fst X, insert i (snd X))"
  note v_in = find_invitation_member [OF v(1)] and u_in = find_user_member [OF u(1)]
  have s1: "provider_rows s1 = provider_rows s \<and> driver_rows s1 = driver_rows s" "x = activated v password now u" using w(1) u(1) unfolding update_user_Inr by auto
  have acc: "has_account (invitation_role v) (invitation_user v) (users s1)"
    using updated_user [OF w(1)] s1(2) u_in unfolding has_account_def by (intro bexI [of _ x]) simp_all
  have "registry_ok X t \<and> registry_grows s t" if ok: "registry_ok X s"
  proof -
    have okY: "registry_ok ?Y s" by (rule registry_ok_weaken [OF ok])
    have "kept ?Y s s1" by (rule kept_activated_account [OF w(1) v u ok])
    moreover have "invitation_provider v \<in> provider_id ` set (provider_rows s1)"
      using ok v_in s1(1) unfolding registry_ok_def invitations_ok_def by metis
    then have "kept ?Y s1 s2" by (rule kept_grant_member [OF w(2) acc])
    moreover have "kept ?Y s2 s3"
    proof (rule kept_grant_driver [OF w(3)])
      show "has_account (invitation_role v) (invitation_user v) (users s2)" using acc grant_member_frame [OF w(2)] by simp
      assume "invitation_role v = DRIVER"
      then obtain p where p: "find_provider (invitation_provider v) s = Some p" "provider_drivers (provider_id p) s < maxDrivers p"
        using seat by blast
      have "provider_rows s2 = provider_rows s" "driver_rows s2 = driver_rows s"
        using grant_member_frame [OF w(2)] s1(1) by simp_all
      then show "\<exists>p. find_provider (invitation_provider v) s2 = Some p \<and> provider_drivers (invitation_provider v) s2 < maxDrivers p"
        using p find_provider_member [OF p(1)] by (simp add: find_provider_def provider_drivers_def)
    qed
    ultimately have "registry_ok ?Y s3" "registry_grows s s3"
      using okY registry_grows_trans unfolding kept_def by blast+
    moreover have "\<not> pending_invitation y" using w(4) unfolding update_invitation_Inr by auto
    ultimately show ?thesis
      using update_invitation_ok [OF w(4), of ?Y X] registry_grows_trans by (auto simp: subset_insertI)
  qed
  then show ?thesis by (simp add: kept_def)
qed

lemma activate_find_Inr:
  "activate_find hash now s = Inr (i, t) \<longleftrightarrow>
     (\<exists>v. first_row (\<lambda>v. tokenHash v = hash) (invitations s) = Some v \<and> pending_invitation v \<and> now < invitation_expiresAt v
        \<and> i = invitation_id v \<and> t = s)"
  by (auto simp: activate_find_def activatable_Inr effective_pending tx_simps)

lemma kept_activate: "activate hash password found checked now s = Inr (x, t) \<Longrightarrow> kept X s t"
  by (auto simp: activate_def activate_find_Inr tx_simps intro: kept_activate_invitation)

subsection \<open>Histories\<close>

text \<open>
  The deliveries of the dispatch side come and go; every other step is one successful transaction. A
  failed one changes nothing.
\<close>

inductive registry_step :: "'x registry_scheme \<Rightarrow> 'x registry_scheme \<Rightarrow> bool" where
  "provider_create defaults ty name code md mv s = Inr (p, t) \<Longrightarrow> registry_step s t"
| "provider_update i pdto s = Inr (p, t) \<Longrightarrow> registry_step s t"
| "provider_activate i s = Inr (p, t) \<Longrightarrow> registry_step s t"
| "provider_suspend i s = Inr (p, t) \<Longrightarrow> registry_step s t"
| "member_add i u role s = Inr (m, t) \<Longrightarrow> registry_step s t"
| "member_remove i k s = Inr (x, t) \<Longrightarrow> registry_step s t"
| "driver_create i u name display s = Inr (d, t) \<Longrightarrow> registry_step s t"
| "driver_update i k ddto s = Inr (d, t) \<Longrightarrow> registry_step s t"
| "setOwnAvailability u target s = Inr (x, t) \<Longrightarrow> registry_step s t"
| "vehicle_create i identifier vt vdto s = Inr (v, t) \<Longrightarrow> registry_step s t"
| "vehicle_update i k vdto s = Inr (v, t) \<Longrightarrow> registry_step s t"
| "pair_vehicle eligible i k j now s = Inr (q, t) \<Longrightarrow> registry_step s t"
| "unpair_vehicle i k now s = Inr (q, t) \<Longrightarrow> registry_step s t"
| "independent_approve k reason actor now s = Inr (f, t) \<Longrightarrow> registry_step s t"
| "independent_suspend k why actor now s = Inr (f, t) \<Longrightarrow> registry_step s t"
| "independent_reject k why actor now s = Inr (f, t) \<Longrightarrow> registry_step s t"
| "independent_createVehicle mx k identifier vt vdto s = Inr (v, t) \<Longrightarrow> registry_step s t"
| "independent_updateVehicle k j vdto s = Inr (v, t) \<Longrightarrow> registry_step s t"
| "invite cfg i input by_user hash now s = Inr (n, t) \<Longrightarrow> registry_step s t"
| "resend cfg i sc hash now s = Inr (n, t) \<Longrightarrow> registry_step s t"
| "revoke i sc actor now s = Inr (n, t) \<Longrightarrow> registry_step s t"
| "activate hash password found checked now s = Inr (w, t) \<Longrightarrow> registry_step s t"
| "registry_step s (s\<lparr>deliveries := ds\<rparr>)"

lemma kept_deliveries: "kept X s (s\<lparr>deliveries := ds\<rparr>)"
  by (auto simp: kept_def registry_ok_def row_keys_ok_def registry_grows_def)

lemmas kept_operations =
  kept_provider_create kept_provider_update kept_member_add kept_member_remove kept_driver_create kept_driver_update
  kept_setOwnAvailability kept_vehicle_create kept_vehicle_update kept_pair_vehicle kept_unpair_vehicle
  kept_independent_approve kept_independent_close kept_independent_createVehicle kept_independent_updateVehicle
  kept_invite kept_resend kept_revoke kept_activate kept_deliveries

lemma kept_step: "registry_step s t \<Longrightarrow> kept X s t"
  by (induction rule: registry_step.induct)
    (auto simp: provider_activate_def provider_suspend_def independent_suspend_def independent_reject_def
      intro: kept_operations kept_provider_transition)

abbreviation between :: exempt_rows where
  "between \<equiv> ({}, {})"

text \<open>A new database holds the accounts that the setup scripts create and nothing else.\<close>

definition bootstrapped :: "'x registry_scheme \<Rightarrow> bool" where
  "bootstrapped s \<longleftrightarrow>
     users_ok (users s) \<and> list_all (\<lambda>u. user_id u < next_key s) (users s) \<and> provider_rows s = [] \<and> members s = [] \<and> driver_rows s = []
     \<and> profile_rows s = [] \<and> vehicle_rows s = [] \<and> pairing_rows s = [] \<and> invitations s = []"

lemma bootstrapped_ok: "bootstrapped s \<Longrightarrow> registry_ok between s"
  by (simp add: bootstrapped_def registry_ok_def registry_parts list_all_iff)

interpretation registry_history: invariant_system registry_step "registry_ok between"
  by unfold_locales (use kept_step kept_def in blast)

definition reachable_registry :: "'x registry_scheme \<Rightarrow> bool" where
  "reachable_registry s \<longleftrightarrow> (\<exists>r. bootstrapped r \<and> registry_step\<^sup>*\<^sup>* r s)"

lemma reachable_registry_ok: "reachable_registry s \<Longrightarrow> registry_ok between s"
  unfolding reachable_registry_def by (blast intro: registry_history.reachable_inv bootstrapped_ok)

lemma registry_history_grows:
  assumes "registry_step\<^sup>*\<^sup>* s t" "registry_ok between s"
  shows "registry_grows s t"
  using assms
proof (induction rule: rtranclp_induct)
  case (step t u)
  then have "registry_ok between t" by (blast intro: registry_history.reachable_inv)
  then have "registry_grows t u" using kept_step [OF step.hyps(2), of between] by (simp add: kept_def)
  with step show ?case by (blast intro: registry_grows_trans)
qed (rule registry_grows_refl)

end
