(* ===== verification/Registry_Properties.thy ===== *)
theory Registry_Properties imports Registry_System begin

text \<open>
  The contract of the registry: its rows keep their types and references, its limits hold, a valid token
  activates its account unless no seat is left, and what is resolved stays so. The scenarios run the
  operations on a concrete registry.
\<close>

subsection \<open>Activation\<close>

lemma grant_member_succeeds:
  assumes "registry_ok X s" "invitation_role v = PROVIDER_ADMIN \<Longrightarrow> \<forall>m \<in> set (members s). member_user m \<noteq> invitation_user v"
  shows "\<exists>t. grant_member v s = Inr ((), t)"
proof -
  have "\<forall>m \<in> set (members s). member_id m < next_key s" using assms(1) by (auto simp: registry_ok_def row_keys_ok_def)
  then show ?thesis
    using assms(2) by (cases "invitation_role v = PROVIDER_ADMIN")
      (fastforce simp: grant_member_def bindT_def draw_def insert_member_def any_row_iff returnT_def)+
qed

lemma grant_driver_succeeds:
  assumes "registry_ok X s" "invitation_role v = DRIVER \<Longrightarrow> \<forall>d \<in> set (driver_rows s). driver_user d \<noteq> invitation_user v"
    and "invitation_role v = DRIVER \<Longrightarrow> 1 \<le> length (blank_trim (the (driverName v))) \<and> length (blank_trim (the (driverName v))) \<le> 100"
  shows "\<exists>t. grant_driver v s = Inr ((), t)"
proof -
  have "\<forall>d \<in> set (driver_rows s). driver_id d < next_key s" using assms(1) by (auto simp: registry_ok_def row_keys_ok_def)
  then show ?thesis
    using assms(2,3) by (cases "invitation_role v = DRIVER")
      (fastforce simp: grant_driver_def bindT_def draw_def insert_driver_def driver_check_def any_row_iff returnT_def)+
qed

lemma grant_frames:
  "grant_member v s = Inr (x, t) \<Longrightarrow> invitations t = invitations s" "grant_driver v s = Inr (x, t) \<Longrightarrow> invitations t = invitations s \<and> users t = users s"
  by (auto simp: grant_member_def grant_driver_def tx_simps draw_Inr insert_member_def insert_driver_def split: if_split_asm)

lemma no_rows_without_account:
  assumes "registry_ok X s" "find_user i s = Some u" "\<not> user_active u"
  shows "\<forall>m \<in> set (members s). member_user m \<noteq> i" "\<forall>d \<in> set (driver_rows s). driver_user d \<noteq> i"
proof -
  have "\<not> has_account r i (users s)" for r
    using assms find_user_member [OF assms(2)] unique_key [of user_id "users s" _ u] unfolding has_account_def registry_ok_def users_ok_def by metis
  then show "\<forall>m \<in> set (members s). member_user m \<noteq> i" "\<forall>d \<in> set (driver_rows s). driver_user d \<noteq> i"
    using assms(1) unfolding registry_ok_def members_ok_def drivers_ok_def driver_ok_def by metis+
qed

lemma activate_invitation_succeeds:
  assumes ok: "registry_ok between s" and v: "find_invitation i s = Some v" "tokenHash v = hash" "pending_invitation v" "checked < invitation_expiresAt v"
    and seat: "invitation_role v = DRIVER \<Longrightarrow> \<exists>p. find_provider (invitation_provider v) s = Some p \<and> provider_drivers (provider_id p) s < maxDrivers p"
  shows "\<exists>x t. activate_invitation hash password checked now i s = Inr (x, t)"
proof -
  note v_in = find_invitation_member [OF v(1)]
  obtain u where u: "u \<in> set (users s)" "invited v u"
    using ok v_in v(3) unfolding registry_ok_def invitations_ok_def by auto
  have fu: "find_user (invitation_user v) s = Some u"
    using first_row_unique_key [of user_id "users s" u] ok u by (simp add: find_user_def registry_ok_def users_ok_def invited_def)
  have c: "invitation_check v" using ok v_in by (auto simp: registry_ok_def invitations_ok_def list_all_iff)
  have "\<exists>s1. update_user (invitation_user v) (activated v password now) s = Inr (activated v password now u, s1)"
  proof -
    have "\<forall>w \<in> set (users s). user_id w \<noteq> invitation_user v \<longrightarrow> user_email w \<noteq> user_email u"
      using ok u unique_key [of user_email "users s"] unfolding registry_ok_def users_ok_def invited_def by metis
    then show ?thesis unfolding update_user_Inr using fu by (simp add: user_check_def)
  qed
  then obtain s1 where w1: "update_user (invitation_user v) (activated v password now) s = Inr (activated v password now u, s1)" by blast
  have free: "\<forall>m \<in> set (members s). member_user m \<noteq> invitation_user v" "\<forall>d \<in> set (driver_rows s). driver_user d \<noteq> invitation_user v"
    using no_rows_without_account [OF ok fu] u(2) by (auto simp: invited_def)
  have s1: "members s1 = members s" "driver_rows s1 = driver_rows s" "provider_rows s1 = provider_rows s" "invitations s1 = invitations s"
    using w1 unfolding update_user_Inr by auto
  let ?Y = "(fst between, insert i (snd between))"
  have "kept ?Y s s1"
    by (rule kept_activated_account [OF w1 v(1,3) fu _ ok]) (use u(2) in \<open>simp add: invited_def\<close>)
  then have ok1: "registry_ok ?Y s1" using registry_ok_weaken [OF ok, of i] by (simp add: kept_def)
  obtain s2 where w2: "grant_member v s1 = Inr ((), s2)"
    using grant_member_succeeds [OF ok1, of v] free s1 by auto
  have acc: "has_account (invitation_role v) (invitation_user v) (users s1)"
    using updated_user [OF w1] u(2) unfolding has_account_def by (intro bexI [of _ "activated v password now u"]) (simp_all add: invited_def)
  have home: "invitation_provider v \<in> provider_id ` set (provider_rows s1)"
    using ok v_in s1(3) unfolding registry_ok_def invitations_ok_def by metis
  have ok2: "registry_ok ?Y s2" using kept_grant_member [OF w2 acc home, of ?Y] ok1 by (simp add: kept_def)
  obtain s3 where w3: "grant_driver v s2 = Inr ((), s3)"
    using grant_driver_succeeds [OF ok2, of v] free s1 grant_member_frame [OF w2] c by (auto simp: invitation_check_def split: option.splits)
  have inv3: "invitations s3 = invitations s" using grant_frames(1) [OF w2] grant_frames(2) [OF w3] s1(4) by simp
  have "\<exists>y t. update_invitation i (accepted now) s3 = Inr (y, t)"
  proof -
    have "find_invitation i s3 = Some v" using v(1) inv3 by (simp add: find_invitation_def)
    moreover have "\<forall>w \<in> set (invitations s). invitation_id w \<noteq> i \<longrightarrow> tokenHash w \<noteq> tokenHash v"
      using ok v_in unique_key [of tokenHash "invitations s"] unfolding registry_ok_def invitations_ok_def by metis
    moreover have "invitation_check (accepted now v)" using c v(3) by (auto simp: invitation_check_def)
    moreover have "user_invitation_immutable v (accepted now v)" using v(3) by (simp add: user_invitation_immutable_def)
    ultimately show ?thesis unfolding update_invitation_Inr by (simp add: inv3)
  qed
  then obtain y t where "update_invitation i (accepted now) s3 = Inr (y, t)" by blast
  then have "activate_invitation hash password checked now i s = Inr (activated v password now u, t)"
    unfolding activate_invitation_Inr using v fu u(2) seat w1 w2 w3 unfolding invited_def by blast
  then show ?thesis by blast
qed

lemma token_finds:
  assumes "registry_ok X s" "v \<in> set (invitations s)"
  shows "first_row (\<lambda>w. tokenHash w = tokenHash v) (invitations s) = Some v" "find_invitation (invitation_id v) s = Some v"
  using assms first_row_unique_key [of tokenHash "invitations s" v] first_row_unique_key [of invitation_id "invitations s" v]
  by (simp_all add: registry_ok_def invitations_ok_def find_invitation_def)

lemma activate_invitation_opens:
  assumes "activate_invitation hash password checked now i s = Inr (x, t)" "find_invitation i s = Some v" "registry_ok between s"
  shows "user_password x = Some password \<and> user_id x = invitation_user v \<and> has_account (invitation_role v) (invitation_user v) (users t)"
proof -
  obtain u s1 s2 s3 y where u: "find_user (invitation_user v) s = Some u"
    and w: "update_user (invitation_user v) (activated v password now) s = Inr (x, s1)"
      "grant_member v s1 = Inr ((), s2)" "grant_driver v s2 = Inr ((), s3)" "update_invitation i (accepted now) s3 = Inr (y, t)"
    using assms(1,2) unfolding activate_invitation_Inr by auto
  have x: "x = activated v password now u" using w(1) u unfolding update_user_Inr by simp
  have "users t = users s1"
    using grant_member_frame [OF w(2)] grant_frames(2) [OF w(3)] w(4) unfolding update_invitation_Inr by auto
  then show ?thesis
    using updated_user [OF w(1)] x find_user_member [OF u] by (auto simp: has_account_def intro!: bexI [of _ x])
qed

lemma activation_outcome:
  assumes "reachable_registry s" "v \<in> set (invitations s)" "pending_invitation v" "found < invitation_expiresAt v" "checked < invitation_expiresAt v"
  shows "(if invitation_role v = DRIVER \<and> (\<exists>p \<in> set (provider_rows s). provider_id p = invitation_provider v \<and> maxDrivers p \<le> provider_drivers (provider_id p) s)
          then activate (tokenHash v) password found checked now s = Inl (Invitation PROVIDER_DRIVER_LIMIT_REACHED)
          else \<exists>x t. activate (tokenHash v) password found checked now s = Inr (x, t) \<and> user_id x = invitation_user v \<and> user_password x = Some password
            \<and> has_account (invitation_role v) (invitation_user v) (users t))"
proof -
  note ok = reachable_registry_ok [OF assms(1)]
  have find: "activate_find (tokenHash v) found s = Inr (invitation_id v, s)"
    unfolding activate_find_Inr using token_finds [OF ok assms(2)] assms(3,4) by simp
  note fv = token_finds(2) [OF ok assms(2)]
  obtain p where p: "p \<in> set (provider_rows s)" "provider_id p = invitation_provider v"
    using ok assms(2) unfolding registry_ok_def invitations_ok_def by (metis imageE)
  have fp: "find_provider (invitation_provider v) s = Some p"
    using first_row_unique_key [of provider_id "provider_rows s" p] ok p by (simp add: registry_ok_def providers_ok_def find_provider_def)
  have only: "q = p" if "q \<in> set (provider_rows s)" "provider_id q = invitation_provider v" for q
    using unique_key [of provider_id "provider_rows s" q p] ok p that by (simp add: registry_ok_def providers_ok_def)
  obtain u where u: "u \<in> set (users s)" "invited v u"
    using ok assms(2,3) unfolding registry_ok_def invitations_ok_def by auto
  have fu: "find_user (invitation_user v) s = Some u"
    using first_row_unique_key [of user_id "users s" u] ok u by (simp add: find_user_def registry_ok_def users_ok_def invited_def)
  show ?thesis
  proof (cases "invitation_role v = DRIVER \<and> maxDrivers p \<le> provider_drivers (provider_id p) s")
    case True
    have "activate_invitation (tokenHash v) password checked now (invitation_id v) s = Inl (Invitation PROVIDER_DRIVER_LIMIT_REACHED)"
      using True fv fp fu u(2) assms(3,5)
      by (simp add: activate_invitation_def lockInvitation_def lockProvider_def bindT_def requireT_def readT_def returnT_def guardT_def
          activatable_def assertActivatable_def effectiveInvitationStatus_def invited_def)
    with True p show ?thesis by (auto simp: activate_def find bindT_def)
  next
    case False
    then obtain x t where xt: "activate_invitation (tokenHash v) password checked now (invitation_id v) s = Inr (x, t)"
      using activate_invitation_succeeds [OF ok fv refl assms(3,5)] fp by fastforce
    then have "activate (tokenHash v) password found checked now s = Inr (x, t)" by (simp add: activate_def find bindT_def)
    with activate_invitation_opens [OF xt fv ok] False only show ?thesis by auto
  qed
qed

subsection \<open>Claims\<close>

text \<open>
  C34: On every history of the registry that starts with bootstrap accounts, every row keeps its type:
  keys and unique columns are unique, CHECKs hold, references lead to existing rows and those of the right provider, members
  and drivers belong to active accounts with their role, pending invitations to accounts without a
  password, and no provider has more drivers or vehicles than it may.
\<close>

theorem registry_is_well_formed: "reachable_registry s \<Longrightarrow> registry_ok between s"
  by (rule reachable_registry_ok)

text \<open>
  C35: A driver who is not OFFLINE is ACTIVE, has an active DRIVER account and, when a provider employs
  the driver, that provider is ACTIVE, whatever was suspended in between.
\<close>

theorem working_drivers_may_work:
  assumes "reachable_registry s" "d \<in> set (driver_rows s)" "driver_availability d \<noteq> OFFLINE"
  shows "driver_status d = DRV_ACTIVE \<and> has_account DRIVER (driver_user d) (users s)
    \<and> (\<forall>i. driver_provider d = Some i \<longrightarrow> (\<exists>p \<in> set (provider_rows s). provider_id p = i \<and> provider_status p = PROV_ACTIVE))"
  using reachable_registry_ok [OF assms(1)] assms(2,3) by (simp add: registry_ok_def drivers_ok_def driver_ok_def may_work_def)

text \<open>
  C36: Whoever presents the token of a pending invitation before it expires gets the account, unless the
  invitation is for a driver and its provider has no seat left: nothing else, no guard and no unique
  index, stands in the way, and in that case the error says so.
\<close>

theorem activation_needs_only_a_seat:
  assumes "reachable_registry s" "v \<in> set (invitations s)" "pending_invitation v" "found < invitation_expiresAt v" "checked < invitation_expiresAt v"
  shows "(if invitation_role v = DRIVER \<and> (\<exists>p \<in> set (provider_rows s). provider_id p = invitation_provider v \<and> maxDrivers p \<le> provider_drivers (provider_id p) s)
          then activate (tokenHash v) password found checked now s = Inl (Invitation PROVIDER_DRIVER_LIMIT_REACHED)
          else \<exists>x t. activate (tokenHash v) password found checked now s = Inr (x, t) \<and> user_id x = invitation_user v \<and> user_password x = Some password
            \<and> has_account (invitation_role v) (invitation_user v) (users t))"
  using assms by (rule activation_outcome)

text \<open>
  C37: A pending invitation of a driver does not keep its seat. Registering another driver in the last
  seat succeeds, and from then on the token of the invitation is refused.
\<close>

theorem reserved_seat_is_taken:
  assumes "reachable_registry s" "v \<in> set (invitations s)" "pending_invitation v" "invitation_role v = DRIVER" "found < invitation_expiresAt v" "checked < invitation_expiresAt v"
    and "find_provider (invitation_provider v) s = Some p" "provider_drivers (invitation_provider v) s + 1 = maxDrivers p"
    and "driver_create (invitation_provider v) u name display s = Inr (d, t)"
  shows "activate (tokenHash v) password found checked now t = Inl (Invitation PROVIDER_DRIVER_LIMIT_REACHED)"
proof -
  have t: "invitations t = invitations s" "provider_rows t = provider_rows s" "driver_rows t = driver_rows s @ [d]" "driver_provider d = Some (invitation_provider v)"
    using assms(9) by (auto simp: driver_create_def lockProvider_def tx_simps draw_Inr insert_driver_def split: if_split_asm)
  have "reachable_registry t"
    using assms(1,9) registry_step.intros(7) unfolding reachable_registry_def by (meson rtranclp.rtrancl_into_rtrancl)
  moreover have "\<exists>q \<in> set (provider_rows t). provider_id q = invitation_provider v \<and> maxDrivers q \<le> provider_drivers (provider_id q) t"
    using assms(8) find_provider_member [OF assms(7)] t by (intro bexI [of _ p]) (auto simp: provider_drivers_def)
  ultimately show ?thesis
    using activation_outcome [of t v found checked password now] assms t(1) by auto
qed

text \<open>
  C38: An invitation that was accepted or revoked and an account that is active are not changed by any
  later operation: the invitation stays as it is, the account keeps its address, role and password.
\<close>

theorem resolved_rows_are_final:
  assumes "reachable_registry s" "registry_step\<^sup>*\<^sup>* s t"
  shows "(\<forall>v \<in> set (invitations s). \<not> pending_invitation v \<longrightarrow> v \<in> set (invitations t))
    \<and> (\<forall>u \<in> set (users s). user_active u \<longrightarrow> (\<exists>w \<in> set (users t). user_id w = user_id u \<and> user_email w = user_email u \<and> user_active w
         \<and> user_role w = user_role u \<and> user_password w = user_password u))"
  using registry_history_grows [OF assms(2) reachable_registry_ok [OF assms(1)]] unfolding registry_grows_def by blast

end
