(* ===== verification/Registry_Scenarios.thy ===== *)
theory Registry_Scenarios imports Registry_Properties begin

text \<open>
  A provider with two seats: Ana is invited, activates her account, is approved and goes to work; Eva is
  invited to the second seat, which Dan then takes.
\<close>

definition a_hash :: string where "a_hash = replicate 64 (CHR ''a'')"

definition b_hash :: string where "b_hash = replicate 64 (CHR ''b'')"

definition admin_user :: user_row where
  "admin_user = \<lparr>user_id = 1, user_email = ''root'', user_password = Some ''x'', user_role = SUPER_ADMIN, user_active = True, user_verifiedAt = None\<rparr>"

definition dan_user :: user_row where
  "dan_user = \<lparr>user_id = 2, user_email = ''d@b.c'', user_password = Some ''y'', user_role = DRIVER, user_active = True, user_verifiedAt = None\<rparr>"

definition ana_user :: "bool \<Rightarrow> user_row" where
  "ana_user b = \<lparr>user_id = 11, user_email = ''a@b.c'', user_password = (if b then Some ''z'' else None), user_role = DRIVER, user_active = b,
     user_verifiedAt = (if b then Some 1000 else None)\<rparr>"

definition eva_user :: user_row where
  "eva_user = \<lparr>user_id = 14, user_email = ''e@b.c'', user_password = None, user_role = DRIVER, user_active = False, user_verifiedAt = None\<rparr>"

definition the_provider :: "provider_status \<Rightarrow> provider_row" where
  "the_provider st = \<lparr>provider_id = 10, provider_name = ''P'', provider_code = ''p'', provider_type = FLEET_PROVIDER, provider_status = st,
     maxDrivers = 2, maxVehicles = 2\<rparr>"

definition ana_invitation :: "bool \<Rightarrow> invitation_row" where
  "ana_invitation b = \<lparr>invitation_id = 12, invitation_user = 11, invitation_email = ''a@b.c'', invitation_role = DRIVER, invitation_provider = 10,
     membershipRole = None, driverName = Some ''Ana'', tokenHash = a_hash, invitation_status = (if b then INV_ACCEPTED else INV_PENDING),
     invitation_expiresAt = 3600000, tokenIssuedAt = 0, resendCount = 0, invitation_acceptedAt = (if b then Some 1000 else None),
     invitation_revoked = None, invitation_createdBy = 1\<rparr>"

definition eva_invitation :: invitation_row where
  "eva_invitation = \<lparr>invitation_id = 15, invitation_user = 14, invitation_email = ''e@b.c'', invitation_role = DRIVER, invitation_provider = 10,
     membershipRole = None, driverName = Some ''Eva'', tokenHash = b_hash, invitation_status = INV_PENDING,
     invitation_expiresAt = 3602000, tokenIssuedAt = 2000, resendCount = 0, invitation_acceptedAt = None,
     invitation_revoked = None, invitation_createdBy = 1\<rparr>"

definition ana_driver :: "driver_status \<Rightarrow> availability \<Rightarrow> driver_row" where
  "ana_driver st av = \<lparr>driver_id = 13, driver_provider = Some 10, driver_user = 11, driver_name = ''Ana'', driver_displayName = None,
     driver_status = st, driver_availability = av\<rparr>"

definition dan_driver :: driver_row where
  "dan_driver = \<lparr>driver_id = 16, driver_provider = Some 10, driver_user = 2, driver_name = ''Dan'', driver_displayName = None,
     driver_status = DRV_PENDING, driver_availability = OFFLINE\<rparr>"

definition reg_of :: "user_row list \<Rightarrow> provider_row list \<Rightarrow> driver_row list \<Rightarrow> invitation_row list \<Rightarrow> id \<Rightarrow> registry" where
  "reg_of us ps ds vs n = \<lparr>users = us, provider_rows = ps, members = [], driver_rows = ds, profile_rows = [], vehicle_rows = [],
     pairing_rows = [], invitations = vs, deliveries = [], next_key = n\<rparr>"

definition invite_config :: invitation_config where
  "invite_config = \<lparr>web_url = True, ttlHours = 1, cooldownSeconds = 60\<rparr>"

definition driver_invite :: "string \<Rightarrow> string \<Rightarrow> invite_input" where
  "driver_invite email name = \<lparr>invite_email = email, invite_role = DRIVER, invite_membershipRole = None, invite_driverName = Some name\<rparr>"

lemmas running = bindT_def requireT_def guardT_def readT_def returnT_def throwT_def catchT_def Let_def draw_def
  first_row_def any_row_def update_rows_def reg_of_def lockProvider_def find_provider_def find_user_def find_email_def
  find_driver_def find_driver_of_user_def find_provider_driver_def find_invitation_def find_profile_of_def provider_drivers_def
  insert_provider_def update_provider_def insert_user_def update_user_def insert_driver_def update_driver_def
  insert_invitation_def update_invitation_def provider_check_def user_check_def driver_check_def
  the_provider_def admin_user_def dan_user_def ana_user_def eva_user_def ana_driver_def dan_driver_def given_def

lemma a_hash_hex: "hex_hash a_hash" "hex_hash b_hash" "a_hash \<noteq> b_hash"
  by (simp_all add: hex_hash_def a_hash_def b_hash_def list_all_iff)

lemma ana_checks: "invitation_check (ana_invitation b)" "invitation_check eva_invitation"
  by (simp_all add: invitation_check_def ana_invitation_def eva_invitation_def a_hash_hex lower_case_def blank_trim_def)

lemma trims: "blank_trim ''Ana'' = ''Ana''" "blank_trim ''Dan'' = ''Dan''"
  by (simp_all add: blank_trim_def)

lemma step_create:
  "provider_create (\<lambda>_. (2, 2)) FLEET_PROVIDER ''P'' ''p'' None None (reg_of [admin_user, dan_user] [] [] [] 10)
     = Inr (the_provider PROV_PENDING, reg_of [admin_user, dan_user] [the_provider PROV_PENDING] [] [] 11)"
  by (simp add: provider_create_def running)

lemma step_activate:
  "provider_activate 10 (reg_of us [the_provider PROV_PENDING] ds vs n) = Inr (the_provider PROV_ACTIVE, reg_of us [the_provider PROV_ACTIVE] ds vs n)"
  by (simp add: provider_activate_def provider_transition_def running)

lemma step_invite:
  "invite invite_config 10 (driver_invite ''a@b.c'' ''Ana'') (1, SUPER_ADMIN) a_hash 0 (reg_of [admin_user, dan_user] [the_provider PROV_ACTIVE] [] [] 11)
     = Inr (ana_invitation False, reg_of [admin_user, dan_user, ana_user False] [the_provider PROV_ACTIVE] [] [ana_invitation False] 13)"
  using ana_checks(1) [of False]
  by (simp add: invite_def invited_account_def assertDriverSeat_def reserved_seats_def canInvite_def invitation_fields_ok_def invite_config_def
      driver_invite_def invitationExpiry_def ana_invitation_def running)

lemma step_accept:
  "activate a_hash ''z'' 900 950 1000 (reg_of [admin_user, dan_user, ana_user False] [the_provider PROV_ACTIVE] [] [ana_invitation False] 13)
     = Inr (ana_user True, reg_of [admin_user, dan_user, ana_user True] [the_provider PROV_ACTIVE] [ana_driver DRV_PENDING OFFLINE] [ana_invitation True] 14)"
  using ana_checks(1) [of True]
  by (simp add: activate_def activate_find_def activate_invitation_def lockInvitation_def activatable_def assertActivatable_def
      effectiveInvitationStatus_def ana_invitation_def user_invitation_immutable_def trims running)

lemma step_approve:
  "driver_update 10 13 \<lparr>new_driverName = None, new_displayName = None, new_driverStatus = Some DRV_ACTIVE\<rparr>
     (reg_of us [p] [ana_driver DRV_PENDING OFFLINE] vs n) = Inr (ana_driver DRV_ACTIVE OFFLINE, reg_of us [p] [ana_driver DRV_ACTIVE OFFLINE] vs n)"
  by (simp add: driver_update_def trims running)

lemma step_work:
  "setOwnAvailability 11 AVAILABLE (reg_of us [the_provider PROV_ACTIVE] [ana_driver DRV_ACTIVE OFFLINE] vs n)
     = Inr ((), reg_of us [the_provider PROV_ACTIVE] [ana_driver DRV_ACTIVE AVAILABLE] vs n)"
  by (simp add: setOwnAvailability_def trims running)

lemma step_invite_eva:
  "invite invite_config 10 (driver_invite ''e@b.c'' ''Eva'') (1, SUPER_ADMIN) b_hash 2000
       (reg_of [admin_user, dan_user, ana_user True] [the_provider PROV_ACTIVE] [ana_driver DRV_ACTIVE AVAILABLE] [ana_invitation True] 14)
     = Inr (eva_invitation, reg_of [admin_user, dan_user, ana_user True, eva_user] [the_provider PROV_ACTIVE]
         [ana_driver DRV_ACTIVE AVAILABLE] [ana_invitation True, eva_invitation] 16)"
  using ana_checks(2) a_hash_hex(3)
  by (simp add: invite_def invited_account_def assertDriverSeat_def reserved_seats_def canInvite_def invitation_fields_ok_def invite_config_def
      driver_invite_def invitationExpiry_def eva_invitation_def ana_invitation_def running)

definition two_seats :: registry where
  "two_seats = reg_of [admin_user, dan_user, ana_user True, eva_user] [the_provider PROV_ACTIVE]
     [ana_driver DRV_ACTIVE AVAILABLE] [ana_invitation True, eva_invitation] 16"

lemma step_dan:
  "driver_create 10 2 ''Dan'' None two_seats
     = Inr (dan_driver, two_seats\<lparr>driver_rows := [ana_driver DRV_ACTIVE AVAILABLE, dan_driver], next_key := 17\<rparr>)"
  by (simp add: driver_create_def two_seats_def trims running)

lemma bootstrapped_example: "bootstrapped (reg_of [admin_user, dan_user] [] [] [] 10)"
  by (simp add: bootstrapped_def reg_of_def users_ok_def admin_user_def dan_user_def user_check_def)

lemma two_seats_reachable: "reachable_registry two_seats"
  unfolding reachable_registry_def two_seats_def
  using registry_step.intros(1) [OF step_create] registry_step.intros(3) [OF step_activate]
    registry_step.intros(19) [OF step_invite] registry_step.intros(22) [OF step_accept] registry_step.intros(8) [OF step_approve]
    registry_step.intros(9) [OF step_work] registry_step.intros(19) [OF step_invite_eva] bootstrapped_example
  by (meson converse_rtranclp_into_rtranclp rtranclp.rtrancl_refl)

subsection \<open>Witnesses\<close>

theorem registry_is_well_formed_witness: "registry_ok between two_seats"
  by (rule registry_is_well_formed [OF two_seats_reachable])

theorem working_drivers_may_work_witness:
  "driver_status (ana_driver DRV_ACTIVE AVAILABLE) = DRV_ACTIVE \<and> has_account DRIVER 11 (users two_seats)"
  using working_drivers_may_work [OF two_seats_reachable, of "ana_driver DRV_ACTIVE AVAILABLE"]
  by (simp add: two_seats_def reg_of_def ana_driver_def)

theorem activation_needs_only_a_seat_witness:
  "\<exists>x t. activate b_hash ''w'' 2900 2950 3000 two_seats = Inr (x, t) \<and> user_id x = 14 \<and> user_password x = Some ''w'' \<and> has_account DRIVER 14 (users t)"
  using activation_needs_only_a_seat [OF two_seats_reachable, of eva_invitation 2900 2950 "''w''" 3000]
  by (simp add: two_seats_def reg_of_def eva_invitation_def the_provider_def provider_drivers_def ana_driver_def)

theorem reserved_seat_is_taken_witness:
  "activate b_hash ''w'' 2900 2950 3000 (two_seats\<lparr>driver_rows := [ana_driver DRV_ACTIVE AVAILABLE, dan_driver], next_key := 17\<rparr>)
     = Inl (Invitation PROVIDER_DRIVER_LIMIT_REACHED)"
  using reserved_seat_is_taken [OF two_seats_reachable, of eva_invitation 2900 2950 "the_provider PROV_ACTIVE" 2 "''Dan''" None dan_driver
      "two_seats\<lparr>driver_rows := [ana_driver DRV_ACTIVE AVAILABLE, dan_driver], next_key := 17\<rparr>" "''w''" 3000] step_dan
  by (simp add: two_seats_def reg_of_def eva_invitation_def the_provider_def provider_drivers_def ana_driver_def find_provider_def first_row_def)

theorem resolved_rows_are_final_witness:
  "ana_invitation True \<in> set (invitations (two_seats\<lparr>driver_rows := [ana_driver DRV_ACTIVE AVAILABLE, dan_driver], next_key := 17\<rparr>))"
  using resolved_rows_are_final [OF two_seats_reachable, OF r_into_rtranclp [where r = registry_step, OF registry_step.intros(7) [OF step_dan]]]
  by (simp add: two_seats_def reg_of_def ana_invitation_def)

end
