(* ===== verification/Verification_Tables.thy ===== *)
theory Verification_Tables imports Registry_Services Canonical_Json begin

text \<open>
  The tables of driver verification (migration 20261013000100_driver_verification): policy, terms and
  their acceptances, subjects, cases with attachments, commands, events, notices and e-mail challenges,
  as an extension of the registry. Every write meets the CHECKs, unique indexes and triggers of its
  table. Columns with one constant value (environment, policy version, method) are left out.
\<close>

subsection \<open>Rows\<close>

record policy_row =
  policy_enabled :: bool
  policy_revision :: int
  driverTermsVersion :: string
  fleetTermsVersion :: string

datatype terms_scope = DRIVER_SCOPE | FLEET_SCOPE

record terms_row =
  terms_version :: string
  terms_hash :: string
  terms_local :: bool \<comment> \<open>\<open>environment = LOCAL_TEST\<close>\<close>

record acceptance_row =
  acc_id :: id
  acc_user :: id
  acc_provider :: "id option"
  acc_scope :: terms_scope
  acc_version :: string
  acc_at :: instant

record subject_row =
  subj_id :: id
  subj_driver :: "id option"
  subj_vehicle :: "id option"
  subj_provider :: "id option"
  subj_profile :: "id option"

datatype case_status = DRAFT | SUBMITTED | CASE_APPROVED | CASE_REJECTED | WITHDRAWN

text \<open>\<open>material()\<close>: what a reviewer saw of the driver or the vehicle; \<open>NoMaterial\<close> is the default \<open>{}\<close>.\<close>

datatype material =
    NoMaterial
  | DriverMaterial string
  | VehicleMaterial string vehicle_type "string option" "string option" "int option" "string option"

record case_row =
  case_id :: id
  case_subject :: id
  case_presenter :: id
  case_revision :: int
  case_status :: case_status
  case_data :: json
  case_material :: material
  submittedAt :: "instant option"
  decidedAt :: "instant option"
  reviewer :: "id option"
  publicReason :: "string option"
  checklist :: "string list option"
  validUntil :: "instant option"
  licenseValidUntil :: "instant option"
  licenseVehicleTypes :: "vehicle_type list"

datatype category =
    FACE_PHOTO | INE_FRONT | INE_BACK | LICENSE | REGISTRATION_CARD | OWNERSHIP_PROOF | RENTAL_CONTRACT | OWNER_AUTHORIZATION

datatype attachment_status = ATT_CREATED | ATT_VALIDATED | ATT_REMOVED

text \<open>The storage keys: the quarantine of an upload and the place of the normalized image.\<close>

datatype storage_key =
    Quarantine id
  | ProviderDriver id id id id
  | ProviderVehicle id id id id
  | IndependentDriver id id id
  | IndependentVehicle id id id id

record file_evidence =
  ev_bytes :: nat
  ev_hash :: string
  ev_sourceHash :: string

record attachment_row =
  att_id :: id
  att_case :: id
  att_category :: category
  att_quarantine :: storage_key
  att_object :: storage_key
  att_status :: attachment_status
  att_expiresAt :: instant
  att_evidence :: "file_evidence option"

datatype v_operation =
    ACCEPT_TERMS | CREATE_CASE | UPDATE_CASE | CREATE_UPLOAD | COMPLETE_UPLOAD | REMOVE_ATTACHMENT | SUBMIT | WITHDRAW | DECIDE
  | CREATE_VEHICLE | POLICY | ATTACHMENT_ACCESS

datatype v_target = DriverTarget | FleetTarget "id option" | SelfTarget | PolicyTarget | RowTarget id

datatype v_result =
    AcceptanceReceipt id terms_scope string instant
  | CaseReceipt id case_status int
  | UploadReceipt id int instant
  | FileReceipt id attachment_status int
  | DecisionReceipt id case_status int instant
  | VehicleReceipt id vehicle_status
  | PolicyReceipt bool int
  | NoResult

record command_row =
  cmd_actor :: id
  cmd_key :: id
  cmd_operation :: v_operation
  cmd_target :: v_target
  cmd_hash :: string
  cmd_result :: v_result
  cmd_closed :: bool \<comment> \<open>\<open>state = CLOSED_NO_EFFECTS\<close>, otherwise \<open>APPLIED\<close>\<close>

record v_event_row =
  vev_actor :: id
  vev_target :: v_target
  vev_kind :: v_operation

datatype notice_status = NTC_PENDING | NTC_SENDING | NTC_SUPPRESSED | NTC_ACCEPTED | NTC_FAILED

record notice_row =
  notice_id :: id
  notice_case :: id
  notice_recipient :: id
  notice_status :: notice_status
  notice_attempts :: nat
  notice_leaseUntil :: "instant option"
  notice_retryAt :: instant
  notice_unconfirmed :: bool \<comment> \<open>\<open>errorCode = MAIL_ACCEPTANCE_UNCONFIRMED\<close>\<close>

record challenge_row =
  chal_id :: id
  chal_email :: string
  chal_user :: "id option"
  chal_hash :: string
  chal_expiresAt :: instant
  chal_consumedAt :: "instant option"
  chal_createdAt :: instant

record verification = registry +
  v_policy :: policy_row
  v_terms :: "terms_row list"
  acceptances :: "acceptance_row list"
  subjects :: "subject_row list"
  case_rows :: "case_row list"
  attachments :: "attachment_row list"
  commands :: "command_row list"
  v_events :: "v_event_row list"
  notices :: "notice_row list"
  challenges :: "challenge_row list"

type_synonym 'a vtx = "(registry_error, verification, 'a) tx"

subsection \<open>Errors\<close>

definition fail :: "string \<Rightarrow> 'a vtx" where
  "fail code = throwT (Documentary code)"

definition ensure :: "bool \<Rightarrow> string \<Rightarrow> unit vtx" where
  "ensure b code = guardT b (Documentary code)"

subsection \<open>Writes\<close>

definition acceptance_check :: "acceptance_row \<Rightarrow> bool" where
  "acceptance_check a \<longleftrightarrow> (acc_scope a = DRIVER_SCOPE) = (acc_provider a = None)"

definition insert_acceptance :: "acceptance_row \<Rightarrow> acceptance_row vtx" where
  "insert_acceptance a s =
     (if \<not> acceptance_check a then Inl CheckBroken
      else if any_row (\<lambda>b. acc_id b = acc_id a
           \<or> (acc_user b = acc_user a \<and> acc_provider b = acc_provider a \<and> acc_version b = acc_version a)) (acceptances s)
      then Inl UniqueBroken
      else Inr (a, s\<lparr>acceptances := acceptances s @ [a]\<rparr>))"

text \<open>\<open>verification_subject_guard\<close>: the scope of a subject is the owner of its driver or vehicle.\<close>

definition owner_of :: "subject_row \<Rightarrow> verification \<Rightarrow> id option \<times> id option" where
  "owner_of j s =
     (case subj_driver j of
        Some d \<Rightarrow>
          (case find_driver d s of
             None \<Rightarrow> (None, None)
           | Some r \<Rightarrow> (driver_provider r, map_option profile_id (find_profile_of d s)))
      | None \<Rightarrow>
          (case subj_vehicle j of
             None \<Rightarrow> (None, None)
           | Some v \<Rightarrow>
               (case first_row (\<lambda>x. vehicle_id x = v) (vehicle_rows s) of
                  None \<Rightarrow> (None, None)
                | Some r \<Rightarrow> (vehicle_provider r, vehicle_profile r))))"

definition verification_subject_guard :: "subject_row \<Rightarrow> verification \<Rightarrow> bool" where
  "verification_subject_guard j s \<longleftrightarrow>
     (if subj_provider j \<noteq> None then subj_provider j = fst (owner_of j s) else subj_profile j = snd (owner_of j s))"

definition subject_check :: "subject_row \<Rightarrow> bool" where
  "subject_check j \<longleftrightarrow> (subj_driver j = None) \<noteq> (subj_vehicle j = None) \<and> (subj_provider j = None) \<noteq> (subj_profile j = None)"

text \<open>The unique indexes of a subject: a driver has one per provider and one per profile, a vehicle one.\<close>

definition same_subject :: "subject_row \<Rightarrow> subject_row \<Rightarrow> bool" where
  "same_subject i j \<longleftrightarrow>
     subj_id i = subj_id j
     \<or> (subj_driver i \<noteq> None \<and> subj_driver i = subj_driver j
        \<and> ((subj_provider i \<noteq> None \<and> subj_provider i = subj_provider j) \<or> (subj_profile i \<noteq> None \<and> subj_profile i = subj_profile j)))
     \<or> (subj_vehicle i \<noteq> None \<and> subj_vehicle i = subj_vehicle j)"

definition insert_subject :: "subject_row \<Rightarrow> subject_row vtx" where
  "insert_subject j s =
     (if \<not> verification_subject_guard j s then Inl (VerificationRaised ''VERIFICATION_OWNER_MISMATCH'')
      else if \<not> subject_check j then Inl CheckBroken
      else if any_row (\<lambda>i. same_subject i j) (subjects s) then Inl UniqueBroken
      else Inr (j, s\<lparr>subjects := subjects s @ [j]\<rparr>))"

abbreviation open_case :: "case_row \<Rightarrow> bool" where
  "open_case c \<equiv> case_status c \<in> {DRAFT, SUBMITTED}"

definition final_case :: "case_row \<Rightarrow> bool" where
  "final_case c \<longleftrightarrow> case_status c \<in> {CASE_APPROVED, CASE_REJECTED, WITHDRAWN}"

definition has_reviewer :: "case_row \<Rightarrow> verification \<Rightarrow> bool" where
  "has_reviewer c s \<longleftrightarrow> any_row (\<lambda>u. Some (user_id u) = reviewer c \<and> user_active u \<and> user_role u = SUPER_ADMIN) (users s)"

text \<open>\<open>verification_case_guard\<close>, its exceptions in their order.\<close>

definition verification_case_guard :: "case_row option \<Rightarrow> case_row \<Rightarrow> verification \<Rightarrow> string option" where
  "verification_case_guard prior c s =
     (case prior of
        None \<Rightarrow> if case_status c \<noteq> DRAFT then Some ''VERIFICATION_CASE_MUST_START_DRAFT'' else None
      | Some old \<Rightarrow>
          if case_status old = DRAFT \<and> case_status c \<notin> {DRAFT, SUBMITTED, WITHDRAWN} then Some ''VERIFICATION_SUBMISSION_REQUIRED''
          else if final_case old \<or> case_id c \<noteq> case_id old \<or> case_subject c \<noteq> case_subject old \<or> case_presenter c \<noteq> case_presenter old
               \<or> case_revision c \<noteq> case_revision old + 1 then Some ''VERIFICATION_CASE_IMMUTABLE''
          else if case_status old = SUBMITTED
               \<and> (case_data c \<noteq> case_data old \<or> case_material c \<noteq> case_material old \<or> submittedAt c \<noteq> submittedAt old
                  \<or> case_status c \<notin> {CASE_APPROVED, CASE_REJECTED, WITHDRAWN}) then Some ''VERIFICATION_CASE_FROZEN''
          else if case_status c \<in> {CASE_APPROVED, CASE_REJECTED} \<and> (decidedAt c = None \<or> \<not> has_reviewer c s)
               then Some ''VERIFICATION_REVIEWER_REQUIRED''
          else if case_status c = CASE_APPROVED \<and> (submittedAt c = None \<or> checklist c = None) then Some ''VERIFICATION_REVIEW_REQUIRED''
          else None)"

definition find_case :: "id \<Rightarrow> verification \<Rightarrow> case_row option" where
  "find_case i s = first_row (\<lambda>c. case_id c = i) (case_rows s)"

definition insert_case :: "case_row \<Rightarrow> case_row vtx" where
  "insert_case c s =
     (case verification_case_guard None c s of
        Some code \<Rightarrow> Inl (VerificationRaised code)
      | None \<Rightarrow>
          (if \<not> case_revision c > 0 then Inl CheckBroken
           else if any_row (\<lambda>b. case_id b = case_id c \<or> (open_case b \<and> open_case c \<and> case_subject b = case_subject c)) (case_rows s)
           then Inl UniqueBroken
           else Inr (c, s\<lparr>case_rows := case_rows s @ [c]\<rparr>)))"

definition update_case :: "id \<Rightarrow> (case_row \<Rightarrow> case_row) \<Rightarrow> case_row vtx" where
  "update_case i f s =
     (case find_case i s of
        None \<Rightarrow> Inl (VerificationRaised ''missing'')
      | Some old \<Rightarrow>
          (case verification_case_guard (Some old) (f old) s of
             Some code \<Rightarrow> Inl (VerificationRaised code)
           | None \<Rightarrow>
               (if \<not> case_revision (f old) > 0 then Inl CheckBroken
                else if any_row (\<lambda>b. case_id b \<noteq> i \<and> open_case b \<and> open_case (f old) \<and> case_subject b = case_subject (f old)) (case_rows s)
                then Inl UniqueBroken
                else Inr (f old, s\<lparr>case_rows := update_rows (\<lambda>c. case_id c = i) f (case_rows s)\<rparr>))))"

definition attachments_of :: "id \<Rightarrow> verification \<Rightarrow> attachment_row list" where
  "attachments_of c s = filter (\<lambda>a. att_case a = c) (attachments s)"

definition case_is_draft :: "id \<Rightarrow> verification \<Rightarrow> bool" where
  "case_is_draft c s \<longleftrightarrow> (case find_case c s of None \<Rightarrow> True | Some r \<Rightarrow> case_status r = DRAFT)"

definition insert_attachment :: "attachment_row \<Rightarrow> attachment_row vtx" where
  "insert_attachment a s =
     (if \<not> case_is_draft (att_case a) s then Inl (VerificationRaised ''VERIFICATION_ATTACHMENTS_FROZEN'')
      else if any_row (\<lambda>b. att_id b = att_id a \<or> att_quarantine b = att_quarantine a \<or> att_object b = att_object a) (attachments s)
      then Inl UniqueBroken
      else Inr (a, s\<lparr>attachments := attachments s @ [a]\<rparr>))"

definition attachment_update_guard :: "attachment_row \<Rightarrow> attachment_row \<Rightarrow> bool" where
  "attachment_update_guard old a \<longleftrightarrow>
     att_case a = att_case old \<and> att_object a = att_object old \<and> att_quarantine a = att_quarantine old \<and> att_category a = att_category old
     \<and> att_status old \<noteq> ATT_REMOVED
     \<and> (att_status old = ATT_VALIDATED \<longrightarrow> att_status a = ATT_REMOVED \<and> a = old\<lparr>att_status := ATT_REMOVED\<rparr>)"

definition update_attachment :: "id \<Rightarrow> (attachment_row \<Rightarrow> attachment_row) \<Rightarrow> attachment_row vtx" where
  "update_attachment i f s =
     (case first_row (\<lambda>a. att_id a = i) (attachments s) of
        None \<Rightarrow> Inl (VerificationRaised ''missing'')
      | Some old \<Rightarrow>
          (if \<not> case_is_draft (att_case (f old)) s then Inl (VerificationRaised ''VERIFICATION_ATTACHMENTS_FROZEN'')
           else if \<not> attachment_update_guard old (f old) then Inl (VerificationRaised ''VERIFICATION_ATTACHMENT_IMMUTABLE'')
           else Inr (f old, s\<lparr>attachments := update_rows (\<lambda>a. att_id a = i) f (attachments s)\<rparr>)))"

definition find_command :: "id \<Rightarrow> id \<Rightarrow> verification \<Rightarrow> command_row option" where
  "find_command u k s = first_row (\<lambda>c. cmd_actor c = u \<and> cmd_key c = k) (commands s)"

definition insert_command :: "command_row \<Rightarrow> unit vtx" where
  "insert_command c s =
     (if find_command (cmd_actor c) (cmd_key c) s \<noteq> None then Inl UniqueBroken
      else Inr ((), s\<lparr>commands := commands s @ [c]\<rparr>))"

definition insert_notice :: "notice_row \<Rightarrow> unit vtx" where
  "insert_notice n s =
     (if any_row (\<lambda>m. notice_id m = notice_id n \<or> (notice_case m = notice_case n \<and> notice_recipient m = notice_recipient n)) (notices s)
      then Inl UniqueBroken
      else Inr ((), s\<lparr>notices := notices s @ [n]\<rparr>))"

definition insert_challenge :: "challenge_row \<Rightarrow> challenge_row vtx" where
  "insert_challenge c s =
     (if any_row (\<lambda>d. chal_id d = chal_id c \<or> chal_hash d = chal_hash c) (challenges s) then Inl UniqueBroken
      else Inr (c, s\<lparr>challenges := challenges s @ [c]\<rparr>))"

definition consume_challenge :: "id \<Rightarrow> instant \<Rightarrow> unit vtx" where
  "consume_challenge i now s =
     Inr ((), s\<lparr>challenges := update_rows (\<lambda>c. chal_id c = i) (\<lambda>c. c\<lparr>chal_consumedAt := Some now\<rparr>) (challenges s)\<rparr>)"

end
