(* ===== verification/Verification_Rules.thy ===== *)
theory Verification_Rules imports Verification_Tables begin

text \<open>
  src/src/verification/verification-rules.ts: the strict schemas of the declared data, the documents
  and the checks they require, and the material a reviewer sees. \<open>parse_iso\<close> is the date format of the
  schema library together with \<open>new Date\<close>: the instant of a text it accepts.
\<close>

subsection \<open>Declared data\<close>

record license_data =
  lic_issuer :: string
  lic_category :: string
  lic_expiresAt :: string
  lic_vehicleTypes :: "vehicle_type list"

record identity_data =
  fullName :: string
  contactPhone :: string
  operatingCity :: string
  license :: "license_data option"

datatype ownership = OWNED | RENTED | BORROWED

record vehicle_data =
  declaredOwnerName :: string
  ownershipEvidenceType :: ownership
  serialNumber :: string
  authorizationExpiresAt :: "string option"

datatype declared = Identity identity_data | Unit vehicle_data

text \<open>\<open>trim()\<close> of the white space a char may be.\<close>

definition is_space :: "char \<Rightarrow> bool" where
  "is_space c \<longleftrightarrow> (of_char c :: nat) \<in> {9, 10, 11, 12, 13, 32, 160}"

definition trim :: "string \<Rightarrow> string" where
  "trim s = rev (dropWhile is_space (rev (dropWhile is_space s)))"

definition member_value :: "string \<Rightarrow> (string \<times> json) list \<Rightarrow> json" where
  "member_value k ms = (case map_of ms k of None \<Rightarrow> JUndefined | Some v \<Rightarrow> v)"

text \<open>A trimmed text between two lengths.\<close>

definition bounded_text :: "nat \<Rightarrow> nat \<Rightarrow> json \<Rightarrow> string option" where
  "bounded_text lo hi v =
     (case v of JStr s \<Rightarrow> if lo \<le> length (trim s) \<and> length (trim s) \<le> hi then Some (trim s) else None | _ \<Rightarrow> None)"

definition short :: "json \<Rightarrow> string option" where
  "short = bounded_text 1 150"

definition only_keys :: "string list \<Rightarrow> (string \<times> json) list \<Rightarrow> bool" where
  "only_keys ks ms \<longleftrightarrow> list_all (\<lambda>m. fst m \<in> set ks) ms"

definition datetime :: "(string \<Rightarrow> instant option) \<Rightarrow> json \<Rightarrow> string option" where
  "datetime parse_iso v = (case v of JStr s \<Rightarrow> if parse_iso s \<noteq> None then Some s else None | _ \<Rightarrow> None)"

definition MOTOR_TYPES :: "(string \<times> vehicle_type) list" where
  "MOTOR_TYPES = [(''MOTORCYCLE'', MOTORCYCLE), (''CAR'', CAR), (''PICKUP'', PICKUP), (''VAN'', VAN), (''TRUCK'', TRUCK)]"

fun each :: "('a \<Rightarrow> 'b option) \<Rightarrow> 'a list \<Rightarrow> 'b list option" where
  "each f [] = Some []"
| "each f (x # xs) = (case f x of None \<Rightarrow> None | Some y \<Rightarrow> map_option ((#) y) (each f xs))"

definition motor_type :: "json \<Rightarrow> vehicle_type option" where
  "motor_type v = (case v of JStr s \<Rightarrow> map_of MOTOR_TYPES s | _ \<Rightarrow> None)"

definition motor_types :: "json \<Rightarrow> vehicle_type list option" where
  "motor_types v =
     (case v of JArr vs \<Rightarrow> if 1 \<le> length vs \<and> length vs \<le> 5 then each motor_type vs else None | _ \<Rightarrow> None)"

definition license_of :: "(string \<Rightarrow> instant option) \<Rightarrow> json \<Rightarrow> license_data option" where
  "license_of parse_iso v =
     (case v of
        JObj ms \<Rightarrow>
          if \<not> only_keys [''issuer'', ''category'', ''expiresAt'', ''vehicleTypes''] ms then None
          else (case (short (member_value ''issuer'' ms), short (member_value ''category'' ms), datetime parse_iso (member_value ''expiresAt'' ms),
                      motor_types (member_value ''vehicleTypes'' ms)) of
                  (Some i, Some c, Some e, Some ts) \<Rightarrow> Some \<lparr>lic_issuer = i, lic_category = c, lic_expiresAt = e, lic_vehicleTypes = ts\<rparr>
                | _ \<Rightarrow> None)
      | _ \<Rightarrow> None)"

text \<open>An optional member: absent or \<open>undefined\<close> is \<open>None\<close>, a value must satisfy its schema.\<close>

definition optional :: "(json \<Rightarrow> 'a option) \<Rightarrow> json \<Rightarrow> 'a option option" where
  "optional f v = (if v = JUndefined then Some None else map_option Some (f v))"

definition identityData :: "(string \<Rightarrow> instant option) \<Rightarrow> json \<Rightarrow> identity_data option" where
  "identityData parse_iso v =
     (case v of
        JObj ms \<Rightarrow>
          if \<not> only_keys [''fullName'', ''contactPhone'', ''operatingCity'', ''documentType'', ''license''] ms
             \<or> member_value ''documentType'' ms \<noteq> JStr ''INE'' then None
          else (case (short (member_value ''fullName'' ms), bounded_text 5 30 (member_value ''contactPhone'' ms),
                      short (member_value ''operatingCity'' ms), optional (license_of parse_iso) (member_value ''license'' ms)) of
                  (Some n, Some p, Some c, Some l) \<Rightarrow> Some \<lparr>fullName = n, contactPhone = p, operatingCity = c, license = l\<rparr>
                | _ \<Rightarrow> None)
      | _ \<Rightarrow> None)"

definition ownership_of :: "json \<Rightarrow> ownership option" where
  "ownership_of v =
     (case v of JStr s \<Rightarrow> map_of [(''OWNED'', OWNED), (''RENTED'', RENTED), (''BORROWED'', BORROWED)] s | _ \<Rightarrow> None)"

definition vehicleData :: "(string \<Rightarrow> instant option) \<Rightarrow> json \<Rightarrow> vehicle_data option" where
  "vehicleData parse_iso v =
     (case v of
        JObj ms \<Rightarrow>
          if \<not> only_keys [''declaredOwnerName'', ''ownershipEvidenceType'', ''serialNumber'', ''authorizationExpiresAt''] ms then None
          else (case (short (member_value ''declaredOwnerName'' ms), ownership_of (member_value ''ownershipEvidenceType'' ms),
                      short (member_value ''serialNumber'' ms), optional (datetime parse_iso) (member_value ''authorizationExpiresAt'' ms)) of
                  (Some n, Some t, Some r, Some e) \<Rightarrow>
                    Some \<lparr>declaredOwnerName = n, ownershipEvidenceType = t, serialNumber = r, authorizationExpiresAt = e\<rparr>
                | _ \<Rightarrow> None)
      | _ \<Rightarrow> None)"

definition parseData :: "(string \<Rightarrow> instant option) \<Rightarrow> bool \<Rightarrow> json \<Rightarrow> declared option" where
  "parseData parse_iso driver v = (if driver then map_option Identity (identityData parse_iso v) else map_option Unit (vehicleData parse_iso v))"

text \<open>\<open>json(data)\<close>: how parsed data is stored.\<close>

definition motor_name :: "vehicle_type \<Rightarrow> string" where
  "motor_name t =
     (case t of MOTORCYCLE \<Rightarrow> ''MOTORCYCLE'' | CAR \<Rightarrow> ''CAR'' | PICKUP \<Rightarrow> ''PICKUP'' | VAN \<Rightarrow> ''VAN'' | TRUCK \<Rightarrow> ''TRUCK''
      | BICYCLE \<Rightarrow> ''BICYCLE'' | OTHER \<Rightarrow> ''OTHER'')"

definition ownership_name :: "ownership \<Rightarrow> string" where
  "ownership_name w = (case w of OWNED \<Rightarrow> ''OWNED'' | RENTED \<Rightarrow> ''RENTED'' | BORROWED \<Rightarrow> ''BORROWED'')"

definition license_json :: "license_data \<Rightarrow> json" where
  "license_json l =
     JObj [(''issuer'', JStr (lic_issuer l)), (''category'', JStr (lic_category l)), (''expiresAt'', JStr (lic_expiresAt l)),
           (''vehicleTypes'', JArr (map (\<lambda>t. JStr (motor_name t)) (lic_vehicleTypes l)))]"

definition stored :: "declared \<Rightarrow> json" where
  "stored d =
     (case d of
        Identity i \<Rightarrow>
          JObj ([(''fullName'', JStr (fullName i)), (''contactPhone'', JStr (contactPhone i)), (''operatingCity'', JStr (operatingCity i)),
                 (''documentType'', JStr ''INE'')] @ (case license i of None \<Rightarrow> [] | Some l \<Rightarrow> [(''license'', license_json l)]))
      | Unit v \<Rightarrow>
          JObj ([(''declaredOwnerName'', JStr (declaredOwnerName v)), (''ownershipEvidenceType'', JStr (ownership_name (ownershipEvidenceType v))),
                 (''serialNumber'', JStr (serialNumber v))]
                @ (case authorizationExpiresAt v of None \<Rightarrow> [] | Some e \<Rightarrow> [(''authorizationExpiresAt'', JStr e)])))"

subsection \<open>Required documents and checks\<close>

definition categories :: "declared \<Rightarrow> category list" where
  "categories d =
     (case d of
        Identity i \<Rightarrow> [FACE_PHOTO, INE_FRONT, INE_BACK] @ (if license i \<noteq> None then [LICENSE] else [])
      | Unit v \<Rightarrow>
          [REGISTRATION_CARD,
           (case ownershipEvidenceType v of RENTED \<Rightarrow> RENTAL_CONTRACT | BORROWED \<Rightarrow> OWNER_AUTHORIZATION | OWNED \<Rightarrow> OWNERSHIP_PROOF)])"

definition checks :: "declared \<Rightarrow> string list" where
  "checks d =
     (case d of
        Identity i \<Rightarrow>
          [''IDENTITY_MATCH'', ''LEGIBLE'']
          @ (if license i \<noteq> None then [''LICENSE_HOLDER'', ''LICENSE_VALIDITY'', ''LICENSE_CATEGORY''] else [])
      | Unit v \<Rightarrow> [''UNIT_MATCH'', ''LEGIBLE'', ''AUTHORIZED_USE''])"

text \<open>The comparison of \<open>decide\<close>: the passed checks without repetition, both lists sorted.\<close>

definition all_checked :: "string list \<Rightarrow> declared \<Rightarrow> bool" where
  "all_checked passed d \<longleftrightarrow> sort (remdups passed) = sort (checks d)"

lemma all_checked_iff: "all_checked passed d \<longleftrightarrow> set passed = set (checks d)"
proof
  assume "all_checked passed d"
  then have "set (sort (remdups passed)) = set (sort (checks d))" by (simp add: all_checked_def)
  then show "set passed = set (checks d)" by simp
next
  assume h: "set passed = set (checks d)"
  have "distinct (checks d)" by (auto simp: checks_def split: declared.splits)
  with h show "all_checked passed d"
    unfolding all_checked_def by (simp add: sorted_distinct_set_unique)
qed

subsection \<open>What is stored parses again\<close>

lemma dropWhile_twice: "dropWhile P (dropWhile P xs) = dropWhile P xs"
  by (induction xs) auto

lemma dropWhile_back:
  assumes "dropWhile P xs = xs"
  shows "dropWhile P (rev (dropWhile P (rev xs))) = rev (dropWhile P (rev xs))"
proof (cases xs)
  case (Cons x ys)
  with assms have "\<not> P x"
    by (metis dropWhile_eq_self_iff list.sel(1) list.distinct(1))
  then have "dropWhile P (rev ys @ [x]) = dropWhile P (rev ys) @ [x]"
    by (simp add: dropWhile_append3)
  with Cons \<open>\<not> P x\<close> show ?thesis by simp
qed simp

lemma trim_trim [simp]: "trim (trim s) = trim s"
proof -
  let ?a = "dropWhile is_space s"
  let ?t = "rev (dropWhile is_space (rev ?a))"
  have "dropWhile is_space ?t = ?t" by (rule dropWhile_back) (rule dropWhile_twice)
  then show ?thesis by (simp add: trim_def dropWhile_twice)
qed

lemma bounded_text_stored: "bounded_text lo hi v = Some t \<Longrightarrow> bounded_text lo hi (JStr t) = Some t"
  by (auto simp: bounded_text_def split: json.splits if_splits)

lemma short_stored: "short v = Some t \<Longrightarrow> short (JStr t) = Some t"
  unfolding short_def by (rule bounded_text_stored)

lemma datetime_stored: "datetime parse_iso v = Some t \<Longrightarrow> datetime parse_iso (JStr t) = Some t"
  by (auto simp: datetime_def split: json.splits if_splits)

lemma motor_type_stored: "motor_type v = Some t \<Longrightarrow> motor_type (JStr (motor_name t)) = Some t"
  by (auto simp: motor_type_def MOTOR_TYPES_def motor_name_def split: json.splits if_splits)

lemma each_stored:
  assumes "\<And>x y. f x = Some y \<Longrightarrow> g y = Some y" and "each f xs = Some ys"
  shows "each g ys = Some ys \<and> length ys = length xs"
  using assms(2) by (induction xs arbitrary: ys) (auto split: option.splits dest: assms(1))

lemma each_map: "each f (map g xs) = each (\<lambda>x. f (g x)) xs"
  by (induction xs) (auto split: option.splits)

lemma motor_types_stored:
  assumes "motor_types v = Some ts"
  shows "motor_types (JArr (map (\<lambda>t. JStr (motor_name t)) ts)) = Some ts"
proof -
  obtain vs where vs: "v = JArr vs" "1 \<le> length vs" "length vs \<le> 5" "each motor_type vs = Some ts"
    using assms by (auto simp: motor_types_def split: json.splits if_splits)
  have "each (\<lambda>t. motor_type (JStr (motor_name t))) ts = Some ts \<and> length ts = length vs"
    by (rule each_stored [OF _ vs(4)]) (rule motor_type_stored)
  with vs(2,3) show ?thesis by (simp add: motor_types_def each_map)
qed

lemma license_stored:
  assumes "license_of parse_iso v = Some l"
  shows "license_of parse_iso (license_json l) = Some l"
proof -
  obtain ms where ms: "short (member_value ''issuer'' ms) = Some (lic_issuer l)" "short (member_value ''category'' ms) = Some (lic_category l)"
    "datetime parse_iso (member_value ''expiresAt'' ms) = Some (lic_expiresAt l)" "motor_types (member_value ''vehicleTypes'' ms) = Some (lic_vehicleTypes l)"
    using assms by (auto simp: license_of_def split: json.splits if_splits option.splits)
  show ?thesis
    using short_stored [OF ms(1)] short_stored [OF ms(2)] datetime_stored [OF ms(3)] motor_types_stored [OF ms(4)]
    by (simp add: license_of_def license_json_def only_keys_def member_value_def)
qed

lemma license_json_defined: "license_json l \<noteq> JUndefined"
  by (simp add: license_json_def)

lemma identity_stored:
  assumes "identityData parse_iso v = Some i"
  shows "identityData parse_iso (stored (Identity i)) = Some i"
proof -
  obtain ms where ms: "short (member_value ''fullName'' ms) = Some (fullName i)" "bounded_text 5 30 (member_value ''contactPhone'' ms) = Some (contactPhone i)"
    "short (member_value ''operatingCity'' ms) = Some (operatingCity i)" "optional (license_of parse_iso) (member_value ''license'' ms) = Some (license i)"
    using assms by (auto simp: identityData_def split: json.splits if_splits option.splits)
  have opt: "case license i of None \<Rightarrow> True | Some l \<Rightarrow> license_of parse_iso (license_json l) = Some l"
    using ms(4) license_stored by (auto simp: optional_def split: if_splits option.splits)
  show ?thesis
    using short_stored [OF ms(1)] bounded_text_stored [OF ms(2)] short_stored [OF ms(3)] opt
    by (cases "license i") (simp_all add: identityData_def stored_def only_keys_def member_value_def optional_def license_json_defined)
qed

lemma vehicle_stored:
  assumes "vehicleData parse_iso v = Some d"
  shows "vehicleData parse_iso (stored (Unit d)) = Some d"
proof -
  obtain ms where ms: "short (member_value ''declaredOwnerName'' ms) = Some (declaredOwnerName d)"
    "ownership_of (member_value ''ownershipEvidenceType'' ms) = Some (ownershipEvidenceType d)"
    "short (member_value ''serialNumber'' ms) = Some (serialNumber d)"
    "optional (datetime parse_iso) (member_value ''authorizationExpiresAt'' ms) = Some (authorizationExpiresAt d)"
    using assms by (auto simp: vehicleData_def split: json.splits if_splits option.splits)
  have opt: "case authorizationExpiresAt d of None \<Rightarrow> True | Some e \<Rightarrow> datetime parse_iso (JStr e) = Some e"
    using ms(4) datetime_stored by (auto simp: optional_def split: if_splits option.splits)
  have own: "ownership_of (JStr (ownership_name w)) = Some w" for w
    by (cases w) (simp_all add: ownership_of_def ownership_name_def)
  show ?thesis
    using short_stored [OF ms(1)] short_stored [OF ms(3)] opt own
    by (cases "authorizationExpiresAt d") (simp_all add: vehicleData_def stored_def only_keys_def member_value_def optional_def)
qed

lemma parse_stored: "parseData parse_iso b v = Some d \<Longrightarrow> parseData parse_iso b (stored d) = Some d"
  by (cases b) (auto simp: parseData_def dest: identity_stored vehicle_stored)

lemma parse_kind: "parseData parse_iso b v = Some d \<Longrightarrow> (\<exists>i. d = Identity i) = b"
  by (cases b) (auto simp: parseData_def)

end
