(* ===== verification/Verification_Cases.thy ===== *)
theory Verification_Cases imports Verification_Rules begin

text \<open>
  The commands of src/src/verification/verification.service.ts on cases: who may read and write a case,
  the command wrapper with its keys, and creation, update, upload, submission and decision. Locks are
  reads here: a transaction runs alone. The hash of a command is an argument, the SHA-256 of the
  canonical text of its operation, target and body; so is what the storage answers. A key that is not a
  UUID is \<open>None\<close>. The recheck \<open>assertLocal\<close> of the runtime is the first argument of every operation.
\<close>

subsection \<open>Actors and subjects\<close>

definition assertLocal :: "bool \<Rightarrow> unit vtx" where
  "assertLocal local_enabled = ensure local_enabled ''VERIFICATION_LOCAL_DISABLED''"

definition actor :: "id \<Rightarrow> user_row vtx" where
  "actor u =
     bindT (readT (find_user u)) (\<lambda>found.
     bindT (ensure (\<exists>r \<in> set_option found. user_active r) ''VERIFICATION_FORBIDDEN'') (\<lambda>_.
     requireT (\<lambda>_. found) (Documentary ''VERIFICATION_FORBIDDEN'')))"

definition is_member :: "id \<Rightarrow> id \<Rightarrow> verification \<Rightarrow> bool" where
  "is_member u p s \<longleftrightarrow> any_row (\<lambda>m. member_user m = u \<and> member_provider m = p) (members s)"

definition member :: "id \<Rightarrow> id \<Rightarrow> unit vtx" where
  "member u p = bindT (readT (is_member u p)) (\<lambda>b. ensure b ''VERIFICATION_NOT_FOUND'')"

text \<open>A subject with the driver, vehicle and owner that \<open>subjectInclude\<close> joins.\<close>

record subject_view =
  sv_id :: "id option"
  sv_driver :: "driver_row option"
  sv_vehicle :: "vehicle_row option"
  sv_provider :: "id option"
  sv_profile :: "id option"
  sv_owner :: "driver_row option" \<comment> \<open>\<open>independentProfile.driver\<close>\<close>

definition find_vehicle :: "id \<Rightarrow> verification \<Rightarrow> vehicle_row option" where
  "find_vehicle v s = first_row (\<lambda>x. vehicle_id x = v) (vehicle_rows s)"

definition profile_owner :: "id option \<Rightarrow> verification \<Rightarrow> driver_row option" where
  "profile_owner p s =
     (case p of None \<Rightarrow> None
      | Some i \<Rightarrow> (case find_profile i s of None \<Rightarrow> None | Some f \<Rightarrow> find_driver (profile_driver f) s))"

definition view_of :: "subject_row \<Rightarrow> verification \<Rightarrow> subject_view" where
  "view_of j s =
     \<lparr>sv_id = Some (subj_id j), sv_driver = Option.bind (subj_driver j) (\<lambda>d. find_driver d s),
      sv_vehicle = Option.bind (subj_vehicle j) (\<lambda>v. find_vehicle v s), sv_provider = subj_provider j, sv_profile = subj_profile j,
      sv_owner = profile_owner (subj_profile j) s\<rparr>"

definition works_as :: "id \<Rightarrow> driver_row option \<Rightarrow> bool" where
  "works_as u d \<longleftrightarrow> (\<exists>r \<in> set_option d. driver_user r = u)"

definition authorize :: "id \<Rightarrow> subject_view \<Rightarrow> bool \<Rightarrow> unit vtx" where
  "authorize u j write_access =
     bindT (actor u) (\<lambda>user.
     if user_role user = SUPER_ADMIN then ensure (\<not> write_access) ''VERIFICATION_PRESENTER_REQUIRED''
     else if user_role user = PROVIDER_ADMIN \<and> sv_provider j \<noteq> None then member u (the (sv_provider j))
     else if user_role user = DRIVER \<and> (works_as u (sv_driver j) \<or> (sv_provider j = None \<and> works_as u (sv_owner j)))
       then ensure (\<not> (write_access \<and> sv_provider j \<noteq> None)) ''VERIFICATION_FLEET_PRESENTER_REQUIRED''
     else fail ''VERIFICATION_NOT_FOUND'')"

definition termsAuthority :: "id \<Rightarrow> terms_scope \<Rightarrow> id option \<Rightarrow> unit vtx" where
  "termsAuthority u scope provider =
     bindT (actor u) (\<lambda>user.
     bindT (ensure (user_verifiedAt user \<noteq> None) ''VERIFICATION_EMAIL_REQUIRED'') (\<lambda>_.
     if scope = DRIVER_SCOPE then
       bindT (ensure (user_role user = DRIVER \<and> provider = None) ''VERIFICATION_FORBIDDEN'') (\<lambda>_.
       bindT (readT (find_driver_of_user u)) (\<lambda>d. ensure (d \<noteq> None) ''VERIFICATION_NOT_FOUND''))
     else
       bindT (ensure (user_role user = PROVIDER_ADMIN \<and> provider \<noteq> None) ''VERIFICATION_FORBIDDEN'') (\<lambda>_.
       member u (the provider))))"

definition accepted_by :: "id \<Rightarrow> string \<Rightarrow> verification \<Rightarrow> bool" where
  "accepted_by u version s \<longleftrightarrow> any_row (\<lambda>a. acc_user a = u \<and> acc_scope a = DRIVER_SCOPE \<and> acc_version a = version) (acceptances s)"

definition fleet_accepted :: "id \<Rightarrow> string \<Rightarrow> verification \<Rightarrow> bool" where
  "fleet_accepted p version s \<longleftrightarrow>
     any_row (\<lambda>m. member_provider m = p
        \<and> any_row (\<lambda>a. acc_user a = member_user m \<and> acc_provider a = Some p \<and> acc_scope a = FLEET_SCOPE \<and> acc_version a = version) (acceptances s)
        \<and> any_row (\<lambda>u. user_id u = member_user m \<and> user_active u \<and> user_role u = PROVIDER_ADMIN) (users s)) (members s)"

definition requireTerms :: "subject_view \<Rightarrow> unit vtx" where
  "requireTerms j =
     bindT (readT v_policy) (\<lambda>policy.
     bindT (readT (\<lambda>s. case (case sv_driver j of Some d \<Rightarrow> Some d | None \<Rightarrow> sv_owner j) of
               None \<Rightarrow> True | Some d \<Rightarrow> accepted_by (driver_user d) (driverTermsVersion policy) s)) (\<lambda>personal.
     bindT (ensure personal ''TERMS_ACCEPTANCE_REQUIRED'') (\<lambda>_.
     bindT (readT (\<lambda>s. case sv_provider j of None \<Rightarrow> True | Some p \<Rightarrow> fleet_accepted p (fleetTermsVersion policy) s)) (\<lambda>fleet.
     ensure fleet ''TERMS_ACCEPTANCE_REQUIRED''))))"

definition case_view :: "id \<Rightarrow> verification \<Rightarrow> (case_row \<times> subject_view) option" where
  "case_view i s =
     (case find_case i s of
        None \<Rightarrow> None
      | Some c \<Rightarrow> map_option (\<lambda>j. (c, view_of j s)) (first_row (\<lambda>j. subj_id j = case_subject c) (subjects s)))"

definition the_case :: "id \<Rightarrow> id \<Rightarrow> bool \<Rightarrow> (case_row \<times> subject_view) vtx" where
  "the_case u i write_access =
     bindT (requireT (case_view i) (Documentary ''VERIFICATION_NOT_FOUND'')) (\<lambda>r.
     bindT (authorize u (snd r) write_access) (\<lambda>_. returnT r))"

definition expect_version :: "case_row \<Rightarrow> int \<Rightarrow> unit vtx" where
  "expect_version c expected = ensure (case_revision c = expected) ''VERIFICATION_VERSION_CONFLICT''"

definition expect_draft :: "case_row \<Rightarrow> unit vtx" where
  "expect_draft c = ensure (case_status c = DRAFT) ''VERIFICATION_CASE_NOT_DRAFT''"

subsection \<open>Commands\<close>

definition event :: "id \<Rightarrow> v_target \<Rightarrow> v_operation \<Rightarrow> unit vtx" where
  "event u target kind s = Inr ((), s\<lparr>v_events := v_events s @ [\<lparr>vev_actor = u, vev_target = target, vev_kind = kind\<rparr>]\<rparr>)"

definition replay_command :: "command_row \<Rightarrow> v_operation \<Rightarrow> v_target \<Rightarrow> string \<Rightarrow> v_result vtx" where
  "replay_command old operation target hash =
     bindT (ensure (cmd_operation old = operation \<and> cmd_target old = target) ''IDEMPOTENCY_KEY_REUSED'') (\<lambda>_.
     bindT (ensure (\<not> cmd_closed old) ''VERIFICATION_ATTEMPT_CLOSED'') (\<lambda>_.
     bindT (ensure (cmd_hash old = hash) ''IDEMPOTENCY_KEY_REUSED'') (\<lambda>_.
     returnT (cmd_result old))))"

definition command ::
    "bool \<Rightarrow> id \<Rightarrow> id option \<Rightarrow> v_operation \<Rightarrow> v_target \<Rightarrow> string \<Rightarrow> unit vtx \<Rightarrow> v_result vtx \<Rightarrow> v_result vtx" where
  "command local_enabled u key operation target hash authority apply_it =
     bindT (assertLocal local_enabled) (\<lambda>_.
     bindT (requireT (\<lambda>_. key) (Documentary ''IDEMPOTENCY_KEY_REQUIRED'')) (\<lambda>k.
     bindT authority (\<lambda>_.
     bindT (readT (find_command u k)) (\<lambda>old.
     case old of
       Some c \<Rightarrow> replay_command c operation target hash
     | None \<Rightarrow>
         bindT apply_it (\<lambda>result.
         bindT (insert_command \<lparr>cmd_actor = u, cmd_key = k, cmd_operation = operation, cmd_target = target, cmd_hash = hash,
           cmd_result = result, cmd_closed = False\<rparr>) (\<lambda>_.
         bindT (event u target operation) (\<lambda>_. returnT result)))))))"

text \<open>The write rights a command checks before it looks for its key.\<close>

definition may_write :: "id \<Rightarrow> id \<Rightarrow> unit vtx" where
  "may_write u i = bindT (the_case u i True) (\<lambda>_. returnT ())"

subsection \<open>Creating a case\<close>

text \<open>The resource of a case: a driver or a vehicle with its owner.\<close>

datatype subject_type = DRIVER_IDENTITY | VEHICLE_SUBJECT

definition subject_stub :: "user_row \<Rightarrow> driver_row option \<Rightarrow> vehicle_row option \<Rightarrow> verification \<Rightarrow> subject_view" where
  "subject_stub caller driver vehicle s =
     (let own_profile = Option.bind driver (\<lambda>d. map_option profile_id (find_profile_of (driver_id d) s));
          independent_scope = (own_profile \<noteq> None \<and> user_role caller = DRIVER \<and> works_as (user_id caller) driver);
          provider = (if independent_scope then None
             else case Option.bind driver driver_provider of Some p \<Rightarrow> Some p | None \<Rightarrow> Option.bind vehicle vehicle_provider);
          vehicle_owner = Option.bind vehicle (\<lambda>v. profile_owner (vehicle_profile v) s) in
      \<lparr>sv_id = None, sv_driver = driver, sv_vehicle = vehicle, sv_provider = provider,
       sv_profile = (if provider \<noteq> None then None
          else case own_profile of Some f \<Rightarrow> Some f | None \<Rightarrow> Option.bind vehicle vehicle_profile),
       sv_owner = (case vehicle_owner of Some d \<Rightarrow> Some d | None \<Rightarrow> driver)\<rparr>)"

definition resolve_stub :: "id \<Rightarrow> subject_type \<Rightarrow> id \<Rightarrow> subject_view vtx" where
  "resolve_stub u ty i =
     bindT (readT (\<lambda>s. if ty = DRIVER_IDENTITY then find_driver i s else None)) (\<lambda>driver.
     bindT (readT (\<lambda>s. if ty = VEHICLE_SUBJECT then find_vehicle i s else None)) (\<lambda>vehicle.
     bindT (ensure (driver \<noteq> None \<or> vehicle \<noteq> None) ''VERIFICATION_NOT_FOUND'') (\<lambda>_.
     bindT (actor u) (\<lambda>caller.
     bindT (readT (subject_stub caller driver vehicle)) (\<lambda>stub.
     bindT (authorize u stub True) (\<lambda>_. returnT stub))))))"

definition existing_subject :: "subject_view \<Rightarrow> verification \<Rightarrow> subject_row option" where
  "existing_subject stub s =
     first_row (\<lambda>j. case sv_driver stub of
         Some d \<Rightarrow> subj_driver j = Some (driver_id d) \<and> subj_provider j = sv_provider stub \<and> subj_profile j = sv_profile stub
       | None \<Rightarrow> subj_vehicle j = map_option vehicle_id (sv_vehicle stub)) (subjects s)"

definition resolveSubject :: "id \<Rightarrow> subject_type \<Rightarrow> id \<Rightarrow> subject_row vtx" where
  "resolveSubject u ty i =
     bindT (resolve_stub u ty i) (\<lambda>stub.
     bindT (readT (existing_subject stub)) (\<lambda>existing.
     case existing of
       Some j \<Rightarrow> returnT j
     | None \<Rightarrow>
         bindT draw (\<lambda>k.
         insert_subject \<lparr>subj_id = k, subj_driver = map_option driver_id (sv_driver stub), subj_vehicle = map_option vehicle_id (sv_vehicle stub),
           subj_provider = sv_provider stub, subj_profile = sv_profile stub\<rparr>)))"

definition new_case :: "id \<Rightarrow> id \<Rightarrow> id \<Rightarrow> case_row" where
  "new_case k subject presenter =
     \<lparr>case_id = k, case_subject = subject, case_presenter = presenter, case_revision = 1, case_status = DRAFT, case_data = JObj [],
      case_material = NoMaterial, submittedAt = None, decidedAt = None, reviewer = None, publicReason = None, checklist = None,
      validUntil = None, licenseValidUntil = None, licenseVehicleTypes = []\<rparr>"

definition createCase :: "bool \<Rightarrow> id \<Rightarrow> id option \<Rightarrow> string \<Rightarrow> subject_type \<Rightarrow> id \<Rightarrow> v_result vtx" where
  "createCase local_enabled u key hash ty i =
     command local_enabled u key CREATE_CASE (RowTarget i) hash
       (bindT (resolve_stub u ty i) (\<lambda>_. returnT ()))
       (bindT (resolveSubject u ty i) (\<lambda>j.
        bindT (readT (view_of j)) (\<lambda>v.
        bindT (requireTerms v) (\<lambda>_.
        bindT (readT (\<lambda>s. any_row (\<lambda>c. case_subject c = subj_id j \<and> open_case c) (case_rows s))) (\<lambda>open_exists.
        bindT (ensure (\<not> open_exists) ''VERIFICATION_OPEN_CASE_EXISTS'') (\<lambda>_.
        bindT draw (\<lambda>k.
        bindT (insert_case (new_case k (subj_id j) u)) (\<lambda>row.
        returnT (CaseReceipt (case_id row) (case_status row) (case_revision row))))))))))"

end
