(* ===== verification/Verification_Review.thy ===== *)
theory Verification_Review imports Verification_Cases begin

text \<open>
  The life of a case after its creation: data, files, submission, withdrawal and decision
  (\<open>updateCase\<close>, \<open>upload\<close>, \<open>complete\<close>, \<open>removeAttachment\<close>, \<open>attachment\<close>, \<open>transition\<close>, \<open>decide\<close> of
  src/src/verification/verification.service.ts). \<open>parse_iso\<close> reads dates; the storage and the image
  library are the argument of \<open>complete\<close>.
\<close>

definition updateCase :: "(string \<Rightarrow> instant option) \<Rightarrow> bool \<Rightarrow> id \<Rightarrow> id option \<Rightarrow> string \<Rightarrow> id \<Rightarrow> int \<Rightarrow> json \<Rightarrow> v_result vtx" where
  "updateCase parse_iso local_enabled u key hash i expected data =
     command local_enabled u key UPDATE_CASE (RowTarget i) hash (may_write u i)
       (bindT (the_case u i True) (\<lambda>(c, j).
        bindT (expect_version c expected) (\<lambda>_.
        bindT (expect_draft c) (\<lambda>_.
        bindT (requireTerms j) (\<lambda>_.
        bindT (requireT (\<lambda>_. parseData parse_iso (sv_driver j \<noteq> None) data) (Documentary ''VERIFICATION_DATA_INVALID'')) (\<lambda>d.
        bindT (update_case i (\<lambda>r. r\<lparr>case_data := stored d, case_revision := case_revision r + 1\<rparr>)) (\<lambda>row.
        returnT (CaseReceipt i (case_status row) (case_revision row)))))))))"

subsection \<open>Files\<close>

definition object_key :: "subject_view \<Rightarrow> id \<Rightarrow> id \<Rightarrow> storage_key" where
  "object_key j c a =
     (case (sv_provider j, sv_driver j) of
        (Some p, Some d) \<Rightarrow> ProviderDriver p (driver_id d) c a
      | (Some p, None) \<Rightarrow> ProviderVehicle p (vehicle_id (the (sv_vehicle j))) c a
      | (None, Some d) \<Rightarrow> IndependentDriver (driver_id (the (sv_owner j))) c a
      | (None, None) \<Rightarrow> IndependentVehicle (driver_id (the (sv_owner j))) (vehicle_id (the (sv_vehicle j))) c a)"

definition upload_apply :: "id \<Rightarrow> id \<Rightarrow> int \<Rightarrow> category \<Rightarrow> instant \<Rightarrow> v_result vtx" where
  "upload_apply u i expected cat now =
     bindT (the_case u i True) (\<lambda>(c, j).
     bindT (expect_version c expected) (\<lambda>_.
     bindT (expect_draft c) (\<lambda>_.
     bindT (requireTerms j) (\<lambda>_.
     bindT (readT (\<lambda>s. length (attachments_of i s))) (\<lambda>n.
     bindT (ensure (\<not> n \<ge> 10) ''VERIFICATION_FILE_LIMIT'') (\<lambda>_.
     bindT draw (\<lambda>k.
     bindT (insert_attachment \<lparr>att_id = k, att_case = i, att_category = cat, att_quarantine = Quarantine k, att_object = object_key j i k,
       att_status = ATT_CREATED, att_expiresAt = now + 300000, att_evidence = None\<rparr>) (\<lambda>a.
     bindT (update_case i (\<lambda>r. r\<lparr>case_revision := case_revision r + 1\<rparr>)) (\<lambda>row.
     returnT (UploadReceipt k (case_revision row) (att_expiresAt a)))))))))))"

definition upload_receipt :: "bool \<Rightarrow> id \<Rightarrow> id option \<Rightarrow> string \<Rightarrow> id \<Rightarrow> int \<Rightarrow> category \<Rightarrow> instant \<Rightarrow> v_result vtx" where
  "upload_receipt local_enabled u key hash i expected cat now =
     command local_enabled u key CREATE_UPLOAD (RowTarget i) hash (may_write u i) (upload_apply u i expected cat now)"

text \<open>The second transaction of \<open>upload\<close>: whether a fresh link to the quarantine is minted.\<close>

definition upload_link :: "id \<Rightarrow> id \<Rightarrow> id \<Rightarrow> instant \<Rightarrow> storage_key option vtx" where
  "upload_link u i a now =
     bindT (the_case u i True) (\<lambda>(c, j).
     bindT (requireTerms j) (\<lambda>_.
     bindT (ensure (case_status c = DRAFT) ''VERIFICATION_CASE_NOT_DRAFT'') (\<lambda>_.
     bindT (requireT (\<lambda>s. first_row (\<lambda>r. att_id r = a) (attachments s)) (VerificationRaised ''missing'')) (\<lambda>row.
     returnT (if att_expiresAt row \<le> now \<or> att_status row \<noteq> ATT_CREATED then None else Some (att_quarantine row))))))"

definition receipt_id :: "v_result \<Rightarrow> id option" where
  "receipt_id r = (case r of UploadReceipt k _ _ \<Rightarrow> Some k | _ \<Rightarrow> None)"

text \<open>Both transactions: the first stays committed when the second refuses the link.\<close>

definition upload ::
    "bool \<Rightarrow> id \<Rightarrow> id option \<Rightarrow> string \<Rightarrow> id \<Rightarrow> int \<Rightarrow> category \<Rightarrow> instant \<Rightarrow> instant \<Rightarrow> verification
     \<Rightarrow> (registry_error + v_result \<times> storage_key option) \<times> verification" where
  "upload local_enabled u key hash i expected cat now later s =
     (case commitT (upload_receipt local_enabled u key hash i expected cat now) s of
        (Inl e, t) \<Rightarrow> (Inl e, t)
      | (Inr r, t) \<Rightarrow>
          (case bindT (requireT (\<lambda>_. receipt_id r) (VerificationRaised ''missing'')) (\<lambda>k. upload_link u i k later) t of
             Inl e \<Rightarrow> (Inl e, t)
           | Inr (l, _) \<Rightarrow> (Inr (r, l), t)))"

text \<open>
  Reading the quarantine, validating the image and writing the object: the storage fails, the image is
  refused with a code, or the evidence of the stored file is known.
\<close>

datatype stored_file = StorageDown | ImageRefused string | FileStored file_evidence

definition own_attachment :: "id \<Rightarrow> id \<Rightarrow> attachment_row vtx" where
  "own_attachment i a = requireT (\<lambda>s. first_row (\<lambda>r. att_id r = a \<and> att_case r = i) (attachments s)) (Documentary ''VERIFICATION_NOT_FOUND'')"

definition complete_apply :: "(attachment_row \<Rightarrow> stored_file) \<Rightarrow> id \<Rightarrow> id \<Rightarrow> id \<Rightarrow> int \<Rightarrow> instant \<Rightarrow> v_result vtx" where
  "complete_apply store u i a expected now =
     bindT (the_case u i True) (\<lambda>(c, j).
     bindT (expect_version c expected) (\<lambda>_.
     bindT (expect_draft c) (\<lambda>_.
     bindT (requireTerms j) (\<lambda>_.
     bindT (own_attachment i a) (\<lambda>row.
     bindT (ensure (\<not> (att_status row \<noteq> ATT_CREATED \<or> att_expiresAt row \<le> now)) ''VERIFICATION_UPLOAD_EXPIRED'') (\<lambda>_.
     case store row of
       StorageDown \<Rightarrow> fail ''STORAGE_UNAVAILABLE''
     | ImageRefused code \<Rightarrow> fail code
     | FileStored ev \<Rightarrow>
         bindT (update_attachment a (\<lambda>r. r\<lparr>att_status := ATT_VALIDATED, att_evidence := Some ev\<rparr>)) (\<lambda>_.
         bindT (update_case i (\<lambda>r. r\<lparr>case_revision := case_revision r + 1\<rparr>)) (\<lambda>row.
         returnT (FileReceipt a ATT_VALIDATED (case_revision row))))))))))"

definition complete ::
    "(attachment_row \<Rightarrow> stored_file) \<Rightarrow> bool \<Rightarrow> id \<Rightarrow> id option \<Rightarrow> string \<Rightarrow> id \<Rightarrow> id \<Rightarrow> int \<Rightarrow> instant \<Rightarrow> v_result vtx" where
  "complete store local_enabled u key hash i a expected now =
     command local_enabled u key COMPLETE_UPLOAD (RowTarget i) hash (may_write u i) (complete_apply store u i a expected now)"

definition removeAttachment :: "bool \<Rightarrow> id \<Rightarrow> id option \<Rightarrow> string \<Rightarrow> id \<Rightarrow> id \<Rightarrow> int \<Rightarrow> v_result vtx" where
  "removeAttachment local_enabled u key hash i a expected =
     command local_enabled u key REMOVE_ATTACHMENT (RowTarget i) hash (may_write u i)
       (bindT (the_case u i True) (\<lambda>(c, j).
        bindT (expect_version c expected) (\<lambda>_.
        bindT (expect_draft c) (\<lambda>_.
        bindT (own_attachment i a) (\<lambda>_.
        bindT (update_attachment a (\<lambda>r. r\<lparr>att_status := ATT_REMOVED\<rparr>)) (\<lambda>_.
        bindT (update_case i (\<lambda>r. r\<lparr>case_revision := case_revision r + 1\<rparr>)) (\<lambda>row.
        returnT (FileReceipt a ATT_REMOVED (case_revision row)))))))))"

text \<open>
  The transaction of \<open>attachment\<close>, and the answer: a stored object whose digest differs is reported like
  a storage that cannot be read, because the check throws inside the \<open>try\<close>.
\<close>

definition attachment_access :: "bool \<Rightarrow> id \<Rightarrow> id \<Rightarrow> id \<Rightarrow> attachment_row vtx" where
  "attachment_access local_enabled u i a =
     bindT (assertLocal local_enabled) (\<lambda>_.
     bindT (the_case u i False) (\<lambda>_.
     bindT (requireT (\<lambda>s. first_row (\<lambda>r. att_id r = a \<and> att_case r = i \<and> att_status r = ATT_VALIDATED) (attachments s))
       (Documentary ''VERIFICATION_NOT_FOUND'')) (\<lambda>row.
     bindT (event u (RowTarget i) ATTACHMENT_ACCESS) (\<lambda>_. returnT row))))"

definition attachment_body :: "(string \<Rightarrow> string) \<Rightarrow> (storage_key \<Rightarrow> string option) \<Rightarrow> attachment_row \<Rightarrow> string + string" where
  "attachment_body sha256 read_object a =
     (case read_object (att_object a) of
        None \<Rightarrow> Inl ''STORAGE_UNAVAILABLE''
      | Some body \<Rightarrow>
          if Some (sha256 body) \<noteq> map_option ev_hash (att_evidence a) then Inl ''STORAGE_UNAVAILABLE'' else Inr body)"

subsection \<open>Submission\<close>

definition material_of :: "subject_view \<Rightarrow> material" where
  "material_of j =
     (case sv_driver j of
        Some d \<Rightarrow> DriverMaterial (driver_name d)
      | None \<Rightarrow>
          (let v = the (sv_vehicle j) in
           VehicleMaterial (vehicle_identifier v) (vehicle_type v) (vehicle_brand v) (vehicle_model v) (vehicle_year v) (vehicle_plate v)))"

definition has_files :: "id \<Rightarrow> declared \<Rightarrow> verification \<Rightarrow> bool" where
  "has_files i d s \<longleftrightarrow>
     list_all (\<lambda>cat. any_row (\<lambda>a. att_status a = ATT_VALIDATED \<and> att_category a = cat) (attachments_of i s)) (categories d)"

definition requiredFiles :: "id \<Rightarrow> declared \<Rightarrow> unit vtx" where
  "requiredFiles i d = bindT (readT (has_files i d)) (\<lambda>b. ensure b ''VERIFICATION_DOCUMENTS_PENDING'')"

definition parsed_case :: "(string \<Rightarrow> instant option) \<Rightarrow> case_row \<Rightarrow> subject_view \<Rightarrow> declared vtx" where
  "parsed_case parse_iso c j = requireT (\<lambda>_. parseData parse_iso (sv_driver j \<noteq> None) (case_data c)) (Documentary ''VERIFICATION_DATA_INVALID'')"

definition submit_apply :: "(string \<Rightarrow> instant option) \<Rightarrow> id \<Rightarrow> id \<Rightarrow> int \<Rightarrow> instant \<Rightarrow> v_result vtx" where
  "submit_apply parse_iso u i expected now =
     bindT (the_case u i True) (\<lambda>(c, j).
     bindT (expect_version c expected) (\<lambda>_.
     bindT (ensure (case_status c \<in> {DRAFT, SUBMITTED}) ''VERIFICATION_CASE_TERMINAL'') (\<lambda>_.
     bindT (expect_draft c) (\<lambda>_.
     bindT (requireTerms j) (\<lambda>_.
     bindT (parsed_case parse_iso c j) (\<lambda>d.
     bindT (requiredFiles i d) (\<lambda>_.
     bindT (update_case i (\<lambda>r. r\<lparr>case_status := SUBMITTED, submittedAt := Some now, case_material := material_of j,
       case_revision := case_revision r + 1\<rparr>)) (\<lambda>row.
     returnT (CaseReceipt i (case_status row) (case_revision row))))))))))"

definition submit :: "(string \<Rightarrow> instant option) \<Rightarrow> bool \<Rightarrow> id \<Rightarrow> id option \<Rightarrow> string \<Rightarrow> id \<Rightarrow> int \<Rightarrow> instant \<Rightarrow> v_result vtx" where
  "submit parse_iso local_enabled u key hash i expected now =
     command local_enabled u key SUBMIT (RowTarget i) hash (may_write u i) (submit_apply parse_iso u i expected now)"

definition withdraw :: "bool \<Rightarrow> id \<Rightarrow> id option \<Rightarrow> string \<Rightarrow> id \<Rightarrow> int \<Rightarrow> v_result vtx" where
  "withdraw local_enabled u key hash i expected =
     command local_enabled u key WITHDRAW (RowTarget i) hash (may_write u i)
       (bindT (the_case u i True) (\<lambda>(c, j).
        bindT (expect_version c expected) (\<lambda>_.
        bindT (ensure (case_status c \<in> {DRAFT, SUBMITTED}) ''VERIFICATION_CASE_TERMINAL'') (\<lambda>_.
        bindT (update_case i (\<lambda>r. r\<lparr>case_status := WITHDRAWN, case_revision := case_revision r + 1\<rparr>)) (\<lambda>row.
        returnT (CaseReceipt i (case_status row) (case_revision row)))))))"

subsection \<open>Decision\<close>

record decision_dto =
  approve :: bool
  dto_expected :: int
  dto_checklistVersion :: string
  dto_passed :: "string list"
  dto_reason :: "string option"

definition POLICY_VERSION :: string where
  "POLICY_VERSION = ''LOCAL-TEST-1''"

definition declared_license :: "declared \<Rightarrow> license_data option" where
  "declared_license d = (case d of Identity i \<Rightarrow> license i | Unit _ \<Rightarrow> None)"

definition declared_expiry :: "(string \<Rightarrow> instant option) \<Rightarrow> declared \<Rightarrow> instant option" where
  "declared_expiry parse_iso d = (case d of Unit v \<Rightarrow> Option.bind (authorizationExpiresAt v) parse_iso | Identity _ \<Rightarrow> None)"

definition license_until :: "(string \<Rightarrow> instant option) \<Rightarrow> declared \<Rightarrow> instant option" where
  "license_until parse_iso d = Option.bind (declared_license d) (\<lambda>l. parse_iso (lic_expiresAt l))"

definition in_future :: "instant option \<Rightarrow> instant \<Rightarrow> bool" where
  "in_future t now \<longleftrightarrow> (case t of None \<Rightarrow> True | Some x \<Rightarrow> \<not> x \<le> now)"

text \<open>The checks of an approval, in their order; the result is what was declared.\<close>

definition approval :: "(string \<Rightarrow> instant option) \<Rightarrow> case_row \<Rightarrow> subject_view \<Rightarrow> decision_dto \<Rightarrow> instant \<Rightarrow> declared vtx" where
  "approval parse_iso c j dto now =
     bindT (requireTerms j) (\<lambda>_.
     bindT (parsed_case parse_iso c j) (\<lambda>d.
     bindT (requiredFiles (case_id c) d) (\<lambda>_.
     bindT (ensure (dto_checklistVersion dto = POLICY_VERSION \<and> all_checked (dto_passed dto) d) ''VERIFICATION_CHECKLIST_REQUIRED'') (\<lambda>_.
     bindT (ensure (case_material c = material_of j) ''VERIFICATION_MATERIAL_CHANGED'') (\<lambda>_.
     bindT (ensure (in_future (license_until parse_iso d) now) ''LICENSE_EXPIRED'') (\<lambda>_.
     if sv_driver j \<noteq> None then returnT d
     else
       bindT (ensure (\<forall>v \<in> set_option (sv_vehicle j). vehicle_type v \<noteq> OTHER) ''VERIFICATION_VEHICLE_CLASSIFICATION_REQUIRED'') (\<lambda>_.
       bindT (ensure (\<exists>v \<in> set_option (sv_vehicle j). vehicle_type v = BICYCLE \<or> (vehicle_plate v \<noteq> None \<and> vehicle_plate v \<noteq> Some []))
         ''VERIFICATION_PLATE_REQUIRED'') (\<lambda>_.
       bindT (ensure (in_future (declared_expiry parse_iso d) now) ''VERIFICATION_EXPIRED'') (\<lambda>_.
       returnT d)))))))))"

text \<open>The rejection needs a reason; the result is nothing.\<close>

definition reviewed :: "(string \<Rightarrow> instant option) \<Rightarrow> case_row \<Rightarrow> subject_view \<Rightarrow> decision_dto \<Rightarrow> instant \<Rightarrow> declared option vtx" where
  "reviewed parse_iso c j dto now =
     (if approve dto then bindT (approval parse_iso c j dto now) (\<lambda>d. returnT (Some d))
      else bindT (ensure (\<exists>r \<in> set_option (dto_reason dto). trim r \<noteq> []) ''VERIFICATION_REJECTION_REASON_REQUIRED'') (\<lambda>_. returnT None))"

text \<open>An approved identity of an independent starts its driver and its profile when both were pending.\<close>

definition start_independent :: "subject_view \<Rightarrow> id \<Rightarrow> instant \<Rightarrow> unit vtx" where
  "start_independent j u now =
     (case (sv_driver j, sv_provider j) of
        (Some d0, None) \<Rightarrow>
          bindT (requireT (find_driver (driver_id d0)) (Missing DriverMissing)) (\<lambda>d.
          bindT (readT (find_profile_of (driver_id d))) (\<lambda>f.
          case f of
            None \<Rightarrow> returnT ()
          | Some p \<Rightarrow>
              if driver_status d = DRV_PENDING \<and> profile_status p = PENDING then
                bindT (update_driver (driver_id d) (\<lambda>x. x\<lparr>driver_status := DRV_ACTIVE, driver_availability := OFFLINE\<rparr>)) (\<lambda>_.
                bindT (update_profile (profile_id p) (\<lambda>x. x\<lparr>profile_status := APPROVED, profile_approved := Some (now, u)\<rparr>)) (\<lambda>_.
                returnT ()))
              else returnT ()))
      | _ \<Rightarrow> returnT ())"

definition start_vehicle :: "subject_view \<Rightarrow> unit vtx" where
  "start_vehicle j =
     (case sv_vehicle j of
        None \<Rightarrow> returnT ()
      | Some v0 \<Rightarrow>
          bindT (requireT (find_vehicle (vehicle_id v0)) (Missing VehicleMissing)) (\<lambda>v.
          if onboardingPending v \<and> vehicle_status v = VEH_INACTIVE then
            bindT (update_vehicle_row True (vehicle_id v) (\<lambda>x. x\<lparr>vehicle_status := VEH_ACTIVE, onboardingPending := False\<rparr>)) (\<lambda>_. returnT ())
          else returnT ()))"

definition recipients :: "case_row \<Rightarrow> subject_view \<Rightarrow> id list" where
  "recipients c j = remdups (case_presenter c # (case sv_driver j of None \<Rightarrow> [] | Some d \<Rightarrow> [driver_user d]))"

definition new_notice :: "id \<Rightarrow> id \<Rightarrow> instant \<Rightarrow> id \<Rightarrow> notice_row" where
  "new_notice k i now r =
     \<lparr>notice_id = k, notice_case = i, notice_recipient = r, notice_status = NTC_PENDING, notice_attempts = 0, notice_leaseUntil = None,
      notice_retryAt = now, notice_unconfirmed = False\<rparr>"

definition notify :: "id \<Rightarrow> instant \<Rightarrow> id \<Rightarrow> unit vtx" where
  "notify i now r = bindT draw (\<lambda>k. insert_notice (new_notice k i now r))"

definition decided :: "(string \<Rightarrow> instant option) \<Rightarrow> id \<Rightarrow> decision_dto \<Rightarrow> declared option \<Rightarrow> instant \<Rightarrow> case_row \<Rightarrow> case_row" where
  "decided parse_iso u dto d now r =
     r\<lparr>case_status := (if approve dto then CASE_APPROVED else CASE_REJECTED), case_revision := case_revision r + 1, reviewer := Some u,
       decidedAt := Some now, publicReason := (case dto_reason dto of None \<Rightarrow> publicReason r | Some t \<Rightarrow> Some t), checklist := Some (dto_passed dto),
       validUntil := (case Option.bind d (declared_expiry parse_iso) of None \<Rightarrow> validUntil r | Some t \<Rightarrow> Some t),
       licenseValidUntil := (case Option.bind d (license_until parse_iso) of None \<Rightarrow> licenseValidUntil r | Some t \<Rightarrow> Some t),
       licenseVehicleTypes := (case Option.bind d declared_license of None \<Rightarrow> [] | Some l \<Rightarrow> lic_vehicleTypes l)\<rparr>"

definition decide_apply :: "(string \<Rightarrow> instant option) \<Rightarrow> id \<Rightarrow> id \<Rightarrow> decision_dto \<Rightarrow> instant \<Rightarrow> v_result vtx" where
  "decide_apply parse_iso u i dto now =
     bindT (the_case u i False) (\<lambda>(c, j).
     bindT (expect_version c (dto_expected dto)) (\<lambda>_.
     bindT (ensure (case_status c = SUBMITTED) ''VERIFICATION_CASE_NOT_SUBMITTED'') (\<lambda>_.
     bindT (reviewed parse_iso c j dto now) (\<lambda>d.
     bindT (update_case i (decided parse_iso u dto d now)) (\<lambda>row.
     bindT (if approve dto then start_independent j u now else returnT ()) (\<lambda>_.
     bindT (if approve dto then start_vehicle j else returnT ()) (\<lambda>_.
     bindT (mapT (notify i now) (recipients c j)) (\<lambda>_.
     returnT (DecisionReceipt i (case_status row) (case_revision row) now)))))))))"

definition reviewer_only :: "id \<Rightarrow> unit vtx" where
  "reviewer_only u = bindT (actor u) (\<lambda>a. ensure (user_role a = SUPER_ADMIN) ''VERIFICATION_FORBIDDEN'')"

definition decide :: "(string \<Rightarrow> instant option) \<Rightarrow> bool \<Rightarrow> id \<Rightarrow> id option \<Rightarrow> string \<Rightarrow> id \<Rightarrow> decision_dto \<Rightarrow> instant \<Rightarrow> v_result vtx" where
  "decide parse_iso local_enabled u key hash i dto now =
     command local_enabled u key DECIDE (RowTarget i) hash
       (bindT (reviewer_only u) (\<lambda>_. bindT (the_case u i False) (\<lambda>_. returnT ())))
       (decide_apply parse_iso u i dto now)"

end
