(* ===== verification/Verification_Accounts.thy ===== *)
theory Verification_Accounts imports Verification_Review begin

text \<open>
  The rest of driver verification: registration and e-mail challenges, acceptance of terms, the vehicle
  of an onboarding, recovery of a command, the switch of the policy, the SQL function
  \<open>verification_eligibility\<close> that admits a driver with a vehicle, and the outbox of decisions
  (src/src/verification/verification.service.ts, verification-policy.ts, verification-notifications.ts and
  migration 20261013000100_driver_verification). Tokens arrive as the digests that are stored; sending a
  mail is an argument that says whether the provider accepted it.
\<close>

subsection \<open>Registration\<close>

definition recent_challenge :: "(challenge_row \<Rightarrow> bool) \<Rightarrow> instant \<Rightarrow> verification \<Rightarrow> bool" where
  "recent_challenge P now s \<longleftrightarrow> any_row (\<lambda>c. P c \<and> chal_createdAt c > now - 60000) (challenges s)"

definition new_challenge :: "id \<Rightarrow> string \<Rightarrow> id option \<Rightarrow> string \<Rightarrow> instant \<Rightarrow> challenge_row" where
  "new_challenge k email u hash now =
     \<lparr>chal_id = k, chal_email = email, chal_user = u, chal_hash = hash, chal_expiresAt = now + 1800000, chal_consumedAt = None,
      chal_createdAt = now\<rparr>"

text \<open>The result says whether a challenge was made; the answer to the caller is the same either way.\<close>

definition register :: "bool \<Rightarrow> string \<Rightarrow> string \<Rightarrow> instant \<Rightarrow> challenge_row option vtx" where
  "register local_enabled email hash now =
     bindT (assertLocal local_enabled) (\<lambda>_.
     let address = lower_case (trim email) in
     bindT (readT (find_email address)) (\<lambda>user.
     bindT (readT (recent_challenge (\<lambda>c. chal_email c = address) now)) (\<lambda>recent.
     if user \<noteq> None \<or> recent then returnT None
     else bindT draw (\<lambda>k. bindT (insert_challenge (new_challenge k address None hash now)) (\<lambda>c. returnT (Some c))))))"

definition new_driver_account :: "string \<Rightarrow> string \<Rightarrow> string \<Rightarrow> instant \<Rightarrow> unit vtx" where
  "new_driver_account email password name now =
     bindT draw (\<lambda>u.
     bindT (insert_user \<lparr>user_id = u, user_email = email, user_password = Some password, user_role = DRIVER, user_active = True,
       user_verifiedAt = Some now\<rparr>) (\<lambda>_.
     bindT draw (\<lambda>d.
     bindT (insert_driver \<lparr>driver_id = d, driver_provider = None, driver_user = u, driver_name = trim name, driver_displayName = None,
       driver_status = DRV_PENDING, driver_availability = OFFLINE\<rparr>) (\<lambda>_.
     bindT draw (\<lambda>f.
     bindT (insert_profile \<lparr>profile_id = f, profile_driver = d, profile_status = PENDING, profile_approved = None, profile_suspended = None,
       profile_rejected = None, profile_reason = None\<rparr>) (\<lambda>_.
     independent_required d))))))"

definition confirm :: "bool \<Rightarrow> string \<Rightarrow> string \<Rightarrow> string \<Rightarrow> instant \<Rightarrow> unit vtx" where
  "confirm local_enabled hash password name now =
     bindT (assertLocal local_enabled) (\<lambda>_.
     bindT (requireT (\<lambda>s. first_row (\<lambda>c. chal_hash c = hash \<and> chal_user c = None) (challenges s)) (Documentary ''REGISTRATION_INVALID'')) (\<lambda>c.
     if chal_consumedAt c \<noteq> None then returnT ()
     else
       bindT (ensure (\<not> chal_expiresAt c \<le> now) ''REGISTRATION_INVALID'') (\<lambda>_.
       bindT (readT (find_email (chal_email c))) (\<lambda>user.
       bindT (if user = None then new_driver_account (chal_email c) password name now else returnT ()) (\<lambda>_.
       consume_challenge (chal_id c) now)))))"

definition requestEmailVerification :: "bool \<Rightarrow> id \<Rightarrow> string \<Rightarrow> instant \<Rightarrow> challenge_row option vtx" where
  "requestEmailVerification local_enabled u hash now =
     bindT (assertLocal local_enabled) (\<lambda>_.
     bindT (actor u) (\<lambda>user.
     bindT (readT (recent_challenge (\<lambda>c. chal_user c = Some u) now)) (\<lambda>recent.
     if user_verifiedAt user \<noteq> None \<or> recent then returnT None
     else bindT draw (\<lambda>k. bindT (insert_challenge (new_challenge k (user_email user) (Some u) hash now)) (\<lambda>c. returnT (Some c))))))"

definition confirmEmail :: "bool \<Rightarrow> id \<Rightarrow> string \<Rightarrow> instant \<Rightarrow> unit vtx" where
  "confirmEmail local_enabled u hash now =
     bindT (assertLocal local_enabled) (\<lambda>_.
     bindT (actor u) (\<lambda>user.
     bindT (requireT (\<lambda>s. first_row (\<lambda>c. chal_hash c = hash) (challenges s)) (Documentary ''REGISTRATION_INVALID'')) (\<lambda>c.
     bindT (ensure (chal_user c = Some u \<and> chal_email c = user_email user \<and> \<not> (chal_consumedAt c = None \<and> chal_expiresAt c \<le> now))
       ''REGISTRATION_INVALID'') (\<lambda>_.
     if chal_consumedAt c = None then
       bindT (update_user u (\<lambda>r. r\<lparr>user_verifiedAt := Some now\<rparr>)) (\<lambda>_. consume_challenge (chal_id c) now)
     else returnT ()))))"

subsection \<open>Terms\<close>

definition acceptTerms ::
    "bool \<Rightarrow> id \<Rightarrow> id option \<Rightarrow> string \<Rightarrow> terms_scope \<Rightarrow> id option \<Rightarrow> string \<Rightarrow> string \<Rightarrow> instant \<Rightarrow> v_result vtx" where
  "acceptTerms local_enabled u key hash scope provider version text_hash now =
     command local_enabled u key ACCEPT_TERMS (if scope = DRIVER_SCOPE then DriverTarget else FleetTarget provider) hash
       (termsAuthority u scope provider)
       (bindT (readT v_policy) (\<lambda>policy.
        let required = (if scope = DRIVER_SCOPE then driverTermsVersion policy else fleetTermsVersion policy) in
        bindT (readT (\<lambda>s. first_row (\<lambda>t. terms_version t = required) (v_terms s))) (\<lambda>terms.
        bindT (ensure (version = required \<and> (\<exists>t \<in> set_option terms. terms_hash t = text_hash \<and> terms_local t)) ''TERMS_VERSION_CONFLICT'') (\<lambda>_.
        bindT (readT (\<lambda>s. first_row (\<lambda>a. acc_user a = u \<and> acc_provider a = provider \<and> acc_version a = required) (acceptances s))) (\<lambda>previous.
        bindT (case previous of
                 Some a \<Rightarrow> returnT a
               | None \<Rightarrow>
                   bindT draw (\<lambda>k.
                   insert_acceptance \<lparr>acc_id = k, acc_user = u, acc_provider = provider, acc_scope = scope, acc_version = required, acc_at = now\<rparr>)) (\<lambda>a.
        returnT (AcceptanceReceipt (acc_id a) (acc_scope a) (acc_version a) (acc_at a))))))))"

subsection \<open>The vehicle of an onboarding\<close>

definition onboarding_createVehicle ::
    "int \<Rightarrow> bool \<Rightarrow> id \<Rightarrow> id option \<Rightarrow> string \<Rightarrow> string \<Rightarrow> vehicle_type \<Rightarrow> vehicle_dto \<Rightarrow> v_result vtx" where
  "onboarding_createVehicle max_vehicles local_enabled u key hash identifier t dto =
     command local_enabled u key CREATE_VEHICLE SelfTarget hash (termsAuthority u DRIVER_SCOPE None)
       (bindT (requireT (find_driver_of_user u) (VerificationRaised ''missing'')) (\<lambda>d.
        bindT (requireT (find_profile_of (driver_id d)) (Documentary ''INDEPENDENT_NOT_FOUND'')) (\<lambda>f.
        bindT (readT v_policy) (\<lambda>policy.
        bindT (readT (\<lambda>s. any_row (\<lambda>a. acc_user a = u \<and> acc_version a = driverTermsVersion policy) (acceptances s))) (\<lambda>agreed.
        bindT (ensure agreed ''TERMS_ACCEPTANCE_REQUIRED'') (\<lambda>_.
        bindT (readT (profile_vehicles (profile_id f))) (\<lambda>count.
        bindT (ensure (\<not> count \<ge> max_vehicles) ''VEHICLE_LIMIT_REACHED'') (\<lambda>_.
        bindT draw (\<lambda>k.
        bindT (insert_vehicle (new_vehicle k None (Some (profile_id f)) identifier t VEH_INACTIVE True dto)) (\<lambda>v.
        returnT (VehicleReceipt (vehicle_id v) (vehicle_status v))))))))))))"

subsection \<open>Recovery of a command and the policy\<close>

definition attemptAuthority :: "id \<Rightarrow> v_operation \<Rightarrow> v_target \<Rightarrow> unit vtx" where
  "attemptAuthority u operation target =
     (if operation = ACCEPT_TERMS then
        termsAuthority u (if target = DriverTarget then DRIVER_SCOPE else FLEET_SCOPE) (case target of FleetTarget p \<Rightarrow> p | _ \<Rightarrow> None)
      else if operation = CREATE_VEHICLE then termsAuthority u DRIVER_SCOPE None
      else if operation = POLICY then reviewer_only u
      else
        (case target of
           RowTarget i \<Rightarrow>
             if operation = CREATE_CASE then
               bindT (readT (find_driver i)) (\<lambda>d.
               bindT (resolve_stub u (if d \<noteq> None then DRIVER_IDENTITY else VEHICLE_SUBJECT) i) (\<lambda>_. returnT ()))
             else bindT (the_case u i (operation \<noteq> DECIDE)) (\<lambda>_. returnT ())
         | _ \<Rightarrow> fail ''VERIFICATION_TARGET_INVALID''))"

datatype attempt_state = ABSENT | APPLIED v_result | CLOSED_NO_EFFECTS

definition verification_attempt :: "bool \<Rightarrow> id \<Rightarrow> id \<Rightarrow> v_operation \<Rightarrow> v_target \<Rightarrow> bool \<Rightarrow> attempt_state vtx" where
  "verification_attempt local_enabled u key operation target close =
     bindT (assertLocal local_enabled) (\<lambda>_.
     bindT (attemptAuthority u operation target) (\<lambda>_.
     bindT (readT (find_command u key)) (\<lambda>old.
     case old of
       Some c \<Rightarrow>
         bindT (ensure (cmd_operation c = operation \<and> cmd_target c = target) ''IDEMPOTENCY_KEY_REUSED'') (\<lambda>_.
         returnT (if cmd_closed c then CLOSED_NO_EFFECTS else APPLIED (cmd_result c)))
     | None \<Rightarrow>
         if close then
           bindT (insert_command \<lparr>cmd_actor = u, cmd_key = key, cmd_operation = operation, cmd_target = target, cmd_hash = [],
             cmd_result = NoResult, cmd_closed = True\<rparr>) (\<lambda>_. returnT CLOSED_NO_EFFECTS)
         else returnT ABSENT)))"

definition activation :: "bool \<Rightarrow> id \<Rightarrow> id option \<Rightarrow> string \<Rightarrow> int \<Rightarrow> bool \<Rightarrow> v_result vtx" where
  "activation local_enabled u key hash expected enabled =
     command local_enabled u key POLICY PolicyTarget hash (reviewer_only u)
       (bindT (readT v_policy) (\<lambda>policy.
        bindT (ensure (policy_revision policy = expected) ''VERIFICATION_VERSION_CONFLICT'') (\<lambda>_.
        (\<lambda>s. let p = policy\<lparr>policy_enabled := enabled, policy_revision := policy_revision policy + 1\<rparr>
              in Inr (PolicyReceipt (policy_enabled p) (policy_revision p), s\<lparr>v_policy := p\<rparr>)))))"

subsection \<open>Eligibility\<close>

text \<open>The approved case of a scope with the latest decision.\<close>

definition later_case :: "case_row \<Rightarrow> case_row \<Rightarrow> bool" where
  "later_case a b \<longleftrightarrow>
     (let da = the (decidedAt a); db = the (decidedAt b) in da > db \<or> (da = db \<and> case_id a > case_id b))"

fun latest :: "case_row list \<Rightarrow> case_row option" where
  "latest [] = None"
| "latest (c # cs) = (case latest cs of None \<Rightarrow> Some c | Some d \<Rightarrow> if later_case d c then Some d else Some c)"

definition approved_case :: "(subject_row \<Rightarrow> bool) \<Rightarrow> verification \<Rightarrow> case_row option" where
  "approved_case P s =
     latest (filter (\<lambda>c. case_status c = CASE_APPROVED \<and> any_row (\<lambda>j. subj_id j = case_subject c \<and> P j) (subjects s)) (case_rows s))"

definition vehicle_material :: "vehicle_row \<Rightarrow> material" where
  "vehicle_material v =
     VehicleMaterial (vehicle_identifier v) (vehicle_type v) (vehicle_brand v) (vehicle_model v) (vehicle_year v) (vehicle_plate v)"

definition license_problem :: "vehicle_row \<Rightarrow> case_row \<Rightarrow> instant \<Rightarrow> string option" where
  "license_problem v ic t =
     (if vehicle_type v = BICYCLE then None
      else case licenseValidUntil ic of
        None \<Rightarrow> Some ''LICENSE_REQUIRED''
      | Some x \<Rightarrow>
          if x \<le> t then Some ''LICENSE_EXPIRED''
          else if vehicle_type v \<notin> set (licenseVehicleTypes ic) then Some ''LICENSE_CATEGORY_MISMATCH''
          else None)"

definition fleet_terms :: "driver_row \<Rightarrow> string \<Rightarrow> verification \<Rightarrow> bool" where
  "fleet_terms d version s \<longleftrightarrow>
     any_row (\<lambda>a. acc_provider a \<noteq> None \<and> acc_provider a = driver_provider d \<and> acc_version a = version
        \<and> any_row (\<lambda>m. Some (member_provider m) = acc_provider a \<and> member_user m = acc_user a) (members s)
        \<and> any_row (\<lambda>u. user_id u = acc_user a \<and> user_active u \<and> user_role u = PROVIDER_ADMIN) (users s)) (acceptances s)"

definition reviewed_problem :: "driver_row \<Rightarrow> vehicle_row \<Rightarrow> case_row \<Rightarrow> case_row \<Rightarrow> instant \<Rightarrow> verification \<Rightarrow> string option" where
  "reviewed_problem d v ic vc t s =
     (if case_material ic \<noteq> DriverMaterial (driver_name d) \<or> case_material vc \<noteq> vehicle_material v then Some ''VERIFICATION_REVALIDATION_REQUIRED''
      else if \<not> in_future (validUntil ic) t \<or> \<not> in_future (validUntil vc) t then Some ''VERIFICATION_EXPIRED''
      else if \<not> accepted_by (driver_user d) (driverTermsVersion (v_policy s)) s then Some ''TERMS_ACCEPTANCE_REQUIRED''
      else if vehicle_provider v \<noteq> None \<and> \<not> fleet_terms d (fleetTermsVersion (v_policy s)) s then Some ''TERMS_ACCEPTANCE_REQUIRED''
      else if vehicle_type v = OTHER then Some ''VERIFICATION_VEHICLE_CLASSIFICATION_REQUIRED''
      else license_problem v ic t)"

text \<open>
  \<open>verification_eligibility\<close> for a driver and a vehicle that exist; \<open>local_test\<close> is the setting
  \<open>mandaria.verification_environment\<close> of the transaction, which \<open>assertDocumentaryEligibility\<close> sets
  outside production.
\<close>

definition verification_eligibility :: "bool \<Rightarrow> instant \<Rightarrow> id \<Rightarrow> id \<Rightarrow> verification \<Rightarrow> string option" where
  "verification_eligibility local_test t d v s =
     (case (find_driver d s, find_vehicle v s) of
        (Some dr, Some veh) \<Rightarrow>
          if \<not> policy_enabled (v_policy s) \<and> driver_provider dr \<noteq> None then None
          else if \<not> local_test then Some ''VERIFICATION_TEST_RECEIPT_NOT_OPERATIONAL''
          else
            (case (approved_case (\<lambda>j. subj_driver j = Some d \<and> subj_provider j = vehicle_provider veh \<and> subj_profile j = vehicle_profile veh) s,
                   approved_case (\<lambda>j. subj_vehicle j = Some v) s) of
               (Some ic, Some vc) \<Rightarrow> reviewed_problem dr veh ic vc t s
             | _ \<Rightarrow> Some ''VERIFICATION_REVIEW_REQUIRED'')
      | _ \<Rightarrow> Some ''VERIFICATION_REVIEW_REQUIRED'')"

subsection \<open>The outbox of decisions\<close>

definition notice_due :: "instant \<Rightarrow> notice_row \<Rightarrow> bool" where
  "notice_due now n \<longleftrightarrow>
     notice_attempts n < 5
     \<and> ((notice_status n = NTC_PENDING \<and> notice_retryAt n \<le> now)
        \<or> (notice_status n = NTC_SENDING \<and> (\<exists>x \<in> set_option (notice_leaseUntil n). x < now)))"

definition lease_notice :: "instant \<Rightarrow> notice_row \<Rightarrow> notice_row" where
  "lease_notice now n =
     n\<lparr>notice_status := NTC_SENDING, notice_attempts := notice_attempts n + 1, notice_leaseUntil := Some (now + 60000)\<rparr>"

text \<open>The batch of a flush: at most ten due notices, the oldest first.\<close>

definition lease_notices :: "instant \<Rightarrow> (id \<times> nat) list vtx" where
  "lease_notices now s =
     (let batch = take 10 (filter (notice_due now) (notices s)); ids = map notice_id batch in
      Inr (map (\<lambda>n. (notice_id n, notice_attempts n + 1)) batch,
           s\<lparr>notices := update_rows (\<lambda>n. notice_id n \<in> set ids) (lease_notice now) (notices s)\<rparr>))"

definition notice_allowed :: "notice_row \<Rightarrow> verification \<Rightarrow> bool" where
  "notice_allowed n s \<longleftrightarrow>
     (case (find_user (notice_recipient n) s, case_view (notice_case n) s) of
        (Some u, Some (c, j)) \<Rightarrow>
          user_active u
          \<and> (works_as (user_id u) (sv_driver j)
             \<or> (user_role u = DRIVER \<and> sv_provider j = None \<and> case_presenter c = user_id u)
             \<or> (user_role u = PROVIDER_ADMIN \<and> (\<exists>p \<in> set_option (sv_provider j). is_member (user_id u) p s)))
      | _ \<Rightarrow> False)"

text \<open>\<open>updateMany\<close> of the attempt a worker holds: a later attempt of another worker is left alone.\<close>

definition settle_notice :: "id \<Rightarrow> nat \<Rightarrow> (notice_row \<Rightarrow> notice_row) \<Rightarrow> unit vtx" where
  "settle_notice i attempts f s =
     Inr ((), s\<lparr>notices := update_rows (\<lambda>n. notice_id n = i \<and> notice_attempts n = attempts \<and> notice_status n = NTC_SENDING) f (notices s)\<rparr>)"

definition suppressed :: "notice_row \<Rightarrow> notice_row" where
  "suppressed n = n\<lparr>notice_status := NTC_SUPPRESSED, notice_leaseUntil := None\<rparr>"

definition delivered_notice :: "notice_row \<Rightarrow> notice_row" where
  "delivered_notice n = n\<lparr>notice_status := NTC_ACCEPTED, notice_leaseUntil := None, notice_unconfirmed := False\<rparr>"

definition failed_notice :: "nat \<Rightarrow> instant \<Rightarrow> notice_row \<Rightarrow> notice_row" where
  "failed_notice attempts now n =
     n\<lparr>notice_status := (if attempts \<ge> 5 then NTC_FAILED else NTC_PENDING), notice_leaseUntil := None, notice_unconfirmed := True,
       notice_retryAt := now + min 3600000 (30000 * 2 ^ attempts)\<rparr>"

text \<open>One notice of the batch: is it still allowed, and did the mail provider accept it.\<close>

definition send_notice :: "bool \<Rightarrow> instant \<Rightarrow> id \<times> nat \<Rightarrow> unit vtx" where
  "send_notice mail_accepts now item =
     bindT (requireT (\<lambda>s. first_row (\<lambda>n. notice_id n = fst item) (notices s)) (VerificationRaised ''missing'')) (\<lambda>n.
     bindT (readT (notice_allowed n)) (\<lambda>allowed.
     settle_notice (fst item) (snd item)
       (if \<not> allowed then suppressed else if mail_accepts then delivered_notice else failed_notice (snd item) now)))"

end
