(* ===== verification/Verification_Invariants.thy ===== *)
theory Verification_Invariants imports Verification_Accounts Registry_System begin

text \<open>
  What the tables of driver verification hold between transactions, what they never take back, and the
  abstract review that every case follows. The relation \<open>vkept\<close> collects the three; it is reflexive and
  transitive, so the operations inherit it from their writes. The registry underneath is framed: its
  writes leave the columns of verification alone (\<open>registry.more\<close>), and those of verification the registry.
\<close>

subsection \<open>The abstract review\<close>

text \<open>
  A review drafts a case, freezes what was declared and seen, and then is granted or refused by somebody
  or dropped by its presenter. This is the contract of \<open>VerificationCase\<close>.
\<close>

datatype review =
    Drafting
  | Reviewing json material
  | Granted json material id
  | Refused json material id
  | Dropped

inductive review_step :: "(id \<Rightarrow> review option) \<Rightarrow> (id \<Rightarrow> review option) \<Rightarrow> bool" where
  review_open: "m i = None \<Longrightarrow> review_step m (m(i \<mapsto> Drafting))"
| review_submit: "m i = Some Drafting \<Longrightarrow> review_step m (m(i \<mapsto> Reviewing d x))"
| review_grant: "m i = Some (Reviewing d x) \<Longrightarrow> review_step m (m(i \<mapsto> Granted d x u))"
| review_refuse: "m i = Some (Reviewing d x) \<Longrightarrow> review_step m (m(i \<mapsto> Refused d x u))"
| review_drop: "m i = Some Drafting \<or> m i = Some (Reviewing d x) \<Longrightarrow> review_step m (m(i \<mapsto> Dropped))"

inductive_cases review_stepE: "review_step m n"

definition concluded :: "review \<Rightarrow> bool" where
  "concluded r \<longleftrightarrow> r \<noteq> Drafting \<and> (\<forall>d x. r \<noteq> Reviewing d x)"

lemma review_ended: "review_step\<^sup>*\<^sup>* m n \<Longrightarrow> m i = Some r \<Longrightarrow> concluded r \<Longrightarrow> n i = Some r"
proof (induction rule: rtranclp_induct)
  case (step n p)
  then have "n i = Some r" "concluded r" by simp_all
  with step.hyps(2) show ?case
    by (auto simp: concluded_def elim!: review_stepE)
qed simp

lemma review_keeps_submission:
  "review_step\<^sup>*\<^sup>* m n \<Longrightarrow> m i = Some (Reviewing d x) \<Longrightarrow>
     n i = Some (Reviewing d x) \<or> n i = Some Dropped \<or> (\<exists>u. n i = Some (Granted d x u) \<or> n i = Some (Refused d x u))"
proof (induction rule: rtranclp_induct)
  case (step n p)
  then show ?case by (auto elim!: review_stepE split: if_split_asm)
qed simp

definition review_of_case :: "case_row \<Rightarrow> review" where
  "review_of_case c =
     (case case_status c of
        DRAFT \<Rightarrow> Drafting
      | SUBMITTED \<Rightarrow> Reviewing (case_data c) (case_material c)
      | CASE_APPROVED \<Rightarrow> Granted (case_data c) (case_material c) (the (reviewer c))
      | CASE_REJECTED \<Rightarrow> Refused (case_data c) (case_material c) (the (reviewer c))
      | WITHDRAWN \<Rightarrow> Dropped)"

definition review_in :: "case_row list \<Rightarrow> id \<Rightarrow> review option" where
  "review_in cs i = map_option review_of_case (first_row (\<lambda>c. case_id c = i) cs)"

abbreviation review_of :: "verification \<Rightarrow> id \<Rightarrow> review option" where
  "review_of s \<equiv> review_in (case_rows s)"

subsection \<open>The invariant\<close>

definition subjects_ok :: "subject_row list \<Rightarrow> driver_row list \<Rightarrow> vehicle_row list \<Rightarrow> bool" where
  "subjects_ok js ds vs \<longleftrightarrow>
     distinct (map subj_id js) \<and> (\<forall>i \<in> set js. \<forall>j \<in> set js. same_subject i j \<longrightarrow> i = j)
     \<and> (\<forall>j \<in> set js. subject_check j
          \<and> (\<forall>d. subj_driver j = Some d \<longrightarrow> d \<in> driver_id ` set ds) \<and> (\<forall>v. subj_vehicle j = Some v \<longrightarrow> v \<in> vehicle_id ` set vs))"

text \<open>The files a case needs, as \<open>has_files\<close> reads them.\<close>

definition files_in :: "id \<Rightarrow> declared \<Rightarrow> attachment_row list \<Rightarrow> bool" where
  "files_in i d as \<longleftrightarrow>
     (\<forall>cat \<in> set (categories d). \<exists>a \<in> set as. att_case a = i \<and> att_status a = ATT_VALIDATED \<and> att_category a = cat)"

lemma has_files_in: "has_files i d s = files_in i d (attachments s)"
  by (auto simp: has_files_def files_in_def attachments_of_def any_row_iff list_all_iff)

text \<open>What a reviewer granted: everything was there, checked, and is what the columns of the license say.\<close>

definition granted_ok :: "(string \<Rightarrow> instant option) \<Rightarrow> case_row \<Rightarrow> declared \<Rightarrow> bool" where
  "granted_ok parse_iso c d \<longleftrightarrow>
     all_checked (the (checklist c)) d \<and> licenseValidUntil c = license_until parse_iso d \<and> validUntil c = declared_expiry parse_iso d
     \<and> licenseVehicleTypes c = (case declared_license d of None \<Rightarrow> [] | Some l \<Rightarrow> lic_vehicleTypes l)
     \<and> in_future (licenseValidUntil c) (the (decidedAt c)) \<and> in_future (validUntil c) (the (decidedAt c))"

definition reviewer_in :: "case_row \<Rightarrow> user_row list \<Rightarrow> bool" where
  "reviewer_in c us \<longleftrightarrow> (\<exists>u. reviewer c = Some u \<and> has_account SUPER_ADMIN u us)"

definition case_ok :: "(string \<Rightarrow> instant option) \<Rightarrow> subject_row list \<Rightarrow> attachment_row list \<Rightarrow> user_row list \<Rightarrow> case_row \<Rightarrow> bool" where
  "case_ok parse_iso js as us c \<longleftrightarrow>
     case_revision c > 0
     \<and> (open_case c \<longrightarrow> validUntil c = None \<and> licenseValidUntil c = None)
     \<and> (case_status c \<in> {CASE_APPROVED, CASE_REJECTED} \<longrightarrow> decidedAt c \<noteq> None \<and> reviewer_in c us)
     \<and> (case_status c = CASE_APPROVED \<longrightarrow> checklist c \<noteq> None)
     \<and> (\<exists>j \<in> set js. subj_id j = case_subject c
          \<and> (case_status c \<in> {SUBMITTED, CASE_APPROVED} \<longrightarrow>
               submittedAt c \<noteq> None
               \<and> (\<exists>d. parseData parse_iso (subj_driver j \<noteq> None) (case_data c) = Some d \<and> files_in (case_id c) d as
                    \<and> (case_status c = CASE_APPROVED \<longrightarrow> granted_ok parse_iso c d))))"

definition cases_ok :: "(string \<Rightarrow> instant option) \<Rightarrow> case_row list \<Rightarrow> subject_row list \<Rightarrow> attachment_row list \<Rightarrow> user_row list \<Rightarrow> bool" where
  "cases_ok parse_iso cs js as us \<longleftrightarrow>
     distinct (map case_id cs) \<and> unique_on open_case case_subject cs \<and> (\<forall>c \<in> set cs. case_ok parse_iso js as us c)"

definition attachments_ok :: "attachment_row list \<Rightarrow> bool" where
  "attachments_ok as \<longleftrightarrow> distinct (map att_id as) \<and> (\<forall>a \<in> set as. att_status a = ATT_VALIDATED \<longrightarrow> att_evidence a \<noteq> None)"

definition notices_ok :: "notice_row list \<Rightarrow> bool" where
  "notices_ok ns \<longleftrightarrow>
     distinct (map notice_id ns) \<and> distinct (map (\<lambda>n. (notice_case n, notice_recipient n)) ns) \<and> (\<forall>n \<in> set ns. notice_attempts n \<le> 5)"

definition terms_ok :: "acceptance_row list \<Rightarrow> bool" where
  "terms_ok as \<longleftrightarrow>
     distinct (map acc_id as) \<and> distinct (map (\<lambda>a. (acc_user a, acc_provider a, acc_version a)) as) \<and> list_all acceptance_check as"

definition challenges_ok :: "challenge_row list \<Rightarrow> bool" where
  "challenges_ok cs \<longleftrightarrow> distinct (map chal_id cs) \<and> distinct (map chal_hash cs)"

definition documents_ok :: "(string \<Rightarrow> instant option) \<Rightarrow> verification \<Rightarrow> bool" where
  "documents_ok parse_iso s \<longleftrightarrow>
     subjects_ok (subjects s) (driver_rows s) (vehicle_rows s)
     \<and> cases_ok parse_iso (case_rows s) (subjects s) (attachments s) (users s) \<and> attachments_ok (attachments s)
     \<and> distinct (map (\<lambda>c. (cmd_actor c, cmd_key c)) (commands s)) \<and> notices_ok (notices s) \<and> terms_ok (acceptances s)
     \<and> challenges_ok (challenges s)"

definition verification_ok :: "(string \<Rightarrow> instant option) \<Rightarrow> verification \<Rightarrow> bool" where
  "verification_ok parse_iso s \<longleftrightarrow> registry_ok between s \<and> documents_ok parse_iso s"

subsection \<open>What is never taken back\<close>

definition same_file :: "attachment_row \<Rightarrow> attachment_row \<Rightarrow> bool" where
  "same_file a b \<longleftrightarrow>
     att_id b = att_id a \<and> att_case b = att_case a \<and> att_object b = att_object a \<and> att_category b = att_category a
     \<and> (att_status a = ATT_REMOVED \<longrightarrow> b = a) \<and> (att_status a = ATT_VALIDATED \<longrightarrow> b = a \<or> b = a\<lparr>att_status := ATT_REMOVED\<rparr>)"

definition verification_grows :: "verification \<Rightarrow> verification \<Rightarrow> bool" where
  "verification_grows s t \<longleftrightarrow>
     registry_grows s t \<and> set (subjects s) \<subseteq> set (subjects t) \<and> set (commands s) \<subseteq> set (commands t)
     \<and> set (acceptances s) \<subseteq> set (acceptances t) \<and> set (v_terms s) \<subseteq> set (v_terms t)
     \<and> (\<forall>c \<in> set (case_rows s). final_case c \<longrightarrow> c \<in> set (case_rows t))
     \<and> (\<forall>a \<in> set (attachments s). \<exists>b \<in> set (attachments t). same_file a b)
     \<and> policy_revision (v_policy s) \<le> policy_revision (v_policy t)"

definition vkept :: "(string \<Rightarrow> instant option) \<Rightarrow> verification \<Rightarrow> verification \<Rightarrow> bool" where
  "vkept parse_iso s t \<longleftrightarrow>
     (verification_ok parse_iso s \<longrightarrow> verification_ok parse_iso t \<and> verification_grows s t \<and> review_step\<^sup>*\<^sup>* (review_of s) (review_of t))"

lemma same_file_refl: "same_file a a"
  by (simp add: same_file_def)

lemma same_file_trans: "same_file a b \<Longrightarrow> same_file b c \<Longrightarrow> same_file a c"
  by (auto simp: same_file_def)

lemma verification_grows_refl: "verification_grows s s"
  by (auto simp: verification_grows_def registry_grows_refl intro: same_file_refl)

lemma verification_grows_trans:
  assumes "verification_grows s t" "verification_grows t u"
  shows "verification_grows s u"
proof -
  have st: "\<forall>a \<in> set (attachments s). \<exists>b \<in> set (attachments t). same_file a b"
    and tu: "\<forall>b \<in> set (attachments t). \<exists>c \<in> set (attachments u). same_file b c"
    using assms by (simp_all add: verification_grows_def)
  have "\<exists>c \<in> set (attachments u). same_file a c" if "a \<in> set (attachments s)" for a
    using st tu that same_file_trans by meson
  moreover have "registry_grows s u"
    using assms registry_grows_trans unfolding verification_grows_def by blast
  moreover have "\<forall>c \<in> set (case_rows s). final_case c \<longrightarrow> c \<in> set (case_rows u)"
    using assms unfolding verification_grows_def by blast
  ultimately show ?thesis
    using assms unfolding verification_grows_def by auto
qed

interpretation vkeeping: evolution "vkept parse_iso" for parse_iso
proof
  show "vkept parse_iso s s" for s by (simp add: vkept_def verification_grows_refl)
next
  fix s t u assume "vkept parse_iso s t" "vkept parse_iso t u"
  then show "vkept parse_iso s u"
    unfolding vkept_def by (meson verification_grows_trans rtranclp_trans)
qed

end
