(* ===== verification/Verification_Frame.thy ===== *)
theory Verification_Frame imports Verification_Invariants begin

text \<open>
  The operations of the registry leave the tables of driver verification alone, and the checks of driver
  verification leave everything alone; every row of the registry a document refers to survives.
\<close>

subsection \<open>Operations that only read\<close>

definition unchanged :: "'s \<Rightarrow> 's \<Rightarrow> bool" where
  "unchanged s t \<longleftrightarrow> t = s"

interpretation reading: evolution unchanged
  by unfold_locales (simp_all add: unchanged_def)

lemma unchangedD: "stepsT unchanged m \<Longrightarrow> m s = Inr (a, t) \<Longrightarrow> t = s"
  by (auto simp: unchanged_def dest: stepsTD)

lemma reading_ensure: "stepsT unchanged (ensure b c)" "stepsT unchanged (fail c)"
  by (simp_all add: ensure_def fail_def reading.rules)

lemma reading_actor: "stepsT unchanged (actor u)" and reading_member: "stepsT unchanged (member u p)"
  and reading_local: "stepsT unchanged (assertLocal b)"
  unfolding actor_def member_def assertLocal_def by (intro reading.rules reading_ensure)+

lemmas reading_checks = reading.rules reading_ensure reading_actor reading_member reading_local

lemma reading_authorize: "stepsT unchanged (authorize u j w)"
  unfolding authorize_def by (intro reading_checks)

lemma reading_requireTerms: "stepsT unchanged (requireTerms j)"
  unfolding requireTerms_def by (intro reading_checks)

lemma reading_the_case: "stepsT unchanged (the_case u i w)"
  unfolding the_case_def by (intro reading_checks reading_authorize)

lemma reading_authority:
  "stepsT unchanged (may_write u i)" "stepsT unchanged (resolve_stub u ty k)" "stepsT unchanged (termsAuthority u scope p)"
  "stepsT unchanged (reviewer_only u)"
  unfolding may_write_def resolve_stub_def termsAuthority_def reviewer_only_def
  by (intro reading_checks reading_authorize reading_the_case)+

lemma reading_attemptAuthority: "stepsT unchanged (attemptAuthority u op target)"
  unfolding attemptAuthority_def
  by (cases target) (auto intro!: reading_checks reading_authority reading_the_case)

lemma reading_review: "stepsT unchanged (reviewed parse_iso c j dto now)"
  unfolding reviewed_def approval_def parsed_case_def requiredFiles_def
  by (intro reading_checks reading_requireTerms)

subsection \<open>The registry leaves the documents alone\<close>

definition framed :: "'x registry_scheme \<Rightarrow> 'x registry_scheme \<Rightarrow> bool" where
  "framed s t \<longleftrightarrow> registry.more t = registry.more s"

interpretation framing: evolution framed
  by unfold_locales (simp_all add: framed_def)

lemma framed_writes:
  "stepsT framed draw" "stepsT framed (insert_user u)" "stepsT framed (update_user i fu)" "stepsT framed (insert_provider p)"
  "stepsT framed (update_provider i fp)" "stepsT framed (insert_member m)" "stepsT framed (member_remove i k)"
  "stepsT framed (insert_driver d)" "stepsT framed (update_driver i fd)" "stepsT framed (independent_required i)"
  "stepsT framed (insert_profile f)" "stepsT framed (update_profile i ff)" "stepsT framed (insert_vehicle v)"
  "stepsT framed (update_vehicle_row b i fv)" "stepsT framed (insert_pairing q)" "stepsT framed (close_pairing i t)"
  "stepsT framed (insert_invitation n)" "stepsT framed (update_invitation i fi)" "stepsT framed (drivers_offline i)"
  "stepsT framed (documentary e check)"
  by (auto simp: stepsT_def framed_def draw_def insert_user_def update_user_def insert_provider_def update_provider_def insert_member_def
      member_remove_def insert_driver_def update_driver_def independent_required_def insert_profile_def update_profile_def insert_vehicle_def
      update_vehicle_row_def insert_pairing_def close_pairing_def insert_invitation_def update_invitation_def drivers_offline_def documentary_def
      Let_def split: if_split_asm option.splits)

lemmas framed_rules = framing.rules framed_writes

lemma framed_providers:
  "stepsT framed (provider_create defaults ty name code md mv)" "stepsT framed (provider_update i pdto)"
  "stepsT framed (provider_activate i)" "stepsT framed (provider_suspend i)" "stepsT framed (member_add i u role)"
  unfolding provider_create_def provider_update_def provider_activate_def provider_suspend_def provider_transition_def member_add_def lockProvider_def
  by (intro framed_rules)+

lemma framed_drivers:
  "stepsT framed (driver_create i u name display)" "stepsT framed (driver_update i k ddto)" "stepsT framed (setOwnAvailability u target)"
  unfolding driver_create_def driver_update_def setOwnAvailability_def lockProvider_def
  by (intro framed_rules)+

lemma framed_vehicles:
  "stepsT framed (vehicle_create i identifier vt vdto)" "stepsT framed (vehicle_update i k vdto)"
  "stepsT framed (pair_vehicle eligible i k j now)" "stepsT framed (unpair_vehicle i k now)"
  unfolding vehicle_create_def vehicle_update_def pair_vehicle_def unpair_vehicle_def lockProvider_def assertNoDeliveryAssignment_def
  by (intro framed_rules)+

lemma framed_independents:
  "stepsT framed (independent_approve k reason by_whom now)" "stepsT framed (independent_suspend k why by_whom now)"
  "stepsT framed (independent_reject k why by_whom now)" "stepsT framed (independent_createVehicle mx k identifier vt vdto)"
  "stepsT framed (independent_updateVehicle k j vdto)"
  unfolding independent_approve_def independent_suspend_def independent_reject_def independent_close_def independent_createVehicle_def
    independent_updateVehicle_def lockProfile_def eligibleDriver_def
  by (intro framed_rules)+

lemma framed_activatable: "stepsT framed (activatable v now)"
  unfolding activatable_def by (cases "assertActivatable v now") (simp_all add: framed_rules)

lemma framed_invitations:
  "stepsT framed (invite cfg i input by_user hash now)" "stepsT framed (resend cfg i sc hash now)" "stepsT framed (revoke i sc by_whom now)"
  "stepsT framed (activate hash password found checked now)"
  unfolding invite_def invited_account_def assertDriverSeat_def resend_def revoke_def activate_def activate_find_def activate_invitation_def
    findInScope_def lockInvitation_def lockProvider_def
  by (intro framed_rules framed_activatable)+

lemmas framed_operations = framed_providers framed_writes framed_drivers framed_vehicles framed_independents framed_invitations

lemma framed_step: "registry_step s t \<Longrightarrow> framed s t"
  by (induction rule: registry_step.induct)
    (erule framed_operations [THEN stepsTD] | simp add: framed_def)+

subsection \<open>From the registry to the documents\<close>

lemma framed_fields:
  assumes "framed s t"
  shows "v_policy t = v_policy s" "v_terms t = v_terms s" "acceptances t = acceptances s" "subjects t = subjects s"
    "case_rows t = case_rows s" "attachments t = attachments s" "commands t = commands s" "v_events t = v_events s"
    "notices t = notices s" "challenges t = challenges s"
  using assms by (cases s; cases t; simp add: framed_def)+

lemma grown_accounts:
  assumes "registry_grows s t" "has_account r i (users s)"
  shows "has_account r i (users t)"
proof -
  obtain u where u: "u \<in> set (users s)" "user_id u = i" "user_active u" "user_role u = r"
    using assms(2) by (auto simp: has_account_def)
  with assms(1) obtain w where "w \<in> set (users t)" "user_id w = i" "user_active w" "user_role w = r"
    unfolding registry_grows_def by metis
  then show ?thesis by (auto simp: has_account_def)
qed

lemma grown_resources:
  assumes "registry_grows s t"
  shows "driver_id ` set (driver_rows s) \<subseteq> driver_id ` set (driver_rows t)"
    "vehicle_id ` set (vehicle_rows s) \<subseteq> vehicle_id ` set (vehicle_rows t)"
proof -
  have "\<forall>d \<in> set (driver_rows s). \<exists>e \<in> set (driver_rows t). driver_id e = driver_id d \<and> driver_user e = driver_user d
      \<and> driver_provider e = driver_provider d"
    and "\<forall>v \<in> set (vehicle_rows s). \<exists>w \<in> set (vehicle_rows t). vehicle_id w = vehicle_id v
      \<and> vehicle_provider w = vehicle_provider v \<and> vehicle_profile w = vehicle_profile v"
    using assms by (simp_all add: registry_grows_def)
  then show "driver_id ` set (driver_rows s) \<subseteq> driver_id ` set (driver_rows t)"
    "vehicle_id ` set (vehicle_rows s) \<subseteq> vehicle_id ` set (vehicle_rows t)"
    unfolding subset_iff image_iff by (metis, metis)
qed

lemma case_ok_grows:
  assumes "registry_grows s t" "case_ok parse_iso js as (users s) c"
  shows "case_ok parse_iso js as (users t) c"
  using assms grown_accounts unfolding case_ok_def reviewer_in_def by meson

lemma documents_grow:
  assumes "registry_grows s t" "framed s t" "documents_ok parse_iso s"
  shows "documents_ok parse_iso t"
proof -
  have "subjects_ok (subjects t) (driver_rows t) (vehicle_rows t)"
    using assms(3) grown_resources [OF assms(1)] unfolding documents_ok_def subjects_ok_def framed_fields [OF assms(2)] by blast
  moreover have "cases_ok parse_iso (case_rows t) (subjects t) (attachments t) (users t)"
    using assms(3) case_ok_grows [OF assms(1)] unfolding documents_ok_def cases_ok_def framed_fields [OF assms(2)] by blast
  ultimately show ?thesis
    using assms(3) unfolding documents_ok_def framed_fields [OF assms(2)] by blast
qed

lemma vkept_registry:
  assumes "kept between s t" "framed s t"
  shows "vkept parse_iso s t"
proof -
  have "verification_ok parse_iso t \<and> verification_grows s t \<and> review_step\<^sup>*\<^sup>* (review_of s) (review_of t)"
    if ok: "verification_ok parse_iso s"
  proof -
    have t: "registry_ok between t" "registry_grows s t"
      using assms(1) ok by (simp_all add: kept_def verification_ok_def)
    moreover have "documents_ok parse_iso t"
      using documents_grow [OF t(2) assms(2)] ok by (simp add: verification_ok_def)
    ultimately show ?thesis
      unfolding verification_ok_def verification_grows_def framed_fields [OF assms(2)] by (auto intro: same_file_refl)
  qed
  then show ?thesis by (simp add: vkept_def)
qed

lemma vkept_unchanged: "unchanged s t \<Longrightarrow> vkept parse_iso s t"
  by (simp add: unchanged_def vkeeping.refl)

text \<open>The columns of verification do not matter to the registry.\<close>

lemma registry_fields [simp]:
  "registry_ok X (s\<lparr>v_policy := a\<rparr>) = registry_ok X s" "registry_ok X (s\<lparr>acceptances := b\<rparr>) = registry_ok X s"
  "registry_ok X (s\<lparr>subjects := c\<rparr>) = registry_ok X s" "registry_ok X (s\<lparr>case_rows := d\<rparr>) = registry_ok X s"
  "registry_ok X (s\<lparr>attachments := e\<rparr>) = registry_ok X s" "registry_ok X (s\<lparr>commands := f\<rparr>) = registry_ok X s"
  "registry_ok X (s\<lparr>v_events := g\<rparr>) = registry_ok X s" "registry_ok X (s\<lparr>notices := h\<rparr>) = registry_ok X s"
  "registry_ok X (s\<lparr>challenges := k\<rparr>) = registry_ok X s"
  by (simp_all add: registry_ok_def row_keys_ok_def)

lemma registry_grows_fields [simp]:
  "registry_grows s (s\<lparr>v_policy := a\<rparr>)" "registry_grows s (s\<lparr>acceptances := b\<rparr>)"
  "registry_grows s (s\<lparr>subjects := c\<rparr>)" "registry_grows s (s\<lparr>case_rows := d\<rparr>)"
  "registry_grows s (s\<lparr>attachments := e\<rparr>)" "registry_grows s (s\<lparr>commands := f\<rparr>)"
  "registry_grows s (s\<lparr>v_events := g\<rparr>)" "registry_grows s (s\<lparr>notices := h\<rparr>)"
  "registry_grows s (s\<lparr>challenges := k\<rparr>)"
  by (auto simp: registry_grows_def)

end
