(* ===== verification/Verification_Writes.thy ===== *)
theory Verification_Writes imports Verification_Frame begin

text \<open>
  Every write of the verification tables keeps \<open>vkept\<close>, with what it needs of its caller. The update of
  a case is the step of the abstract review its guard allows.
\<close>

lemma vkeptI:
  assumes "verification_ok parse_iso s \<Longrightarrow> registry_ok between t \<and> registry_grows s t \<and> documents_ok parse_iso t"
    and "verification_ok parse_iso s \<Longrightarrow> registry_grows s t \<Longrightarrow> verification_grows s t"
    and "verification_ok parse_iso s \<Longrightarrow> review_step\<^sup>*\<^sup>* (review_of s) (review_of t)"
  shows "vkept parse_iso s t"
  using assms unfolding vkept_def verification_ok_def by blast

lemma documents_parts:
  assumes "verification_ok parse_iso s"
  shows "registry_ok between s" "subjects_ok (subjects s) (driver_rows s) (vehicle_rows s)"
    "cases_ok parse_iso (case_rows s) (subjects s) (attachments s) (users s)" "attachments_ok (attachments s)"
    "distinct (map (\<lambda>c. (cmd_actor c, cmd_key c)) (commands s))" "notices_ok (notices s)" "terms_ok (acceptances s)"
    "challenges_ok (challenges s)" "distinct (map case_id (case_rows s))"
  using assms by (simp_all add: verification_ok_def documents_ok_def cases_ok_def)

lemma grows_same_files: "\<forall>a \<in> set as. \<exists>b \<in> set as. same_file a b"
  by (blast intro: same_file_refl)

lemma vkept_draw: "draw s = Inr (k, t) \<Longrightarrow> vkept parse_iso s t"
  by (rule vkept_registry [OF kept_draw stepsTD [OF framed_writes(1)]])

lemma vkept_event: "event u target kind s = Inr (x, t) \<Longrightarrow> vkept parse_iso s t"
  by (rule vkeptI)
    (auto simp: event_def verification_ok_def documents_ok_def verification_grows_def intro: same_file_refl)

lemma vkept_policy: "policy_revision p \<ge> policy_revision (v_policy s) \<Longrightarrow> vkept parse_iso s (s\<lparr>v_policy := p\<rparr>)"
  by (rule vkeptI) (auto simp: verification_ok_def documents_ok_def verification_grows_def intro: same_file_refl)

lemma find_command_None: "find_command u k s = None \<longleftrightarrow> (u, k) \<notin> (\<lambda>c. (cmd_actor c, cmd_key c)) ` set (commands s)"
  by (auto simp: find_command_def first_row_None)

lemma vkept_insert_command:
  assumes "insert_command c s = Inr (x, t)"
  shows "vkept parse_iso s t"
proof -
  have t: "t = s\<lparr>commands := commands s @ [c]\<rparr>" "find_command (cmd_actor c) (cmd_key c) s = None"
    using assms by (auto simp: insert_command_def split: if_splits)
  show ?thesis
    using t(2) unfolding t(1) find_command_None
    by (intro vkeptI) (auto simp: verification_ok_def documents_ok_def verification_grows_def intro: same_file_refl)
qed

lemma vkept_insert_acceptance:
  assumes "insert_acceptance a s = Inr (x, t)"
  shows "vkept parse_iso s t"
proof -
  have t: "t = s\<lparr>acceptances := acceptances s @ [a]\<rparr>" "acceptance_check a"
      "\<forall>b \<in> set (acceptances s). acc_id b \<noteq> acc_id a
         \<and> (acc_user b, acc_provider b, acc_version b) \<noteq> (acc_user a, acc_provider a, acc_version a)"
    using assms by (auto simp: insert_acceptance_def any_row_iff split: if_splits)
  have "terms_ok (acceptances s @ [a])" if "terms_ok (acceptances s)"
    using that t(2,3) by (auto simp: terms_ok_def)
  then show ?thesis
    unfolding t(1) by (intro vkeptI) (auto simp: verification_ok_def documents_ok_def verification_grows_def intro: same_file_refl)
qed

lemma vkept_insert_notice:
  assumes "insert_notice n s = Inr (x, t)" "notice_attempts n = 0"
  shows "vkept parse_iso s t"
proof -
  have t: "t = s\<lparr>notices := notices s @ [n]\<rparr>"
      "\<forall>m \<in> set (notices s). notice_id m \<noteq> notice_id n \<and> (notice_case m, notice_recipient m) \<noteq> (notice_case n, notice_recipient n)"
    using assms by (auto simp: insert_notice_def any_row_iff split: if_splits)
  have "notices_ok (notices s @ [n])" if "notices_ok (notices s)"
    using that t(2) assms(2) by (auto simp: notices_ok_def)
  then show ?thesis
    unfolding t(1) by (intro vkeptI) (auto simp: verification_ok_def documents_ok_def verification_grows_def intro: same_file_refl)
qed

lemma vkept_update_notices:
  assumes "\<And>n. n \<in> set (notices s) \<Longrightarrow> P n \<Longrightarrow> notice_id (f n) = notice_id n \<and> notice_case (f n) = notice_case n
      \<and> notice_recipient (f n) = notice_recipient n \<and> (notice_attempts n \<le> 5 \<longrightarrow> notice_attempts (f n) \<le> 5)"
  shows "vkept parse_iso s (s\<lparr>notices := update_rows P f (notices s)\<rparr>)"
proof -
  have "notices_ok (update_rows P f (notices s))" if ok: "notices_ok (notices s)"
  proof -
    have "map notice_id (update_rows P f (notices s)) = map notice_id (notices s)"
      "map (\<lambda>n. (notice_case n, notice_recipient n)) (update_rows P f (notices s)) = map (\<lambda>n. (notice_case n, notice_recipient n)) (notices s)"
      by (rule map_update_rows; simp add: assms)+
    with ok assms show ?thesis by (auto simp: notices_ok_def set_update_rows)
  qed
  then show ?thesis
    by (intro vkeptI) (auto simp: verification_ok_def documents_ok_def verification_grows_def intro: same_file_refl)
qed

lemma vkept_insert_challenge:
  assumes "insert_challenge c s = Inr (x, t)"
  shows "vkept parse_iso s t"
proof -
  have t: "t = s\<lparr>challenges := challenges s @ [c]\<rparr>" "\<forall>d \<in> set (challenges s). chal_id d \<noteq> chal_id c \<and> chal_hash d \<noteq> chal_hash c"
    using assms by (auto simp: insert_challenge_def any_row_iff split: if_splits)
  have "challenges_ok (challenges s @ [c])" if "challenges_ok (challenges s)"
    using that t(2) by (auto simp: challenges_ok_def)
  then show ?thesis
    unfolding t(1) by (intro vkeptI) (auto simp: verification_ok_def documents_ok_def verification_grows_def intro: same_file_refl)
qed

lemma vkept_consume_challenge:
  assumes "consume_challenge i now s = Inr (x, t)"
  shows "vkept parse_iso s t"
proof -
  let ?U = "update_rows (\<lambda>c. chal_id c = i) (\<lambda>c. c\<lparr>chal_consumedAt := Some now\<rparr>) (challenges s)"
  have t: "t = s\<lparr>challenges := ?U\<rparr>" using assms by (simp add: consume_challenge_def)
  have "map chal_id ?U = map chal_id (challenges s)" "map chal_hash ?U = map chal_hash (challenges s)"
    by (rule map_update_rows; simp)+
  then show ?thesis
    unfolding t by (intro vkeptI) (auto simp: verification_ok_def documents_ok_def challenges_ok_def verification_grows_def intro: same_file_refl)
qed

subsection \<open>Subjects\<close>

lemma subject_owned:
  assumes "verification_subject_guard j s" "subject_check j"
  shows "(\<forall>d. subj_driver j = Some d \<longrightarrow> d \<in> driver_id ` set (driver_rows s)) \<and> (\<forall>v. subj_vehicle j = Some v \<longrightarrow> v \<in> vehicle_id ` set (vehicle_rows s))"
proof (cases "subj_driver j")
  case (Some d)
  with assms have "find_driver d s \<noteq> None"
    by (auto simp: verification_subject_guard_def subject_check_def owner_of_def split: if_splits option.splits)
  with Some assms(2) show ?thesis
    using find_driver_member [of d s] by (auto simp: subject_check_def)
next
  case None
  then obtain v where v: "subj_vehicle j = Some v" using assms(2) by (auto simp: subject_check_def)
  with None assms have "first_row (\<lambda>x. vehicle_id x = v) (vehicle_rows s) \<noteq> None"
    by (auto simp: verification_subject_guard_def subject_check_def owner_of_def split: if_splits option.splits)
  with v None show ?thesis
    using first_row_Some [of "\<lambda>x. vehicle_id x = v" "vehicle_rows s"] by auto
qed

lemma case_ok_subjects: "case_ok parse_iso js as us c \<Longrightarrow> set js \<subseteq> set ks \<Longrightarrow> case_ok parse_iso ks as us c"
  unfolding case_ok_def by blast

lemma same_subject_sym: "same_subject i j \<longleftrightarrow> same_subject j i"
  unfolding same_subject_def by (metis (no_types))

lemma vkept_insert_subject:
  assumes "insert_subject j s = Inr (x, t)"
  shows "vkept parse_iso s t"
proof -
  have t: "t = s\<lparr>subjects := subjects s @ [j]\<rparr>" "verification_subject_guard j s" "subject_check j"
      "\<forall>i \<in> set (subjects s). \<not> same_subject i j"
    using assms by (auto simp: insert_subject_def any_row_iff split: if_splits)
  have "subjects_ok (subjects s @ [j]) (driver_rows s) (vehicle_rows s)" if ok: "subjects_ok (subjects s) (driver_rows s) (vehicle_rows s)"
  proof -
    have "\<forall>i \<in> set (subjects s). subj_id i \<noteq> subj_id j" using t(4) by (auto simp: same_subject_def)
    moreover have "\<forall>i \<in> set (subjects s). \<not> same_subject j i" using t(4) same_subject_sym by blast
    ultimately show ?thesis
      using ok t(3,4) subject_owned [OF t(2,3)] unfolding subjects_ok_def by (auto simp: image_iff)
  qed
  moreover have "cases_ok parse_iso (case_rows s) (subjects s @ [j]) (attachments s) (users s)"
    if "cases_ok parse_iso (case_rows s) (subjects s) (attachments s) (users s)"
    using that case_ok_subjects [of parse_iso "subjects s" _ _ _ "subjects s @ [j]"] unfolding cases_ok_def by auto
  ultimately show ?thesis
    unfolding t(1) by (intro vkeptI) (auto simp: verification_ok_def documents_ok_def verification_grows_def intro: same_file_refl)
qed

subsection \<open>Files\<close>

lemma files_in_append: "files_in i d as \<Longrightarrow> files_in i d (as @ [a])"
  by (auto simp: files_in_def)

lemma case_ok_files:
  assumes "case_ok parse_iso js as us c"
    and "\<And>d. case_status c \<in> {SUBMITTED, CASE_APPROVED} \<Longrightarrow> files_in (case_id c) d as \<Longrightarrow> files_in (case_id c) d bs"
  shows "case_ok parse_iso js bs us c"
  using assms unfolding case_ok_def by meson

lemma found_case: "find_case i s = Some c \<Longrightarrow> c \<in> set (case_rows s) \<and> case_id c = i"
  unfolding find_case_def by (drule first_row_Some) simp

lemma find_case_key: "distinct (map case_id (case_rows s)) \<Longrightarrow> c \<in> set (case_rows s) \<Longrightarrow> find_case (case_id c) s = Some c"
  unfolding find_case_def by (rule first_row_unique_key)

lemma vkept_insert_attachment:
  assumes "insert_attachment a s = Inr (x, t)" "att_status a \<noteq> ATT_VALIDATED"
  shows "vkept parse_iso s t"
proof -
  have t: "t = s\<lparr>attachments := attachments s @ [a]\<rparr>" "\<forall>b \<in> set (attachments s). att_id b \<noteq> att_id a"
    using assms(1) by (auto simp: insert_attachment_def any_row_iff split: if_splits)
  have "attachments_ok (attachments s @ [a])" if "attachments_ok (attachments s)"
    using that t(2) assms(2) by (auto simp: attachments_ok_def)
  moreover have "cases_ok parse_iso (case_rows s) (subjects s) (attachments s @ [a]) (users s)"
    if "cases_ok parse_iso (case_rows s) (subjects s) (attachments s) (users s)"
    using that case_ok_files [of parse_iso _ "attachments s" _ _ "attachments s @ [a]"] files_in_append unfolding cases_ok_def by blast
  ultimately show ?thesis
    unfolding t(1) by (intro vkeptI) (auto simp: verification_ok_def documents_ok_def verification_grows_def intro: same_file_refl)
qed

lemma update_attachment_Inr:
  "update_attachment i f s = Inr (x, t) \<longleftrightarrow>
     (\<exists>old. first_row (\<lambda>a. att_id a = i) (attachments s) = Some old \<and> case_is_draft (att_case (f old)) s
        \<and> attachment_update_guard old (f old) \<and> x = f old \<and> t = s\<lparr>attachments := update_rows (\<lambda>a. att_id a = i) f (attachments s)\<rparr>)"
  by (auto simp: update_attachment_def split: option.splits if_splits)

lemma vkept_update_attachment:
  assumes "update_attachment i f s = Inr (x, t)" "\<And>a. att_id (f a) = att_id a"
    and "\<And>a. att_status (f a) = ATT_VALIDATED \<Longrightarrow> att_evidence (f a) \<noteq> None"
  shows "vkept parse_iso s t"
proof -
  let ?U = "update_rows (\<lambda>a. att_id a = i) f (attachments s)"
  obtain old where old: "old \<in> set (attachments s)" "att_id old = i" "case_is_draft (att_case (f old)) s" "attachment_update_guard old (f old)"
    and t: "t = s\<lparr>attachments := ?U\<rparr>"
    using assms(1) unfolding update_attachment_Inr by (auto dest: first_row_Some)
  have g: "att_case (f old) = att_case old" "att_object (f old) = att_object old" "att_category (f old) = att_category old"
      "att_status old \<noteq> ATT_REMOVED" "att_status old = ATT_VALIDATED \<longrightarrow> f old = old\<lparr>att_status := ATT_REMOVED\<rparr>"
    using old(4) by (simp_all add: attachment_update_guard_def)
  show ?thesis
  proof (rule vkeptI)
    assume ok: "verification_ok parse_iso s"
    then have d: "distinct (map att_id (attachments s))" using documents_parts(4) by (simp add: attachments_ok_def)
    note in_U = in_update_row [OF d old(1,2), of _ f]
    have "map att_id ?U = map att_id (attachments s)" by (rule map_update_rows) (simp add: assms(2))
    then have files: "attachments_ok ?U"
      using documents_parts(4) [OF ok] assms(3) in_U unfolding attachments_ok_def by auto
    have still: "files_in (case_id c) e ?U"
      if c: "c \<in> set (case_rows s)" "case_status c \<in> {SUBMITTED, CASE_APPROVED}" "files_in (case_id c) e (attachments s)" for c e
    proof -
      have "att_case old \<noteq> case_id c"
        using old(3) g(1) c(2) find_case_key [OF documents_parts(9) [OF ok] c(1)] by (auto simp: case_is_draft_def)
      then have "a \<in> set ?U" if "a \<in> set (attachments s)" "att_case a = case_id c" for a
        using that in_U unique_key [OF d that(1) old(1)] old(2) by metis
      with c(3) show ?thesis unfolding files_in_def by meson
    qed
    have "cases_ok parse_iso (case_rows s) (subjects s) ?U (users s)"
      using documents_parts(3) [OF ok] case_ok_files [of parse_iso "subjects s" "attachments s" "users s" _ ?U] still unfolding cases_ok_def by blast
    with files show "registry_ok between t \<and> registry_grows s t \<and> documents_ok parse_iso t"
      using documents_parts [OF ok] unfolding t by (simp add: documents_ok_def)
    have "\<exists>b \<in> set ?U. same_file a b" if "a \<in> set (attachments s)" for a
    proof (cases "att_id a = i")
      case True
      then have "a = old" using unique_key [OF d that old(1)] old(2) by simp
      moreover have "same_file old (f old)" using g assms(2) by (auto simp: same_file_def)
      ultimately show ?thesis using in_U by blast
    qed (use that in_U same_file_refl in blast)
    then show "verification_grows s t" unfolding t by (simp add: verification_grows_def)
  qed (simp add: t)
qed

subsection \<open>Cases\<close>

lemma review_in_append:
  "\<forall>b \<in> set cs. case_id b \<noteq> case_id c \<Longrightarrow> review_in (cs @ [c]) = (review_in cs)(case_id c \<mapsto> review_of_case c)"
  by (rule ext) (auto simp: review_in_def first_row_append first_row_single first_row_None split: option.splits dest!: first_row_Some)

lemma vkept_insert_case:
  assumes "insert_case c s = Inr (x, t)" "case_ok parse_iso (subjects s) (attachments s) (users s) c"
  shows "vkept parse_iso s t"
proof -
  have t: "t = s\<lparr>case_rows := case_rows s @ [c]\<rparr>" "case_status c = DRAFT"
      "\<forall>b \<in> set (case_rows s). case_id b \<noteq> case_id c \<and> (open_case b \<and> open_case c \<longrightarrow> case_subject b \<noteq> case_subject c)"
    using assms(1) by (auto simp: insert_case_def verification_case_guard_def any_row_iff split: if_splits)
  have "cases_ok parse_iso (case_rows s @ [c]) (subjects s) (attachments s) (users s)"
    if "cases_ok parse_iso (case_rows s) (subjects s) (attachments s) (users s)"
    using that t(3) assms(2) unfolding cases_ok_def unique_on_append by auto
  moreover have "review_step (review_of s) (review_of t)"
  proof -
    have "review_of s (case_id c) = None" using t(3) by (auto simp: review_in_def first_row_None)
    moreover have "review_of t = (review_of s)(case_id c \<mapsto> Drafting)"
      using review_in_append [of "case_rows s" c] t by (simp add: review_of_case_def)
    ultimately show ?thesis by (simp add: review_open)
  qed
  ultimately show ?thesis
    unfolding t(1) by (intro vkeptI) (auto simp: verification_ok_def documents_ok_def verification_grows_def intro: same_file_refl)
qed

lemma update_case_Inr:
  "update_case i f s = Inr (x, t) \<longleftrightarrow>
     (\<exists>old. find_case i s = Some old \<and> verification_case_guard (Some old) (f old) s = None \<and> case_revision (f old) > 0
        \<and> \<not> any_row (\<lambda>b. case_id b \<noteq> i \<and> open_case b \<and> open_case (f old) \<and> case_subject b = case_subject (f old)) (case_rows s)
        \<and> x = f old \<and> t = s\<lparr>case_rows := update_rows (\<lambda>c. case_id c = i) f (case_rows s)\<rparr>)"
  by (auto simp: update_case_def split: option.splits if_splits)

lemma guard_passes:
  assumes "verification_case_guard (Some old) c s = None"
  shows "\<not> final_case old" "case_id c = case_id old" "case_subject c = case_subject old" "case_presenter c = case_presenter old"
    "case_revision c = case_revision old + 1" "case_status old = DRAFT \<Longrightarrow> case_status c \<in> {DRAFT, SUBMITTED, WITHDRAWN}"
    "case_status old = SUBMITTED \<Longrightarrow> case_data c = case_data old \<and> case_material c = case_material old \<and> submittedAt c = submittedAt old
        \<and> case_status c \<in> {CASE_APPROVED, CASE_REJECTED, WITHDRAWN}"
    "case_status c \<in> {CASE_APPROVED, CASE_REJECTED} \<Longrightarrow> decidedAt c \<noteq> None \<and> has_reviewer c s"
    "case_status c = CASE_APPROVED \<Longrightarrow> submittedAt c \<noteq> None \<and> checklist c \<noteq> None"
  using assms unfolding verification_case_guard_def by (auto split: if_split_asm)

lemma review_in_update:
  assumes "find_case i s = Some old" "case_id (f old) = i" "distinct (map case_id (case_rows s))"
  shows "review_in (update_rows (\<lambda>c. case_id c = i) f (case_rows s)) = (review_of s)(i \<mapsto> review_of_case (f old))"
proof
  fix k
  have d: "distinct (map case_id (update_rows (\<lambda>c. case_id c = i) f (case_rows s)))"
  proof -
    have "map case_id (update_rows (\<lambda>c. case_id c = i) f (case_rows s)) = map case_id (case_rows s)"
      using found_case [OF assms(1)] unique_key [OF assms(3)] assms(2) by (intro map_update_rows) metis
    with assms(3) show ?thesis by simp
  qed
  note in_U = in_update_row [OF assms(3), of old i _ f]
  show "review_in (update_rows (\<lambda>c. case_id c = i) f (case_rows s)) k = ((review_of s)(i \<mapsto> review_of_case (f old))) k"
  proof (cases "k = i")
    case True
    have "f old \<in> set (update_rows (\<lambda>c. case_id c = i) f (case_rows s))" using in_U found_case [OF assms(1)] by blast
    from first_row_unique_key [OF d this] True show ?thesis by (simp add: review_in_def assms(2))
  next
    case False
    have "first_row (\<lambda>c. case_id c = k) (update_rows (\<lambda>c. case_id c = i) f (case_rows s)) = first_row (\<lambda>c. case_id c = k) (case_rows s)"
    proof (cases "first_row (\<lambda>c. case_id c = k) (case_rows s)")
      case None
      then have "first_row (\<lambda>c. case_id c = k) (update_rows (\<lambda>c. case_id c = i) f (case_rows s)) = None"
        using in_U found_case [OF assms(1)] assms(2) False unfolding first_row_None by auto
      with None show ?thesis by simp
    next
      case (Some c)
      then have c: "c \<in> set (case_rows s)" "case_id c = k" by (auto dest: first_row_Some)
      then have "c \<in> set (update_rows (\<lambda>c. case_id c = i) f (case_rows s))" using in_U found_case [OF assms(1)] False by blast
      from first_row_unique_key [OF d this] Some c(2) show ?thesis by simp
    qed
    with False show ?thesis by (simp add: review_in_def)
  qed
qed

lemma review_case_step:
  assumes "verification_case_guard (Some old) c s = None" "m i = Some (review_of_case old)"
  shows "review_step\<^sup>*\<^sup>* m (m(i \<mapsto> review_of_case c))"
proof (cases "case_status old = DRAFT \<and> case_status c = DRAFT")
  case True
  then have "m(i \<mapsto> review_of_case c) = m" using assms(2) by (auto simp: review_of_case_def)
  then show ?thesis by simp
next
  case False
  note g = guard_passes [OF assms(1)]
  have "review_step m (m(i \<mapsto> review_of_case c))"
  proof (cases "case_status old")
    case DRAFT
    then have m: "m i = Some Drafting" using assms(2) by (simp add: review_of_case_def)
    from DRAFT False g(6) have "case_status c = SUBMITTED \<or> case_status c = WITHDRAWN" by auto
    then show ?thesis
      using review_submit [of m i, OF m] review_drop [of m i, OF disjI1 [OF m]] by (auto simp: review_of_case_def)
  next
    case SUBMITTED
    then have m: "m i = Some (Reviewing (case_data c) (case_material c))" using assms(2) g(7) by (simp add: review_of_case_def)
    from SUBMITTED g(7) have "case_status c = CASE_APPROVED \<or> case_status c = CASE_REJECTED \<or> case_status c = WITHDRAWN" by auto
    then show ?thesis
      using review_grant [of m i, OF m] review_refuse [of m i, OF m] review_drop [of m i, OF disjI2 [OF m]] by (auto simp: review_of_case_def)
  qed (use g(1) in \<open>auto simp: final_case_def\<close>)
  then show ?thesis by blast
qed

lemma vkept_update_case:
  assumes "update_case i f s = Inr (x, t)"
    and "\<And>old. verification_ok parse_iso s \<Longrightarrow> find_case i s = Some old \<Longrightarrow> verification_case_guard (Some old) (f old) s = None
        \<Longrightarrow> case_revision (f old) > 0 \<Longrightarrow> case_ok parse_iso (subjects s) (attachments s) (users s) old
        \<Longrightarrow> case_ok parse_iso (subjects s) (attachments s) (users s) (f old)"
  shows "vkept parse_iso s t"
proof -
  let ?U = "update_rows (\<lambda>c. case_id c = i) f (case_rows s)"
  obtain old where old: "find_case i s = Some old" "verification_case_guard (Some old) (f old) s = None" "case_revision (f old) > 0"
      "\<forall>b \<in> set (case_rows s). case_id b \<noteq> i \<and> open_case b \<and> open_case (f old) \<longrightarrow> case_subject b \<noteq> case_subject (f old)"
    and t: "t = s\<lparr>case_rows := ?U\<rparr>"
    using assms(1) unfolding update_case_Inr any_row_iff by blast
  note mem = found_case [OF old(1)] and g = guard_passes [OF old(2)]
  show ?thesis
  proof (rule vkeptI)
    assume ok: "verification_ok parse_iso s"
    note d = documents_parts(9) [OF ok] and cs = documents_parts(3) [OF ok, unfolded cases_ok_def]
    have in_U: "c \<in> set ?U \<longleftrightarrow> (c \<in> set (case_rows s) \<and> case_id c \<noteq> i) \<or> c = f old" for c
      using in_update_row [OF d, of old i c f] mem by blast
    have only: "c = old" if "c \<in> set (case_rows s)" "case_id c = i" for c
      using unique_key [OF d that(1)] mem that(2) by metis
    have "map case_id ?U = map case_id (case_rows s)"
      using only g(2) mem by (intro map_update_rows) metis
    moreover have "unique_on open_case case_subject ?U"
      using cs old(4) only by (intro unique_on_update [OF d]) metis+
    moreover have "case_ok parse_iso (subjects s) (attachments s) (users s) c" if "c \<in> set ?U" for c
      using that cs assms(2) [OF ok old(1-3)] mem unfolding in_U by blast
    ultimately have "cases_ok parse_iso ?U (subjects s) (attachments s) (users s)"
      using cs by (simp add: cases_ok_def)
    then show "registry_ok between t \<and> registry_grows s t \<and> documents_ok parse_iso t"
      using documents_parts [OF ok] unfolding t by (simp add: documents_ok_def)
    have "c \<in> set ?U" if "c \<in> set (case_rows s)" "final_case c" for c
      using that only g(1) unfolding in_U by blast
    then show "verification_grows s t" unfolding t by (simp add: verification_grows_def grows_same_files)
    have "review_of s i = Some (review_of_case old)" using old(1) by (simp add: review_in_def find_case_def)
    from review_case_step [OF old(2), of "review_of s" i, OF this] show "review_step\<^sup>*\<^sup>* (review_of s) (review_of t)"
      unfolding t using review_in_update [OF old(1) _ d] g(2) mem by simp
  qed
qed

end
