(* ===== verification/Verification_System.thy ===== *)
theory Verification_System imports Verification_Writes begin

text \<open>
  The operations of driver verification keep \<open>vkept\<close>; histories of them and of the registry, and what
  follows for every reachable database.
\<close>

subsection \<open>Composition\<close>

lemma vkept_reads: "stepsT unchanged m \<Longrightarrow> stepsT (vkept parse_iso) m"
  unfolding stepsT_def by (blast intro: vkept_unchanged)

lemma vkept_command:
  assumes "stepsT unchanged authority" "stepsT (vkept parse_iso) m"
  shows "stepsT (vkept parse_iso) (command b u key op target hash authority m)"
proof -
  have "stepsT (vkept parse_iso) (replay_command c op target hash)" for c
    unfolding replay_command_def by (intro vkept_reads reading_checks)
  moreover have "stepsT (vkept parse_iso) (insert_command c)" for c by (rule stepsTI) (rule vkept_insert_command)
  moreover have "stepsT (vkept parse_iso) (event u target op)" by (rule stepsTI) (rule vkept_event)
  ultimately show ?thesis
    unfolding command_def by (intro vkeeping.rules vkept_reads [OF reading_local] vkept_reads [OF assms(1)] assms(2))
qed

lemma vkept_draws: "stepsT (vkept parse_iso) draw"
  by (rule stepsTI) (rule vkept_draw)

lemma vkept_checks:
  "stepsT (vkept parse_iso) (ensure b c)" "stepsT (vkept parse_iso) (the_case u i w)" "stepsT (vkept parse_iso) (requireTerms j)"
  "stepsT (vkept parse_iso) (actor u)" "stepsT (vkept parse_iso) (assertLocal b)" "stepsT (vkept parse_iso) (own_attachment i a)"
  "stepsT (vkept parse_iso) (expect_version r k)" "stepsT (vkept parse_iso) (expect_draft r)" "stepsT (vkept parse_iso) (fail c)"
  by (rule vkept_reads, simp add: expect_version_def expect_draft_def own_attachment_def reading_checks reading_the_case reading_requireTerms)+

lemmas vkept_rules = vkeeping.rules vkept_checks vkept_draws

subsection \<open>Cases and their subjects\<close>

lemma the_case_found:
  assumes "the_case u i w s = Inr (r, t)"
  shows "t = s \<and> find_case i s = Some (fst r) \<and> (\<exists>j \<in> set (subjects s). subj_id j = case_subject (fst r) \<and> snd r = view_of j s)"
proof -
  have "t = s" using unchangedD [OF reading_the_case assms] .
  moreover have "case_view i s = Some r"
    using assms by (auto simp: the_case_def tx_simps)
  ultimately show ?thesis
    by (auto simp: case_view_def split: option.splits dest!: first_row_Some)
qed

lemma the_subject:
  assumes "verification_ok parse_iso s" "i \<in> set (subjects s)" "j \<in> set (subjects s)" "subj_id i = subj_id j"
  shows "i = j"
  using assms unique_key [of subj_id "subjects s" i j] by (simp add: verification_ok_def documents_ok_def subjects_ok_def)

lemma view_driver:
  assumes "verification_ok parse_iso s" "j \<in> set (subjects s)"
  shows "(sv_driver (view_of j s) \<noteq> None) = (subj_driver j \<noteq> None)"
proof (cases "subj_driver j")
  case (Some d)
  with assms have "d \<in> driver_id ` set (driver_rows s)" by (auto simp: verification_ok_def documents_ok_def subjects_ok_def)
  then have "find_driver d s \<noteq> None" by (auto simp: find_driver_def first_row_None)
  with Some show ?thesis by (simp add: view_of_def)
qed (simp add: view_of_def)

lemma case_ok_draft:
  "case_ok parse_iso js as us c \<Longrightarrow> case_status r = DRAFT \<Longrightarrow> case_subject r = case_subject c \<Longrightarrow> validUntil r = None
     \<Longrightarrow> licenseValidUntil r = None \<Longrightarrow> case_revision r > 0 \<Longrightarrow> case_ok parse_iso js as us r"
  unfolding case_ok_def by auto

lemma case_ok_withdrawn:
  "case_ok parse_iso js as us c \<Longrightarrow> case_status r = WITHDRAWN \<Longrightarrow> case_subject r = case_subject c \<Longrightarrow> case_revision r > 0
     \<Longrightarrow> case_ok parse_iso js as us r"
  unfolding case_ok_def by auto

lemma vkept_touch:
  assumes "\<And>r. case_status (f r) = case_status r \<and> validUntil (f r) = validUntil r \<and> licenseValidUntil (f r) = licenseValidUntil r"
  shows "stepsT (vkept parse_iso) (update_case i f)"
proof (rule stepsTI, erule vkept_update_case)
  fix s old
  assume g: "verification_case_guard (Some old) (f old) s = None" and r: "case_revision (f old) > 0"
    and c: "case_ok parse_iso (subjects s) (attachments s) (users s) old"
  have "case_status old = DRAFT"
    using guard_passes(1,7) [OF g] assms by (cases "case_status old") (auto simp: final_case_def)
  with c have "validUntil old = None" "licenseValidUntil old = None" by (simp_all add: case_ok_def)
  with \<open>case_status old = DRAFT\<close> show "case_ok parse_iso (subjects s) (attachments s) (users s) (f old)"
    using case_ok_draft [OF c _ guard_passes(3) [OF g] _ _ r] assms by simp
qed

lemma vkept_withdrawing:
  assumes "\<And>r. case_status (f r) = WITHDRAWN"
  shows "stepsT (vkept parse_iso) (update_case i f)"
  by (rule stepsTI, erule vkept_update_case) (use case_ok_withdrawn assms guard_passes(3) in blast)

lemma vkept_new_file: "att_status a = ATT_CREATED \<Longrightarrow> stepsT (vkept parse_iso) (insert_attachment a)"
  by (rule stepsTI, erule vkept_insert_attachment) simp

lemma vkept_checked_file:
  "stepsT (vkept parse_iso) (update_attachment i (\<lambda>r. r\<lparr>att_status := ATT_VALIDATED, att_evidence := Some ev\<rparr>))"
  "stepsT (vkept parse_iso) (update_attachment i (\<lambda>r. r\<lparr>att_status := ATT_REMOVED\<rparr>))"
  by (rule stepsTI, erule vkept_update_attachment; simp)+

lemma vkept_updateCase: "stepsT (vkept parse_iso) (updateCase parse_iso b u key hash i expected data)"
  unfolding updateCase_def by (intro vkept_command reading_authority vkept_rules vkept_touch) simp

lemma vkept_upload: "stepsT (vkept parse_iso) (upload_receipt b u key hash i expected cat now)"
  unfolding upload_receipt_def upload_apply_def
  by (intro vkept_command reading_authority vkept_rules vkept_touch vkept_new_file) simp_all

lemma vkept_complete: "stepsT (vkept parse_iso) (complete store b u key hash i a expected now)"
proof -
  have "stepsT (vkept parse_iso) (case f of StorageDown \<Rightarrow> fail c | ImageRefused code \<Rightarrow> fail code
      | FileStored ev \<Rightarrow> bindT (update_attachment a (\<lambda>r. r\<lparr>att_status := ATT_VALIDATED, att_evidence := Some ev\<rparr>)) (\<lambda>_.
         bindT (update_case i (\<lambda>r. r\<lparr>case_revision := case_revision r + 1\<rparr>)) (\<lambda>row.
         returnT (FileReceipt a ATT_VALIDATED (case_revision row)))))" for f c
    by (cases f) (auto intro!: vkept_rules vkept_touch vkept_checked_file)
  then show ?thesis
    unfolding complete_def complete_apply_def by (intro vkept_command reading_authority vkept_rules)
qed

lemma vkept_removeAttachment: "stepsT (vkept parse_iso) (removeAttachment b u key hash i a expected)"
  unfolding removeAttachment_def
  by (intro vkept_command reading_authority vkept_rules vkept_touch vkept_checked_file) simp_all

lemma vkept_withdraw: "stepsT (vkept parse_iso) (withdraw b u key hash i expected)"
  unfolding withdraw_def
  by (intro vkept_command reading_authority vkept_rules vkept_withdrawing) simp_all

lemma vkept_attachment_access: "stepsT (vkept parse_iso) (attachment_access b u i a)"
proof -
  have "stepsT (vkept parse_iso) (event u target kind)" for target kind by (rule stepsTI) (rule vkept_event)
  then show ?thesis unfolding attachment_access_def by (intro vkept_rules)
qed

subsection \<open>Submission\<close>

lemma vkept_submit: "stepsT (vkept parse_iso) (submit parse_iso b u key hash i expected now)"
  unfolding submit_def
proof (intro vkept_command reading_authority stepsTI)
  fix s x t assume "submit_apply parse_iso u i expected now s = Inr (x, t)"
  then obtain c j s1 d s2 s3 row where c: "the_case u i True s = Inr ((c, j), s1)" and terms: "requireTerms j s1 = Inr ((), s2)"
    and d: "parseData parse_iso (sv_driver j \<noteq> None) (case_data c) = Some d" and files: "has_files i d s2"
    and w: "update_case i (\<lambda>r. r\<lparr>case_status := SUBMITTED, submittedAt := Some now, case_material := material_of j,
        case_revision := case_revision r + 1\<rparr>) s2 = Inr (row, t)"
    by (auto simp: submit_apply_def expect_version_def expect_draft_def parsed_case_def requiredFiles_def ensure_def tx_simps)
  note found = the_case_found [OF c]
  have s2: "s2 = s" using found unchangedD [OF reading_requireTerms terms] by simp
  show "vkept parse_iso s t"
    using w [unfolded s2]
  proof (rule vkept_update_case)
    fix old :: case_row
    let ?new = "old\<lparr>case_status := SUBMITTED, submittedAt := Some now, case_material := material_of j, case_revision := case_revision old + 1\<rparr>"
    assume ok: "verification_ok parse_iso s" and old: "find_case i s = Some old"
      and g: "verification_case_guard (Some old) ?new s = None" and r: "case_revision ?new > 0"
      and co: "case_ok parse_iso (subjects s) (attachments s) (users s) old"
    have "old = c" using found old by simp
    moreover obtain k where k: "k \<in> set (subjects s)" "subj_id k = case_subject c" "j = view_of k s" using found by auto
    ultimately have "parseData parse_iso (subj_driver k \<noteq> None) (case_data old) = Some d"
      using d view_driver [OF ok k(1)] by simp
    moreover have "files_in i d (attachments s)" using files s2 by (simp add: has_files_in)
    moreover have "case_status old = DRAFT"
      using guard_passes(1,7) [OF g] by (cases "case_status old") (auto simp: final_case_def)
    ultimately show "case_ok parse_iso (subjects s) (attachments s) (users s) ?new"
      using co r k \<open>old = c\<close> found_case [OF old] unfolding case_ok_def by auto
  qed
qed

subsection \<open>Creation\<close>

lemma resolved_subject:
  assumes "resolveSubject u ty i s = Inr (j, t)"
  shows "j \<in> set (subjects t) \<and> vkept parse_iso s t"
proof -
  obtain stub s1 where stub: "resolve_stub u ty i s = Inr (stub, s1)"
    and rest: "(case existing_subject stub s1 of Some j \<Rightarrow> returnT j
        | None \<Rightarrow> bindT draw (\<lambda>k. insert_subject \<lparr>subj_id = k, subj_driver = map_option driver_id (sv_driver stub),
            subj_vehicle = map_option vehicle_id (sv_vehicle stub), subj_provider = sv_provider stub, subj_profile = sv_profile stub\<rparr>)) s1 = Inr (j, t)"
    using assms by (auto simp: resolveSubject_def tx_simps)
  have s1: "s1 = s" by (rule unchangedD [OF reading_authority(2) stub])
  show ?thesis
  proof (cases "existing_subject stub s1")
    case None
    with rest obtain k s2 where dr: "draw s1 = Inr (k, s2)"
      and w: "insert_subject \<lparr>subj_id = k, subj_driver = map_option driver_id (sv_driver stub),
            subj_vehicle = map_option vehicle_id (sv_vehicle stub), subj_provider = sv_provider stub, subj_profile = sv_profile stub\<rparr> s2 = Inr (j, t)"
      by (auto simp: tx_simps)
    have "j \<in> set (subjects t)" using w by (auto simp: insert_subject_def split: if_splits)
    moreover have "vkept parse_iso s t"
      using vkeeping.trans [OF vkept_draw [OF dr] vkept_insert_subject [OF w]] s1 by simp
    ultimately show ?thesis by simp
  next
    case (Some k)
    with rest s1 show ?thesis
      by (auto simp: tx_simps existing_subject_def vkeeping.refl dest: first_row_Some)
  qed
qed

lemma vkept_createCase: "stepsT (vkept parse_iso) (createCase b u key hash ty i)"
  unfolding createCase_def
proof (rule vkept_command [OF _ stepsTI])
  show "stepsT unchanged (bindT (resolve_stub u ty i) (\<lambda>_. returnT ()))"
    by (intro reading.rules reading_authority)
next
  fix s x t
  assume run: "bindT (resolveSubject u ty i) (\<lambda>j. bindT (readT (view_of j)) (\<lambda>v. bindT (requireTerms v) (\<lambda>_.
        bindT (readT (\<lambda>s. any_row (\<lambda>c. case_subject c = subj_id j \<and> open_case c) (case_rows s))) (\<lambda>open_exists.
        bindT (ensure (\<not> open_exists) ''VERIFICATION_OPEN_CASE_EXISTS'') (\<lambda>_.
        bindT draw (\<lambda>k. bindT (insert_case (new_case k (subj_id j) u)) (\<lambda>row.
        returnT (CaseReceipt (case_id row) (case_status row) (case_revision row))))))))) s = Inr (x, t)"
  obtain j s1 s2 k s3 row where j: "resolveSubject u ty i s = Inr (j, s1)" and terms: "requireTerms (view_of j s1) s1 = Inr ((), s2)"
    and dr: "draw s2 = Inr (k, s3)" and w: "insert_case (new_case k (subj_id j) u) s3 = Inr (row, t)"
    using run by (auto simp: tx_simps ensure_def)
  have s2: "s2 = s1" by (rule unchangedD [OF reading_requireTerms terms])
  have "j \<in> set (subjects s3)"
    using resolved_subject [OF j] dr s2 by (auto simp: draw_def)
  then have "vkept parse_iso s3 t"
    by (intro vkept_insert_case [OF w]) (auto simp: new_case_def case_ok_def)
  moreover have "vkept parse_iso s1 s3" using vkept_draw dr s2 by blast
  ultimately show "vkept parse_iso s t"
    using resolved_subject [OF j] vkeeping.trans by blast
qed

subsection \<open>Decision\<close>

lemma review_Inr:
  assumes "reviewed parse_iso c j dto now s = Inr (d, t)"
  shows "t = s" "approve dto \<Longrightarrow> \<exists>e. d = Some e \<and> parseData parse_iso (sv_driver j \<noteq> None) (case_data c) = Some e
      \<and> has_files (case_id c) e s \<and> all_checked (dto_passed dto) e \<and> in_future (license_until parse_iso e) now
      \<and> in_future (declared_expiry parse_iso e) now"
proof -
  show "t = s" by (rule unchangedD [OF reading_review assms])
  assume "approve dto"
  with assms obtain e s1 where e: "d = Some e" and a: "approval parse_iso c j dto now s = Inr (e, s1)"
    by (auto simp: reviewed_def tx_simps)
  obtain s2 where terms: "requireTerms j s = Inr ((), s2)"
    and p: "parseData parse_iso (sv_driver j \<noteq> None) (case_data c) = Some e" "has_files (case_id c) e s2" "all_checked (dto_passed dto) e"
      "in_future (license_until parse_iso e) now" "sv_driver j = None \<longrightarrow> in_future (declared_expiry parse_iso e) now"
    using a by (auto simp: approval_def parsed_case_def requiredFiles_def ensure_def tx_simps split: if_split_asm)
  have "s2 = s" by (rule unchangedD [OF reading_requireTerms terms])
  moreover have "declared_expiry parse_iso e = None" if "sv_driver j \<noteq> None"
    using parse_kind [OF p(1)] that by (auto simp: declared_expiry_def split: declared.splits)
  then have "in_future (declared_expiry parse_iso e) now" using p(5) by (cases "sv_driver j") (auto simp: in_future_def)
  ultimately show "\<exists>e. d = Some e \<and> parseData parse_iso (sv_driver j \<noteq> None) (case_data c) = Some e
      \<and> has_files (case_id c) e s \<and> all_checked (dto_passed dto) e \<and> in_future (license_until parse_iso e) now
      \<and> in_future (declared_expiry parse_iso e) now"
    using e p by blast
qed

lemma accounts_listed: "has_reviewer c s \<Longrightarrow> reviewer_in c (users s)"
  by (auto simp: has_reviewer_def reviewer_in_def has_account_def any_row_iff) (metis)

lemma case_ok_decided:
  assumes c: "case_ok parse_iso (subjects s) (attachments s) (users s) c" "case_status c = SUBMITTED"
    and g: "verification_case_guard (Some c) (decided parse_iso u dto d now c) s = None" and r: "case_revision (decided parse_iso u dto d now c) > 0"
    and k: "k \<in> set (subjects s)" "subj_id k = case_subject c"
    and d: "approve dto \<Longrightarrow> \<exists>e. d = Some e \<and> parseData parse_iso (subj_driver k \<noteq> None) (case_data c) = Some e
        \<and> files_in (case_id c) e (attachments s) \<and> all_checked (dto_passed dto) e
        \<and> in_future (license_until parse_iso e) now \<and> in_future (declared_expiry parse_iso e) now"
  shows "case_ok parse_iso (subjects s) (attachments s) (users s) (decided parse_iso u dto d now c)"
proof -
  let ?n = "decided parse_iso u dto d now c"
  have v: "validUntil c = None" "licenseValidUntil c = None" using c by (simp_all add: case_ok_def)
  have keep: "case_data ?n = case_data c" "case_subject ?n = case_subject c" "case_id ?n = case_id c"
    using guard_passes(2,3,7) [OF g] c(2) by simp_all
  have sub: "submittedAt ?n \<noteq> None" using guard_passes(7) [OF g] c by (auto simp: case_ok_def)
  have rev: "case_status ?n \<in> {CASE_APPROVED, CASE_REJECTED} \<longrightarrow> decidedAt ?n \<noteq> None \<and> reviewer_in ?n (users s)"
    using guard_passes(8) [OF g] accounts_listed by blast
  have st: "case_status ?n = (if approve dto then CASE_APPROVED else CASE_REJECTED)" by (simp add: decided_def)
  have granted: "\<exists>e. parseData parse_iso (subj_driver k \<noteq> None) (case_data c) = Some e \<and> files_in (case_id c) e (attachments s)
      \<and> granted_ok parse_iso ?n e" if yes: "approve dto"
  proof -
    obtain e where e: "d = Some e" "parseData parse_iso (subj_driver k \<noteq> None) (case_data c) = Some e"
        "files_in (case_id c) e (attachments s)" "all_checked (dto_passed dto) e" "in_future (license_until parse_iso e) now"
        "in_future (declared_expiry parse_iso e) now"
      using d [OF yes] by blast
    have "granted_ok parse_iso ?n e"
      using e(4-6) v unfolding granted_ok_def decided_def e(1) by (simp add: in_future_def split: option.splits)
    with e show ?thesis by blast
  qed
  have "checklist ?n \<noteq> None" by (simp add: decided_def)
  with r sub rev st granted k keep show ?thesis
    unfolding case_ok_def by (intro conjI bexI [of _ k]) auto
qed

lemma vkept_start_independent: "stepsT (vkept parse_iso) (start_independent j u now)"
proof -
  have d: "stepsT (vkept parse_iso) (update_driver k (\<lambda>x. x\<lparr>driver_status := DRV_ACTIVE, driver_availability := OFFLINE\<rparr>))" for k
    by (rule stepsTI, rule vkept_registry, erule kept_update_driver)
      (auto simp: find_driver_member dest: stepsTD [OF framed_writes(9)])
  have p: "stepsT (vkept parse_iso) (update_profile k (\<lambda>x. x\<lparr>profile_status := APPROVED, profile_approved := Some (now, u)\<rparr>))" for k
    by (rule stepsTI, rule vkept_registry, erule kept_update_profile)
      (auto dest: stepsTD [OF framed_writes(12)])
  show ?thesis
    unfolding start_independent_def
    by (cases "sv_driver j"; cases "sv_provider j") (auto intro!: vkept_rules d p)
qed

lemma vkept_start_vehicle: "stepsT (vkept parse_iso) (start_vehicle j)"
proof -
  have v: "stepsT (vkept parse_iso) (update_vehicle_row True k (\<lambda>x. x\<lparr>vehicle_status := VEH_ACTIVE, onboardingPending := False\<rparr>))" for k
    by (rule stepsTI, rule vkept_registry, erule kept_update_vehicle)
      (auto dest: stepsTD [OF framed_writes(14)])
  show ?thesis unfolding start_vehicle_def by (intro vkept_rules v)
qed

lemma vkept_notify: "stepsT (vkept parse_iso) (notify i now r)"
proof -
  have "stepsT (vkept parse_iso) (insert_notice (new_notice k i now r))" for k
    by (rule stepsTI, erule vkept_insert_notice) (simp add: new_notice_def)
  then show ?thesis unfolding notify_def by (intro vkept_rules)
qed

lemma vkept_decide: "stepsT (vkept parse_iso) (decide parse_iso b u key hash i dto now)"
  unfolding decide_def
proof (rule vkept_command [OF _ stepsTI])
  show "stepsT unchanged (bindT (reviewer_only u) (\<lambda>_. bindT (the_case u i False) (\<lambda>_. returnT ())))"
    by (intro reading.rules reading_authority reading_the_case)
next
  fix s x t assume run: "decide_apply parse_iso u i dto now s = Inr (x, t)"
  let ?rest = "\<lambda>c j. bindT (if approve dto then start_independent j u now else returnT ()) (\<lambda>_.
     bindT (if approve dto then start_vehicle j else returnT ()) (\<lambda>_. mapT (notify i now) (recipients c j)))"
  obtain c j s1 d s2 row s3 z where c: "the_case u i False s = Inr ((c, j), s1)" and st: "case_status c = SUBMITTED"
    and rv: "reviewed parse_iso c j dto now s1 = Inr (d, s2)" and w: "update_case i (decided parse_iso u dto d now) s2 = Inr (row, s3)"
    and rest: "?rest c j s3 = Inr (z, t)"
    using run unfolding decide_apply_def expect_version_def ensure_def
    by (clarsimp simp: tx_simps)
  note found = the_case_found [OF c] and r = review_Inr [OF rv]
  have s: "s1 = s" "s2 = s" using found r(1) by simp_all
  obtain k where k: "k \<in> set (subjects s)" "subj_id k = case_subject c" "j = view_of k s" using found by auto
  have "vkept parse_iso s s3"
    using w [unfolded s]
  proof (rule vkept_update_case)
    fix old :: case_row
    assume ok: "verification_ok parse_iso s" and old: "find_case i s = Some old"
      and g: "verification_case_guard (Some old) (decided parse_iso u dto d now old) s = None"
      and p: "case_revision (decided parse_iso u dto d now old) > 0"
      and co: "case_ok parse_iso (subjects s) (attachments s) (users s) old"
    have "old = c" using found old by simp
    then show "case_ok parse_iso (subjects s) (attachments s) (users s) (decided parse_iso u dto d now old)"
      using case_ok_decided [OF co _ g p k(1)] k(2) st r(2) view_driver [OF ok k(1)] k(3) s by (simp add: has_files_in)
  qed
  moreover have m: "stepsT (vkept parse_iso) (?rest c j)"
    by (intro vkept_rules vkept_start_independent vkept_start_vehicle vkept_notify)
  have "vkept parse_iso s3 t" by (rule stepsTD [OF m rest])
  ultimately show "vkept parse_iso s t" by (rule vkeeping.trans)
qed

subsection \<open>Accounts, terms and vehicles\<close>

lemma registry_ok_exempt: "registry_ok between s \<Longrightarrow> registry_ok (A, {}) s"
  by (auto simp: registry_ok_def registry_parts driver_ok_def)

lemma registry_ok_settled:
  "registry_ok ({d}, {}) s \<Longrightarrow> d \<in> profile_driver ` set (profile_rows s) \<Longrightarrow> registry_ok between s"
  by (auto simp: registry_ok_def registry_parts driver_ok_def)

lemma kept_new_driver_account:
  assumes "new_driver_account email password name now s = Inr (x, t)"
  shows "kept between s t"
proof -
  let ?u = "next_key s" and ?d = "Suc (next_key s)" and ?f = "Suc (Suc (next_key s))"
  let ?user = "\<lparr>user_id = ?u, user_email = email, user_password = Some password, user_role = DRIVER, user_active = True, user_verifiedAt = Some now\<rparr>"
  let ?driver = "\<lparr>driver_id = ?d, driver_provider = None, driver_user = ?u, driver_name = trim name, driver_displayName = None,
       driver_status = DRV_PENDING, driver_availability = OFFLINE\<rparr>"
  let ?profile = "\<lparr>profile_id = ?f, profile_driver = ?d, profile_status = PENDING, profile_approved = None, profile_suspended = None,
       profile_rejected = None, profile_reason = None\<rparr>"
  let ?X = "({?d}, {})"
  have s2: "s2 = s1\<lparr>users := users s1 @ [v]\<rparr>" if "insert_user v s1 = Inr (y, s2)" for v y s1 s2
    using that by (auto simp: insert_user_def split: if_splits)
  have s4: "s4 = s3\<lparr>driver_rows := driver_rows s3 @ [v]\<rparr>" if "insert_driver v s3 = Inr (y, s4)" for v y s3 s4
    using that by (auto simp: insert_driver_def split: if_splits)
  obtain y s2 z s4 w where
    user: "insert_user ?user (s\<lparr>next_key := Suc (next_key s)\<rparr>) = Inr (y, s2)"
    and driver: "insert_driver ?driver (s2\<lparr>next_key := Suc (next_key s2)\<rparr>) = Inr (z, s4)"
    and profile: "insert_profile ?profile (s4\<lparr>next_key := Suc (next_key s4)\<rparr>) = Inr (w, t)"
    and keys: "next_key s2 = Suc (next_key s)" "next_key s4 = Suc (Suc (next_key s))"
  proof -
    obtain y s2 k2 z s4 k3 w s5 where
      u: "insert_user ?user (s\<lparr>next_key := Suc (next_key s)\<rparr>) = Inr (y, s2)"
      and d: "insert_driver \<lparr>driver_id = next_key s2, driver_provider = None, driver_user = ?u, driver_name = trim name, driver_displayName = None,
         driver_status = DRV_PENDING, driver_availability = OFFLINE\<rparr> (s2\<lparr>next_key := Suc (next_key s2)\<rparr>) = Inr (z, s4)"
      and f: "insert_profile \<lparr>profile_id = next_key s4, profile_driver = next_key s2, profile_status = PENDING, profile_approved = None,
         profile_suspended = None, profile_rejected = None, profile_reason = None\<rparr> (s4\<lparr>next_key := Suc (next_key s4)\<rparr>) = Inr (w, s5)"
      and r: "independent_required (next_key s2) s5 = Inr (x, t)"
      using assms unfolding new_driver_account_def by (clarsimp simp: tx_simps draw_Inr)
    have "t = s5" using r by (auto simp: independent_required_def split: if_splits)
    moreover have k: "next_key s2 = Suc (next_key s)" using s2 [OF u] by simp
    moreover from this have "next_key s4 = Suc (Suc (next_key s))" using s4 [OF d] by simp
    ultimately show thesis using that u d f by simp
  qed
  have acc: "has_account DRIVER ?u (users s2)" using s2 [OF user] by simp
  have "kept ?X s s2"
    by (rule after_draw, rule kept_insert_user [OF user]) simp
  moreover have "kept ?X s2 s4"
    by (rule after_draw, rule kept_insert_driver [OF driver]) (use acc keys in auto)
  moreover have "kept ?X s4 t"
    by (rule after_draw, rule kept_insert_profile [OF profile]) (use keys s4 [OF driver] in simp_all)
  ultimately have "kept ?X s t" by (meson kept_trans)
  moreover have "?d \<in> profile_driver ` set (profile_rows t)"
    using profile by (auto simp: insert_profile_def split: if_splits)
  ultimately show ?thesis
    unfolding kept_def using registry_ok_exempt registry_ok_settled by blast
qed

lemma framed_new_driver_account: "stepsT framed (new_driver_account email password name now)"
  unfolding new_driver_account_def by (intro framed_rules)

lemma vkept_new_account: "stepsT (vkept parse_iso) (new_driver_account email password name now)"
  by (rule stepsTI, rule vkept_registry, erule kept_new_driver_account) (rule stepsTD [OF framed_new_driver_account])

lemma vkept_challenges:
  "stepsT (vkept parse_iso) (insert_challenge c)" "stepsT (vkept parse_iso) (consume_challenge i now)"
  by (rule stepsTI, erule vkept_insert_challenge vkept_consume_challenge)+

lemma vkept_register: "stepsT (vkept parse_iso) (register b email hash now)"
  unfolding register_def Let_def by (intro vkept_rules vkept_challenges)

lemma vkept_confirm: "stepsT (vkept parse_iso) (confirm b hash password name now)"
  unfolding confirm_def by (intro vkept_rules vkept_challenges vkept_new_account)

lemma vkept_requestEmail: "stepsT (vkept parse_iso) (requestEmailVerification b u hash now)"
  unfolding requestEmailVerification_def by (intro vkept_rules vkept_challenges)

lemma vkept_verified: "stepsT (vkept parse_iso) (update_user u (\<lambda>r. r\<lparr>user_verifiedAt := Some now\<rparr>))"
proof (rule stepsTI, rule vkept_registry)
  fix s x t assume w: "update_user u (\<lambda>r. r\<lparr>user_verifiedAt := Some now\<rparr>) s = Inr (x, t)"
  show "kept between s t"
    by (rule kept_update_user [OF w]) (use find_user_member in \<open>auto simp: invited_def\<close>)
  show "framed s t" by (rule stepsTD [OF framed_writes(3) w])
qed

lemma vkept_confirmEmail: "stepsT (vkept parse_iso) (confirmEmail b u hash now)"
  unfolding confirmEmail_def by (intro vkept_rules vkept_challenges vkept_verified)

lemma vkept_acceptTerms: "stepsT (vkept parse_iso) (acceptTerms b u key hash scope p version text_hash now)"
proof -
  have "stepsT (vkept parse_iso) (insert_acceptance a)" for a by (rule stepsTI, erule vkept_insert_acceptance)
  then show ?thesis unfolding acceptTerms_def by (intro vkept_command reading_authority vkept_rules)
qed

lemma vkept_onboarding: "stepsT (vkept parse_iso) (onboarding_createVehicle mx b u key hash identifier ty dto)"
  unfolding onboarding_createVehicle_def
proof (intro vkept_command reading_authority stepsTI vkept_registry)
  fix s :: verification and x t
  assume run: "(bindT (requireT (find_driver_of_user u) (VerificationRaised ''missing'')) (\<lambda>d.
        bindT (requireT (find_profile_of (driver_id d)) (Documentary ''INDEPENDENT_NOT_FOUND'')) (\<lambda>f.
        bindT (readT v_policy) (\<lambda>policy.
        bindT (readT (\<lambda>s. any_row (\<lambda>a. acc_user a = u \<and> acc_version a = driverTermsVersion policy) (acceptances s))) (\<lambda>agreed.
        bindT (ensure agreed ''TERMS_ACCEPTANCE_REQUIRED'') (\<lambda>_.
        bindT (readT (profile_vehicles (profile_id f))) (\<lambda>count.
        bindT (ensure (\<not> count \<ge> mx) ''VEHICLE_LIMIT_REACHED'') (\<lambda>_.
        bindT draw (\<lambda>k.
        bindT (insert_vehicle (new_vehicle k None (Some (profile_id f)) identifier ty VEH_INACTIVE True dto)) (\<lambda>v.
        returnT (VehicleReceipt (vehicle_id v) (vehicle_status v)))))))))))) s = Inr (x, t)"
  then obtain k f v where f: "find_profile_of k s = Some f"
    and w: "insert_vehicle (new_vehicle (next_key s) None (Some (profile_id f)) identifier ty VEH_INACTIVE True dto)
        (s\<lparr>next_key := Suc (next_key s)\<rparr>) = Inr (v, t)"
    by (auto simp: tx_simps draw_Inr ensure_def)
  have "f \<in> set (profile_rows s)" using f unfolding find_profile_of_def by (auto dest: first_row_Some)
  then show "kept between s t"
    by (intro after_draw [OF kept_insert_vehicle [OF w]]) (auto simp: new_vehicle_def)
  have "stepsT framed (bindT draw (\<lambda>k. insert_vehicle (new_vehicle k None (Some (profile_id f)) identifier ty VEH_INACTIVE True dto)) :: vehicle_row vtx)"
    by (intro framed_rules)
  moreover have "bindT draw (\<lambda>k. insert_vehicle (new_vehicle k None (Some (profile_id f)) identifier ty VEH_INACTIVE True dto)) s = Inr (v, t)"
    using w by (simp add: tx_simps draw_Inr)
  ultimately show "framed s t" by (rule stepsTD)
qed

lemma vkept_attempt: "stepsT (vkept parse_iso) (verification_attempt b u key op target close)"
proof -
  have "stepsT (vkept parse_iso) (insert_command c)" for c by (rule stepsTI) (rule vkept_insert_command)
  then show ?thesis
    unfolding verification_attempt_def by (intro vkept_rules vkept_reads [OF reading_attemptAuthority])
qed

lemma vkept_activation: "stepsT (vkept parse_iso) (activation b u key hash expected enabled)"
  unfolding activation_def
proof (rule vkept_command [OF reading_authority(4) stepsTI])
  fix s x t
  assume "bindT (readT v_policy) (\<lambda>policy.
        bindT (ensure (policy_revision policy = expected) ''VERIFICATION_VERSION_CONFLICT'') (\<lambda>_.
        (\<lambda>s. let p = policy\<lparr>policy_enabled := enabled, policy_revision := policy_revision policy + 1\<rparr>
              in Inr (PolicyReceipt (policy_enabled p) (policy_revision p), s\<lparr>v_policy := p\<rparr>)))) s = Inr (x, t)"
  then have "t = s\<lparr>v_policy := (v_policy s)\<lparr>policy_enabled := enabled, policy_revision := policy_revision (v_policy s) + 1\<rparr>\<rparr>"
    by (auto simp: tx_simps ensure_def Let_def)
  then show "vkept parse_iso s t" using vkept_policy [of s] by simp
qed

subsection \<open>The outbox\<close>

lemma vkept_lease: "stepsT (vkept parse_iso) (lease_notices now)"
proof (rule stepsTI)
  fix s x t assume run: "lease_notices now s = Inr (x, t)"
  let ?ids = "map notice_id (take 10 (filter (notice_due now) (notices s)))"
  have t: "t = s\<lparr>notices := update_rows (\<lambda>n. notice_id n \<in> set ?ids) (lease_notice now) (notices s)\<rparr>"
    using run by (auto simp: lease_notices_def Let_def)
  show "vkept parse_iso s t"
  proof (cases "distinct (map notice_id (notices s))")
    case True
    show ?thesis
      unfolding t
    proof (rule vkept_update_notices)
      fix n assume n: "n \<in> set (notices s)" "notice_id n \<in> set ?ids"
      then obtain m where "m \<in> set (notices s)" "notice_due now m" "notice_id m = notice_id n"
        by (auto dest!: in_set_takeD)
      with unique_key [OF True, of m n] n(1) have "notice_due now n" by simp
      then show "notice_id (lease_notice now n) = notice_id n \<and> notice_case (lease_notice now n) = notice_case n
          \<and> notice_recipient (lease_notice now n) = notice_recipient n \<and> (notice_attempts n \<le> 5 \<longrightarrow> notice_attempts (lease_notice now n) \<le> 5)"
        by (auto simp: lease_notice_def notice_due_def)
    qed
  next
    case False
    then show ?thesis by (simp add: vkept_def verification_ok_def documents_ok_def notices_ok_def)
  qed
qed

lemma vkept_send: "stepsT (vkept parse_iso) (send_notice accepts now item)"
proof -
  have m: "stepsT (vkept parse_iso) (settle_notice i k (if a then suppressed else if c then delivered_notice else failed_notice n now))" for i k a c n
    by (rule stepsTI)
      (auto simp: settle_notice_def suppressed_def delivered_notice_def failed_notice_def intro!: vkept_update_notices)
  show ?thesis unfolding send_notice_def by (intro m vkept_rules)
qed

end
