(* ===== verification/Verification_History.thy ===== *)
theory Verification_History imports Verification_System begin

text \<open>
  Histories of a database with driver verification: any order of the operations of the registry, of the
  service of verification and of the outbox, from a database whose tables of verification are empty.
  A failed operation changes nothing; \<open>upload\<close> is its first transaction, its second only reads.
\<close>

inductive verification_step :: "(string \<Rightarrow> instant option) \<Rightarrow> verification \<Rightarrow> verification \<Rightarrow> bool" for parse_iso where
  registry_part: "registry_step s t \<Longrightarrow> verification_step parse_iso s t"
| creates: "createCase b u key hash ty i s = Inr (r, t) \<Longrightarrow> verification_step parse_iso s t"
| updates: "updateCase parse_iso b u key hash i expected declared_json s = Inr (r, t) \<Longrightarrow> verification_step parse_iso s t"
| uploads: "upload_receipt b u key hash i expected cat now s = Inr (r, t) \<Longrightarrow> verification_step parse_iso s t"
| completes: "complete store b u key hash i a expected now s = Inr (r, t) \<Longrightarrow> verification_step parse_iso s t"
| removes: "removeAttachment b u key hash i a expected s = Inr (r, t) \<Longrightarrow> verification_step parse_iso s t"
| reads_file: "attachment_access b u i a s = Inr (f, t) \<Longrightarrow> verification_step parse_iso s t"
| submits: "submit parse_iso b u key hash i expected now s = Inr (r, t) \<Longrightarrow> verification_step parse_iso s t"
| withdraws: "withdraw b u key hash i expected s = Inr (r, t) \<Longrightarrow> verification_step parse_iso s t"
| decides: "decide parse_iso b u key hash i dto now s = Inr (r, t) \<Longrightarrow> verification_step parse_iso s t"
| registers: "register b email hash now s = Inr (c, t) \<Longrightarrow> verification_step parse_iso s t"
| confirms: "confirm b hash password name now s = Inr (x, t) \<Longrightarrow> verification_step parse_iso s t"
| requests: "requestEmailVerification b u hash now s = Inr (c, t) \<Longrightarrow> verification_step parse_iso s t"
| confirms_email: "confirmEmail b u hash now s = Inr (x, t) \<Longrightarrow> verification_step parse_iso s t"
| accepts: "acceptTerms b u key hash scope p version text_hash now s = Inr (r, t) \<Longrightarrow> verification_step parse_iso s t"
| adds_vehicle: "onboarding_createVehicle mx b u key hash identifier ty vdto s = Inr (r, t) \<Longrightarrow> verification_step parse_iso s t"
| asks: "verification_attempt b u k op target close s = Inr (x', t) \<Longrightarrow> verification_step parse_iso s t"
| switches: "activation b u key hash expected enabled s = Inr (r, t) \<Longrightarrow> verification_step parse_iso s t"
| leases: "lease_notices now s = Inr (items, t) \<Longrightarrow> verification_step parse_iso s t"
| sends: "send_notice mail_ok now item s = Inr (x, t) \<Longrightarrow> verification_step parse_iso s t"

lemmas vkept_operations =
  vkept_createCase vkept_updateCase vkept_upload vkept_complete vkept_removeAttachment vkept_attachment_access vkept_submit vkept_withdraw
  vkept_decide vkept_register vkept_confirm vkept_requestEmail vkept_confirmEmail vkept_acceptTerms vkept_onboarding vkept_attempt
  vkept_activation vkept_lease vkept_send

lemma vkept_step: "verification_step parse_iso s t \<Longrightarrow> vkept parse_iso s t"
proof (induction rule: verification_step.induct)
  case (registry_part s t)
  then show ?case by (blast intro: vkept_registry kept_step framed_step)
qed (erule vkept_operations [THEN stepsTD])+

interpretation verification_history: invariant_system "verification_step parse_iso" "verification_ok parse_iso" for parse_iso
  by unfold_locales (use vkept_step vkept_def in blast)

lemma vkept_steps:
  assumes "(verification_step parse_iso)\<^sup>*\<^sup>* s t"
  shows "vkept parse_iso s t"
  using assms by (induction rule: rtranclp_induct) (blast intro: vkeeping.refl vkeeping.trans vkept_step)+

definition undocumented :: "verification \<Rightarrow> bool" where
  "undocumented s \<longleftrightarrow>
     acceptances s = [] \<and> subjects s = [] \<and> case_rows s = [] \<and> attachments s = [] \<and> commands s = [] \<and> notices s = [] \<and> challenges s = []"

definition reachable_verification :: "(string \<Rightarrow> instant option) \<Rightarrow> verification \<Rightarrow> bool" where
  "reachable_verification parse_iso s \<longleftrightarrow> (\<exists>r. bootstrapped r \<and> undocumented r \<and> (verification_step parse_iso)\<^sup>*\<^sup>* r s)"

lemma undocumented_ok: "bootstrapped s \<Longrightarrow> undocumented s \<Longrightarrow> verification_ok parse_iso s"
  by (simp add: verification_ok_def bootstrapped_ok documents_ok_def undocumented_def subjects_ok_def cases_ok_def attachments_ok_def
      notices_ok_def terms_ok_def challenges_ok_def)

lemma reachable_verification_ok: "reachable_verification parse_iso s \<Longrightarrow> verification_ok parse_iso s"
  unfolding reachable_verification_def by (blast intro: verification_history.reachable_inv undocumented_ok)

lemma verification_history_grows:
  "(verification_step parse_iso)\<^sup>*\<^sup>* s t \<Longrightarrow> verification_ok parse_iso s \<Longrightarrow> verification_grows s t"
  using vkept_steps by (simp add: vkept_def)

subsection \<open>Commands\<close>

lemma command_key:
  assumes "find_command u k s = Some c" "set (commands s) \<subseteq> set (commands t)" "distinct (map (\<lambda>c. (cmd_actor c, cmd_key c)) (commands t))"
  shows "find_command u k t = Some c"
proof -
  have c: "c \<in> set (commands t)" "cmd_actor c = u" "cmd_key c = k"
    using first_row_Some [OF assms(1) [unfolded find_command_def]] assms(2) by auto
  show ?thesis
    using first_row_unique_key [OF assms(3) c(1)] c(2,3) by (simp add: find_command_def)
qed

lemma command_stays:
  assumes "verification_ok parse_iso s" "(verification_step parse_iso)\<^sup>*\<^sup>* s t" "find_command u k s = Some c"
  shows "find_command u k t = Some c"
proof -
  have "verification_ok parse_iso t" "verification_grows s t"
    using vkept_steps [OF assms(2)] assms(1) by (simp_all add: vkept_def)
  then show ?thesis
    using command_key [OF assms(3)] documents_parts(5) by (simp add: verification_grows_def)
qed

lemma command_recorded:
  assumes "command b u (Some k) op target hash authority m s = Inr (r, t)"
  shows "\<exists>c. find_command u k t = Some c \<and> cmd_operation c = op \<and> cmd_target c = target \<and> cmd_hash c = hash \<and> cmd_result c = r \<and> \<not> cmd_closed c"
  using assms
  by (auto simp: command_def replay_command_def assertLocal_def ensure_def tx_simps insert_command_def event_def find_command_def
      first_row_append first_row_single split: option.split_asm if_split_asm)

lemma command_replays:
  assumes "find_command u k t = Some c" "stepsT unchanged authority" "command b u (Some k) op target hash authority m t = Inr r"
  shows "replay_command c op target hash t = Inr r"
proof -
  obtain t1 where t1: "authority t = Inr ((), t1)"
    and rest: "(case find_command u k t1 of Some c \<Rightarrow> replay_command c op target hash
        | None \<Rightarrow> bindT m (\<lambda>result.
         bindT (insert_command \<lparr>cmd_actor = u, cmd_key = k, cmd_operation = op, cmd_target = target, cmd_hash = hash,
           cmd_result = result, cmd_closed = False\<rparr>) (\<lambda>_. bindT (event u target op) (\<lambda>_. returnT result)))) t1 = Inr r"
    using assms(3) unfolding command_def assertLocal_def ensure_def by (auto simp: tx_simps)
  have "t1 = t" by (rule unchangedD [OF assms(2) t1])
  with rest assms(1) show ?thesis by simp
qed

end
