(* ===== verification/Verification_Properties.thy ===== *)
theory Verification_Properties imports Verification_History begin

text \<open>
  The contract of driver verification over every history: reviews follow their abstract life, what was
  approved was seen and checked, whoever is admitted holds approvals that are in force, and a key is
  answered once.
\<close>

subsection \<open>The approved case of a scope\<close>

lemma latest_member: "latest cs = Some c \<Longrightarrow> c \<in> set cs"
  by (induction cs arbitrary: c) (auto split: option.splits if_splits)

lemma later_case_total: "\<not> later_case a b \<Longrightarrow> \<not> later_case b c \<Longrightarrow> \<not> later_case a c"
  by (auto simp: later_case_def Let_def)

lemma latest_is_last: "latest cs = Some c \<Longrightarrow> d \<in> set cs \<Longrightarrow> \<not> later_case d c"
proof (induction cs arbitrary: c d)
  case (Cons x xs)
  have self: "\<not> later_case x x" for x by (simp add: later_case_def)
  show ?case
  proof (cases "latest xs")
    case None
    then have "xs = []" by (cases xs) (auto split: option.splits if_splits)
    with Cons.prems None self show ?thesis by auto
  next
    case (Some y)
    have rest: "\<not> later_case e y" if "e \<in> set xs" for e using Cons.IH [OF Some that] .
    show ?thesis
    proof (cases "later_case y x")
      case True
      with Cons.prems Some have "c = y" by simp
      moreover have "\<not> later_case x y" using True by (auto simp: later_case_def Let_def)
      ultimately show ?thesis using rest Cons.prems(2) by auto
    next
      case False
      with Cons.prems Some have "c = x" by simp
      moreover have "\<not> later_case e x" if "e \<in> set xs" for e
        using later_case_total [OF rest [OF that] False] .
      ultimately show ?thesis using self Cons.prems(2) by auto
    qed
  qed
qed simp

lemma approved_case_Some:
  assumes "approved_case P s = Some c"
  shows "c \<in> set (case_rows s) \<and> case_status c = CASE_APPROVED \<and> (\<exists>j \<in> set (subjects s). subj_id j = case_subject c \<and> P j)"
  using latest_member [OF assms [unfolded approved_case_def]] by (auto simp: any_row_iff)

lemma approved_case_last:
  assumes "approved_case P s = Some c" "e \<in> set (case_rows s)" "case_status e = CASE_APPROVED" "j \<in> set (subjects s)"
    "subj_id j = case_subject e" "P j"
  shows "\<not> later_case e c"
  using latest_is_last [OF assms(1) [unfolded approved_case_def]] assms(2-6) by (auto simp: any_row_iff)

subsection \<open>What an approval stands for\<close>

definition documented :: "(string \<Rightarrow> instant option) \<Rightarrow> bool \<Rightarrow> case_row \<Rightarrow> verification \<Rightarrow> declared \<Rightarrow> bool" where
  "documented parse_iso driver c s d \<longleftrightarrow>
     parseData parse_iso driver (case_data c) = Some d
     \<and> (\<forall>cat \<in> set (categories d). \<exists>a \<in> set (attachments s). att_case a = case_id c \<and> att_status a = ATT_VALIDATED \<and> att_category a = cat
          \<and> att_evidence a \<noteq> None)
     \<and> set (the (checklist c)) = set (checks d)
     \<and> (\<exists>w \<in> set (users s). reviewer c = Some (user_id w) \<and> user_active w \<and> user_role w = SUPER_ADMIN)"

lemma approved_documented:
  assumes ok: "verification_ok parse_iso s" and c: "c \<in> set (case_rows s)" "case_status c = CASE_APPROVED"
    and j: "j \<in> set (subjects s)" "subj_id j = case_subject c"
  shows "\<exists>d. documented parse_iso (subj_driver j \<noteq> None) c s d \<and> granted_ok parse_iso c d"
proof -
  have co: "case_ok parse_iso (subjects s) (attachments s) (users s) c"
    using documents_parts(3) [OF ok] c(1) by (simp add: cases_ok_def)
  then obtain i d where i: "i \<in> set (subjects s)" "subj_id i = case_subject c"
    and d: "parseData parse_iso (subj_driver i \<noteq> None) (case_data c) = Some d" "files_in (case_id c) d (attachments s)" "granted_ok parse_iso c d"
    using c(2) unfolding case_ok_def by auto
  have "i = j" using the_subject [OF ok i(1) j(1)] i(2) j(2) by simp
  moreover have "reviewer_in c (users s)" using co c(2) by (simp add: case_ok_def)
  then have "\<exists>w \<in> set (users s). reviewer c = Some (user_id w) \<and> user_active w \<and> user_role w = SUPER_ADMIN"
    by (auto simp: reviewer_in_def has_account_def)
  moreover have "\<exists>a \<in> set (attachments s). att_case a = case_id c \<and> att_status a = ATT_VALIDATED \<and> att_category a = cat \<and> att_evidence a \<noteq> None"
    if "cat \<in> set (categories d)" for cat
    using d(2) that documents_parts(4) [OF ok] unfolding files_in_def attachments_ok_def by meson
  moreover have "set (the (checklist c)) = set (checks d)" using d(3) by (simp add: granted_ok_def all_checked_iff)
  ultimately show ?thesis using d unfolding documented_def by blast
qed

subsection \<open>The contract\<close>

text \<open>
  C39: A history of the verification database is a history of the abstract review of every case: a case is
  opened, submitted, then granted or refused or dropped, and what is decided is the data and the material
  that were submitted.
\<close>

theorem reviews_follow_the_contract:
  assumes "reachable_verification parse_iso s" "(verification_step parse_iso)\<^sup>*\<^sup>* s t"
  shows "review_step\<^sup>*\<^sup>* (review_of s) (review_of t)"
  using vkept_steps [OF assms(2)] reachable_verification_ok [OF assms(1)] by (simp add: vkept_def)

text \<open>
  C40: In every reachable database, an approved case has data that still parses, a validated file with its
  evidence for every document the data requires, exactly the checks the data requires, and an active
  SUPER_ADMIN as its reviewer.
\<close>

theorem approved_cases_are_documented:
  assumes "reachable_verification parse_iso s" "c \<in> set (case_rows s)" "case_status c = CASE_APPROVED"
  shows "\<exists>j \<in> set (subjects s). subj_id j = case_subject c \<and> (\<exists>d. documented parse_iso (subj_driver j \<noteq> None) c s d)"
proof -
  note ok = reachable_verification_ok [OF assms(1)]
  have "case_ok parse_iso (subjects s) (attachments s) (users s) c"
    using documents_parts(3) [OF ok] assms(2) by (simp add: cases_ok_def)
  then obtain j where j: "j \<in> set (subjects s)" "subj_id j = case_subject c" unfolding case_ok_def by blast
  with approved_documented [OF ok assms(2,3) j] show ?thesis by blast
qed

text \<open>
  When the database admits a driver with a vehicle under verification (its policy is on, or the driver has
  no provider), both have a documented approval, the last one of their scope, of the name and the vehicle
  as they are now; and unless the vehicle is a bicycle, the approved identity declared a license that
  covers its type and has not expired.
\<close>

theorem admitted_pairs_are_verified:
  assumes "reachable_verification parse_iso s" "verification_eligibility local_test now d v s = None"
    and "find_driver d s = Some dr" "find_vehicle v s = Some veh" "policy_enabled (v_policy s) \<or> driver_provider dr = None"
  shows "\<exists>ic vc e f. ic \<in> set (case_rows s) \<and> vc \<in> set (case_rows s) \<and> documented parse_iso True ic s e \<and> documented parse_iso False vc s f
     \<and> case_material ic = DriverMaterial (driver_name dr) \<and> case_material vc = vehicle_material veh
     \<and> accepted_by (driver_user dr) (driverTermsVersion (v_policy s)) s
     \<and> (vehicle_type veh = BICYCLE
        \<or> (\<exists>l x. declared_license e = Some l \<and> license_until parse_iso e = Some x \<and> now < x \<and> vehicle_type veh \<in> set (lic_vehicleTypes l)))"
proof -
  note ok = reachable_verification_ok [OF assms(1)]
  let ?P = "\<lambda>j. subj_driver j = Some d \<and> subj_provider j = vehicle_provider veh \<and> subj_profile j = vehicle_profile veh"
  let ?Q = "\<lambda>j. subj_vehicle j = Some v"
  obtain ic vc where a: "approved_case ?P s = Some ic" "approved_case ?Q s = Some vc" "reviewed_problem dr veh ic vc now s = None"
    using assms(2-5) unfolding verification_eligibility_def by (auto split: if_splits option.splits)
  obtain j where j: "ic \<in> set (case_rows s)" "case_status ic = CASE_APPROVED" "j \<in> set (subjects s)" "subj_id j = case_subject ic" "?P j"
    using approved_case_Some [OF a(1)] by blast
  obtain k where k: "vc \<in> set (case_rows s)" "case_status vc = CASE_APPROVED" "k \<in> set (subjects s)" "subj_id k = case_subject vc" "?Q k"
    using approved_case_Some [OF a(2)] by blast
  have kd: "subj_driver k = None"
    using documents_parts(2) [OF ok] k(3,5) by (auto simp: subjects_ok_def subject_check_def)
  obtain e where e: "documented parse_iso True ic s e" "granted_ok parse_iso ic e"
    using approved_documented [OF ok j(1-4)] j(5) by auto
  obtain f where f: "documented parse_iso False vc s f"
    using approved_documented [OF ok k(1-4)] kd by auto
  have r: "case_material ic = DriverMaterial (driver_name dr)" "case_material vc = vehicle_material veh"
      "accepted_by (driver_user dr) (driverTermsVersion (v_policy s)) s" "license_problem veh ic now = None"
    using a(3) unfolding reviewed_problem_def by (simp_all split: if_split_asm)
  have "\<exists>l x. declared_license e = Some l \<and> license_until parse_iso e = Some x \<and> now < x \<and> vehicle_type veh \<in> set (lic_vehicleTypes l)"
    if "vehicle_type veh \<noteq> BICYCLE"
  proof -
    have "\<exists>x. licenseValidUntil ic = Some x \<and> now < x" "vehicle_type veh \<in> set (licenseVehicleTypes ic)"
      using r(4) that by (auto simp: license_problem_def split: option.splits if_splits)
    with e(2) show ?thesis
      by (auto simp: granted_ok_def split: option.splits)
  qed
  with j k e f r show ?thesis by blast
qed

text \<open>
  A decision that is repeated with its key, at any later time, is answered with the recorded result and
  changes nothing, or is refused.
\<close>

theorem repeated_decision_replays:
  assumes "reachable_verification parse_iso r" "decide parse_iso b u (Some k) hash i dto now r = Inr (x, s)"
    and "(verification_step parse_iso)\<^sup>*\<^sup>* s t" "decide parse_iso b' u (Some k) hash i dto later t = Inr (y, t')"
  shows "y = x \<and> t' = t"
proof -
  obtain c where c: "find_command u k s = Some c" "cmd_operation c = DECIDE" "cmd_target c = RowTarget i" "cmd_hash c = hash"
      "cmd_result c = x" "\<not> cmd_closed c"
    using command_recorded [OF assms(2) [unfolded decide_def]] by blast
  have "verification_ok parse_iso s"
    using decides [OF assms(2)] reachable_verification_ok [OF assms(1)] verification_history.inv_step by blast
  from command_stays [OF this assms(3) c(1)] have f: "find_command u k t = Some c" .
  have "stepsT unchanged (bindT (reviewer_only u) (\<lambda>_. bindT (the_case u i False) (\<lambda>_. returnT ())))"
    by (intro reading.rules reading_authority reading_the_case)
  from command_replays [OF f this assms(4) [unfolded decide_def]] have "replay_command c DECIDE (RowTarget i) hash t = Inr (y, t')" .
  with c show ?thesis by (auto simp: replay_command_def ensure_def tx_simps)
qed

text \<open>
  An attempt that its caller closed never applies: no command of that caller with its key succeeds later.
\<close>

theorem closed_attempt_never_applies:
  assumes "reachable_verification parse_iso r" "verification_attempt b u k op target True r = Inr (CLOSED_NO_EFFECTS, s)"
    and "(verification_step parse_iso)\<^sup>*\<^sup>* s t" "stepsT unchanged authority"
  shows "command b' u (Some k) op' target' hash authority m t \<noteq> Inr (y, t')"
proof
  assume run: "command b' u (Some k) op' target' hash authority m t = Inr (y, t')"
  have "\<exists>c. find_command u k s = Some c \<and> cmd_closed c"
  proof -
    obtain r1 where auth: "attemptAuthority u op target r = Inr ((), r1)"
      and rest: "(case find_command u k r1 of
         Some c \<Rightarrow> bindT (ensure (cmd_operation c = op \<and> cmd_target c = target) ''IDEMPOTENCY_KEY_REUSED'') (\<lambda>_.
           returnT (if cmd_closed c then CLOSED_NO_EFFECTS else APPLIED (cmd_result c)))
       | None \<Rightarrow> bindT (insert_command \<lparr>cmd_actor = u, cmd_key = k, cmd_operation = op, cmd_target = target, cmd_hash = [],
           cmd_result = NoResult, cmd_closed = True\<rparr>) (\<lambda>_. returnT CLOSED_NO_EFFECTS)) r1 = Inr (CLOSED_NO_EFFECTS, s)"
      using assms(2) unfolding verification_attempt_def assertLocal_def ensure_def by (auto simp: tx_simps)
    show ?thesis
    proof (cases "find_command u k r1")
      case None
      with rest have "s = r1\<lparr>commands := commands r1 @ [\<lparr>cmd_actor = u, cmd_key = k, cmd_operation = op, cmd_target = target, cmd_hash = [],
           cmd_result = NoResult, cmd_closed = True\<rparr>]\<rparr>"
        by (auto simp: tx_simps insert_command_def)
      with None show ?thesis by (simp add: find_command_def first_row_append first_row_single)
    next
      case (Some c)
      with rest show ?thesis by (auto simp: tx_simps ensure_def split: if_splits)
    qed
  qed
  then obtain c where c: "find_command u k s = Some c" "cmd_closed c" by blast
  have "verification_ok parse_iso s"
    using asks [OF assms(2)] reachable_verification_ok [OF assms(1)] verification_history.inv_step by blast
  from command_stays [OF this assms(3) c(1)] have f: "find_command u k t = Some c" .
  from command_replays [OF f assms(4) run] have "replay_command c op' target' hash t = Inr (y, t')" .
  with c(2) show False by (auto simp: replay_command_def ensure_def tx_simps)
qed

text \<open>
  The data a presenter declares is stored trimmed and in its canonical form, and reads back as it was
  accepted.
\<close>

theorem stored_declaration_reads_back:
  assumes "parseData parse_iso b v = Some d"
  shows "parseData parse_iso b (stored d) = Some d"
  using assms by (rule parse_stored)

end
