(* ===== verification/Verification_Scenarios.thy ===== *)
theory Verification_Scenarios imports Verification_Properties begin

text \<open>
  Ana registers, accepts the terms, and presents her identity with a license and then her motorcycle; an
  administrator approves both. The history runs from an empty database, and the properties apply to it.
\<close>

declare all_checked_iff [code]

definition did :: "'a vtx \<Rightarrow> verification \<Rightarrow> verification option" where
  "did m s = (case m s of Inl e \<Rightarrow> None | Inr (x, t) \<Rightarrow> Some t)"

fun follow :: "(verification \<Rightarrow> verification option) list \<Rightarrow> verification \<Rightarrow> verification option" where
  "follow [] s = Some s"
| "follow (f # fs) s = (case f s of None \<Rightarrow> None | Some t \<Rightarrow> follow fs t)"

lemma did_Some: "did m s = Some t \<longleftrightarrow> (\<exists>x. m s = Inr (x, t))"
  by (auto simp: did_def split: sum.splits)

lemma follow_steps:
  assumes "list_all (\<lambda>f. \<forall>s t. f s = Some t \<longrightarrow> verification_step parse_iso s t) fs" "follow fs s = Some t"
  shows "(verification_step parse_iso)\<^sup>*\<^sup>* s t"
  using assms by (induction fs arbitrary: s) (auto split: option.splits intro: converse_rtranclp_into_rtranclp)

definition dates :: "string \<Rightarrow> instant option" where
  "dates d = Some 900"

definition ana_root :: verification where
  "ana_root =
     \<lparr>users = [\<lparr>user_id = 1, user_email = ''r'', user_password = Some ''x'', user_role = SUPER_ADMIN, user_active = True, user_verifiedAt = None\<rparr>],
      provider_rows = [], members = [], driver_rows = [], profile_rows = [], vehicle_rows = [], pairing_rows = [], invitations = [],
      deliveries = [], next_key = 2,
      v_policy = \<lparr>policy_enabled = True, policy_revision = 1, driverTermsVersion = ''D'', fleetTermsVersion = ''F''\<rparr>,
      v_terms = [\<lparr>terms_version = ''D'', terms_hash = ''t'', terms_local = True\<rparr>],
      acceptances = [], subjects = [], case_rows = [], attachments = [], commands = [], v_events = [], notices = [], challenges = []\<rparr>"

definition ana_identity :: json where
  "ana_identity = JObj [(''fullName'', JStr ''Ana''), (''contactPhone'', JStr ''12345''), (''operatingCity'', JStr ''GT''), (''documentType'', JStr ''INE''),
     (''license'', JObj [(''issuer'', JStr ''S''), (''category'', JStr ''A''), (''expiresAt'', JStr ''d''), (''vehicleTypes'', JArr [JStr ''MOTORCYCLE''])])]"

definition ana_unit :: json where
  "ana_unit = JObj [(''declaredOwnerName'', JStr ''Ana''), (''ownershipEvidenceType'', JStr ''OWNED''), (''serialNumber'', JStr ''N1'')]"

definition stored_ok :: "attachment_row \<Rightarrow> stored_file" where
  "stored_ok a = FileStored \<lparr>ev_bytes = 1, ev_hash = ''h'', ev_sourceHash = ''g''\<rparr>"

definition yes :: "int \<Rightarrow> string list \<Rightarrow> decision_dto" where
  "yes n checked = \<lparr>approve = True, dto_expected = n, dto_checklistVersion = POLICY_VERSION, dto_passed = checked, dto_reason = None\<rparr>"

definition bike :: vehicle_dto where
  "bike = \<lparr>dto_identifier = None, dto_type = None, dto_status = None, dto_brand = None, dto_model = None, dto_year = None, dto_plate = Some (Some ''P'')\<rparr>"

definition ana_presents :: "(verification \<Rightarrow> verification option) list" where
  "ana_presents =
     [did (register True ''a@b'' ''k'' 0), did (confirm True ''k'' ''pw'' ''Ana'' 1),
      did (acceptTerms True 3 (Some 1) ''h'' DRIVER_SCOPE None ''D'' ''t'' 2),
      did (createCase True 3 (Some 2) ''h'' DRIVER_IDENTITY 4),
      did (updateCase dates True 3 (Some 3) ''h'' 8 1 ana_identity),
      did (upload_receipt True 3 (Some 4) ''h'' 8 2 FACE_PHOTO 10), did (upload_receipt True 3 (Some 5) ''h'' 8 3 INE_FRONT 10),
      did (upload_receipt True 3 (Some 6) ''h'' 8 4 INE_BACK 10), did (upload_receipt True 3 (Some 7) ''h'' 8 5 LICENSE 10),
      did (complete stored_ok True 3 (Some 8) ''h'' 8 9 6 20), did (complete stored_ok True 3 (Some 9) ''h'' 8 10 7 20),
      did (complete stored_ok True 3 (Some 10) ''h'' 8 11 8 20), did (complete stored_ok True 3 (Some 11) ''h'' 8 12 9 20),
      did (submit dates True 3 (Some 12) ''h'' 8 10 30)]"

definition ana_approval :: decision_dto where
  "ana_approval = yes 11 [''IDENTITY_MATCH'', ''LEGIBLE'', ''LICENSE_HOLDER'', ''LICENSE_VALIDITY'', ''LICENSE_CATEGORY'']"

definition ana_approved :: "(verification \<Rightarrow> verification option) list" where
  "ana_approved = ana_presents @ [did (decide dates True 1 (Some 13) ''h'' 8 ana_approval 40)]"

definition ana_rides :: "(verification \<Rightarrow> verification option) list" where
  "ana_rides =
     [did (onboarding_createVehicle 3 True 3 (Some 14) ''h'' ''M1'' MOTORCYCLE bike), did (createCase True 3 (Some 15) ''h'' VEHICLE_SUBJECT 14),
      did (updateCase dates True 3 (Some 16) ''h'' 16 1 ana_unit),
      did (upload_receipt True 3 (Some 17) ''h'' 16 2 REGISTRATION_CARD 50), did (upload_receipt True 3 (Some 18) ''h'' 16 3 OWNERSHIP_PROOF 50),
      did (complete stored_ok True 3 (Some 19) ''h'' 16 17 4 60), did (complete stored_ok True 3 (Some 20) ''h'' 16 18 5 60),
      did (submit dates True 3 (Some 21) ''h'' 16 6 70),
      did (decide dates True 1 (Some 22) ''h'' 16 (yes 7 [''UNIT_MATCH'', ''LEGIBLE'', ''AUTHORIZED_USE'']) 80)]"

subsection \<open>Running the scenario\<close>

definition ana_again :: "v_result vtx" where
  "ana_again = decide dates True 1 (Some 13) ''h'' 8 ana_approval 40"

lemma ana_runs:
  "(case follow ana_presents ana_root of
      None \<Rightarrow> False
    | Some s \<Rightarrow>
        review_of s 8 = Some (Reviewing ana_identity (DriverMaterial ''Ana''))
        \<and> (case ana_again s of
             Inl e \<Rightarrow> False
           | Inr (r, t) \<Rightarrow>
               r = DecisionReceipt 8 CASE_APPROVED 12 40 \<and> any_row (\<lambda>c. case_status c = CASE_APPROVED) (case_rows t)
               \<and> (case ana_again t of Inl e \<Rightarrow> False | Inr (r', t') \<Rightarrow> True)
               \<and> (case follow ana_rides t of
                    None \<Rightarrow> False
                  | Some w \<Rightarrow> policy_enabled (v_policy w) \<and> verification_eligibility True 100 4 14 w = None
                      \<and> find_driver 4 w \<noteq> None \<and> map_option vehicle_type (find_vehicle 14 w) = Some MOTORCYCLE)))"
  by code_simp

lemma ana_closes:
  "(case follow ana_presents ana_root of
      None \<Rightarrow> False
    | Some s \<Rightarrow> (case verification_attempt True 1 99 DECIDE (RowTarget 8) True s of Inl e \<Rightarrow> False | Inr (r, t) \<Rightarrow> r = CLOSED_NO_EFFECTS))"
  by code_simp

lemma ana_moves:
  "list_all (\<lambda>f. \<forall>s t. f s = Some t \<longrightarrow> verification_step dates s t) ana_presents"
  "list_all (\<lambda>f. \<forall>s t. f s = Some t \<longrightarrow> verification_step dates s t) ana_rides"
  by (auto simp: ana_presents_def ana_rides_def did_Some
      intro: registers confirms accepts creates updates uploads completes submits decides adds_vehicle)

lemma ana_starts: "bootstrapped ana_root" "undocumented ana_root"
  by (simp_all add: bootstrapped_def undocumented_def ana_root_def users_ok_def user_check_def)

lemma ana_presented:
  obtains s r t w where "reachable_verification dates s" "ana_again s = Inr (r, t)" "verification_step dates s t"
    "review_of s 8 = Some (Reviewing ana_identity (DriverMaterial ''Ana''))" "r = DecisionReceipt 8 CASE_APPROVED 12 40"
    "\<exists>c \<in> set (case_rows t). case_status c = CASE_APPROVED" "\<exists>r' t'. ana_again t = Inr (r', t')" "reachable_verification dates t"
    "reachable_verification dates w" "policy_enabled (v_policy w)" "verification_eligibility True 100 4 14 w = None"
    "find_driver 4 w \<noteq> None" "map_option vehicle_type (find_vehicle 14 w) = Some MOTORCYCLE" "follow ana_presents ana_root = Some s"
proof -
  obtain s where s: "follow ana_presents ana_root = Some s"
    using ana_runs by (auto split: option.splits)
  obtain r t where t: "ana_again s = Inr (r, t)"
    using ana_runs s by (auto split: option.splits sum.splits)
  obtain w where w: "follow ana_rides t = Some w"
    using ana_runs s t by (auto split: option.splits sum.splits)
  have root: "(verification_step dates)\<^sup>*\<^sup>* ana_root s" by (rule follow_steps [OF ana_moves(1) s])
  have st: "verification_step dates s t" using t unfolding ana_again_def by (rule decides)
  have tw: "(verification_step dates)\<^sup>*\<^sup>* t w" by (rule follow_steps [OF ana_moves(2) w])
  have "reachable_verification dates s" "reachable_verification dates t" "reachable_verification dates w"
    unfolding reachable_verification_def using ana_starts root st tw by (meson rtranclp.rtrancl_into_rtrancl rtranclp_trans)+
  then show thesis
    using that [of s r t w] ana_runs s t w st by (auto simp: any_row_iff split: sum.splits)
qed

subsection \<open>The properties on the scenario\<close>

theorem reviews_follow_the_contract_witness:
  "\<exists>s t. review_of s 8 = Some (Reviewing ana_identity (DriverMaterial ''Ana'')) \<and> ana_again s = Inr (DecisionReceipt 8 CASE_APPROVED 12 40, t)
     \<and> review_step\<^sup>*\<^sup>* (review_of s) (review_of t)"
proof -
  obtain s r t where h: "reachable_verification dates s" "ana_again s = Inr (r, t)" "verification_step dates s t"
    "review_of s 8 = Some (Reviewing ana_identity (DriverMaterial ''Ana''))" "r = DecisionReceipt 8 CASE_APPROVED 12 40"
    by (rule ana_presented)
  from reviews_follow_the_contract [OF h(1) r_into_rtranclp [where r = "verification_step dates", OF h(3)]] h(2,4,5) show ?thesis by blast
qed

theorem approved_cases_are_documented_witness:
  "\<exists>t c. c \<in> set (case_rows t) \<and> case_status c = CASE_APPROVED
     \<and> (\<exists>j \<in> set (subjects t). subj_id j = case_subject c \<and> (\<exists>d. documented dates (subj_driver j \<noteq> None) c t d))"
proof -
  obtain t c where h: "reachable_verification dates t" "c \<in> set (case_rows t)" "case_status c = CASE_APPROVED"
    using ana_presented by metis
  from approved_cases_are_documented [OF h] h(2,3) show ?thesis by blast
qed

theorem admitted_pairs_are_verified_witness:
  "\<exists>w ic vc e f. documented dates True ic w e \<and> documented dates False vc w f \<and> verification_eligibility True 100 4 14 w = None
     \<and> (\<exists>l x. declared_license e = Some l \<and> license_until dates e = Some x \<and> 100 < x \<and> MOTORCYCLE \<in> set (lic_vehicleTypes l))"
proof -
  obtain w where h: "reachable_verification dates w" "policy_enabled (v_policy w)" "verification_eligibility True 100 4 14 w = None"
    "find_driver 4 w \<noteq> None" "map_option vehicle_type (find_vehicle 14 w) = Some MOTORCYCLE"
    by (rule ana_presented)
  then obtain dr veh where f: "find_driver 4 w = Some dr" "find_vehicle 14 w = Some veh" "vehicle_type veh = MOTORCYCLE" by auto
  from admitted_pairs_are_verified [OF h(1,3) f(1,2) disjI1 [OF h(2)]]
  have "\<exists>ic vc e f. documented dates True ic w e \<and> documented dates False vc w f
     \<and> (\<exists>l x. declared_license e = Some l \<and> license_until dates e = Some x \<and> 100 < x \<and> MOTORCYCLE \<in> set (lic_vehicleTypes l))"
    unfolding f(3) by simp blast
  with h(3) show ?thesis by blast
qed

theorem repeated_decision_replays_witness:
  "\<exists>s t. ana_again s = Inr (DecisionReceipt 8 CASE_APPROVED 12 40, t) \<and> ana_again t = Inr (DecisionReceipt 8 CASE_APPROVED 12 40, t)"
proof -
  obtain s r t where h: "reachable_verification dates s" "ana_again s = Inr (r, t)" "r = DecisionReceipt 8 CASE_APPROVED 12 40"
    "\<exists>r' t'. ana_again t = Inr (r', t')"
    by (rule ana_presented)
  then obtain r' t' where again: "ana_again t = Inr (r', t')" by blast
  from repeated_decision_replays [OF h(1) h(2) [unfolded ana_again_def] rtranclp.rtrancl_refl again [unfolded ana_again_def]] h again
  show ?thesis by blast
qed

theorem closed_attempt_never_applies_witness:
  "\<exists>s t. verification_attempt True 1 99 DECIDE (RowTarget 8) True s = Inr (CLOSED_NO_EFFECTS, t)
     \<and> (\<forall>y t'. command True 1 (Some 99) DECIDE (RowTarget 8) ''h'' (reviewer_only 1) (returnT NoResult) t \<noteq> Inr (y, t'))"
proof -
  obtain s where h: "reachable_verification dates s" "follow ana_presents ana_root = Some s"
    by (rule ana_presented)
  then obtain t where t: "verification_attempt True 1 99 DECIDE (RowTarget 8) True s = Inr (CLOSED_NO_EFFECTS, t)"
    using ana_closes by (auto split: sum.splits)
  from closed_attempt_never_applies [OF h(1) t rtranclp.rtrancl_refl reading_authority(4)] t show ?thesis by blast
qed

theorem stored_declaration_reads_back_witness:
  "\<exists>d. parseData dates True ana_identity = Some d \<and> parseData dates True (stored d) = Some d"
proof -
  have "parseData dates True ana_identity \<noteq> None" by code_simp
  then obtain d where d: "parseData dates True ana_identity = Some d" by blast
  from stored_declaration_reads_back [OF d] d show ?thesis by blast
qed

end
