(* ===== verification/Spec2Isabelle.thy ===== *)
theory Spec2Isabelle imports Credit_Policies Rate_Plans Scenarios Webhook_Scenarios Prequote_Consumption Prequote_Scenarios Registry_Scenarios Verification_Scenarios begin

text \<open>
  Mandaria is a backend that prices deliveries for integrated clients, opens a dispatch when a quote is
  accepted, offers it to providers and independent drivers, charges credits to whoever wins it, and
  follows the service until it is delivered or undone. Its rules live in two places that have to agree:
  TypeScript services (under src/src) and the CHECKs, indexes and triggers of PostgreSQL (under
  src/prisma/migrations). The development models both and shows what they guarantee together.

  \<^bold>\<open>How a service is modelled.\<close> A table is a list of rows, the database a record of tables
  (\<open>Data_Model\<close>), a transaction a function from the database to an error or to a value and the next
  database (\<open>Mandaria_Prelude\<close>): an error carries no database, so it rolls back. A handler is the
  reads, guards, writes and early returns of its source in their order, and every write meets the
  database guards that a row of that table meets, in the order PostgreSQL fires them. Transactions
  are serial, which is what the row locks and advisory locks of the code establish; where a handler
  reads before it locks, the value read is an argument or the handler is given in two parts, so that
  another transaction can commit in between. Clocks are arguments: one for the process, one for the
  database. Identifiers are numbers, instants milliseconds, amounts whole numbers of credits or
  hundredths. What is not in the repository is a parameter: the routing provider, the SHA-256
  fingerprint of a request, the answer of the document verification.

  \<^bold>\<open>Prices.\<close>
  \<^item> \<open>Distance_Tables\<close>: tables of half-open intervals and the interface (locale) that the two tables of the
    program provide.
  \<^item> \<open>Credit_Policy\<close> (credits/credit-policy.ts), \<open>Credit_Policy_Engine\<close>
    (credit-policies/credit-policy-engine.ts), \<open>Credit_Policies\<close>
    (credit-policies/credit-policies.service.ts): limits, validation and calculation of the credit
    cost, policy versions. A validated policy prices every distance as documented.
  \<^item> \<open>Rate_Bands\<close>, \<open>Quote_Pricing\<close>, \<open>Rate_Plans\<close> (rate-plans/, pricing/quote-pricing.ts): the price of a
    quote and the life of a rate plan.

  \<^bold>\<open>Credits.\<close>
  \<^item> \<open>Credit_Ledger\<close>: the guards of the append-only ledger and the trigger that moves a balance.
  \<^item> \<open>Service_Credits\<close> (credits/service-award.ts, service-refund.ts, award-boundary.ts): charge and refund
    of a dispatch. \<open>Credit_Accounts\<close> (credits/credit-accounts.service.ts): recharge and adjust, with
    replay of a repeated key.
  \<^item> \<open>Award_Economy\<close>: the invariant between ledger and dispatches.
  \<^item> \<open>Award_Triggers\<close>: the award checks that PostgreSQL defers to the COMMIT (migrations 20260923000200 and
    20260923001600) and the invariant behind them; \<open>commit_passes\<close> is what they ask of the tables a transaction
    leaves. Every other guard is part of the write that meets it.

  \<^bold>\<open>Dispatches.\<close>
  \<^item> \<open>Dispatch_Guards\<close>: writes of dispatches, candidates and assignments with their triggers. \<open>Claims\<close>: the
    invariants of these tables.
  \<^item> \<open>Dispatch_Search\<close> (dispatch/dispatch-search.ts, dispatch-policy.ts), \<open>Dispatch_Service\<close>
    (dispatch/dispatch.service.ts: claim, release), \<open>Delivery_Assignments\<close> (delivery-assignments/),
    \<open>Delivery_Status\<close> and \<open>Delivery_Completion\<close> (deliveries/, b2b-events/b2b-outbox.ts),
    \<open>Independent_Dispatches\<close> (independent-drivers/independent-dispatches.service.ts),
    \<open>Delivery_Cancellation\<close> (delivery-requests/delivery-requests.service.ts: cancel),
    \<open>Search_Worker\<close> (dispatch/dispatch-search.worker.ts), \<open>Dispatch_Opening\<close>
    (dispatch-policy.ts: openDispatch; delivery-quotes/delivery-quotes.service.ts: accept;
    credit-policies/dispatch-credit-snapshots.ts). \<open>Dispatch_Reversal\<close> and \<open>Opening_Rules\<close> hold what
    their proofs share.

  \<^bold>\<open>The system.\<close> \<open>Transaction_Steps\<close> gives two program logics for transactions, as locales: one for
  invariants (\<open>sound\<close>) and one for relations between the state before and after. \<open>System_History\<close> and
  \<open>Dispatch_System\<close> instantiate them on the model: \<open>system_step\<close> is one committed handler, or a change
  of the tables that other parts of the program own, and every reachable state satisfies the
  invariants of all components. \<open>Claim_Success\<close> and \<open>Search_Termination\<close> add that an eligible claim is
  decided by the credits alone and that the automatic search ends; \<open>Award_Integrity\<close> that no handler leaves
  anything the deferred award checks could refuse. \<open>Scenarios\<close> holds concrete states
  and runs the handlers on them.

  \<^bold>\<open>Webhooks.\<close> \<open>Webhook_Policy\<close> holds the tables of events, deliveries, attempts and endpoints with their
  guards and the retry schedule (b2b-webhooks/webhook-retry-policy.ts, webhook-operations.ts);
  \<open>Webhook_Delivery\<close> the worker and the administration (b2b-webhooks.service.ts,
  webhook-operations.service.ts); \<open>Webhook_Targets\<close> and \<open>Webhook_Transport\<close> the address tests and one attempt
  (webhook-target.ts, webhook-transport.ts). \<open>Webhook_System\<close> is the step relation with its invariant,
  \<open>Webhook_Progress\<close> shows that a pass of the worker leaves nothing due, \<open>Webhook_History\<close> what no later step
  undoes, \<open>Webhook_Scenarios\<close> runs concrete deliveries.

  \<^bold>\<open>Prequotes.\<close> \<open>Prequote_Quota\<close> and \<open>Prequote_Consumption\<close> (delivery-prequotes/consumption-policy.ts,
  durable-prequote-consumption.ts) are the permits that bound how many routes a client may ask for.
  \<open>Canonical_Json\<close> and \<open>Prequote_Conditions\<close> (prequote-conditions.ts) are the canonical text whose
  fingerprint identifies a request, and the normal form of the conditions of an offer. \<open>Prequote_Executions\<close>
  (prequote-persistence.service.ts) is the life of an idempotency key: reserve, route, fail or publish, with
  the CHECKs and deferred triggers of its tables; \<open>Prequote_Leases\<close> shows which lease may write,
  \<open>Prequote_Scenarios\<close> runs it.

  \<^bold>\<open>The registry.\<close> \<open>Registry_Tables\<close> has the tables of providers, members, drivers, vehicles, pairings,
  independent profiles, users and invitations with their guards; \<open>Registry_Services\<close> the handlers of
  providers/, drivers/, vehicles/, assignments/ and independent-drivers/; \<open>Invitations\<close> those of
  invitations/. \<open>Registry_Invariants\<close> and \<open>Registry_System\<close> carry the well-formedness of the tables over
  every history; \<open>Registry_Properties\<close> and \<open>Registry_Scenarios\<close> state and run what follows from it.

  \<^bold>\<open>Driver verification.\<close> \<open>Verification_Tables\<close> has the tables of subjects, cases, attachments, commands,
  acceptances, policy and notices with their guards; \<open>Verification_Rules\<close> (verification-policy.ts,
  verification-rules.ts) what a declaration must hold and which files it requires; \<open>Verification_Cases\<close>,
  \<open>Verification_Review\<close> and \<open>Verification_Accounts\<close> the handlers of verification.service.ts and the outbox
  of verification-notifications.ts. A transaction reads the process clock once. \<open>Verification_Invariants\<close>,
  \<open>Verification_Frame\<close> and \<open>Verification_Writes\<close> show that every write keeps the tables well formed,
  \<open>Verification_System\<close> and \<open>Verification_History\<close> lift it to histories (\<open>vkept\<close> is what no step undoes, and
  a simulation of an abstract review of each case), \<open>Verification_Properties\<close> and
  \<open>Verification_Scenarios\<close> state and run the contract.

  \<^bold>\<open>Loops and bounds.\<close> Every loop of the modelled code runs over rows that are already read or text that is
  already there, so it is structural recursion and there is no fuel. The bounds that matter are written
  out: balances between 0 and 1,000,000,000, movements up to 1,000,000, at most 5 search rounds, at most
  50 dispatches a pass of the worker, the windows and limits of the permits. JavaScript numbers and
  PostgreSQL INTEGER values stay below these bounds, far from where doubles or 32-bit integers lose
  precision.

  \<^bold>\<open>Not modelled.\<close> Paginated listings and read views, HTTP controllers, DTO annotations and response
  schemas, mail texts, and the migration and seeding scripts. Parameters of the model, because their code is
  not in the repository or works on data HOL does not have as such: password hashing, JWT, SHA-256, HMAC
  and AES-GCM; the URL parser, DNS and fetch; routing over HTTP; the point in polygon test over doubles;
  object storage, the image library and the date format of zod. The switch \<open>credit_history_purge_allowed\<close>, which
  lets the test suite empty the credit tables, is off. The credit account that a trigger creates
  with a provider or an independent profile belongs to the credit theories and is not a row of the
  registry.
\<close>

end
